(* ===== verification/Prelude.thy ===== *)
theory Prelude
  imports Main "HOL-Library.Word" "HOL-Library.Multiset" "HOL-Library.Char_ord"
    "HOL-Library.List_Lexorder"
begin

text \<open>
  Shared vocabulary of the development: the byte-string model of Rust's \<open>&str\<close> and
  \<open>&[u8]\<close>, the result type of fallible code, the checked and saturating operations on
  \<open>usize\<close>, and the generic lemmas on lists and results the component theories share.

  A Rust string is its UTF-8 byte sequence (\<open>string\<close>, one \<open>char\<close> per byte), so
  \<open>length\<close> is \<open>str::len\<close>. A \<open>Result<T, E>\<close> is \<open>'e + 'a\<close> with \<open>Inl\<close> for
  \<open>Err\<close>; the operator \<open>?\<close> is \<open>try_in\<close>, and \<open>collect::<Result<Vec<_>, _>>()\<close>
  over a mapped iterator is \<open>traverse\<close>. Code that may panic returns an \<open>option\<close> whose
  \<open>None\<close> is the panic.
\<close>

unbundle bit_operations_syntax

named_theorems result_simps \<open>characterisations of successful and failed results\<close>
named_theorems str_simps \<open>unfolding of the string operations\<close>

type_synonym bytes = string

section \<open>Results\<close>

definition try_in :: "'e + 'a \<Rightarrow> ('a \<Rightarrow> 'e + 'b) \<Rightarrow> 'e + 'b" where
  "try_in r f = (case r of Inl e \<Rightarrow> Inl e | Inr a \<Rightarrow> f a)"

lemma try_in_simps [simp]:
  "try_in (Inl e) f = Inl e"
  "try_in (Inr a) f = f a"
  by (simp_all add: try_in_def)

lemma try_in_Inr_iff [result_simps]:
  "try_in r f = Inr b \<longleftrightarrow> (\<exists>a. r = Inr a \<and> f a = Inr b)"
  by (cases r) simp_all

lemma try_in_Inl_iff [result_simps]:
  "try_in r f = Inl e \<longleftrightarrow> (r = Inl e \<or> (\<exists>a. r = Inr a \<and> f a = Inl e))"
  by (cases r) simp_all

lemma try_in_cong [fundef_cong]:
  "r = r' \<Longrightarrow> (\<And>a. r' = Inr a \<Longrightarrow> f a = g a) \<Longrightarrow> try_in r f = try_in r' g"
  by (cases r') simp_all

text \<open>\<open>Option::ok_or\<close> and \<open>Result::map_err\<close>.\<close>

definition ok_or :: "'a option \<Rightarrow> 'e \<Rightarrow> 'e + 'a" where
  "ok_or x e = (case x of None \<Rightarrow> Inl e | Some a \<Rightarrow> Inr a)"

lemma ok_or_simps [simp]:
  "ok_or None e = Inl e"
  "ok_or (Some a) e = Inr a"
  by (simp_all add: ok_or_def)

lemma ok_or_Inr_iff [result_simps]: "ok_or x e = Inr a \<longleftrightarrow> x = Some a"
  by (cases x) simp_all

lemma ok_or_Inl_iff [result_simps]: "ok_or x e = Inl e' \<longleftrightarrow> x = None \<and> e' = e"
  by (cases x) auto

definition map_err :: "('e \<Rightarrow> 'f) \<Rightarrow> 'e + 'a \<Rightarrow> 'f + 'a" where
  "map_err f r = (case r of Inl e \<Rightarrow> Inl (f e) | Inr a \<Rightarrow> Inr a)"

lemma map_err_simps [simp]:
  "map_err f (Inl e) = Inl (f e)"
  "map_err f (Inr a) = Inr a"
  by (simp_all add: map_err_def)

lemma map_err_Inr_iff [result_simps]: "map_err f r = Inr a \<longleftrightarrow> r = Inr a"
  by (cases r) simp_all

definition is_ok :: "'e + 'a \<Rightarrow> bool" where
  "is_ok r = (case r of Inl _ \<Rightarrow> False | Inr _ \<Rightarrow> True)"

lemma is_ok_simps [simp]: "is_ok (Inr a)" "\<not> is_ok (Inl e)"
  by (simp_all add: is_ok_def)

lemma is_ok_iff: "is_ok r \<longleftrightarrow> (\<exists>a. r = Inr a)"
  by (cases r) simp_all

fun traverse :: "('a \<Rightarrow> 'e + 'b) \<Rightarrow> 'a list \<Rightarrow> 'e + 'b list" where
  "traverse f [] = Inr []"
| "traverse f (x # xs) = try_in (f x) (\<lambda>y. try_in (traverse f xs) (\<lambda>ys. Inr (y # ys)))"

lemma traverse_Inr_iff [result_simps]:
  "traverse f xs = Inr ys \<longleftrightarrow> list_all2 (\<lambda>x y. f x = Inr y) xs ys"
  by (induction xs arbitrary: ys) (auto simp: result_simps list_all2_Cons1)

lemma traverse_Inl_mem: "traverse f xs = Inl e \<Longrightarrow> \<exists>x \<in> set xs. f x = Inl e"
  by (induction xs) (auto simp: result_simps)

lemma traverse_total: "(\<And>x. x \<in> set xs \<Longrightarrow> \<exists>y. f x = Inr y) \<Longrightarrow> \<exists>ys. traverse f xs = Inr ys"
proof (induction xs)
  case (Cons x xs)
  obtain y where "f x = Inr y" using Cons.prems by auto
  moreover obtain ys where "traverse f xs = Inr ys" using Cons by auto
  ultimately show ?case by simp
qed simp

lemma traverse_append:
  "traverse f (xs @ ys) = try_in (traverse f xs) (\<lambda>as. try_in (traverse f ys) (\<lambda>bs. Inr (as @ bs)))"
  by (induction xs) (auto simp: try_in_def split: sum.splits)

text \<open>A loop over a list that carries a state and stops at the first error.\<close>

fun fold_res :: "('s \<Rightarrow> 'a \<Rightarrow> 'e + 's) \<Rightarrow> 's \<Rightarrow> 'a list \<Rightarrow> 'e + 's" where
  "fold_res f s [] = Inr s"
| "fold_res f s (x # xs) = try_in (f s x) (\<lambda>s'. fold_res f s' xs)"

lemma fold_res_append:
  "fold_res f s (xs @ ys) = try_in (fold_res f s xs) (\<lambda>s'. fold_res f s' ys)"
  by (induction xs arbitrary: s) (auto simp: try_in_def split: sum.splits)

lemma fold_res_concat:
  "fold_res f s (concat xss) = fold_res (\<lambda>s xs. fold_res f s xs) s xss"
  by (induction xss arbitrary: s) (simp_all add: fold_res_append)

text \<open>An invariant of every successful step is an invariant of the loop.\<close>

lemma fold_res_invariant:
  assumes "fold_res f s xs = Inr t" and "P s"
    and "\<And>s x s'. x \<in> set xs \<Longrightarrow> P s \<Longrightarrow> f s x = Inr s' \<Longrightarrow> P s'"
  shows "P t"
  using assms
proof (induction xs arbitrary: s)
  case Nil
  then show ?case by simp
next
  case (Cons x xs)
  then obtain s' where "f s x = Inr s'" "fold_res f s' xs = Inr t"
    by (auto simp: result_simps)
  with Cons.prems Cons.IH [of s'] show ?case by auto
qed

text \<open>A loop whose every step keeps an invariant and appends to an output.\<close>

lemma fold_res_collect:
  assumes "fold_res f s xs = Inr t" and "I s"
    and "\<And>s x s'. x \<in> set xs \<Longrightarrow> I s \<Longrightarrow> f s x = Inr s' \<Longrightarrow> I s' \<and> out s' = out s @ g x"
  shows "I t \<and> out t = out s @ concat (map g xs)"
  using assms
proof (induction xs arbitrary: s)
  case Nil
  then show ?case by simp
next
  case (Cons x xs)
  then obtain s' where s': "f s x = Inr s'" "fold_res f s' xs = Inr t"
    by (auto simp: result_simps)
  with Cons.prems have "I s' \<and> out s' = out s @ g x" by auto
  with Cons.IH [OF s'(2)] Cons.prems(3) show ?case by auto
qed

lemma list_all2_mem2:
  assumes "list_all2 P xs ys" and "y \<in> set ys"
  obtains x where "x \<in> set xs" and "P x y"
  using assms by (induction xs ys rule: list_all2_induct) auto

lemma split_at_Cons_iff:
  "(\<exists>pre post. y # ys = pre @ x # post \<and> P pre) \<longleftrightarrow>
     (y = x \<and> P []) \<or> (\<exists>pre post. ys = pre @ x # post \<and> P (y # pre))" (is "?L \<longleftrightarrow> ?R")
proof
  assume ?L
  then obtain pre post where "y # ys = pre @ x # post" "P pre" by blast
  then show ?R by (cases pre) auto
next
  assume ?R
  then show ?L
  proof
    assume "y = x \<and> P []"
    then have "y # ys = [] @ x # ys \<and> P []" by simp
    then show ?L by blast
  next
    assume "\<exists>pre post. ys = pre @ x # post \<and> P (y # pre)"
    then obtain pre post where "y # ys = (y # pre) @ x # post \<and> P (y # pre)" by auto
    then show ?L by blast
  qed
qed

section \<open>Machine integers\<close>

text \<open>
  \<open>usize\<close> and \<open>u64\<close> have 64 bits on the supported targets. Sizes are natural numbers
  and the operations that can leave the range say what the source does there.
\<close>

definition usize_max :: nat where
  "usize_max = 2 ^ 64 - 1"

definition checked_add :: "nat \<Rightarrow> nat \<Rightarrow> nat option" where
  "checked_add a b = (if a + b \<le> usize_max then Some (a + b) else None)"

definition saturating_add :: "nat \<Rightarrow> nat \<Rightarrow> nat" where
  "saturating_add a b = min (a + b) usize_max"

definition saturating_sub :: "nat \<Rightarrow> nat \<Rightarrow> nat" where
  "saturating_sub a b = (if b \<le> a then a - b else 0)"

definition div_ceil :: "nat \<Rightarrow> nat \<Rightarrow> nat" where
  "div_ceil a b = (let q = a div b in if 0 < a mod b then q + 1 else q)"

lemma checked_add_Some_iff [result_simps]:
  "checked_add a b = Some c \<longleftrightarrow> c = a + b \<and> a + b \<le> usize_max"
  by (auto simp: checked_add_def)

lemma div_ceil_cases:
  assumes "0 < b"
  shows "a mod b = 0 \<and> div_ceil a b * b = a \<or>
         0 < a mod b \<and> div_ceil a b * b = a - a mod b + b"
proof -
  have "a div b * b = a - a mod b" by (simp add: minus_mod_eq_div_mult)
  then show ?thesis by (auto simp: div_ceil_def Let_def)
qed

lemma div_ceil_bounds:
  assumes "0 < b"
  shows "a \<le> div_ceil a b * b" and "div_ceil a b * b < a + b"
proof -
  have le: "a mod b \<le> a" and lt: "a mod b < b" using assms by simp_all
  show "a \<le> div_ceil a b * b"
    using div_ceil_cases [OF assms, of a] lt by linarith
  show "div_ceil a b * b < a + b"
    using div_ceil_cases [OF assms, of a] le assms by linarith
qed

lemma div_ceil_pos: "0 < a \<Longrightarrow> 0 < b \<Longrightarrow> 0 < div_ceil a b"
  using div_ceil_bounds(1) [of b a] by (cases "div_ceil a b") auto

lemma div_ceil_le:
  assumes "0 < b"
  shows "div_ceil a b \<le> a"
proof -
  have "a div b * b + a mod b = a" by simp
  moreover have "a div b \<le> a div b * b" using assms by simp
  ultimately have "a div b + a mod b \<le> a" by linarith
  then show ?thesis unfolding div_ceil_def Let_def by (cases "0 < a mod b") auto
qed

section \<open>Strings\<close>

definition byte :: "char \<Rightarrow> nat" where
  "byte c = of_char c"

definition is_ascii_uppercase :: "char \<Rightarrow> bool" where
  "is_ascii_uppercase c \<longleftrightarrow> 65 \<le> byte c \<and> byte c \<le> 90"

definition is_ascii_lowercase :: "char \<Rightarrow> bool" where
  "is_ascii_lowercase c \<longleftrightarrow> 97 \<le> byte c \<and> byte c \<le> 122"

definition is_ascii_digit :: "char \<Rightarrow> bool" where
  "is_ascii_digit c \<longleftrightarrow> 48 \<le> byte c \<and> byte c \<le> 57"

definition is_ascii_alphanumeric :: "char \<Rightarrow> bool" where
  "is_ascii_alphanumeric c \<longleftrightarrow> is_ascii_uppercase c \<or> is_ascii_lowercase c \<or> is_ascii_digit c"

text \<open>\<open>u8::is_ascii_whitespace\<close>: space, tab, line feed, form feed, carriage return.\<close>

definition is_ascii_whitespace :: "char \<Rightarrow> bool" where
  "is_ascii_whitespace c \<longleftrightarrow> byte c \<in> {32, 9, 10, 12, 13}"

definition ascii_lower :: "char \<Rightarrow> char" where
  "ascii_lower c = (if is_ascii_uppercase c then char_of (byte c + 32) else c)"

definition ascii_upper :: "char \<Rightarrow> char" where
  "ascii_upper c = (if is_ascii_lowercase c then char_of (byte c - 32) else c)"

definition to_ascii_lowercase :: "string \<Rightarrow> string" where
  "to_ascii_lowercase s = map ascii_lower s"

definition to_ascii_uppercase :: "string \<Rightarrow> string" where
  "to_ascii_uppercase s = map ascii_upper s"

definition eq_ignore_ascii_case :: "string \<Rightarrow> string \<Rightarrow> bool" where
  "eq_ignore_ascii_case a b \<longleftrightarrow> to_ascii_lowercase a = to_ascii_lowercase b"

definition starts_with :: "string \<Rightarrow> string \<Rightarrow> bool" where
  "starts_with s p \<longleftrightarrow> take (length p) s = p"

definition ends_with :: "string \<Rightarrow> string \<Rightarrow> bool" where
  "ends_with s p \<longleftrightarrow> starts_with (rev s) (rev p)"

definition strip_prefix :: "string \<Rightarrow> string \<Rightarrow> string option" where
  "strip_prefix s p = (if starts_with s p then Some (drop (length p) s) else None)"

definition strip_suffix :: "string \<Rightarrow> string \<Rightarrow> string option" where
  "strip_suffix s p = map_option rev (strip_prefix (rev s) (rev p))"

text \<open>\<open>str::split\<close> on one separator byte: never empty, \<open>n\<close> separators give \<open>n + 1\<close> parts.\<close>

fun split_on :: "char \<Rightarrow> string \<Rightarrow> string list" where
  "split_on c [] = [[]]"
| "split_on c (x # xs) =
     (if x = c then [] # split_on c xs
      else (case split_on c xs of [] \<Rightarrow> [[x]] | p # ps \<Rightarrow> (x # p) # ps))"

text \<open>\<open>str::split_once\<close> on one separator byte.\<close>

fun split_once :: "char \<Rightarrow> string \<Rightarrow> (string \<times> string) option" where
  "split_once c [] = None"
| "split_once c (x # xs) =
     (if x = c then Some ([], xs)
      else map_option (\<lambda>(a, b). (x # a, b)) (split_once c xs))"

text \<open>
  \<open>str::trim\<close> removes every leading and trailing character with the Unicode property
  \<open>White_Space\<close>; the list below holds their UTF-8 encodings.
\<close>

definition unicode_whitespace :: "string list" where
  "unicode_whitespace =
     [[CHR 0x20], [CHR 0x09], [CHR 0x0A], [CHR 0x0B], [CHR 0x0C], [CHR 0x0D],
      [CHR 0xC2, CHR 0x85], [CHR 0xC2, CHR 0xA0], [CHR 0xE1, CHR 0x9A, CHR 0x80]]
     @ map (\<lambda>b. [CHR 0xE2, CHR 0x80, b])
        [CHR 0x80, CHR 0x81, CHR 0x82, CHR 0x83, CHR 0x84, CHR 0x85, CHR 0x86, CHR 0x87,
         CHR 0x88, CHR 0x89, CHR 0x8A, CHR 0xA8, CHR 0xA9, CHR 0xAF]
     @ [[CHR 0xE2, CHR 0x81, CHR 0x9F], [CHR 0xE3, CHR 0x80, CHR 0x80]]"

lemma unicode_whitespace_nonempty: "w \<in> set unicode_whitespace \<Longrightarrow> w \<noteq> []"
  by (auto simp: unicode_whitespace_def)

lemma starts_with_shrinks:
  "w \<noteq> [] \<Longrightarrow> starts_with s w \<Longrightarrow> length s - length w < length s"
  by (cases s) (auto simp: starts_with_def)

function trim_front :: "string list \<Rightarrow> string \<Rightarrow> string" where
  "trim_front ws s =
     (case find (\<lambda>w. w \<noteq> [] \<and> starts_with s w) ws of
        None \<Rightarrow> s
      | Some w \<Rightarrow> trim_front ws (drop (length w) s))"
  by pat_completeness auto
termination
  by (relation "measure (\<lambda>(ws, s). length s)")
     (auto simp: find_Some_iff intro: starts_with_shrinks)

declare trim_front.simps [simp del]

definition trim :: "string \<Rightarrow> string" where
  "trim s = rev (trim_front (map rev unicode_whitespace)
                   (rev (trim_front unicode_whitespace s)))"

lemma length_trim_front: "length (trim_front ws s) \<le> length s"
proof (induction ws s rule: trim_front.induct)
  case (1 ws s)
  show ?case
  proof (cases "find (\<lambda>w. w \<noteq> [] \<and> starts_with s w) ws")
    case None
    then show ?thesis by (simp add: trim_front.simps [of ws s])
  next
    case (Some w)
    with 1 [OF Some] show ?thesis by (simp add: trim_front.simps [of ws s])
  qed
qed

lemma length_trim: "length (trim s) \<le> length s"
  unfolding trim_def
  by (metis length_rev length_trim_front order_trans)

lemma trim_Nil [simp]: "trim [] = []"
  using length_trim [of "[]"] by simp

lemma split_on_nonempty [simp]: "split_on c s \<noteq> []"
  by (cases s) (auto split: list.splits)

lemma split_on_no_sep: "p \<in> set (split_on c s) \<Longrightarrow> c \<notin> set p"
  by (induction s arbitrary: p) (auto split: if_splits list.splits)

lemma split_once_Some:
  "split_once c s = Some (a, b) \<longleftrightarrow> s = a @ c # b \<and> c \<notin> set a"
proof (induction s arbitrary: a b)
  case Nil
  then show ?case by simp
next
  case (Cons x xs)
  then show ?case by (cases a) auto
qed

lemma split_once_None: "split_once c s = None \<longleftrightarrow> c \<notin> set s"
  by (induction s) auto

lemma starts_with_iff: "starts_with s p \<longleftrightarrow> (\<exists>t. s = p @ t)"
proof
  assume "starts_with s p"
  then have "s = p @ drop (length p) s"
    using append_take_drop_id [of "length p" s] by (simp add: starts_with_def)
  then show "\<exists>t. s = p @ t" ..
qed (auto simp: starts_with_def)

lemma ends_with_iff: "ends_with s p \<longleftrightarrow> (\<exists>t. s = t @ p)"
proof -
  have "(\<exists>t. rev s = rev p @ t) \<longleftrightarrow> (\<exists>t. s = t @ p)"
    by (metis rev_append rev_rev_ident)
  then show ?thesis by (simp add: ends_with_def starts_with_iff)
qed

lemma strip_prefix_Some_iff [result_simps]: "strip_prefix s p = Some t \<longleftrightarrow> s = p @ t"
  by (auto simp: strip_prefix_def starts_with_iff)

lemma strip_suffix_Some_iff [result_simps]: "strip_suffix s p = Some t \<longleftrightarrow> s = t @ p"
proof -
  have "strip_suffix s p = Some t \<longleftrightarrow> (\<exists>u. rev s = rev p @ u \<and> t = rev u)"
    by (auto simp: strip_suffix_def strip_prefix_Some_iff)
  also have "\<dots> \<longleftrightarrow> s = t @ p"
    by (auto simp: rev_swap intro: exI [of _ "rev t"])
  finally show ?thesis .
qed

lemma byte_inject: "byte a = byte b \<longleftrightarrow> a = b"
  by (simp add: byte_def)

lemma byte_less_256: "byte c < 256"
  using range_nat_of_char by (auto simp: byte_def)

lemma byte_char_of [simp]: "n < 256 \<Longrightarrow> byte (char_of n) = n"
  by (simp add: byte_def take_bit_eq_mod)

lemma ascii_lower_idem [simp]: "ascii_lower (ascii_lower c) = ascii_lower c"
  by (auto simp: ascii_lower_def is_ascii_uppercase_def)

lemma ascii_lower_not_upper: "\<not> is_ascii_uppercase (ascii_lower c)"
  by (auto simp: ascii_lower_def is_ascii_uppercase_def)

lemma to_ascii_lowercase_idem [simp]:
  "to_ascii_lowercase (to_ascii_lowercase s) = to_ascii_lowercase s"
  by (simp add: to_ascii_lowercase_def)

lemma length_to_ascii_lowercase [simp]: "length (to_ascii_lowercase s) = length s"
  by (simp add: to_ascii_lowercase_def)

lemma ascii_upper_not_lower: "\<not> is_ascii_lowercase (ascii_upper c)"
  by (auto simp: ascii_upper_def is_ascii_lowercase_def)

lemma ascii_upper_idem [simp]: "ascii_upper (ascii_upper c) = ascii_upper c"
  using ascii_upper_not_lower [of c] by (simp add: ascii_upper_def)

lemma ascii_lower_upper: "ascii_lower (ascii_upper c) = ascii_lower c"
  by (auto simp: ascii_lower_def ascii_upper_def is_ascii_lowercase_def is_ascii_uppercase_def byte_def)

lemma lower_upper: "to_ascii_lowercase (to_ascii_uppercase s) = to_ascii_lowercase s"
  by (simp add: to_ascii_lowercase_def to_ascii_uppercase_def ascii_lower_upper)

lemma to_ascii_uppercase_id: "\<not> list_ex is_ascii_lowercase s \<Longrightarrow> to_ascii_uppercase s = s"
  unfolding to_ascii_uppercase_def
  by (rule map_idI) (auto simp: ascii_upper_def list_ex_iff)

lemma to_ascii_uppercase_idem [simp]:
  "to_ascii_uppercase (to_ascii_uppercase s) = to_ascii_uppercase s"
  by (simp add: to_ascii_uppercase_def)

lemmas string_defs = to_ascii_lowercase_def to_ascii_uppercase_def eq_ignore_ascii_case_def
  starts_with_def ends_with_def strip_prefix_def strip_suffix_def

lemma unat_next: "(n :: 'a :: len word) \<noteq> - 1 \<Longrightarrow> unat (n + 1) = Suc (unat n)"
  by (metis add.commute add_eq_0_iff unatSuc)

end
