(* ===== verification/Http_Interface.thy ===== *)
theory Http_Interface
  imports Prelude
begin

text \<open>
  The interface of the \<open>http\<close> crate, which is not part of the repository: the header
  map, header name, header value, method, status code and URI operations the ingress and egress
  code calls. They are the fields of one record that every definition using the crate takes as
  an argument; what the code relies on is stated as the predicates \<open>header_map_laws\<close> and
  \<open>header_text_laws\<close>, which restate the crate's documentation. \<open>list_http\<close> is an
  instance over association lists, used to exhibit concrete executions.

  A method, a header name and a URI component are the strings their \<open>as_str\<close> returns. A
  header value carries its bytes and the sensitivity mark of \<open>set_sensitive\<close>.
\<close>

type_synonym http_method = string
type_synonym header_name = string

record header_value =
  hv_bytes :: bytes
  hv_sensitive :: bool

abbreviation plain :: "string \<Rightarrow> header_value" where
  "plain s \<equiv> \<lparr>hv_bytes = s, hv_sensitive = False\<rparr>"

record uri =
  uri_scheme_str :: "string option"
  uri_authority :: "string option"
  uri_path_and_query :: "string option"
  uri_path :: string
  uri_query :: "string option"

record 'h http_lib =
  header_name_from_bytes :: "string \<Rightarrow> header_name option"
  header_value_from_str :: "string \<Rightarrow> bool"
  header_value_to_str :: "bytes \<Rightarrow> bool"
  method_from_bytes :: "string \<Rightarrow> bool"
  status_from_u16 :: "nat \<Rightarrow> bool"
  uri_parse :: "string \<Rightarrow> uri option"
  hm_new :: "'h"
  hm_get_all :: "'h \<Rightarrow> header_name \<Rightarrow> header_value list"
  hm_iter :: "'h \<Rightarrow> (header_name \<times> header_value) list"
  hm_insert :: "'h \<Rightarrow> header_name \<Rightarrow> header_value \<Rightarrow> 'h"
  hm_append :: "'h \<Rightarrow> header_name \<Rightarrow> header_value \<Rightarrow> 'h"
  hm_remove :: "'h \<Rightarrow> header_name \<Rightarrow> 'h"
  hm_iter_mut :: "'h \<Rightarrow> (header_name \<Rightarrow> header_value \<Rightarrow> header_value) \<Rightarrow> 'h"

text \<open>\<open>HeaderMap::get\<close> returns the first of the values, \<open>contains_key\<close> whether there is one.\<close>

definition hm_get :: "'h http_lib \<Rightarrow> 'h \<Rightarrow> header_name \<Rightarrow> header_value option" where
  "hm_get L h n = (case hm_get_all L h n of [] \<Rightarrow> None | v # _ \<Rightarrow> Some v)"

definition hm_contains_key :: "'h http_lib \<Rightarrow> 'h \<Rightarrow> header_name \<Rightarrow> bool" where
  "hm_contains_key L h n \<longleftrightarrow> hm_get_all L h n \<noteq> []"

text \<open>\<open>HeaderValue::to_str\<close>: the text of a value that holds only visible ASCII.\<close>

definition to_str :: "'h http_lib \<Rightarrow> header_value \<Rightarrow> string option" where
  "to_str L v = (if header_value_to_str L (hv_bytes v) then Some (hv_bytes v) else None)"

lemma to_str_Some_iff [result_simps]:
  "to_str L v = Some s \<longleftrightarrow> header_value_to_str L (hv_bytes v) \<and> s = hv_bytes v"
  by (auto simp: to_str_def)

text \<open>
  Documented behaviour of \<open>HeaderMap\<close>: a multimap in which \<open>insert\<close> replaces all values of
  a name, \<open>append\<close> adds one after them and \<open>remove\<close> drops them; the iterator yields each
  name once per value and the values of a name in their order.
\<close>

definition header_map_laws :: "'h http_lib \<Rightarrow> bool" where
  "header_map_laws L \<longleftrightarrow>
     (\<forall>n. hm_get_all L (hm_new L) n = []) \<and>
     (\<forall>h n v m. hm_get_all L (hm_insert L h n v) m = (if m = n then [v] else hm_get_all L h m)) \<and>
     (\<forall>h n v m. hm_get_all L (hm_append L h n v) m =
        (if m = n then hm_get_all L h n @ [v] else hm_get_all L h m)) \<and>
     (\<forall>h n m. hm_get_all L (hm_remove L h n) m = (if m = n then [] else hm_get_all L h m)) \<and>
     (\<forall>h f n. hm_get_all L (hm_iter_mut L h f) n = map (f n) (hm_get_all L h n)) \<and>
     (\<forall>h n. map snd (filter (\<lambda>e. fst e = n) (hm_iter L h)) = hm_get_all L h n)"

lemma header_map_lawsD:
  assumes "header_map_laws L"
  shows "hm_get_all L (hm_new L) n = []"
    and "hm_get_all L (hm_insert L h n v) m = (if m = n then [v] else hm_get_all L h m)"
    and "hm_get_all L (hm_append L h n v) m =
           (if m = n then hm_get_all L h n @ [v] else hm_get_all L h m)"
    and "hm_get_all L (hm_remove L h n) m = (if m = n then [] else hm_get_all L h m)"
    and "hm_get_all L (hm_iter_mut L h f) n = map (f n) (hm_get_all L h n)"
    and "map snd (filter (\<lambda>e. fst e = n) (hm_iter L h)) = hm_get_all L h n"
  using assms unfolding header_map_laws_def by blast+

lemma hm_iter_mem:
  assumes "header_map_laws L"
  shows "(n, v) \<in> set (hm_iter L h) \<longleftrightarrow> v \<in> set (hm_get_all L h n)"
proof -
  have "v \<in> set (map snd (filter (\<lambda>e. fst e = n) (hm_iter L h))) \<longleftrightarrow> (n, v) \<in> set (hm_iter L h)"
    by force
  then show ?thesis by (simp add: header_map_lawsD(6) [OF assms])
qed

text \<open>
  Documented behaviour of header text: parsing a name lower-cases it, a value whose text
  \<open>to_str\<close> returns can be built again from that text, and visible ASCII is such text.
\<close>

definition visible_ascii :: "char \<Rightarrow> bool" where
  "visible_ascii c \<longleftrightarrow> 32 \<le> byte c \<and> byte c < 127"

definition header_text_laws :: "'h http_lib \<Rightarrow> bool" where
  "header_text_laws L \<longleftrightarrow>
     (\<forall>s n. header_name_from_bytes L s = Some n \<longrightarrow>
        n = to_ascii_lowercase s \<and> header_name_from_bytes L n = Some n) \<and>
     (\<forall>v. header_value_to_str L v \<longrightarrow> header_value_from_str L v) \<and>
     (\<forall>v. list_all visible_ascii v \<longrightarrow> header_value_to_str L v)"

lemma header_text_lawsD:
  assumes "header_text_laws L"
  shows "header_name_from_bytes L s = Some n \<Longrightarrow> n = to_ascii_lowercase s"
    and "header_name_from_bytes L s = Some n \<Longrightarrow> header_name_from_bytes L n = Some n"
    and "header_value_to_str L v \<Longrightarrow> header_value_from_str L v"
    and "list_all visible_ascii v \<Longrightarrow> header_value_to_str L v"
  using assms unfolding header_text_laws_def by blast+

section \<open>An instance over association lists\<close>

definition token_char :: "char \<Rightarrow> bool" where
  "token_char c \<longleftrightarrow> is_ascii_alphanumeric c \<or> c \<in> set ''!#$%&*+-.^_|~'' \<or> c = CHR 0x27 \<or> c = CHR 0x60"

definition list_http :: "(header_name \<times> header_value) list http_lib" where
  "list_http =
     \<lparr>header_name_from_bytes =
        (\<lambda>s. if s \<noteq> [] \<and> list_all token_char s then Some (to_ascii_lowercase s) else None),
      header_value_from_str = list_all (\<lambda>c. byte c = 9 \<or> 32 \<le> byte c \<and> byte c \<noteq> 127),
      header_value_to_str = list_all (\<lambda>c. byte c = 9 \<or> 32 \<le> byte c \<and> byte c < 127),
      method_from_bytes = (\<lambda>s. s \<noteq> [] \<and> list_all token_char s),
      status_from_u16 = (\<lambda>n. 100 \<le> n \<and> n < 1000),
      uri_parse = (\<lambda>s.
        if starts_with s ''/'' then
          Some \<lparr>uri_scheme_str = None, uri_authority = None, uri_path_and_query = Some s,
                uri_path = (case split_once (CHR ''?'') s of None \<Rightarrow> s | Some (p, _) \<Rightarrow> p),
                uri_query = map_option snd (split_once (CHR ''?'') s)\<rparr>
        else map_option
          (\<lambda>a. \<lparr>uri_scheme_str = Some ''https'', uri_authority = Some a,
                 uri_path_and_query = None, uri_path = ''/'', uri_query = None\<rparr>)
          (strip_prefix s ''https://'')),
      hm_new = [],
      hm_get_all = (\<lambda>h n. map snd (filter (\<lambda>e. fst e = n) h)),
      hm_iter = (\<lambda>h. h),
      hm_insert = (\<lambda>h n v. filter (\<lambda>e. fst e \<noteq> n) h @ [(n, v)]),
      hm_append = (\<lambda>h n v. h @ [(n, v)]),
      hm_remove = (\<lambda>h n. filter (\<lambda>e. fst e \<noteq> n) h),
      hm_iter_mut = (\<lambda>h f. map (\<lambda>(n, v). (n, f n v)) h)\<rparr>"

lemma filter_neq_eq: "filter (\<lambda>e. fst e = n) (filter (\<lambda>e. fst e \<noteq> m) h) =
  (if n = m then [] else filter (\<lambda>e. fst e = n) h)"
  by (induction h) auto

lemma filter_map_values:
  "map snd (filter (\<lambda>e. fst e = n) (map (\<lambda>(n, v). (n, f n v)) h)) =
   map (f n) (map snd (filter (\<lambda>e. fst e = n) h))"
  by (induction h) auto

lemma list_http_header_map_laws: "header_map_laws list_http"
  unfolding header_map_laws_def list_http_def
  by (simp add: filter_neq_eq filter_map_values del: map_map filter_filter)

lemma token_char_lower: "token_char c \<Longrightarrow> token_char (ascii_lower c)"
  by (auto simp: token_char_def ascii_lower_def is_ascii_alphanumeric_def is_ascii_uppercase_def
      is_ascii_lowercase_def is_ascii_digit_def)

lemma list_http_header_text_laws: "header_text_laws list_http"
  unfolding header_text_laws_def list_http_def
  by (auto simp: to_ascii_lowercase_def list_all_iff token_char_lower visible_ascii_def)

end
