(* ===== verification/Decimal.thy ===== *)
theory Decimal
  imports Http_Interface
begin

text \<open>
  Decimal text of unsigned integers: \<open>to_string\<close> on \<open>usize\<close> and \<open>u64\<close>, and
  \<open>str::parse::<usize>\<close>.
\<close>

fun decimal :: "nat \<Rightarrow> string" where
  "decimal n = (if n < 10 then [char_of (48 + n)] else decimal (n div 10) @ [char_of (48 + n mod 10)])"

declare decimal.simps [simp del]

definition from_decimal :: "string \<Rightarrow> nat" where
  "from_decimal s = foldl (\<lambda>a c. 10 * a + (byte c - 48)) 0 s"

lemma from_decimal_decimal: "from_decimal (decimal n) = n"
proof (induction n rule: decimal.induct)
  case (1 n)
  have "byte (char_of (48 + n mod 10)) - 48 = n mod 10"
    by (subst byte_char_of) (auto intro: order.strict_trans1 [of _ "48 + 9"])
  moreover have "n < 10 \<Longrightarrow> byte (char_of (48 + n)) - 48 = n"
    by (subst byte_char_of) auto
  ultimately show ?case
    using 1 by (subst decimal.simps) (auto simp: from_decimal_def)
qed

lemma decimal_visible: "list_all visible_ascii (decimal n)"
proof (induction n rule: decimal.induct)
  case (1 n)
  have d: "visible_ascii (char_of (48 + m))" if "m < 10" for m :: nat
    using that by (simp add: visible_ascii_def byte_char_of)
  show ?case using 1 d [of n] d [of "n mod 10"] by (subst decimal.simps) auto
qed

lemma length_decimal: "0 < k \<Longrightarrow> n < 10 ^ k \<Longrightarrow> length (decimal n) \<le> k"
proof (induction k arbitrary: n)
  case 0
  then show ?case by simp
next
  case (Suc k)
  show ?case
  proof (cases "n < 10")
    case True
    then show ?thesis by (subst decimal.simps) simp
  next
    case False
    then have "0 < k" using Suc.prems by (cases k) auto
    moreover have "n div 10 < 10 ^ k" using Suc.prems by (simp add: less_mult_imp_div_less mult.commute)
    ultimately have "length (decimal (n div 10)) \<le> k" by (rule Suc.IH)
    then show ?thesis using False by (subst decimal.simps) simp
  qed
qed

text \<open>\<open>str::parse::<usize>\<close>: an optional sign, at least one digit, no overflow.\<close>

definition parse_usize :: "string \<Rightarrow> nat option" where
  "parse_usize s =
     (let ds = (case s of c # cs \<Rightarrow> if c = CHR ''+'' then cs else s | [] \<Rightarrow> [])
      in if ds = [] \<or> \<not> list_all is_ascii_digit ds then None
         else let n = from_decimal ds in if n \<le> usize_max then Some n else None)"

lemma decimal_digits: "decimal n \<noteq> [] \<and> list_all is_ascii_digit (decimal n)"
proof (induction n rule: decimal.induct)
  case (1 n)
  have "is_ascii_digit (char_of (48 + m))" if "m < 10" for m :: nat
    using that by (simp add: is_ascii_digit_def)
  from this [of n] this [of "n mod 10"] 1 show ?case by (subst (1 2) decimal.simps) auto
qed

lemma parse_usize_decimal:
  assumes "n \<le> usize_max"
  shows "parse_usize (decimal n) = Some n"
proof -
  obtain c cs where d: "decimal n = c # cs" using decimal_digits [of n] by (cases "decimal n") auto
  with decimal_digits [of n] have "c \<noteq> CHR ''+''" by (auto simp: is_ascii_digit_def byte_def)
  moreover have "from_decimal (c # cs) = n" using from_decimal_decimal [of n] by (simp add: d)
  ultimately show ?thesis using decimal_digits [of n] assms by (simp add: parse_usize_def d)
qed

end
