(* ===== verification/Runtime.thy ===== *)
theory Runtime
  imports Decimal
begin

text \<open>
  The vocabulary of the kernel the packages run on, which is not part of the repository: the
  failures the sources construct or inspect and the events of a native stream. A
  \<open>RuntimeFailure\<close> the sources never name is \<open>OtherFailure\<close>, told apart by a number.
\<close>

datatype RuntimeFailure =
    PluginFailure (detail_of: string)
  | InvalidResolvedPlan string
  | Internal string
  | Cancelled nat
  | DeadlineExceeded
  | ResourceExhausted string string
  | ProtocolViolation string
  | UnknownOperation string string
  | Unavailable string
  | OtherFailure nat

definition plugin_failure :: "string \<Rightarrow> RuntimeFailure" where
  "plugin_failure detail = PluginFailure detail"

text \<open>What \<open>NativeStream::receive\<close> yields: \<open>'m\<close> is the frame type, \<open>'d\<close> the domain error.\<close>

datatype ('m, 'd) StreamEvent = Message 'm | PeerHalfClosed | Terminal "'d + unit"

type_synonym ('m, 'd) received = "RuntimeFailure + ('m, 'd) StreamEvent"

end
