(* ===== verification/EgressConfig.thy ===== *)
theory EgressConfig
  imports Runtime
begin

text \<open>
  The outbound authority and limits of one egress instance (\<open>lenso-http-egress-plugin\<close>,
  \<open>config.rs\<close>): the configuration record, its validation into the set of canonical origins, and
  every builder. The \<open>url\<close> crate is the parameter \<open>url_parse\<close>, from text to the components
  the sources read; a \<open>Duration\<close> is its length in nanoseconds.
\<close>

record url =
  url_scheme :: string
  url_host_str :: "string option"
  url_username :: string
  url_password :: "string option"
  url_path :: string
  url_query :: "string option"
  url_fragment :: "string option"
  url_origin :: string
  url_as_str :: string

type_synonym url_lib = "string \<Rightarrow> url option"

definition EGRESS_MAX_TRANSFER_BYTES :: nat where "EGRESS_MAX_TRANSFER_BYTES = 64 * 1024 * 1024"
definition EGRESS_MAX_HEAD_BYTES :: nat where "EGRESS_MAX_HEAD_BYTES = 1024 * 1024"
definition EGRESS_MAX_CONCURRENT_REQUESTS :: nat where "EGRESS_MAX_CONCURRENT_REQUESTS = 4096"
definition EGRESS_MAX_TIMEOUT_MILLIS :: nat where "EGRESS_MAX_TIMEOUT_MILLIS = 300000"
definition MAX_ALLOWED_ORIGINS :: nat where "MAX_ALLOWED_ORIGINS = 256"
definition MAX_URL_BYTES :: nat where "MAX_URL_BYTES = 4096"

lemmas egress_limit_defs = EGRESS_MAX_TRANSFER_BYTES_def EGRESS_MAX_HEAD_BYTES_def
  EGRESS_MAX_CONCURRENT_REQUESTS_def EGRESS_MAX_TIMEOUT_MILLIS_def MAX_ALLOWED_ORIGINS_def
  MAX_URL_BYTES_def

datatype HttpVersionPolicy = Auto | Http1Only | Http2PriorKnowledge

record HttpEgressConfig =
  hec_allowed_origins :: "string list"
  hec_http_version :: HttpVersionPolicy
  hec_max_request_body_bytes :: nat
  hec_max_request_head_bytes :: nat
  hec_max_response_body_bytes :: nat
  hec_max_response_head_bytes :: nat
  hec_max_concurrent_requests :: nat
  hec_connect_timeout_millis :: nat
  hec_request_timeout_millis :: nat

section \<open>Origins\<close>

definition request_origin :: "url \<Rightarrow> string option" where
  "request_origin u =
     (if url_scheme u \<in> {''http'', ''https''} \<and> url_origin u \<noteq> ''null'' then Some (url_origin u) else None)"

definition canonical_origin :: "url_lib \<Rightarrow> string \<Rightarrow> string + string" where
  "canonical_origin url_parse value =
     (if length value > MAX_URL_BYTES then Inl ''outbound HTTP origin is too long''
      else try_in (ok_or (url_parse value) ''invalid outbound HTTP origin'') (\<lambda>u.
        if url_scheme u \<notin> {''http'', ''https''} \<or> url_host_str u = None \<or> url_username u \<noteq> []
           \<or> url_password u \<noteq> None \<or> url_path u \<noteq> ''/'' \<or> url_query u \<noteq> None \<or> url_fragment u \<noteq> None
        then Inl ''invalid outbound HTTP origin''
        else ok_or (request_origin u) ''invalid outbound HTTP origin''))"

section \<open>Validation and builders\<close>

definition egress_in_limit :: "HttpEgressConfig \<Rightarrow> bool" where
  "egress_in_limit c \<longleftrightarrow>
     hec_max_request_body_bytes c \<in> {1..EGRESS_MAX_TRANSFER_BYTES} \<and>
     hec_max_response_body_bytes c \<in> {1..EGRESS_MAX_TRANSFER_BYTES} \<and>
     hec_max_request_head_bytes c \<in> {1..EGRESS_MAX_HEAD_BYTES} \<and>
     hec_max_response_head_bytes c \<in> {1..EGRESS_MAX_HEAD_BYTES} \<and>
     hec_max_concurrent_requests c \<in> {1..EGRESS_MAX_CONCURRENT_REQUESTS} \<and>
     hec_connect_timeout_millis c \<in> {1..EGRESS_MAX_TIMEOUT_MILLIS} \<and>
     hec_request_timeout_millis c \<in> {1..EGRESS_MAX_TIMEOUT_MILLIS} \<and>
     hec_connect_timeout_millis c \<le> hec_request_timeout_millis c"

definition egress_validate :: "url_lib \<Rightarrow> HttpEgressConfig \<Rightarrow> string + string set" where
  "egress_validate url_parse c =
     (if hec_allowed_origins c = [] \<or> length (hec_allowed_origins c) > MAX_ALLOWED_ORIGINS
      then Inl ''outbound HTTP origin count must be between 1 and 256''
      else try_in (traverse (canonical_origin url_parse) (hec_allowed_origins c)) (\<lambda>canonical.
        let origins = set canonical in
        if card origins \<noteq> length (hec_allowed_origins c)
        then Inl ''outbound HTTP origins must be unique''
        else if \<not> egress_in_limit c then Inl ''outbound HTTP limits or timeouts are invalid''
        else Inr origins))"

definition default_max_request_body_bytes :: nat where "default_max_request_body_bytes = 1024 * 1024"
definition default_max_request_head_bytes :: nat where "default_max_request_head_bytes = 16 * 1024"
definition default_max_response_body_bytes :: nat where "default_max_response_body_bytes = 4 * 1024 * 1024"
definition default_max_response_head_bytes :: nat where "default_max_response_head_bytes = 32 * 1024"
definition default_max_concurrent_requests :: nat where "default_max_concurrent_requests = 64"
definition default_connect_timeout_millis :: nat where "default_connect_timeout_millis = 5000"
definition default_request_timeout_millis :: nat where "default_request_timeout_millis = 30000"

lemmas egress_default_defs = default_max_request_body_bytes_def default_max_request_head_bytes_def
  default_max_response_body_bytes_def default_max_response_head_bytes_def
  default_max_concurrent_requests_def default_connect_timeout_millis_def default_request_timeout_millis_def

definition egress_config_new :: "url_lib \<Rightarrow> string list \<Rightarrow> string + HttpEgressConfig" where
  "egress_config_new url_parse allowed_origins =
     (let config =
        \<lparr>hec_allowed_origins = allowed_origins, hec_http_version = Auto,
         hec_max_request_body_bytes = default_max_request_body_bytes,
         hec_max_request_head_bytes = default_max_request_head_bytes,
         hec_max_response_body_bytes = default_max_response_body_bytes,
         hec_max_response_head_bytes = default_max_response_head_bytes,
         hec_max_concurrent_requests = default_max_concurrent_requests,
         hec_connect_timeout_millis = default_connect_timeout_millis,
         hec_request_timeout_millis = default_request_timeout_millis\<rparr>
      in try_in (egress_validate url_parse config) (\<lambda>_. Inr config))"

definition with_http_version :: "HttpEgressConfig \<Rightarrow> HttpVersionPolicy \<Rightarrow> HttpEgressConfig" where
  "with_http_version c policy = c\<lparr>hec_http_version := policy\<rparr>"

definition with_transfer_limits ::
  "url_lib \<Rightarrow> HttpEgressConfig \<Rightarrow> nat \<Rightarrow> nat \<Rightarrow> nat \<Rightarrow> nat \<Rightarrow> string + HttpEgressConfig" where
  "with_transfer_limits url_parse c request_body request_head response_body response_head =
     (let c = c\<lparr>hec_max_request_body_bytes := request_body, hec_max_request_head_bytes := request_head,
                 hec_max_response_body_bytes := response_body, hec_max_response_head_bytes := response_head\<rparr>
      in try_in (egress_validate url_parse c) (\<lambda>_. Inr c))"

definition egress_with_max_concurrent_requests ::
  "url_lib \<Rightarrow> HttpEgressConfig \<Rightarrow> nat \<Rightarrow> string + HttpEgressConfig" where
  "egress_with_max_concurrent_requests url_parse c maximum =
     (let c = c\<lparr>hec_max_concurrent_requests := maximum\<rparr>
      in try_in (egress_validate url_parse c) (\<lambda>_. Inr c))"

text \<open>\<open>Duration::as_millis\<close> truncates nanoseconds; the result must fit \<open>u64\<close>.\<close>

definition egress_duration_millis :: "nat \<Rightarrow> string + nat" where
  "egress_duration_millis duration =
     (let millis = duration div 1000000 in
      if millis < 2 ^ 64 then Inr millis else Inl ''outbound HTTP timeout does not fit the Plan format'')"

definition with_timeouts :: "url_lib \<Rightarrow> HttpEgressConfig \<Rightarrow> nat \<Rightarrow> nat \<Rightarrow> string + HttpEgressConfig" where
  "with_timeouts url_parse c connect_timeout request_timeout =
     try_in (egress_duration_millis connect_timeout) (\<lambda>connect.
       try_in (egress_duration_millis request_timeout) (\<lambda>request.
         let c = c\<lparr>hec_connect_timeout_millis := connect, hec_request_timeout_millis := request\<rparr>
         in try_in (egress_validate url_parse c) (\<lambda>_. Inr c)))"

text \<open>The configurations a program can obtain: \<open>new\<close>, then any sequence of builders.\<close>

inductive egress_built :: "url_lib \<Rightarrow> HttpEgressConfig \<Rightarrow> bool" for url_parse where
  "egress_config_new url_parse os = Inr c \<Longrightarrow> egress_built url_parse c"
| "egress_built url_parse c \<Longrightarrow> egress_built url_parse (with_http_version c p)"
| "egress_built url_parse c \<Longrightarrow> with_transfer_limits url_parse c a b d e = Inr c' \<Longrightarrow>
     egress_built url_parse c'"
| "egress_built url_parse c \<Longrightarrow> egress_with_max_concurrent_requests url_parse c n = Inr c' \<Longrightarrow>
     egress_built url_parse c'"
| "egress_built url_parse c \<Longrightarrow> with_timeouts url_parse c x y = Inr c' \<Longrightarrow> egress_built url_parse c'"

section \<open>What validation establishes\<close>

lemma egress_validate_Inr_iff:
  "egress_validate url_parse c = Inr origins \<longleftrightarrow>
     (\<exists>canonical. hec_allowed_origins c \<noteq> [] \<and> length (hec_allowed_origins c) \<le> MAX_ALLOWED_ORIGINS \<and>
        list_all2 (\<lambda>o1 o2. canonical_origin url_parse o1 = Inr o2) (hec_allowed_origins c) canonical \<and>
        distinct canonical \<and> egress_in_limit c \<and> origins = set canonical)"
proof -
  let ?os = "hec_allowed_origins c" and ?ok = "\<lambda>o1 o2. canonical_origin url_parse o1 = Inr o2"
  have "card (set xs) = length ?os \<longleftrightarrow> distinct xs" if "list_all2 ?ok ?os xs" for xs
    using list_all2_lengthD [OF that] distinct_card card_distinct by metis
  then have "try_in (traverse (canonical_origin url_parse) ?os) (\<lambda>canonical.
        let origins = set canonical in
        if card origins \<noteq> length ?os then Inl ''outbound HTTP origins must be unique''
        else if \<not> egress_in_limit c then Inl ''outbound HTTP limits or timeouts are invalid''
        else Inr origins) = Inr origins \<longleftrightarrow>
      (\<exists>canonical. list_all2 ?ok ?os canonical \<and> distinct canonical \<and> egress_in_limit c \<and> origins = set canonical)"
    by (auto simp: try_in_Inr_iff traverse_Inr_iff Let_def split: if_splits)
  then show ?thesis by (auto simp: egress_validate_def)
qed

lemma canonical_origin_Inr:
  "canonical_origin url_parse s = Inr origin \<Longrightarrow>
     \<exists>u. url_parse s = Some u \<and> request_origin u = Some origin \<and> url_username u = [] \<and> url_password u = None"
  by (auto simp: canonical_origin_def result_simps split: if_splits)

lemma egress_validate_http_version [simp]:
  "egress_validate url_parse (c\<lparr>hec_http_version := p\<rparr>) = egress_validate url_parse c"
proof -
  have "egress_in_limit (c\<lparr>hec_http_version := p\<rparr>) = egress_in_limit c" by (simp add: egress_in_limit_def)
  then show ?thesis unfolding egress_validate_def by (simp cong: if_cong)
qed

lemma egress_built_validates:
  "egress_built url_parse c \<Longrightarrow> \<exists>origins. egress_validate url_parse c = Inr origins"
  by (induction rule: egress_built.induct)
    (auto simp: egress_config_new_def with_http_version_def with_transfer_limits_def
      egress_with_max_concurrent_requests_def with_timeouts_def Let_def result_simps)

section \<open>An instance of the URL parser\<close>

text \<open>Absolute URLs without user information or port: scheme, host, path, query and fragment.\<close>

definition simple_url :: url_lib where
  "simple_url s =
     (case (if starts_with s ''https://'' then Some (''https'', drop 8 s)
            else if starts_with s ''http://'' then Some (''http'', drop 7 s) else None) of
        None \<Rightarrow> None
      | Some (scheme, rest) \<Rightarrow>
          (let (rest, fragment) = (case split_once (CHR ''#'') rest of
                 None \<Rightarrow> (rest, None) | Some (r, f) \<Rightarrow> (r, Some f));
               (rest, query) = (case split_once (CHR ''?'') rest of
                 None \<Rightarrow> (rest, None) | Some (r, q) \<Rightarrow> (r, Some q));
               (host, path) = (case split_once (CHR ''/'') rest of
                 None \<Rightarrow> (rest, ''/'') | Some (h, p) \<Rightarrow> (h, CHR ''/'' # p));
               (userinfo, host) = (case split_once (CHR ''@'') host of
                 None \<Rightarrow> ([], host) | Some (u, h) \<Rightarrow> (u, h))
           in if host = [] then None
              else Some \<lparr>url_scheme = scheme, url_host_str = Some (to_ascii_lowercase host),
                url_username = userinfo, url_password = None, url_path = path, url_query = query,
                url_fragment = fragment, url_origin = scheme @ ''://'' @ to_ascii_lowercase host,
                url_as_str = s\<rparr>))"

section \<open>Properties\<close>

text \<open>Every egress configuration a program can build has between 1 and 256 origins that
  parse to distinct canonical HTTP origins, limits within the documented maxima, and a connect
  timeout that does not exceed the request timeout.\<close>

theorem egress_config_within_limits:
  assumes "egress_built url_parse c"
  shows "\<exists>canonical. egress_validate url_parse c = Inr (set canonical) \<and> distinct canonical \<and>
    length canonical = length (hec_allowed_origins c) \<and> 1 \<le> length canonical \<and> length canonical \<le> 256 \<and>
    list_all (\<lambda>s. \<exists>u. url_parse s = Some u \<and> request_origin u \<in> Some ` set canonical) (hec_allowed_origins c) \<and>
    hec_max_concurrent_requests c \<in> {1..4096} \<and>
    hec_max_request_body_bytes c \<in> {1..67108864} \<and> hec_max_response_body_bytes c \<in> {1..67108864} \<and>
    hec_connect_timeout_millis c \<le> hec_request_timeout_millis c \<and> hec_request_timeout_millis c \<le> 300000"
proof -
  obtain origins where "egress_validate url_parse c = Inr origins"
    using egress_built_validates [OF assms] by blast
  then obtain canonical where v: "egress_validate url_parse c = Inr (set canonical)"
    and os: "hec_allowed_origins c \<noteq> []" "length (hec_allowed_origins c) \<le> MAX_ALLOWED_ORIGINS"
    and all2: "list_all2 (\<lambda>o1 o2. canonical_origin url_parse o1 = Inr o2) (hec_allowed_origins c) canonical"
    and "distinct canonical" and lim: "egress_in_limit c"
    by (auto simp: egress_validate_Inr_iff)
  have "\<exists>u. url_parse s = Some u \<and> request_origin u \<in> Some ` set canonical"
    if "s \<in> set (hec_allowed_origins c)" for s
  proof -
    from that obtain i where i: "i < length (hec_allowed_origins c)" "hec_allowed_origins c ! i = s"
      by (auto simp: in_set_conv_nth)
    with all2 have "canonical_origin url_parse s = Inr (canonical ! i)" "canonical ! i \<in> set canonical"
      by (auto simp: list_all2_conv_all_nth)
    with canonical_origin_Inr [of url_parse s "canonical ! i"] show ?thesis by auto
  qed
  then have "list_all (\<lambda>s. \<exists>u. url_parse s = Some u \<and> request_origin u \<in> Some ` set canonical)
      (hec_allowed_origins c)"
    by (simp add: list_all_iff)
  moreover have "length canonical = length (hec_allowed_origins c)"
    using list_all2_lengthD [OF all2] by simp
  moreover have "1 \<le> length canonical" "length canonical \<le> 256"
    using os calculation(2) by (simp_all add: MAX_ALLOWED_ORIGINS_def Suc_le_eq)
  ultimately show ?thesis
    using v \<open>distinct canonical\<close> lim unfolding egress_in_limit_def egress_limit_defs by auto
qed

abbreviation sample_origins :: "string list" where
  "sample_origins \<equiv> [''https://Api.example'', ''http://localhost'']"

abbreviation sample_egress :: HttpEgressConfig where
  "sample_egress \<equiv> \<lparr>hec_allowed_origins = sample_origins, hec_http_version = Auto,
     hec_max_request_body_bytes = 1048576, hec_max_request_head_bytes = 16384,
     hec_max_response_body_bytes = 4194304, hec_max_response_head_bytes = 32768,
     hec_max_concurrent_requests = 64, hec_connect_timeout_millis = 5000,
     hec_request_timeout_millis = 30000\<rparr>"

lemma sample_origins_canonical:
  "traverse (canonical_origin simple_url) sample_origins = Inr [''https://api.example'', ''http://localhost'']"
  by code_simp

lemma sample_egress_validates:
  "egress_validate simple_url sample_egress = Inr {''https://api.example'', ''http://localhost''}"
  using sample_origins_canonical
  by (simp add: egress_validate_def egress_in_limit_def egress_limit_defs del: traverse.simps)

lemma sample_egress_new: "egress_config_new simple_url sample_origins = Inr sample_egress"
  using sample_egress_validates by (simp add: egress_config_new_def egress_default_defs del: traverse.simps)

theorem egress_config_within_limits_witness:
  "\<exists>canonical. egress_validate simple_url sample_egress = Inr (set canonical) \<and> distinct canonical \<and>
    length canonical = length sample_origins"
  using egress_config_within_limits [OF egress_built.intros(1) [OF sample_egress_new]] by auto

end
