(* ===== verification/Contracts.thy ===== *)
theory Contracts
  imports Runtime
begin

text \<open>
  The capability contracts between the ingress and endpoint providers (the generated modules of
  the \<open>lenso-capability-http-endpoint\<close>, \<open>lenso-capability-http-stream-endpoint\<close> and
  \<open>lenso-capability-websocket-endpoint\<close> crates): routes, requests, responses, frames and domain
  errors, with the wire form of the errors. JSON values are those of \<open>serde_json\<close>; an object
  is a list of entries in key order.
\<close>

datatype json_number = JInt int | JFloat string

datatype json =
    JNull
  | JBool bool
  | JNumber json_number
  | JString string
  | JArray "json list"
  | JObject "(string \<times> json) list"

type_synonym json_object = "(string \<times> json) list"

record UnknownDomainError =
  ude_code :: string
  ude_payload :: "json option"
  ude_extra :: json_object

section \<open>Buffered endpoints\<close>

record DescribeResponseRoutesItem =
  dri_method :: string
  dri_openapi :: "json_object option"
  dri_path :: string
  dri_route_id :: string

record DescribeResponse =
  dr_routes :: "DescribeResponseRoutesItem list"

datatype DescribeError = InvalidConfiguration | DescribeUnknown UnknownDomainError

record RequestCredential =
  rc_scheme :: string
  rc_value :: string

record NameValue =
  nv_name :: string
  nv_value :: string

record HandleRequest =
  hr_body :: bytes
  hr_credential :: "RequestCredential option"
  hr_headers :: "NameValue list"
  hr_method :: string
  hr_path :: string
  hr_path_parameters :: "NameValue list"
  hr_query :: "string option"
  hr_request_id :: string
  hr_route_id :: string

record HandleResponse =
  hres_body :: bytes
  hres_headers :: "NameValue list"
  hres_status :: int

datatype HandleError = HandleRejected | HandleUnknown UnknownDomainError

datatype 'd InvocationError = Domain 'd | RuntimeError RuntimeFailure

section \<open>Streaming endpoints\<close>

text \<open>Routes and requests of the streaming contract have the fields of the buffered one.\<close>

record StreamRoutesItem =
  sri_method :: string
  sri_path :: string
  sri_route_id :: string

datatype DescribeStreamError = StreamInvalidConfiguration | DescribeStreamUnknown UnknownDomainError

datatype HandleResponseKind = Head | Chunk

record StreamFrame =
  sf_body :: "bytes option"
  sf_headers :: "NameValue list option"
  sf_kind :: HandleResponseKind
  sf_status :: "int option"

datatype StreamError = StreamRejected | StreamUnknown UnknownDomainError

section \<open>WebSocket endpoints\<close>

record WebsocketRoutesItem =
  wri_path :: string
  wri_route_id :: string

datatype DescribeWebsocketError = WebsocketInvalidConfiguration | DescribeWebsocketUnknown UnknownDomainError

record ConnectWebsocketRequest =
  cwr_credential :: "RequestCredential option"
  cwr_headers :: "NameValue list"
  cwr_path :: string
  cwr_path_parameters :: "NameValue list"
  cwr_protocols :: "string list"
  cwr_query :: "string option"
  cwr_request_id :: string
  cwr_route_id :: string

datatype WsKind = Accept | Text | Binary | Close

record WsFrame =
  wf_body :: "bytes option"
  wf_code :: "int option"
  wf_kind :: WsKind
  wf_protocol :: "string option"
  wf_reason :: "string option"
  wf_text :: "string option"

datatype ConnectWebsocketError =
  WsRejected | WsUnauthorized | WsUnsupportedProtocol | WsUnknown UnknownDomainError

end
