(* ===== verification/HeaderBoundary.thy ===== *)
theory HeaderBoundary
  imports Runtime
begin

text \<open>
  The contract of a place where headers cross a trust boundary: entries with a blocked name stay
  behind, every other entry crosses in order with its value converted, or nothing crosses. The
  ingress has two such places (before and after middleware) and the egress one.
\<close>

lemma map_Some_to_str: "map Some xs = map (to_str L) ys \<Longrightarrow> xs = map hv_bytes ys"
  by (induction xs arbitrary: ys) (auto simp: result_simps map_eq_Cons_conv Cons_eq_map_conv dest: sym)

locale header_boundary =
  fixes collect :: "'s \<Rightarrow> 'e + ('n \<times> 'v) list"
    and entries :: "'s \<Rightarrow> ('n \<times> 'u) list"
    and blocked :: "'s \<Rightarrow> 'n \<Rightarrow> bool"
    and convert :: "'s \<Rightarrow> 'u \<Rightarrow> 'v option"
  assumes collect_exact: "collect s = Inr hs \<Longrightarrow>
    list_all2 (\<lambda>(n, u) (m, v). n = m \<and> convert s u = Some v)
      (filter (\<lambda>e. \<not> blocked s (fst e)) (entries s)) hs"
begin

lemma crossed_values:
  assumes "collect s = Inr hs" and "\<not> blocked s n"
  shows "map Some (map snd (filter (\<lambda>e. fst e = n) hs)) =
    map (convert s) (map snd (filter (\<lambda>e. fst e = n) (entries s)))"
proof -
  have "list_all2 (\<lambda>(n, u) (m, v). n = m \<and> convert s u = Some v) es hs \<Longrightarrow>
      map Some (map snd (filter (\<lambda>e. fst e = n) hs)) =
      map (convert s) (map snd (filter (\<lambda>e. fst e = n) es))" for es
    by (induction es hs rule: list_all2_induct) auto
  from this [OF collect_exact [OF assms(1)]]
  show ?thesis
    using assms(2) by (simp add: filter_filter conj_commute cong: conj_cong)
qed

lemma crossed_not_blocked:
  assumes "collect s = Inr hs" and "(n, v) \<in> set hs"
  shows "\<not> blocked s n"
proof -
  obtain i where i: "i < length hs" "hs ! i = (n, v)" using assms(2) by (auto simp: in_set_conv_nth)
  let ?es = "filter (\<lambda>e. \<not> blocked s (fst e)) (entries s)"
  have "i < length ?es" "fst (?es ! i) = n"
    using collect_exact [OF assms(1)] i by (auto simp: list_all2_conv_all_nth split: prod.splits)
      (metis fst_conv surj_pair)
  then show ?thesis by (metis (mono_tags, lifting) mem_Collect_eq nth_mem set_filter)
qed

lemma crossed_count:
  "collect s = Inr hs \<Longrightarrow> length hs \<le> length (entries s)"
  using list_all2_lengthD [OF collect_exact] length_filter_le by metis

end

end
