(* ===== verification/EgressPolicy.thy ===== *)
theory EgressPolicy
  imports EgressConfig Contracts HeaderBoundary
begin

text \<open>
  The client contract and the validation both egress transports share (\<open>policy.rs\<close>): what a
  request must satisfy before anything is sent, and which response headers come back.
\<close>

record SendRequest =
  sr_body :: bytes
  sr_headers :: "NameValue list"
  sr_method :: string
  sr_url :: string

record SendResponse =
  sres_body :: bytes
  sres_headers :: "NameValue list"
  sres_status :: int

datatype SendError =
    DestinationNotAllowed
  | InvalidRequest
  | RequestTooLarge
  | ResponseTooLarge
  | Timeout
  | TransportFailure
  | SendUnknown UnknownDomainError

type_synonym ClientInvocationError = "SendError InvocationError"

definition FORBIDDEN_REQUEST_HEADERS :: "string list" where
  "FORBIDDEN_REQUEST_HEADERS =
     [''connection'', ''content-length'', ''host'', ''keep-alive'', ''proxy-authenticate'',
      ''proxy-authorization'', ''te'', ''trailer'', ''transfer-encoding'', ''upgrade'']"

record 'h PreparedRequest =
  prep_method :: http_method
  prep_url :: url
  prep_headers :: 'h
  prep_body :: bytes

section \<open>Requests\<close>

definition header_cost :: "string \<Rightarrow> bytes \<Rightarrow> nat" where
  "header_cost name value = length name + length value + 4"

definition parse_request_header ::
  "'h http_lib \<Rightarrow> nat \<Rightarrow> 'h \<times> nat \<Rightarrow> NameValue \<Rightarrow> ClientInvocationError + 'h \<times> nat" where
  "parse_request_header L max_head_bytes acc header =
     (case acc of (parsed, head_bytes) \<Rightarrow>
        try_in (ok_or (header_name_from_bytes L (nv_name header)) (Domain InvalidRequest)) (\<lambda>name.
          if name \<in> set FORBIDDEN_REQUEST_HEADERS then Inl (Domain InvalidRequest)
          else if \<not> header_value_from_str L (nv_value header) then Inl (Domain InvalidRequest)
          else try_in (ok_or (checked_add head_bytes (header_cost name (nv_value header)))
                  (Domain RequestTooLarge)) (\<lambda>head_bytes'.
            if head_bytes' > max_head_bytes then Inl (Domain RequestTooLarge)
            else Inr (hm_append L parsed name (plain (nv_value header)), head_bytes'))))"

definition parse_request_headers ::
  "'h http_lib \<Rightarrow> NameValue list \<Rightarrow> nat \<Rightarrow> ClientInvocationError + 'h" where
  "parse_request_headers L headers max_head_bytes =
     try_in (fold_res (parse_request_header L max_head_bytes) (hm_new L, 0) headers) (\<lambda>s. Inr (fst s))"

definition prepare_request ::
  "'h http_lib \<Rightarrow> url_lib \<Rightarrow> HttpEgressConfig \<Rightarrow> string set \<Rightarrow> SendRequest \<Rightarrow>
   ClientInvocationError + 'h PreparedRequest" where
  "prepare_request L url_parse config allowed_origins request =
     (if length (sr_method request) > 32 \<or> length (sr_url request) > 4096 then Inl (Domain InvalidRequest)
      else if \<not> method_from_bytes L (sr_method request) then Inl (Domain InvalidRequest)
      else if sr_method request \<in> {''CONNECT'', ''TRACE''} then Inl (Domain InvalidRequest)
      else try_in (ok_or (url_parse (sr_url request)) (Domain InvalidRequest)) (\<lambda>u.
        if url_username u \<noteq> [] \<or> url_password u \<noteq> None \<or> url_fragment u \<noteq> None
        then Inl (Domain InvalidRequest)
        else try_in (ok_or (request_origin u) (Domain InvalidRequest)) (\<lambda>origin.
          if origin \<notin> allowed_origins then Inl (Domain DestinationNotAllowed)
          else if length (sr_body request) > hec_max_request_body_bytes config
          then Inl (Domain RequestTooLarge)
          else try_in (parse_request_headers L (sr_headers request) (hec_max_request_head_bytes config))
            (\<lambda>headers. Inr \<lparr>prep_method = sr_method request, prep_url = u, prep_headers = headers,
                             prep_body = sr_body request\<rparr>))))"

section \<open>Response headers\<close>

definition response_connection_names ::
  "'h http_lib \<Rightarrow> string set \<Rightarrow> header_value \<Rightarrow> ClientInvocationError + string set" where
  "response_connection_names L names value =
     try_in (ok_or (to_str L value) (Domain TransportFailure)) (\<lambda>v.
       fold_res (\<lambda>ns name. try_in (ok_or (header_name_from_bytes L name) (Domain TransportFailure))
           (\<lambda>n. Inr (insert n ns)))
         names (filter (\<lambda>n. n \<noteq> []) (map trim (split_on (CHR '','') v))))"

definition response_connection_headers :: "'h http_lib \<Rightarrow> 'h \<Rightarrow> ClientInvocationError + string set" where
  "response_connection_headers L headers =
     fold_res (response_connection_names L) {} (hm_get_all L headers ''connection'')"

definition push_response_header ::
  "'h http_lib \<Rightarrow> nat \<Rightarrow> string set \<Rightarrow> NameValue list \<times> nat \<Rightarrow> header_name \<times> header_value \<Rightarrow>
   ClientInvocationError + NameValue list \<times> nat" where
  "push_response_header L max_head_bytes connection_headers acc entry =
     (case (acc, entry) of ((result, head_bytes), (name, value)) \<Rightarrow>
        if name \<in> set FORBIDDEN_REQUEST_HEADERS \<or> name \<in> connection_headers then Inr acc
        else try_in (ok_or (checked_add head_bytes (header_cost name (hv_bytes value)))
                (Domain ResponseTooLarge)) (\<lambda>head_bytes'.
          if head_bytes' > max_head_bytes then Inl (Domain ResponseTooLarge)
          else try_in (ok_or (to_str L value) (Domain TransportFailure)) (\<lambda>v.
            Inr (result @ [\<lparr>nv_name = name, nv_value = v\<rparr>], head_bytes'))))"

definition response_headers ::
  "'h http_lib \<Rightarrow> 'h \<Rightarrow> nat \<Rightarrow> ClientInvocationError + NameValue list" where
  "response_headers L headers max_head_bytes =
     try_in (response_connection_headers L headers) (\<lambda>connection_headers.
       try_in (fold_res (push_response_header L max_head_bytes connection_headers) ([], 0) (hm_iter L headers))
         (\<lambda>s. Inr (fst s)))"

section \<open>Accepted requests\<close>

definition head_cost :: "(string \<times> bytes) list \<Rightarrow> nat" where
  "head_cost hs = sum_list (map (\<lambda>(n, v). header_cost n v) hs)"

lemma head_cost_simps [simp]:
  "head_cost [] = 0"
  "head_cost (h # hs) = header_cost (fst h) (snd h) + head_cost hs"
  "head_cost (xs @ ys) = head_cost xs + head_cost ys"
  by (auto simp: head_cost_def split: prod.splits)

text \<open>The header entries that an accepted list of named values appends, in order.\<close>

definition accepted_headers :: "'h http_lib \<Rightarrow> NameValue list \<Rightarrow> (string \<times> bytes) list \<Rightarrow> bool" where
  "accepted_headers L headers hs \<longleftrightarrow>
     list_all2 (\<lambda>nv (n, v). header_name_from_bytes L (nv_name nv) = Some n \<and> v = nv_value nv \<and>
       n \<notin> set FORBIDDEN_REQUEST_HEADERS \<and> header_value_from_str L v) headers hs"

lemma parse_request_header_Inr_iff:
  "parse_request_header L limit (h, k) nv = Inr s \<longleftrightarrow>
     (\<exists>n. header_name_from_bytes L (nv_name nv) = Some n \<and> n \<notin> set FORBIDDEN_REQUEST_HEADERS \<and>
        header_value_from_str L (nv_value nv) \<and> k + header_cost n (nv_value nv) \<le> min limit usize_max \<and>
        s = (hm_append L h n (plain (nv_value nv)), k + header_cost n (nv_value nv)))"
  by (cases "header_name_from_bytes L (nv_name nv)")
    (auto simp: parse_request_header_def checked_add_def split: if_splits)

lemma parse_request_headers_run:
  "fold_res (parse_request_header L limit) (h, k) headers = Inr (h', k') \<longleftrightarrow>
     (\<exists>hs. accepted_headers L headers hs \<and> k' = k + head_cost hs \<and>
        (hs \<noteq> [] \<longrightarrow> k' \<le> min limit usize_max) \<and>
        h' = foldl (\<lambda>m (n, v). hm_append L m n (plain v)) h hs)"
proof (induction headers arbitrary: h k)
  case Nil
  then show ?case by (auto simp: accepted_headers_def)
next
  case (Cons nv headers)
  show ?case
  proof
    assume "fold_res (parse_request_header L limit) (h, k) (nv # headers) = Inr (h', k')"
    then obtain n hs where n: "header_name_from_bytes L (nv_name nv) = Some n"
      "n \<notin> set FORBIDDEN_REQUEST_HEADERS" "header_value_from_str L (nv_value nv)"
      "k + header_cost n (nv_value nv) \<le> min limit usize_max"
      and hs: "accepted_headers L headers hs" "k' = k + header_cost n (nv_value nv) + head_cost hs"
        "hs \<noteq> [] \<longrightarrow> k' \<le> min limit usize_max"
        "h' = foldl (\<lambda>m (n, v). hm_append L m n (plain v)) (hm_append L h n (plain (nv_value nv))) hs"
      by (auto simp: try_in_Inr_iff parse_request_header_Inr_iff Cons.IH)
    then show "\<exists>hs. accepted_headers L (nv # headers) hs \<and> k' = k + head_cost hs \<and>
        (hs \<noteq> [] \<longrightarrow> k' \<le> min limit usize_max) \<and> h' = foldl (\<lambda>m (n, v). hm_append L m n (plain v)) h hs"
      by (intro exI [of _ "(n, nv_value nv) # hs"]) (cases hs; auto simp: accepted_headers_def)
  next
    assume "\<exists>hs. accepted_headers L (nv # headers) hs \<and> k' = k + head_cost hs \<and>
        (hs \<noteq> [] \<longrightarrow> k' \<le> min limit usize_max) \<and> h' = foldl (\<lambda>m (n, v). hm_append L m n (plain v)) h hs"
    then obtain n hs where n: "header_name_from_bytes L (nv_name nv) = Some n"
      "n \<notin> set FORBIDDEN_REQUEST_HEADERS" "header_value_from_str L (nv_value nv)"
      and hs: "accepted_headers L headers hs" "k' = k + header_cost n (nv_value nv) + head_cost hs"
        "k' \<le> min limit usize_max"
        "h' = foldl (\<lambda>m (n, v). hm_append L m n (plain v)) (hm_append L h n (plain (nv_value nv))) hs"
      by (auto simp: accepted_headers_def list_all2_Cons1)
    let ?s = "(hm_append L h n (plain (nv_value nv)), k + header_cost n (nv_value nv))"
    have "parse_request_header L limit (h, k) nv = Inr ?s"
      using n hs(2,3) by (auto simp: parse_request_header_Inr_iff)
    moreover have "fold_res (parse_request_header L limit) ?s headers = Inr (h', k')"
      unfolding Cons.IH using hs by blast
    ultimately show "fold_res (parse_request_header L limit) (h, k) (nv # headers) = Inr (h', k')" by simp
  qed
qed

lemma parse_request_headers_Inr_iff:
  "parse_request_headers L headers limit = Inr h \<longleftrightarrow>
     (\<exists>hs. accepted_headers L headers hs \<and> head_cost hs \<le> min limit usize_max \<and>
        h = foldl (\<lambda>m (n, v). hm_append L m n (plain v)) (hm_new L) hs)"
  by (auto simp: parse_request_headers_def try_in_Inr_iff parse_request_headers_run)

lemma foldl_append_values:
  assumes "header_map_laws L"
  shows "hm_get_all L (foldl (\<lambda>m (n, v). hm_append L m n (plain v)) h hs) n =
    hm_get_all L h n @ map (\<lambda>e. plain (snd e)) (filter (\<lambda>e. fst e = n) hs)"
  by (induction hs arbitrary: h) (auto simp: header_map_lawsD(3) [OF assms] split: prod.splits)

lemma accepted_headers_mem:
  "accepted_headers L headers hs \<Longrightarrow> (n, v) \<in> set hs \<Longrightarrow>
     n \<notin> set FORBIDDEN_REQUEST_HEADERS \<and> header_value_from_str L v"
  unfolding accepted_headers_def by (erule (1) list_all2_mem2) auto

lemma accepted_header_values:
  assumes "header_map_laws L" and "accepted_headers L headers hs"
  shows "list_all (\<lambda>n. hm_get_all L (foldl (\<lambda>m (n, v). hm_append L m n (plain v)) (hm_new L) hs) n = [])
    FORBIDDEN_REQUEST_HEADERS"
proof -
  have "filter (\<lambda>e. fst e = n) hs = []" if "n \<in> set FORBIDDEN_REQUEST_HEADERS" for n
    using accepted_headers_mem [OF assms(2)] that by (auto simp: filter_empty_conv)
  then show ?thesis
    by (simp add: list_all_iff foldl_append_values [OF assms(1)] header_map_lawsD(1) [OF assms(1)])
qed

lemma prepare_request_Inr:
  assumes "prepare_request L url_parse config allowed r = Inr p"
  obtains u origin hs where "url_parse (sr_url r) = Some u" and "request_origin u = Some origin"
    and "origin \<in> allowed" and "url_username u = []" and "url_password u = None" and "url_fragment u = None"
    and "sr_method r \<notin> {''CONNECT'', ''TRACE''}" and "method_from_bytes L (sr_method r)"
    and "length (sr_body r) \<le> hec_max_request_body_bytes config"
    and "accepted_headers L (sr_headers r) hs" and "head_cost hs \<le> hec_max_request_head_bytes config"
    and "p = \<lparr>prep_method = sr_method r, prep_url = u,
      prep_headers = foldl (\<lambda>m (n, v). hm_append L m n (plain v)) (hm_new L) hs, prep_body = sr_body r\<rparr>"
proof -
  from assms obtain u origin h where u: "url_parse (sr_url r) = Some u" "request_origin u = Some origin"
    "origin \<in> allowed" "url_username u = []" "url_password u = None" "url_fragment u = None"
    "sr_method r \<notin> {''CONNECT'', ''TRACE''}" "method_from_bytes L (sr_method r)"
    "length (sr_body r) \<le> hec_max_request_body_bytes config"
    and h: "parse_request_headers L (sr_headers r) (hec_max_request_head_bytes config) = Inr h"
      "p = \<lparr>prep_method = sr_method r, prep_url = u, prep_headers = h, prep_body = sr_body r\<rparr>"
    unfolding prepare_request_def by (auto simp: try_in_Inr_iff ok_or_Inr_iff not_less split: if_splits)
  from h(1) obtain hs where "accepted_headers L (sr_headers r) hs"
    "head_cost hs \<le> hec_max_request_head_bytes config"
    "h = foldl (\<lambda>m (n, v). hm_append L m n (plain v)) (hm_new L) hs"
    by (auto simp: parse_request_headers_Inr_iff)
  with u h(2) that show thesis by blast
qed

section \<open>Returned headers\<close>

definition response_pairs :: "'h http_lib \<times> 'h \<times> nat \<Rightarrow> ClientInvocationError + (string \<times> bytes) list" where
  "response_pairs = (\<lambda>(L, headers, limit).
     try_in (response_headers L headers limit) (\<lambda>hs. Inr (map (\<lambda>h. (nv_name h, nv_value h)) hs)))"

definition response_blocked :: "'h http_lib \<times> 'h \<times> nat \<Rightarrow> header_name \<Rightarrow> bool" where
  "response_blocked = (\<lambda>(L, headers, limit) n.
     n \<in> set FORBIDDEN_REQUEST_HEADERS \<or>
     (case response_connection_headers L headers of Inl _ \<Rightarrow> True | Inr conn \<Rightarrow> n \<in> conn))"

lemma push_response_header_Inr_iff:
  "push_response_header L limit conn (hs, k) (n, v) = Inr s \<longleftrightarrow>
     (if n \<in> set FORBIDDEN_REQUEST_HEADERS \<or> n \<in> conn then s = (hs, k)
      else k + header_cost n (hv_bytes v) \<le> min limit usize_max \<and> header_value_to_str L (hv_bytes v) \<and>
        s = (hs @ [\<lparr>nv_name = n, nv_value = hv_bytes v\<rparr>], k + header_cost n (hv_bytes v)))"
  by (auto simp: push_response_header_def checked_add_def to_str_def)

lemma push_response_headers_run:
  assumes "fold_res (push_response_header L limit conn) (hs0, k) es = Inr (hs, k')"
  shows "\<exists>new. hs = hs0 @ new \<and> k' = k + head_cost (map (\<lambda>h. (nv_name h, nv_value h)) new) \<and>
    (k \<le> limit \<longrightarrow> k' \<le> limit) \<and>
    list_all2 (\<lambda>(n, u) h. n = nv_name h \<and> to_str L u = Some (nv_value h))
      (filter (\<lambda>e. \<not> (fst e \<in> set FORBIDDEN_REQUEST_HEADERS \<or> fst e \<in> conn)) es) new"
  using assms
proof (induction es arbitrary: hs0 k)
  case Nil
  then show ?case by simp
next
  case (Cons e es)
  obtain n v where e: "e = (n, v)" by (cases e)
  from Cons.prems obtain hs1 k1 where step: "push_response_header L limit conn (hs0, k) (n, v) = Inr (hs1, k1)"
    and rest: "fold_res (push_response_header L limit conn) (hs1, k1) es = Inr (hs, k')"
    by (auto simp: e try_in_Inr_iff)
  from Cons.IH [OF rest] obtain new where new: "hs = hs1 @ new"
    "k' = k1 + head_cost (map (\<lambda>h. (nv_name h, nv_value h)) new)" "k1 \<le> limit \<longrightarrow> k' \<le> limit"
    "list_all2 (\<lambda>(n, u) h. n = nv_name h \<and> to_str L u = Some (nv_value h))
      (filter (\<lambda>e. \<not> (fst e \<in> set FORBIDDEN_REQUEST_HEADERS \<or> fst e \<in> conn)) es) new"
    by blast
  show ?case
  proof (cases "n \<in> set FORBIDDEN_REQUEST_HEADERS \<or> n \<in> conn")
    case True
    with step new show ?thesis
      by (intro exI [of _ new]) (auto simp: e push_response_header_Inr_iff)
  next
    case False
    with step new show ?thesis
      by (intro exI [of _ "\<lparr>nv_name = n, nv_value = hv_bytes v\<rparr> # new"])
        (auto simp: e push_response_header_Inr_iff to_str_def)
  qed
qed

lemma response_headers_Inr:
  assumes "response_headers L h limit = Inr hs"
  obtains conn where "response_connection_headers L h = Inr conn"
    and "head_cost (map (\<lambda>h. (nv_name h, nv_value h)) hs) \<le> limit"
    and "list_all2 (\<lambda>(n, u) h. n = nv_name h \<and> to_str L u = Some (nv_value h))
      (filter (\<lambda>e. \<not> (fst e \<in> set FORBIDDEN_REQUEST_HEADERS \<or> fst e \<in> conn)) (hm_iter L h)) hs"
proof -
  from assms obtain conn k where c: "response_connection_headers L h = Inr conn"
    and f: "fold_res (push_response_header L limit conn) ([], 0) (hm_iter L h) = Inr (hs, k)"
    by (auto simp: response_headers_def try_in_Inr_iff)
  from push_response_headers_run [OF f] c that show thesis by auto
qed

interpretation returned: header_boundary response_pairs "\<lambda>(L, headers, limit). hm_iter L headers"
  response_blocked "\<lambda>(L, headers, limit) v. to_str L v"
proof
  fix s :: "'h http_lib \<times> 'h \<times> nat" and ps
  assume "response_pairs s = Inr ps"
  moreover obtain L h limit where s: "s = (L, h, limit)" by (cases s) auto
  ultimately obtain hs where hs: "response_headers L h limit = Inr hs"
    "ps = map (\<lambda>h. (nv_name h, nv_value h)) hs"
    by (auto simp: response_pairs_def try_in_Inr_iff)
  from hs(1) obtain conn where "response_connection_headers L h = Inr conn"
    and "list_all2 (\<lambda>(n, u) h. n = nv_name h \<and> to_str L u = Some (nv_value h))
      (filter (\<lambda>e. \<not> (fst e \<in> set FORBIDDEN_REQUEST_HEADERS \<or> fst e \<in> conn)) (hm_iter L h)) hs"
    by (rule response_headers_Inr)
  then show "list_all2 (\<lambda>(n, u) (m, v). n = m \<and> (case s of (L, headers, limit) \<Rightarrow> \<lambda>v. to_str L v) u = Some v)
      (filter (\<lambda>e. \<not> response_blocked s (fst e)) (case s of (L, headers, limit) \<Rightarrow> hm_iter L headers)) ps"
    unfolding hs(2) list_all2_map2
    by (auto simp: s response_blocked_def elim!: list_all2_mono)
qed

lemma response_headers_forbidden:
  assumes "response_headers L h limit = Inr hs"
  shows "head_cost (map (\<lambda>x. (nv_name x, nv_value x)) hs) \<le> limit"
    and "list_all (\<lambda>x. nv_name x \<notin> set FORBIDDEN_REQUEST_HEADERS) hs"
proof -
  show "head_cost (map (\<lambda>x. (nv_name x, nv_value x)) hs) \<le> limit"
    using assms by (rule response_headers_Inr)
  have "response_pairs (L, h, limit) = Inr (map (\<lambda>x. (nv_name x, nv_value x)) hs)"
    by (simp add: response_pairs_def assms)
  from returned.crossed_not_blocked [OF this]
  show "list_all (\<lambda>x. nv_name x \<notin> set FORBIDDEN_REQUEST_HEADERS) hs"
    by (force simp: list_all_iff response_blocked_def)
qed

section \<open>Properties\<close>

text \<open>C23. A request that passes the policy goes to one of the configured origins, without user
  information or fragment and not by CONNECT or TRACE; its body and its head are within the
  limits; it carries exactly the caller's header values under their lower-cased names, and none of
  the headers the transport owns.\<close>

theorem egress_request_authorized:
  assumes "header_map_laws L" and "egress_validate url_parse config = Inr allowed"
    and "prepare_request L url_parse config allowed r = Inr p"
  shows "(\<exists>configured origin. configured \<in> set (hec_allowed_origins config) \<and>
      canonical_origin url_parse configured = Inr origin \<and> request_origin (prep_url p) = Some origin) \<and>
    url_parse (sr_url r) = Some (prep_url p) \<and>
    url_username (prep_url p) = [] \<and> url_password (prep_url p) = None \<and> url_fragment (prep_url p) = None \<and>
    prep_method p = sr_method r \<and> prep_method p \<noteq> ''CONNECT'' \<and> prep_method p \<noteq> ''TRACE'' \<and>
    prep_body p = sr_body r \<and> length (prep_body p) \<le> hec_max_request_body_bytes config \<and>
    (\<exists>hs. accepted_headers L (sr_headers r) hs \<and> head_cost hs \<le> hec_max_request_head_bytes config \<and>
       (\<forall>n. hm_get_all L (prep_headers p) n = map (\<lambda>e. plain (snd e)) (filter (\<lambda>e. fst e = n) hs))) \<and>
    list_all (\<lambda>n. hm_get_all L (prep_headers p) n = []) FORBIDDEN_REQUEST_HEADERS"
proof -
  from assms(3) obtain u origin hs where u: "url_parse (sr_url r) = Some u" "request_origin u = Some origin"
    "origin \<in> allowed" "url_username u = []" "url_password u = None" "url_fragment u = None"
    "sr_method r \<notin> {''CONNECT'', ''TRACE''}" "length (sr_body r) \<le> hec_max_request_body_bytes config"
    and hs: "accepted_headers L (sr_headers r) hs" "head_cost hs \<le> hec_max_request_head_bytes config"
    and p: "p = \<lparr>prep_method = sr_method r, prep_url = u,
      prep_headers = foldl (\<lambda>m (n, v). hm_append L m n (plain v)) (hm_new L) hs, prep_body = sr_body r\<rparr>"
    by (rule prepare_request_Inr)
  have vals: "hm_get_all L (prep_headers p) n = map (\<lambda>e. plain (snd e)) (filter (\<lambda>e. fst e = n) hs)" for n
    by (simp add: p foldl_append_values [OF assms(1)] header_map_lawsD(1) [OF assms(1)])
  have "list_all (\<lambda>n. hm_get_all L (prep_headers p) n = []) FORBIDDEN_REQUEST_HEADERS"
    using accepted_header_values [OF assms(1) hs(1)] by (simp add: p)
  moreover obtain configured where "configured \<in> set (hec_allowed_origins config)"
    "canonical_origin url_parse configured = Inr origin"
    using assms(2) u(3) by (auto simp: egress_validate_Inr_iff elim: list_all2_mem2)
  ultimately show ?thesis using u hs vals by (auto simp: p)
qed

abbreviation sample_send :: SendRequest where
  "sample_send \<equiv> \<lparr>sr_body = ''{}'', sr_headers = [\<lparr>nv_name = ''Accept'', nv_value = ''text/plain''\<rparr>],
     sr_method = ''POST'', sr_url = ''https://API.example/v1?x=1''\<rparr>"

abbreviation sample_allowed :: "string set" where
  "sample_allowed \<equiv> {''https://api.example'', ''http://localhost''}"

abbreviation sample_send_url :: url where
  "sample_send_url \<equiv> \<lparr>url_scheme = ''https'', url_host_str = Some ''api.example'', url_username = [],
     url_password = None, url_path = ''/v1'', url_query = Some ''x=1'', url_fragment = None,
     url_origin = ''https://api.example'', url_as_str = ''https://API.example/v1?x=1''\<rparr>"

lemma sample_send_url_parse: "simple_url ''https://API.example/v1?x=1'' = Some sample_send_url"
  by code_simp

abbreviation sample_prepared :: "(header_name \<times> header_value) list PreparedRequest" where
  "sample_prepared \<equiv> \<lparr>prep_method = ''POST'', prep_url = sample_send_url,
     prep_headers = [(''accept'', plain ''text/plain'')], prep_body = ''{}''\<rparr>"

lemma sample_headers_parse:
  "parse_request_headers list_http [\<lparr>nv_name = ''Accept'', nv_value = ''text/plain''\<rparr>] 16384 =
     Inr [(''accept'', plain ''text/plain'')]"
proof -
  have "header_name_from_bytes list_http ''Accept'' = Some ''accept''" by code_simp
  moreover have "header_value_from_str list_http ''text/plain''" by code_simp
  moreover have "hm_append list_http (hm_new list_http) ''accept'' (plain ''text/plain'') =
      [(''accept'', plain ''text/plain'')]" by code_simp
  ultimately show ?thesis
    by (simp add: parse_request_headers_def parse_request_header_def FORBIDDEN_REQUEST_HEADERS_def
        header_cost_def checked_add_def usize_max_def)
qed

lemma sample_prepare:
  "prepare_request list_http simple_url sample_egress sample_allowed sample_send = Inr sample_prepared"
proof -
  have "method_from_bytes list_http ''POST''" by code_simp
  then show ?thesis
    by (simp add: prepare_request_def sample_send_url_parse request_origin_def sample_headers_parse)
qed

theorem egress_request_authorized_witness:
  "request_origin (prep_url sample_prepared) = Some ''https://api.example'' \<and>
   list_all (\<lambda>n. hm_get_all list_http (prep_headers sample_prepared) n = []) FORBIDDEN_REQUEST_HEADERS"
  using egress_request_authorized [OF list_http_header_map_laws sample_egress_validates sample_prepare]
  by (simp add: request_origin_def)

text \<open>The policy answers \<open>DestinationNotAllowed\<close> exactly when the request is otherwise
  addressable (acceptable method and URL) and its origin is not one of the allowed ones.\<close>

theorem destination_not_allowed_iff:
  "prepare_request L url_parse config allowed r = Inl (Domain DestinationNotAllowed) \<longleftrightarrow>
     length (sr_method r) \<le> 32 \<and> length (sr_url r) \<le> 4096 \<and> method_from_bytes L (sr_method r) \<and>
     sr_method r \<noteq> ''CONNECT'' \<and> sr_method r \<noteq> ''TRACE'' \<and>
     (\<exists>u origin. url_parse (sr_url r) = Some u \<and> url_username u = [] \<and> url_password u = None \<and>
        url_fragment u = None \<and> request_origin u = Some origin \<and> origin \<notin> allowed)"
proof -
  have "parse_request_headers L hs limit \<noteq> Inl (Domain DestinationNotAllowed)" for hs limit
  proof -
    have step: "parse_request_header L limit acc nv \<noteq> Inl (Domain DestinationNotAllowed)" for acc nv
      by (auto simp: parse_request_header_def try_in_def ok_or_def split: prod.splits option.splits)
    have "fold_res (parse_request_header L limit) acc hs \<noteq> Inl (Domain DestinationNotAllowed)" for acc
      by (induction hs arbitrary: acc) (auto simp: try_in_Inl_iff step)
    then show ?thesis by (simp add: parse_request_headers_def try_in_Inl_iff)
  qed
  then show ?thesis
    by (auto simp: prepare_request_def try_in_Inl_iff ok_or_Inl_iff ok_or_Inr_iff not_less split: if_splits)
qed

text \<open>The response headers a caller of the egress receives: no header the transport owns and
  none named by the response's own \<open>Connection\<close> header, for every other name all its values in
  order, and together no more than the head limit.\<close>

theorem egress_response_headers_exact:
  assumes "header_map_laws L" and "response_headers L h limit = Inr hs"
  shows "\<exists>conn. response_connection_headers L h = Inr conn \<and>
    head_cost (map (\<lambda>x. (nv_name x, nv_value x)) hs) \<le> limit \<and>
    (\<forall>n. map nv_value (filter (\<lambda>x. nv_name x = n) hs) =
      (if n \<in> set FORBIDDEN_REQUEST_HEADERS \<or> n \<in> conn then [] else map hv_bytes (hm_get_all L h n)))"
proof -
  obtain conn where conn: "response_connection_headers L h = Inr conn"
    "head_cost (map (\<lambda>x. (nv_name x, nv_value x)) hs) \<le> limit"
    using assms(2) by (rule response_headers_Inr)
  let ?ps = "map (\<lambda>x. (nv_name x, nv_value x)) hs"
  have pairs: "response_pairs (L, h, limit) = Inr ?ps" by (simp add: response_pairs_def assms(2))
  have blocked: "response_blocked (L, h, limit) n \<longleftrightarrow> n \<in> set FORBIDDEN_REQUEST_HEADERS \<or> n \<in> conn" for n
    by (simp add: response_blocked_def conn)
  have as_pairs: "map snd (filter (\<lambda>e. fst e = n) ?ps) = map nv_value (filter (\<lambda>x. nv_name x = n) hs)" for n
    by (induction hs) auto
  have "map nv_value (filter (\<lambda>x. nv_name x = n) hs) = map hv_bytes (hm_get_all L h n)"
    if "\<not> response_blocked (L, h, limit) n" for n
  proof -
    have "map Some (map nv_value (filter (\<lambda>x. nv_name x = n) hs)) = map (to_str L) (hm_get_all L h n)"
      using returned.crossed_values [OF pairs that] unfolding as_pairs
      by (simp add: header_map_lawsD(6) [OF assms(1)])
    then show ?thesis by (rule map_Some_to_str)
  qed
  moreover have "filter (\<lambda>x. nv_name x = n) hs = []" if "response_blocked (L, h, limit) n" for n
    using returned.crossed_not_blocked [OF pairs] that by (force simp: filter_empty_conv)
  ultimately show ?thesis using conn blocked by auto
qed

abbreviation sample_response_headers :: "(header_name \<times> header_value) list" where
  "sample_response_headers \<equiv> [(''connection'', plain ''X-Hop, close''), (''x-hop'', plain ''1''),
     (''content-type'', plain ''text/plain''), (''content-length'', plain ''2'')]"

lemma sample_response_headers_read:
  "response_headers list_http sample_response_headers 100 =
     Inr [\<lparr>nv_name = ''content-type'', nv_value = ''text/plain''\<rparr>]"
proof -
  have "response_connection_headers list_http sample_response_headers = Inr {''close'', ''x-hop''}" by code_simp
  moreover have "hm_iter list_http sample_response_headers = sample_response_headers" by (simp add: list_http_def)
  moreover have "to_str list_http (plain ''text/plain'') = Some ''text/plain''" by code_simp
  ultimately show ?thesis
    by (simp add: response_headers_def push_response_header_def FORBIDDEN_REQUEST_HEADERS_def
        header_cost_def checked_add_def usize_max_def)
qed

theorem egress_response_headers_exact_witness:
  "\<exists>conn. response_connection_headers list_http sample_response_headers = Inr conn \<and>
    head_cost (map (\<lambda>x. (nv_name x, nv_value x)) [\<lparr>nv_name = ''content-type'', nv_value = ''text/plain''\<rparr>]) \<le> 100"
  using egress_response_headers_exact [OF list_http_header_map_laws sample_response_headers_read] by blast

end
