(* ===== verification/BoundedBody.thy ===== *)
theory BoundedBody
  imports Runtime
begin

text \<open>
  The contract of reading a body in pieces under a byte limit: the pieces are consumed in order,
  the first bad piece or the first byte beyond the limit ends the reading, and otherwise the body
  is the concatenation of the pieces. The server's request body and the egress response body are
  both read by optimised routines that meet it.
\<close>

fun bounded_from ::
  "('f \<Rightarrow> 'e + bytes) \<Rightarrow> 'e \<Rightarrow> nat \<Rightarrow> bytes \<Rightarrow> 'f list \<Rightarrow> 'e + bytes" where
  "bounded_from classify too_large limit acc [] = Inr acc"
| "bounded_from classify too_large limit acc (f # fs) =
     (case classify f of
        Inl e \<Rightarrow> Inl e
      | Inr d \<Rightarrow> if length acc + length d > limit then Inl too_large
                 else bounded_from classify too_large limit (acc @ d) fs)"

lemma bounded_from_Inr_iff:
  assumes "length acc \<le> limit"
  shows "bounded_from classify too_large limit acc fs = Inr b \<longleftrightarrow>
    (\<exists>ds. map classify fs = map Inr ds \<and> b = acc @ concat ds \<and> length b \<le> limit)"
  using assms
proof (induction fs arbitrary: acc)
  case Nil
  then show ?case by auto
next
  case (Cons f fs)
  show ?case
  proof (cases "classify f")
    case (Inl e)
    then show ?thesis by (auto simp: Cons_eq_map_conv)
  next
    case (Inr d)
    show ?thesis
    proof (cases "length acc + length d > limit")
      case True
      with Inr show ?thesis by (auto simp: Cons_eq_map_conv)
    next
      case False
      have "(\<exists>ds. map classify (f # fs) = map Inr ds \<and> b = acc @ concat ds \<and> length b \<le> limit) \<longleftrightarrow>
          (\<exists>ds. map classify fs = map Inr ds \<and> b = (acc @ d) @ concat ds \<and> length b \<le> limit)"
        using Inr by (auto simp: Cons_eq_map_conv)
      with False Inr Cons.IH [of "acc @ d"] show ?thesis by simp
    qed
  qed
qed

lemma bounded_from_Inl:
  assumes "bounded_from classify too_large limit acc fs = Inl e"
  shows "e = too_large \<or> (\<exists>f \<in> set fs. classify f = Inl e)"
  using assms by (induction fs arbitrary: acc) (auto split: sum.splits if_splits)

locale bounded_reader =
  fixes read :: "nat \<Rightarrow> 'f list \<Rightarrow> 'e + bytes"
    and classify :: "'f \<Rightarrow> 'e + bytes"
    and too_large :: 'e
  assumes read_spec: "limit < usize_max \<Longrightarrow> read limit fs = bounded_from classify too_large limit [] fs"
begin

lemma read_exact:
  assumes "limit < usize_max"
  shows "read limit fs = Inr b \<longleftrightarrow>
    (\<exists>ds. map classify fs = map Inr ds \<and> b = concat ds \<and> length b \<le> limit)"
  by (simp add: read_spec [OF assms] bounded_from_Inr_iff)

lemma read_bounded: "limit < usize_max \<Longrightarrow> read limit fs = Inr b \<Longrightarrow> length b \<le> limit"
  by (auto simp: read_exact)

lemma read_larger_limit:
  assumes "read limit fs = Inr b" and "limit \<le> limit'" and "limit' < usize_max"
  shows "read limit' fs = Inr b"
  using assms read_exact [of limit fs b] read_exact [of limit' fs b] by auto

lemma read_failure:
  "limit < usize_max \<Longrightarrow> read limit fs = Inl e \<Longrightarrow> e = too_large \<or> (\<exists>f \<in> set fs. classify f = Inl e)"
  using bounded_from_Inl by (simp add: read_spec)

end

end
