(* ===== verification/Admission.thy ===== *)
theory Admission
  imports Runtime
begin

text \<open>
  Bounded admission. The semaphore is \<open>tokio::sync::Semaphore\<close>, which is not part of the
  repository: its operations are the fields of a record, and \<open>semaphore_laws\<close> states what its
  documentation promises of a semaphore that is never closed. The locale \<open>admission\<close> is the
  contract of a component whose every step leaves its permits alone, takes one for a call it
  starts, or gives one back for a call that ends.
\<close>

record 's semaphore_lib =
  sem_new :: "nat \<Rightarrow> 's"
  sem_available :: "'s \<Rightarrow> nat"
  sem_try_acquire :: "'s \<Rightarrow> 's option"
  sem_release :: "'s \<Rightarrow> 's"

definition semaphore_laws :: "'s semaphore_lib \<Rightarrow> bool" where
  "semaphore_laws S \<longleftrightarrow>
     (\<forall>n. sem_available S (sem_new S n) = n) \<and>
     (\<forall>s. sem_try_acquire S s = None \<longleftrightarrow> sem_available S s = 0) \<and>
     (\<forall>s s'. sem_try_acquire S s = Some s' \<longrightarrow> sem_available S s = Suc (sem_available S s')) \<and>
     (\<forall>s. sem_available S (sem_release S s) = Suc (sem_available S s))"

lemma semaphore_lawsD:
  assumes "semaphore_laws S"
  shows "sem_available S (sem_new S n) = n"
    and "sem_try_acquire S s = None \<longleftrightarrow> sem_available S s = 0"
    and "sem_try_acquire S s = Some s' \<Longrightarrow> sem_available S s = Suc (sem_available S s')"
    and "sem_available S (sem_release S s) = Suc (sem_available S s)"
  using assms unfolding semaphore_laws_def by blast+

definition counter_semaphore :: "nat semaphore_lib" where
  "counter_semaphore = \<lparr>sem_new = id, sem_available = id,
     sem_try_acquire = (\<lambda>s. case s of 0 \<Rightarrow> None | Suc n \<Rightarrow> Some n), sem_release = Suc\<rparr>"

lemma counter_semaphore_laws: "semaphore_laws counter_semaphore"
  by (auto simp: semaphore_laws_def counter_semaphore_def split: nat.splits)

text \<open>The states a step relation reaches.\<close>

inductive reaches :: "('st \<Rightarrow> 'l \<Rightarrow> 'st \<Rightarrow> bool) \<Rightarrow> 'st \<Rightarrow> 'st \<Rightarrow> bool" for step where
  reaches_refl: "reaches step s s"
| reaches_step: "reaches step s t \<Longrightarrow> step t l u \<Longrightarrow> reaches step s u"

lemma reaches_invariant:
  assumes "reaches step s t" and "P s" and "\<And>t l u. P t \<Longrightarrow> step t l u \<Longrightarrow> P u"
  shows "P t"
  using assms by (induction rule: reaches.induct) blast+

locale admission =
  fixes S :: "'s semaphore_lib"
    and step :: "'st \<Rightarrow> 'l \<Rightarrow> 'st \<Rightarrow> bool"
    and permits :: "'st \<Rightarrow> 's"
    and in_flight :: "'st \<Rightarrow> 'c list"
  assumes step_permits: "step s l s' \<Longrightarrow>
      permits s' = permits s \<and> length (in_flight s') = length (in_flight s) \<or>
      sem_try_acquire S (permits s) = Some (permits s') \<and> length (in_flight s') = Suc (length (in_flight s)) \<or>
      permits s' = sem_release S (permits s) \<and> length (in_flight s) = Suc (length (in_flight s'))"
begin

lemma permits_conserved:
  assumes "semaphore_laws S" and "reaches step s t"
  shows "sem_available S (permits t) + length (in_flight t) = sem_available S (permits s) + length (in_flight s)"
  using assms(2)
proof (induction rule: reaches.induct)
  case (reaches_step s t l u)
  from step_permits [OF reaches_step.hyps(2)] reaches_step.IH show ?case
    using semaphore_lawsD(3,4) [OF assms(1)] by fastforce
qed simp

lemma admitted_within_capacity:
  assumes "semaphore_laws S" and "permits s = sem_new S n" and "in_flight s = []" and "reaches step s t"
  shows "length (in_flight t) \<le> n"
    and "sem_available S (permits t) = n - length (in_flight t)"
    and "sem_try_acquire S (permits t) = None \<longleftrightarrow> length (in_flight t) = n"
  using permits_conserved [OF assms(1,4)] assms(2,3) semaphore_lawsD(1,2) [OF assms(1)] by auto

end

end
