(* ===== verification/EgressProvider.thy ===== *)
theory EgressProvider
  imports EgressPolicy BoundedBody Admission
begin

text \<open>
  The native egress provider (\<open>provider.rs\<close>) and its plugin lifecycle (\<open>native.rs\<close>). What the
  \<open>reqwest\<close> client returns for a request it was given is an input of the model: a transport
  error, or a response with its status, headers, announced length and the outcomes of its
  \<open>chunk\<close> calls up to the end of the body. A transport error is the answer of its
  \<open>is_timeout\<close>. Calls run concurrently: \<open>client_step\<close> interleaves admission, completion,
  cancellation and dropping of any number of calls.
\<close>

definition classify_transport_error :: "bool \<Rightarrow> ClientInvocationError" where
  "classify_transport_error is_timeout = Domain (if is_timeout then Timeout else TransportFailure)"

definition chunk_result :: "bool + bytes \<Rightarrow> ClientInvocationError + bytes" where
  "chunk_result = map_err classify_transport_error"

fun read_more_chunks ::
  "nat \<Rightarrow> bytes \<Rightarrow> (bool + bytes) list \<Rightarrow> ClientInvocationError + bytes" where
  "read_more_chunks limit body [] = Inr body"
| "read_more_chunks limit body (c # cs) =
     try_in (chunk_result c) (\<lambda>chunk.
       if saturating_add (length body) (length chunk) > limit then Inl (Domain ResponseTooLarge)
       else read_more_chunks limit (body @ chunk) cs)"

definition read_bounded_body :: "nat \<Rightarrow> (bool + bytes) list \<Rightarrow> ClientInvocationError + bytes" where
  "read_bounded_body limit chunks =
     (case chunks of
        [] \<Rightarrow> Inr []
      | c1 # chunks1 \<Rightarrow> try_in (chunk_result c1) (\<lambda>first.
          if length first > limit then Inl (Domain ResponseTooLarge)
          else (case chunks1 of
             [] \<Rightarrow> Inr first
           | c2 # chunks2 \<Rightarrow> try_in (chunk_result c2) (\<lambda>second.
               let total = saturating_add (length first) (length second) in
               if total > limit then Inl (Domain ResponseTooLarge)
               else read_more_chunks limit (first @ second) chunks2))))"

record 'h reqwest_response =
  rr_status :: nat
  rr_headers :: 'h
  rr_content_length :: "nat option"
  rr_chunks :: "(bool + bytes) list"

definition read_response ::
  "'h http_lib \<Rightarrow> HttpEgressConfig \<Rightarrow> 'h reqwest_response \<Rightarrow> ClientInvocationError + SendResponse" where
  "read_response L config response =
     try_in (response_headers L (rr_headers response) (hec_max_response_head_bytes config)) (\<lambda>headers.
       if (case rr_content_length response of None \<Rightarrow> False
           | Some len \<Rightarrow> len > hec_max_response_body_bytes config)
       then Inl (Domain ResponseTooLarge)
       else try_in (read_bounded_body (hec_max_response_body_bytes config) (rr_chunks response)) (\<lambda>body.
         Inr \<lparr>sres_body = body, sres_headers = headers, sres_status = int (rr_status response)\<rparr>))"

text \<open>The requests handed to the client, and the result.\<close>

definition egress_execute ::
  "'h http_lib \<Rightarrow> url_lib \<Rightarrow> HttpEgressConfig \<Rightarrow> string set \<Rightarrow> SendRequest \<Rightarrow> bool + 'h reqwest_response \<Rightarrow>
   'h PreparedRequest list \<times> (ClientInvocationError + SendResponse)" where
  "egress_execute L url_parse config allowed request outcome =
     (case prepare_request L url_parse config allowed request of
        Inl e \<Rightarrow> ([], Inl e)
      | Inr prepared \<Rightarrow> ([prepared],
          try_in (map_err classify_transport_error outcome) (read_response L config)))"

section \<open>Concurrent calls\<close>

type_synonym send_result = "RuntimeFailure + (SendError + SendResponse)"

definition send_enter ::
  "'s semaphore_lib \<Rightarrow> 's \<Rightarrow> nat \<Rightarrow> bool \<Rightarrow> RuntimeFailure + 's" where
  "send_enter S permits request_id is_cancelled =
     (if is_cancelled then Inl (Cancelled request_id)
      else ok_or (sem_try_acquire S permits) (ResourceExhausted ''lenso.http.client@1'' ''send''))"

definition send_complete :: "ClientInvocationError + SendResponse \<Rightarrow> send_result" where
  "send_complete result =
     (case result of
        Inr response \<Rightarrow> Inr (Inr response)
      | Inl (Domain error) \<Rightarrow> Inr (Inl error)
      | Inl (RuntimeError error) \<Rightarrow> Inl error)"

text \<open>
  The provider with its calls: those in flight hold a permit; \<open>cs_sent\<close> and \<open>cs_answers\<close>
  record what reached the transport and what the callers were told.
\<close>

record ('s, 'p) client_state =
  cs_permits :: 's
  cs_in_flight :: "(nat \<times> nat \<times> SendRequest) list"
  cs_sent :: "'p list"
  cs_answers :: "(nat \<times> send_result) list"

definition client_start :: "'s semaphore_lib \<Rightarrow> HttpEgressConfig \<Rightarrow> ('s, 'p) client_state" where
  "client_start S config =
     \<lparr>cs_permits = sem_new S (hec_max_concurrent_requests config), cs_in_flight = [], cs_sent = [],
      cs_answers = []\<rparr>"

datatype ('c, 'o) client_event =
    Call 'c nat bool SendRequest
  | Completed 'c 'o
  | CancelledInFlight 'c 'o bool
  | DroppedCall 'c 'o bool

definition finish_in_flight ::
  "'s semaphore_lib \<Rightarrow> nat \<times> nat \<times> SendRequest \<Rightarrow> 'p list \<Rightarrow> (nat \<times> send_result) list \<Rightarrow>
   ('s, 'p) client_state \<Rightarrow> ('s, 'p) client_state" where
  "finish_in_flight S entry sent answers st =
     st\<lparr>cs_permits := sem_release S (cs_permits st), cs_in_flight := remove1 entry (cs_in_flight st),
        cs_sent := cs_sent st @ sent, cs_answers := cs_answers st @ answers\<rparr>"

text \<open>
  One step of the provider: a call is refused or admitted; a call in flight completes with what
  the transport returned, is cancelled (before or after its request reached the transport), or is
  dropped by its caller. \<open>exec\<close> is the \<open>execute\<close> of the provider, \<open>None\<close> when it panics;
  the permit is released on unwinding too.
\<close>

definition sent_by :: "('p list \<times> 'r) option \<Rightarrow> 'p list" where
  "sent_by x = (case x of None \<Rightarrow> [] | Some (sent, _) \<Rightarrow> sent)"

lemma sent_by_Some [simp]: "sent_by (Some (sent, r)) = sent" "sent_by None = []"
  by (simp_all add: sent_by_def)

inductive client_step ::
  "'s semaphore_lib \<Rightarrow> (SendRequest \<Rightarrow> 'o \<Rightarrow> ('p list \<times> (ClientInvocationError + SendResponse)) option) \<Rightarrow>
   ('s, 'p) client_state \<Rightarrow> (nat, 'o) client_event \<Rightarrow> ('s, 'p) client_state \<Rightarrow> bool"
  for S exec where
  refused: "send_enter S (cs_permits st) rid cancelled = Inl failure \<Longrightarrow>
    client_step S exec st (Call c rid cancelled request) (st\<lparr>cs_answers := cs_answers st @ [(c, Inl failure)]\<rparr>)"
| admitted: "send_enter S (cs_permits st) rid cancelled = Inr permits \<Longrightarrow>
    client_step S exec st (Call c rid cancelled request)
      (st\<lparr>cs_permits := permits, cs_in_flight := cs_in_flight st @ [(c, rid, request)]\<rparr>)"
| completed: "(c, rid, request) \<in> set (cs_in_flight st) \<Longrightarrow> exec request outcome = Some (sent, result) \<Longrightarrow>
    client_step S exec st (Completed c outcome)
      (finish_in_flight S (c, rid, request) sent [(c, send_complete result)] st)"
| cancelled: "(c, rid, request) \<in> set (cs_in_flight st) \<Longrightarrow>
    client_step S exec st (CancelledInFlight c outcome reached)
      (finish_in_flight S (c, rid, request) (if reached then sent_by (exec request outcome) else [])
        [(c, Inl (Cancelled rid))] st)"
| panicked: "(c, rid, request) \<in> set (cs_in_flight st) \<Longrightarrow> exec request outcome = None \<Longrightarrow>
    client_step S exec st (Completed c outcome) (finish_in_flight S (c, rid, request) [] [] st)"
| dropped: "(c, rid, request) \<in> set (cs_in_flight st) \<Longrightarrow>
    client_step S exec st (DroppedCall c outcome reached)
      (finish_in_flight S (c, rid, request) (if reached then sent_by (exec request outcome) else []) [] st)"

inductive_cases client_stepE: "client_step S exec st e st'"

section \<open>Reading the response body\<close>

lemma read_more_chunks_spec:
  assumes "limit < usize_max"
  shows "read_more_chunks limit body cs = bounded_from chunk_result (Domain ResponseTooLarge) limit body cs"
  by (induction cs arbitrary: body)
    (use assms in \<open>auto simp: try_in_def saturating_add_def min_def split: sum.splits\<close>)

interpretation response_body: bounded_reader read_bounded_body chunk_result "Domain ResponseTooLarge"
proof
  fix limit and cs :: "(bool + bytes) list" assume "limit < usize_max"
  then show "read_bounded_body limit cs = bounded_from chunk_result (Domain ResponseTooLarge) limit [] cs"
    by (auto simp: read_bounded_body_def read_more_chunks_spec saturating_add_def min_def Let_def try_in_def
        split: list.splits sum.splits)
qed

section \<open>Admission\<close>

interpretation client_admission: admission S "client_step S exec" cs_permits cs_in_flight
  for S :: "'s semaphore_lib" and exec :: "SendRequest \<Rightarrow> 'o \<Rightarrow> ('p list \<times> (ClientInvocationError + SendResponse)) option"
proof
  fix s :: "('s, 'p) client_state" and l s'
  assume "client_step S exec s l s'"
  then show "cs_permits s' = cs_permits s \<and> length (cs_in_flight s') = length (cs_in_flight s) \<or>
      sem_try_acquire S (cs_permits s) = Some (cs_permits s') \<and>
        length (cs_in_flight s') = Suc (length (cs_in_flight s)) \<or>
      cs_permits s' = sem_release S (cs_permits s) \<and>
        length (cs_in_flight s) = Suc (length (cs_in_flight s'))"
    by (cases rule: client_step.cases)
      (auto simp: send_enter_def finish_in_flight_def result_simps length_remove1 split: if_splits
        dest: length_pos_if_in_set)
qed

text \<open>Everything that reaches the transport, and every answer, comes from \<open>exec\<close>.\<close>

lemma client_log:
  assumes "reaches (client_step S exec) st0 st" and "cs_sent st0 = []" and "cs_answers st0 = []"
  shows "p \<in> set (cs_sent st) \<Longrightarrow> \<exists>request outcome. p \<in> set (sent_by (exec request outcome))"
    and "(c, Inr answer) \<in> set (cs_answers st) \<Longrightarrow>
      \<exists>request outcome sent result. exec request outcome = Some (sent, result) \<and> send_complete result = Inr answer"
  using assms
proof (induction rule: reaches.induct)
  case (reaches_step s t l u)
  {
    case 1
    from reaches_step.hyps(2) 1 reaches_step.IH(1) [OF _ 1(2,3)] show ?case
      by (cases rule: client_step.cases)
        (auto simp: finish_in_flight_def split: if_splits, metis sent_by_Some)
  next
    case 2
    from reaches_step.hyps(2) 2 reaches_step.IH(2) [OF _ 2(2,3)] show ?case
      by (cases rule: client_step.cases) (auto simp: finish_in_flight_def split: if_splits, metis)
  }
qed auto

lemma send_complete_response_iff: "send_complete r = Inr (Inr x) \<longleftrightarrow> r = Inr x"
  by (cases r) (auto simp: send_complete_def split: InvocationError.splits)

definition native_exec ::
  "'h http_lib \<Rightarrow> url_lib \<Rightarrow> HttpEgressConfig \<Rightarrow> string set \<Rightarrow> SendRequest \<Rightarrow> bool + 'h reqwest_response \<Rightarrow>
   ('h PreparedRequest list \<times> (ClientInvocationError + SendResponse)) option" where
  "native_exec L url_parse config allowed request outcome =
     Some (egress_execute L url_parse config allowed request outcome)"

lemma egress_execute_sent:
  "p \<in> set (fst (egress_execute L url_parse config allowed r outcome)) \<longleftrightarrow>
     prepare_request L url_parse config allowed r = Inr p"
  by (cases "prepare_request L url_parse config allowed r") (auto simp: egress_execute_def)

lemma egress_execute_response:
  "snd (egress_execute L url_parse config allowed r outcome) = Inr response \<Longrightarrow>
     \<exists>reply. read_response L config reply = Inr response"
  by (cases "prepare_request L url_parse config allowed r") (auto simp: egress_execute_def try_in_Inr_iff)

section \<open>Plugin lifecycle\<close>

text \<open>
  \<open>prepare\<close> builds a client (the parameter \<open>build\<close>, from its settings) and installs a fresh
  provider, \<open>deactivate\<close> removes it, and a call while there is none fails. \<open>'c\<close> is the client.
\<close>

record client_settings =
  set_http_version :: HttpVersionPolicy
  set_follow_redirects :: bool
  set_retry :: bool
  set_referer :: bool
  set_proxy :: bool
  set_connect_timeout_millis :: nat
  set_timeout_millis :: nat
  set_user_agent :: string

record ('c, 's) HttpEgressProvider =
  hep_client :: 'c
  hep_config :: HttpEgressConfig
  hep_allowed_origins :: "string set"
  hep_permits :: 's

definition provider_new ::
  "'s semaphore_lib \<Rightarrow> 'c \<Rightarrow> HttpEgressConfig \<Rightarrow> string set \<Rightarrow> ('c, 's) HttpEgressProvider" where
  "provider_new S client config allowed_origins =
     \<lparr>hep_client = client, hep_config = config, hep_allowed_origins = allowed_origins,
      hep_permits = sem_new S (hec_max_concurrent_requests config)\<rparr>"

record ('c, 's) HttpEgressPlugin =
  hpl_config :: HttpEgressConfig
  hpl_provider :: "('c, 's) HttpEgressProvider option"

definition validate_config :: "url_lib \<Rightarrow> HttpEgressConfig \<Rightarrow> RuntimeFailure + unit" where
  "validate_config url_parse config =
     (case egress_validate url_parse config of
        Inl detail \<Rightarrow> Inl (InvalidResolvedPlan (''HTTP Egress configuration is invalid: '' @ detail))
      | Inr _ \<Rightarrow> Inr ())"

definition apply_http_version :: "client_settings \<Rightarrow> HttpVersionPolicy \<Rightarrow> client_settings" where
  "apply_http_version builder policy =
     (case policy of
        Auto \<Rightarrow> builder
      | Http1Only \<Rightarrow> builder\<lparr>set_http_version := Http1Only\<rparr>
      | Http2PriorKnowledge \<Rightarrow> builder\<lparr>set_http_version := Http2PriorKnowledge\<rparr>)"

definition plugin_prepare ::
  "'s semaphore_lib \<Rightarrow> url_lib \<Rightarrow> (client_settings \<Rightarrow> string + 'c) \<Rightarrow> client_settings \<Rightarrow> string \<Rightarrow>
   ('c, 's) HttpEgressPlugin \<Rightarrow> ('c, 's) HttpEgressPlugin \<times> (RuntimeFailure + unit)" where
  "plugin_prepare S url_parse build builder version plugin =
     (case egress_validate url_parse (hpl_config plugin) of
        Inl detail \<Rightarrow> (plugin, Inl (InvalidResolvedPlan (''HTTP Egress configuration is invalid: '' @ detail)))
      | Inr allowed_origins \<Rightarrow>
          (case build ((apply_http_version builder (hec_http_version (hpl_config plugin)))
                  \<lparr>set_follow_redirects := False, set_retry := False, set_referer := False, set_proxy := False,
                   set_connect_timeout_millis := hec_connect_timeout_millis (hpl_config plugin),
                   set_timeout_millis := hec_request_timeout_millis (hpl_config plugin),
                   set_user_agent := ''lenso-http-egress-plugin/'' @ version\<rparr>) of
             Inl error \<Rightarrow> (plugin, Inl (PluginFailure (''HTTP Egress client could not be prepared: '' @ error)))
           | Inr client \<Rightarrow>
               (plugin\<lparr>hpl_provider := Some (provider_new S client (hpl_config plugin) allowed_origins)\<rparr>, Inr ())))"

definition plugin_deactivate ::
  "('c, 's) HttpEgressPlugin \<Rightarrow> ('c, 's) HttpEgressPlugin \<times> (RuntimeFailure + unit)" where
  "plugin_deactivate plugin = (plugin\<lparr>hpl_provider := None\<rparr>, Inr ())"

text \<open>The start of a call on the plugin: the provider it will run on, or the failure.\<close>

definition plugin_send_start :: "('c, 's) HttpEgressPlugin \<Rightarrow> RuntimeFailure + ('c, 's) HttpEgressProvider" where
  "plugin_send_start plugin = ok_or (hpl_provider plugin) (PluginFailure ''HTTP Egress is not prepared'')"

inductive plugin_reached ::
  "'s semaphore_lib \<Rightarrow> url_lib \<Rightarrow> (client_settings \<Rightarrow> string + 'c) \<Rightarrow> HttpEgressConfig \<Rightarrow>
   ('c, 's) HttpEgressPlugin \<Rightarrow> bool" for S url_parse build config where
  "plugin_reached S url_parse build config \<lparr>hpl_config = config, hpl_provider = None\<rparr>"
| "plugin_reached S url_parse build config p \<Longrightarrow>
     plugin_reached S url_parse build config (fst (plugin_prepare S url_parse build builder version p))"
| "plugin_reached S url_parse build config p \<Longrightarrow>
     plugin_reached S url_parse build config (fst (plugin_deactivate p))"

section \<open>Properties\<close>

text \<open>C24. The concurrency limit of the egress: however calls interleave, complete, are cancelled or
  dropped, no more than the configured number are in flight, and a call is turned away as
  exhausted exactly when that many are; so no permit is ever lost.\<close>

theorem egress_concurrency_bounded:
  fixes S :: "'s semaphore_lib" and L :: "'h http_lib"
  assumes "semaphore_laws S"
    and "reaches (client_step S (native_exec L url_parse config allowed)) (client_start S config) st"
  shows "length (cs_in_flight st) \<le> hec_max_concurrent_requests config \<and>
    (send_enter S (cs_permits st) rid False = Inl (ResourceExhausted ''lenso.http.client@1'' ''send'') \<longleftrightarrow>
       length (cs_in_flight st) = hec_max_concurrent_requests config) \<and>
    (is_ok (send_enter S (cs_permits st) rid False) \<longleftrightarrow>
       length (cs_in_flight st) < hec_max_concurrent_requests config)"
proof -
  have start: "cs_permits (client_start S config :: ('s, 'h PreparedRequest) client_state) =
      sem_new S (hec_max_concurrent_requests config)"
    "cs_in_flight (client_start S config :: ('s, 'h PreparedRequest) client_state) = []"
    by (simp_all add: client_start_def)
  note admitted = client_admission.admitted_within_capacity [OF assms(1) start assms(2)]
  have "send_enter S (cs_permits st) rid False = Inl (ResourceExhausted ''lenso.http.client@1'' ''send'') \<longleftrightarrow>
      sem_try_acquire S (cs_permits st) = None"
    and "is_ok (send_enter S (cs_permits st) rid False) \<longleftrightarrow> sem_try_acquire S (cs_permits st) \<noteq> None"
    by (auto simp: send_enter_def result_simps is_ok_iff)
  with admitted show ?thesis by auto
qed

text \<open>C35. In every reachable state of the egress provider, each request that was ever handed to the
  transport goes to a configured origin over a URL without user information, is no CONNECT or
  TRACE, stays within the body limit and carries no header the transport owns.\<close>

theorem egress_sends_only_authorized:
  assumes "header_map_laws L" and "egress_validate url_parse config = Inr allowed"
    and "reaches (client_step S (native_exec L url_parse config allowed)) (client_start S config) st"
  shows "list_all (\<lambda>p. request_origin (prep_url p) \<in> Some ` allowed \<and> url_username (prep_url p) = [] \<and>
      url_password (prep_url p) = None \<and> prep_method p \<notin> {''CONNECT'', ''TRACE''} \<and>
      length (prep_body p) \<le> hec_max_request_body_bytes config \<and>
      list_all (\<lambda>n. hm_get_all L (prep_headers p) n = []) FORBIDDEN_REQUEST_HEADERS) (cs_sent st)"
  unfolding list_all_iff [of _ "cs_sent st"]
proof
  fix p assume p: "p \<in> set (cs_sent st)"
  have "\<exists>request outcome. p \<in> set (sent_by (native_exec L url_parse config allowed request outcome))"
    using client_log(1) [OF assms(3) _ _ p] by (simp add: client_start_def)
  then obtain r where "prepare_request L url_parse config allowed r = Inr p"
    by (auto simp: sent_by_def native_exec_def split: prod.splits) (metis egress_execute_sent fst_conv)
  then show "request_origin (prep_url p) \<in> Some ` allowed \<and> url_username (prep_url p) = [] \<and>
      url_password (prep_url p) = None \<and> prep_method p \<notin> {''CONNECT'', ''TRACE''} \<and>
      length (prep_body p) \<le> hec_max_request_body_bytes config \<and>
      list_all (\<lambda>n. hm_get_all L (prep_headers p) n = []) FORBIDDEN_REQUEST_HEADERS"
    by (rule prepare_request_Inr) (auto simp: accepted_header_values [OF assms(1)])
qed

text \<open>Every response the egress returns is within the limits: its body and its head are no
  larger than configured, and none of its headers is one the transport owns.\<close>

theorem egress_responses_bounded:
  assumes "egress_validate url_parse config = Inr allowed"
    and "reaches (client_step S (native_exec L url_parse config allowed)) (client_start S config) st"
    and "(c, Inr (Inr response)) \<in> set (cs_answers st)"
  shows "length (sres_body response) \<le> hec_max_response_body_bytes config \<and>
    head_cost (map (\<lambda>x. (nv_name x, nv_value x)) (sres_headers response)) \<le> hec_max_response_head_bytes config \<and>
    list_all (\<lambda>x. nv_name x \<notin> set FORBIDDEN_REQUEST_HEADERS) (sres_headers response)"
proof -
  have "\<exists>request outcome sent result. native_exec L url_parse config allowed request outcome = Some (sent, result) \<and>
      send_complete result = Inr (Inr response)"
    using client_log(2) [OF assms(2) _ _ assms(3)] by (simp add: client_start_def)
  then have "\<exists>request outcome. snd (egress_execute L url_parse config allowed request outcome) = Inr response"
    by (auto simp: native_exec_def send_complete_response_iff) (metis snd_conv)
  then obtain reply where "read_response L config reply = Inr response"
    using egress_execute_response by blast
  then obtain headers body where h: "response_headers L (rr_headers reply) (hec_max_response_head_bytes config) = Inr headers"
    and b: "read_bounded_body (hec_max_response_body_bytes config) (rr_chunks reply) = Inr body"
    and r: "sres_headers response = headers" "sres_body response = body"
    by (auto simp: read_response_def try_in_Inr_iff split: if_splits)
  have "hec_max_response_body_bytes config < usize_max"
    using assms(1) by (auto simp: egress_validate_Inr_iff egress_in_limit_def egress_limit_defs usize_max_def)
  from response_body.read_bounded [OF this b] response_headers_forbidden [OF h] r show ?thesis by simp
qed

text \<open>Reading a response body under a limit succeeds exactly when every chunk arrives and they
  fit together, and then yields their concatenation; a failure is the size limit or the first
  transport error's class.\<close>

theorem egress_response_body_exact:
  assumes "limit < usize_max"
  shows "(read_bounded_body limit chunks = Inr body \<longleftrightarrow>
      (\<exists>ds. chunks = map Inr ds \<and> body = concat ds \<and> length body \<le> limit)) \<and>
    (\<forall>e. read_bounded_body limit chunks = Inl e \<longrightarrow>
       e = Domain ResponseTooLarge \<or> (\<exists>t. Inl t \<in> set chunks \<and> e = classify_transport_error t))"
proof -
  have "map chunk_result chunks = map Inr ds \<longleftrightarrow> chunks = map Inr ds" for ds
    by (induction chunks arbitrary: ds) (auto simp: chunk_result_def map_err_def Cons_eq_map_conv split: sum.splits)
  moreover have "chunk_result c = Inl e \<longleftrightarrow> (\<exists>t. c = Inl t \<and> e = classify_transport_error t)" for c e
    by (cases c) (auto simp: chunk_result_def)
  ultimately show ?thesis
    using response_body.read_exact [OF assms, of chunks body] response_body.read_failure [OF assms, of chunks]
    by fastforce
qed

theorem egress_response_body_exact_witness:
  "read_bounded_body 4 [Inr ''ab'', Inr [], Inr ''cd''] = Inr ''abcd'' \<and>
   (\<forall>e. read_bounded_body 3 [Inr ''ab'', Inr [], Inr ''cd''] = Inl e \<longrightarrow> e = Domain ResponseTooLarge)"
proof
  have "(\<exists>ds. [Inr ''ab'', Inr [], Inr ''cd''] = map (Inr :: bytes \<Rightarrow> bool + bytes) ds \<and>
      ''abcd'' = concat ds \<and> length ''abcd'' \<le> 4)"
    by (rule exI [of _ "[''ab'', [], ''cd'']"]) simp
  then show "read_bounded_body 4 [Inr ''ab'', Inr [], Inr ''cd''] = Inr ''abcd''"
    using egress_response_body_exact [of 4 "[Inr ''ab'', Inr [], Inr ''cd'']" "''abcd''"]
    by (simp add: usize_max_def)
  show "\<forall>e. read_bounded_body 3 [Inr ''ab'', Inr [], Inr ''cd''] = Inl e \<longrightarrow> e = Domain ResponseTooLarge"
    using egress_response_body_exact [of 3 "[Inr ''ab'', Inr [], Inr ''cd'']"] by (simp add: usize_max_def)
qed

section \<open>A concrete run\<close>

abbreviation sample_reply :: "(header_name \<times> header_value) list reqwest_response" where
  "sample_reply \<equiv> \<lparr>rr_status = 200, rr_headers = [], rr_content_length = Some 2, rr_chunks = [Inr ''ok'']\<rparr>"

abbreviation sample_exec ::
  "SendRequest \<Rightarrow> bool + (header_name \<times> header_value) list reqwest_response \<Rightarrow>
   ((header_name \<times> header_value) list PreparedRequest list \<times> (ClientInvocationError + SendResponse)) option" where
  "sample_exec \<equiv> native_exec list_http simple_url sample_egress sample_allowed"

abbreviation sample_response :: SendResponse where
  "sample_response \<equiv> \<lparr>sres_body = ''ok'', sres_headers = [], sres_status = 200\<rparr>"

lemma sample_exec_result: "sample_exec sample_send (Inr sample_reply) = Some ([sample_prepared], Inr sample_response)"
proof -
  have "response_headers list_http [] limit = Inr []" for limit
    by (simp add: response_headers_def response_connection_headers_def list_http_def)
  then show ?thesis
    unfolding native_exec_def egress_execute_def sample_prepare
    by (simp add: read_response_def read_bounded_body_def chunk_result_def)
qed

abbreviation sample_served :: "(nat, (header_name \<times> header_value) list PreparedRequest) client_state" where
  "sample_served \<equiv> \<lparr>cs_permits = 64, cs_in_flight = [], cs_sent = [sample_prepared],
     cs_answers = [(0, Inr (Inr sample_response))]\<rparr>"

lemma sample_served_reached:
  "reaches (client_step counter_semaphore sample_exec) (client_start counter_semaphore sample_egress) sample_served"
proof (rule reaches_step [OF reaches_step [OF reaches_refl]])
  let ?mid = "\<lparr>cs_permits = 63, cs_in_flight = [(0, 7, sample_send)], cs_sent = [], cs_answers = []\<rparr>"
  have "send_enter counter_semaphore 64 7 False = Inr 63"
    by (simp add: send_enter_def counter_semaphore_def)
  then show "client_step counter_semaphore sample_exec (client_start counter_semaphore sample_egress)
      (Call 0 7 False sample_send) ?mid"
    using admitted [of counter_semaphore "client_start counter_semaphore sample_egress" 7 False 63 sample_exec 0 sample_send]
    by (simp add: client_start_def counter_semaphore_def)
  show "client_step counter_semaphore sample_exec ?mid (Completed 0 (Inr sample_reply)) sample_served"
    using completed [of 0 7 sample_send ?mid sample_exec "Inr sample_reply" "[sample_prepared]" "Inr sample_response"
        counter_semaphore]
    by (simp add: sample_exec_result finish_in_flight_def counter_semaphore_def send_complete_def)
qed

theorem egress_concurrency_bounded_witness:
  "length (cs_in_flight sample_served) \<le> 64 \<and> is_ok (send_enter counter_semaphore (cs_permits sample_served) 9 False)"
  using egress_concurrency_bounded [OF counter_semaphore_laws sample_served_reached, of 9] by simp

theorem egress_sends_only_authorized_witness:
  "list_all (\<lambda>p. request_origin (prep_url p) \<in> Some ` sample_allowed) (cs_sent sample_served)"
  using egress_sends_only_authorized [OF list_http_header_map_laws sample_egress_validates sample_served_reached]
  by (simp add: list_all_iff)

theorem egress_responses_bounded_witness: "length (sres_body sample_response) \<le> 4194304"
  using egress_responses_bounded [OF sample_egress_validates sample_served_reached, of 0 sample_response] by simp

text \<open>A call on the plugin runs, at any point of the lifecycle, on a provider whose origins are
  those the configuration validates to and whose client was built without redirects, retries,
  referer or proxy and with the configured timeouts; without such a provider it fails.\<close>

theorem egress_plugin_client_confined:
  assumes "plugin_reached S url_parse build config plugin"
  shows "case plugin_send_start plugin of
      Inl failure \<Rightarrow> failure = PluginFailure ''HTTP Egress is not prepared''
    | Inr provider \<Rightarrow> hep_config provider = config \<and>
        egress_validate url_parse config = Inr (hep_allowed_origins provider) \<and>
        hep_permits provider = sem_new S (hec_max_concurrent_requests config) \<and>
        (\<exists>settings. build settings = Inr (hep_client provider) \<and> \<not> set_follow_redirects settings \<and>
           \<not> set_retry settings \<and> \<not> set_referer settings \<and> \<not> set_proxy settings \<and>
           set_connect_timeout_millis settings = hec_connect_timeout_millis config \<and>
           set_timeout_millis settings = hec_request_timeout_millis config \<and>
           (hec_http_version config \<noteq> Auto \<longrightarrow> set_http_version settings = hec_http_version config))"
proof -
  have version: "hec_http_version config \<noteq> Auto \<longrightarrow>
      set_http_version (apply_http_version builder (hec_http_version config)) = hec_http_version config" for builder
    by (simp add: apply_http_version_def split: HttpVersionPolicy.splits)
  from assms have "hpl_config plugin = config \<and> (\<forall>provider. hpl_provider plugin = Some provider \<longrightarrow>
      hep_config provider = config \<and> egress_validate url_parse config = Inr (hep_allowed_origins provider) \<and>
      hep_permits provider = sem_new S (hec_max_concurrent_requests config) \<and>
      (\<exists>settings. build settings = Inr (hep_client provider) \<and> \<not> set_follow_redirects settings \<and>
           \<not> set_retry settings \<and> \<not> set_referer settings \<and> \<not> set_proxy settings \<and>
           set_connect_timeout_millis settings = hec_connect_timeout_millis config \<and>
           set_timeout_millis settings = hec_request_timeout_millis config \<and>
           (hec_http_version config \<noteq> Auto \<longrightarrow> set_http_version settings = hec_http_version config)))"
  proof (induction rule: plugin_reached.induct)
    case (2 p builder v)
    show ?case
      using 2 version [of builder]
      by (auto simp: plugin_prepare_def provider_new_def split: sum.splits intro!: exI)
  qed (auto simp: plugin_deactivate_def)
  then show ?thesis by (simp add: plugin_send_start_def ok_or_def split: option.splits)
qed

abbreviation sample_plugin :: "(nat, nat) HttpEgressPlugin" where
  "sample_plugin \<equiv> \<lparr>hpl_config = sample_egress, hpl_provider = None\<rparr>"

abbreviation sample_builder :: client_settings where
  "sample_builder \<equiv> \<lparr>set_http_version = Auto, set_follow_redirects = True, set_retry = True, set_referer = True,
     set_proxy = True, set_connect_timeout_millis = 0, set_timeout_millis = 0, set_user_agent = []\<rparr>"

theorem egress_plugin_client_confined_witness:
  "case plugin_send_start (fst (plugin_prepare counter_semaphore simple_url (\<lambda>_. Inr 5) sample_builder ''0.3.5''
      sample_plugin)) of
     Inl failure \<Rightarrow> failure = PluginFailure ''HTTP Egress is not prepared''
   | Inr provider \<Rightarrow> hep_config provider = sample_egress"
  using egress_plugin_client_confined [OF plugin_reached.intros(2) [OF plugin_reached.intros(1)
        [of counter_semaphore simple_url "\<lambda>_. Inr (5 :: nat)" sample_egress]], of sample_builder "''0.3.5''"]
  by (auto split: sum.splits)

end
