(* ===== verification/EgressEvent.thy ===== *)
theory EgressEvent
  imports EgressProvider
begin

text \<open>
  The event-owned egress (\<open>event.rs\<close>): a host transport behind the same client contract. The
  outcome of the host's \<open>send\<close> is an input of the model: one of the transport's failures, or a
  buffered response. Calls interleave as for the native provider.
\<close>

datatype HttpEventError = EvTimeout | EvResponseTooLarge | EvTransportFailure

definition send_error_from :: "HttpEventError \<Rightarrow> SendError" where
  "send_error_from value =
     (case value of
        EvTimeout \<Rightarrow> Timeout
      | EvResponseTooLarge \<Rightarrow> ResponseTooLarge
      | EvTransportFailure \<Rightarrow> TransportFailure)"

record HttpEventLimits =
  hel_max_response_body_bytes :: nat
  hel_max_response_head_bytes :: nat
  hel_request_timeout_millis :: nat

record 'h HttpEventRequest =
  her_method :: http_method
  her_uri :: uri
  her_headers :: 'h
  her_body :: bytes
  her_limits :: HttpEventLimits

record 'h event_response =
  evr_status :: nat
  evr_headers :: 'h
  evr_body :: bytes

text \<open>The \<open>User-Agent\<close> entry; \<open>None\<close> is the panic of its \<open>expect\<close>.\<close>

definition with_user_agent :: "'h http_lib \<Rightarrow> string \<Rightarrow> 'h \<Rightarrow> 'h option" where
  "with_user_agent L version headers =
     (if hm_contains_key L headers ''user-agent'' then Some headers
      else let agent = ''lenso-http-egress-plugin/'' @ version in
        if header_value_from_str L agent then Some (hm_insert L headers ''user-agent'' (plain agent)) else None)"

definition event_request ::
  "'h http_lib \<Rightarrow> string \<Rightarrow> HttpEgressConfig \<Rightarrow> 'h PreparedRequest \<Rightarrow>
   (ClientInvocationError + 'h HttpEventRequest) option" where
  "event_request L version config prepared =
     (case uri_parse L (url_as_str (prep_url prepared)) of
        None \<Rightarrow> Some (Inl (Domain InvalidRequest))
      | Some u \<Rightarrow> map_option (\<lambda>headers. Inr
          \<lparr>her_method = prep_method prepared, her_uri = u, her_headers = headers, her_body = prep_body prepared,
           her_limits = \<lparr>hel_max_response_body_bytes = hec_max_response_body_bytes config,
             hel_max_response_head_bytes = hec_max_response_head_bytes config,
             hel_request_timeout_millis = hec_request_timeout_millis config\<rparr>\<rparr>)
          (with_user_agent L version (prep_headers prepared)))"

definition announced_length :: "'h http_lib \<Rightarrow> 'h \<Rightarrow> nat option" where
  "announced_length L headers =
     (case hm_get L headers ''content-length'' of
        None \<Rightarrow> None
      | Some value \<Rightarrow> (case to_str L value of None \<Rightarrow> None | Some v \<Rightarrow> parse_usize v))"

definition event_too_large :: "'h http_lib \<Rightarrow> HttpEgressConfig \<Rightarrow> bool \<Rightarrow> 'h event_response \<Rightarrow> bool" where
  "event_too_large L config is_head response \<longleftrightarrow>
     length (evr_body response) > hec_max_response_body_bytes config \<or>
     (\<not> is_head \<and> evr_status response \<notin> {204, 304} \<and>
      (case announced_length L (evr_headers response) of None \<Rightarrow> False
       | Some len \<Rightarrow> len > hec_max_response_body_bytes config))"

definition event_read_response ::
  "'h http_lib \<Rightarrow> HttpEgressConfig \<Rightarrow> bool \<Rightarrow> 'h event_response \<Rightarrow> ClientInvocationError + SendResponse" where
  "event_read_response L config is_head response =
     (if event_too_large L config is_head response then Inl (Domain ResponseTooLarge)
      else try_in (response_headers L (evr_headers response) (hec_max_response_head_bytes config)) (\<lambda>headers.
        Inr \<lparr>sres_body = evr_body response, sres_headers = headers, sres_status = int (evr_status response)\<rparr>))"

text \<open>The requests handed to the host and the result; \<open>None\<close> is a panic.\<close>

definition event_execute ::
  "'h http_lib \<Rightarrow> url_lib \<Rightarrow> string \<Rightarrow> HttpEgressConfig \<Rightarrow> string set \<Rightarrow> SendRequest \<Rightarrow>
   HttpEventError + 'h event_response \<Rightarrow>
   ('h HttpEventRequest list \<times> (ClientInvocationError + SendResponse)) option" where
  "event_execute L url_parse version config allowed request outcome =
     (case prepare_request L url_parse config allowed request of
        Inl e \<Rightarrow> Some ([], Inl e)
      | Inr prepared \<Rightarrow>
          (let is_head = (prep_method prepared = ''HEAD'') in
           case event_request L version config prepared of
             None \<Rightarrow> None
           | Some (Inl e) \<Rightarrow> Some ([], Inl e)
           | Some (Inr ev) \<Rightarrow> Some ([ev],
               try_in (map_err (\<lambda>e. Domain (send_error_from e)) outcome) (event_read_response L config is_head))))"

section \<open>The factory\<close>

text \<open>
  \<open>instantiate\<close> over the parsed configuration (\<open>Inl\<close> the text of a parse error); the flag says
  whether the factory has already been used.
\<close>

record 's EventProvider =
  evp_config :: HttpEgressConfig
  evp_allowed_origins :: "string set"
  evp_permits :: 's

definition event_invalid :: "string \<Rightarrow> RuntimeFailure" where
  "event_invalid detail = InvalidResolvedPlan (''HTTP Egress configuration is invalid: '' @ detail)"

definition event_instantiate ::
  "'s semaphore_lib \<Rightarrow> url_lib \<Rightarrow> bool \<Rightarrow> string + HttpEgressConfig \<Rightarrow> bool \<times> (RuntimeFailure + 's EventProvider)" where
  "event_instantiate S url_parse instantiated configuration =
     (case configuration of
        Inl error \<Rightarrow> (instantiated, Inl (event_invalid error))
      | Inr config \<Rightarrow>
          (case egress_validate url_parse config of
             Inl detail \<Rightarrow> (instantiated, Inl (event_invalid detail))
           | Inr allowed_origins \<Rightarrow>
               if hec_http_version config \<noteq> Auto
               then (instantiated, Inl (event_invalid ''event Fetch cannot force an HTTP protocol version''))
               else if hec_connect_timeout_millis config \<noteq> hec_request_timeout_millis config
               then (instantiated, Inl (event_invalid ''event Fetch requires equal connect and total request timeouts''))
               else if instantiated
               then (True, Inl (event_invalid ''create a fresh HTTP Egress event factory for each App''))
               else (True, Inr \<lparr>evp_config = config, evp_allowed_origins = allowed_origins,
                       evp_permits = sem_new S (hec_max_concurrent_requests config)\<rparr>)))"

text \<open>A factory asked repeatedly, with the configurations of a list.\<close>

fun event_instantiations ::
  "'s semaphore_lib \<Rightarrow> url_lib \<Rightarrow> bool \<Rightarrow> (string + HttpEgressConfig) list \<Rightarrow> (RuntimeFailure + 's EventProvider) list" where
  "event_instantiations S url_parse used [] = []"
| "event_instantiations S url_parse used (c # cs) =
     (case event_instantiate S url_parse used c of (used', r) \<Rightarrow> r # event_instantiations S url_parse used' cs)"

section \<open>Concurrent calls\<close>

definition event_step ::
  "'s semaphore_lib \<Rightarrow> 'h http_lib \<Rightarrow> url_lib \<Rightarrow> string \<Rightarrow> HttpEgressConfig \<Rightarrow> string set \<Rightarrow>
   ('s, 'h HttpEventRequest) client_state \<Rightarrow> (nat, HttpEventError + 'h event_response) client_event \<Rightarrow>
   ('s, 'h HttpEventRequest) client_state \<Rightarrow> bool" where
  "event_step S L url_parse version config allowed = client_step S (event_execute L url_parse version config allowed)"

section \<open>What reaches the host\<close>

lemma with_user_agent_headers:
  assumes "header_map_laws L" and "with_user_agent L version h = Some h'"
  shows "n \<noteq> ''user-agent'' \<Longrightarrow> hm_get_all L h' n = hm_get_all L h n"
    and "hm_get_all L h' ''user-agent'' =
      (if hm_get_all L h ''user-agent'' = [] then [plain (''lenso-http-egress-plugin/'' @ version)]
       else hm_get_all L h ''user-agent'')"
  using assms(2) header_map_lawsD(2) [OF assms(1)]
  by (auto simp: with_user_agent_def hm_contains_key_def Let_def split: if_splits)

lemma event_execute_Some:
  assumes "event_execute L url_parse version config allowed r outcome = Some (sent, result)" and "ev \<in> set sent"
  obtains p where "prepare_request L url_parse config allowed r = Inr p"
    and "uri_parse L (url_as_str (prep_url p)) = Some (her_uri ev)" and "her_method ev = prep_method p"
    and "her_body ev = prep_body p" and "with_user_agent L version (prep_headers p) = Some (her_headers ev)"
    and "her_limits ev = \<lparr>hel_max_response_body_bytes = hec_max_response_body_bytes config,
      hel_max_response_head_bytes = hec_max_response_head_bytes config,
      hel_request_timeout_millis = hec_request_timeout_millis config\<rparr>"
  using assms
  by (auto simp: event_execute_def event_request_def Let_def split: sum.splits option.splits)

lemma event_sent_confined:
  assumes "header_map_laws L"
    and "\<exists>r outcome. ev \<in> set (sent_by (event_execute L url_parse version config allowed r outcome))"
  shows "\<exists>u. request_origin u \<in> Some ` allowed \<and>
    uri_parse L (url_as_str u) = Some (her_uri ev) \<and>
    list_all (\<lambda>n. hm_get_all L (her_headers ev) n = []) FORBIDDEN_REQUEST_HEADERS \<and>
    hm_get_all L (her_headers ev) ''user-agent'' \<noteq> [] \<and>
    hel_request_timeout_millis (her_limits ev) = hec_request_timeout_millis config"
proof -
  from assms(2) obtain r outcome sent result where
    "event_execute L url_parse version config allowed r outcome = Some (sent, result)" "ev \<in> set sent"
    by (auto simp: sent_by_def split: option.splits) metis
  then obtain p where p: "prepare_request L url_parse config allowed r = Inr p"
    and ev: "uri_parse L (url_as_str (prep_url p)) = Some (her_uri ev)"
      "with_user_agent L version (prep_headers p) = Some (her_headers ev)"
      "her_limits ev = \<lparr>hel_max_response_body_bytes = hec_max_response_body_bytes config,
        hel_max_response_head_bytes = hec_max_response_head_bytes config,
        hel_request_timeout_millis = hec_request_timeout_millis config\<rparr>"
    by (rule event_execute_Some)
  from p have "request_origin (prep_url p) \<in> Some ` allowed \<and>
      list_all (\<lambda>n. hm_get_all L (prep_headers p) n = []) FORBIDDEN_REQUEST_HEADERS"
    by (rule prepare_request_Inr) (auto simp: accepted_header_values [OF assms(1)])
  moreover have "n \<noteq> ''user-agent''" if "n \<in> set FORBIDDEN_REQUEST_HEADERS" for n
    using that by (auto simp: FORBIDDEN_REQUEST_HEADERS_def)
  ultimately show ?thesis
    using ev with_user_agent_headers [OF assms(1) ev(2)] by (intro exI [of _ "prep_url p"]) (simp add: list_all_iff)
qed

lemma event_execute_response:
  assumes "event_execute L url_parse version config allowed r outcome = Some (sent, Inr response)"
  obtains is_head reply where "event_read_response L config is_head reply = Inr response"
  using assms
  by (auto simp: event_execute_def Let_def try_in_Inr_iff split: sum.splits option.splits)

section \<open>Properties\<close>

text \<open>Preparing an event request never panics: the package's \<open>User-Agent\<close> text is accepted,
  whatever request and response are involved.\<close>

theorem event_execute_never_panics:
  assumes "header_text_laws L" and "list_all visible_ascii version"
  shows "event_execute L url_parse version config allowed r outcome \<noteq> None"
proof -
  have "list_all visible_ascii (''lenso-http-egress-plugin/'' @ version)"
    using assms(2) by (simp add: visible_ascii_def byte_def)
  then have "header_value_from_str L (''lenso-http-egress-plugin/'' @ version)"
    using header_text_lawsD(3,4) [OF assms(1)] by blast
  then show ?thesis
    by (simp add: event_execute_def event_request_def with_user_agent_def Let_def split: sum.splits option.splits)
qed

theorem event_execute_never_panics_witness:
  "event_execute list_http simple_url ''0.3.5'' sample_egress sample_allowed sample_send (Inl EvTimeout) \<noteq> None"
  by (rule event_execute_never_panics [OF list_http_header_text_laws]) code_simp

text \<open>The event egress keeps the same promises as the native one under any interleaving: at most
  the configured number of calls in flight; every request the host was given addresses an allowed
  origin, carries no transport-owned header, exactly one \<open>User-Agent\<close> unless the caller set some,
  and the configured limits; every response returned is within them.\<close>

theorem event_egress_confined:
  fixes S :: "'s semaphore_lib" and L :: "'h http_lib"
  assumes "semaphore_laws S" and "header_map_laws L" and "egress_validate url_parse config = Inr allowed"
    and "reaches (event_step S L url_parse version config allowed) (client_start S config) st"
  shows "length (cs_in_flight st) \<le> hec_max_concurrent_requests config \<and>
    (\<forall>ev \<in> set (cs_sent st). \<exists>u. request_origin u \<in> Some ` allowed \<and>
       uri_parse L (url_as_str u) = Some (her_uri ev) \<and>
       list_all (\<lambda>n. hm_get_all L (her_headers ev) n = []) FORBIDDEN_REQUEST_HEADERS \<and>
       hm_get_all L (her_headers ev) ''user-agent'' \<noteq> [] \<and>
       hel_request_timeout_millis (her_limits ev) = hec_request_timeout_millis config) \<and>
    (\<forall>c response. (c, Inr (Inr response)) \<in> set (cs_answers st) \<longrightarrow>
       length (sres_body response) \<le> hec_max_response_body_bytes config \<and>
       list_all (\<lambda>x. nv_name x \<notin> set FORBIDDEN_REQUEST_HEADERS) (sres_headers response))"
proof (intro conjI ballI allI impI)
  let ?exec = "event_execute L url_parse version config allowed" and ?st0 = "client_start S config :: ('s, 'h HttpEventRequest) client_state"
  have start: "cs_permits ?st0 = sem_new S (hec_max_concurrent_requests config)" "cs_in_flight ?st0 = []"
    "cs_sent ?st0 = []" "cs_answers ?st0 = []"
    by (simp_all add: client_start_def)
  have reach: "reaches (client_step S ?exec) ?st0 st" using assms(4) by (simp add: event_step_def)
  show "length (cs_in_flight st) \<le> hec_max_concurrent_requests config"
    by (rule client_admission.admitted_within_capacity(1) [OF assms(1) start(1,2) reach])
  show "\<exists>u. request_origin u \<in> Some ` allowed \<and>
       uri_parse L (url_as_str u) = Some (her_uri ev) \<and>
       list_all (\<lambda>n. hm_get_all L (her_headers ev) n = []) FORBIDDEN_REQUEST_HEADERS \<and>
       hm_get_all L (her_headers ev) ''user-agent'' \<noteq> [] \<and>
       hel_request_timeout_millis (her_limits ev) = hec_request_timeout_millis config"
    if "ev \<in> set (cs_sent st)" for ev
    using client_log(1) [OF reach start(3,4) that] event_sent_confined [OF assms(2)] by blast
  fix c response assume "(c, Inr (Inr response)) \<in> set (cs_answers st)"
  from client_log(2) [OF reach start(3,4) this] obtain r o' sent where
    "?exec r o' = Some (sent, Inr response)" by (auto simp: send_complete_response_iff)
  then obtain is_head reply where "event_read_response L config is_head reply = Inr response"
    by (rule event_execute_response)
  then show "length (sres_body response) \<le> hec_max_response_body_bytes config"
    and "list_all (\<lambda>x. nv_name x \<notin> set FORBIDDEN_REQUEST_HEADERS) (sres_headers response)"
    using response_headers_forbidden(2)
    by (auto simp: event_read_response_def event_too_large_def try_in_Inr_iff not_less split: if_splits)
qed

abbreviation sample_uri_of_url :: uri where
  "sample_uri_of_url \<equiv> \<lparr>uri_scheme_str = Some ''https'', uri_authority = Some ''API.example/v1?x=1'',
     uri_path_and_query = None, uri_path = ''/'', uri_query = None\<rparr>"

abbreviation sample_event_headers :: "(header_name \<times> header_value) list" where
  "sample_event_headers \<equiv>
     [(''accept'', plain ''text/plain''), (''user-agent'', plain ''lenso-http-egress-plugin/0.3.5'')]"

abbreviation sample_event :: "(header_name \<times> header_value) list HttpEventRequest" where
  "sample_event \<equiv> \<lparr>her_method = ''POST'',
     her_uri = sample_uri_of_url, her_headers = sample_event_headers,
     her_body = ''{}'',
     her_limits = \<lparr>hel_max_response_body_bytes = 4194304, hel_max_response_head_bytes = 32768,
       hel_request_timeout_millis = 30000\<rparr>\<rparr>"

abbreviation sample_event_exec where
  "sample_event_exec \<equiv> event_execute list_http simple_url ''0.3.5'' sample_egress sample_allowed"

lemma sample_event_result:
  "sample_event_exec sample_send (Inr \<lparr>evr_status = 200, evr_headers = [], evr_body = ''ok''\<rparr>) =
     Some ([sample_event], Inr sample_response)"
proof -
  have "uri_parse list_http ''https://API.example/v1?x=1'' = Some sample_uri_of_url" by code_simp
  moreover have "with_user_agent list_http ''0.3.5'' [(''accept'', plain ''text/plain'')] = Some sample_event_headers"
    by code_simp
  ultimately have "event_request list_http ''0.3.5'' sample_egress sample_prepared = Some (Inr sample_event)"
    by (simp add: event_request_def)
  moreover have "response_headers list_http [] limit = Inr []" for limit
    by (simp add: response_headers_def response_connection_headers_def list_http_def)
  moreover have "hm_get list_http [] ''content-length'' = None" by code_simp
  ultimately show ?thesis
    unfolding event_execute_def sample_prepare
    by (simp add: event_read_response_def event_too_large_def announced_length_def)
qed

abbreviation sample_event_served :: "(nat, (header_name \<times> header_value) list HttpEventRequest) client_state" where
  "sample_event_served \<equiv> \<lparr>cs_permits = 64, cs_in_flight = [], cs_sent = [sample_event],
     cs_answers = [(0, Inr (Inr sample_response))]\<rparr>"

lemma sample_event_served_reached:
  "reaches (event_step counter_semaphore list_http simple_url ''0.3.5'' sample_egress sample_allowed)
     (client_start counter_semaphore sample_egress) sample_event_served"
  unfolding event_step_def
proof (rule reaches_step [OF reaches_step [OF reaches_refl]])
  let ?mid = "\<lparr>cs_permits = 63, cs_in_flight = [(0, 7, sample_send)], cs_sent = [], cs_answers = []\<rparr>"
  have "send_enter counter_semaphore 64 7 False = Inr 63"
    by (simp add: send_enter_def counter_semaphore_def)
  then show "client_step counter_semaphore sample_event_exec (client_start counter_semaphore sample_egress)
      (Call 0 7 False sample_send) ?mid"
    using admitted [of counter_semaphore "client_start counter_semaphore sample_egress" 7 False 63
        sample_event_exec 0 sample_send]
    by (simp add: client_start_def counter_semaphore_def)
  show "client_step counter_semaphore sample_event_exec ?mid
      (Completed 0 (Inr \<lparr>evr_status = 200, evr_headers = [], evr_body = ''ok''\<rparr>)) sample_event_served"
    using completed [of 0 7 sample_send ?mid sample_event_exec
        "Inr \<lparr>evr_status = 200, evr_headers = [], evr_body = ''ok''\<rparr>" "[sample_event]" "Inr sample_response"
        counter_semaphore]
    by (simp add: sample_event_result finish_in_flight_def counter_semaphore_def send_complete_def)
qed

theorem event_egress_confined_witness:
  "hm_get_all list_http (her_headers sample_event) ''user-agent'' \<noteq> [] \<and>
   length (sres_body sample_response) \<le> 4194304"
proof -
  note run = event_egress_confined [OF counter_semaphore_laws list_http_header_map_laws sample_egress_validates
      sample_event_served_reached]
  show ?thesis
    using bspec [OF conjunct1 [OF conjunct2 [OF run]], of sample_event]
      conjunct2 [OF conjunct2 [OF run], rule_format, of 0 sample_response] by auto
qed

text \<open>An event factory serves one application: however often it is asked, at most one
  instantiation succeeds, and only with a validated configuration whose two timeouts agree and
  which does not force a protocol version.\<close>

theorem event_factory_single_use:
  "length (filter is_ok (event_instantiations S url_parse False cs)) \<le> 1 \<and>
   (\<forall>provider. Inr provider \<in> set (event_instantiations S url_parse False cs) \<longrightarrow>
      Inr (evp_config provider) \<in> set cs \<and>
      egress_validate url_parse (evp_config provider) = Inr (evp_allowed_origins provider) \<and>
      hec_http_version (evp_config provider) = Auto \<and>
      hec_connect_timeout_millis (evp_config provider) = hec_request_timeout_millis (evp_config provider) \<and>
      evp_permits provider = sem_new S (hec_max_concurrent_requests (evp_config provider)))"
proof -
  let ?ok = "\<lambda>cs provider. Inr (evp_config provider) \<in> set cs \<and>
      egress_validate url_parse (evp_config provider) = Inr (evp_allowed_origins provider) \<and>
      hec_http_version (evp_config provider) = Auto \<and>
      hec_connect_timeout_millis (evp_config provider) = hec_request_timeout_millis (evp_config provider) \<and>
      evp_permits provider = sem_new S (hec_max_concurrent_requests (evp_config provider))"
  have used: "filter is_ok (event_instantiations S url_parse True cs) = []" for cs
    by (induction cs) (auto simp: event_instantiate_def split: sum.splits)
  have "length (filter is_ok (event_instantiations S url_parse used cs)) \<le> 1" for used
    by (induction cs arbitrary: used) (auto simp: event_instantiate_def used split: sum.splits prod.splits)
  moreover have "Inr provider \<in> set (event_instantiations S url_parse used cs) \<Longrightarrow> ?ok cs provider" for used provider
    by (induction cs arbitrary: used) (auto simp: event_instantiate_def split: sum.splits if_splits)
  ultimately show ?thesis by blast
qed

end
