(* ===== verification/EgressWorkers.thy ===== *)
theory EgressWorkers
  imports EgressEvent Complex_Main
begin

text \<open>
  The transport of the event egress over an injected JavaScript function (\<open>workers.rs\<close>): the
  request is written as a JavaScript object, the function called, and the settled promise read
  back under the response limits. JavaScript is not part of the repository: its values are a
  datatype as far as the code distinguishes them, and \<open>Reflect::get\<close> and \<open>Reflect::set\<close> are
  parameters that may throw (\<open>None\<close>). Numbers are rationals or not finite. The target has 32-bit
  addresses, so \<open>usize\<close> saturates there at \<open>2 ^ 32 - 1\<close>.
\<close>

section \<open>JavaScript values\<close>

datatype js_float = JsFinite rat | JsNotFinite

datatype js =
    JsUndefined
  | JsNumber js_float
  | JsString string
  | JsUint8Array bytes
  | JsArray "js list"
  | JsObject "(string \<times> js) list"
  | JsFunction nat
  | JsPromise nat
  | JsOther nat

record js_lib =
  reflect_get :: "js \<Rightarrow> string \<Rightarrow> js option"
  reflect_set :: "js \<Rightarrow> string \<Rightarrow> js \<Rightarrow> js option"

definition as_f64 :: "js \<Rightarrow> js_float option" where
  "as_f64 v = (case v of JsNumber x \<Rightarrow> Some x | _ \<Rightarrow> None)"

definition as_js_string :: "js \<Rightarrow> string option" where
  "as_js_string v = (case v of JsString s \<Rightarrow> Some s | _ \<Rightarrow> None)"

text \<open>The checked casts of \<open>dyn_into\<close>.\<close>

definition as_uint8_array :: "js \<Rightarrow> HttpEventError + bytes" where
  "as_uint8_array v = (case v of JsUint8Array b \<Rightarrow> Inr b | _ \<Rightarrow> Inl EvTransportFailure)"

definition as_js_array :: "js \<Rightarrow> HttpEventError + js list" where
  "as_js_array v = (case v of JsArray vs \<Rightarrow> Inr vs | _ \<Rightarrow> Inl EvTransportFailure)"

definition as_function :: "js \<Rightarrow> HttpEventError + nat" where
  "as_function v = (case v of JsFunction f \<Rightarrow> Inr f | _ \<Rightarrow> Inl EvTransportFailure)"

definition as_promise :: "js \<Rightarrow> HttpEventError + nat" where
  "as_promise v = (case v of JsPromise p \<Rightarrow> Inr p | _ \<Rightarrow> Inl EvTransportFailure)"

lemmas js_cast_defs = as_f64_def as_js_string_def as_uint8_array_def as_js_array_def as_function_def as_promise_def

lemma js_cast_iff [result_simps]:
  "as_f64 v = Some x \<longleftrightarrow> v = JsNumber x"
  "as_js_string v = Some s \<longleftrightarrow> v = JsString s"
  "as_uint8_array v = Inr b \<longleftrightarrow> v = JsUint8Array b"
  "as_js_array v = Inr vs \<longleftrightarrow> v = JsArray vs"
  "as_function v = Inr f \<longleftrightarrow> v = JsFunction f"
  "as_promise v = Inr p \<longleftrightarrow> v = JsPromise p"
  by (auto simp: js_cast_defs split: js.splits)

definition js_field :: "js_lib \<Rightarrow> js \<Rightarrow> string \<Rightarrow> HttpEventError + js" where
  "js_field JS v name = ok_or (reflect_get JS v name) EvTransportFailure"

definition js_set :: "js_lib \<Rightarrow> js \<Rightarrow> string \<Rightarrow> js \<Rightarrow> HttpEventError + js" where
  "js_set JS object name v = ok_or (reflect_set JS object name v) EvTransportFailure"

section \<open>The request\<close>

definition u32_max :: nat where "u32_max = 2 ^ 32 - 1"

text \<open>\<open>JsValue::from\<close> of a \<open>u32\<close> the value fits into.\<close>

definition js_u32 :: "nat \<Rightarrow> HttpEventError + js" where
  "js_u32 v = (if v \<le> u32_max then Inr (JsNumber (JsFinite (of_nat v))) else Inl EvTransportFailure)"

definition encode_header :: "'h http_lib \<Rightarrow> header_name \<times> header_value \<Rightarrow> HttpEventError + js" where
  "encode_header L h =
     try_in (ok_or (to_str L (snd h)) EvTransportFailure) (\<lambda>text. Inr (JsArray [JsString (fst h), JsString text]))"

definition encode_limits :: "js_lib \<Rightarrow> HttpEventLimits \<Rightarrow> HttpEventError + js" where
  "encode_limits JS limits =
     fold_res (\<lambda>object (name, v). try_in (js_u32 v) (js_set JS object name)) (JsObject [])
       [(''max_response_body_bytes'', hel_max_response_body_bytes limits),
        (''max_response_head_bytes'', hel_max_response_head_bytes limits),
        (''request_timeout_millis'', hel_request_timeout_millis limits)]"

text \<open>\<open>U\<close> prints a URI.\<close>

definition encode_request ::
  "js_lib \<Rightarrow> 'h http_lib \<Rightarrow> (uri \<Rightarrow> string) \<Rightarrow> 'h HttpEventRequest \<Rightarrow> HttpEventError + js" where
  "encode_request JS L U input =
     try_in (js_set JS (JsObject []) ''url'' (JsString (U (her_uri input)))) (\<lambda>object.
     try_in (js_set JS object ''method'' (JsString (her_method input))) (\<lambda>object.
     try_in (traverse (encode_header L) (hm_iter L (her_headers input))) (\<lambda>headers.
     try_in (js_set JS object ''headers'' (JsArray headers)) (\<lambda>object.
     try_in (js_set JS object ''body'' (JsUint8Array (her_body input))) (\<lambda>object.
     try_in (encode_limits JS (her_limits input)) (\<lambda>limits.
       js_set JS object ''limits'' limits))))))"

section \<open>The response\<close>

definition response_status :: "js \<Rightarrow> HttpEventError + nat" where
  "response_status v =
     (case as_f64 v of
        Some (JsFinite x) \<Rightarrow>
          if x = of_int \<lfloor>x\<rfloor> \<and> 100 \<le> x \<and> x \<le> 599 then Inr (nat \<lfloor>x\<rfloor>) else Inl EvTransportFailure
      | _ \<Rightarrow> Inl EvTransportFailure)"

definition saturating_add32 :: "nat \<Rightarrow> nat \<Rightarrow> nat" where
  "saturating_add32 a b = min (a + b) u32_max"

definition decode_header ::
  "'h http_lib \<Rightarrow> nat \<Rightarrow> nat \<times> 'h \<Rightarrow> js \<Rightarrow> HttpEventError + nat \<times> 'h" where
  "decode_header L head_limit st pair =
     (case st of (head_bytes, headers) \<Rightarrow>
      try_in (as_js_array pair) (\<lambda>pair.
        if length pair \<noteq> 2 then Inl EvTransportFailure
        else
          try_in (ok_or (as_js_string (pair ! 0)) EvTransportFailure) (\<lambda>name.
          try_in (ok_or (as_js_string (pair ! 1)) EvTransportFailure) (\<lambda>text.
            let head_bytes = saturating_add32 (saturating_add32 (saturating_add32 head_bytes (length name)) (length text)) 4 in
            if head_bytes > head_limit then Inl EvResponseTooLarge
            else
              try_in (ok_or (header_name_from_bytes L name) EvTransportFailure) (\<lambda>name.
              if header_value_from_str L text then Inr (head_bytes, hm_append L headers name (plain text))
              else Inl EvTransportFailure)))))"

definition decode_response ::
  "js_lib \<Rightarrow> 'h http_lib \<Rightarrow> js \<Rightarrow> nat \<Rightarrow> nat \<Rightarrow> HttpEventError + 'h event_response" where
  "decode_response JS L v body_limit head_limit =
     try_in (js_field JS v ''status'') (\<lambda>status.
     try_in (response_status status) (\<lambda>status.
     try_in (js_field JS v ''body'') (\<lambda>body.
     try_in (as_uint8_array body) (\<lambda>body.
       if length body > body_limit then Inl EvResponseTooLarge
       else
         try_in (js_field JS v ''headers'') (\<lambda>headers.
         try_in (as_js_array headers) (\<lambda>headers.
           if length headers > head_limit div 4 then Inl EvResponseTooLarge
           else if \<not> status_from_u16 L status then Inl EvTransportFailure
           else
             try_in (fold_res (decode_header L head_limit) (0, hm_new L) headers) (\<lambda>(_, headers).
               Inr \<lparr>evr_status = status, evr_headers = headers, evr_body = body\<rparr>)))))))"

section \<open>Sending\<close>

text \<open>How waiting for a promise ends: it settles, or the call is dropped first.\<close>

datatype awaited = Resolved js | RejectedWith js | DroppedEarly

definition rejection_error :: "js_lib \<Rightarrow> js \<Rightarrow> HttpEventError" where
  "rejection_error JS error =
     (let code = (case js_field JS error ''code'' of Inl _ \<Rightarrow> None | Inr v \<Rightarrow> as_js_string v)
      in if code = Some ''timeout'' then EvTimeout
         else if code = Some ''response_too_large'' then EvResponseTooLarge
         else EvTransportFailure)"

text \<open>
  A send: its result, \<open>None\<close> when the call was dropped while waiting, and the abort functions
  called. \<open>fetch\<close> is the injected function, which may throw.
\<close>

definition workers_send ::
  "js_lib \<Rightarrow> 'h http_lib \<Rightarrow> (uri \<Rightarrow> string) \<Rightarrow> (js \<Rightarrow> js option) \<Rightarrow> (nat \<Rightarrow> awaited) \<Rightarrow> 'h HttpEventRequest \<Rightarrow>
   (HttpEventError + 'h event_response) option \<times> nat list" where
  "workers_send JS L U fetch settle input =
     (case try_in (encode_request JS L U input) (\<lambda>encoded.
           try_in (ok_or (fetch encoded) EvTransportFailure) (\<lambda>operation.
           try_in (js_field JS operation ''abort'') (\<lambda>abort.
           try_in (as_function abort) (\<lambda>abort. Inr (operation, abort))))) of
        Inl e \<Rightarrow> (Some (Inl e), [])
      | Inr (operation, abort) \<Rightarrow>
          (case try_in (js_field JS operation ''promise'') as_promise of
             Inl e \<Rightarrow> (Some (Inl e), [abort])
           | Inr promise \<Rightarrow>
               (case settle promise of
                  DroppedEarly \<Rightarrow> (None, [abort])
                | RejectedWith error \<Rightarrow> (Some (Inl (rejection_error JS error)), [abort])
                | Resolved v \<Rightarrow>
                    (Some (decode_response JS L v (hel_max_response_body_bytes (her_limits input))
                       (hel_max_response_head_bytes (her_limits input))), [abort]))))"

section \<open>What is accepted from JavaScript\<close>

abbreviation head_size :: "(string \<times> string) list \<Rightarrow> nat" where
  "head_size ps \<equiv> sum_list (map (\<lambda>p. length (fst p) + length (snd p) + 4) ps)"

definition appended :: "'h http_lib \<Rightarrow> (string \<times> string) list \<Rightarrow> 'h" where
  "appended L ps = foldl (\<lambda>h p. hm_append L h (fst p) (plain (snd p))) (hm_new L) ps"

lemma appended_get:
  "header_map_laws L \<Longrightarrow> hm_get_all L (appended L ps) n = map (\<lambda>p. plain (snd p)) (filter (\<lambda>p. fst p = n) ps)"
  by (induction ps rule: rev_induct) (auto simp: appended_def header_map_lawsD(1,3))

text \<open>The bytes counted so far are exact while they are below the limit.\<close>

lemma decode_header_step:
  assumes "decode_header L limit (head_size ps, appended L ps) pair = Inr st" and "limit < u32_max" and "header_text_laws L"
  shows "\<exists>ps'. st = (head_size ps', appended L ps') \<and> head_size ps' \<le> limit"
proof -
  from assms(1) obtain name content n where n: "header_name_from_bytes L name = Some n" and
    st: "st = (saturating_add32 (saturating_add32 (saturating_add32 (head_size ps) (length name)) (length content)) 4,
      hm_append L (appended L ps) n (plain content))"
    and le: "saturating_add32 (saturating_add32 (saturating_add32 (head_size ps) (length name)) (length content)) 4 \<le> limit"
    by (auto simp: decode_header_def Let_def result_simps split: if_splits)
  have "length n = length name"
    using header_text_lawsD(1) [OF assms(3) n] by (simp add: to_ascii_lowercase_def)
  moreover have "head_size ps + length name + length content + 4 \<le> limit"
    using le assms(2) by (auto simp: saturating_add32_def min_def split: if_splits)
  ultimately have "head_size (ps @ [(n, content)]) \<le> limit \<and> st = (head_size (ps @ [(n, content)]), appended L (ps @ [(n, content)]))"
    using assms(2) unfolding st by (simp add: appended_def saturating_add32_def min_def)
  then show ?thesis by blast
qed

lemma decode_response_bounded:
  assumes "decode_response JS L v body_limit head_limit = Inr response" and "head_limit < u32_max" and "header_text_laws L"
  shows "length (evr_body response) \<le> body_limit \<and> 100 \<le> evr_status response \<and> evr_status response \<le> 599 \<and>
    (\<exists>ps. evr_headers response = appended L ps \<and> head_size ps \<le> head_limit)"
proof -
  from assms(1) obtain s headers c h where s: "response_status s = Inr (evr_status response)"
    and body: "length (evr_body response) \<le> body_limit"
    and fold: "fold_res (decode_header L head_limit) (0, hm_new L) headers = Inr (c, h)" and h: "evr_headers response = h"
    by (auto simp: decode_response_def result_simps split: if_splits)
  from s obtain x :: rat where "x = of_int \<lfloor>x\<rfloor>" "100 \<le> x" "x \<le> 599" "evr_status response = nat \<lfloor>x\<rfloor>"
    by (auto simp: response_status_def split: option.splits js_float.splits if_splits)
  then have "100 \<le> \<lfloor>x\<rfloor>" "\<lfloor>x\<rfloor> \<le> 599" by (metis le_floor_iff of_int_numeral, metis floor_mono floor_numeral)
  moreover define k where "k = \<lfloor>x\<rfloor>"
  ultimately have status: "100 \<le> evr_status response" "evr_status response \<le> 599"
    using \<open>evr_status response = nat \<lfloor>x\<rfloor>\<close> unfolding k_def [symmetric] by simp_all
  have "\<exists>ps. (c, h) = (head_size ps, appended L ps) \<and> head_size ps \<le> head_limit"
  proof (rule fold_res_invariant [OF fold])
    show "\<exists>ps. (0, hm_new L) = (head_size ps, appended L ps) \<and> head_size ps \<le> head_limit"
      by (rule exI [of _ "[]"]) (simp add: appended_def)
  qed (use decode_header_step [OF _ assms(2,3)] in blast)
  with body status h show ?thesis by blast
qed

text \<open>C34. A response taken over from JavaScript keeps the limits of the egress configuration, whatever the
  injected function and the promise do: its body and head are within them, its status is an HTTP
  status; and once an operation with an abort function has been started, that function is called
  exactly once, however the send ends.\<close>

theorem workers_egress_bounded:
  assumes "header_text_laws L" and "egress_validate url_parse config = Inr allowed"
    and "event_execute L url_parse version config allowed request outcome = Some ([ev], result)"
  shows "case workers_send JS L U fetch settle ev of (sent, aborts) \<Rightarrow>
    (\<forall>response. sent = Some (Inr response) \<longrightarrow>
       length (evr_body response) \<le> hec_max_response_body_bytes config \<and>
       100 \<le> evr_status response \<and> evr_status response \<le> 599 \<and>
       (\<exists>ps. evr_headers response = appended L ps \<and> head_size ps \<le> hec_max_response_head_bytes config)) \<and>
    aborts = (case try_in (encode_request JS L U ev) (\<lambda>encoded. ok_or (fetch encoded) EvTransportFailure) of
        Inl _ \<Rightarrow> []
      | Inr operation \<Rightarrow> (case reflect_get JS operation ''abort'' of Some (JsFunction abort) \<Rightarrow> [abort] | _ \<Rightarrow> []))"
proof -
  from event_execute_Some [OF assms(3), of ev] have limits: "her_limits ev =
      \<lparr>hel_max_response_body_bytes = hec_max_response_body_bytes config,
       hel_max_response_head_bytes = hec_max_response_head_bytes config,
       hel_request_timeout_millis = hec_request_timeout_millis config\<rparr>" by (metis list.set_intros(1))
  have "egress_in_limit config" using assms(2) by (auto simp: egress_validate_def Let_def result_simps split: if_splits)
  then have small: "hec_max_response_head_bytes config < u32_max"
    by (simp add: egress_in_limit_def egress_limit_defs u32_max_def)
  have bounded: "\<forall>response. fst (workers_send JS L U fetch settle ev) = Some (Inr response) \<longrightarrow>
      length (evr_body response) \<le> hec_max_response_body_bytes config \<and>
      100 \<le> evr_status response \<and> evr_status response \<le> 599 \<and>
      (\<exists>ps. evr_headers response = appended L ps \<and> head_size ps \<le> hec_max_response_head_bytes config)"
    using decode_response_bounded [OF _ small assms(1)]
    by (auto simp: workers_send_def limits split: sum.splits awaited.splits)
  have "snd (workers_send JS L U fetch settle ev) =
      (case try_in (encode_request JS L U ev) (\<lambda>encoded. ok_or (fetch encoded) EvTransportFailure) of
        Inl _ \<Rightarrow> []
      | Inr operation \<Rightarrow> (case reflect_get JS operation ''abort'' of Some (JsFunction abort) \<Rightarrow> [abort] | _ \<Rightarrow> []))"
    by (cases "encode_request JS L U ev")
      (auto simp: workers_send_def ok_or_def js_field_def as_function_def try_in_def
        split: option.splits js.splits sum.splits awaited.splits)
  with bounded show ?thesis by (simp add: case_prod_beta)
qed

section \<open>What JavaScript is given\<close>

text \<open>What \<open>Reflect\<close> promises on plain objects: a new property is added, and reading finds it.\<close>

definition reflect_laws :: "js_lib \<Rightarrow> bool" where
  "reflect_laws JS \<longleftrightarrow>
     (\<forall>fs k v. k \<notin> fst ` set fs \<longrightarrow> reflect_set JS (JsObject fs) k v = Some (JsObject (fs @ [(k, v)]))) \<and>
     (\<forall>fs k v. map_of fs k = Some v \<longrightarrow> reflect_get JS (JsObject fs) k = Some v)"

definition plain_js :: js_lib where
  "plain_js =
     \<lparr>reflect_get = (\<lambda>v k. case v of JsObject fs \<Rightarrow> Some (case map_of fs k of None \<Rightarrow> JsUndefined | Some x \<Rightarrow> x) | _ \<Rightarrow> None),
      reflect_set = (\<lambda>v k x. case v of JsObject fs \<Rightarrow> Some (JsObject (filter (\<lambda>e. fst e \<noteq> k) fs @ [(k, x)])) | _ \<Rightarrow> None)\<rparr>"

lemma plain_js_get: "js_field plain_js (JsObject fs) k = Inr (case map_of fs k of None \<Rightarrow> JsUndefined | Some x \<Rightarrow> x)"
  by (simp add: plain_js_def js_field_def)

lemma plain_js_laws: "reflect_laws plain_js"
proof -
  have "k \<notin> fst ` set fs \<Longrightarrow> filter (\<lambda>e. fst e \<noteq> k) fs = fs" for k and fs :: "(string \<times> js) list"
    by (auto simp: filter_id_conv)
  then show ?thesis by (simp add: reflect_laws_def plain_js_def)
qed

lemma js_set_new: "reflect_laws JS \<Longrightarrow> k \<notin> fst ` set fs \<Longrightarrow> js_set JS (JsObject fs) k v = Inr (JsObject (fs @ [(k, v)]))"
  by (simp add: reflect_laws_def js_set_def)

text \<open>The request as the injected function can read it.\<close>

definition written_headers :: "'h http_lib \<Rightarrow> 'h HttpEventRequest \<Rightarrow> js list" where
  "written_headers L input = map (\<lambda>h. JsArray [JsString (fst h), JsString (hv_bytes (snd h))]) (hm_iter L (her_headers input))"

definition written_request :: "'h http_lib \<Rightarrow> (uri \<Rightarrow> string) \<Rightarrow> 'h HttpEventRequest \<Rightarrow> js" where
  "written_request L U input =
     JsObject [(''url'', JsString (U (her_uri input))), (''method'', JsString (her_method input)),
       (''headers'', JsArray (written_headers L input)), (''body'', JsUint8Array (her_body input)),
       (''limits'', JsObject
          [(''max_response_body_bytes'', JsNumber (JsFinite (of_nat (hel_max_response_body_bytes (her_limits input))))),
           (''max_response_head_bytes'', JsNumber (JsFinite (of_nat (hel_max_response_head_bytes (her_limits input))))),
           (''request_timeout_millis'', JsNumber (JsFinite (of_nat (hel_request_timeout_millis (her_limits input)))))])]"

lemma encode_headers:
  "traverse (encode_header L) hs =
     (if list_all (\<lambda>h. header_value_to_str L (hv_bytes (snd h))) hs
      then Inr (map (\<lambda>h. JsArray [JsString (fst h), JsString (hv_bytes (snd h))]) hs) else Inl EvTransportFailure)"
  by (induction hs) (auto simp: encode_header_def to_str_def)

lemma encode_written:
  assumes "reflect_laws JS" and "egress_validate url_parse config = Inr allowed"
    and "event_execute L url_parse version config allowed request outcome = Some ([ev], result)"
  shows "encode_request JS L U ev =
    (if list_all (\<lambda>h. header_value_to_str L (hv_bytes (snd h))) (hm_iter L (her_headers ev))
     then Inr (written_request L U ev) else Inl EvTransportFailure)"
proof -
  from event_execute_Some [OF assms(3), of ev] have limits: "her_limits ev =
      \<lparr>hel_max_response_body_bytes = hec_max_response_body_bytes config,
       hel_max_response_head_bytes = hec_max_response_head_bytes config,
       hel_request_timeout_millis = hec_request_timeout_millis config\<rparr>" by (metis list.set_intros(1))
  have "egress_in_limit config" using assms(2) by (auto simp: egress_validate_def Let_def result_simps split: if_splits)
  then have small: "hec_max_response_body_bytes config \<le> u32_max" "hec_max_response_head_bytes config \<le> u32_max"
    "hec_request_timeout_millis config \<le> u32_max"
    by (simp_all add: egress_in_limit_def egress_limit_defs u32_max_def)
  note set_new = js_set_new [OF assms(1)]
  show ?thesis
    by (simp add: encode_request_def encode_limits_def encode_headers js_u32_def limits small set_new written_request_def
        written_headers_def)
qed

text \<open>An accepted request of a validated configuration is written out completely, limits included,
  exactly when its header values are text; otherwise nothing is sent and the transport fails.\<close>

theorem workers_request_written:
  assumes "reflect_laws JS" and "egress_validate url_parse config = Inr allowed"
    and "event_execute L url_parse version config allowed request outcome = Some ([ev], result)"
  shows "encode_request JS L U ev =
    (if list_all (\<lambda>h. header_value_to_str L (hv_bytes (snd h))) (hm_iter L (her_headers ev))
     then Inr (written_request L U ev) else Inl EvTransportFailure)"
  by (rule encode_written [OF assms])

section \<open>The statements at a sample\<close>

lemma sample_event_text:
  "list_all (\<lambda>h. header_value_to_str list_http (hv_bytes (snd h))) (hm_iter list_http sample_event_headers)"
  by code_simp

theorem workers_request_written_witness:
  "encode_request plain_js list_http (\<lambda>_. ''https://api.example/v1'') sample_event =
     Inr (written_request list_http (\<lambda>_. ''https://api.example/v1'') sample_event)"
  using workers_request_written [OF plain_js_laws sample_egress_validates sample_event_result] sample_event_text by simp

definition sample_js_reply :: js where
  "sample_js_reply = JsObject [(''status'', JsNumber (JsFinite 200)), (''body'', JsUint8Array ''ok''), (''headers'', JsArray [])]"

theorem workers_egress_bounded_witness:
  "workers_send plain_js list_http (\<lambda>_. ''https://api.example/v1'') (\<lambda>_. Some (JsObject [(''abort'', JsFunction 7), (''promise'', JsPromise 3)]))
     (\<lambda>_. Resolved sample_js_reply) sample_event = (Some (Inr \<lparr>evr_status = 200, evr_headers = [], evr_body = ''ok''\<rparr>), [7]) \<and>
   length ''ok'' \<le> hec_max_response_body_bytes sample_egress"
proof -
  let ?fetch = "\<lambda>_. Some (JsObject [(''abort'', JsFunction 7), (''promise'', JsPromise 3)])"
  have e: "encode_request plain_js list_http (\<lambda>_. ''https://api.example/v1'') sample_event =
      Inr (written_request list_http (\<lambda>_. ''https://api.example/v1'') sample_event)"
    using encode_written [OF plain_js_laws sample_egress_validates sample_event_result] sample_event_text by simp
  have d: "decode_response plain_js list_http sample_js_reply 4194304 32768 = Inr \<lparr>evr_status = 200, evr_headers = [], evr_body = ''ok''\<rparr>"
    by (simp add: decode_response_def plain_js_get sample_js_reply_def response_status_def js_cast_defs list_http_def)
  have s: "workers_send plain_js list_http (\<lambda>_. ''https://api.example/v1'') ?fetch (\<lambda>_. Resolved sample_js_reply) sample_event =
      (Some (Inr \<lparr>evr_status = 200, evr_headers = [], evr_body = ''ok''\<rparr>), [7])"
    by (simp add: workers_send_def e d plain_js_get js_cast_defs)
  from workers_egress_bounded [OF list_http_header_text_laws sample_egress_validates sample_event_result,
      where JS = plain_js and U = "\<lambda>_. ''https://api.example/v1''" and fetch = ?fetch and settle = "\<lambda>_. Resolved sample_js_reply"] s
  show ?thesis by simp
qed

end
