(* ===== verification/Json.thy ===== *)
theory Json
  imports Contracts
begin

text \<open>
  The parts of \<open>serde_json\<close> and \<open>BTreeMap\<close> the sources use on JSON values. An ordered map is
  the list of its entries in increasing key order; \<open>bt_insert\<close> replaces or inserts at its place.
  A JSON object is such a map.
\<close>

type_synonym ('k, 'v) btree = "('k \<times> 'v) list"

fun bt_insert :: "('k :: linorder) \<Rightarrow> 'v \<Rightarrow> ('k, 'v) btree \<Rightarrow> ('k, 'v) btree" where
  "bt_insert k v [] = [(k, v)]"
| "bt_insert k v ((k', v') # m) =
     (if k < k' then (k, v) # (k', v') # m
      else if k = k' then (k, v) # m
      else (k', v') # bt_insert k v m)"

abbreviation bt_get :: "('k, 'v) btree \<Rightarrow> 'k \<Rightarrow> 'v option" where
  "bt_get \<equiv> map_of"

definition bt_remove :: "'k \<Rightarrow> ('k, 'v) btree \<Rightarrow> ('k, 'v) btree" where
  "bt_remove k m = filter (\<lambda>e. fst e \<noteq> k) m"

definition bt_inv :: "('k :: linorder, 'v) btree \<Rightarrow> bool" where
  "bt_inv m \<longleftrightarrow> sorted_wrt (<) (map fst m)"

lemma bt_insert_keys: "set (map fst (bt_insert k v m)) = insert k (set (map fst m))"
  by (induction k v m rule: bt_insert.induct) (simp_all add: insert_commute)

lemma bt_insert_inv: "bt_inv m \<Longrightarrow> bt_inv (bt_insert k v m)"
proof (induction m)
  case Nil
  then show ?case by (simp add: bt_inv_def)
next
  case (Cons e m)
  obtain k' v' where e: "e = (k', v')" by (cases e)
  have "bt_inv m" and lt: "\<forall>x \<in> set (map fst m). k' < x" using Cons.prems by (auto simp: bt_inv_def e)
  with Cons.IH have ih: "bt_inv (bt_insert k v m)" by simp
  show ?case
  proof (cases "k' < k")
    case True
    have "\<forall>x \<in> set (map fst (bt_insert k v m)). k' < x" unfolding bt_insert_keys using True lt by simp
    with True ih show ?thesis by (auto simp: e bt_inv_def)
  next
    case False
    with Cons.prems lt show ?thesis by (auto simp: e bt_inv_def)
  qed
qed

lemma bt_get_insert:
  assumes "bt_inv m"
  shows "bt_get (bt_insert k v m) = (bt_get m)(k \<mapsto> v)"
  using assms
proof (induction m)
  case (Cons e m)
  obtain k' v' where e: "e = (k', v')" by (cases e)
  have inv: "bt_inv m" and lt: "\<forall>x \<in> set (map fst m). k' < x" using Cons.prems by (auto simp: bt_inv_def e)
  have "k' < k \<or> k' = k \<or> k < k'" by auto
  then show ?case using Cons.IH [OF inv] by (auto simp: e fun_eq_iff)
qed simp

lemma bt_get_remove: "bt_get (bt_remove k m) = (bt_get m)(k := None)"
  by (induction m) (auto simp: bt_remove_def fun_eq_iff)

lemma bt_remove_inv: "bt_inv m \<Longrightarrow> bt_inv (bt_remove k m)"
  unfolding bt_inv_def bt_remove_def by (induction m) auto

lemma bt_inv_Nil [simp]: "bt_inv []"
  by (simp add: bt_inv_def)

lemma bt_inv_distinct: "bt_inv m \<Longrightarrow> distinct (map fst m)"
  unfolding bt_inv_def by (simp add: strict_sorted_iff)

lemma bt_insert_mem: "e \<in> set (bt_insert k v m) \<Longrightarrow> e = (k, v) \<or> e \<in> set m"
  by (induction m) (auto split: if_splits)

lemma bt_inv_mem_iff: "bt_inv m \<Longrightarrow> bt_get m k = Some v \<longleftrightarrow> (k, v) \<in> set m"
  using bt_inv_distinct map_of_eq_Some_iff by metis

section \<open>JSON accessors\<close>

definition as_object :: "json \<Rightarrow> json_object option" where
  "as_object j = (case j of JObject m \<Rightarrow> Some m | _ \<Rightarrow> None)"

definition as_array :: "json \<Rightarrow> json list option" where
  "as_array j = (case j of JArray xs \<Rightarrow> Some xs | _ \<Rightarrow> None)"

definition as_str :: "json \<Rightarrow> string option" where
  "as_str j = (case j of JString s \<Rightarrow> Some s | _ \<Rightarrow> None)"

definition as_bool :: "json \<Rightarrow> bool option" where
  "as_bool j = (case j of JBool b \<Rightarrow> Some b | _ \<Rightarrow> None)"

lemmas json_access_defs = as_object_def as_array_def as_str_def as_bool_def

lemma json_access_Some [simp]:
  "as_object j = Some m \<longleftrightarrow> j = JObject m"
  "as_array j = Some xs \<longleftrightarrow> j = JArray xs"
  "as_str j = Some s \<longleftrightarrow> j = JString s"
  "as_bool j = Some b \<longleftrightarrow> j = JBool b"
  by (cases j; simp add: json_access_defs)+

lemma json_access_constr [simp]:
  "as_object (JObject m) = Some m"
  "as_array (JArray xs) = Some xs"
  "as_str (JString s) = Some s"
  "as_bool (JBool b) = Some b"
  by simp_all

text \<open>\<open>Value::get\<close> with a string: the entry of an object, nothing of another value.\<close>

definition json_get :: "json \<Rightarrow> string \<Rightarrow> json option" where
  "json_get j k = Option.bind (as_object j) (\<lambda>m. bt_get m k)"

definition get_str :: "json_object \<Rightarrow> string \<Rightarrow> string option" where
  "get_str m k = Option.bind (bt_get m k) as_str"

definition get_bool :: "json_object \<Rightarrow> string \<Rightarrow> bool option" where
  "get_bool m k = Option.bind (bt_get m k) as_bool"

definition get_object :: "json_object \<Rightarrow> string \<Rightarrow> json_object option" where
  "get_object m k = Option.bind (bt_get m k) as_object"

lemma get_Some_iff [result_simps]:
  "get_str m k = Some s \<longleftrightarrow> bt_get m k = Some (JString s)"
  "get_bool m k = Some b \<longleftrightarrow> bt_get m k = Some (JBool b)"
  "get_object m k = Some o' \<longleftrightarrow> bt_get m k = Some (JObject o')"
  by (auto simp: get_str_def get_bool_def get_object_def bind_eq_Some_conv)

section \<open>Subterms\<close>

text \<open>The values nested in a value, itself included.\<close>

fun subterms :: "json \<Rightarrow> json set" where
  "subterms (JArray xs) = insert (JArray xs) (\<Union>x \<in> set xs. subterms x)"
| "subterms (JObject m) = insert (JObject m) (\<Union>e \<in> set m. subterms (snd e))"
| "subterms j = {j}"

lemma subterms_refl [simp, intro]: "j \<in> subterms j"
  by (cases j) auto

lemma finite_subterms [simp]: "finite (subterms j)"
  by (induction j rule: subterms.induct) auto

lemma subterms_trans: "a \<in> subterms b \<Longrightarrow> b \<in> subterms c \<Longrightarrow> a \<in> subterms c"
  by (induction c rule: subterms.induct) auto

text \<open>The number of values in a value, which bounds its depth and its distinct subterms.\<close>

fun nodes :: "json \<Rightarrow> nat" where
  "nodes (JArray xs) = Suc (sum_list (map nodes xs))"
| "nodes (JObject m) = Suc (sum_list (map (\<lambda>e. nodes (snd e)) m))"
| "nodes j = 1"

lemma child_nodes:
  "x \<in> set xs \<Longrightarrow> nodes x < nodes (JArray xs)"
  "e \<in> set m \<Longrightarrow> nodes (snd e) < nodes (JObject m)"
  by (simp_all add: less_Suc_eq_le member_le_sum_list)

lemma subterm_nodes: "a \<in> subterms b \<Longrightarrow> nodes a \<le> nodes b"
proof (induction b rule: subterms.induct)
  case (1 xs)
  then show ?case using child_nodes(1) [of _ xs] by (fastforce dest: order.strict_implies_order)
next
  case (2 m)
  then show ?case using child_nodes(2) [of _ m] by (fastforce dest: order.strict_implies_order)
qed auto

lemma card_union_le_sum:
  assumes "\<And>x. x \<in> set xs \<Longrightarrow> finite (f x) \<and> card (f x) \<le> g x"
  shows "card (\<Union>x \<in> set xs. f x) \<le> sum_list (map g xs)"
  using assms
proof (induction xs)
  case (Cons x xs)
  have "card (\<Union>y \<in> set (x # xs). f y) \<le> card (f x) + card (\<Union>y \<in> set xs. f y)"
    using card_Un_le by simp
  with Cons show ?case by fastforce
qed simp

lemma card_subterms: "card (subterms j) \<le> nodes j"
proof (induction j rule: subterms.induct)
  case (1 xs)
  have "card (\<Union>x \<in> set xs. subterms x) \<le> sum_list (map nodes xs)"
    by (rule card_union_le_sum) (use 1 in auto)
  then show ?case by (simp add: card_insert_if)
next
  case (2 m)
  have "card (\<Union>e \<in> set m. subterms (snd e)) \<le> sum_list (map (\<lambda>e. nodes (snd e)) m)"
    by (rule card_union_le_sum) (use 2 in auto)
  then show ?case by (simp add: card_insert_if)
qed auto

end
