(* ===== verification/MacroSyntax.thy ===== *)
theory MacroSyntax
  imports Json "HOL-Library.Sublist"
begin

text \<open>
  Reading the attributes of \<open>lenso-capability-http-endpoint-macros\<close>: JSON-like operation objects,
  strict contract metadata and route arguments. The parse stream is that of \<open>syn\<close>, which is not
  part of the repository: its operations are the fields of \<open>syn_lib\<close>, and \<open>syn_laws\<close> states what
  its documentation says of them in terms of the tokens a stream still holds. An error is its
  message; spans are left out. Nested values make the parser recursive in a way no stream operation
  bounds by itself, so it takes fuel, where \<open>None\<close> is running out; the number of tokens is always
  enough.
\<close>

section \<open>Token streams\<close>

datatype delimiter = Parenthesis | Brace | Bracket

text \<open>A literal that is neither string, Boolean nor number is known by its text, as numbers are.\<close>

datatype lit = LitStr string | LitBool bool | LitInt string | LitFloat string | LitRest string

datatype tok = TokIdent string | TokPunct string | TokLit lit | TokGroup delimiter "tok list"

record 's syn_lib =
  syn_is_empty :: "'s \<Rightarrow> bool"
  syn_peek_str :: "'s \<Rightarrow> bool"
  syn_peek_bool :: "'s \<Rightarrow> bool"
  syn_peek_ident_any :: "'s \<Rightarrow> bool"
  syn_peek_punct :: "string \<Rightarrow> 's \<Rightarrow> bool"
  syn_peek_group :: "delimiter \<Rightarrow> 's \<Rightarrow> bool"
  syn_ident :: "'s \<Rightarrow> string + string \<times> 's"
  syn_ident_any :: "'s \<Rightarrow> string + string \<times> 's"
  syn_str :: "'s \<Rightarrow> string + string \<times> 's"
  syn_int :: "'s \<Rightarrow> string + string \<times> 's"
  syn_lit :: "'s \<Rightarrow> string + lit \<times> 's"
  syn_punct :: "string \<Rightarrow> 's \<Rightarrow> string + unit \<times> 's"
  syn_group :: "delimiter \<Rightarrow> 's \<Rightarrow> string + 's \<times> 's"
  syn_unraw :: "string \<Rightarrow> string"
  syn_unexpected :: "'s \<Rightarrow> string"

section \<open>Parsing with fuel\<close>

definition try_fuel :: "(string + 'a) option \<Rightarrow> ('a \<Rightarrow> (string + 'b) option) \<Rightarrow> (string + 'b) option" where
  "try_fuel r f = (case r of None \<Rightarrow> None | Some (Inl e) \<Rightarrow> Some (Inl e) | Some (Inr a) \<Rightarrow> f a)"

lemma try_fuel_simps [simp]:
  "try_fuel None f = None" "try_fuel (Some (Inl e)) f = Some (Inl e)" "try_fuel (Some (Inr a)) f = f a"
  by (simp_all add: try_fuel_def)

lemma try_fuel_cong [fundef_cong]:
  "r = r' \<Longrightarrow> (\<And>a. r' = Some (Inr a) \<Longrightarrow> f a = g a) \<Longrightarrow> try_fuel r f = try_fuel r' g"
  by (auto simp: try_fuel_def split: option.splits sum.splits)

lemma try_fuel_Inr_iff [result_simps]:
  "try_fuel r f = Some (Inr b) \<longleftrightarrow> (\<exists>a. r = Some (Inr a) \<and> f a = Some (Inr b))"
  by (auto simp: try_fuel_def split: option.splits sum.splits)

lemma try_fuel_None_iff [result_simps]:
  "try_fuel r f = None \<longleftrightarrow> r = None \<or> (\<exists>a. r = Some (Inr a) \<and> f a = None)"
  by (auto simp: try_fuel_def split: option.splits sum.splits)

text \<open>\<open>Punctuated::parse_terminated\<close> with commas: elements up to the end, a last comma allowed.\<close>

fun parse_terminated :: "'s syn_lib \<Rightarrow> ('s \<Rightarrow> (string + 'a \<times> 's) option) \<Rightarrow> nat \<Rightarrow> 's \<Rightarrow> (string + 'a list) option" where
  "parse_terminated Y element 0 s = None"
| "parse_terminated Y element (Suc n) s =
     (if syn_is_empty Y s then Some (Inr [])
      else try_fuel (element s) (\<lambda>(a, s).
        if syn_is_empty Y s then Some (Inr [a])
        else try_fuel (Some (syn_punct Y '','' s)) (\<lambda>(_, s).
          try_fuel (parse_terminated Y element n s) (\<lambda>as. Some (Inr (a # as))))))"

section \<open>JSON-like values\<close>

text \<open>\<open>parse::<Number>\<close> of \<open>serde_json\<close> is the parameter \<open>N\<close>.\<close>

definition parse_number_literal :: "(string \<Rightarrow> json_number option) \<Rightarrow> string \<Rightarrow> bool \<Rightarrow> string + json" where
  "parse_number_literal N literal negative =
     (let source = filter (\<lambda>c. c \<noteq> CHR '' '') literal;
          source = (if negative then CHR ''-'' # source else source)
      in try_in (ok_or (N source) ''OpenAPI numeric values must be unsuffixed JSON numbers'') (\<lambda>number. Inr (JNumber number)))"

text \<open>The text of a literal; the text of a string or Boolean is never a JSON number.\<close>

definition signed_literal :: "(string \<Rightarrow> json_number option) \<Rightarrow> lit \<Rightarrow> string + json" where
  "signed_literal N literal =
     (case literal of
        LitInt source \<Rightarrow> parse_number_literal N source True
      | LitFloat source \<Rightarrow> parse_number_literal N source True
      | LitRest source \<Rightarrow> parse_number_literal N source True
      | _ \<Rightarrow> Inl ''OpenAPI numeric values must be unsuffixed JSON numbers'')"

definition parse_literal :: "(string \<Rightarrow> json_number option) \<Rightarrow> lit \<Rightarrow> string + json" where
  "parse_literal N literal =
     (case literal of
        LitStr value \<Rightarrow> Inr (JString value)
      | LitBool value \<Rightarrow> Inr (JBool value)
      | LitInt source \<Rightarrow> parse_number_literal N source False
      | LitFloat source \<Rightarrow> parse_number_literal N source False
      | LitRest _ \<Rightarrow> Inl ''OpenAPI metadata supports JSON string, number, boolean, null, array, and object values'')"

definition parse_object_key :: "'s syn_lib \<Rightarrow> 's \<Rightarrow> string + string \<times> 's" where
  "parse_object_key Y s =
     (if syn_peek_str Y s then syn_str Y s
      else try_in (syn_ident_any Y s) (\<lambda>(key, s). Inr (syn_unraw Y key, s)))"

text \<open>A value read from a literal that has been consumed.\<close>

definition literal_value :: "('l \<Rightarrow> string + json) \<Rightarrow> string + 'l \<times> 's \<Rightarrow> string + json \<times> 's" where
  "literal_value convert r = try_in r (\<lambda>(literal, s). try_in (convert literal) (\<lambda>j. Inr (j, s)))"

fun parse_json_value :: "'s syn_lib \<Rightarrow> (string \<Rightarrow> json_number option) \<Rightarrow> nat \<Rightarrow> 's \<Rightarrow> (string + json \<times> 's) option"
  and parse_object_entries :: "'s syn_lib \<Rightarrow> (string \<Rightarrow> json_number option) \<Rightarrow> nat \<Rightarrow> 's \<Rightarrow> json_object \<Rightarrow> (string + json_object) option" where
  "parse_json_value Y N 0 s = None"
| "parse_json_value Y N (Suc n) s =
     (if syn_peek_group Y Brace s then
        try_fuel (Some (syn_group Y Brace s)) (\<lambda>(content, s).
          try_fuel (parse_object_entries Y N n content []) (\<lambda>m. Some (Inr (JObject m, s))))
      else if syn_peek_group Y Bracket s then
        try_fuel (Some (syn_group Y Bracket s)) (\<lambda>(content, s).
          try_fuel (parse_terminated Y (parse_json_value Y N n) n content) (\<lambda>vs. Some (Inr (JArray vs, s))))
      else if syn_peek_punct Y ''-'' s then
        try_fuel (Some (syn_punct Y ''-'' s)) (\<lambda>(_, s). Some (literal_value (signed_literal N) (syn_lit Y s)))
      else if syn_peek_bool Y s then Some (literal_value (parse_literal N) (syn_lit Y s))
      else if syn_peek_ident_any Y s then
        Some (literal_value (\<lambda>ident. if ident = ''null'' then Inr JNull else Inl ''expected a JSON value'') (syn_ident_any Y s))
      else Some (literal_value (parse_literal N) (syn_lit Y s)))"
| "parse_object_entries Y N 0 s m = None"
| "parse_object_entries Y N (Suc n) s m =
     (if syn_is_empty Y s then Some (Inr m)
      else
        try_fuel (Some (parse_object_key Y s)) (\<lambda>(key, s).
        try_fuel (Some (syn_punct Y '':'' s)) (\<lambda>(_, s).
        try_fuel (parse_json_value Y N n s) (\<lambda>(j, s).
          if bt_get m key \<noteq> None then Some (Inl (''duplicate OpenAPI object key `'' @ key @ ''`''))
          else if syn_is_empty Y s then Some (Inr (bt_insert key j m))
          else try_fuel (Some (syn_punct Y '','' s)) (\<lambda>(_, s).
            parse_object_entries Y N n s (bt_insert key j m))))))"

section \<open>Operation objects\<close>

text \<open>
  \<open>Y\<close> is the stream library, \<open>N\<close> the number parser; \<open>to_string\<close> and \<open>from_str\<close> are those of
  \<open>serde_json\<close>.
\<close>

definition parse_openapi_object ::
  "'s syn_lib \<Rightarrow> (string \<Rightarrow> json_number option) \<Rightarrow> nat \<Rightarrow> 's \<Rightarrow> (string + json_object \<times> 's) option" where
  "parse_openapi_object Y N n s =
     try_fuel (Some (syn_group Y Brace s)) (\<lambda>(content, s).
     try_fuel (parse_object_entries Y N n content []) (\<lambda>m. Some (Inr (m, s))))"

definition reject_reserved_openapi_keys :: "json_object \<Rightarrow> string + unit" where
  "reject_reserved_openapi_keys operation =
     (if bt_get operation ''x-lenso-contract'' \<noteq> None
      then Inl ''x-lenso-contract is reserved for generated strict OpenAPI contract checks'' else Inr ())"

definition operation_literal :: "(json_object \<Rightarrow> string + string) \<Rightarrow> json_object \<Rightarrow> string + string" where
  "operation_literal to_string operation =
     (if bt_get operation ''operationId'' \<noteq> None then Inl ''OpenAPI operationId is generated from the stable route ID''
      else try_in (reject_reserved_openapi_keys operation) (\<lambda>_.
        map_err (\<lambda>error. ''could not encode OpenAPI Operation Object: '' @ error) (to_string operation)))"

definition validate_openapi_operation :: "(string \<Rightarrow> string + json) \<Rightarrow> string \<Rightarrow> string + unit" where
  "validate_openapi_operation from_str operation =
     try_in (map_err (\<lambda>error. ''OpenAPI Operation Object is not valid JSON: '' @ error) (from_str operation)) (\<lambda>j.
     try_in (ok_or (as_object j) ''OpenAPI operation metadata must be a JSON object'') (\<lambda>m.
       if bt_get m ''operationId'' \<noteq> None then Inl ''OpenAPI operationId is generated from the stable route ID''
       else reject_reserved_openapi_keys m))"

datatype OpenApiOperation = OperationJson string | OperationObject json_object

definition parse_openapi_operation ::
  "'s syn_lib \<Rightarrow> (string \<Rightarrow> json_number option) \<Rightarrow> nat \<Rightarrow> 's \<Rightarrow> (string + OpenApiOperation \<times> 's) option" where
  "parse_openapi_operation Y N n s =
     (if syn_peek_str Y s then Some (try_in (syn_str Y s) (\<lambda>(v, s). Inr (OperationJson v, s)))
      else try_fuel (parse_openapi_object Y N n s) (\<lambda>(m, s). Some (Inr (OperationObject m, s))))"

definition into_literal ::
  "(json_object \<Rightarrow> string + string) \<Rightarrow> (string \<Rightarrow> string + json) \<Rightarrow> OpenApiOperation \<Rightarrow> string + string" where
  "into_literal to_string from_str operation =
     (case operation of
        OperationJson text \<Rightarrow> try_in (validate_openapi_operation from_str text) (\<lambda>_. Inr text)
      | OperationObject m \<Rightarrow> operation_literal to_string m)"

text \<open>\<open>parse_args\<close>: the whole argument must be consumed.\<close>

definition parse_args :: "'s syn_lib \<Rightarrow> ('s \<Rightarrow> (string + 'a \<times> 's) option) \<Rightarrow> 's \<Rightarrow> (string + 'a) option" where
  "parse_args Y parser s =
     try_fuel (parser s) (\<lambda>(a, s). Some (if syn_is_empty Y s then Inr a else Inl (syn_unexpected Y s)))"

text \<open>The macro \<open>openapi_operation!\<close>.\<close>

definition openapi_operation ::
  "'s syn_lib \<Rightarrow> (string \<Rightarrow> json_number option) \<Rightarrow> (json_object \<Rightarrow> string + string) \<Rightarrow> nat \<Rightarrow> 's \<Rightarrow> (string + string) option" where
  "openapi_operation Y N to_string n s =
     try_fuel (parse_args Y (parse_openapi_object Y N n) s) (\<lambda>m. Some (operation_literal to_string m))"

section \<open>Strict contract metadata\<close>

text \<open>A status is the text of its literal until it is checked.\<close>

record OpenApiContractError =
  oce_status :: string
  oce_code :: string

record OpenApiContractMetadata =
  ocm_success :: "string option"
  ocm_errors :: "OpenApiContractError list"

definition metadata_default :: OpenApiContractMetadata where
  "metadata_default = \<lparr>ocm_success = None, ocm_errors = []\<rparr>"

definition parse_contract_error :: "'s syn_lib \<Rightarrow> 's \<Rightarrow> string + OpenApiContractError \<times> 's" where
  "parse_contract_error Y s =
     try_in (syn_group Y Parenthesis s) (\<lambda>(content, s).
     try_in (syn_int Y content) (\<lambda>(status, content).
     try_in (syn_punct Y '','' content) (\<lambda>(_, content).
     try_in (syn_str Y content) (\<lambda>(code, content).
       if \<not> syn_is_empty Y content then Inl ''a strict OpenAPI error is `(status, \"code\")`''
       else Inr (\<lparr>oce_status = status, oce_code = code\<rparr>, s)))))"

fun parse_contract_metadata ::
  "'s syn_lib \<Rightarrow> nat \<Rightarrow> 's \<Rightarrow> OpenApiContractMetadata \<Rightarrow> bool \<Rightarrow> (string + OpenApiContractMetadata \<times> 's) option" where
  "parse_contract_metadata Y 0 s metadata errors_seen = None"
| "parse_contract_metadata Y (Suc n) s metadata errors_seen =
     (if syn_is_empty Y s then Some (Inr (metadata, s))
      else
        try_fuel (Some (syn_ident Y s)) (\<lambda>(key, s).
        try_fuel (Some (syn_punct Y ''='' s)) (\<lambda>(_, s).
        let continue = (\<lambda>s metadata errors_seen.
              if syn_is_empty Y s then parse_contract_metadata Y n s metadata errors_seen
              else try_fuel (Some (syn_punct Y '','' s)) (\<lambda>(_, s). parse_contract_metadata Y n s metadata errors_seen))
        in if key = ''success'' then
             if ocm_success metadata \<noteq> None then Some (Inl ''duplicate openapi_contract success'')
             else try_fuel (Some (syn_int Y s)) (\<lambda>(status, s). continue s (metadata\<lparr>ocm_success := Some status\<rparr>) errors_seen)
           else if key = ''errors'' then
             if errors_seen then Some (Inl ''duplicate openapi_contract errors'')
             else try_fuel (Some (syn_group Y Bracket s)) (\<lambda>(content, s).
               try_fuel (parse_terminated Y (\<lambda>s. Some (parse_contract_error Y s)) n content) (\<lambda>errors.
                 continue s (metadata\<lparr>ocm_errors := errors\<rparr>) True))
           else Some (Inl ''openapi_contract accepts only `success` and `errors`''))))"

record RouteArguments =
  ra_route_id :: string
  ra_path :: string

definition parse_route_arguments :: "'s syn_lib \<Rightarrow> nat \<Rightarrow> 's \<Rightarrow> (string + RouteArguments) option" where
  "parse_route_arguments Y n s =
     try_fuel (parse_terminated Y (\<lambda>s. Some (syn_str Y s)) n s) (\<lambda>arguments.
       Some (case arguments of
           [route_id, path] \<Rightarrow> Inr \<lparr>ra_route_id = route_id, ra_path = path\<rparr>
         | _ \<Rightarrow> Inl ''HTTP handler attributes require a route ID and path''))"

section \<open>What the stream library promises\<close>

text \<open>The tokens a stream of \<open>syn\<close> starts with, if they are what is asked for.\<close>

fun next_ident :: "(string \<Rightarrow> bool) \<Rightarrow> tok list \<Rightarrow> (string \<times> tok list) option" where
  "next_ident ok (TokIdent i # r) = (if ok i then Some (i, r) else None)"
| "next_ident ok _ = None"

fun next_str :: "tok list \<Rightarrow> (string \<times> tok list) option" where
  "next_str (TokLit (LitStr v) # r) = Some (v, r)"
| "next_str _ = None"

fun next_int :: "tok list \<Rightarrow> (string \<times> tok list) option" where
  "next_int (TokLit (LitInt v) # r) = Some (v, r)"
| "next_int _ = None"

fun next_lit :: "tok list \<Rightarrow> (lit \<times> tok list) option" where
  "next_lit (TokLit l # r) = Some (l, r)"
| "next_lit (TokIdent i # r) =
     (if i = ''true'' then Some (LitBool True, r) else if i = ''false'' then Some (LitBool False, r) else None)"
| "next_lit _ = None"

fun next_punct :: "string \<Rightarrow> tok list \<Rightarrow> (unit \<times> tok list) option" where
  "next_punct p (TokPunct q # r) = (if p = q then Some ((), r) else None)"
| "next_punct p _ = None"

fun next_group :: "delimiter \<Rightarrow> tok list \<Rightarrow> (tok list \<times> tok list) option" where
  "next_group d (TokGroup d' c # r) = (if d = d' then Some (c, r) else None)"
| "next_group d _ = None"

text \<open>An operation delivers what the tokens start with and leaves the rest, or fails.\<close>

definition yields :: "('s \<Rightarrow> tok list) \<Rightarrow> ('a \<Rightarrow> 'b) \<Rightarrow> string + 'a \<times> 's \<Rightarrow> ('b \<times> tok list) option \<Rightarrow> bool" where
  "yields toks f r expected \<longleftrightarrow>
     (case r of Inl _ \<Rightarrow> expected = None | Inr (a, s) \<Rightarrow> expected = Some (f a, toks s))"

definition no_raw :: "string \<Rightarrow> bool" where
  "no_raw i \<longleftrightarrow> \<not> starts_with i ''r#''"

definition syn_laws :: "'s syn_lib \<Rightarrow> ('s \<Rightarrow> tok list) \<Rightarrow> (string \<Rightarrow> bool) \<Rightarrow> bool" where
  "syn_laws Y toks keyword \<longleftrightarrow>
     (\<forall>s. syn_is_empty Y s \<longleftrightarrow> toks s = []) \<and>
     (\<forall>s. syn_peek_str Y s \<longleftrightarrow> next_str (toks s) \<noteq> None) \<and>
     (\<forall>s. syn_peek_bool Y s \<longleftrightarrow> next_ident (\<lambda>i. i \<in> {''true'', ''false''}) (toks s) \<noteq> None) \<and>
     (\<forall>s. syn_peek_ident_any Y s \<longleftrightarrow> next_ident (\<lambda>_. True) (toks s) \<noteq> None) \<and>
     (\<forall>s p. syn_peek_punct Y p s \<longleftrightarrow> next_punct p (toks s) \<noteq> None) \<and>
     (\<forall>s d. syn_peek_group Y d s \<longleftrightarrow> next_group d (toks s) \<noteq> None) \<and>
     (\<forall>s. yields toks id (syn_ident Y s) (next_ident (\<lambda>i. \<not> keyword i) (toks s))) \<and>
     (\<forall>s. yields toks id (syn_ident_any Y s) (next_ident (\<lambda>_. True) (toks s))) \<and>
     (\<forall>s. yields toks id (syn_str Y s) (next_str (toks s))) \<and>
     (\<forall>s. yields toks id (syn_int Y s) (next_int (toks s))) \<and>
     (\<forall>s. next_punct ''-'' (toks s) = None \<longrightarrow> yields toks id (syn_lit Y s) (next_lit (toks s))) \<and>
     (\<forall>s l s'. syn_lit Y s = Inr (l, s') \<longrightarrow> suffix (toks s') (toks s)) \<and>
     (\<forall>s p. yields toks id (syn_punct Y p s) (next_punct p (toks s))) \<and>
     (\<forall>s d. yields toks toks (syn_group Y d s) (next_group d (toks s))) \<and>
     (\<forall>i. syn_unraw Y i = (if no_raw i then i else drop 2 i))"

lemma syn_lawsD:
  assumes "syn_laws Y toks keyword"
  shows "syn_is_empty Y s \<longleftrightarrow> toks s = []"
    and "syn_peek_str Y s \<longleftrightarrow> next_str (toks s) \<noteq> None"
    and "syn_peek_bool Y s \<longleftrightarrow> next_ident (\<lambda>i. i \<in> {''true'', ''false''}) (toks s) \<noteq> None"
    and "syn_peek_ident_any Y s \<longleftrightarrow> next_ident (\<lambda>_. True) (toks s) \<noteq> None"
    and "syn_peek_punct Y p s \<longleftrightarrow> next_punct p (toks s) \<noteq> None"
    and "syn_peek_group Y d s \<longleftrightarrow> next_group d (toks s) \<noteq> None"
    and "yields toks id (syn_ident Y s) (next_ident (\<lambda>i. \<not> keyword i) (toks s))"
    and "yields toks id (syn_ident_any Y s) (next_ident (\<lambda>_. True) (toks s))"
    and "yields toks id (syn_str Y s) (next_str (toks s))"
    and "yields toks id (syn_int Y s) (next_int (toks s))"
    and "next_punct ''-'' (toks s) = None \<Longrightarrow> yields toks id (syn_lit Y s) (next_lit (toks s))"
    and "yields toks id (syn_punct Y p s) (next_punct p (toks s))"
    and "yields toks toks (syn_group Y d s) (next_group d (toks s))"
    and "syn_unraw Y i = (if no_raw i then i else drop 2 i)"
    and "syn_lit Y s = Inr (l, s') \<Longrightarrow> suffix (toks s') (toks s)"
  using assms by (simp_all add: syn_laws_def)

lemma yields_Some: "yields toks f r (Some (b, t)) \<Longrightarrow> \<exists>a s. r = Inr (a, s) \<and> f a = b \<and> toks s = t"
  by (auto simp: yields_def split: sum.splits prod.splits)

lemma yields_Inr: "yields toks f r e \<Longrightarrow> r = Inr (a, s) \<Longrightarrow> e = Some (f a, toks s)"
  by (simp add: yields_def)

section \<open>The fuel that is enough\<close>

text \<open>The tokens of a stream, those inside groups included.\<close>

fun tok_weight :: "tok \<Rightarrow> nat" where
  "tok_weight (TokGroup _ content) = Suc (sum_list (map tok_weight content))"
| "tok_weight _ = 1"

abbreviation weight :: "tok list \<Rightarrow> nat" where
  "weight ts \<equiv> sum_list (map tok_weight ts)"

lemma next_shrinks:
  "next_ident ok ts = Some (i, r) \<Longrightarrow> weight r < weight ts"
  "next_str ts = Some (v, r) \<Longrightarrow> weight r < weight ts"
  "next_int ts = Some (v, r) \<Longrightarrow> weight r < weight ts"
  "next_lit ts = Some (l, r) \<Longrightarrow> weight r < weight ts"
  "next_punct p ts = Some (u, r) \<Longrightarrow> weight r < weight ts"
  "next_group d ts = Some (c, r) \<Longrightarrow> weight c + weight r < weight ts"
  by (auto elim!: next_ident.elims next_str.elims next_int.elims next_lit.elims next_punct.elims next_group.elims
      split: if_splits)

lemma syn_shrinks:
  assumes Y: "syn_laws Y toks keyword"
  shows "syn_ident Y s = Inr (i, s') \<Longrightarrow> weight (toks s') < weight (toks s)"
    and "syn_ident_any Y s = Inr (i, s') \<Longrightarrow> weight (toks s') < weight (toks s)"
    and "syn_str Y s = Inr (v, s') \<Longrightarrow> weight (toks s') < weight (toks s)"
    and "syn_int Y s = Inr (v, s') \<Longrightarrow> weight (toks s') < weight (toks s)"
    and "next_punct ''-'' (toks s) = None \<Longrightarrow> syn_lit Y s = Inr (l, s') \<Longrightarrow> weight (toks s') < weight (toks s)"
    and "syn_punct Y p s = Inr (u, s') \<Longrightarrow> weight (toks s') < weight (toks s)"
    and "syn_group Y d s = Inr (c, s') \<Longrightarrow> weight (toks c) + weight (toks s') < weight (toks s)"
  using syn_lawsD(7-13) [OF Y] yields_Inr next_shrinks by metis+

lemma syn_lit_consumes:
  "syn_laws Y toks keyword \<Longrightarrow> syn_lit Y s = Inr (l, s') \<Longrightarrow> weight (toks s') \<le> weight (toks s)"
  by (drule syn_lawsD(15)) (auto simp: suffix_def)

text \<open>An element parser that always answers on streams up to a weight, and consumes when it succeeds.\<close>

definition answers :: "('s \<Rightarrow> tok list) \<Rightarrow> nat \<Rightarrow> ('s \<Rightarrow> (string + 'a \<times> 's) option) \<Rightarrow> bool" where
  "answers toks bound element \<longleftrightarrow>
     (\<forall>s. weight (toks s) < bound \<longrightarrow> element s \<noteq> None \<and>
        (\<forall>a s'. element s = Some (Inr (a, s')) \<longrightarrow> weight (toks s') < weight (toks s)))"

lemma parse_terminated_answers:
  assumes Y: "syn_laws Y toks keyword" and element: "answers toks bound element"
    and "weight (toks s) < n" and "n \<le> bound"
  shows "parse_terminated Y element n s \<noteq> None"
  using assms(3,4)
proof (induction n arbitrary: s)
  case (Suc n)
  have el: "element s \<noteq> None" and shrinks: "\<And>a s'. element s = Some (Inr (a, s')) \<Longrightarrow> weight (toks s') < weight (toks s)"
    using element Suc.prems by (auto simp: answers_def)
  have "parse_terminated Y element n s'' \<noteq> None"
    if "element s = Some (Inr (a, s'))" and "syn_punct Y p s' = Inr (u, s'')" for a s' p u s''
    by (rule Suc.IH) (use shrinks [OF that(1)] syn_shrinks(6) [OF Y that(2)] Suc.prems in simp_all)
  with el show ?case by (auto simp: result_simps simp del: not_None_eq)
qed simp

lemma literal_value_Inr:
  "literal_value convert r = Inr (j, s) \<longleftrightarrow> (\<exists>l. r = Inr (l, s) \<and> convert l = Inr j)"
  by (auto simp: literal_value_def result_simps)

lemma parse_object_key_shrinks:
  "syn_laws Y toks keyword \<Longrightarrow> parse_object_key Y s = Inr (key, s') \<Longrightarrow> weight (toks s') < weight (toks s)"
  by (auto simp: parse_object_key_def result_simps split: if_splits dest: syn_shrinks(2,3))

lemma json_answers:
  assumes Y: "syn_laws Y toks keyword"
  shows "answers toks n (parse_json_value Y N n) \<and>
    (\<forall>s m. weight (toks s) < n \<longrightarrow> parse_object_entries Y N n s m \<noteq> None)"
proof (induction n)
  case 0
  then show ?case by (simp add: answers_def)
next
  case (Suc n)
  note sh = syn_shrinks [OF Y]
  have negative: "weight (toks s') < weight (toks s)" if "syn_punct Y p s = Inr (u, b)" "syn_lit Y b = Inr (l, s')" for p s u b l s'
    using sh(6) [OF that(1)] syn_lit_consumes [OF Y that(2)] by simp
  have array: "parse_terminated Y (parse_json_value Y N n) n c \<noteq> None" if "weight (toks c) < n" for c
    using parse_terminated_answers [OF Y _ that order_refl] Suc.IH by blast
  have entries: "parse_object_entries Y N n c m \<noteq> None" if "weight (toks c) < n" for c m
    using Suc.IH that by blast
  have "parse_json_value Y N (Suc n) s \<noteq> None" if "weight (toks s) < Suc n" for s
    using that array entries by (auto simp: result_simps simp del: not_None_eq dest!: sh(7))
  moreover have "weight (toks s') < weight (toks s)" if "parse_json_value Y N (Suc n) s = Some (Inr (a, s'))" for s a s'
    using that syn_lawsD(5) [OF Y, of "''-''" s]
    by (auto simp: result_simps literal_value_Inr simp del: not_None_eq split: if_splits dest: sh negative)
  moreover have "parse_object_entries Y N (Suc n) s m \<noteq> None" if s: "weight (toks s) < Suc n" for s m
  proof -
    have light: "weight (toks s2) < n"
      if "parse_object_key Y s = Inr (k, s1)" "syn_punct Y p s1 = Inr (u, s2)" for k s1 p u s2
      using parse_object_key_shrinks [OF Y that(1)] sh(6) [OF that(2)] s by simp
    have "parse_json_value Y N n s2 \<noteq> None"
      if "parse_object_key Y s = Inr (k, s1)" "syn_punct Y p s1 = Inr (u, s2)" for k s1 p u s2
      using Suc.IH light [OF that] by (simp add: answers_def del: not_None_eq)
    moreover have "parse_object_entries Y N n s4 m' \<noteq> None"
      if "parse_object_key Y s = Inr (k, s1)" "syn_punct Y p s1 = Inr (u, s2)"
        "parse_json_value Y N n s2 = Some (Inr (j, s3))" "syn_punct Y q s3 = Inr (v, s4)" for k s1 p u s2 j s3 q v s4 m'
    proof (rule entries)
      have "weight (toks s3) < weight (toks s2)" using Suc.IH light [OF that(1,2)] that(3) unfolding answers_def by blast
      then show "weight (toks s4) < n" using sh(6) [OF that(4)] light [OF that(1,2)] by simp
    qed
    ultimately show ?thesis by (auto simp: result_simps simp del: not_None_eq)
  qed
  ultimately show ?case by (auto simp: answers_def simp del: not_None_eq)
qed

lemma operation_answers:
  assumes Y: "syn_laws Y toks keyword" and "weight (toks s) < n"
  shows "parse_openapi_object Y N n s \<noteq> None" and "parse_openapi_operation Y N n s \<noteq> None"
proof -
  have "parse_object_entries Y N n c m \<noteq> None" if "syn_group Y d s = Inr (c, s')" for d c s' m
  proof -
    have "weight (toks c) < n" using syn_shrinks(7) [OF Y that] assms(2) by simp
    then show ?thesis using json_answers [OF Y] by blast
  qed
  then show "parse_openapi_object Y N n s \<noteq> None"
    by (auto simp: parse_openapi_object_def result_simps simp del: not_None_eq)
  then show "parse_openapi_operation Y N n s \<noteq> None"
    by (auto simp: parse_openapi_operation_def result_simps simp del: not_None_eq)
qed

lemma contract_error_answers:
  assumes Y: "syn_laws Y toks keyword"
  shows "answers toks n (\<lambda>s. Some (parse_contract_error Y s))"
  by (auto simp: answers_def parse_contract_error_def result_simps split: if_splits dest: syn_shrinks(7) [OF Y])

lemma try_fuel_answers:
  "r \<noteq> None \<Longrightarrow> (\<And>a. r = Some (Inr a) \<Longrightarrow> f a \<noteq> None) \<Longrightarrow> try_fuel r f \<noteq> None"
  by (auto simp: try_fuel_None_iff)

lemma if_answers: "(b \<Longrightarrow> x \<noteq> None) \<Longrightarrow> (\<not> b \<Longrightarrow> y \<noteq> None) \<Longrightarrow> (if b then x else y) \<noteq> None"
  by simp

lemma pair_answers: "(\<And>a b. p = (a, b) \<Longrightarrow> f a b \<noteq> None) \<Longrightarrow> (case p of (a, b) \<Rightarrow> f a b) \<noteq> None"
  by (cases p) simp

lemma metadata_answers:
  assumes Y: "syn_laws Y toks keyword"
  shows "weight (toks s) < n \<Longrightarrow> parse_contract_metadata Y n s metadata seen \<noteq> None"
proof (induction n arbitrary: s metadata seen)
  case (Suc n)
  note sh = syn_shrinks [OF Y]
  have errors: "parse_terminated Y (\<lambda>s. Some (parse_contract_error Y s)) n c \<noteq> None" if "weight (toks c) < n" for c
    by (rule parse_terminated_answers [OF Y contract_error_answers [OF Y] that order_refl])
  show ?case
    unfolding parse_contract_metadata.simps Let_def
    by (intro if_answers try_fuel_answers pair_answers)
      (use Suc.prems in \<open>auto intro!: Suc.IH errors dest!: sh iff del: not_None_eq\<close>)
qed simp

lemma route_arguments_answer:
  assumes Y: "syn_laws Y toks keyword" and "weight (toks s) < n"
  shows "parse_route_arguments Y n s \<noteq> None"
proof -
  have "answers toks n (\<lambda>s. Some (syn_str Y s))" by (auto simp: answers_def dest: syn_shrinks(3) [OF Y])
  from parse_terminated_answers [OF Y this assms(2) order_refl] show ?thesis
    by (auto simp: parse_route_arguments_def result_simps simp del: not_None_eq)
qed

section \<open>Writing and reading a value\<close>

text \<open>
  A JSON value as an author writes it in an attribute: keys quoted, every entry followed by a comma,
  a negative number as a minus sign and a literal. \<open>text\<close> is the text of a number.
\<close>

definition number_tokens :: "string \<Rightarrow> tok list" where
  "number_tokens source =
     (let literal = (\<lambda>ds. if list_ex (\<lambda>c. c \<in> set ''.eE'') ds then LitFloat ds else LitInt ds)
      in case source of
           [] \<Rightarrow> []
         | c # ds \<Rightarrow> if c = CHR ''-'' then [TokPunct ''-'', TokLit (literal ds)] else [TokLit (literal source)])"

fun json_tokens :: "(json_number \<Rightarrow> string) \<Rightarrow> json \<Rightarrow> tok list" where
  "json_tokens T JNull = [TokIdent ''null'']"
| "json_tokens T (JBool b) = [TokIdent (if b then ''true'' else ''false'')]"
| "json_tokens T (JNumber n) = number_tokens (T n)"
| "json_tokens T (JString v) = [TokLit (LitStr v)]"
| "json_tokens T (JArray vs) = [TokGroup Bracket (concat (map (\<lambda>v. json_tokens T v @ [TokPunct '','']) vs))]"
| "json_tokens T (JObject m) =
     [TokGroup Brace (concat (map (\<lambda>e. [TokLit (LitStr (fst e)), TokPunct '':''] @ json_tokens T (snd e) @ [TokPunct '','']) m))]"

abbreviation entry_tokens :: "(json_number \<Rightarrow> string) \<Rightarrow> json_object \<Rightarrow> tok list" where
  "entry_tokens T m \<equiv>
     concat (map (\<lambda>e. [TokLit (LitStr (fst e)), TokPunct '':''] @ json_tokens T (snd e) @ [TokPunct '','']) m)"

text \<open>The objects of a value are maps, and its numbers can be read back.\<close>

fun writable :: "(string \<Rightarrow> json_number option) \<Rightarrow> (json_number \<Rightarrow> string) \<Rightarrow> json \<Rightarrow> bool" where
  "writable N T (JNumber n) \<longleftrightarrow> N (T n) = Some n \<and> T n \<noteq> [] \<and> CHR '' '' \<notin> set (T n)"
| "writable N T (JArray vs) \<longleftrightarrow> (\<forall>v \<in> set vs. writable N T v)"
| "writable N T (JObject m) \<longleftrightarrow> bt_inv m \<and> (\<forall>e \<in> set m. writable N T (snd e))"
| "writable N T _ \<longleftrightarrow> True"

lemma bt_insert_last: "bt_inv (m @ (k, v) # r) \<Longrightarrow> bt_insert k v m = m @ [(k, v)] \<and> bt_get m k = None"
  by (induction m) (auto simp: bt_inv_def dest: less_asym)

lemma no_space: "CHR '' '' \<notin> set ds \<Longrightarrow> filter (\<lambda>c. c \<noteq> CHR '' '') ds = ds"
  by (simp add: filter_id_conv) blast

text \<open>What a stream with known first tokens answers.\<close>

lemma syn_reads:
  assumes Y: "syn_laws Y toks keyword"
  shows "toks s = TokGroup d c # r \<Longrightarrow> \<exists>content s'. syn_group Y d s = Inr (content, s') \<and> toks content = c \<and> toks s' = r"
    and "toks s = TokPunct p # r \<Longrightarrow> \<exists>s'. syn_punct Y p s = Inr ((), s') \<and> toks s' = r"
    and "toks s = TokLit l # r \<Longrightarrow> \<exists>s'. syn_lit Y s = Inr (l, s') \<and> toks s' = r"
    and "toks s = TokIdent i # r \<Longrightarrow> \<exists>s'. syn_ident_any Y s = Inr (i, s') \<and> toks s' = r"
    and "toks s = TokIdent (if b then ''true'' else ''false'') # r \<Longrightarrow> \<exists>s'. syn_lit Y s = Inr (LitBool b, s') \<and> toks s' = r"
    and "toks s = TokLit (LitStr v) # r \<Longrightarrow> \<exists>s'. parse_object_key Y s = Inr (v, s') \<and> toks s' = r"
proof -
  show "toks s = TokGroup d c # r \<Longrightarrow> \<exists>content s'. syn_group Y d s = Inr (content, s') \<and> toks content = c \<and> toks s' = r"
    using yields_Some syn_lawsD(13) [OF Y, of d s] by fastforce
  show "toks s = TokPunct p # r \<Longrightarrow> \<exists>s'. syn_punct Y p s = Inr ((), s') \<and> toks s' = r"
    using yields_Some syn_lawsD(12) [OF Y, of p s] by fastforce
  show "toks s = TokLit l # r \<Longrightarrow> \<exists>s'. syn_lit Y s = Inr (l, s') \<and> toks s' = r"
    using yields_Some syn_lawsD(11) [OF Y, of s] by fastforce
  show "toks s = TokIdent i # r \<Longrightarrow> \<exists>s'. syn_ident_any Y s = Inr (i, s') \<and> toks s' = r"
    using yields_Some syn_lawsD(8) [OF Y, of s] by fastforce
  show "toks s = TokIdent (if b then ''true'' else ''false'') # r \<Longrightarrow> \<exists>s'. syn_lit Y s = Inr (LitBool b, s') \<and> toks s' = r"
    using yields_Some syn_lawsD(11) [OF Y, of s] by (cases b) fastforce+
  show "toks s = TokLit (LitStr v) # r \<Longrightarrow> \<exists>s'. parse_object_key Y s = Inr (v, s') \<and> toks s' = r"
    using yields_Some syn_lawsD(9) [OF Y, of s] by (fastforce simp: parse_object_key_def syn_lawsD(2) [OF Y])
qed

definition reads_back :: "'s syn_lib \<Rightarrow> ('s \<Rightarrow> tok list) \<Rightarrow> (string \<Rightarrow> json_number option) \<Rightarrow>
    (json_number \<Rightarrow> string) \<Rightarrow> nat \<Rightarrow> json \<Rightarrow> bool" where
  "reads_back Y toks N T n j \<longleftrightarrow>
     (\<forall>s r. toks s = json_tokens T j @ r \<longrightarrow> (\<exists>s'. parse_json_value Y N n s = Some (Inr (j, s')) \<and> toks s' = r))"

lemma read_array:
  assumes Y: "syn_laws Y toks keyword" and "\<And>v. v \<in> set vs \<Longrightarrow> reads_back Y toks N T n v"
    and "toks s = concat (map (\<lambda>v. json_tokens T v @ [TokPunct '','']) vs)" and "weight (toks s) < k"
  shows "parse_terminated Y (parse_json_value Y N n) k s = Some (Inr vs)"
  using assms(2-4)
proof (induction vs arbitrary: s k)
  case Nil
  then show ?case by (cases k) (simp_all add: syn_lawsD(1) [OF Y])
next
  case (Cons v vs)
  let ?rest = "concat (map (\<lambda>v. json_tokens T v @ [TokPunct '','']) vs)"
  from Cons.prems(3) obtain k' where k: "k = Suc k'" by (cases k) simp_all
  have "toks s = json_tokens T v @ TokPunct '','' # ?rest" using Cons.prems(2) by simp
  moreover have "reads_back Y toks N T n v" using Cons.prems(1) by simp
  ultimately obtain s1 where s1: "parse_json_value Y N n s = Some (Inr (v, s1))" "toks s1 = TokPunct '','' # ?rest"
    unfolding reads_back_def by blast
  from syn_reads(2) [OF Y s1(2)] obtain s2 where s2: "syn_punct Y '','' s1 = Inr ((), s2)" "toks s2 = ?rest" by blast
  have "parse_terminated Y (parse_json_value Y N n) k' s2 = Some (Inr vs)"
    by (rule Cons.IH) (use Cons.prems s2(2) k in simp_all)
  with s1 s2(1) Cons.prems(2) show ?case by (simp add: k syn_lawsD(1) [OF Y])
qed

lemma read_entries:
  assumes Y: "syn_laws Y toks keyword" and "\<And>e n. e \<in> set es \<Longrightarrow> weight (json_tokens T (snd e)) < n \<Longrightarrow> reads_back Y toks N T n (snd e)"
    and "bt_inv (m @ es)" and "toks s = entry_tokens T es" and "weight (toks s) < n"
  shows "parse_object_entries Y N n s m = Some (Inr (m @ es))"
  using assms(2-5)
proof (induction es arbitrary: s m n)
  case Nil
  then show ?case by (cases n) (simp_all add: syn_lawsD(1) [OF Y])
next
  case (Cons e es)
  obtain k v where e: "e = (k, v)" by (cases e)
  from Cons.prems(4) obtain n' where n: "n = Suc n'" by (cases n) simp_all
  have "toks s = TokLit (LitStr k) # TokPunct '':'' # json_tokens T v @ TokPunct '','' # entry_tokens T es"
    using Cons.prems(3) e by simp
  with syn_reads(6) [OF Y] obtain s1 where s1: "parse_object_key Y s = Inr (k, s1)"
    "toks s1 = TokPunct '':'' # json_tokens T v @ TokPunct '','' # entry_tokens T es" by blast
  from syn_reads(2) [OF Y s1(2)] obtain s2 where s2: "syn_punct Y '':'' s1 = Inr ((), s2)"
    "toks s2 = json_tokens T v @ TokPunct '','' # entry_tokens T es" by blast
  have "reads_back Y toks N T n' v" using Cons.prems(1) [of e n'] Cons.prems(3,4) e n by simp
  with s2(2) obtain s3 where s3: "parse_json_value Y N n' s2 = Some (Inr (v, s3))"
    "toks s3 = TokPunct '','' # entry_tokens T es" unfolding reads_back_def by blast
  from syn_reads(2) [OF Y s3(2)] obtain s4 where s4: "syn_punct Y '','' s3 = Inr ((), s4)" "toks s4 = entry_tokens T es" by blast
  have ins: "bt_insert k v m = m @ [(k, v)]" "bt_get m k = None"
    using bt_insert_last [of m k v es] Cons.prems(2) e by simp_all
  have "parse_object_entries Y N n' s4 (m @ [(k, v)]) = Some (Inr ((m @ [(k, v)]) @ es))"
    by (rule Cons.IH) (use Cons.prems e s4(2) n in simp_all)
  with s1(1) s2(1) s3 s4(1) ins Cons.prems(3) e show ?case by (simp add: n syn_lawsD(1) [OF Y])
qed

lemma read_number:
  assumes Y: "syn_laws Y toks keyword" and "N source = Some number" "source \<noteq> []" "CHR '' '' \<notin> set source"
    and s: "toks s = number_tokens source @ r"
  shows "\<exists>s'. parse_json_value Y N (Suc n) s = Some (Inr (JNumber number, s')) \<and> toks s' = r"
proof (cases "hd source = CHR ''-''")
  case True
  then obtain ds where source: "source = CHR ''-'' # ds" using assms(3) by (cases source) auto
  let ?l = "if list_ex (\<lambda>c. c \<in> set ''.eE'') ds then LitFloat ds else LitInt ds"
  have ts: "toks s = TokPunct ''-'' # TokLit ?l # r" using s by (simp add: source number_tokens_def Let_def)
  from syn_reads(2) [OF Y ts] obtain s1 where s1: "syn_punct Y ''-'' s = Inr ((), s1)" "toks s1 = TokLit ?l # r" by blast
  from syn_reads(3) [OF Y s1(2)] obtain s2 where s2: "syn_lit Y s1 = Inr (?l, s2)" "toks s2 = r" by blast
  have "signed_literal N ?l = Inr (JNumber number)"
    using assms(2,4) no_space [of ds] by (simp add: signed_literal_def parse_number_literal_def source)
  with ts s1(1) s2 show ?thesis
    by (simp add: syn_lawsD(5,6) [OF Y] literal_value_def del: if_split)
next
  case False
  then obtain c ds where source: "source = c # ds" "c \<noteq> CHR ''-''" using assms(3) by (cases source) auto
  let ?l = "if list_ex (\<lambda>c. c \<in> set ''.eE'') source then LitFloat source else LitInt source"
  have ts: "toks s = TokLit ?l # r" using s source by (simp add: number_tokens_def Let_def)
  from syn_reads(3) [OF Y ts] obtain s2 where s2: "syn_lit Y s = Inr (?l, s2)" "toks s2 = r" by blast
  have "parse_literal N ?l = Inr (JNumber number)"
    using assms(2) no_space [OF assms(4)] by (simp add: parse_literal_def parse_number_literal_def)
  with ts s2 show ?thesis
    by (simp add: syn_lawsD(3-6) [OF Y] literal_value_def del: if_split)
qed

lemma read_scalar:
  assumes Y: "syn_laws Y toks keyword"
  shows "reads_back Y toks N T (Suc n) JNull"
    and "reads_back Y toks N T (Suc n) (JBool b)"
    and "reads_back Y toks N T (Suc n) (JString v)"
proof -
  note peeks = syn_lawsD(3-6) [OF Y] literal_value_def parse_literal_def
  have "\<exists>s'. parse_json_value Y N (Suc n) s = Some (Inr (JNull, s')) \<and> toks s' = r"
    if s: "toks s = json_tokens T JNull @ r" for s r
    using syn_reads(4) [OF Y, of s "''null''" r] s by (auto simp: peeks)
  then show "reads_back Y toks N T (Suc n) JNull" unfolding reads_back_def by blast
  have "\<exists>s'. parse_json_value Y N (Suc n) s = Some (Inr (JBool b, s')) \<and> toks s' = r"
    if s: "toks s = json_tokens T (JBool b) @ r" for s r
    using syn_reads(5) [OF Y, of s b r] s by (auto simp: peeks)
  then show "reads_back Y toks N T (Suc n) (JBool b)" unfolding reads_back_def by blast
  have "\<exists>s'. parse_json_value Y N (Suc n) s = Some (Inr (JString v, s')) \<and> toks s' = r"
    if s: "toks s = json_tokens T (JString v) @ r" for s r
    using syn_reads(3) [OF Y, of s "LitStr v" r] s by (auto simp: peeks)
  then show "reads_back Y toks N T (Suc n) (JString v)" unfolding reads_back_def by blast
qed

lemma json_reads_back:
  assumes Y: "syn_laws Y toks keyword"
  shows "writable N T j \<Longrightarrow> weight (json_tokens T j) < n \<Longrightarrow> reads_back Y toks N T n j"
proof (induction j arbitrary: n)
  case (JNumber number)
  obtain n' where n: "n = Suc n'" using JNumber.prems by (cases n) simp_all
  show ?case using JNumber.prems read_number [OF Y, of N "T number" number] by (simp add: reads_back_def n)
next
  case (JArray vs)
  let ?c = "concat (map (\<lambda>v. json_tokens T v @ [TokPunct '','']) vs)"
  obtain n' where n: "n = Suc n'" "weight ?c < n'" using JArray.prems by (cases n) simp_all
  have "weight (json_tokens T v) < n'" if "v \<in> set vs" for v
    using that n(2) by (induction vs) auto
  then have elements: "\<And>v. v \<in> set vs \<Longrightarrow> reads_back Y toks N T n' v" using JArray by simp
  have "\<exists>s'. parse_json_value Y N n s = Some (Inr (JArray vs, s')) \<and> toks s' = r"
    if s: "toks s = json_tokens T (JArray vs) @ r" for s r
  proof -
    have "toks s = TokGroup Bracket ?c # r" using s by simp
    from syn_reads(1) [OF Y this] obtain c s' where "syn_group Y Bracket s = Inr (c, s')" "toks c = ?c" "toks s' = r" by blast
    with read_array [OF Y elements, where s = c and k = n'] n s show ?thesis by (simp add: syn_lawsD(6) [OF Y])
  qed
  then show ?case unfolding reads_back_def by blast
next
  case (JObject m)
  obtain n' where n: "n = Suc n'" "weight (entry_tokens T m) < n'" using JObject.prems by (cases n) simp_all
  have entries: "reads_back Y toks N T k (snd e)" if "e \<in> set m" "weight (json_tokens T (snd e)) < k" for e k
    using JObject.IH [of e "snd e" k] that JObject.prems(1) by (cases e) auto
  have "\<exists>s'. parse_json_value Y N n s = Some (Inr (JObject m, s')) \<and> toks s' = r"
    if s: "toks s = json_tokens T (JObject m) @ r" for s r
  proof -
    have "toks s = TokGroup Brace (entry_tokens T m) # r" using s by simp
    from syn_reads(1) [OF Y this] obtain c s' where
      "syn_group Y Brace s = Inr (c, s')" "toks c = entry_tokens T m" "toks s' = r" by blast
    with read_entries [OF Y entries, where m = "[]" and s = c and n = n'] JObject.prems n s show ?thesis by (simp add: syn_lawsD(6) [OF Y])
  qed
  then show ?case unfolding reads_back_def by blast
qed (use read_scalar [OF Y] in \<open>metis Suc_pred gr_zeroI not_less0\<close>)+

lemma object_read_back:
  assumes Y: "syn_laws Y toks keyword" and "writable N T (JObject m)"
    and s: "toks s = json_tokens T (JObject m)" and "weight (toks s) \<le> n"
  shows "parse_args Y (parse_openapi_object Y N n) s = Some (Inr m)"
    and "parse_args Y (parse_openapi_operation Y N n) s = Some (Inr (OperationObject m))"
proof -
  have "toks s = TokGroup Brace (entry_tokens T m) # []" using s by simp
  from syn_reads(1) [OF Y this] obtain c s' where c:
    "syn_group Y Brace s = Inr (c, s')" "toks c = entry_tokens T m" "toks s' = []" by blast
  have "weight (toks c) < n" using assms(4) s c(2) by simp
  moreover have "reads_back Y toks N T k (snd e)" if "e \<in> set m" "weight (json_tokens T (snd e)) < k" for e k
    using json_reads_back [OF Y, of N T "snd e" k] that assms(2) by simp
  ultimately have "parse_object_entries Y N n c [] = Some (Inr m)"
    using read_entries [OF Y, where es = m and m = "[]" and T = T and s = c and n = n] assms(2) c(2) by simp
  with c s show "parse_args Y (parse_openapi_object Y N n) s = Some (Inr m)"
    and "parse_args Y (parse_openapi_operation Y N n) s = Some (Inr (OperationObject m))"
    by (simp_all add: parse_args_def parse_openapi_object_def parse_openapi_operation_def syn_lawsD(1,2) [OF Y])
qed

section \<open>A stream of tokens\<close>

text \<open>The list of its tokens is a stream that keeps the promises.\<close>

definition expect_next :: "'a option \<Rightarrow> string + 'a" where
  "expect_next r = ok_or r ''unexpected token''"

definition tok_syn :: "(string \<Rightarrow> bool) \<Rightarrow> tok list syn_lib" where
  "tok_syn keyword =
     \<lparr>syn_is_empty = (\<lambda>ts. ts = []),
      syn_peek_str = (\<lambda>ts. next_str ts \<noteq> None),
      syn_peek_bool = (\<lambda>ts. next_ident (\<lambda>i. i \<in> {''true'', ''false''}) ts \<noteq> None),
      syn_peek_ident_any = (\<lambda>ts. next_ident (\<lambda>_. True) ts \<noteq> None),
      syn_peek_punct = (\<lambda>p ts. next_punct p ts \<noteq> None),
      syn_peek_group = (\<lambda>d ts. next_group d ts \<noteq> None),
      syn_ident = (\<lambda>ts. expect_next (next_ident (\<lambda>i. \<not> keyword i) ts)),
      syn_ident_any = (\<lambda>ts. expect_next (next_ident (\<lambda>_. True) ts)),
      syn_str = (\<lambda>ts. expect_next (next_str ts)),
      syn_int = (\<lambda>ts. expect_next (next_int ts)),
      syn_lit = (\<lambda>ts. expect_next (next_lit ts)),
      syn_punct = (\<lambda>p ts. expect_next (next_punct p ts)),
      syn_group = (\<lambda>d ts. expect_next (next_group d ts)),
      syn_unraw = (\<lambda>i. if no_raw i then i else drop 2 i),
      syn_unexpected = (\<lambda>_. ''unexpected token'')\<rparr>"

lemma yields_expect_next: "yields id id (expect_next r) r"
  by (cases r) (auto simp: yields_def expect_next_def)

lemma tok_syn_laws: "syn_laws (tok_syn keyword) id keyword"
proof -
  have "suffix s' s" if "expect_next (next_lit s) = Inr (l, s')" for s l s'
    using that by (cases s rule: next_lit.cases) (auto simp: expect_next_def suffix_def split: if_splits)
  then show ?thesis by (simp add: syn_laws_def tok_syn_def yields_expect_next)
qed

end
