(* ===== verification/SessionCookie.thy ===== *)
theory SessionCookie
  imports Http_Interface
begin

text \<open>
  Credential selection of the ingress (\<open>session_cookie.rs\<close>): the single \<open>Authorization\<close>
  credential, the session and CSRF cookies, and the double-submit check on unsafe methods.
\<close>

record SessionCookiePolicy =
  scp_name :: string
  scp_csrf_cookie_name :: string
  scp_csrf_header_name :: header_name

record CredentialEvidence =
  ce_scheme :: string
  ce_value :: string

datatype CredentialRejection = CredBadRequest | CredCsrfForbidden

record SelectedCookies =
  sel_session :: "string option"
  sel_csrf :: "string option"

definition single_header ::
  "'h http_lib \<Rightarrow> 'h \<Rightarrow> header_name \<Rightarrow> CredentialRejection + string option" where
  "single_header L headers name =
     (case hm_get_all L headers name of
        [] \<Rightarrow> Inr None
      | value # rest \<Rightarrow>
          if rest \<noteq> [] then Inl CredBadRequest
          else (case to_str L value of None \<Rightarrow> Inl CredBadRequest | Some s \<Rightarrow> Inr (Some s)))"

definition authorization_credential ::
  "'h http_lib \<Rightarrow> 'h \<Rightarrow> CredentialRejection + CredentialEvidence option" where
  "authorization_credential L headers =
     try_in (single_header L headers ''authorization'') (\<lambda>v.
       case v of
         None \<Rightarrow> Inr None
       | Some value \<Rightarrow>
           (case split_once CHR '' '' value of
              None \<Rightarrow> Inl CredBadRequest
            | Some (scheme, value) \<Rightarrow>
                if scheme = [] \<or> value = [] then Inl CredBadRequest
                else if (eq_ignore_ascii_case scheme ''bearer'' \<or> eq_ignore_ascii_case scheme ''basic'')
                     \<and> list_ex (\<lambda>b. b = CHR '','' \<or> is_ascii_whitespace b) value
                then Inl CredBadRequest
                else Inr (Some \<lparr>ce_scheme = to_ascii_lowercase scheme, ce_value = value\<rparr>)))"

definition cookie_octet :: "char \<Rightarrow> bool" where
  "cookie_octet c \<longleftrightarrow>
     (let b = byte c in
        b = 0x21 \<or> (0x23 \<le> b \<and> b \<le> 0x2b) \<or> (0x2d \<le> b \<and> b \<le> 0x3a) \<or>
        (0x3c \<le> b \<and> b \<le> 0x5b) \<or> (0x5d \<le> b \<and> b \<le> 0x7e))"

definition normalized_cookie_value :: "string \<Rightarrow> CredentialRejection + string" where
  "normalized_cookie_value value =
     try_in
       (if starts_with value [CHR 0x22] \<or> ends_with value [CHR 0x22]
        then ok_or (Option.bind (strip_prefix value [CHR 0x22]) (\<lambda>v. strip_suffix v [CHR 0x22]))
               CredBadRequest
        else Inr value)
       (\<lambda>value. if list_all cookie_octet value then Inr value else Inl CredBadRequest)"

definition insert_cookie :: "string option \<Rightarrow> string \<Rightarrow> CredentialRejection + string option" where
  "insert_cookie target value =
     (if target \<noteq> None then Inl CredBadRequest
      else try_in (normalized_cookie_value (trim value)) (\<lambda>value.
             if value = [] then Inl CredBadRequest else Inr (Some value)))"

text \<open>One iteration of the inner loop of \<open>selected_cookies\<close>, over a trimmed nonempty pair.\<close>

definition select_pair ::
  "SessionCookiePolicy \<Rightarrow> SelectedCookies \<Rightarrow> string \<Rightarrow> CredentialRejection + SelectedCookies" where
  "select_pair policy selected pair =
     (case split_once CHR ''='' pair of
        None \<Rightarrow>
          if pair = scp_name policy \<or> pair = scp_csrf_cookie_name policy
          then Inl CredBadRequest else Inr selected
      | Some (name, value) \<Rightarrow>
          let name = trim name in
          if name = scp_name policy then
            try_in (insert_cookie (sel_session selected) value)
              (\<lambda>t. Inr (selected\<lparr>sel_session := t\<rparr>))
          else if name = scp_csrf_cookie_name policy then
            try_in (insert_cookie (sel_csrf selected) value)
              (\<lambda>t. Inr (selected\<lparr>sel_csrf := t\<rparr>))
          else Inr selected)"

definition cookie_pairs :: "string \<Rightarrow> string list" where
  "cookie_pairs header = filter (\<lambda>pair. pair \<noteq> []) (map trim (split_on CHR '';'' header))"

definition selected_cookies ::
  "'h http_lib \<Rightarrow> 'h \<Rightarrow> SessionCookiePolicy \<Rightarrow> CredentialRejection + SelectedCookies" where
  "selected_cookies L headers policy =
     fold_res
       (\<lambda>selected header.
          try_in (ok_or (to_str L header) CredBadRequest) (\<lambda>header.
            fold_res (select_pair policy) selected (cookie_pairs header)))
       \<lparr>sel_session = None, sel_csrf = None\<rparr>
       (hm_get_all L headers ''cookie'')"

definition safe_method :: "http_method \<Rightarrow> bool" where
  "safe_method method \<longleftrightarrow>
     method = ''GET'' \<or> method = ''HEAD'' \<or> method = ''OPTIONS'' \<or> method = ''TRACE''
     \<or> eq_ignore_ascii_case method ''QUERY''"

definition tokens_match :: "bytes \<Rightarrow> bytes \<Rightarrow> bool" where
  "tokens_match left right =
     (if length left \<noteq> length right then False
      else fold (\<lambda>(l, r) difference. difference OR (of_char l XOR of_char r))
             (zip left right) (0 :: 8 word) = 0)"

definition select_credential ::
  "'h http_lib \<Rightarrow> http_method \<Rightarrow> 'h \<Rightarrow> SessionCookiePolicy option
     \<Rightarrow> CredentialRejection + CredentialEvidence option" where
  "select_credential L method headers session_cookie =
     try_in (authorization_credential L headers) (\<lambda>authorization.
       case session_cookie of
         None \<Rightarrow> Inr authorization
       | Some policy \<Rightarrow>
           try_in (selected_cookies L headers policy) (\<lambda>cookies.
             case sel_session cookies of
               None \<Rightarrow> Inr authorization
             | Some session \<Rightarrow>
                 if authorization \<noteq> None then Inl CredBadRequest
                 else try_in
                   (if \<not> safe_method method then
                      try_in (ok_or (sel_csrf cookies) CredCsrfForbidden) (\<lambda>csrf_cookie.
                        try_in (single_header L headers (scp_csrf_header_name policy)) (\<lambda>h.
                          try_in (ok_or h CredCsrfForbidden) (\<lambda>csrf_header.
                            if csrf_header = [] \<or> \<not> tokens_match csrf_cookie csrf_header
                            then Inl CredCsrfForbidden else Inr ())))
                    else Inr ())
                   (\<lambda>_. Inr (Some \<lparr>ce_scheme = ''session'', ce_value = session\<rparr>))))"

section \<open>The token comparison\<close>

lemma of_char_word_eq: "(of_char a :: 8 word) = of_char b \<longleftrightarrow> a = b"
proof -
  have "(of_char c :: 8 word) = of_nat (byte c)" for c
    by (simp only: byte_def of_nat_of_char)
  moreover have "take_bit 8 (byte c) = byte c" for c
    using byte_less_256 [of c] by (simp add: take_bit_eq_mod)
  ultimately show ?thesis
    by (simp add: word_of_nat_eq_iff byte_inject)
qed

lemma xor_eq_zero: "(x :: 8 word) XOR y = 0 \<longleftrightarrow> x = y"
proof
  assume "x XOR y = 0"
  then have "(x XOR y) XOR y = y" by simp
  then show "x = y" by (simp add: xor.assoc)
qed simp

lemma fold_or_zero:
  "fold (\<lambda>(l, r) difference. difference OR (f l XOR f r)) ps (d :: 8 word) = 0 \<longleftrightarrow>
   d = 0 \<and> (\<forall>p \<in> set ps. f (fst p) = f (snd p))"
proof (induction ps arbitrary: d)
  case Nil
  then show ?case by simp
next
  case (Cons p ps)
  have "d OR (f (fst p) XOR f (snd p)) = 0 \<longleftrightarrow> d = 0 \<and> f (fst p) = f (snd p)"
    by (simp add: or_eq_0_iff xor_eq_zero)
  with Cons show ?case by (simp add: case_prod_beta)
qed

lemma tokens_match_eq: "tokens_match left right \<longleftrightarrow> left = right"
proof (cases "length left = length right")
  case True
  then have "(\<forall>p \<in> set (zip left right). fst p = snd p) \<longleftrightarrow> left = right"
    by (auto simp: list_eq_iff_zip_eq)
  with True show ?thesis
    by (simp add: tokens_match_def fold_or_zero [of of_char] of_char_word_eq)
qed (auto simp: tokens_match_def)

section \<open>Cookie selection\<close>

text \<open>
  The specification the loop implements: every pair of every \<open>Cookie\<close> header, the values
  given to one cookie name, and the one acceptable value among them.
\<close>

definition all_cookie_pairs :: "'h http_lib \<Rightarrow> 'h \<Rightarrow> string list" where
  "all_cookie_pairs L headers =
     concat (map (\<lambda>v. cookie_pairs (hv_bytes v)) (hm_get_all L headers ''cookie''))"

definition named_values :: "string \<Rightarrow> string list \<Rightarrow> string list" where
  "named_values n pairs =
     concat (map (\<lambda>pair. case split_once CHR ''='' pair of
                         None \<Rightarrow> []
                       | Some (m, v) \<Rightarrow> if trim m = n then [v] else []) pairs)"

definition unique_cookie :: "string list \<Rightarrow> string option option" where
  "unique_cookie vs =
     (case vs of
        [] \<Rightarrow> Some None
      | [v] \<Rightarrow> (case normalized_cookie_value (trim v) of
                  Inl _ \<Rightarrow> None
                | Inr s \<Rightarrow> if s = [] then None else Some (Some s))
      | _ \<Rightarrow> None)"

lemma insert_cookie_Some [simp]: "insert_cookie (Some s) v = Inl CredBadRequest"
  by (simp add: insert_cookie_def)

lemma fold_insert_Some:
  "fold_res insert_cookie (Some s) vs = Inr t \<longleftrightarrow> vs = [] \<and> t = Some s"
  by (cases vs) auto

lemma insert_cookie_None_iff:
  "insert_cookie None v = Inr t \<longleftrightarrow>
   (\<exists>s. normalized_cookie_value (trim v) = Inr s \<and> s \<noteq> [] \<and> t = Some s)"
  by (auto simp: insert_cookie_def result_simps split: if_splits)

lemma fold_insert_None:
  "fold_res insert_cookie None vs = Inr t \<longleftrightarrow> unique_cookie vs = Some t"
proof (cases vs)
  case Nil
  then show ?thesis by (auto simp: unique_cookie_def)
next
  case (Cons v rest)
  then show ?thesis
    by (cases rest)
       (auto simp: unique_cookie_def result_simps insert_cookie_None_iff fold_insert_Some
             split: sum.splits if_splits)
qed

lemma select_pair_Inr_iff:
  assumes "scp_name p \<noteq> scp_csrf_cookie_name p"
  shows "select_pair p sel pair = Inr sel' \<longleftrightarrow>
    \<not> (CHR ''='' \<notin> set pair \<and> pair \<in> {scp_name p, scp_csrf_cookie_name p}) \<and>
    fold_res insert_cookie (sel_session sel) (named_values (scp_name p) [pair]) = Inr (sel_session sel') \<and>
    fold_res insert_cookie (sel_csrf sel) (named_values (scp_csrf_cookie_name p) [pair]) = Inr (sel_csrf sel')"
proof (cases "split_once CHR ''='' pair")
  case None
  then have "CHR ''='' \<notin> set pair" by (simp add: split_once_None)
  with None show ?thesis
    by (cases sel; cases sel') (auto simp: select_pair_def named_values_def)
next
  case (Some nv)
  then have "CHR ''='' \<in> set pair" by (cases nv) (simp add: split_once_Some)
  with Some assms show ?thesis
    by (cases sel; cases sel'; cases nv)
       (auto simp: select_pair_def named_values_def result_simps Let_def)
qed

lemma named_values_Cons: "named_values n (x # xs) = named_values n [x] @ named_values n xs"
  by (simp add: named_values_def)

lemma fold_select_pair_Inr_iff:
  assumes "scp_name p \<noteq> scp_csrf_cookie_name p"
  shows "fold_res (select_pair p) sel pairs = Inr sel' \<longleftrightarrow>
    (\<nexists>pair. pair \<in> set pairs \<and> CHR ''='' \<notin> set pair \<and> pair \<in> {scp_name p, scp_csrf_cookie_name p}) \<and>
    fold_res insert_cookie (sel_session sel) (named_values (scp_name p) pairs) = Inr (sel_session sel') \<and>
    fold_res insert_cookie (sel_csrf sel) (named_values (scp_csrf_cookie_name p) pairs) = Inr (sel_csrf sel')"
proof (induction pairs arbitrary: sel)
  case Nil
  then show ?case by (cases sel; cases sel') (auto simp: named_values_def)
next
  case (Cons x xs)
  show ?case
    unfolding named_values_Cons [of _ x xs] fold_res_append fold_res.simps result_simps
      Cons.IH select_pair_Inr_iff [OF assms]
    by (auto intro!: exI [of _ "\<lparr>sel_session = _, sel_csrf = _\<rparr>"])
qed

lemma selected_cookies_flat:
  "selected_cookies L headers p = Inr sel \<longleftrightarrow>
   list_all (\<lambda>v. header_value_to_str L (hv_bytes v)) (hm_get_all L headers ''cookie'') \<and>
   fold_res (select_pair p) \<lparr>sel_session = None, sel_csrf = None\<rparr> (all_cookie_pairs L headers) = Inr sel"
proof -
  have "fold_res (\<lambda>s v. try_in (ok_or (to_str L v) CredBadRequest)
           (\<lambda>h. fold_res (select_pair p) s (cookie_pairs h))) s vs = Inr sel \<longleftrightarrow>
        list_all (\<lambda>v. header_value_to_str L (hv_bytes v)) vs \<and>
        fold_res (select_pair p) s (concat (map (\<lambda>v. cookie_pairs (hv_bytes v)) vs)) = Inr sel" for s vs
    by (induction vs arbitrary: s) (auto simp: result_simps fold_res_append)
  then show ?thesis by (simp add: selected_cookies_def all_cookie_pairs_def)
qed

lemma normalized_cookie_value_octets:
  "normalized_cookie_value v = Inr s \<Longrightarrow> list_all cookie_octet s"
  by (auto simp: normalized_cookie_value_def result_simps split: if_splits)

lemma unique_cookie_octets:
  "unique_cookie vs = Some (Some s) \<Longrightarrow> s \<noteq> [] \<and> list_all cookie_octet s"
  by (auto simp: unique_cookie_def normalized_cookie_value_octets
      split: list.splits sum.splits if_splits)

section \<open>Properties\<close>

text \<open>The branch-free token comparison accepts exactly equal byte strings.\<close>

theorem tokens_match_is_equality: "tokens_match left right = (left = right)"
  by (rule tokens_match_eq)

text \<open>For a policy with distinct cookie names, cookie selection succeeds exactly when every
  \<open>Cookie\<close> header is text, no pair is a bare protected name, and each protected name occurs at
  most once with a well-formed nonempty value; the selected values are then those ones.\<close>

theorem selected_cookies_spec:
  assumes "scp_name p \<noteq> scp_csrf_cookie_name p"
  shows "selected_cookies L headers p = Inr sel \<longleftrightarrow>
    list_all (\<lambda>v. header_value_to_str L (hv_bytes v)) (hm_get_all L headers ''cookie'') \<and>
    (\<nexists>pair. pair \<in> set (all_cookie_pairs L headers) \<and> CHR ''='' \<notin> set pair \<and>
            pair \<in> {scp_name p, scp_csrf_cookie_name p}) \<and>
    unique_cookie (named_values (scp_name p) (all_cookie_pairs L headers)) = Some (sel_session sel) \<and>
    unique_cookie (named_values (scp_csrf_cookie_name p) (all_cookie_pairs L headers)) = Some (sel_csrf sel)"
  by (simp add: selected_cookies_flat fold_select_pair_Inr_iff [OF assms] fold_insert_None)

abbreviation sample_policy :: SessionCookiePolicy where
  "sample_policy \<equiv> \<lparr>scp_name = ''__Host-s'', scp_csrf_cookie_name = ''__Host-c'',
                     scp_csrf_header_name = ''x-csrf''\<rparr>"

abbreviation sample_headers :: "(header_name \<times> header_value) list" where
  "sample_headers \<equiv> [(''cookie'', plain ''__Host-s=abc; theme=dark; __Host-c=tok''),
                      (''x-csrf'', plain ''tok'')]"

theorem selected_cookies_spec_witness:
  "unique_cookie (named_values ''__Host-s'' (all_cookie_pairs list_http sample_headers)) = Some (Some ''abc'')"
proof -
  have d: "scp_name sample_policy \<noteq> scp_csrf_cookie_name sample_policy" by simp
  have s: "selected_cookies list_http sample_headers sample_policy =
           Inr \<lparr>sel_session = Some ''abc'', sel_csrf = Some ''tok''\<rparr>" by code_simp
  from selected_cookies_spec [OF d, THEN iffD1, OF s] show ?thesis by simp
qed

text \<open>C2. Double submit: on an unsafe method a credential that does not come from
  \<open>Authorization\<close> is the session cookie's value, the request carries exactly one CSRF header,
  and its text is the nonempty value of the CSRF cookie.\<close>

theorem csrf_double_submit:
  assumes "select_credential L m headers (Some p) = Inr (Some ev)"
    and "\<not> safe_method m"
    and "authorization_credential L headers = Inr None"
  shows "\<exists>cookies session token v.
    selected_cookies L headers p = Inr cookies \<and>
    sel_session cookies = Some session \<and> sel_csrf cookies = Some token \<and> token \<noteq> [] \<and>
    hm_get_all L headers (scp_csrf_header_name p) = [v] \<and> hv_bytes v = token \<and>
    ev = \<lparr>ce_scheme = ''session'', ce_value = session\<rparr>"
  using assms
  by (auto simp: select_credential_def single_header_def tokens_match_eq result_simps
      split: option.splits list.splits if_splits)

theorem csrf_double_submit_witness:
  "\<exists>cookies session token v.
    selected_cookies list_http sample_headers sample_policy = Inr cookies \<and>
    sel_session cookies = Some session \<and> sel_csrf cookies = Some token \<and> token \<noteq> [] \<and>
    hm_get_all list_http sample_headers (scp_csrf_header_name sample_policy) = [v] \<and> hv_bytes v = token \<and>
    \<lparr>ce_scheme = ''session'', ce_value = ''abc''\<rparr> = \<lparr>ce_scheme = ''session'', ce_value = session\<rparr>"
proof (rule csrf_double_submit [of _ "''POST''"])
  show "select_credential list_http ''POST'' sample_headers (Some sample_policy) =
        Inr (Some \<lparr>ce_scheme = ''session'', ce_value = ''abc''\<rparr>)" by code_simp
  show "\<not> safe_method ''POST''" by code_simp
  show "authorization_credential list_http sample_headers = Inr None" by code_simp
qed

text \<open>A request that carries both an \<open>Authorization\<close> credential and a session cookie is
  rejected as a bad request, whatever its method.\<close>

theorem ambiguous_credential_rejected:
  assumes "authorization_credential L headers = Inr (Some ev)"
    and "selected_cookies L headers p = Inr cookies"
    and "sel_session cookies = Some session"
  shows "select_credential L m headers (Some p) = Inl CredBadRequest"
  using assms by (simp add: select_credential_def)

theorem ambiguous_credential_rejected_witness:
  "select_credential list_http ''GET''
     ((''authorization'', plain ''Bearer t'') # sample_headers) (Some sample_policy) = Inl CredBadRequest"
proof (rule ambiguous_credential_rejected)
  show "authorization_credential list_http ((''authorization'', plain ''Bearer t'') # sample_headers) =
        Inr (Some \<lparr>ce_scheme = ''bearer'', ce_value = ''t''\<rparr>)" by code_simp
  show "selected_cookies list_http ((''authorization'', plain ''Bearer t'') # sample_headers) sample_policy =
        Inr \<lparr>sel_session = Some ''abc'', sel_csrf = Some ''tok''\<rparr>" by code_simp
qed simp

end
