(* ===== verification/Inbound.thy ===== *)
theory Inbound
  imports SessionCookie HeaderBoundary
begin

text \<open>
  The transport-independent request side of the ingress (\<open>ingress.rs\<close>): request identities, the
  headers that belong to the connection or to the ingress itself, the normalized request an
  endpoint may see, and its passage through middleware and back. Cancellation tokens and
  disconnect channels are opaque identities that the request carries along. An \<open>expect\<close> that
  fails is \<open>None\<close>.
\<close>

type_synonym token_id = nat

datatype http_version = Http09 | Http10 | Http11 | Http2 | Http3

record InboundHeader =
  ih_name :: string
  ih_value :: string

record InboundRequest =
  ir_body :: bytes
  ir_cancellation :: token_id
  ir_credential :: "CredentialEvidence option"
  ir_csrf_header_name :: "header_name option"
  ir_disconnected :: token_id
  ir_headers :: "InboundHeader list"
  ir_method :: http_method
  ir_path :: string
  ir_query :: "string option"
  ir_request_id :: string

datatype RequestRejection = BadRequest | CsrfForbidden

definition rejection_from :: "CredentialRejection \<Rightarrow> RequestRejection" where
  "rejection_from value = (case value of CredBadRequest \<Rightarrow> BadRequest | CredCsrfForbidden \<Rightarrow> CsrfForbidden)"

section \<open>Request identities\<close>

text \<open>Both variants of the sequence return the old value and wrap at 64 bits.\<close>

type_synonym RequestIdSequence = "64 word"

definition sequence_next :: "RequestIdSequence \<Rightarrow> 64 word \<times> RequestIdSequence" where
  "sequence_next next = (let value = next in (value, next + 1))"

text \<open>The digit loop fills the buffer from its end; \<open>None\<close> is an index below zero.\<close>

function request_id_digits :: "64 word \<Rightarrow> nat \<Rightarrow> bytes \<Rightarrow> (nat \<times> bytes) option" where
  "request_id_digits value start buffer =
     (if start = 0 \<or> length buffer < start then None
      else
        let start' = start - 1;
            buffer' = buffer[start' := char_of (48 + unat (value mod 10))];
            value' = value div 10
        in if value' = 0 then Some (start', buffer') else request_id_digits value' start' buffer')"
  by auto

termination
  by (relation "measure (\<lambda>(value, start, buffer). start)") auto

declare request_id_digits.simps [simp del]

definition request_id_header_value :: "'h http_lib \<Rightarrow> 64 word \<Rightarrow> header_value option" where
  "request_id_header_value L value =
     (let buffer = replicate 26 (CHR 0x00) in
      case request_id_digits value (length buffer) buffer of
        None \<Rightarrow> None
      | Some (start, buffer) \<Rightarrow>
          if start < length ''lenso-'' then None
          else
            let start' = start - length ''lenso-'';
                buffer' = take start' buffer @ ''lenso-'' @ drop (start' + length ''lenso-'') buffer;
                text = drop start' buffer'
            in if header_value_from_str L text then Some (plain text) else None)"

definition replace_request_id ::
  "'h http_lib \<Rightarrow> 'h \<Rightarrow> RequestIdSequence \<Rightarrow> (header_value \<times> 'h \<times> RequestIdSequence) option" where
  "replace_request_id L headers next =
     (case sequence_next next of (value, next') \<Rightarrow>
        map_option (\<lambda>request_id. (request_id, hm_insert L headers ''x-request-id'' request_id, next'))
          (request_id_header_value L value))"

definition request_id :: "'h http_lib \<Rightarrow> 'h \<Rightarrow> RequestRejection + string" where
  "request_id L headers =
     try_in (ok_or (case hm_get L headers ''x-request-id'' of None \<Rightarrow> None | Some v \<Rightarrow> to_str L v)
               BadRequest) (\<lambda>request_id.
       if request_id = [] \<or> length request_id > 128 then Inl BadRequest else Inr request_id)"

section \<open>Header ownership\<close>

definition is_static_hop_by_hop_name :: "string \<Rightarrow> bool" where
  "is_static_hop_by_hop_name name \<longleftrightarrow>
     eq_ignore_ascii_case name ''connection''
     \<or> eq_ignore_ascii_case name ''te''
     \<or> eq_ignore_ascii_case name ''trailer''
     \<or> eq_ignore_ascii_case name ''transfer-encoding''
     \<or> eq_ignore_ascii_case name ''upgrade''
     \<or> eq_ignore_ascii_case name ''keep-alive''
     \<or> eq_ignore_ascii_case name ''proxy-connection''"

definition is_static_hop_by_hop_header :: "header_name \<Rightarrow> bool" where
  "is_static_hop_by_hop_header name \<longleftrightarrow>
     name = ''connection'' \<or> name = ''te'' \<or> name = ''trailer'' \<or> name = ''transfer-encoding''
     \<or> name = ''upgrade'' \<or> name = ''keep-alive'' \<or> name = ''proxy-connection''"

definition is_filtered_request_header :: "header_name \<Rightarrow> bool" where
  "is_filtered_request_header name \<longleftrightarrow>
     name = ''authorization'' \<or> name = ''cookie'' \<or> is_static_hop_by_hop_header name
     \<or> name = ''content-length'' \<or> name = ''host'' \<or> name = ''x-request-id''"

definition is_ingress_owned_response_header :: "header_name \<Rightarrow> bool" where
  "is_ingress_owned_response_header name \<longleftrightarrow>
     is_static_hop_by_hop_header name \<or> name = ''content-length''
     \<or> name = ''x-content-type-options'' \<or> name = ''x-request-id''"

definition connection_names :: "string \<Rightarrow> string list" where
  "connection_names value = filter (\<lambda>n. n \<noteq> []) (map trim (split_on (CHR '','') value))"

definition insert_connection_name ::
  "'h http_lib \<Rightarrow> header_name list \<Rightarrow> string \<Rightarrow> RequestRejection + header_name list" where
  "insert_connection_name L owned name =
     (if is_static_hop_by_hop_name name then Inr owned
      else try_in (ok_or (header_name_from_bytes L name) BadRequest) (\<lambda>n. Inr (List.insert n owned)))"

definition connection_owned_headers ::
  "'h http_lib \<Rightarrow> 'h \<Rightarrow> RequestRejection + header_name list" where
  "connection_owned_headers L headers =
     fold_res (\<lambda>owned value. try_in (ok_or (to_str L value) BadRequest) (\<lambda>v.
       fold_res (insert_connection_name L) owned (connection_names v)))
       [] (hm_get_all L headers ''connection'')"

definition mark_sensitive_headers ::
  "'h http_lib \<Rightarrow> 'h \<Rightarrow> SessionCookiePolicy option \<Rightarrow> 'h" where
  "mark_sensitive_headers L headers session_cookie =
     hm_iter_mut L headers (\<lambda>name value.
       if name = ''authorization'' \<or> name = ''cookie''
          \<or> (case session_cookie of None \<Rightarrow> False | Some policy \<Rightarrow> name = scp_csrf_header_name policy)
       then value\<lparr>hv_sensitive := True\<rparr> else value)"

text \<open>The filtered, converted headers, as both sides of the middleware chain compute them.\<close>

definition header_blocked :: "header_name option \<Rightarrow> header_name list \<Rightarrow> header_name \<Rightarrow> bool" where
  "header_blocked csrf owned name \<longleftrightarrow>
     is_filtered_request_header name
     \<or> (case csrf of None \<Rightarrow> False | Some c \<Rightarrow> c = name)
     \<or> name \<in> set owned"

definition visible_headers ::
  "'h http_lib \<Rightarrow> header_name option \<Rightarrow> header_name list \<Rightarrow> 'h \<Rightarrow> RequestRejection + InboundHeader list" where
  "visible_headers L csrf owned headers =
     traverse (\<lambda>(name, value). try_in (ok_or (to_str L value) BadRequest) (\<lambda>v.
         Inr \<lparr>ih_name = name, ih_value = v\<rparr>))
       (filter (\<lambda>e. \<not> header_blocked csrf owned (fst e)) (hm_iter L headers))"

definition normalized_method :: "'h http_lib \<Rightarrow> http_method \<Rightarrow> http_method option" where
  "normalized_method L m =
     (if list_ex is_ascii_lowercase m
      then if method_from_bytes L (to_ascii_uppercase m) then Some (to_ascii_uppercase m) else None
      else Some m)"

section \<open>The normalized request\<close>

text \<open>The outer \<open>None\<close> is the panic of \<open>normalized_method\<close>.\<close>

definition inbound_request ::
  "'h http_lib \<Rightarrow> http_method \<Rightarrow> uri \<Rightarrow> 'h \<Rightarrow> bytes \<Rightarrow> token_id \<Rightarrow> token_id \<Rightarrow>
   SessionCookiePolicy option \<Rightarrow> (RequestRejection + InboundRequest) option" where
  "inbound_request L m uri headers body cancellation disconnected session_cookie =
     (case try_in (request_id L headers) (\<lambda>rid.
           try_in (map_err rejection_from (select_credential L m headers session_cookie)) (\<lambda>credential.
           let csrf = map_option scp_csrf_header_name session_cookie in
           try_in (connection_owned_headers L headers) (\<lambda>owned.
           try_in (visible_headers L csrf owned headers) (\<lambda>hs. Inr (rid, credential, csrf, hs))))) of
        Inl rejection \<Rightarrow> Some (Inl rejection)
      | Inr (rid, credential, csrf, hs) \<Rightarrow>
          map_option (\<lambda>m'. Inr \<lparr>ir_body = body, ir_cancellation = cancellation,
              ir_credential = credential, ir_csrf_header_name = csrf, ir_disconnected = disconnected,
              ir_headers = hs, ir_method = m', ir_path = uri_path uri, ir_query = uri_query uri,
              ir_request_id = rid\<rparr>)
            (normalized_method L m))"

record 'h WebIngressRequest =
  wreq_method :: http_method
  wreq_uri :: uri
  wreq_version :: http_version
  wreq_headers :: 'h
  wreq_body :: bytes

record InboundRequestControl =
  irc_cancellation :: token_id
  irc_credential :: "CredentialEvidence option"
  irc_csrf_header_name :: "header_name option"
  irc_disconnected :: token_id
  irc_request_id :: string

definition request_target :: "string \<Rightarrow> string option \<Rightarrow> string" where
  "request_target path query = (case query of None \<Rightarrow> path | Some q \<Rightarrow> path @ ''?'' @ q)"

fun append_headers :: "'h http_lib \<Rightarrow> 'h \<Rightarrow> InboundHeader list \<Rightarrow> 'h option" where
  "append_headers L h [] = Some h"
| "append_headers L h (x # xs) =
     (case header_name_from_bytes L (ih_name x) of
        None \<Rightarrow> None
      | Some name \<Rightarrow>
          if header_value_from_str L (ih_value x)
          then append_headers L (hm_append L h name (plain (ih_value x))) xs
          else None)"

definition middleware_request ::
  "'h http_lib \<Rightarrow> InboundRequest \<Rightarrow> http_version \<Rightarrow> ('h WebIngressRequest \<times> InboundRequestControl) option" where
  "middleware_request L request version =
     (case uri_parse L (request_target (ir_path request) (ir_query request)) of
        None \<Rightarrow> None
      | Some uri \<Rightarrow>
          (case append_headers L (hm_new L) (ir_headers request) of
             None \<Rightarrow> None
           | Some headers \<Rightarrow>
               if header_value_from_str L (ir_request_id request)
               then Some
                 (\<lparr>wreq_method = ir_method request, wreq_uri = uri, wreq_version = version,
                   wreq_headers = hm_insert L headers ''x-request-id'' (plain (ir_request_id request)),
                   wreq_body = ir_body request\<rparr>,
                  \<lparr>irc_cancellation = ir_cancellation request,
                   irc_credential = ir_credential request,
                   irc_csrf_header_name = ir_csrf_header_name request,
                   irc_disconnected = ir_disconnected request,
                   irc_request_id = ir_request_id request\<rparr>)
               else None))"

definition restore_inbound_request ::
  "'h http_lib \<Rightarrow> 'h WebIngressRequest \<Rightarrow> InboundRequestControl \<Rightarrow>
   (RequestRejection + InboundRequest) option" where
  "restore_inbound_request L request control =
     (case try_in (connection_owned_headers L (wreq_headers request)) (\<lambda>owned.
            visible_headers L (irc_csrf_header_name control) owned (wreq_headers request)) of
        Inl rejection \<Rightarrow> Some (Inl rejection)
      | Inr hs \<Rightarrow>
          map_option (\<lambda>m'. Inr \<lparr>ir_body = wreq_body request,
              ir_cancellation = irc_cancellation control, ir_credential = irc_credential control,
              ir_csrf_header_name = irc_csrf_header_name control,
              ir_disconnected = irc_disconnected control, ir_headers = hs, ir_method = m',
              ir_path = uri_path (wreq_uri request), ir_query = uri_query (wreq_uri request),
              ir_request_id = irc_request_id control\<rparr>)
            (normalized_method L (wreq_method request)))"

section \<open>Size of the request head\<close>

definition serialized_uri_len :: "uri \<Rightarrow> nat" where
  "serialized_uri_len u =
     (let size = (case uri_path_and_query u of None \<Rightarrow> 0 | Some p \<Rightarrow> length p);
          size = (case uri_scheme_str u of None \<Rightarrow> size | Some s \<Rightarrow> size + (length s + 3))
      in case uri_authority u of None \<Rightarrow> size | Some a \<Rightarrow> size + length a)"

definition version_len :: "http_version \<Rightarrow> nat" where
  "version_len _ = 8"

definition canonical_request_head_len ::
  "'h http_lib \<Rightarrow> http_method \<Rightarrow> uri \<Rightarrow> http_version \<Rightarrow> 'h \<Rightarrow> nat" where
  "canonical_request_head_len L m u v headers =
     length m + 1 + serialized_uri_len u + 1 + version_len v + 2
     + sum_list (map (\<lambda>(name, value). length name + 2 + length (hv_bytes value) + 2) (hm_iter L headers))
     + 2"

section \<open>Decimal text of a request identity\<close>

lemma length_decimal_u64: "length (decimal (unat (v :: 64 word))) \<le> 20"
proof (rule length_decimal)
  have "unat v < 2 ^ 64" using unsigned_less [of v] by simp
  also have "\<dots> < (10 ^ 20 :: nat)" by simp
  finally show "unat v < 10 ^ 20" .
qed simp

lemma unat_div10: "unat (v div 10 :: 64 word) = unat v div 10"
  and unat_mod10: "unat (v mod 10 :: 64 word) = unat v mod 10"
  by (simp_all add: unat_div_distrib unat_mod_distrib)

lemma request_id_digits_decimal:
  assumes "length (decimal (unat v)) \<le> start" and "start \<le> length buffer"
  shows "request_id_digits v start buffer =
    Some (start - length (decimal (unat v)),
          take (start - length (decimal (unat v))) buffer @ decimal (unat v) @ drop start buffer)"
  using assms
proof (induction v start buffer rule: request_id_digits.induct)
  case (1 v start buffer)
  have pos: "0 < length (decimal n)" for n by (subst decimal.simps) simp
  have start: "start \<noteq> 0" using 1(2) pos [of "unat v"] by linarith
  let ?b = "buffer[start - 1 := char_of (48 + unat (v mod 10))]"
  have split: "?b = take (start - 1) buffer @ char_of (48 + unat v mod 10) # drop start buffer"
    using start 1(3) by (simp add: upd_conv_take_nth_drop unat_mod10)
  show ?case
  proof (cases "v div 10 = 0")
    case True
    then have "unat v div 10 = 0" by (metis unat_0 unat_div10)
    then have small: "unat v < 10" by (simp add: div_eq_0_iff)
    then have d: "decimal (unat v) = [char_of (48 + unat v mod 10)]" by (subst decimal.simps) simp
    show ?thesis
      using start 1(3) True split by (subst request_id_digits.simps) (simp add: d Let_def)
  next
    case False
    then have "unat v div 10 \<noteq> 0" by (metis unat_div10 unat_eq_0)
    then have big: "\<not> unat v < 10" by auto
    have d: "decimal (unat v) = decimal (unat (v div 10)) @ [char_of (48 + unat v mod 10)]"
      using big by (subst decimal.simps) (simp add: unat_div10)
    have len: "length (decimal (unat (v div 10))) \<le> start - 1" using 1(2) by (simp add: d)
    have "request_id_digits v start buffer = request_id_digits (v div 10) (start - 1) ?b"
      using start 1(3) False by (subst request_id_digits.simps) (simp add: Let_def)
    also have "\<dots> = Some (start - 1 - length (decimal (unat (v div 10))),
        take (start - 1 - length (decimal (unat (v div 10)))) ?b @ decimal (unat (v div 10)) @
        drop (start - 1) ?b)"
      by (rule 1(1)) (use start 1(3) False len in \<open>auto simp: Let_def\<close>)
    also have "take (start - 1 - length (decimal (unat (v div 10)))) ?b =
        take (start - 1 - length (decimal (unat (v div 10)))) buffer" by simp
    also have "drop (start - 1) ?b = char_of (48 + unat v mod 10) # drop start buffer"
      using split start 1(3) by simp
    finally show ?thesis by (simp add: d)
  qed
qed

lemma request_id_header_value_eq:
  assumes "header_text_laws L"
  shows "request_id_header_value L v = Some (plain (''lenso-'' @ decimal (unat v)))"
proof -
  let ?d = "decimal (unat v)"
  have len: "length ?d \<le> 20" by (rule length_decimal_u64)
  have digits: "request_id_digits v 26 (replicate 26 CHR 0x00) =
      Some (26 - length ?d, replicate (26 - length ?d) CHR 0x00 @ ?d)"
    using len by (subst request_id_digits_decimal) auto
  have "list_all visible_ascii (''lenso-'' @ ?d)"
    using decimal_visible [of "unat v"] by (simp add: visible_ascii_def byte_def)
  then have ok: "header_value_from_str L (''lenso-'' @ ?d)"
    using header_text_lawsD(3,4) [OF assms] by blast
  show ?thesis
    using len ok by (simp add: request_id_header_value_def digits Let_def)
qed

section \<open>What crosses into middleware and endpoints\<close>

definition header_pair :: "InboundHeader \<Rightarrow> header_name \<times> string" where
  "header_pair x = (ih_name x, ih_value x)"

definition header_values :: "header_name \<Rightarrow> InboundHeader list \<Rightarrow> string list" where
  "header_values n hs = map ih_value (filter (\<lambda>x. ih_name x = n) hs)"

lemma header_values_pairs:
  "header_values n hs = map snd (filter (\<lambda>e. fst e = n) (map header_pair hs))"
  by (induction hs) (auto simp: header_values_def header_pair_def)

definition visible_pairs ::
  "'h http_lib \<times> header_name option \<times> header_name list \<times> 'h \<Rightarrow> RequestRejection + (header_name \<times> string) list" where
  "visible_pairs = (\<lambda>(L, csrf, owned, h).
     try_in (visible_headers L csrf owned h) (\<lambda>hs. Inr (map header_pair hs)))"

interpretation visible: header_boundary visible_pairs "\<lambda>(L, csrf, owned, h). hm_iter L h"
  "\<lambda>(L, csrf, owned, h). header_blocked csrf owned" "\<lambda>(L, csrf, owned, h) v. to_str L v"
proof
  fix s :: "'h http_lib \<times> header_name option \<times> header_name list \<times> 'h" and hs
  assume "visible_pairs s = Inr hs"
  moreover obtain L csrf owned h where s: "s = (L, csrf, owned, h)" by (cases s) auto
  ultimately obtain xs where xs: "visible_headers L csrf owned h = Inr xs" "hs = map header_pair xs"
    by (auto simp: visible_pairs_def result_simps)
  from xs(1) have "list_all2 (\<lambda>(n, u) (m, v). n = m \<and> to_str L u = Some v)
      (filter (\<lambda>e. \<not> header_blocked csrf owned (fst e)) (hm_iter L h)) (map header_pair xs)"
    unfolding visible_headers_def traverse_Inr_iff list_all2_map2
    by (rule list_all2_mono) (auto simp: result_simps header_pair_def)
  then show "list_all2 (\<lambda>(n, u) (m, v). n = m \<and> (case s of (L, csrf, owned, h) \<Rightarrow> \<lambda>v. to_str L v) u = Some v)
      (filter (\<lambda>e. \<not> (case s of (L, csrf, owned, h) \<Rightarrow> header_blocked csrf owned) (fst e))
        (case s of (L, csrf, owned, h) \<Rightarrow> hm_iter L h)) hs"
    by (simp add: s xs(2))
qed

lemma visible_not_blocked:
  assumes "visible_headers L csrf owned h = Inr hs" and "x \<in> set hs"
  shows "\<not> header_blocked csrf owned (ih_name x)"
proof -
  have "visible_pairs (L, csrf, owned, h) = Inr (map header_pair hs)"
    using assms(1) by (simp add: visible_pairs_def)
  from visible.crossed_not_blocked [OF this, of "ih_name x" "ih_value x"] assms(2)
  show ?thesis by (auto simp: header_pair_def [abs_def] image_iff)
qed

lemma visible_values:
  assumes "header_map_laws L" and "visible_headers L csrf owned h = Inr hs"
  shows "header_values n hs =
    (if header_blocked csrf owned n then [] else map hv_bytes (hm_get_all L h n))"
proof (cases "header_blocked csrf owned n")
  case True
  have "\<And>x. x \<in> set hs \<Longrightarrow> ih_name x \<noteq> n" using visible_not_blocked [OF assms(2)] True by blast
  then show ?thesis using True by (simp add: header_values_def filter_empty_conv)
next
  case False
  have "visible_pairs (L, csrf, owned, h) = Inr (map header_pair hs)"
    using assms(2) by (simp add: visible_pairs_def)
  from visible.crossed_values [OF this, of n] False
  have eq: "map Some (header_values n hs) = map (to_str L) (hm_get_all L h n)"
    using header_map_lawsD(6) [OF assms(1), of n h] by (simp add: header_values_pairs)
  from map_Some_to_str [OF eq] False show ?thesis by simp
qed

lemma visible_total:
  assumes "header_map_laws L"
    and "\<And>n v. \<not> header_blocked csrf owned n \<Longrightarrow> v \<in> set (hm_get_all L h n) \<Longrightarrow> header_value_to_str L (hv_bytes v)"
  shows "\<exists>hs. visible_headers L csrf owned h = Inr hs"
  unfolding visible_headers_def
proof (rule traverse_total)
  fix e assume mem: "e \<in> set (filter (\<lambda>e. \<not> header_blocked csrf owned (fst e)) (hm_iter L h))"
  obtain n v where e: "e = (n, v)" by (cases e)
  with mem have "\<not> header_blocked csrf owned n" "(n, v) \<in> set (hm_iter L h)" by auto
  with e assms show "\<exists>y. (case e of (name, value) \<Rightarrow> try_in (ok_or (to_str L value) BadRequest)
      (\<lambda>v. Inr \<lparr>ih_name = name, ih_value = v\<rparr>)) = Inr y"
    by (auto simp: hm_iter_mem [OF assms(1)] to_str_def)
qed

lemma append_headers_get:
  assumes "header_map_laws L"
    and "\<And>x. x \<in> set xs \<Longrightarrow> header_name_from_bytes L (ih_name x) = Some (ih_name x) \<and>
           header_value_from_str L (ih_value x)"
  shows "\<exists>h'. append_headers L h xs = Some h' \<and>
    (\<forall>n. hm_get_all L h' n = hm_get_all L h n @ map plain (header_values n xs))"
  using assms(2)
proof (induction xs arbitrary: h)
  case Nil
  then show ?case by (simp add: header_values_def)
next
  case (Cons x xs)
  have IH: "\<exists>h'. append_headers L g xs = Some h' \<and>
      (\<forall>n. hm_get_all L h' n = hm_get_all L g n @ map plain (header_values n xs))" for g
    by (rule Cons.IH) (use Cons.prems in auto)
  have "header_name_from_bytes L (ih_name x) = Some (ih_name x)" "header_value_from_str L (ih_value x)"
    using Cons.prems by auto
  with IH [of "hm_append L h (ih_name x) (plain (ih_value x))"] show ?case
    by (auto simp: header_values_def header_map_lawsD(3) [OF assms(1)])
qed

definition well_named :: "'h http_lib \<Rightarrow> 'h \<Rightarrow> bool" where
  "well_named L h \<longleftrightarrow> list_all (\<lambda>(n, _). header_name_from_bytes L n = Some n) (hm_iter L h)"

definition uri_reparses :: "'h http_lib \<Rightarrow> uri \<Rightarrow> bool" where
  "uri_reparses L u \<longleftrightarrow>
     (case uri_parse L (request_target (uri_path u) (uri_query u)) of
        None \<Rightarrow> False
      | Some u' \<Rightarrow> uri_path u' = uri_path u \<and> uri_query u' = uri_query u)"

lemma normalized_method_idem:
  "normalized_method L m = Some m' \<Longrightarrow> normalized_method L m' = Some m'"
  by (auto simp: normalized_method_def to_ascii_uppercase_def list_ex_iff ascii_upper_not_lower
      split: if_splits)

lemma inbound_request_Inr:
  assumes "inbound_request L m u h body c d sc = Some (Inr r)"
  obtains owned where "request_id L h = Inr (ir_request_id r)"
    and "select_credential L m h sc = Inr (ir_credential r)"
    and "connection_owned_headers L h = Inr owned"
    and "visible_headers L (map_option scp_csrf_header_name sc) owned h = Inr (ir_headers r)"
    and "normalized_method L m = Some (ir_method r)"
    and "r = \<lparr>ir_body = body, ir_cancellation = c, ir_credential = ir_credential r,
      ir_csrf_header_name = map_option scp_csrf_header_name sc, ir_disconnected = d,
      ir_headers = ir_headers r, ir_method = ir_method r, ir_path = uri_path u,
      ir_query = uri_query u, ir_request_id = ir_request_id r\<rparr>"
  using assms unfolding inbound_request_def
  by (auto simp: result_simps Let_def split: sum.splits prod.splits)

lemma restore_inbound_request_Inr:
  assumes "restore_inbound_request L req ctl = Some (Inr r)"
  obtains owned where "connection_owned_headers L (wreq_headers req) = Inr owned"
    and "visible_headers L (irc_csrf_header_name ctl) owned (wreq_headers req) = Inr (ir_headers r)"
    and "normalized_method L (wreq_method req) = Some (ir_method r)"
    and "r = \<lparr>ir_body = wreq_body req, ir_cancellation = irc_cancellation ctl,
      ir_credential = irc_credential ctl, ir_csrf_header_name = irc_csrf_header_name ctl,
      ir_disconnected = irc_disconnected ctl, ir_headers = ir_headers r, ir_method = ir_method r,
      ir_path = uri_path (wreq_uri req), ir_query = uri_query (wreq_uri req),
      ir_request_id = irc_request_id ctl\<rparr>"
  using assms unfolding restore_inbound_request_def
  by (auto simp: result_simps split: sum.splits)

lemma request_id_text: "request_id L h = Inr rid \<Longrightarrow> header_value_to_str L rid"
  by (auto simp: request_id_def result_simps split: if_splits option.splits)

lemma restore_visible:
  assumes "header_map_laws L"
    and other: "\<And>n. n \<noteq> ''x-request-id'' \<Longrightarrow>
      hm_get_all L (wreq_headers req) n = map plain (header_values n hs)"
    and clean: "\<And>x. x \<in> set hs \<Longrightarrow> \<not> header_blocked (irc_csrf_header_name ctl) [] (ih_name x) \<and>
           header_value_to_str L (ih_value x)"
  shows "\<exists>hs'. connection_owned_headers L (wreq_headers req) = Inr [] \<and>
    visible_headers L (irc_csrf_header_name ctl) [] (wreq_headers req) = Inr hs' \<and>
    (\<forall>n. header_values n hs' = header_values n hs)"
proof -
  let ?csrf = "irc_csrf_header_name ctl" and ?h = "wreq_headers req"
  have blocked: "header_values n hs = []" if "header_blocked ?csrf [] n" for n
    using clean that by (auto simp: header_values_def filter_empty_conv)
  have texts: "header_value_to_str L v" if "v \<in> set (header_values n hs)" for n v
    using clean that by (auto simp: header_values_def)
  have "hm_get_all L ?h ''connection'' = []"
    using other [of "''connection''"] blocked [of "''connection''"]
    by (simp add: header_blocked_def is_filtered_request_header_def is_static_hop_by_hop_header_def)
  then have "connection_owned_headers L ?h = Inr []" by (simp add: connection_owned_headers_def)
  moreover have nid: "\<not> header_blocked ?csrf [] n \<Longrightarrow> n \<noteq> ''x-request-id''" for n
    by (auto simp: header_blocked_def is_filtered_request_header_def)
  moreover obtain hs' where "visible_headers L ?csrf [] ?h = Inr hs'"
    using visible_total [OF assms(1), of ?csrf "[]" ?h] other nid texts by fastforce
  moreover from this have "header_values n hs' = header_values n hs" for n
    using visible_values [OF assms(1), of ?csrf "[]" ?h hs' n] blocked [of n] other [of n] nid [of n]
    by (cases "header_blocked ?csrf [] n") (simp_all add: comp_def)
  ultimately show ?thesis by blast
qed

lemma middleware_request_total:
  assumes "header_map_laws L" and "header_text_laws L" and "well_named L h" and "uri_reparses L u"
    and "inbound_request L m u h body c d sc = Some (Inr r)"
  obtains req ctl where "middleware_request L r v = Some (req, ctl)"
    and "wreq_method req = ir_method r" and "wreq_body req = body"
    and "uri_path (wreq_uri req) = ir_path r" and "uri_query (wreq_uri req) = ir_query r"
    and "\<And>n. n \<noteq> ''x-request-id'' \<Longrightarrow>
      hm_get_all L (wreq_headers req) n = map plain (header_values n (ir_headers r))"
    and "ctl = \<lparr>irc_cancellation = c, irc_credential = ir_credential r,
      irc_csrf_header_name = ir_csrf_header_name r, irc_disconnected = d,
      irc_request_id = ir_request_id r\<rparr>"
proof -
  from assms(5) obtain owned where rid: "request_id L h = Inr (ir_request_id r)"
    and vis: "visible_headers L (map_option scp_csrf_header_name sc) owned h = Inr (ir_headers r)"
    and full: "r = \<lparr>ir_body = body, ir_cancellation = c, ir_credential = ir_credential r,
      ir_csrf_header_name = map_option scp_csrf_header_name sc, ir_disconnected = d,
      ir_headers = ir_headers r, ir_method = ir_method r, ir_path = uri_path u,
      ir_query = uri_query u, ir_request_id = ir_request_id r\<rparr>"
    by (rule inbound_request_Inr)
  have r: "ir_body r = body" "ir_cancellation r = c" "ir_disconnected r = d"
      "ir_path r = uri_path u" "ir_query r = uri_query u"
    using arg_cong [OF full, of ir_body] arg_cong [OF full, of ir_cancellation]
      arg_cong [OF full, of ir_disconnected] arg_cong [OF full, of ir_path]
      arg_cong [OF full, of ir_query] by simp_all
  have ok: "header_name_from_bytes L (ih_name x) = Some (ih_name x) \<and> header_value_from_str L (ih_value x)"
    if mem: "x \<in> set (ir_headers r)" for x
  proof -
    obtain e where e: "e \<in> set (hm_iter L h)" "ih_name x = fst e" "to_str L (snd e) = Some (ih_value x)"
      by (rule list_all2_mem2 [OF vis [unfolded visible_headers_def traverse_Inr_iff] mem])
        (auto simp: result_simps)
    then have "header_value_from_str L (ih_value x)"
      using header_text_lawsD(3) [OF assms(2)] by (auto simp: result_simps)
    with e assms(3) show ?thesis by (auto simp: well_named_def list_all_iff)
  qed
  obtain h' where h': "append_headers L (hm_new L) (ir_headers r) = Some h'"
    "\<And>n. hm_get_all L h' n = map plain (header_values n (ir_headers r))"
    using append_headers_get [OF assms(1) ok, of "ir_headers r" "hm_new L"]
    by (auto simp: header_map_lawsD(1) [OF assms(1)])
  obtain u' where u': "uri_parse L (request_target (uri_path u) (uri_query u)) = Some u'"
    "uri_path u' = uri_path u" "uri_query u' = uri_query u"
    using assms(4) by (auto simp: uri_reparses_def split: option.splits)
  have "header_value_from_str L (ir_request_id r)"
    using request_id_text [OF rid] header_text_lawsD(3) [OF assms(2)] by blast
  then have "middleware_request L r v = Some
     (\<lparr>wreq_method = ir_method r, wreq_uri = u', wreq_version = v,
       wreq_headers = hm_insert L h' ''x-request-id'' (plain (ir_request_id r)), wreq_body = body\<rparr>,
      \<lparr>irc_cancellation = c, irc_credential = ir_credential r,
       irc_csrf_header_name = ir_csrf_header_name r, irc_disconnected = d,
       irc_request_id = ir_request_id r\<rparr>)"
    by (simp add: middleware_request_def r u' h')
  then show thesis
    by (rule that) (simp_all add: r u' h' header_map_lawsD(2) [OF assms(1)])
qed

section \<open>Properties\<close>

text \<open>Formatting a request identity never runs out of its 26-byte buffer: for every 64-bit
  counter value the header is the prefix \<open>lenso-\<close> followed by the decimal digits of the value,
  from which the value can be read back.\<close>

theorem request_id_header_is_decimal:
  assumes "header_text_laws L"
  shows "\<exists>text. request_id_header_value L v = Some (plain text) \<and>
    text = ''lenso-'' @ decimal (unat v) \<and> from_decimal (drop 6 text) = unat v \<and> length text \<le> 26"
  using request_id_header_value_eq [OF assms, of v] length_decimal_u64 [of v]
  by (simp add: from_decimal_decimal)

theorem request_id_header_is_decimal_witness:
  "\<exists>text. request_id_header_value list_http (- 1) = Some (plain text) \<and>
     from_decimal (drop 6 text) = 18446744073709551615 \<and> length text \<le> 26"
proof -
  have "unat (- 1 :: 64 word) = 18446744073709551615" by (simp add: unsigned_minus_1_eq_mask mask_eq_exp_minus_1)
  then show ?thesis
    using request_id_header_is_decimal [OF list_http_header_text_laws, of "- 1"] by auto
qed

text \<open>The identities handed out by successive requests from one sequence.\<close>

fun issued_ids :: "'h http_lib \<Rightarrow> nat \<Rightarrow> RequestIdSequence \<Rightarrow> header_value option list" where
  "issued_ids L 0 next = []"
| "issued_ids L (Suc n) next =
     (case sequence_next next of (value, next') \<Rightarrow> request_id_header_value L value # issued_ids L n next')"

lemma issued_ids_eq:
  "issued_ids L n s = map (\<lambda>i. request_id_header_value L (s + of_nat i)) [0..<n]"
proof (induction n arbitrary: s)
  case (Suc n)
  have "[0..<Suc n] = 0 # map Suc [0..<n]" by (simp add: map_Suc_upt upt_conv_Cons)
  then show ?case using Suc by (simp add: sequence_next_def comp_def ac_simps)
qed simp

text \<open>Until its 64-bit counter wraps, a sequence hands out pairwise distinct request
  identities, wherever it starts.\<close>

theorem issued_request_ids_distinct:
  assumes "header_text_laws L" and "n \<le> 2 ^ 64"
  shows "distinct (issued_ids L n s) \<and> None \<notin> set (issued_ids L n s)"
proof -
  have inj: "i = j" if ij: "i < n" "j < n"
    and eq: "request_id_header_value L (s + of_nat i) = request_id_header_value L (s + of_nat j)" for i j
  proof -
    have "decimal (unat (s + of_nat i)) = decimal (unat (s + of_nat j))"
      using eq by (simp add: request_id_header_value_eq [OF assms(1)])
    then have "unat (s + of_nat i) = unat (s + of_nat j)" by (metis from_decimal_decimal)
    then have "(of_nat i :: 64 word) = of_nat j" by (simp add: word_unat_eq_iff [symmetric])
    then have "unat (of_nat i :: 64 word) = unat (of_nat j :: 64 word)" by simp
    moreover have "i < 2 ^ 64" "j < 2 ^ 64" using ij assms(2) by auto
    ultimately show "i = j" by (simp add: unat_of_nat)
  qed
  show ?thesis
    by (auto simp: issued_ids_eq distinct_map inj_on_def inj request_id_header_value_eq [OF assms(1)])
qed

theorem issued_request_ids_distinct_witness:
  "distinct (issued_ids list_http 5 (- 2)) \<and> None \<notin> set (issued_ids list_http 5 (- 2))"
  using issued_request_ids_distinct [OF list_http_header_text_laws, of 5 "- 2"] by simp

text \<open>C30. Of an accepted request an endpoint sees, for every header name, exactly the values the
  client sent in their order, unless the header is a credential, belongs to the connection or the
  transport, is the CSRF header of the cookie policy or was named by a \<open>Connection\<close> header; of
  those it sees none.\<close>

theorem inbound_headers_exact:
  assumes "header_map_laws L" and "inbound_request L m u h body c d sc = Some (Inr r)"
  shows "\<exists>owned. connection_owned_headers L h = Inr owned \<and>
    (\<forall>n. header_values n (ir_headers r) =
       (if n \<in> {''authorization'', ''cookie'', ''connection'', ''te'', ''trailer'', ''transfer-encoding'',
                ''upgrade'', ''keep-alive'', ''proxy-connection'', ''content-length'', ''host'',
                ''x-request-id''}
           \<or> map_option scp_csrf_header_name sc = Some n \<or> n \<in> set owned
        then [] else map hv_bytes (hm_get_all L h n)))"
proof -
  from assms(2) obtain owned where o: "connection_owned_headers L h = Inr owned"
    and v: "visible_headers L (map_option scp_csrf_header_name sc) owned h = Inr (ir_headers r)"
    by (rule inbound_request_Inr)
  have "header_blocked (map_option scp_csrf_header_name sc) owned n \<longleftrightarrow>
      n \<in> {''authorization'', ''cookie'', ''connection'', ''te'', ''trailer'', ''transfer-encoding'',
           ''upgrade'', ''keep-alive'', ''proxy-connection'', ''content-length'', ''host'', ''x-request-id''}
        \<or> map_option scp_csrf_header_name sc = Some n \<or> n \<in> set owned" for n
    by (cases sc) (auto simp: header_blocked_def is_filtered_request_header_def
        is_static_hop_by_hop_header_def)
  then show ?thesis
    using o visible_values [OF assms(1) v] by (intro exI [of _ owned]) simp
qed

abbreviation sample_uri :: uri where
  "sample_uri \<equiv> \<lparr>uri_scheme_str = None, uri_authority = None, uri_path_and_query = Some ''/a?b'',
     uri_path = ''/a'', uri_query = Some ''b''\<rparr>"

abbreviation sample_request_headers :: "(header_name \<times> header_value) list" where
  "sample_request_headers \<equiv> [(''host'', plain ''h''), (''connection'', plain ''close, X-Hop''),
     (''x-hop'', plain ''secret''), (''accept'', plain ''text/html''), (''x-request-id'', plain ''lenso-7'')]"

lemma sample_inbound:
  "inbound_request list_http ''get'' sample_uri sample_request_headers [] 1 2 None =
     Some (Inr \<lparr>ir_body = [], ir_cancellation = 1, ir_credential = None, ir_csrf_header_name = None,
       ir_disconnected = 2, ir_headers = [\<lparr>ih_name = ''accept'', ih_value = ''text/html''\<rparr>],
       ir_method = ''GET'', ir_path = ''/a'', ir_query = Some ''b'', ir_request_id = ''lenso-7''\<rparr>)"
  by code_simp

theorem inbound_headers_exact_witness:
  "\<exists>r owned. inbound_request list_http ''get'' sample_uri sample_request_headers [] 1 2 None = Some (Inr r) \<and>
     connection_owned_headers list_http sample_request_headers = Inr owned \<and>
     header_values ''host'' (ir_headers r) = []"
  using sample_inbound inbound_headers_exact [OF list_http_header_map_laws sample_inbound] by force

text \<open>C3. Whatever global middleware does to the request it is given, the request that is
  dispatched afterwards keeps the credential, the request identity, the cancellation and the
  disconnect channel the ingress established, and no credential, transport or CSRF header
  appears in it.\<close>

theorem middleware_cannot_forge:
  assumes "middleware_request L r v = Some (req, ctl)"
    and "restore_inbound_request L changed ctl = Some (Inr r')"
  shows "ir_credential r' = ir_credential r \<and> ir_request_id r' = ir_request_id r \<and>
    ir_cancellation r' = ir_cancellation r \<and> ir_disconnected r' = ir_disconnected r \<and>
    list_all (\<lambda>x. \<not> is_filtered_request_header (ih_name x) \<and>
      ir_csrf_header_name r \<noteq> Some (ih_name x)) (ir_headers r')"
proof -
  from assms(2) obtain owned where
    vis: "visible_headers L (irc_csrf_header_name ctl) owned (wreq_headers changed) = Inr (ir_headers r')"
    and full: "r' = \<lparr>ir_body = wreq_body changed, ir_cancellation = irc_cancellation ctl,
      ir_credential = irc_credential ctl, ir_csrf_header_name = irc_csrf_header_name ctl,
      ir_disconnected = irc_disconnected ctl, ir_headers = ir_headers r', ir_method = ir_method r',
      ir_path = uri_path (wreq_uri changed), ir_query = uri_query (wreq_uri changed),
      ir_request_id = irc_request_id ctl\<rparr>"
    by (rule restore_inbound_request_Inr)
  have ctl: "irc_credential ctl = ir_credential r" "irc_request_id ctl = ir_request_id r"
    "irc_cancellation ctl = ir_cancellation r" "irc_disconnected ctl = ir_disconnected r"
    "irc_csrf_header_name ctl = ir_csrf_header_name r"
    using assms(1) by (auto simp: middleware_request_def split: option.splits if_splits)
  have "list_all (\<lambda>x. \<not> is_filtered_request_header (ih_name x) \<and>
      ir_csrf_header_name r \<noteq> Some (ih_name x)) (ir_headers r')"
    unfolding list_all_iff
  proof
    fix x assume "x \<in> set (ir_headers r')"
    from visible_not_blocked [OF vis this] ctl(5)
    show "\<not> is_filtered_request_header (ih_name x) \<and> ir_csrf_header_name r \<noteq> Some (ih_name x)"
      by (auto simp: header_blocked_def)
  qed
  then show ?thesis
    using arg_cong [OF full, of ir_credential] arg_cong [OF full, of ir_request_id]
      arg_cong [OF full, of ir_cancellation] arg_cong [OF full, of ir_disconnected] ctl by simp
qed

abbreviation sample_normalized :: InboundRequest where
  "sample_normalized \<equiv> \<lparr>ir_body = [], ir_cancellation = 1,
     ir_credential = Some \<lparr>ce_scheme = ''session'', ce_value = ''s''\<rparr>, ir_csrf_header_name = None,
     ir_disconnected = 2, ir_headers = [\<lparr>ih_name = ''accept'', ih_value = ''text/html''\<rparr>],
     ir_method = ''GET'', ir_path = ''/a'', ir_query = Some ''b'', ir_request_id = ''lenso-7''\<rparr>"

theorem middleware_cannot_forge_witness:
  "\<exists>req ctl r'. middleware_request list_http sample_normalized Http11 = Some (req, ctl) \<and>
     restore_inbound_request list_http
       (req\<lparr>wreq_headers := hm_insert list_http (wreq_headers req) ''cookie'' (plain ''evil=1'')\<rparr>) ctl =
       Some (Inr r') \<and> ir_request_id r' = ''lenso-7'' \<and> ir_credential r' = ir_credential sample_normalized"
proof -
  let ?mr = "the (middleware_request list_http sample_normalized Http11)"
  let ?ch = "(fst ?mr)\<lparr>wreq_headers := hm_insert list_http (wreq_headers (fst ?mr)) ''cookie'' (plain ''evil=1'')\<rparr>"
  have "middleware_request list_http sample_normalized Http11 \<noteq> None" by code_simp
  then have m: "middleware_request list_http sample_normalized Http11 = Some (fst ?mr, snd ?mr)" by auto
  have "case restore_inbound_request list_http ?ch (snd ?mr) of Some (Inr r) \<Rightarrow> True | _ \<Rightarrow> False"
    by code_simp
  then obtain r' where r: "restore_inbound_request list_http ?ch (snd ?mr) = Some (Inr r')"
    by (auto split: option.splits sum.splits)
  have "ir_request_id r' = ''lenso-7''" "ir_credential r' = ir_credential sample_normalized"
    using middleware_cannot_forge [OF m r] by simp_all
  with m r show ?thesis by blast
qed

lemma inbound_headers_clean:
  assumes "visible_headers L csrf owned h = Inr hs" and "x \<in> set hs"
  shows "\<not> header_blocked csrf [] (ih_name x)" and "header_value_to_str L (ih_value x)"
proof -
  show "\<not> header_blocked csrf [] (ih_name x)"
    using visible_not_blocked [OF assms] by (auto simp: header_blocked_def)
  show "header_value_to_str L (ih_value x)"
    by (rule list_all2_mem2 [OF assms(1) [unfolded visible_headers_def traverse_Inr_iff] assms(2)])
      (auto simp: result_simps)
qed

text \<open>Middleware that leaves a request alone is invisible: turning an accepted request into
  the middleware request cannot panic, and turning it back yields the same request with the same
  values of every header name.\<close>

theorem middleware_round_trip:
  assumes "header_map_laws L" and "header_text_laws L" and "well_named L h" and "uri_reparses L u"
    and "inbound_request L m u h body c d sc = Some (Inr r)"
  shows "\<exists>req ctl r'. middleware_request L r v = Some (req, ctl) \<and>
    restore_inbound_request L req ctl = Some (Inr r') \<and>
    r'\<lparr>ir_headers := []\<rparr> = r\<lparr>ir_headers := []\<rparr> \<and>
    (\<forall>n. header_values n (ir_headers r') = header_values n (ir_headers r))"
proof -
  obtain owned where
    vis: "visible_headers L (map_option scp_csrf_header_name sc) owned h = Inr (ir_headers r)"
    and nm: "normalized_method L m = Some (ir_method r)"
    and full: "r = \<lparr>ir_body = body, ir_cancellation = c, ir_credential = ir_credential r,
      ir_csrf_header_name = map_option scp_csrf_header_name sc, ir_disconnected = d,
      ir_headers = ir_headers r, ir_method = ir_method r, ir_path = uri_path u,
      ir_query = uri_query u, ir_request_id = ir_request_id r\<rparr>"
    using assms(5) by (rule inbound_request_Inr)
  obtain req ctl where mr: "middleware_request L r v = Some (req, ctl)"
    and req: "wreq_method req = ir_method r" "wreq_body req = body"
      "uri_path (wreq_uri req) = ir_path r" "uri_query (wreq_uri req) = ir_query r"
      "\<And>n. n \<noteq> ''x-request-id'' \<Longrightarrow>
        hm_get_all L (wreq_headers req) n = map plain (header_values n (ir_headers r))"
    and ctl: "ctl = \<lparr>irc_cancellation = c, irc_credential = ir_credential r,
      irc_csrf_header_name = ir_csrf_header_name r, irc_disconnected = d,
      irc_request_id = ir_request_id r\<rparr>"
    using middleware_request_total [OF assms] by blast
  have csrf: "irc_csrf_header_name ctl = map_option scp_csrf_header_name sc"
    using arg_cong [OF full, of ir_csrf_header_name] by (simp add: ctl)
  have clean: "\<not> header_blocked (irc_csrf_header_name ctl) [] (ih_name x) \<and> header_value_to_str L (ih_value x)"
    if "x \<in> set (ir_headers r)" for x
    using inbound_headers_clean [OF vis that] by (simp add: csrf)
  obtain hs where hs: "connection_owned_headers L (wreq_headers req) = Inr []"
    "visible_headers L (irc_csrf_header_name ctl) [] (wreq_headers req) = Inr hs"
    "\<And>n. header_values n hs = header_values n (ir_headers r)"
    using restore_visible [OF assms(1) req(5) clean] by blast
  have nm': "normalized_method L (wreq_method req) = Some (ir_method r)"
    using normalized_method_idem [OF nm] by (simp add: req)
  have fields: "ir_body r = body" "ir_cancellation r = c" "ir_disconnected r = d"
    using arg_cong [OF full, of ir_body] arg_cong [OF full, of ir_cancellation]
      arg_cong [OF full, of ir_disconnected] by simp_all
  have "restore_inbound_request L req ctl = Some (Inr (r\<lparr>ir_headers := hs\<rparr>))"
    unfolding restore_inbound_request_def hs nm'
    by (simp add: hs nm') (rule InboundRequest.equality, simp_all add: req ctl fields)
  moreover have "(r\<lparr>ir_headers := hs\<rparr>)\<lparr>ir_headers := []\<rparr> = r\<lparr>ir_headers := []\<rparr>" by simp
  moreover have "header_values n (ir_headers (r\<lparr>ir_headers := hs\<rparr>)) = header_values n (ir_headers r)" for n
    by (simp add: hs(3))
  ultimately show ?thesis using mr by blast
qed

theorem middleware_round_trip_witness:
  "\<exists>r req ctl r'. inbound_request list_http ''get'' sample_uri sample_request_headers [] 1 2 None = Some (Inr r) \<and>
     middleware_request list_http r Http11 = Some (req, ctl) \<and>
     restore_inbound_request list_http req ctl = Some (Inr r') \<and> r'\<lparr>ir_headers := []\<rparr> = r\<lparr>ir_headers := []\<rparr>"
proof -
  have "well_named list_http sample_request_headers" by code_simp
  moreover have "uri_reparses list_http sample_uri" by code_simp
  ultimately show ?thesis
    using middleware_round_trip [OF list_http_header_map_laws list_http_header_text_laws _ _ sample_inbound]
      sample_inbound by blast
qed

text \<open>The CSRF exemption cannot be reached by the spelling of the method: if the spelling the
  client used counts as safe, so does the normalized method the endpoint is dispatched on.\<close>

theorem csrf_exemption_survives_normalization:
  assumes "safe_method m" and "normalized_method L m = Some m'"
  shows "safe_method m'"
proof (cases "list_ex is_ascii_lowercase m")
  case False
  then show ?thesis using assms by (simp add: normalized_method_def)
next
  case True
  then have m': "m' = to_ascii_uppercase m"
    using assms(2) by (simp add: normalized_method_def split: if_splits)
  have fixed: "list_ex is_ascii_lowercase x \<Longrightarrow>
      x \<noteq> ''GET'' \<and> x \<noteq> ''HEAD'' \<and> x \<noteq> ''OPTIONS'' \<and> x \<noteq> ''TRACE''" for x
    by (auto simp: is_ascii_lowercase_def byte_def)
  have "eq_ignore_ascii_case m ''QUERY''"
    using assms(1) fixed [OF True] by (auto simp: safe_method_def)
  then show ?thesis
    by (simp add: m' safe_method_def eq_ignore_ascii_case_def lower_upper)
qed

theorem csrf_exemption_survives_normalization_witness:
  "normalized_method list_http ''query'' = Some ''QUERY'' \<and> safe_method ''QUERY''"
proof -
  have a: "safe_method ''query''" by code_simp
  have b: "normalized_method list_http ''query'' = Some ''QUERY''" by code_simp
  from b csrf_exemption_survives_normalization [OF a b] show ?thesis by blast
qed

end
