(* ===== verification/Handshake.thy ===== *)
theory Handshake
  imports Runtime
begin

text \<open>
  The HTTP/1.1 WebSocket handshake (\<open>websocket_handshake.rs\<close>). The base64 engine and SHA-1 are
  third-party code: they are the fields of a record every definition here takes.
\<close>

record crypto_lib =
  b64_decode :: "string \<Rightarrow> bytes option"
  b64_encode :: "bytes \<Rightarrow> string"
  sha1_digest :: "bytes \<Rightarrow> bytes"

record Handshake =
  hs_accept :: string
  hs_protocols :: "string list"

text \<open>\<open>single\<close>: a value that is no text is reported before a duplicate; both are errors.\<close>

definition single :: "'h http_lib \<Rightarrow> 'h \<Rightarrow> header_name \<Rightarrow> unit + string option" where
  "single L headers name =
     (case hm_get_all L headers name of
        [] \<Rightarrow> Inr None
      | value # rest \<Rightarrow> try_in (ok_or (to_str L value) ()) (\<lambda>v.
          if rest \<noteq> [] then Inl () else Inr (Some v)))"

definition token :: "string \<Rightarrow> bool" where
  "token value \<longleftrightarrow> value \<noteq> [] \<and> length value \<le> 128 \<and>
     list_all (\<lambda>b. is_ascii_alphanumeric b \<or>
       b \<in> set [CHR ''!'', CHR ''#'', CHR ''$'', CHR ''%'', CHR ''&'', CHR 0x27, CHR ''*'', CHR ''+'',
                CHR ''-'', CHR ''.'', CHR ''^'', CHR ''_'', CHR 0x60, CHR ''|'', CHR ''~'']) value"

definition has_earlier_duplicate :: "'a list \<Rightarrow> bool" where
  "has_earlier_duplicate xs \<longleftrightarrow> list_ex (\<lambda>i. xs ! i \<in> set (take i xs)) [0..<length xs]"

definition offers_upgrade :: "string \<Rightarrow> bool" where
  "offers_upgrade value \<longleftrightarrow>
     list_ex (\<lambda>t. eq_ignore_ascii_case (trim t) ''upgrade'') (split_on (CHR '','') value)"

definition handshake_parse ::
  "crypto_lib \<Rightarrow> 'h http_lib \<Rightarrow> 'h \<Rightarrow> string list \<Rightarrow> unit + Handshake" where
  "handshake_parse C L headers allowed_origins =
     try_in (single L headers ''upgrade'') (\<lambda>upgrade.
     if \<not> (case upgrade of None \<Rightarrow> False | Some v \<Rightarrow> eq_ignore_ascii_case v ''websocket'') then Inl ()
     else
     try_in (single L headers ''sec-websocket-version'') (\<lambda>version.
     if version \<noteq> Some ''13'' then Inl ()
     else
     try_in (traverse (\<lambda>v. ok_or (to_str L v) ()) (hm_get_all L headers ''connection'')) (\<lambda>connection.
     if \<not> list_ex offers_upgrade connection then Inl ()
     else
     try_in (single L headers ''origin'') (\<lambda>origin.
     if (case origin of None \<Rightarrow> False | Some v \<Rightarrow> \<not> list_ex (\<lambda>allowed. allowed = v) allowed_origins)
     then Inl ()
     else
     try_in (single L headers ''sec-websocket-key'') (\<lambda>key.
     try_in (ok_or key ()) (\<lambda>key.
     try_in (ok_or (b64_decode C key) ()) (\<lambda>decoded.
     if length decoded \<noteq> 16 \<or> b64_encode C decoded \<noteq> key then Inl ()
     else
     try_in (single L headers ''sec-websocket-protocol'') (\<lambda>protocol.
     let protocols = (case protocol of None \<Rightarrow> [] | Some v \<Rightarrow> map trim (split_on (CHR '','') v)) in
     if length protocols > 16 \<or> list_ex (\<lambda>v. \<not> token v) protocols \<or> has_earlier_duplicate protocols
     then Inl ()
     else Inr \<lparr>hs_accept = b64_encode C
                 (sha1_digest C (key @ ''258EAFA5-E914-47DA-95CA-C5AB0DC85B11'')),
               hs_protocols = protocols\<rparr>))))))))"

lemma has_earlier_duplicate_iff: "has_earlier_duplicate xs \<longleftrightarrow> \<not> distinct xs"
proof -
  have mem: "x \<in> set (take i xs) \<longleftrightarrow> (\<exists>j < i. xs ! j = x)" if "i < length xs" for i x
    using that by (auto simp: in_set_conv_nth)
  have "has_earlier_duplicate xs \<longleftrightarrow> (\<exists>i < length xs. xs ! i \<in> set (take i xs))"
    by (auto simp: has_earlier_duplicate_def list_ex_iff)
  also have "\<dots> \<longleftrightarrow> (\<exists>i < length xs. \<exists>j < i. xs ! j = xs ! i)" using mem by blast
  also have "\<dots> \<longleftrightarrow> \<not> distinct xs"
    unfolding distinct_conv_nth by (metis linorder_neqE_nat order.strict_trans order_less_irrefl)
  finally show ?thesis .
qed

lemma single_Some_iff:
  "single L headers name = Inr (Some v) \<longleftrightarrow>
     (\<exists>x. hm_get_all L headers name = [x] \<and> to_str L x = Some v)"
  by (auto simp: single_def result_simps split: list.splits if_splits)

lemma single_None_iff: "single L headers name = Inr None \<longleftrightarrow> hm_get_all L headers name = []"
  by (auto simp: single_def result_simps split: list.splits if_splits)

lemma handshake_parse_Inr:
  assumes "handshake_parse C L headers allowed_origins = Inr h"
  shows "(\<exists>x key. hm_get_all L headers ''sec-websocket-key'' = [x] \<and> to_str L x = Some key \<and>
      (\<exists>raw. b64_decode C key = Some raw \<and> length raw = 16 \<and> b64_encode C raw = key) \<and>
      hs_accept h = b64_encode C (sha1_digest C (key @ ''258EAFA5-E914-47DA-95CA-C5AB0DC85B11''))) \<and>
    (hm_get_all L headers ''origin'' = [] \<or>
      (\<exists>x origin. hm_get_all L headers ''origin'' = [x] \<and> to_str L x = Some origin \<and>
         origin \<in> set allowed_origins)) \<and>
    (\<exists>x. hm_get_all L headers ''sec-websocket-version'' = [x] \<and> to_str L x = Some ''13'') \<and>
    length (hs_protocols h) \<le> 16 \<and> distinct (hs_protocols h) \<and> list_all token (hs_protocols h)"
proof -
  from assms obtain origin key raw where
    v: "single L headers ''sec-websocket-version'' = Inr (Some ''13'')"
    and o: "single L headers ''origin'' = Inr origin"
      "\<not> (case origin of None \<Rightarrow> False | Some v \<Rightarrow> \<not> list_ex (\<lambda>allowed. allowed = v) allowed_origins)"
    and k: "single L headers ''sec-websocket-key'' = Inr (Some key)" "b64_decode C key = Some raw"
      "length raw = 16" "b64_encode C raw = key"
    and h: "hs_accept h = b64_encode C (sha1_digest C (key @ ''258EAFA5-E914-47DA-95CA-C5AB0DC85B11''))"
    and p: "length (hs_protocols h) \<le> 16" "\<not> list_ex (\<lambda>v. \<not> token v) (hs_protocols h)"
      "\<not> has_earlier_duplicate (hs_protocols h)"
    unfolding handshake_parse_def
    by (auto simp: result_simps Let_def split: if_splits)
  have "hm_get_all L headers ''origin'' = [] \<or>
      (\<exists>x origin. hm_get_all L headers ''origin'' = [x] \<and> to_str L x = Some origin \<and>
         origin \<in> set allowed_origins)"
    using o by (cases origin) (auto simp: single_None_iff single_Some_iff list_ex_iff)
  moreover have "list_all token (hs_protocols h)"
    using p(2) by (auto simp: list_ex_iff list_all_iff)
  ultimately show ?thesis
    using v k h p(1,3) by (auto simp: single_Some_iff has_earlier_duplicate_iff)
qed

lemma token_visible: "token v \<Longrightarrow> list_all visible_ascii v"
  unfolding token_def
  by (auto simp: list_all_iff visible_ascii_def is_ascii_alphanumeric_def is_ascii_uppercase_def
      is_ascii_lowercase_def is_ascii_digit_def byte_def)

text \<open>A handshake is accepted only if the request carries exactly one key that is the
  canonical encoding of sixteen bytes, any browser origin is on the allow list, and the offered
  subprotocols are at most sixteen distinct tokens; the accept key is then the digest the
  protocol prescribes for that very key.\<close>

theorem handshake_accepted:
  assumes "handshake_parse C L headers allowed_origins = Inr h"
  shows "(\<exists>x key. hm_get_all L headers ''sec-websocket-key'' = [x] \<and> to_str L x = Some key \<and>
      (\<exists>raw. b64_decode C key = Some raw \<and> length raw = 16 \<and> b64_encode C raw = key) \<and>
      hs_accept h = b64_encode C (sha1_digest C (key @ ''258EAFA5-E914-47DA-95CA-C5AB0DC85B11''))) \<and>
    (hm_get_all L headers ''origin'' = [] \<or>
      (\<exists>x origin. hm_get_all L headers ''origin'' = [x] \<and> to_str L x = Some origin \<and>
         origin \<in> set allowed_origins)) \<and>
    (\<exists>x. hm_get_all L headers ''sec-websocket-version'' = [x] \<and> to_str L x = Some ''13'') \<and>
    length (hs_protocols h) \<le> 16 \<and> distinct (hs_protocols h) \<and> list_all token (hs_protocols h)"
  using assms by (rule handshake_parse_Inr)

abbreviation sample_crypto :: crypto_lib where
  "sample_crypto \<equiv> \<lparr>b64_decode = (\<lambda>s. if length s = 18 then Some (drop 2 s) else None),
     b64_encode = (\<lambda>b. ''b:'' @ b), sha1_digest = (\<lambda>b. take 20 b)\<rparr>"

abbreviation sample_upgrade :: "(header_name \<times> header_value) list" where
  "sample_upgrade \<equiv> [(''upgrade'', plain ''websocket''), (''connection'', plain ''keep-alive, Upgrade''),
     (''sec-websocket-version'', plain ''13''), (''sec-websocket-key'', plain ''b:0123456789abcdef''),
     (''origin'', plain ''https://client.invalid''), (''sec-websocket-protocol'', plain ''chat, superchat'')]"

theorem handshake_accepted_witness:
  "\<exists>h. handshake_parse sample_crypto list_http sample_upgrade [''https://client.invalid''] = Inr h \<and>
     hs_protocols h = [''chat'', ''superchat''] \<and> distinct (hs_protocols h)"
proof -
  have "handshake_parse sample_crypto list_http sample_upgrade [''https://client.invalid''] =
      Inr \<lparr>hs_accept = ''b:b:0123456789abcdef25'', hs_protocols = [''chat'', ''superchat'']\<rparr>"
    by code_simp
  from this handshake_accepted [OF this] show ?thesis by auto
qed

end
