(* ===== verification/Middleware.thy ===== *)
theory Middleware
  imports Runtime
begin

text \<open>
  The route manifest that decides whether two replicas may share a port (\<open>manifest.rs\<close>) and the
  global middleware chain (\<open>middleware.rs\<close>). A middleware layer is a trait object: a record of
  functions over a world \<open>'w\<close> that stands for whatever shared state the layers keep. A step
  that fails, panics or never completes is \<open>Inl\<close>; all end the chain in the same way.
\<close>

section \<open>Route manifest\<close>

datatype WebIngressRoute =
  WebIngressRoute (wir_method: string) (wir_path: string) (wir_route_id: string)

text \<open>The derived order compares the fields in their order.\<close>

instantiation WebIngressRoute :: linorder
begin

definition less_eq_WebIngressRoute :: "WebIngressRoute \<Rightarrow> WebIngressRoute \<Rightarrow> bool" where
  "less_eq_WebIngressRoute a b \<longleftrightarrow>
     wir_method a < wir_method b \<or> wir_method a = wir_method b \<and>
       (wir_path a < wir_path b \<or> wir_path a = wir_path b \<and> wir_route_id a \<le> wir_route_id b)"

definition less_WebIngressRoute :: "WebIngressRoute \<Rightarrow> WebIngressRoute \<Rightarrow> bool" where
  "less_WebIngressRoute a b \<longleftrightarrow> a \<le> b \<and> \<not> b \<le> a"

instance
proof
  fix a b c :: WebIngressRoute
  show "(a < b) = (a \<le> b \<and> \<not> b \<le> a)" by (simp add: less_WebIngressRoute_def)
  show "a \<le> a" by (simp add: less_eq_WebIngressRoute_def)
  show "a \<le> b \<Longrightarrow> b \<le> c \<Longrightarrow> a \<le> c" by (auto simp: less_eq_WebIngressRoute_def)
  show "a \<le> b \<Longrightarrow> b \<le> a \<Longrightarrow> a = b"
    by (cases a; cases b) (auto simp: less_eq_WebIngressRoute_def)
  show "a \<le> b \<or> b \<le> a" by (auto simp: less_eq_WebIngressRoute_def)
qed

end

datatype WebIngressRouteManifest = WebIngressRouteManifest (manifest_routes: "WebIngressRoute list")

datatype WebIngressReplicaMismatch = WebIngressReplicaMismatch

definition manifest_new :: "WebIngressRoute list \<Rightarrow> WebIngressRouteManifest" where
  "manifest_new routes = WebIngressRouteManifest (sort routes)"

definition ensure_equivalent ::
  "WebIngressRouteManifest \<Rightarrow> WebIngressRouteManifest \<Rightarrow> WebIngressReplicaMismatch + unit" where
  "ensure_equivalent m replica = (if m = replica then Inr () else Inl WebIngressReplicaMismatch)"

section \<open>Middleware chain\<close>

text \<open>Why a step of the chain does not deliver a value; a \<open>Suspended\<close> step never completes.\<close>

datatype unwind = Failed RuntimeFailure | Panicked | Suspended

datatype 'res WebIngressMiddlewareOutcome = Continue | Respond 'res

record ('w, 'req, 'res) WebIngressMiddleware =
  wim_identity :: string
  wim_before :: "'w \<Rightarrow> 'req \<Rightarrow> 'w \<times> 'req \<times> (unwind + 'res WebIngressMiddlewareOutcome)"
  wim_after :: "'w \<Rightarrow> 'req \<Rightarrow> 'res \<Rightarrow> 'w \<times> 'res \<times> (unwind + unit)"

definition identities :: "('w, 'req, 'res) WebIngressMiddleware list \<Rightarrow> string list" where
  "identities middleware = map wim_identity middleware"

definition validate_middleware :: "('w, 'req, 'res) WebIngressMiddleware list \<Rightarrow> string + unit" where
  "validate_middleware middleware =
     (if list_ex (\<lambda>m. trim (wim_identity m) = []) middleware
      then Inl ''Web Ingress middleware identity must not be empty'' else Inr ())"

text \<open>The first loop of \<open>run\<close>: it counts the layers entered and stops at the first response.\<close>

fun run_before ::
  "('w, 'req, 'res) WebIngressMiddleware list \<Rightarrow> nat \<Rightarrow> 'w \<Rightarrow> 'req \<Rightarrow>
   'w \<times> 'req \<times> (unwind + nat \<times> 'res option)" where
  "run_before [] entered w req = (w, req, Inr (entered, None))"
| "run_before (layer # layers) entered w req =
     (case wim_before layer w req of
        (w', req', Inl u) \<Rightarrow> (w', req', Inl u)
      | (w', req', Inr Continue) \<Rightarrow> run_before layers (entered + 1) w' req'
      | (w', req', Inr (Respond value)) \<Rightarrow> (w', req', Inr (entered + 1, Some value)))"

text \<open>The last loop of \<open>run\<close>, over the entered layers in reverse.\<close>

fun run_after ::
  "('w, 'req, 'res) WebIngressMiddleware list \<Rightarrow> 'w \<Rightarrow> 'req \<Rightarrow> 'res \<Rightarrow> 'w \<times> (unwind + 'res)" where
  "run_after [] w req response = (w, Inr response)"
| "run_after (layer # layers) w req response =
     (case wim_after layer w req response of
        (w', _, Inl u) \<Rightarrow> (w', Inl u)
      | (w', response', Inr _) \<Rightarrow> run_after layers w' req response')"

text \<open>\<open>run\<close>; \<open>dispatch\<close> is the route dispatch, which may panic but does not fail.\<close>

definition run_middleware ::
  "('w, 'req, 'res) WebIngressMiddleware list \<Rightarrow> ('w \<Rightarrow> 'req \<Rightarrow> 'w \<times> (unwind + 'res)) \<Rightarrow>
   'w \<Rightarrow> 'req \<Rightarrow> 'w \<times> (unwind + 'res)" where
  "run_middleware middleware dispatch w request =
     (case run_before middleware 0 w request of
        (w1, _, Inl u) \<Rightarrow> (w1, Inl u)
      | (w1, request', Inr (entered, response)) \<Rightarrow>
          (case (case response of Some r \<Rightarrow> (w1, Inr r) | None \<Rightarrow> dispatch w1 request') of
             (w2, Inl u) \<Rightarrow> (w2, Inl u)
           | (w2, Inr r) \<Rightarrow> run_after (rev (take entered middleware)) w2 request' r))"

section \<open>Specification: nested layers\<close>

text \<open>
  Each layer wraps the rest of the chain. A response of the inner chain passes through the
  layer's \<open>after_response\<close>; a failure does not. The request the layers share comes out with
  every change the inner layers made.
\<close>

fun onion ::
  "('w, 'req, 'res) WebIngressMiddleware list \<Rightarrow> ('w \<Rightarrow> 'req \<Rightarrow> 'w \<times> (unwind + 'res)) \<Rightarrow>
   'w \<Rightarrow> 'req \<Rightarrow> 'w \<times> 'req \<times> (unwind + 'res)" where
  "onion [] dispatch w req = (case dispatch w req of (w', r) \<Rightarrow> (w', req, r))"
| "onion (layer # layers) dispatch w req =
     (case wim_before layer w req of
        (w1, req1, Inl u) \<Rightarrow> (w1, req1, Inl u)
      | (w1, req1, Inr out) \<Rightarrow>
          (case (case out of Respond value \<Rightarrow> (w1, req1, Inr value)
                           | Continue \<Rightarrow> onion layers dispatch w1 req1) of
             (w2, req2, Inl u) \<Rightarrow> (w2, req2, Inl u)
           | (w2, req2, Inr r) \<Rightarrow>
               (case wim_after layer w2 req2 r of
                  (w3, _, Inl u) \<Rightarrow> (w3, req2, Inl u)
                | (w3, r', Inr _) \<Rightarrow> (w3, req2, Inr r'))))"

text \<open>The rest of \<open>run\<close> once \<open>run_before\<close> has ended, with \<open>outer\<close> the layers entered before.\<close>

definition finish ::
  "('w, 'req, 'res) WebIngressMiddleware list \<Rightarrow> ('w, 'req, 'res) WebIngressMiddleware list \<Rightarrow>
   ('w \<Rightarrow> 'req \<Rightarrow> 'w \<times> (unwind + 'res)) \<Rightarrow> nat \<Rightarrow>
   'w \<times> 'req \<times> (unwind + nat \<times> 'res option) \<Rightarrow> 'w \<times> 'req \<times> (unwind + 'res)" where
  "finish outer layers dispatch base x =
     (case x of
        (w1, req1, Inl u) \<Rightarrow> (w1, req1, Inl u)
      | (w1, req1, Inr (entered, response)) \<Rightarrow>
          (case (case response of Some r \<Rightarrow> (w1, Inr r) | None \<Rightarrow> dispatch w1 req1) of
             (w2, Inl u) \<Rightarrow> (w2, req1, Inl u)
           | (w2, Inr r) \<Rightarrow>
               (case run_after (rev (outer @ take (entered - base) layers)) w2 req1 r of
                  (w3, r') \<Rightarrow> (w3, req1, r'))))"

definition wrap_after ::
  "('w, 'req, 'res) WebIngressMiddleware list \<Rightarrow> 'w \<times> 'req \<times> (unwind + 'res) \<Rightarrow>
   'w \<times> 'req \<times> (unwind + 'res)" where
  "wrap_after layers x =
     (case x of
        (w, req, Inl u) \<Rightarrow> (w, req, Inl u)
      | (w, req, Inr r) \<Rightarrow> (case run_after layers w req r of (w', r') \<Rightarrow> (w', req, r')))"

lemma run_after_append:
  "run_after (xs @ ys) w req r =
     (case run_after xs w req r of (w', Inl u) \<Rightarrow> (w', Inl u) | (w', Inr r') \<Rightarrow> run_after ys w' req r')"
  by (induction xs arbitrary: w r) (auto split: prod.splits sum.splits)

lemma run_before_entered:
  "run_before layers base w req = (w', req', Inr (entered, r)) \<Longrightarrow>
     base \<le> entered \<and> entered \<le> base + length layers \<and> (r \<noteq> None \<longrightarrow> base < entered)"
  by (induction layers arbitrary: base w req)
    (fastforce split: prod.splits sum.splits WebIngressMiddlewareOutcome.splits)+

lemma finish_is_onion:
  "finish outer layers dispatch base (run_before layers base w req) =
     wrap_after (rev outer) (onion layers dispatch w req)"
proof (induction layers arbitrary: outer base w req)
  case Nil
  then show ?case by (auto simp: finish_def wrap_after_def split: prod.splits sum.splits)
next
  case (Cons layer layers)
  obtain w1 req1 out where b: "wim_before layer w req = (w1, req1, out)"
    by (cases "wim_before layer w req") auto
  show ?case
  proof (cases out)
    case (Inl u)
    then show ?thesis by (simp add: b finish_def wrap_after_def)
  next
    case (Inr o')
    show ?thesis
    proof (cases o')
      case (Respond v)
      then show ?thesis
        using b Inr by (auto simp: finish_def wrap_after_def split: prod.splits sum.splits)
    next
      case Continue
      let ?rb = "run_before layers (base + 1) w1 req1"
      have "finish outer (layer # layers) dispatch base ?rb =
          finish (outer @ [layer]) layers dispatch (base + 1) ?rb"
        unfolding finish_def
        by (auto split: prod.splits sum.splits option.splits
            dest!: run_before_entered simp: take_Cons' Suc_diff_le le_Suc_eq)
      also have "\<dots> = wrap_after (rev (outer @ [layer])) (onion layers dispatch w1 req1)"
        by (rule Cons.IH)
      also have "\<dots> = wrap_after (rev outer) (onion (layer # layers) dispatch w req)"
        using b Inr Continue by (auto simp: wrap_after_def split: prod.splits sum.splits)
      finally show ?thesis using b Inr Continue by simp
    qed
  qed
qed

section \<open>Properties\<close>

text \<open>C4. The chain of global middleware behaves as nested layers: layers are entered in
  declaration order up to the first one that answers, route dispatch runs only if none answers,
  the response passes back through exactly the entered layers in reverse order, and the first
  failure ends the chain without running any further layer.\<close>

theorem middleware_is_nested:
  "run_middleware layers dispatch w request =
     (case onion layers dispatch w request of (w', _, r) \<Rightarrow> (w', r))"
proof -
  have "run_middleware layers dispatch w request =
      (case finish [] layers dispatch 0 (run_before layers 0 w request) of (w', _, r) \<Rightarrow> (w', r))"
    by (auto simp: run_middleware_def finish_def split: prod.splits sum.splits)
  then show ?thesis
    unfolding finish_is_onion by (auto simp: wrap_after_def split: prod.splits sum.splits)
qed

text \<open>Two replicas are accepted as equivalent exactly when they own the same multiset of
  routes, in whatever order their providers declared them.\<close>

theorem replica_manifests_equivalent_iff:
  "ensure_equivalent (manifest_new routes) (manifest_new replica) = Inr () \<longleftrightarrow>
     mset routes = mset replica"
  by (auto simp: ensure_equivalent_def manifest_new_def) (metis mset_sort, metis properties_for_sort sorted_sort mset_sort)

end
