(* ===== verification/PullSession.thy ===== *)
theory PullSession
  imports Runtime
begin

text \<open>
  The shared shape of the two pulled sessions of the ingress, the response stream and the
  WebSocket session. A call of the asynchronous \<open>receive\<close> either returns at once or suspends
  on the native stream; while it is suspended other calls, a cancellation or the drop of the
  suspended future may run, since the cells are shared. \<open>pull_step\<close> is that interleaving, over
  the session and the number of suspended calls; the locale states the contract both sessions
  meet and proves what follows from it for every interleaving.
\<close>

datatype 'r entered = Returned 'r | Pending

text \<open>The loop of \<open>receive\<close> over what the native stream yields; \<open>None\<close> while it still waits.\<close>

fun pull :: "('e \<Rightarrow> 's \<Rightarrow> 'r option \<times> 's) \<Rightarrow> 'e list \<Rightarrow> 's \<Rightarrow> 'r option \<times> 's \<times> 'e list" where
  "pull event [] s = (None, s, [])"
| "pull event (e # es) s =
     (case event e s of
        (Some r, s') \<Rightarrow> (Some r, s', es)
      | (None, s') \<Rightarrow> pull event es s')"

datatype ('e, 'o) action = Enter | Yield 'e | DropCall | Side 'o

datatype ('r, 'q) outcome = Silent | Gave 'r | SideGave 'q

inductive pull_step ::
  "('s \<Rightarrow> 'r entered \<times> 's) \<Rightarrow> ('e \<Rightarrow> 's \<Rightarrow> 'r option \<times> 's) \<Rightarrow> ('s \<Rightarrow> 's) \<Rightarrow> ('o \<Rightarrow> 's \<Rightarrow> 'q \<times> 's) \<Rightarrow>
   's \<times> nat \<Rightarrow> ('e, 'o) action \<Rightarrow> ('r, 'q) outcome \<Rightarrow> 's \<times> nat \<Rightarrow> bool"
  for enter event release side where
  step_returned: "enter s = (Returned r, s') \<Longrightarrow>
     pull_step enter event release side (s, n) Enter (Gave r) (s', n)"
| step_pending: "enter s = (Pending, s') \<Longrightarrow>
     pull_step enter event release side (s, n) Enter Silent (s', Suc n)"
| step_wait: "event e s = (None, s') \<Longrightarrow>
     pull_step enter event release side (s, Suc n) (Yield e) Silent (s', Suc n)"
| step_finish: "event e s = (Some r, s') \<Longrightarrow>
     pull_step enter event release side (s, Suc n) (Yield e) (Gave r) (release s', n)"
| step_drop: "pull_step enter event release side (s, Suc n) DropCall Silent (release s, n)"
| step_side: "side a s = (q, s') \<Longrightarrow>
     pull_step enter event release side (s, n) (Side a) (SideGave q) (s', n)"

text \<open>A run records what was done and what came back.\<close>

inductive pull_run ::
  "('s \<Rightarrow> 'r entered \<times> 's) \<Rightarrow> ('e \<Rightarrow> 's \<Rightarrow> 'r option \<times> 's) \<Rightarrow> ('s \<Rightarrow> 's) \<Rightarrow> ('o \<Rightarrow> 's \<Rightarrow> 'q \<times> 's) \<Rightarrow>
   's \<times> nat \<Rightarrow> (('e, 'o) action \<times> ('r, 'q) outcome) list \<Rightarrow> 's \<times> nat \<Rightarrow> bool"
  for enter event release side where
  run_refl: "pull_run enter event release side c [] c"
| run_step: "pull_run enter event release side c log c' \<Longrightarrow>
     pull_step enter event release side c' a r c'' \<Longrightarrow>
     pull_run enter event release side c (log @ [(a, r)]) c''"

inductive_cases pull_stepE: "pull_step enter event release side c a r c'"

locale pull_session =
  fixes enter :: "'s \<Rightarrow> (RuntimeFailure + 'm option) entered \<times> 's"
    and event :: "'e \<Rightarrow> 's \<Rightarrow> (RuntimeFailure + 'm option) option \<times> 's"
    and release :: "'s \<Rightarrow> 's"
    and side :: "'o \<Rightarrow> 's \<Rightarrow> 'q \<times> 's"
    and active :: "'s \<Rightarrow> bool"
    and cancelled :: "'s \<Rightarrow> bool"
    and permit :: "'s \<Rightarrow> 'p option"
  assumes enter_pending: "enter s = (Pending, s') \<Longrightarrow>
      \<not> active s \<and> active s' \<and> \<not> cancelled s \<and> cancelled s' = cancelled s \<and> permit s' = permit s"
    and enter_returned: "enter s = (Returned r, s') \<Longrightarrow> s' = s"
    and enter_cancelled: "cancelled s \<Longrightarrow> \<exists>f. enter s = (Returned (Inl f), s)"
    and event_active: "event e s = (out, s') \<Longrightarrow> active s' = active s"
    and event_cancelled: "event e s = (out, s') \<Longrightarrow> cancelled s \<Longrightarrow> cancelled s'"
    and event_permit: "event e s = (out, s') \<Longrightarrow> permit s' = permit s \<or> permit s' = None"
    and event_failed: "event e s = (Some (Inl f), s') \<Longrightarrow> cancelled s' \<and> permit s' = None"
    and event_finished: "event e s = (Some (Inr None), s') \<Longrightarrow> permit s' = None"
    and release_active: "\<not> active (release s)"
    and release_same: "cancelled (release s) = cancelled s" "permit (release s) = permit s"
    and side_active: "side a s = (q, s') \<Longrightarrow> active s' = active s"
    and side_cancelled: "side a s = (q, s') \<Longrightarrow> cancelled s \<Longrightarrow> cancelled s'"
    and side_permit: "side a s = (q, s') \<Longrightarrow> permit s' = permit s \<or> permit s' = None"
begin

abbreviation "run \<equiv> pull_run enter event release side"
abbreviation "step \<equiv> pull_step enter event release side"

lemma step_exclusive:
  assumes "step (s, n) a r (s', n')" and "n = (if active s then 1 else 0)"
  shows "n' = (if active s' then 1 else 0)"
  using assms
  by (auto elim!: pull_stepE dest: enter_pending enter_returned event_active side_active
      simp: release_active split: if_splits)

text \<open>At most one call is ever suspended, exactly when the flag is set.\<close>

lemma run_exclusive:
  assumes "run (s, n) log (s', n')" and "n = (if active s then 1 else 0)"
  shows "n' = (if active s' then 1 else 0)"
proof -
  have "run c log c' \<Longrightarrow> snd c = (if active (fst c) then 1 else 0) \<Longrightarrow>
      snd c' = (if active (fst c') then 1 else 0)" for c c' log
  proof (induction rule: pull_run.induct)
    case (run_refl c)
    then show ?case .
  next
    case (run_step c log c' a r c'')
    show ?case
      by (cases c'; cases c'') (use run_step step_exclusive in \<open>metis fst_conv snd_conv\<close>)
  qed
  from this [OF assms(1)] assms(2) show ?thesis by simp
qed

lemma step_cancelled:
  assumes "step (s, n) a r (s', n')" and "cancelled s"
  shows "cancelled s'"
  using assms
  by (auto elim!: pull_stepE dest: enter_pending enter_returned event_cancelled side_cancelled
      simp: release_same)

lemma step_permit:
  assumes "step (s, n) a r (s', n')"
  shows "permit s' = permit s \<or> permit s' = None"
  using assms
  by (auto elim!: pull_stepE dest: enter_pending enter_returned event_permit side_permit
      simp: release_same)

lemma run_cancelled_permit:
  assumes "run (s, n) log (s', n')"
  shows "cancelled s \<Longrightarrow> cancelled s'" and "permit s' = permit s \<or> permit s' = None"
proof -
  have "run c log c' \<Longrightarrow> (cancelled (fst c) \<longrightarrow> cancelled (fst c')) \<and>
      (permit (fst c') = permit (fst c) \<or> permit (fst c') = None)" for c c' log
  proof (induction rule: pull_run.induct)
    case (run_refl c)
    then show ?case by simp
  next
    case (run_step c log c' a r c'')
    obtain t m t' m' where c: "c' = (t, m)" "c'' = (t', m')" by (cases c'; cases c'')
    from run_step step_cancelled [of t m a r t' m'] step_permit [of t m a r t' m']
    show ?case by (auto simp: c)
  qed
  from this [OF assms] show "cancelled s \<Longrightarrow> cancelled s'"
    and "permit s' = permit s \<or> permit s' = None" by auto
qed

text \<open>Once cancelled, every later call fails at once, whatever happened in between.\<close>

lemma cancelled_forever:
  assumes "cancelled s" and "run (s, n) log (s', n')"
  shows "\<exists>f. enter s' = (Returned (Inl f), s')"
  using run_cancelled_permit(1) [OF assms(2,1)] by (rule enter_cancelled)

text \<open>A suspended call that ends in a failure or at the end of the stream leaves no permit
  behind, and no later step brings it back.\<close>

lemma terminal_releases_permit:
  assumes "step (s, n) (Yield e) (Gave r) (s1, n1)" and "r = Inr None \<or> (\<exists>f. r = Inl f)"
    and "run (s1, n1) log (s2, n2)"
  shows "permit s2 = None"
proof -
  have "permit s1 = None"
    using assms(1,2) event_failed event_finished by (auto elim!: pull_stepE simp: release_same)
  with run_cancelled_permit(2) [OF assms(3)] show ?thesis by auto
qed

end

end
