(* ===== verification/WsSession.thy ===== *)
theory WsSession
  imports PullSession Contracts
begin

text \<open>
  The WebSocket session (\<open>websocket.rs\<close>): frame validation, acceptance, the byte budget, the
  close discipline, and \<open>send\<close> and \<open>receive\<close> split at their suspension points so that every
  interleaving of the two directions is a run of \<open>pull_step\<close>. \<open>wss_stream_cancelled\<close> records
  that \<open>NativeStream::cancel\<close> was called.
\<close>

type_synonym ws_received = "(WsFrame, ConnectWebsocketError) received"

definition ws_failure :: RuntimeFailure where
  "ws_failure = plugin_failure ''invalid WebSocket session''"

definition no_payload :: "WsFrame \<Rightarrow> bool" where
  "no_payload frame \<longleftrightarrow> wf_text frame = None \<and> wf_body frame = None"

definition close_code :: "int \<Rightarrow> bool" where
  "close_code code \<longleftrightarrow> 1000 \<le> code \<and> code \<le> 1003 \<or> 1007 \<le> code \<and> code \<le> 1014 \<or>
     3000 \<le> code \<and> code \<le> 4999"

definition validate_frame :: "WsFrame \<Rightarrow> nat \<Rightarrow> RuntimeFailure + unit" where
  "validate_frame frame limit =
     (if wf_protocol frame \<noteq> None then Inl ws_failure
      else
        let valid =
          (case wf_kind frame of
             Text \<Rightarrow> (case wf_text frame of None \<Rightarrow> False | Some text \<Rightarrow> length text \<le> limit) \<and>
               wf_body frame = None \<and> wf_code frame = None \<and> wf_reason frame = None
           | Binary \<Rightarrow> (case wf_body frame of None \<Rightarrow> False | Some body \<Rightarrow> length body \<le> limit) \<and>
               wf_text frame = None \<and> wf_code frame = None \<and> wf_reason frame = None
           | Close \<Rightarrow> no_payload frame \<and>
               (case wf_code frame of None \<Rightarrow> False | Some code \<Rightarrow> close_code code) \<and>
               (case wf_reason frame of None \<Rightarrow> True | Some reason \<Rightarrow> length reason \<le> 123)
           | Accept \<Rightarrow> False)
        in if valid then Inr () else Inl ws_failure)"

record 'p WebSocketSession =
  wss_permit :: "'p option"
  wss_protocol :: "string option"
  wss_message_limit :: nat
  wss_session_limit :: nat
  wss_transferred :: nat
  wss_cancelled :: bool
  wss_terminal :: bool
  wss_sent_close :: bool
  wss_received_close :: bool
  wss_reading :: bool
  wss_writing :: bool
  wss_stream_cancelled :: bool

text \<open>\<open>accept\<close> on the first result of the native stream; the first component of the value says
  whether the stream was cancelled on the way out.\<close>

definition ws_accept ::
  "ws_received \<Rightarrow> string list \<Rightarrow> nat \<Rightarrow> nat \<Rightarrow> bool \<times> (RuntimeFailure + 'p WebSocketSession)" where
  "ws_accept first offered message_limit session_limit =
     (case first of
        Inr (Message frame) \<Rightarrow>
          if wf_kind frame \<noteq> Accept \<or> \<not> no_payload frame \<or> wf_code frame \<noteq> None
             \<or> wf_reason frame \<noteq> None
             \<or> (case wf_protocol frame of None \<Rightarrow> False | Some protocol \<Rightarrow> protocol \<notin> set offered)
          then (True, Inl ws_failure)
          else (False, Inr \<lparr>wss_permit = None, wss_protocol = wf_protocol frame,
                  wss_message_limit = message_limit, wss_session_limit = session_limit,
                  wss_transferred = 0, wss_cancelled = False, wss_terminal = False,
                  wss_sent_close = False, wss_received_close = False, wss_reading = False,
                  wss_writing = False, wss_stream_cancelled = False\<rparr>)
      | _ \<Rightarrow> (True, Inl ws_failure))"

definition frame_bytes :: "WsFrame \<Rightarrow> nat" where
  "frame_bytes frame =
     (case wf_text frame of None \<Rightarrow> 0 | Some text \<Rightarrow> length text) +
     (case wf_body frame of None \<Rightarrow> 0 | Some body \<Rightarrow> length body)"

definition validate_data ::
  "WsFrame \<Rightarrow> 'p WebSocketSession \<Rightarrow> RuntimeFailure + 'p WebSocketSession" where
  "validate_data frame s =
     try_in (validate_frame frame (wss_message_limit s)) (\<lambda>_.
       if frame_bytes frame > saturating_sub (wss_session_limit s) (wss_transferred s)
       then Inl ws_failure
       else Inr (s\<lparr>wss_transferred := wss_transferred s + frame_bytes frame\<rparr>))"

definition ws_cancel :: "'p WebSocketSession \<Rightarrow> 'p WebSocketSession" where
  "ws_cancel s = s\<lparr>wss_permit := None, wss_cancelled := True, wss_stream_cancelled := True\<rparr>"

definition ws_retain_permit :: "'p option \<Rightarrow> 'p WebSocketSession \<Rightarrow> 'p WebSocketSession" where
  "ws_retain_permit permit s = s\<lparr>wss_permit := permit\<rparr>"

text \<open>\<open>send\<close> up to the call of the native stream, and its completion.\<close>

definition ws_send_enter ::
  "WsFrame \<Rightarrow> 'p WebSocketSession \<Rightarrow> (RuntimeFailure + unit) entered \<times> 'p WebSocketSession" where
  "ws_send_enter frame s =
     (if wss_cancelled s \<or> wss_terminal s \<or> wss_sent_close s \<or> wss_writing s
      then (Returned (Inl ws_failure), s)
      else case validate_data frame (s\<lparr>wss_writing := True\<rparr>) of
        Inl error \<Rightarrow> (Returned (Inl error), (ws_cancel (s\<lparr>wss_writing := True\<rparr>))\<lparr>wss_writing := False\<rparr>)
      | Inr s' \<Rightarrow> (Pending, if wf_kind frame = Close then s'\<lparr>wss_sent_close := True\<rparr> else s'))"

definition ws_send_complete ::
  "RuntimeFailure + unit \<Rightarrow> 'p WebSocketSession \<Rightarrow> (RuntimeFailure + unit) \<times> 'p WebSocketSession" where
  "ws_send_complete result s =
     (case result of
        Inl error \<Rightarrow> (Inl error, (ws_cancel s)\<lparr>wss_writing := False\<rparr>)
      | Inr _ \<Rightarrow> (Inr (), s\<lparr>wss_writing := False\<rparr>))"

definition ws_writing_drop :: "'p WebSocketSession \<Rightarrow> 'p WebSocketSession" where
  "ws_writing_drop s = s\<lparr>wss_writing := False\<rparr>"

text \<open>\<open>receive\<close> up to its suspension, and one turn of its loop.\<close>

definition ws_receive_enter ::
  "'p WebSocketSession \<Rightarrow> (RuntimeFailure + WsFrame option) entered \<times> 'p WebSocketSession" where
  "ws_receive_enter s =
     (if wss_cancelled s then (Returned (Inl ws_failure), s)
      else if wss_terminal s then (Returned (Inr None), s)
      else if wss_reading s then (Returned (Inl ws_failure), s)
      else (Pending, s\<lparr>wss_reading := True\<rparr>))"

definition ws_receive_event ::
  "ws_received \<Rightarrow> 'p WebSocketSession \<Rightarrow>
   (RuntimeFailure + WsFrame option) option \<times> 'p WebSocketSession" where
  "ws_receive_event yielded s =
     (case yielded of
        Inl error \<Rightarrow> (Some (Inl error), ws_cancel s)
      | Inr (Message frame) \<Rightarrow>
          if wss_received_close s then (Some (Inl ws_failure), ws_cancel s)
          else (case validate_data frame s of
              Inl error \<Rightarrow> (Some (Inl error), ws_cancel s)
            | Inr s' \<Rightarrow> (Some (Inr (Some frame)),
                  if wf_kind frame = Close then s'\<lparr>wss_received_close := True\<rparr> else s'))
      | Inr PeerHalfClosed \<Rightarrow> (None, s)
      | Inr (Terminal (Inr _)) \<Rightarrow> (Some (Inr None), s\<lparr>wss_terminal := True, wss_permit := None\<rparr>)
      | Inr (Terminal (Inl _)) \<Rightarrow> (Some (Inl ws_failure), ws_cancel s))"

definition ws_reading_drop :: "'p WebSocketSession \<Rightarrow> 'p WebSocketSession" where
  "ws_reading_drop s = s\<lparr>wss_reading := False\<rparr>"

lemmas ws_defs = ws_cancel_def ws_send_enter_def ws_send_complete_def ws_writing_drop_def
  ws_receive_enter_def ws_receive_event_def ws_reading_drop_def

text \<open>What may happen beside a suspended \<open>receive\<close>: the other direction and a cancellation.\<close>

datatype ws_op = OpSend WsFrame | OpSendComplete "RuntimeFailure + unit" | OpSendDrop | OpCancel

datatype ws_out = Sending WsFrame | SendReturned "RuntimeFailure + unit" | NoOut

definition ws_side :: "ws_op \<Rightarrow> 'p WebSocketSession \<Rightarrow> ws_out \<times> 'p WebSocketSession" where
  "ws_side a s = (case a of
     OpSend frame \<Rightarrow> (case ws_send_enter frame s of
         (Returned r, s') \<Rightarrow> (SendReturned r, s')
       | (Pending, s') \<Rightarrow> (Sending frame, s'))
   | OpSendComplete result \<Rightarrow> (case ws_send_complete result s of (r, s') \<Rightarrow> (SendReturned r, s'))
   | OpSendDrop \<Rightarrow> (NoOut, ws_writing_drop s)
   | OpCancel \<Rightarrow> (NoOut, ws_cancel s))"

lemma validate_data_Inr:
  assumes "validate_data frame s = Inr s'"
  shows "s' = s\<lparr>wss_transferred := wss_transferred s + frame_bytes frame\<rparr>"
    and "validate_frame frame (wss_message_limit s) = Inr ()"
    and "wss_transferred s \<le> wss_session_limit s \<Longrightarrow>
         wss_transferred s + frame_bytes frame \<le> wss_session_limit s"
  using assms by (auto simp: validate_data_def saturating_sub_def result_simps split: if_splits)

interpretation wsession: pull_session ws_receive_enter ws_receive_event ws_reading_drop ws_side
  wss_reading wss_cancelled wss_permit
  by unfold_locales
    (auto simp: ws_defs ws_side_def dest!: validate_data_Inr(1) split: if_splits sum.splits
      StreamEvent.splits ws_op.splits prod.splits)

section \<open>Accounting over a run\<close>

type_synonym ws_log =
  "((ws_received, ws_op) action \<times> (RuntimeFailure + WsFrame option, ws_out) outcome) list"

definition received_frame ::
  "(ws_received, ws_op) action \<times> (RuntimeFailure + WsFrame option, ws_out) outcome \<Rightarrow> WsFrame list" where
  "received_frame x = (case snd x of Gave (Inr (Some f)) \<Rightarrow> [f] | _ \<Rightarrow> [])"

definition sent_frame ::
  "(ws_received, ws_op) action \<times> (RuntimeFailure + WsFrame option, ws_out) outcome \<Rightarrow> WsFrame list" where
  "sent_frame x = (case snd x of SideGave (Sending f) \<Rightarrow> [f] | _ \<Rightarrow> [])"

definition received_frames :: "ws_log \<Rightarrow> WsFrame list" where
  "received_frames log = concat (map received_frame log)"

definition sent_frames :: "ws_log \<Rightarrow> WsFrame list" where
  "sent_frames log = concat (map sent_frame log)"

lemma frames_simps [simp]:
  "received_frames [] = []" "sent_frames [] = []"
  "received_frames (log @ [x]) = received_frames log @ received_frame x"
  "sent_frames (log @ [x]) = sent_frames log @ sent_frame x"
  by (simp_all add: received_frames_def sent_frames_def)

definition total_bytes :: "WsFrame list \<Rightarrow> nat" where
  "total_bytes frames = sum_list (map frame_bytes frames)"

lemma total_bytes_simps [simp]:
  "total_bytes [] = 0" "total_bytes (xs @ ys) = total_bytes xs + total_bytes ys"
  "total_bytes [f] = frame_bytes f"
  by (simp_all add: total_bytes_def)

definition closed_by :: "WsFrame list \<Rightarrow> bool" where
  "closed_by frames \<longleftrightarrow> list_ex (\<lambda>f. wf_kind f = Close) frames"

definition close_only_last :: "WsFrame list \<Rightarrow> bool" where
  "close_only_last frames \<longleftrightarrow> list_all (\<lambda>f. wf_kind f \<noteq> Close) (butlast frames)"

definition valid_in :: "'p WebSocketSession \<Rightarrow> WsFrame \<Rightarrow> bool" where
  "valid_in s f \<longleftrightarrow> is_ok (validate_frame f (wss_message_limit s))"

text \<open>The ghost log agrees with the cells of the session.\<close>

definition ws_inv :: "ws_log \<Rightarrow> 'p WebSocketSession \<Rightarrow> bool" where
  "ws_inv log s \<longleftrightarrow>
     wss_transferred s = total_bytes (received_frames log) + total_bytes (sent_frames log) \<and>
     wss_transferred s \<le> wss_session_limit s \<and>
     list_all (valid_in s) (received_frames log) \<and> list_all (valid_in s) (sent_frames log) \<and>
     (wss_received_close s \<longleftrightarrow> closed_by (received_frames log)) \<and>
     (wss_sent_close s \<longleftrightarrow> closed_by (sent_frames log)) \<and>
     close_only_last (received_frames log) \<and> close_only_last (sent_frames log)"

definition same_accounts :: "'p WebSocketSession \<Rightarrow> 'p WebSocketSession \<Rightarrow> bool" where
  "same_accounts s t \<longleftrightarrow>
     wss_transferred t = wss_transferred s \<and> wss_session_limit t = wss_session_limit s \<and>
     wss_message_limit t = wss_message_limit s \<and> wss_sent_close t = wss_sent_close s \<and>
     wss_received_close t = wss_received_close s"

lemma ws_inv_same:
  assumes "ws_inv log s" and "same_accounts s t" and "received_frame x = []" and "sent_frame x = []"
  shows "ws_inv (log @ [x]) t"
proof -
  have "valid_in t = valid_in s" using assms(2) by (simp add: fun_eq_iff valid_in_def same_accounts_def)
  with assms show ?thesis by (simp add: ws_inv_def same_accounts_def)
qed

lemma ws_inv_received:
  assumes "ws_inv log s" and "validate_data f s = Inr s'" and "\<not> wss_received_close s"
    and "t = (if wf_kind f = Close then s'\<lparr>wss_received_close := True\<rparr> else s')"
    and "received_frame x = [f]" and "sent_frame x = []" and "same_accounts t u"
  shows "ws_inv (log @ [x]) u"
proof -
  have s': "s' = s\<lparr>wss_transferred := wss_transferred s + frame_bytes f\<rparr>" and v: "valid_in s f"
    and le: "wss_transferred s + frame_bytes f \<le> wss_session_limit s"
    using validate_data_Inr [OF assms(2)] assms(1) by (auto simp: ws_inv_def valid_in_def)
  have "valid_in u = valid_in s"
    using assms(4,7) s' by (auto simp: fun_eq_iff valid_in_def same_accounts_def split: if_splits)
  moreover have "\<not> closed_by (received_frames log)" using assms(1,3) by (simp add: ws_inv_def)
  ultimately show ?thesis
    using assms(1,3-7) s' v le
    by (auto simp: ws_inv_def same_accounts_def closed_by_def close_only_last_def list_all_iff
        list_ex_iff split: if_splits)
qed

lemma ws_inv_sent:
  assumes "ws_inv log s" and "validate_data f s = Inr s'" and "\<not> wss_sent_close s"
    and "t = (if wf_kind f = Close then s'\<lparr>wss_sent_close := True\<rparr> else s')"
    and "received_frame x = []" and "sent_frame x = [f]"
  shows "ws_inv (log @ [x]) t"
proof -
  have s': "s' = s\<lparr>wss_transferred := wss_transferred s + frame_bytes f\<rparr>" and v: "valid_in s f"
    and le: "wss_transferred s + frame_bytes f \<le> wss_session_limit s"
    using validate_data_Inr [OF assms(2)] assms(1) by (auto simp: ws_inv_def valid_in_def)
  have "valid_in t = valid_in s"
    using assms(4) s' by (auto simp: fun_eq_iff valid_in_def split: if_splits)
  moreover have "\<not> closed_by (sent_frames log)" using assms(1,3) by (simp add: ws_inv_def)
  ultimately show ?thesis
    using assms(1,3-6) s' v le
    by (auto simp: ws_inv_def closed_by_def close_only_last_def list_all_iff
        list_ex_iff split: if_splits)
qed

lemma ws_inv_event:
  assumes "ws_inv log s" and "ws_receive_event e s = (Some r, s')"
  shows "ws_inv (log @ [(Yield e, Gave r)]) (ws_reading_drop s')"
proof (cases "\<exists>f. r = Inr (Some f)")
  case True
  then obtain f t where f: "e = Inr (Message f)" "r = Inr (Some f)" "validate_data f s = Inr t"
      "\<not> wss_received_close s"
      "s' = (if wf_kind f = Close then t\<lparr>wss_received_close := True\<rparr> else t)"
    using assms(2) by (auto simp: ws_receive_event_def split: sum.splits StreamEvent.splits if_splits)
  show ?thesis
    by (rule ws_inv_received [OF assms(1) f(3,4,5)])
      (simp_all add: f(2) received_frame_def sent_frame_def same_accounts_def ws_reading_drop_def)
next
  case False
  then have "same_accounts s (ws_reading_drop s')"
    using assms(2) by (auto simp: ws_receive_event_def same_accounts_def ws_cancel_def
        ws_reading_drop_def split: sum.splits StreamEvent.splits if_splits)
  then show ?thesis
    by (rule ws_inv_same [OF assms(1)])
      (use False in \<open>auto simp: received_frame_def sent_frame_def split: sum.splits option.splits\<close>)
qed

lemma ws_inv_side:
  assumes "ws_inv log s" and "ws_side a s = (q, s')"
  shows "ws_inv (log @ [(Side a, SideGave q)]) s'"
proof (cases "\<exists>f. q = Sending f")
  case True
  then obtain f t where f: "q = Sending f" "validate_data f (s\<lparr>wss_writing := True\<rparr>) = Inr t"
      "\<not> wss_sent_close s" "s' = (if wf_kind f = Close then t\<lparr>wss_sent_close := True\<rparr> else t)"
    using assms(2) by (auto simp: ws_side_def ws_send_enter_def ws_send_complete_def
        split: ws_op.splits if_splits sum.splits prod.splits entered.splits)
  have "ws_inv log (s\<lparr>wss_writing := True\<rparr>)"
    using assms(1) by (simp add: ws_inv_def valid_in_def [abs_def])
  then show ?thesis
    by (rule ws_inv_sent [OF _ f(2) _ f(4)])
      (simp_all add: f(1,3) received_frame_def sent_frame_def)
next
  case False
  then have "same_accounts s s'"
    using assms(2) by (auto simp: ws_side_def ws_send_enter_def ws_send_complete_def ws_cancel_def
        ws_writing_drop_def same_accounts_def
        split: ws_op.splits if_splits sum.splits prod.splits entered.splits)
  then show ?thesis
    by (rule ws_inv_same [OF assms(1)])
      (use False in \<open>auto simp: received_frame_def sent_frame_def split: ws_out.splits\<close>)
qed

abbreviation "ws_run \<equiv> pull_run ws_receive_enter ws_receive_event ws_reading_drop ws_side"

lemma ws_inv_step:
  assumes "ws_inv log s"
    and "pull_step ws_receive_enter ws_receive_event ws_reading_drop ws_side (s, n) a r (s', n')"
  shows "ws_inv (log @ [(a, r)]) s'"
  using assms(2)
proof (cases rule: pull_step.cases)
  case (step_finish e r')
  with ws_inv_event [OF assms(1)] show ?thesis by auto
next
  case (step_side a' q)
  with ws_inv_side [OF assms(1)] show ?thesis by auto
qed (auto intro!: ws_inv_same [OF assms(1)] simp: received_frame_def sent_frame_def
    same_accounts_def ws_defs split: if_splits sum.splits StreamEvent.splits)

lemma ws_inv_run:
  assumes "ws_run (s, n) log (s', n')" and "ws_inv [] s"
  shows "ws_inv log s'"
proof -
  have "ws_run c log c' \<Longrightarrow> ws_inv [] (fst c) \<Longrightarrow> ws_inv log (fst c')" for c log c'
  proof (induction rule: pull_run.induct)
    case (run_refl c)
    then show ?case .
  next
    case (run_step c log c' a r c'')
    show ?case
      using ws_inv_step [of log "fst c'" "snd c'" a r "fst c''" "snd c''"] run_step by simp
  qed
  from this [OF assms(1)] assms(2) show ?thesis by simp
qed

lemma ws_run_limits:
  assumes "ws_run (s, n) log (s', n')"
  shows "wss_session_limit s' = wss_session_limit s \<and> wss_message_limit s' = wss_message_limit s"
proof -
  have step: "pull_step ws_receive_enter ws_receive_event ws_reading_drop ws_side c a r c' \<Longrightarrow>
     wss_session_limit (fst c') = wss_session_limit (fst c) \<and>
     wss_message_limit (fst c') = wss_message_limit (fst c)" for c a r c'
    by (auto elim!: pull_stepE simp: ws_defs ws_side_def dest!: validate_data_Inr(1)
        split: if_splits sum.splits StreamEvent.splits ws_op.splits prod.splits entered.splits)
  have "ws_run c log c' \<Longrightarrow> wss_session_limit (fst c') = wss_session_limit (fst c) \<and>
     wss_message_limit (fst c') = wss_message_limit (fst c)" for c c' log
    by (induction rule: pull_run.induct) (simp, metis step)
  from this [OF assms] show ?thesis by simp
qed

section \<open>Properties\<close>

lemma ws_run_discipline:
  assumes "ws_accept first offered message_limit session_limit = (b, Inr s)"
    and "ws_run (ws_retain_permit p s, 0) log (t, n)"
  shows "wss_transferred t = total_bytes (received_frames log) + total_bytes (sent_frames log) \<and>
    wss_transferred t \<le> session_limit \<and>
    list_all (\<lambda>f. validate_frame f message_limit = Inr ()) (received_frames log @ sent_frames log) \<and>
    close_only_last (received_frames log) \<and> close_only_last (sent_frames log) \<and> n \<le> 1"
proof -
  let ?s = "ws_retain_permit p s"
  have s: "wss_transferred s = 0" "wss_session_limit s = session_limit"
    "wss_message_limit s = message_limit" "\<not> wss_received_close s" "\<not> wss_sent_close s"
    "\<not> wss_reading s"
    using assms(1) by (auto simp: ws_accept_def split: sum.splits StreamEvent.splits if_splits)
  then have "ws_inv [] ?s"
    by (simp add: ws_inv_def ws_retain_permit_def closed_by_def close_only_last_def)
  from ws_inv_run [OF assms(2) this] have inv: "ws_inv log t" .
  have lim: "wss_session_limit t = session_limit" "wss_message_limit t = message_limit"
    using ws_run_limits [OF assms(2)] s by (simp_all add: ws_retain_permit_def)
  have "n = (if wss_reading t then 1 else 0)"
    by (rule wsession.run_exclusive [OF assms(2)]) (simp add: s ws_retain_permit_def)
  with inv lim show ?thesis
    by (auto simp: ws_inv_def valid_in_def is_ok_iff list_all_iff)
qed

text \<open>C8. In every interleaving of sends, receives, stream yields, dropped calls and
  cancellations of an accepted session, the byte counter equals the payload bytes of the frames
  that passed in either direction and never exceeds the session limit, every frame that passed
  is valid under the message limit, and in each direction nothing passes after a close frame.\<close>

theorem websocket_session_discipline:
  assumes "ws_accept first offered message_limit session_limit = (b, Inr s)"
    and "ws_run (ws_retain_permit p s, 0) log (t, n)"
  shows "wss_transferred t = total_bytes (received_frames log) + total_bytes (sent_frames log) \<and>
    wss_transferred t \<le> session_limit \<and>
    list_all (\<lambda>f. validate_frame f message_limit = Inr ()) (received_frames log @ sent_frames log) \<and>
    close_only_last (received_frames log) \<and> close_only_last (sent_frames log) \<and> n \<le> 1"
  by (rule ws_run_discipline [OF assms])

abbreviation accept_frame :: WsFrame where
  "accept_frame \<equiv> \<lparr>wf_body = None, wf_code = None, wf_kind = Accept, wf_protocol = Some ''chat'',
     wf_reason = None, wf_text = None\<rparr>"

abbreviation text_frame :: "string \<Rightarrow> WsFrame" where
  "text_frame t \<equiv> \<lparr>wf_body = None, wf_code = None, wf_kind = Text, wf_protocol = None,
     wf_reason = None, wf_text = Some t\<rparr>"

theorem websocket_session_discipline_witness:
  "\<exists>b (s :: nat WebSocketSession) t log. ws_accept (Inr (Message accept_frame)) [''chat''] 16 32 = (b, Inr s) \<and>
     ws_run (ws_retain_permit (Some 1) s, 0) log (t, 0) \<and> sent_frames log = [text_frame ''hello''] \<and>
     wss_transferred t = 5 \<and> wss_transferred t \<le> 32"
proof -
  obtain s :: "nat WebSocketSession" where a: "ws_accept (Inr (Message accept_frame)) [''chat''] 16 32 = (False, Inr s)"
    and s: "s = \<lparr>wss_permit = None, wss_protocol = Some ''chat'', wss_message_limit = 16,
      wss_session_limit = 32, wss_transferred = 0, wss_cancelled = False, wss_terminal = False,
      wss_sent_close = False, wss_received_close = False, wss_reading = False, wss_writing = False,
      wss_stream_cancelled = False\<rparr>"
    by (simp add: ws_accept_def no_payload_def)
  let ?s = "ws_retain_permit (Some 1) s"
  let ?t = "?s\<lparr>wss_writing := True, wss_transferred := 5\<rparr>"
  let ?log = "[] @ [(Side (OpSend (text_frame ''hello'')), SideGave (Sending (text_frame ''hello'')))]"
  have "ws_side (OpSend (text_frame ''hello'')) ?s = (Sending (text_frame ''hello''), ?t)"
    by (simp add: s ws_side_def ws_send_enter_def validate_data_def validate_frame_def
        frame_bytes_def saturating_sub_def ws_retain_permit_def)
  then have r: "ws_run (?s, 0) ?log (?t, 0)"
    by (rule run_step [OF run_refl step_side [of ws_side]])
  have "sent_frames ?log = [text_frame ''hello'']"
    by (simp add: sent_frames_def sent_frame_def)
  with websocket_session_discipline [OF a r] a r show ?thesis
    by (intro exI [of _ False] exI [of _ s] exI [of _ ?t] exI [of _ ?log]) auto
qed

text \<open>An acceptance frame opens a session only when it is a pure acceptance whose subprotocol,
  if any, the client offered; every other first event cancels the native stream and fails.\<close>

theorem websocket_accept_iff:
  "is_ok (snd (ws_accept first offered message_limit session_limit :: bool \<times> (RuntimeFailure + 'p WebSocketSession))) \<longleftrightarrow>
     (\<exists>protocol. first = Inr (Message \<lparr>wf_body = None, wf_code = None, wf_kind = Accept,
          wf_protocol = protocol, wf_reason = None, wf_text = None\<rparr>) \<and>
        (protocol = None \<or> protocol \<in> Some ` set offered) \<and>
        \<not> fst (ws_accept first offered message_limit session_limit :: bool \<times> (RuntimeFailure + 'p WebSocketSession)))"
proof (cases "\<exists>f. first = Inr (Message f)")
  case True
  then obtain f where f: "first = Inr (Message f)" by blast
  show ?thesis
    by (cases f) (auto simp: f ws_accept_def no_payload_def split: option.splits if_splits)
next
  case False
  then show ?thesis by (auto simp: ws_accept_def split: sum.splits StreamEvent.splits)
qed

end
