(* ===== verification/ResponseStream.thy ===== *)
theory ResponseStream
  imports PullSession Contracts
begin

text \<open>
  The pulled HTTP response stream (\<open>response_stream.rs\<close>): the state of its cells, the two
  halves of \<open>receive\<close> around its suspension point, cancellation and permit ownership, and what
  a consumer that drains the stream obtains. \<open>wrs_stream_cancelled\<close> records that
  \<open>NativeStream::cancel\<close> was called.
\<close>

type_synonym stream_received = "(StreamFrame, StreamError) received"

record 'p WebIngressResponseStream =
  wrs_permit :: "'p option"
  wrs_done :: bool
  wrs_cancelled :: bool
  wrs_receiving :: bool
  wrs_stream_cancelled :: bool

definition stream_new :: "'p WebIngressResponseStream" where
  "stream_new = \<lparr>wrs_permit = None, wrs_done = False, wrs_cancelled = False, wrs_receiving = False,
                 wrs_stream_cancelled = False\<rparr>"

definition stream_retain_permit ::
  "'p option \<Rightarrow> 'p WebIngressResponseStream \<Rightarrow> 'p WebIngressResponseStream" where
  "stream_retain_permit permit s = s\<lparr>wrs_permit := permit\<rparr>"

definition stream_cancel :: "'p WebIngressResponseStream \<Rightarrow> 'p WebIngressResponseStream" where
  "stream_cancel s =
     s\<lparr>wrs_permit := None, wrs_cancelled := True, wrs_done := True, wrs_stream_cancelled := True\<rparr>"

definition stream_is_closed :: "'p WebIngressResponseStream \<Rightarrow> bool" where
  "stream_is_closed s = wrs_done s"

text \<open>\<open>receive\<close> up to its first suspension.\<close>

definition stream_receive_enter ::
  "'p WebIngressResponseStream \<Rightarrow>
   (RuntimeFailure + bytes option) entered \<times> 'p WebIngressResponseStream" where
  "stream_receive_enter s =
     (if wrs_cancelled s then (Returned (Inl (plugin_failure ''HTTP response stream cancelled'')), s)
      else if wrs_done s then (Returned (Inr None), s)
      else if wrs_receiving s
      then (Returned (Inl (plugin_failure ''concurrent HTTP response stream read'')), s)
      else (Pending, s\<lparr>wrs_receiving := True\<rparr>))"

text \<open>One turn of its loop: the native stream has yielded.\<close>

definition stream_receive_event ::
  "stream_received \<Rightarrow> 'p WebIngressResponseStream \<Rightarrow>
   (RuntimeFailure + bytes option) option \<times> 'p WebIngressResponseStream" where
  "stream_receive_event yielded s =
     (case yielded of
        Inl error \<Rightarrow> (Some (Inl error), stream_cancel s)
      | Inr (Message frame) \<Rightarrow>
          if sf_kind frame = Chunk \<and> sf_status frame = None \<and> sf_headers frame = None
          then (Some (Inr (Some (case sf_body frame of None \<Rightarrow> [] | Some b \<Rightarrow> b))), s)
          else (Some (Inl (plugin_failure ''invalid HTTP response stream termination'')),
                stream_cancel s)
      | Inr PeerHalfClosed \<Rightarrow> (None, s)
      | Inr (Terminal (Inr _)) \<Rightarrow> (Some (Inr None), s\<lparr>wrs_done := True, wrs_permit := None\<rparr>)
      | Inr (Terminal (Inl _)) \<Rightarrow>
          (Some (Inl (plugin_failure ''invalid HTTP response stream termination'')),
           stream_cancel s))"

text \<open>The guard \<open>Reading\<close> is dropped.\<close>

definition stream_reading_drop :: "'p WebIngressResponseStream \<Rightarrow> 'p WebIngressResponseStream" where
  "stream_reading_drop s = s\<lparr>wrs_receiving := False\<rparr>"

text \<open>A whole call that nothing interrupts, over what the native stream yields from then on.\<close>

definition stream_receive ::
  "'p WebIngressResponseStream \<Rightarrow> stream_received list \<Rightarrow>
   (RuntimeFailure + bytes option) option \<times> 'p WebIngressResponseStream \<times> stream_received list" where
  "stream_receive s yields =
     (case stream_receive_enter s of
        (Returned r, s') \<Rightarrow> (Some r, s', yields)
      | (Pending, s') \<Rightarrow>
          (case pull stream_receive_event yields s' of
             (None, s'', rest) \<Rightarrow> (None, s'', rest)
           | (Some r, s'', rest) \<Rightarrow> (Some r, stream_reading_drop s'', rest)))"

lemmas stream_defs = stream_receive_enter_def stream_receive_event_def stream_cancel_def
  stream_reading_drop_def

lemma pull_shorter:
  "pull event es s = (Some r, s', rest) \<Longrightarrow> length rest < length es"
  by (induction es arbitrary: s) (auto split: prod.splits option.splits intro: less_SucI)

text \<open>
  The consumer's loop, as the native body and the event adapter run it: it keeps receiving until
  a call does not deliver a chunk. The result pairs the chunks with the failure that ended the
  stream, or with \<open>None\<close> for a clean end; the outer \<open>None\<close> says the stream still waits.
\<close>

datatype ending = CleanEof | FailedWith RuntimeFailure | StillOpen

function drain ::
  "'p WebIngressResponseStream \<Rightarrow> stream_received list \<Rightarrow>
   bytes list \<times> ending \<times> 'p WebIngressResponseStream" where
  "drain s yields =
     (case stream_receive s yields of
        (Some (Inr (Some chunk)), s', rest) \<Rightarrow>
          (case drain s' rest of (chunks, e, t) \<Rightarrow> (chunk # chunks, e, t))
      | (Some (Inr None), s', _) \<Rightarrow> ([], CleanEof, s')
      | (Some (Inl f), s', _) \<Rightarrow> ([], FailedWith f, s')
      | (None, s', _) \<Rightarrow> ([], StillOpen, s'))"
  by auto

termination
  by (relation "measure (\<lambda>(s, yields). length yields)")
    (auto simp: stream_receive_def stream_receive_enter_def split: prod.splits entered.splits
      option.splits if_splits dest: pull_shorter)

declare drain.simps [simp del]

section \<open>The contract of a pulled session\<close>

datatype stream_side = SideCancel

definition stream_side ::
  "stream_side \<Rightarrow> 'p WebIngressResponseStream \<Rightarrow> unit \<times> 'p WebIngressResponseStream" where
  "stream_side a s = (case a of SideCancel \<Rightarrow> ((), stream_cancel s))"

interpretation rstream: pull_session stream_receive_enter stream_receive_event stream_reading_drop
  stream_side wrs_receiving wrs_cancelled wrs_permit
  by unfold_locales
    (auto simp: stream_defs stream_side_def split: if_splits sum.splits StreamEvent.splits
      stream_side.splits)

section \<open>What a consumer obtains\<close>

definition chunk_frame :: "StreamFrame \<Rightarrow> bool" where
  "chunk_frame f \<longleftrightarrow> sf_kind f = Chunk \<and> sf_status f = None \<and> sf_headers f = None"

definition body_yield :: "stream_received \<Rightarrow> bool" where
  "body_yield y = (case y of Inr (Message f) \<Rightarrow> chunk_frame f | Inr PeerHalfClosed \<Rightarrow> True | _ \<Rightarrow> False)"

definition yield_chunks :: "stream_received \<Rightarrow> bytes list" where
  "yield_chunks y = (case y of
     Inr (Message f) \<Rightarrow> [case sf_body f of None \<Rightarrow> [] | Some b \<Rightarrow> b] | _ \<Rightarrow> [])"

fun stream_spec :: "stream_received list \<Rightarrow> bytes list \<times> ending" where
  "stream_spec [] = ([], StillOpen)"
| "stream_spec (y # ys) =
     (if body_yield y then (case stream_spec ys of (cs, e) \<Rightarrow> (yield_chunks y @ cs, e))
      else case y of
        Inl f \<Rightarrow> ([], FailedWith f)
      | Inr (Terminal (Inr _)) \<Rightarrow> ([], CleanEof)
      | _ \<Rightarrow> ([], FailedWith (plugin_failure ''invalid HTTP response stream termination'')))"

definition stream_idle :: "'p WebIngressResponseStream \<Rightarrow> bool" where
  "stream_idle s \<longleftrightarrow> \<not> wrs_cancelled s \<and> \<not> wrs_done s \<and> \<not> wrs_receiving s"

lemma stream_receive_Cons:
  assumes "stream_idle s"
  shows "stream_receive s (y # ys) =
    (case stream_receive_event y (s\<lparr>wrs_receiving := True\<rparr>) of
       (Some r, t) \<Rightarrow> (Some r, stream_reading_drop t, ys)
     | (None, _) \<Rightarrow> stream_receive s ys)"
  using assms
  by (auto simp: stream_receive_def stream_idle_def stream_defs split: sum.splits
      StreamEvent.splits)

lemma reading_drop_idle: "stream_idle s \<Longrightarrow> stream_reading_drop (s\<lparr>wrs_receiving := True\<rparr>) = s"
  by (simp add: stream_idle_def stream_reading_drop_def)

lemma drain_Cons_body:
  assumes "stream_idle s" and "body_yield y"
  shows "drain s (y # ys) = (case drain s ys of (cs, e, t) \<Rightarrow> (yield_chunks y @ cs, e, t))"
proof (cases "y = Inr PeerHalfClosed")
  case True
  then have "stream_receive s (y # ys) = stream_receive s ys"
    using assms(1) by (simp add: stream_receive_Cons stream_receive_event_def)
  then have "drain s (y # ys) = drain s ys" by (subst (1 2) drain.simps) simp
  then show ?thesis using True by (simp add: yield_chunks_def split: prod.splits)
next
  case False
  then obtain f where y: "y = Inr (Message f)" and f: "chunk_frame f"
    using assms(2) by (auto simp: body_yield_def split: sum.splits StreamEvent.splits)
  let ?b = "case sf_body f of None \<Rightarrow> [] | Some b \<Rightarrow> b"
  have "stream_receive s (y # ys) = (Some (Inr (Some ?b)), s, ys)"
    using assms(1) f y
    by (simp add: stream_receive_Cons stream_receive_event_def chunk_frame_def reading_drop_idle)
  then show ?thesis by (subst drain.simps) (simp add: y yield_chunks_def)
qed

lemma drain_Nil: "stream_idle s \<Longrightarrow> drain s [] = ([], StillOpen, s\<lparr>wrs_receiving := True\<rparr>)"
  by (subst drain.simps) (simp add: stream_receive_def stream_receive_enter_def stream_idle_def)

lemma drain_Cons_end:
  assumes "stream_idle s" and "\<not> body_yield y"
  shows "\<exists>t. drain s (y # ys) = (fst (stream_spec (y # ys)), snd (stream_spec (y # ys)), t) \<and>
    wrs_permit t = None \<and> wrs_done t \<and> (snd (stream_spec (y # ys)) \<noteq> CleanEof \<longrightarrow> wrs_stream_cancelled t)"
  using assms
  by (subst drain.simps)
    (auto simp: stream_receive_Cons stream_defs body_yield_def chunk_frame_def
      split: sum.splits StreamEvent.splits)

lemma drain_spec:
  assumes "stream_idle s"
  shows "\<exists>t. drain s ys = (fst (stream_spec ys), snd (stream_spec ys), t) \<and>
    (if snd (stream_spec ys) = StillOpen then wrs_permit t = wrs_permit s \<and> wrs_receiving t
     else wrs_permit t = None \<and> wrs_done t) \<and>
    (\<forall>f. snd (stream_spec ys) = FailedWith f \<longrightarrow> wrs_stream_cancelled t)"
proof (induction ys)
  case Nil
  then show ?case using assms by (simp add: drain_Nil)
next
  case (Cons y ys)
  show ?case
  proof (cases "body_yield y")
    case True
    with Cons assms show ?thesis by (auto simp: drain_Cons_body split: prod.splits)
  next
    case False
    then have "snd (stream_spec (y # ys)) \<noteq> StillOpen"
      by (auto split: sum.splits StreamEvent.splits)
    with drain_Cons_end [OF assms False, of ys] show ?thesis by auto
  qed
qed

lemma stream_spec_clean_iff:
  "stream_spec ys = (cs, CleanEof) \<longleftrightarrow>
     (\<exists>pre post. ys = pre @ Inr (Terminal (Inr ())) # post \<and> list_all body_yield pre \<and>
        cs = concat (map yield_chunks pre))"
proof (induction ys arbitrary: cs)
  case Nil
  then show ?case by simp
next
  case (Cons y ys)
  show ?case
  proof (cases "body_yield y")
    case True
    then have y: "y \<noteq> Inr (Terminal (Inr ()))" by (auto simp: body_yield_def)
    have "stream_spec (y # ys) = (cs, CleanEof) \<longleftrightarrow>
        (\<exists>cs'. stream_spec ys = (cs', CleanEof) \<and> cs = yield_chunks y @ cs')"
      using True by (auto split: prod.splits)
    also have "\<dots> \<longleftrightarrow> (\<exists>pre post. ys = pre @ Inr (Terminal (Inr ())) # post \<and>
        list_all body_yield (y # pre) \<and> cs = concat (map yield_chunks (y # pre)))"
      using True by (auto simp: Cons.IH)
    also have "\<dots> \<longleftrightarrow> (\<exists>pre post. y # ys = pre @ Inr (Terminal (Inr ())) # post \<and>
        list_all body_yield pre \<and> cs = concat (map yield_chunks pre))"
      using y by (subst split_at_Cons_iff) simp
    finally show ?thesis .
  next
    case False
    then show ?thesis
      by (auto simp: Cons_eq_append_conv split: sum.splits StreamEvent.splits)
  qed
qed

section \<open>Properties\<close>

text \<open>Draining a fresh response stream reports a clean end exactly when the capability
  session yields chunk frames (with half-close notices anywhere) followed by a successful
  terminal event, and then it delivers exactly the bodies of those frames in order; nothing after
  a failure, a domain rejection or a malformed frame is ever taken for a complete body.\<close>

theorem response_stream_clean_eof_iff:
  "(\<exists>t. drain (stream_retain_permit p stream_new) ys = (cs, CleanEof, t)) \<longleftrightarrow>
     (\<exists>pre post. ys = pre @ Inr (Terminal (Inr ())) # post \<and> list_all body_yield pre \<and>
        cs = concat (map yield_chunks pre))"
proof -
  let ?s = "stream_retain_permit p stream_new"
  have "stream_idle ?s" by (simp add: stream_idle_def stream_retain_permit_def stream_new_def)
  from drain_spec [OF this, of ys] obtain t
    where d: "drain ?s ys = (fst (stream_spec ys), snd (stream_spec ys), t)" by blast
  have "(\<exists>t. drain ?s ys = (cs, CleanEof, t)) \<longleftrightarrow> stream_spec ys = (cs, CleanEof)"
    unfolding d by (auto simp: prod_eq_iff)
  then show ?thesis by (simp only: stream_spec_clean_iff)
qed

text \<open>When a consumer of a fresh response stream stops, the admission permit the stream held
  has been released and the stream is closed; if it stopped on a failure the underlying session
  has also been cancelled. While the stream still waits the permit is kept.\<close>

theorem response_stream_permit_lifetime:
  "\<exists>cs e t. drain (stream_retain_permit p stream_new) ys = (cs, e, t) \<and>
     (if e = StillOpen then wrs_permit t = p else wrs_permit t = None \<and> stream_is_closed t) \<and>
     (case e of FailedWith f \<Rightarrow> wrs_stream_cancelled t | _ \<Rightarrow> True)"
proof -
  let ?s = "stream_retain_permit p stream_new"
  have "stream_idle ?s" by (simp add: stream_idle_def stream_retain_permit_def stream_new_def)
  from drain_spec [OF this, of ys] obtain t
    where "drain ?s ys = (fst (stream_spec ys), snd (stream_spec ys), t)"
      and "if snd (stream_spec ys) = StillOpen then wrs_permit t = wrs_permit ?s \<and> wrs_receiving t
           else wrs_permit t = None \<and> wrs_done t"
      and "\<forall>f. snd (stream_spec ys) = FailedWith f \<longrightarrow> wrs_stream_cancelled t" by blast
  then show ?thesis
    by (intro exI [of _ "fst (stream_spec ys)"] exI [of _ "snd (stream_spec ys)"] exI [of _ t])
      (auto simp: stream_is_closed_def stream_retain_permit_def split: ending.splits if_splits)
qed

text \<open>In every interleaving of receive calls, stream yields, dropped calls and cancellations
  at most one receive call is suspended, and after a cancellation every further call fails
  immediately.\<close>

theorem response_stream_interleavings:
  assumes "pull_run stream_receive_enter stream_receive_event stream_reading_drop stream_side
             (stream_retain_permit p stream_new, 0) log (s, n)"
  shows "n \<le> 1 \<and> (n = 1 \<longleftrightarrow> wrs_receiving s) \<and>
    (wrs_cancelled s \<longrightarrow>
       stream_receive_enter s = (Returned (Inl (plugin_failure ''HTTP response stream cancelled'')), s))"
proof -
  have "n = (if wrs_receiving s then 1 else 0)"
    by (rule rstream.run_exclusive [OF assms]) (simp add: stream_retain_permit_def stream_new_def)
  then show ?thesis by (auto simp: stream_receive_enter_def)
qed

theorem response_stream_interleavings_witness:
  "\<exists>s. pull_run stream_receive_enter stream_receive_event stream_reading_drop stream_side
      (stream_retain_permit (Some (7 :: nat)) stream_new, 0) [(Enter, Silent), (Side SideCancel, SideGave ())] (s, 1) \<and>
     wrs_cancelled s \<and> wrs_permit s = None \<and>
     stream_receive_enter s = (Returned (Inl (plugin_failure ''HTTP response stream cancelled'')), s)"
proof -
  let ?s = "stream_retain_permit (Some (7 :: nat)) stream_new"
  let ?t = "?s\<lparr>wrs_receiving := True\<rparr>"
  let ?run = "pull_run stream_receive_enter stream_receive_event stream_reading_drop stream_side"
  have e: "stream_receive_enter ?s = (Pending, ?t)"
    by (simp add: stream_receive_enter_def stream_retain_permit_def stream_new_def)
  have "?run (?s, 0) ([] @ [(Enter, Silent)]) (?t, Suc 0)"
    by (rule run_step [OF run_refl step_pending [of stream_receive_enter, OF e]])
  from run_step [OF this step_side, of SideCancel]
  have r: "?run (?s, 0) [(Enter, Silent), (Side SideCancel, SideGave ())] (stream_cancel ?t, 1)"
    by (simp add: stream_side_def)
  show ?thesis
    using r response_stream_interleavings [OF r] by (intro exI [of _ "stream_cancel ?t"]) (auto simp: stream_cancel_def)
qed

end
