(* ===== verification/IngressConfig.thy ===== *)
theory IngressConfig
  imports SessionCookie
begin

text \<open>
  The immutable policy of one ingress instance (\<open>config.rs\<close>): its three records, their
  validation and every builder, and the conversion of a validated cookie configuration into the
  policy credential selection uses. A \<open>Duration\<close> is its length in nanoseconds.
\<close>

definition MAX_TRANSFER_BYTES :: nat where "MAX_TRANSFER_BYTES = 64 * 1024 * 1024"
definition MAX_HEAD_BYTES :: nat where "MAX_HEAD_BYTES = 1024 * 1024"
definition MAX_CONCURRENT_REQUESTS :: nat where "MAX_CONCURRENT_REQUESTS = 4096"
definition MAX_CONNECTIONS :: nat where "MAX_CONNECTIONS = 65536"
definition MAX_TIMEOUT_MILLIS :: nat where "MAX_TIMEOUT_MILLIS = 300000"
definition MAX_PROTOCOL_NAME_BYTES :: nat where "MAX_PROTOCOL_NAME_BYTES = 128"

lemmas limit_defs = MAX_TRANSFER_BYTES_def MAX_HEAD_BYTES_def MAX_CONCURRENT_REQUESTS_def
  MAX_CONNECTIONS_def MAX_TIMEOUT_MILLIS_def MAX_PROTOCOL_NAME_BYTES_def

type_synonym duration = nat

datatype ip_addr = IpV4 "8 word" "8 word" "8 word" "8 word" | IpV6 "128 word"

record SocketAddr =
  sa_ip :: ip_addr
  sa_port :: "16 word"

record SessionCookieConfig =
  scc_name :: string
  scc_csrf_cookie_name :: string
  scc_csrf_header_name :: string

record WebSocketConfig =
  wsc_allowed_origins :: "string list"
  wsc_max_message_bytes :: nat
  wsc_max_session_bytes :: nat

record WebIngressConfig =
  wic_bind_address :: SocketAddr
  wic_max_request_body_bytes :: nat
  wic_max_request_head_bytes :: nat
  wic_max_concurrent_requests :: nat
  wic_max_connections :: nat
  wic_request_head_timeout_millis :: nat
  wic_request_body_timeout_millis :: nat
  wic_connection_idle_timeout_millis :: nat
  wic_shutdown_grace_timeout_millis :: nat
  wic_request_timeout_millis :: nat
  wic_session_cookie :: "SessionCookieConfig option"
  wic_websocket :: "WebSocketConfig option"

section \<open>Cookie policy\<close>

definition valid_http_token :: "string \<Rightarrow> bool" where
  "valid_http_token value \<longleftrightarrow>
     value \<noteq> [] \<and> length value \<le> MAX_PROTOCOL_NAME_BYTES \<and>
     list_all (\<lambda>b. is_ascii_alphanumeric b \<or>
       b \<in> set [CHR ''!'', CHR ''#'', CHR ''$'', CHR ''%'', CHR ''&'', CHR 0x27, CHR ''*'', CHR ''+'',
                CHR ''-'', CHR ''.'', CHR ''^'', CHR ''_'', CHR 0x60, CHR ''|'', CHR ''~'']) value"

definition host_cookie_name :: "string \<Rightarrow> bool" where
  "host_cookie_name value \<longleftrightarrow> starts_with value ''__Host-'' \<and> valid_http_token value"

definition reserved_csrf_headers :: "string list" where
  "reserved_csrf_headers =
     [''authorization'', ''connection'', ''content-length'', ''cookie'', ''host'', ''keep-alive'',
      ''proxy-connection'', ''te'', ''trailer'', ''transfer-encoding'', ''upgrade'', ''x-request-id'']"

definition session_cookie_validate :: "'h http_lib \<Rightarrow> SessionCookieConfig \<Rightarrow> string + unit" where
  "session_cookie_validate L c =
     (if \<not> host_cookie_name (scc_name c) \<or> \<not> host_cookie_name (scc_csrf_cookie_name c)
         \<or> scc_name c = scc_csrf_cookie_name c
      then Inl ''Web Ingress requires distinct __Host- session and CSRF cookie names''
      else if scc_csrf_header_name c = [] \<or> length (scc_csrf_header_name c) > MAX_PROTOCOL_NAME_BYTES
      then Inl ''Web Ingress CSRF header name is invalid''
      else try_in (ok_or (header_name_from_bytes L (scc_csrf_header_name c))
                     ''Web Ingress CSRF header name is invalid'') (\<lambda>header.
        if header \<in> set reserved_csrf_headers
        then Inl ''Web Ingress CSRF header must be a dedicated request header''
        else Inr ()))"

definition session_cookie_new ::
  "'h http_lib \<Rightarrow> string \<Rightarrow> string \<Rightarrow> string \<Rightarrow> string + SessionCookieConfig" where
  "session_cookie_new L name csrf_cookie_name csrf_header_name =
     (let value = \<lparr>scc_name = name, scc_csrf_cookie_name = csrf_cookie_name,
                    scc_csrf_header_name = csrf_header_name\<rparr>
      in try_in (session_cookie_validate L value) (\<lambda>_. Inr value))"

text \<open>\<open>SessionCookiePolicy::from\<close>; \<open>None\<close> is the panic of its \<open>expect\<close>.\<close>

definition policy_from :: "'h http_lib \<Rightarrow> SessionCookieConfig \<Rightarrow> SessionCookiePolicy option" where
  "policy_from L config =
     map_option (\<lambda>h. \<lparr>scp_name = scc_name config, scp_csrf_cookie_name = scc_csrf_cookie_name config,
                       scp_csrf_header_name = h\<rparr>)
       (header_name_from_bytes L (scc_csrf_header_name config))"

section \<open>WebSocket policy\<close>

definition origin_rejected :: "uri \<Rightarrow> string \<Rightarrow> bool" where
  "origin_rejected u origin \<longleftrightarrow>
     uri_scheme_str u \<notin> {Some ''http'', Some ''https''}
     \<or> uri_authority u = None
     \<or> (case uri_authority u of None \<Rightarrow> False | Some a \<Rightarrow> CHR ''@'' \<in> set a)
     \<or> (case uri_path_and_query u of None \<Rightarrow> False | Some path \<Rightarrow> path \<noteq> ''/'')
     \<or> ends_with origin ''/''
     \<or> length origin > 2048"

definition websocket_validate :: "'h http_lib \<Rightarrow> WebSocketConfig \<Rightarrow> string + unit" where
  "websocket_validate L c =
     (if wsc_max_message_bytes c = 0 \<or> wsc_max_message_bytes c > 1048576
         \<or> wsc_max_session_bytes c < wsc_max_message_bytes c
         \<or> wsc_max_session_bytes c > MAX_TRANSFER_BYTES
         \<or> length (wsc_allowed_origins c) > 64
      then Inl ''Invalid WebSocket bounds''
      else fold_res (\<lambda>_ origin.
             try_in (ok_or (uri_parse L origin) ''Invalid WebSocket origin'') (\<lambda>u.
               if origin_rejected u origin
               then Inl ''WebSocket origins must be exact serialized HTTP origins''
               else Inr ())) () (wsc_allowed_origins c))"

definition websocket_new :: "'h http_lib \<Rightarrow> string list \<Rightarrow> string + WebSocketConfig" where
  "websocket_new L allowed_origins =
     (let policy = \<lparr>wsc_allowed_origins = allowed_origins, wsc_max_message_bytes = 65536,
                     wsc_max_session_bytes = 1048576\<rparr>
      in try_in (websocket_validate L policy) (\<lambda>_. Inr policy))"

definition websocket_with_limits ::
  "'h http_lib \<Rightarrow> WebSocketConfig \<Rightarrow> nat \<Rightarrow> nat \<Rightarrow> string + WebSocketConfig" where
  "websocket_with_limits L c message_bytes session_bytes =
     (let c' = c\<lparr>wsc_max_message_bytes := message_bytes, wsc_max_session_bytes := session_bytes\<rparr>
      in try_in (websocket_validate L c') (\<lambda>_. Inr c'))"

section \<open>Ingress policy\<close>

definition default_config :: WebIngressConfig where
  "default_config =
     \<lparr>wic_bind_address = \<lparr>sa_ip = IpV4 127 0 0 1, sa_port = 0\<rparr>,
      wic_max_request_body_bytes = 1024 * 1024,
      wic_max_request_head_bytes = 16 * 1024,
      wic_max_concurrent_requests = 128,
      wic_max_connections = 1024,
      wic_request_head_timeout_millis = 10000,
      wic_request_body_timeout_millis = 30000,
      wic_connection_idle_timeout_millis = 60000,
      wic_shutdown_grace_timeout_millis = 30000,
      wic_request_timeout_millis = 30000,
      wic_session_cookie = None,
      wic_websocket = None\<rparr>"

definition in_limit :: "nat \<Rightarrow> nat \<Rightarrow> bool" where
  "in_limit maximum value \<longleftrightarrow> 1 \<le> value \<and> value \<le> maximum"

definition config_validate :: "'h http_lib \<Rightarrow> WebIngressConfig \<Rightarrow> string + unit" where
  "config_validate L c =
     (if \<not> in_limit MAX_TRANSFER_BYTES (wic_max_request_body_bytes c)
         \<or> \<not> in_limit MAX_HEAD_BYTES (wic_max_request_head_bytes c)
         \<or> \<not> in_limit MAX_CONCURRENT_REQUESTS (wic_max_concurrent_requests c)
         \<or> \<not> in_limit MAX_CONNECTIONS (wic_max_connections c)
         \<or> \<not> in_limit MAX_TIMEOUT_MILLIS (wic_request_head_timeout_millis c)
         \<or> \<not> in_limit MAX_TIMEOUT_MILLIS (wic_request_body_timeout_millis c)
         \<or> \<not> in_limit MAX_TIMEOUT_MILLIS (wic_connection_idle_timeout_millis c)
         \<or> \<not> in_limit MAX_TIMEOUT_MILLIS (wic_shutdown_grace_timeout_millis c)
         \<or> \<not> in_limit MAX_TIMEOUT_MILLIS (wic_request_timeout_millis c)
      then Inl ''Web Ingress limits or timeout are invalid''
      else try_in (case wic_websocket c of None \<Rightarrow> Inr () | Some p \<Rightarrow> websocket_validate L p) (\<lambda>_.
           try_in (case wic_session_cookie c of None \<Rightarrow> Inr () | Some p \<Rightarrow> session_cookie_validate L p) (\<lambda>_.
             Inr ())))"

definition duration_millis :: "duration \<Rightarrow> string + nat" where
  "duration_millis d =
     (let millis = d div 1000000
      in if millis \<le> 2 ^ 64 - 1 then Inr millis
         else Inl ''Web Ingress timeout does not fit the Plan format'')"

definition checked :: "'h http_lib \<Rightarrow> WebIngressConfig \<Rightarrow> string + WebIngressConfig" where
  "checked L c = try_in (config_validate L c) (\<lambda>_. Inr c)"

definition with_websocket ::
  "'h http_lib \<Rightarrow> WebIngressConfig \<Rightarrow> WebSocketConfig \<Rightarrow> string + WebIngressConfig" where
  "with_websocket L c policy =
     try_in (websocket_validate L policy) (\<lambda>_. Inr (c\<lparr>wic_websocket := Some policy\<rparr>))"

definition with_bind_address ::
  "'h http_lib \<Rightarrow> WebIngressConfig \<Rightarrow> SocketAddr \<Rightarrow> string + WebIngressConfig" where
  "with_bind_address L c address = checked L (c\<lparr>wic_bind_address := address\<rparr>)"

definition with_request_limits ::
  "'h http_lib \<Rightarrow> WebIngressConfig \<Rightarrow> nat \<Rightarrow> nat \<Rightarrow> string + WebIngressConfig" where
  "with_request_limits L c body head =
     checked L (c\<lparr>wic_max_request_body_bytes := body, wic_max_request_head_bytes := head\<rparr>)"

definition with_max_concurrent_requests ::
  "'h http_lib \<Rightarrow> WebIngressConfig \<Rightarrow> nat \<Rightarrow> string + WebIngressConfig" where
  "with_max_concurrent_requests L c maximum = checked L (c\<lparr>wic_max_concurrent_requests := maximum\<rparr>)"

definition with_connection_limits ::
  "'h http_lib \<Rightarrow> WebIngressConfig \<Rightarrow> nat \<Rightarrow> duration \<Rightarrow> string + WebIngressConfig" where
  "with_connection_limits L c maximum idle_timeout =
     try_in (duration_millis idle_timeout) (\<lambda>millis.
       checked L (c\<lparr>wic_max_connections := maximum, wic_connection_idle_timeout_millis := millis\<rparr>))"

definition with_request_read_timeouts ::
  "'h http_lib \<Rightarrow> WebIngressConfig \<Rightarrow> duration \<Rightarrow> duration \<Rightarrow> string + WebIngressConfig" where
  "with_request_read_timeouts L c head_timeout body_timeout =
     try_in (duration_millis head_timeout) (\<lambda>head.
     try_in (duration_millis body_timeout) (\<lambda>body.
       checked L (c\<lparr>wic_request_head_timeout_millis := head, wic_request_body_timeout_millis := body\<rparr>)))"

definition with_request_timeout ::
  "'h http_lib \<Rightarrow> WebIngressConfig \<Rightarrow> duration \<Rightarrow> string + WebIngressConfig" where
  "with_request_timeout L c timeout =
     try_in (duration_millis timeout) (\<lambda>millis. checked L (c\<lparr>wic_request_timeout_millis := millis\<rparr>))"

definition with_shutdown_grace_timeout ::
  "'h http_lib \<Rightarrow> WebIngressConfig \<Rightarrow> duration \<Rightarrow> string + WebIngressConfig" where
  "with_shutdown_grace_timeout L c timeout =
     try_in (duration_millis timeout) (\<lambda>millis.
       checked L (c\<lparr>wic_shutdown_grace_timeout_millis := millis\<rparr>))"

definition with_session_cookie ::
  "'h http_lib \<Rightarrow> WebIngressConfig \<Rightarrow> SessionCookieConfig \<Rightarrow> string + WebIngressConfig" where
  "with_session_cookie L c policy = checked L (c\<lparr>wic_session_cookie := Some policy\<rparr>)"

definition endpoint_admission_limits :: "WebIngressConfig \<Rightarrow> nat \<times> nat" where
  "endpoint_admission_limits c = (0, wic_max_concurrent_requests c)"

section \<open>Configurations the builders reach\<close>

inductive built :: "'h http_lib \<Rightarrow> WebIngressConfig \<Rightarrow> bool" for L where
  built_default: "built L default_config"
| built_websocket: "built L c \<Longrightarrow> with_websocket L c p = Inr c' \<Longrightarrow> built L c'"
| built_bind: "built L c \<Longrightarrow> with_bind_address L c a = Inr c' \<Longrightarrow> built L c'"
| built_limits: "built L c \<Longrightarrow> with_request_limits L c b h = Inr c' \<Longrightarrow> built L c'"
| built_concurrency: "built L c \<Longrightarrow> with_max_concurrent_requests L c n = Inr c' \<Longrightarrow> built L c'"
| built_connections: "built L c \<Longrightarrow> with_connection_limits L c n d = Inr c' \<Longrightarrow> built L c'"
| built_reads: "built L c \<Longrightarrow> with_request_read_timeouts L c d e = Inr c' \<Longrightarrow> built L c'"
| built_timeout: "built L c \<Longrightarrow> with_request_timeout L c d = Inr c' \<Longrightarrow> built L c'"
| built_grace: "built L c \<Longrightarrow> with_shutdown_grace_timeout L c d = Inr c' \<Longrightarrow> built L c'"
| built_cookie: "built L c \<Longrightarrow> with_session_cookie L c s = Inr c' \<Longrightarrow> built L c'"

lemma checked_Inr_iff [result_simps]:
  "checked L c = Inr c' \<longleftrightarrow> config_validate L c = Inr () \<and> c' = c"
  by (auto simp: checked_def result_simps)

lemmas builder_defs = with_websocket_def with_bind_address_def with_request_limits_def
  with_max_concurrent_requests_def with_connection_limits_def with_request_read_timeouts_def
  with_request_timeout_def with_shutdown_grace_timeout_def with_session_cookie_def

lemma default_config_valid: "config_validate L default_config = Inr ()"
  by (simp add: config_validate_def default_config_def in_limit_def limit_defs)

lemma with_websocket_valid:
  "config_validate L c = Inr () \<Longrightarrow> with_websocket L c p = Inr c' \<Longrightarrow> config_validate L c' = Inr ()"
  by (auto simp: with_websocket_def config_validate_def result_simps split: if_splits)

lemma built_valid: "built L c \<Longrightarrow> config_validate L c = Inr ()"
proof (induction rule: built.induct)
  case built_default
  show ?case by (rule default_config_valid)
next
  case (built_websocket c p c')
  then show ?case by (blast intro: with_websocket_valid)
qed (auto simp: builder_defs result_simps)

lemma config_validate_limits:
  assumes "config_validate L c = Inr ()"
  shows "in_limit MAX_TRANSFER_BYTES (wic_max_request_body_bytes c)"
    and "in_limit MAX_HEAD_BYTES (wic_max_request_head_bytes c)"
    and "in_limit MAX_CONCURRENT_REQUESTS (wic_max_concurrent_requests c)"
    and "in_limit MAX_CONNECTIONS (wic_max_connections c)"
    and "in_limit MAX_TIMEOUT_MILLIS (wic_request_timeout_millis c)"
  using assms by (auto simp: config_validate_def split: if_splits)

lemma config_validate_policies:
  assumes "config_validate L c = Inr ()"
  shows "wic_session_cookie c = Some s \<Longrightarrow> session_cookie_validate L s = Inr ()"
    and "wic_websocket c = Some w \<Longrightarrow> websocket_validate L w = Inr ()"
  using assms by (auto simp: config_validate_def result_simps split: if_splits)

lemma websocket_validate_bounds:
  assumes "websocket_validate L w = Inr ()"
  shows "0 < wsc_max_message_bytes w" "wsc_max_message_bytes w \<le> 1048576"
    "wsc_max_message_bytes w \<le> wsc_max_session_bytes w" "wsc_max_session_bytes w \<le> MAX_TRANSFER_BYTES"
  using assms by (auto simp: websocket_validate_def split: if_splits)

lemma session_cookie_validate_policy:
  assumes "session_cookie_validate L s = Inr ()"
  obtains h where "header_name_from_bytes L (scc_csrf_header_name s) = Some h"
    and "h \<notin> set reserved_csrf_headers" and "scc_name s \<noteq> scc_csrf_cookie_name s"
    and "host_cookie_name (scc_name s)" and "host_cookie_name (scc_csrf_cookie_name s)"
  using assms by (auto simp: session_cookie_validate_def result_simps split: if_splits)

section \<open>Properties\<close>

text \<open>C39. Every configuration obtained from the default by any sequence of successful builder
  calls passes validation, and so respects every limit and deadline bound; in particular the
  advertised HTTP/2 stream ceiling fits 32 bits and the endpoint admission ceiling is positive.\<close>

theorem built_config_within_limits:
  assumes "built L c"
  shows "config_validate L c = Inr () \<and>
    1 \<le> wic_max_request_body_bytes c \<and> wic_max_request_body_bytes c \<le> 67108864 \<and>
    1 \<le> wic_max_request_head_bytes c \<and> wic_max_request_head_bytes c \<le> 1048576 \<and>
    1 \<le> wic_max_connections c \<and> wic_max_connections c \<le> 65536 \<and>
    1 \<le> wic_request_timeout_millis c \<and> wic_request_timeout_millis c \<le> 300000 \<and>
    1 \<le> snd (endpoint_admission_limits c) \<and> snd (endpoint_admission_limits c) < 2 ^ 32"
proof -
  have v: "config_validate L c = Inr ()" using assms by (rule built_valid)
  note lim = config_validate_limits [OF v, unfolded in_limit_def limit_defs]
  from v lim show ?thesis by (simp add: endpoint_admission_limits_def)
qed

theorem built_config_within_limits_witness:
  "\<exists>c. with_request_limits list_http default_config 4096 512 = Inr c \<and>
     wic_max_request_body_bytes c = 4096 \<and> snd (endpoint_admission_limits c) < 2 ^ 32"
proof -
  have ok: "is_ok (with_request_limits list_http default_config 4096 512)"
    by (simp add: with_request_limits_def checked_def config_validate_def default_config_def
        in_limit_def limit_defs)
  then obtain c where c: "with_request_limits list_http default_config 4096 512 = Inr c"
    by (auto simp: is_ok_iff)
  have "built list_http c" by (rule built_limits [OF built_default c])
  from built_config_within_limits [OF this] c show ?thesis
    by (auto simp: with_request_limits_def result_simps)
qed

text \<open>When a configuration the builders reach carries a session cookie policy, deriving the
  policy used at request time cannot panic: the CSRF header name parses, is none of the headers
  the ingress itself gives a meaning to, and the session and CSRF cookies have distinct names
  that both carry the \<open>__Host-\<close> prefix.\<close>

theorem built_cookie_policy_usable:
  assumes "built L c" and "wic_session_cookie c = Some s"
  shows "\<exists>p. policy_from L s = Some p \<and> scp_csrf_header_name p \<notin> set reserved_csrf_headers \<and>
    scp_name p \<noteq> scp_csrf_cookie_name p \<and>
    starts_with (scp_name p) ''__Host-'' \<and> starts_with (scp_csrf_cookie_name p) ''__Host-''"
proof -
  have "session_cookie_validate L s = Inr ()"
    using config_validate_policies(1) [OF built_valid [OF assms(1)] assms(2)] .
  then show ?thesis
    by (rule session_cookie_validate_policy) (simp add: policy_from_def host_cookie_name_def)
qed

abbreviation sample_cookie_config :: SessionCookieConfig where
  "sample_cookie_config \<equiv> \<lparr>scc_name = ''__Host-session'', scc_csrf_cookie_name = ''__Host-csrf'',
     scc_csrf_header_name = ''X-CSRF-Token''\<rparr>"

theorem built_cookie_policy_usable_witness:
  "\<exists>c p. with_session_cookie list_http default_config sample_cookie_config = Inr c \<and>
     policy_from list_http sample_cookie_config = Some p \<and>
     scp_csrf_header_name p \<notin> set reserved_csrf_headers"
proof -
  have "is_ok (session_cookie_validate list_http sample_cookie_config)" by code_simp
  then have ok: "is_ok (with_session_cookie list_http default_config sample_cookie_config)"
    by (auto simp: with_session_cookie_def checked_def config_validate_def default_config_def
        in_limit_def limit_defs is_ok_iff)
  then obtain c where c: "with_session_cookie list_http default_config sample_cookie_config = Inr c"
    by (auto simp: is_ok_iff)
  have "built list_http c" by (rule built_cookie [OF built_default c])
  moreover have "wic_session_cookie c = Some sample_cookie_config"
    using c by (auto simp: with_session_cookie_def result_simps)
  ultimately show ?thesis using built_cookie_policy_usable c by blast
qed

end
