(* ===== verification/Routing.thy ===== *)
theory Routing
  imports Inbound Handshake Middleware WsSession ResponseStream IngressConfig "HOL-Library.AList"
begin

text \<open>
  The route table (\<open>routing.rs\<close>): resolving the descriptions of all bound providers into one
  table, and dispatching a normalized request to the provider that owns the matched route.

  The path router is the third-party crate \<open>matchit\<close>: its operations are the fields of
  \<open>router_lib\<close> and what the table relies on is \<open>router_laws\<close>. A provider is a record of what its
  calls return; a call that may be cancelled takes the flag saying whether the caller's token was
  cancelled before it finished. The invocation context comes from the kernel and may fail. A
  stream is the sequence of results its \<open>receive\<close> calls yield.
\<close>

datatype RouteProvider = ProvBuffered nat | ProvStreaming nat | ProvWebSocket nat

record RouteTarget =
  tgt_route_id :: string
  tgt_provider :: RouteProvider

record 'r router_lib =
  router_new :: 'r
  router_insert :: "'r \<Rightarrow> string \<Rightarrow> RouteTarget \<Rightarrow> string + 'r"
  router_at :: "'r \<Rightarrow> string \<Rightarrow> (RouteTarget \<times> (string \<times> string) list) option"

text \<open>
  Documented behaviour of the router, over the entries \<open>routes_of\<close> inserted so far: a match is
  one of them, and a path that is already present cannot be inserted again.
\<close>

definition router_laws :: "'r router_lib \<Rightarrow> ('r \<Rightarrow> (string \<times> RouteTarget) list) \<Rightarrow> bool" where
  "router_laws R routes_of \<longleftrightarrow>
     routes_of (router_new R) = [] \<and>
     (\<forall>r p t r'. router_insert R r p t = Inr r' \<longrightarrow>
        routes_of r' = routes_of r @ [(p, t)] \<and> p \<notin> fst ` set (routes_of r)) \<and>
     (\<forall>r p t ps. router_at R r p = Some (t, ps) \<longrightarrow> t \<in> snd ` set (routes_of r))"

record EndpointClient =
  ep_describe :: "DescribeError InvocationError + DescribeResponse"
  ep_handle :: "bool \<Rightarrow> HandleRequest \<Rightarrow> HandleError InvocationError + HandleResponse"

record StreamEndpointClient =
  sep_describe :: "DescribeStreamError InvocationError + StreamRoutesItem list"
  sep_handle :: "bool \<Rightarrow> HandleRequest \<Rightarrow> StreamError InvocationError + stream_received list"

record WebsocketEndpointClient =
  wep_describe :: "DescribeWebsocketError InvocationError + WebsocketRoutesItem list"
  wep_connect :: "bool \<Rightarrow> ConnectWebsocketRequest \<Rightarrow> ConnectWebsocketError InvocationError + ws_received list"

record 'r RouteTable =
  rt_providers :: "EndpointClient list"
  rt_stream_providers :: "StreamEndpointClient list"
  rt_websocket_providers :: "WebsocketEndpointClient list"
  rt_websocket_policy :: "WebSocketConfig option"
  rt_methods :: "(http_method \<times> 'r) list"
  rt_manifest :: WebIngressRouteManifest
  rt_request_timeout :: nat

datatype DispatchError =
    NotFound
  | UpgradeRequired
  | BadHandshake
  | Unauthorized
  | Forbidden
  | MethodNotAllowed "http_method list"
  | Rejected
  | TimedOut
  | EndpointUnavailable

record StreamingResponse =
  srs_headers :: "NameValue list"
  srs_status :: int
  srs_stream :: "stream_received list"

record 'p WebSocketUpgrade =
  wsu_session :: "'p WebSocketSession"
  wsu_accept_key :: string

datatype 'p DispatchResponse =
    DispBuffered HandleResponse
  | DispStreaming StreamingResponse
  | DispWebSocket "'p WebSocketUpgrade"

section \<open>Resolving the table\<close>

text \<open>\<open>methods.entry(method).or_default().insert(path, target)\<close>.\<close>

definition methods_insert ::
  "'r router_lib \<Rightarrow> (http_method \<times> 'r) list \<Rightarrow> http_method \<Rightarrow> string \<Rightarrow> RouteTarget \<Rightarrow>
   string + (http_method \<times> 'r) list" where
  "methods_insert R methods m path target =
     (let router = (case map_of methods m of None \<Rightarrow> router_new R | Some r \<Rightarrow> r)
      in try_in (router_insert R router path target) (\<lambda>router'. Inr (AList.update m router' methods)))"

definition invalid_route :: "string \<Rightarrow> string \<Rightarrow> bool" where
  "invalid_route route_id path \<longleftrightarrow>
     trim route_id = [] \<or> \<not> starts_with path ''/'' \<or> CHR ''?'' \<in> set path \<or> CHR ''#'' \<in> set path"

type_synonym 'r resolving = "WebIngressRoute list \<times> (http_method \<times> 'r) list"

text \<open>The body of the route loop, which the buffered and streaming providers share up to the
  wording of the failure and the kind of the target.\<close>

definition resolve_route ::
  "'h http_lib \<Rightarrow> 'r router_lib \<Rightarrow> string \<Rightarrow> (nat \<Rightarrow> RouteProvider) \<Rightarrow> nat \<Rightarrow> 'r resolving \<Rightarrow>
   string \<times> string \<times> string \<Rightarrow> RuntimeFailure + 'r resolving" where
  "resolve_route L R who kind provider_index acc route =
     (case (acc, route) of ((manifest, methods), (route_method, path, route_id)) \<Rightarrow>
        let m = to_ascii_uppercase (trim route_method);
            invalid = plugin_failure (who @ '' '' @ decimal provider_index @ '' declared an invalid route'')
        in if \<not> method_from_bytes L m then Inl invalid
           else if invalid_route route_id path then Inl invalid
           else try_in (map_err (\<lambda>error. plugin_failure
                    (''HTTP route collision for '' @ m @ '' '' @ path @ '': '' @ error))
                  (methods_insert R methods m path
                     \<lparr>tgt_route_id = route_id, tgt_provider = kind provider_index\<rparr>)) (\<lambda>methods'.
                Inr (manifest @ [WebIngressRoute m path route_id], methods')))"

definition resolve_buffered ::
  "'h http_lib \<Rightarrow> 'r router_lib \<Rightarrow> (DescribeError \<Rightarrow> string) \<Rightarrow> 'r resolving \<Rightarrow> nat \<times> EndpointClient \<Rightarrow>
   RuntimeFailure + 'r resolving" where
  "resolve_buffered L R debug acc ip =
     (case ip of (provider_index, provider) \<Rightarrow>
        try_in (map_err (\<lambda>error. case error of
            Domain e \<Rightarrow> plugin_failure (''HTTP Endpoint provider '' @ decimal provider_index @
              '' rejected its description: '' @ debug e)
          | RuntimeError e \<Rightarrow> e) (ep_describe provider)) (\<lambda>description.
        fold_res (resolve_route L R ''HTTP Endpoint provider'' ProvBuffered provider_index) acc
          (map (\<lambda>r. (dri_method r, dri_path r, dri_route_id r)) (dr_routes description))))"

definition resolve_streaming ::
  "'h http_lib \<Rightarrow> 'r router_lib \<Rightarrow> (DescribeStreamError \<Rightarrow> string) \<Rightarrow> 'r resolving \<Rightarrow>
   nat \<times> StreamEndpointClient \<Rightarrow> RuntimeFailure + 'r resolving" where
  "resolve_streaming L R debug acc ip =
     (case ip of (provider_index, provider) \<Rightarrow>
        try_in (map_err (\<lambda>error. case error of
            Domain e \<Rightarrow> plugin_failure (''streaming HTTP Endpoint provider '' @ decimal provider_index @
              '' rejected its description: '' @ debug e)
          | RuntimeError e \<Rightarrow> e) (sep_describe provider)) (\<lambda>routes.
        fold_res (resolve_route L R ''streaming HTTP Endpoint provider'' ProvStreaming provider_index) acc
          (map (\<lambda>r. (sri_method r, sri_path r, sri_route_id r)) routes)))"

definition resolve_websocket_route ::
  "'r router_lib \<Rightarrow> nat \<Rightarrow> 'r resolving \<Rightarrow> WebsocketRoutesItem \<Rightarrow> RuntimeFailure + 'r resolving" where
  "resolve_websocket_route R provider_index acc route =
     (case acc of (manifest, methods) \<Rightarrow>
        if invalid_route (wri_route_id route) (wri_path route)
        then Inl (plugin_failure ''invalid WebSocket route'')
        else try_in (map_err (\<lambda>_. plugin_failure ''conflicting WebSocket route'')
               (methods_insert R methods ''GET'' (wri_path route)
                  \<lparr>tgt_route_id = wri_route_id route, tgt_provider = ProvWebSocket provider_index\<rparr>)) (\<lambda>methods'.
             Inr (manifest @ [WebIngressRoute ''GET'' (wri_path route) (wri_route_id route)], methods')))"

definition resolve_websocket ::
  "'r router_lib \<Rightarrow> WebSocketConfig option \<Rightarrow> 'r resolving \<Rightarrow> nat \<times> WebsocketEndpointClient \<Rightarrow>
   RuntimeFailure + 'r resolving" where
  "resolve_websocket R policy acc ip =
     (case ip of (provider_index, provider) \<Rightarrow>
        if policy = None then Inl (plugin_failure ''WebSocket routes require explicit transport policy'')
        else try_in (map_err (\<lambda>_. plugin_failure ''WebSocket route description failed'')
               (wep_describe provider)) (\<lambda>routes.
             fold_res (resolve_websocket_route R provider_index) acc routes))"

definition resolve ::
  "'h http_lib \<Rightarrow> 'r router_lib \<Rightarrow> (DescribeError \<Rightarrow> string) \<Rightarrow> (DescribeStreamError \<Rightarrow> string) \<Rightarrow>
   EndpointClient list \<Rightarrow> StreamEndpointClient list \<Rightarrow> WebsocketEndpointClient list \<Rightarrow>
   WebSocketConfig option \<Rightarrow> nat \<Rightarrow> RuntimeFailure + 'r RouteTable" where
  "resolve L R debug sdebug providers stream_providers websocket_providers policy request_timeout =
     try_in (fold_res (resolve_buffered L R debug) ([], []) (List.enumerate 0 providers)) (\<lambda>acc.
     try_in (fold_res (resolve_streaming L R sdebug) acc (List.enumerate 0 stream_providers)) (\<lambda>acc.
     if snd acc = []
     then Inl (plugin_failure ''Web Ingress requires at least one bound HTTP Endpoint route'')
     else
     try_in (fold_res (resolve_websocket R policy) acc (List.enumerate 0 websocket_providers)) (\<lambda>acc.
     Inr \<lparr>rt_providers = providers, rt_stream_providers = stream_providers,
          rt_websocket_providers = websocket_providers, rt_websocket_policy = policy,
          rt_methods = snd acc, rt_manifest = manifest_new (fst acc),
          rt_request_timeout = request_timeout\<rparr>)))"

section \<open>Dispatching a request\<close>

definition allowed_methods :: "'r router_lib \<Rightarrow> 'r RouteTable \<Rightarrow> string \<Rightarrow> http_method list" where
  "allowed_methods R table path =
     sort (map fst (filter (\<lambda>(_, router). router_at R router path \<noteq> None) (rt_methods table)))"

record observation =
  obs_request_id :: string
  obs_route_id :: string
  obs_provider_index :: nat
  obs_failure :: RuntimeFailure

datatype 'a progress = Finished 'a | Waiting | Panicking

text \<open>What a dispatch does: its outcome, the failures the diagnostics observer is shown, and
  whether it cancelled the native stream it had opened.\<close>

record 'p dispatched =
  dp_outcome :: "(DispatchError + 'p DispatchResponse) progress"
  dp_observed :: "observation list"
  dp_stream_cancelled :: bool

definition dispatch_err :: "DispatchError \<Rightarrow> 'p dispatched" where
  "dispatch_err e = \<lparr>dp_outcome = Finished (Inl e), dp_observed = [], dp_stream_cancelled = False\<rparr>"

definition observe_failure :: "string \<Rightarrow> string \<Rightarrow> nat \<Rightarrow> RuntimeFailure \<Rightarrow> observation" where
  "observe_failure rid route_id provider_index failure =
     \<lparr>obs_request_id = rid, obs_route_id = route_id, obs_provider_index = provider_index,
      obs_failure = failure\<rparr>"

definition runtime_dispatch_error :: "string \<Rightarrow> string \<Rightarrow> nat \<Rightarrow> RuntimeFailure \<Rightarrow> 'p dispatched" where
  "runtime_dispatch_error rid route_id provider_index failure =
     \<lparr>dp_outcome = Finished (Inl (if failure = DeadlineExceeded then TimedOut else EndpointUnavailable)),
      dp_observed = [observe_failure rid route_id provider_index failure],
      dp_stream_cancelled = False\<rparr>"

datatype head_result =
    HeadFrame StreamFrame "stream_received list"
  | HeadFailure RuntimeFailure
  | HeadInvalid
  | HeadWaiting

fun stream_head :: "stream_received list \<Rightarrow> head_result" where
  "stream_head [] = HeadWaiting"
| "stream_head (y # ys) =
     (case y of
        Inl failure \<Rightarrow> HeadFailure failure
      | Inr (Message frame) \<Rightarrow> if sf_kind frame = Head then HeadFrame frame ys else HeadInvalid
      | Inr PeerHalfClosed \<Rightarrow> stream_head ys
      | Inr (Terminal _) \<Rightarrow> HeadInvalid)"

definition handle_request_of ::
  "InboundRequest \<Rightarrow> string \<Rightarrow> (string \<times> string) list \<Rightarrow> HandleRequest" where
  "handle_request_of request route_id params =
     \<lparr>hr_body = ir_body request,
      hr_credential = map_option (\<lambda>c. \<lparr>rc_scheme = ce_scheme c, rc_value = ce_value c\<rparr>) (ir_credential request),
      hr_headers = map (\<lambda>h. \<lparr>nv_name = ih_name h, nv_value = ih_value h\<rparr>) (ir_headers request),
      hr_method = ir_method request, hr_path = ir_path request,
      hr_path_parameters = map (\<lambda>(n, v). \<lparr>nv_name = n, nv_value = v\<rparr>) params,
      hr_query = ir_query request, hr_request_id = ir_request_id request, hr_route_id = route_id\<rparr>"

definition connect_request_of ::
  "InboundRequest \<Rightarrow> string \<Rightarrow> (string \<times> string) list \<Rightarrow> string list \<Rightarrow> ConnectWebsocketRequest" where
  "connect_request_of request route_id params protocols =
     \<lparr>cwr_credential = map_option (\<lambda>c. \<lparr>rc_scheme = ce_scheme c, rc_value = ce_value c\<rparr>) (ir_credential request),
      cwr_headers = map (\<lambda>h. \<lparr>nv_name = ih_name h, nv_value = ih_value h\<rparr>) (ir_headers request),
      cwr_path = ir_path request,
      cwr_path_parameters = map (\<lambda>(n, v). \<lparr>nv_name = n, nv_value = v\<rparr>) params,
      cwr_protocols = protocols, cwr_query = ir_query request,
      cwr_request_id = ir_request_id request, cwr_route_id = route_id\<rparr>"

definition invoke_buffered ::
  "'r RouteTable \<Rightarrow> bool \<Rightarrow> InboundRequest \<Rightarrow> string \<Rightarrow> (string \<times> string) list \<Rightarrow> nat \<Rightarrow> 'p dispatched" where
  "invoke_buffered table cancelled request route_id params i =
     (if length (rt_providers table) \<le> i
      then \<lparr>dp_outcome = Panicking, dp_observed = [], dp_stream_cancelled = False\<rparr>
      else case ep_handle (rt_providers table ! i) cancelled (handle_request_of request route_id params) of
        Inr response \<Rightarrow> \<lparr>dp_outcome = Finished (Inr (DispBuffered response)), dp_observed = [],
                         dp_stream_cancelled = False\<rparr>
      | Inl (Domain _) \<Rightarrow> dispatch_err Rejected
      | Inl (RuntimeError failure) \<Rightarrow> runtime_dispatch_error (ir_request_id request) route_id i failure)"

definition invoke_streaming ::
  "'r RouteTable \<Rightarrow> bool \<Rightarrow> InboundRequest \<Rightarrow> string \<Rightarrow> (string \<times> string) list \<Rightarrow> nat \<Rightarrow> 'p dispatched" where
  "invoke_streaming table cancelled request route_id params i =
     (if length (rt_stream_providers table) \<le> i
      then \<lparr>dp_outcome = Panicking, dp_observed = [], dp_stream_cancelled = False\<rparr>
      else case sep_handle (rt_stream_providers table ! i) cancelled (handle_request_of request route_id params) of
        Inl (Domain _) \<Rightarrow> dispatch_err Rejected
      | Inl (RuntimeError failure) \<Rightarrow> runtime_dispatch_error (ir_request_id request) route_id i failure
      | Inr stream \<Rightarrow>
          (case stream_head stream of
             HeadWaiting \<Rightarrow> \<lparr>dp_outcome = Waiting, dp_observed = [], dp_stream_cancelled = False\<rparr>
           | HeadFailure failure \<Rightarrow> runtime_dispatch_error (ir_request_id request) route_id i failure
           | HeadInvalid \<Rightarrow> (dispatch_err Rejected)\<lparr>dp_stream_cancelled := True\<rparr>
           | HeadFrame head rest \<Rightarrow>
               (case (sf_status head, sf_headers head, sf_body head) of
                  (Some status, Some headers, None) \<Rightarrow>
                    \<lparr>dp_outcome = Finished (Inr (DispStreaming
                       \<lparr>srs_headers = headers, srs_status = status, srs_stream = rest\<rparr>)),
                     dp_observed = [], dp_stream_cancelled = False\<rparr>
                | _ \<Rightarrow> (dispatch_err Rejected)\<lparr>dp_stream_cancelled := True\<rparr>)))"

text \<open>The first result of the WebSocket stream is the acceptance; with none yet, it waits.\<close>

definition invoke_websocket ::
  "'r RouteTable \<Rightarrow> bool \<Rightarrow> InboundRequest \<Rightarrow> Handshake option \<Rightarrow> string \<Rightarrow> (string \<times> string) list \<Rightarrow> nat \<Rightarrow>
   'p dispatched" where
  "invoke_websocket table cancelled request handshake route_id params i =
     (case handshake of
        None \<Rightarrow> dispatch_err UpgradeRequired
      | Some hs \<Rightarrow>
          if ir_body request \<noteq> [] then dispatch_err BadHandshake
          else if length (rt_websocket_providers table) \<le> i
          then \<lparr>dp_outcome = Panicking, dp_observed = [], dp_stream_cancelled = False\<rparr>
          else (case wep_connect (rt_websocket_providers table ! i) cancelled
                  (connect_request_of request route_id params (hs_protocols hs)) of
              Inl (Domain WsUnauthorized) \<Rightarrow> dispatch_err Unauthorized
            | Inl (Domain WsRejected) \<Rightarrow> dispatch_err Forbidden
            | Inl (Domain WsUnsupportedProtocol) \<Rightarrow> dispatch_err BadHandshake
            | Inl (Domain (WsUnknown _)) \<Rightarrow> dispatch_err Rejected
            | Inl (RuntimeError error) \<Rightarrow> runtime_dispatch_error (ir_request_id request) route_id i error
            | Inr stream \<Rightarrow>
                (case rt_websocket_policy table of
                   None \<Rightarrow> dispatch_err EndpointUnavailable
                 | Some policy \<Rightarrow>
                     (case stream of
                        [] \<Rightarrow> \<lparr>dp_outcome = Waiting, dp_observed = [], dp_stream_cancelled = False\<rparr>
                      | first # _ \<Rightarrow>
                          (case ws_accept first (hs_protocols hs) (wsc_max_message_bytes policy)
                                  (wsc_max_session_bytes policy) of
                             (closed, Inl _) \<Rightarrow> (dispatch_err Rejected)\<lparr>dp_stream_cancelled := closed\<rparr>
                           | (closed, Inr session) \<Rightarrow>
                               \<lparr>dp_outcome = Finished (Inr (DispWebSocket
                                  \<lparr>wsu_session = session, wsu_accept_key = hs_accept hs\<rparr>)),
                                dp_observed = [], dp_stream_cancelled = closed\<rparr>)))))"

definition provider_index_of :: "RouteProvider \<Rightarrow> nat" where
  "provider_index_of p = (case p of ProvBuffered i \<Rightarrow> i | ProvStreaming i \<Rightarrow> i | ProvWebSocket i \<Rightarrow> i)"

definition no_route :: "'r router_lib \<Rightarrow> 'r RouteTable \<Rightarrow> string \<Rightarrow> 'p dispatched" where
  "no_route R table path =
     (let allowed = allowed_methods R table path
      in if allowed = [] then dispatch_err NotFound else dispatch_err (MethodNotAllowed allowed))"

text \<open>
  \<open>dispatch\<close>. \<open>context\<close> is what \<open>invocation_context_after\<close> returned, \<open>cancelled\<close> whether the client
  disconnected or the application shut down before the invocation finished: the token is then
  cancelled and the invocation awaited all the same.
\<close>

definition dispatch ::
  "'r router_lib \<Rightarrow> 'r RouteTable \<Rightarrow> RuntimeFailure + unit \<Rightarrow> bool \<Rightarrow> InboundRequest \<Rightarrow>
   Handshake option \<Rightarrow> 'p dispatched" where
  "dispatch R table context cancelled request handshake =
     (case map_of (rt_methods table) (ir_method request) of
        None \<Rightarrow> no_route R table (ir_path request)
      | Some router \<Rightarrow>
          (case router_at R router (ir_path request) of
             None \<Rightarrow> no_route R table (ir_path request)
           | Some (target, params) \<Rightarrow>
               let route_id = tgt_route_id target
               in case context of
                 Inl failure \<Rightarrow>
                   \<lparr>dp_outcome = Finished (Inl EndpointUnavailable),
                    dp_observed = [observe_failure (ir_request_id request) route_id
                      (provider_index_of (tgt_provider target)) failure],
                    dp_stream_cancelled = False\<rparr>
               | Inr _ \<Rightarrow>
                   (case tgt_provider target of
                      ProvWebSocket i \<Rightarrow> invoke_websocket table cancelled request handshake route_id params i
                    | ProvBuffered i \<Rightarrow> invoke_buffered table cancelled request route_id params i
                    | ProvStreaming i \<Rightarrow> invoke_streaming table cancelled request route_id params i)))"

section \<open>The invariant of resolution\<close>

definition entry_route :: "http_method \<Rightarrow> string \<times> RouteTarget \<Rightarrow> WebIngressRoute" where
  "entry_route m e = WebIngressRoute m (fst e) (tgt_route_id (snd e))"

definition all_routes ::
  "('r \<Rightarrow> (string \<times> RouteTarget) list) \<Rightarrow> (http_method \<times> 'r) list \<Rightarrow> WebIngressRoute list" where
  "all_routes routes_of methods = concat (map (\<lambda>(m, r). map (entry_route m) (routes_of r)) methods)"

definition declared_route :: "string \<times> string \<times> string \<Rightarrow> WebIngressRoute" where
  "declared_route r = (case r of (m, p, rid) \<Rightarrow> WebIngressRoute (to_ascii_uppercase (trim m)) p rid)"

definition buffered_routes :: "EndpointClient \<Rightarrow> WebIngressRoute list" where
  "buffered_routes p = (case ep_describe p of
     Inl _ \<Rightarrow> []
   | Inr d \<Rightarrow> map (\<lambda>r. declared_route (dri_method r, dri_path r, dri_route_id r)) (dr_routes d))"

definition streaming_routes :: "StreamEndpointClient \<Rightarrow> WebIngressRoute list" where
  "streaming_routes p = (case sep_describe p of
     Inl _ \<Rightarrow> []
   | Inr rs \<Rightarrow> map (\<lambda>r. declared_route (sri_method r, sri_path r, sri_route_id r)) rs)"

definition websocket_routes :: "WebsocketEndpointClient \<Rightarrow> WebIngressRoute list" where
  "websocket_routes p = (case wep_describe p of
     Inl _ \<Rightarrow> []
   | Inr rs \<Rightarrow> map (\<lambda>r. WebIngressRoute ''GET'' (wri_path r) (wri_route_id r)) rs)"

text \<open>A target belongs to the provider that declared its route.\<close>

definition target_owned ::
  "EndpointClient list \<Rightarrow> StreamEndpointClient list \<Rightarrow> WebsocketEndpointClient list \<Rightarrow> RouteTarget \<Rightarrow> bool" where
  "target_owned ps ss ws t \<longleftrightarrow>
     (case tgt_provider t of
        ProvBuffered i \<Rightarrow> i < length ps \<and> tgt_route_id t \<in> wir_route_id ` set (buffered_routes (ps ! i))
      | ProvStreaming i \<Rightarrow> i < length ss \<and> tgt_route_id t \<in> wir_route_id ` set (streaming_routes (ss ! i))
      | ProvWebSocket i \<Rightarrow> i < length ws \<and> tgt_route_id t \<in> wir_route_id ` set (websocket_routes (ws ! i)))"

definition resolving_inv ::
  "('r \<Rightarrow> (string \<times> RouteTarget) list) \<Rightarrow> (RouteTarget \<Rightarrow> bool) \<Rightarrow> 'r resolving \<Rightarrow> bool" where
  "resolving_inv routes_of ok acc \<longleftrightarrow>
     distinct (map fst (snd acc)) \<and> (snd acc = [] \<longleftrightarrow> fst acc = []) \<and>
     (\<forall>(m, r) \<in> set (snd acc). distinct (map fst (routes_of r)) \<and> (\<forall>t \<in> snd ` set (routes_of r). ok t)) \<and>
     mset (fst acc) = mset (all_routes routes_of (snd acc))"

lemma router_lawsD:
  assumes "router_laws R routes_of"
  shows "routes_of (router_new R) = []"
    and "router_insert R r p t = Inr r' \<Longrightarrow>
           routes_of r' = routes_of r @ [(p, t)] \<and> p \<notin> fst ` set (routes_of r)"
    and "router_at R r p = Some (t, ps) \<Longrightarrow> t \<in> snd ` set (routes_of r)"
  using assms unfolding router_laws_def by blast+

lemma set_update_sub: "set (AList.update k v xs) \<subseteq> insert (k, v) (set xs)"
  by (induction xs) auto

lemma all_routes_update:
  assumes "distinct (map fst ms)"
    and "routes_of r' = (case map_of ms m of None \<Rightarrow> [] | Some r \<Rightarrow> routes_of r) @ [(p, t)]"
  shows "mset (all_routes routes_of (AList.update m r' ms)) =
    mset (all_routes routes_of ms) + {#entry_route m (p, t)#}"
  using assms
proof (induction ms)
  case (Cons x ms)
  obtain k r where x: "x = (k, r)" by (cases x)
  have "k \<notin> fst ` set ms" using Cons.prems x by simp
  then show ?case using Cons x by (auto simp: all_routes_def)
qed (simp add: all_routes_def)

lemma methods_insert_inv:
  assumes laws: "router_laws R routes_of" and inv: "resolving_inv routes_of ok (manifest, ms)"
    and ins: "methods_insert R ms m p t = Inr ms'" and t: "ok t"
  shows "resolving_inv routes_of ok (manifest @ [WebIngressRoute m p (tgt_route_id t)], ms')"
proof -
  let ?r = "case map_of ms m of None \<Rightarrow> router_new R | Some r \<Rightarrow> r"
  obtain r' where r': "router_insert R ?r p t = Inr r'" and ms': "ms' = AList.update m r' ms"
    using ins by (auto simp: methods_insert_def result_simps Let_def)
  have routes: "routes_of ?r = (case map_of ms m of None \<Rightarrow> [] | Some r \<Rightarrow> routes_of r)"
    using router_lawsD(1) [OF laws] by (auto split: option.splits)
  have new: "routes_of r' = routes_of ?r @ [(p, t)]" "p \<notin> fst ` set (routes_of ?r)"
    using router_lawsD(2) [OF laws r'] by auto
  have old: "distinct (map fst (routes_of ?r)) \<and> (\<forall>t \<in> snd ` set (routes_of ?r). ok t)"
  proof (cases "map_of ms m")
    case None
    then show ?thesis by (simp add: router_lawsD(1) [OF laws])
  next
    case (Some r)
    with inv show ?thesis by (auto simp: resolving_inv_def dest: map_of_SomeD)
  qed
  have "\<forall>(m, r) \<in> set ms'. distinct (map fst (routes_of r)) \<and> (\<forall>t \<in> snd ` set (routes_of r). ok t)"
  proof (intro ballI)
    fix e assume "e \<in> set ms'"
    then have "e = (m, r') \<or> e \<in> set ms" using set_update_sub ms' by fastforce
    then show "case e of (m, r) \<Rightarrow> distinct (map fst (routes_of r)) \<and> (\<forall>t \<in> snd ` set (routes_of r). ok t)"
      using inv old new t by (auto simp: resolving_inv_def)
  qed
  moreover have "mset (all_routes routes_of ms') = mset (all_routes routes_of ms) + {#entry_route m (p, t)#}"
    unfolding ms' by (rule all_routes_update) (use inv new routes in \<open>auto simp: resolving_inv_def\<close>)
  moreover have "distinct (map fst ms')"
    using inv by (simp add: ms' resolving_inv_def distinct_update)
  moreover have "ms' \<noteq> []" by (simp add: ms' update_nonempty)
  ultimately show ?thesis using inv by (simp add: resolving_inv_def entry_route_def)
qed

lemma resolve_route_inv:
  assumes "router_laws R routes_of" and "resolving_inv routes_of ok acc"
    and "resolve_route L R who kind i acc (rm, p, rid) = Inr acc'"
    and "ok \<lparr>tgt_route_id = rid, tgt_provider = kind i\<rparr>"
  shows "resolving_inv routes_of ok acc'"
    and "fst acc' = fst acc @ [WebIngressRoute (to_ascii_uppercase (trim rm)) p rid]"
    and "\<not> invalid_route rid p"
proof -
  obtain manifest ms where acc: "acc = (manifest, ms)" by (cases acc)
  let ?m = "to_ascii_uppercase (trim rm)"
  let ?t = "\<lparr>tgt_route_id = rid, tgt_provider = kind i\<rparr>"
  from assms(3) obtain ms' where ms': "methods_insert R ms ?m p ?t = Inr ms'"
    and acc': "acc' = (manifest @ [WebIngressRoute ?m p rid], ms')" and "\<not> invalid_route rid p"
    by (auto simp: resolve_route_def acc Let_def result_simps split: if_splits)
  show "resolving_inv routes_of ok acc'"
    using methods_insert_inv [OF assms(1) _ ms'] assms(2,4) by (simp add: acc acc')
  show "fst acc' = fst acc @ [WebIngressRoute ?m p rid]" by (simp add: acc acc')
  show "\<not> invalid_route rid p" by fact
qed

lemma resolve_websocket_route_inv:
  assumes "router_laws R routes_of" and "resolving_inv routes_of ok acc"
    and "resolve_websocket_route R i acc route = Inr acc'"
    and "ok \<lparr>tgt_route_id = wri_route_id route, tgt_provider = ProvWebSocket i\<rparr>"
  shows "resolving_inv routes_of ok acc' \<and>
    fst acc' = fst acc @ [WebIngressRoute ''GET'' (wri_path route) (wri_route_id route)]"
proof -
  obtain manifest ms where acc: "acc = (manifest, ms)" by (cases acc)
  from assms(3) obtain ms' where ms': "methods_insert R ms ''GET'' (wri_path route)
      \<lparr>tgt_route_id = wri_route_id route, tgt_provider = ProvWebSocket i\<rparr> = Inr ms'"
    and acc': "acc' = (manifest @ [WebIngressRoute ''GET'' (wri_path route) (wri_route_id route)], ms')"
    by (auto simp: resolve_websocket_route_def acc result_simps split: if_splits)
  from methods_insert_inv [OF assms(1) _ ms'] assms(2,4) show ?thesis by (simp add: acc acc')
qed

lemma fold_routes_inv:
  assumes "router_laws R routes_of" and "resolving_inv routes_of ok acc"
    and "fold_res (resolve_route L R who kind i) acc rs = Inr acc'"
    and "\<And>r. r \<in> set rs \<Longrightarrow> ok \<lparr>tgt_route_id = wir_route_id (declared_route r), tgt_provider = kind i\<rparr>"
  shows "resolving_inv routes_of ok acc' \<and> fst acc' = fst acc @ map declared_route rs"
proof -
  have "resolving_inv routes_of ok acc' \<and> fst acc' = fst acc @ concat (map (\<lambda>r. [declared_route r]) rs)"
  proof (rule fold_res_collect [where I = "resolving_inv routes_of ok" and out = fst, OF assms(3,2)])
    fix s x s' assume "x \<in> set rs" "resolving_inv routes_of ok s" "resolve_route L R who kind i s x = Inr s'"
    moreover obtain m p rid where "x = (m, p, rid)" by (cases x)
    ultimately show "resolving_inv routes_of ok s' \<and> fst s' = fst s @ [declared_route x]"
      using resolve_route_inv(1,2) [OF assms(1), of ok s L who kind i m p rid s'] assms(4) [of x]
      by (simp add: declared_route_def)
  qed
  then show ?thesis by simp
qed

lemma resolve_buffered_inv:
  assumes "router_laws R routes_of" and "resolving_inv routes_of ok acc"
    and "resolve_buffered L R debug acc (i, p) = Inr acc'"
    and "\<And>r. r \<in> set (buffered_routes p) \<Longrightarrow> ok \<lparr>tgt_route_id = wir_route_id r, tgt_provider = ProvBuffered i\<rparr>"
  shows "resolving_inv routes_of ok acc' \<and> fst acc' = fst acc @ buffered_routes p"
proof -
  from assms(3) obtain d where d: "ep_describe p = Inr d" and "fold_res
      (resolve_route L R ''HTTP Endpoint provider'' ProvBuffered i) acc
      (map (\<lambda>r. (dri_method r, dri_path r, dri_route_id r)) (dr_routes d)) = Inr acc'"
    by (auto simp: resolve_buffered_def result_simps)
  from fold_routes_inv [OF assms(1,2) this(2)] assms(4) d show ?thesis
    by (force simp: buffered_routes_def comp_def)
qed

lemma resolve_streaming_inv:
  assumes "router_laws R routes_of" and "resolving_inv routes_of ok acc"
    and "resolve_streaming L R debug acc (i, p) = Inr acc'"
    and "\<And>r. r \<in> set (streaming_routes p) \<Longrightarrow> ok \<lparr>tgt_route_id = wir_route_id r, tgt_provider = ProvStreaming i\<rparr>"
  shows "resolving_inv routes_of ok acc' \<and> fst acc' = fst acc @ streaming_routes p"
proof -
  from assms(3) obtain rs where d: "sep_describe p = Inr rs" and "fold_res
      (resolve_route L R ''streaming HTTP Endpoint provider'' ProvStreaming i) acc
      (map (\<lambda>r. (sri_method r, sri_path r, sri_route_id r)) rs) = Inr acc'"
    by (auto simp: resolve_streaming_def result_simps)
  from fold_routes_inv [OF assms(1,2) this(2)] assms(4) d show ?thesis
    by (force simp: streaming_routes_def comp_def)
qed

lemma resolve_websocket_inv:
  assumes "router_laws R routes_of" and "resolving_inv routes_of ok acc"
    and "resolve_websocket R policy acc (i, p) = Inr acc'"
    and "\<And>r. r \<in> set (websocket_routes p) \<Longrightarrow> ok \<lparr>tgt_route_id = wir_route_id r, tgt_provider = ProvWebSocket i\<rparr>"
  shows "(resolving_inv routes_of ok acc' \<and> policy \<noteq> None) \<and> fst acc' = fst acc @ websocket_routes p"
proof -
  from assms(3) obtain rs where d: "wep_describe p = Inr rs" and pol: "policy \<noteq> None"
    and f: "fold_res (resolve_websocket_route R i) acc rs = Inr acc'"
    by (auto simp: resolve_websocket_def result_simps split: if_splits)
  have "resolving_inv routes_of ok acc' \<and> fst acc' = fst acc @
      concat (map (\<lambda>r. [WebIngressRoute ''GET'' (wri_path r) (wri_route_id r)]) rs)"
    by (rule fold_res_collect [where I = "resolving_inv routes_of ok" and out = fst, OF f assms(2)])
      (rule resolve_websocket_route_inv [OF assms(1)], assumption+, use assms(4) d in \<open>force simp: websocket_routes_def\<close>)
  with d pol show ?thesis by (simp add: websocket_routes_def)
qed

lemma enumerate_concat: "concat (map (\<lambda>(i, p). f p) (List.enumerate n ps)) = concat (map f ps)"
  by (induction ps arbitrary: n) auto

lemma fold_providers_inv:
  fixes acc :: "'r resolving"
  assumes "fold_res f acc (List.enumerate 0 ps) = Inr acc'" and "I acc"
    and step: "\<And>s i p s'. i < length ps \<Longrightarrow> p = ps ! i \<Longrightarrow> I s \<Longrightarrow> f s (i, p) = Inr s' \<Longrightarrow> I s' \<and> fst s' = fst s @ g p"
  shows "I acc' \<and> fst acc' = fst acc @ concat (map g ps)"
proof -
  have "I acc' \<and> fst acc' = fst acc @ concat (map (\<lambda>(i, p). g p) (List.enumerate 0 ps))"
  proof (rule fold_res_collect [where I = I and out = fst, OF assms(1,2)])
    fix s x s' assume x: "x \<in> set (List.enumerate 0 ps)" "I s" "f s x = Inr s'"
    obtain i p where ip: "x = (i, p)" by (cases x)
    with x have "i < length ps" "p = ps ! i" by (auto simp: in_set_enumerate_eq)
    from step [OF this x(2)] x(3) ip show "I s' \<and> fst s' = fst s @ (case x of (i, p) \<Rightarrow> g p)" by simp
  qed
  then show ?thesis by (simp add: enumerate_concat)
qed

definition declared_routes ::
  "EndpointClient list \<Rightarrow> StreamEndpointClient list \<Rightarrow> WebsocketEndpointClient list \<Rightarrow> WebIngressRoute list" where
  "declared_routes ps ss ws =
     concat (map buffered_routes ps) @ concat (map streaming_routes ss) @ concat (map websocket_routes ws)"

lemma resolve_inv:
  fixes R :: "'r router_lib"
  assumes laws: "router_laws R routes_of"
    and res: "resolve L R debug sdebug ps ss ws policy timeout = Inr table"
  shows "\<exists>acc. resolving_inv routes_of (target_owned ps ss ws) acc \<and>
    rt_methods table = snd acc \<and> rt_manifest table = manifest_new (fst acc) \<and>
    fst acc = declared_routes ps ss ws \<and> rt_providers table = ps \<and> rt_stream_providers table = ss \<and>
    rt_websocket_providers table = ws \<and> rt_websocket_policy table = policy \<and>
    (ws \<noteq> [] \<longrightarrow> policy \<noteq> None) \<and> fst acc \<noteq> []"
proof -
  let ?ok = "target_owned ps ss ws"
  let ?I = "resolving_inv routes_of ?ok"
  from res obtain a1 a2 a3 where
    f1: "fold_res (resolve_buffered L R debug) ([], []) (List.enumerate 0 ps) = Inr a1"
    and f2: "fold_res (resolve_streaming L R sdebug) a1 (List.enumerate 0 ss) = Inr a2"
    and f3: "fold_res (resolve_websocket R policy) a2 (List.enumerate 0 ws) = Inr a3"
    and ne: "snd a2 \<noteq> []"
    and table: "table = \<lparr>rt_providers = ps, rt_stream_providers = ss, rt_websocket_providers = ws,
      rt_websocket_policy = policy, rt_methods = snd a3, rt_manifest = manifest_new (fst a3),
      rt_request_timeout = timeout\<rparr>"
    by (auto simp: resolve_def result_simps split: if_splits)
  have i0: "?I ([], [])" by (simp add: resolving_inv_def all_routes_def)
  have ok: "i < length ps \<Longrightarrow> p = ps ! i \<Longrightarrow> r \<in> set (buffered_routes p) \<Longrightarrow>
      ?ok \<lparr>tgt_route_id = wir_route_id r, tgt_provider = ProvBuffered i\<rparr>"
    "i < length ss \<Longrightarrow> q = ss ! i \<Longrightarrow> r \<in> set (streaming_routes q) \<Longrightarrow>
      ?ok \<lparr>tgt_route_id = wir_route_id r, tgt_provider = ProvStreaming i\<rparr>"
    "i < length ws \<Longrightarrow> w = ws ! i \<Longrightarrow> r \<in> set (websocket_routes w) \<Longrightarrow>
      ?ok \<lparr>tgt_route_id = wir_route_id r, tgt_provider = ProvWebSocket i\<rparr>" for i p q w r
    by (simp_all add: target_owned_def)
  have i1: "?I a1 \<and> fst a1 = fst (([], []) :: 'r resolving) @ concat (map buffered_routes ps)"
    by (rule fold_providers_inv [where I = ?I, OF f1 i0])
      (rule resolve_buffered_inv [OF laws], assumption+, rule ok(1))
  have i2: "?I a2 \<and> fst a2 = fst a1 @ concat (map streaming_routes ss)"
    by (rule fold_providers_inv [where I = ?I, OF f2 conjunct1 [OF i1]])
      (rule resolve_streaming_inv [OF laws], assumption+, rule ok(2))
  have i3: "?I a3 \<and> fst a3 = fst a2 @ concat (map websocket_routes ws)"
    by (rule fold_providers_inv [where I = ?I, OF f3 conjunct1 [OF i2]])
      (use resolve_websocket_inv [OF laws] ok(3) in blast)
  have pol: "ws \<noteq> [] \<longrightarrow> policy \<noteq> None"
    using f3 by (cases ws) (auto simp: resolve_websocket_def result_simps split: if_splits)
  have "fst a2 \<noteq> []" using conjunct1 [OF i2] ne unfolding resolving_inv_def by blast
  then show ?thesis
    using i1 i2 i3 pol table by (intro exI [of _ a3]) (auto simp: declared_routes_def)
qed

lemma resolved_target_owned:
  assumes "router_laws R routes_of"
    and "resolve L R debug sdebug ps ss ws policy timeout = Inr table"
    and "map_of (rt_methods table) m = Some r" and "router_at R r path = Some (target, params)"
  shows "target_owned ps ss ws target"
proof -
  from resolve_inv [OF assms(1,2)] obtain acc where
    inv: "resolving_inv routes_of (target_owned ps ss ws) acc" and t: "rt_methods table = snd acc" by blast
  have "(m, r) \<in> set (snd acc)" using assms(3) t by (simp add: map_of_SomeD)
  moreover have "target \<in> snd ` set (routes_of r)" using assms(4) by (rule router_lawsD(3) [OF assms(1)])
  ultimately show ?thesis using inv by (auto simp: resolving_inv_def)
qed

lemma all_routes_keys_distinct:
  assumes "distinct (map fst ms)" and "\<And>m r. (m, r) \<in> set ms \<Longrightarrow> distinct (map fst (routes_of r))"
  shows "distinct (map (\<lambda>r. (wir_method r, wir_path r)) (all_routes routes_of ms))"
  using assms
proof (induction ms)
  case (Cons x ms)
  obtain m r where x: "x = (m, r)" by (cases x)
  have "distinct (map fst (routes_of r))" using Cons.prems x by auto
  then have "distinct (map (\<lambda>e. (m, fst e)) (routes_of r))"
    by (auto simp: distinct_map inj_on_def)
  moreover have "m \<notin> wir_method ` set (all_routes routes_of ms)"
    using Cons.prems(1) x by (force simp: all_routes_def entry_route_def)
  moreover have "distinct (map (\<lambda>r. (wir_method r, wir_path r)) (all_routes routes_of ms))"
    by (rule Cons.IH) (use Cons.prems in auto)
  moreover have "all_routes routes_of (x # ms) = map (entry_route m) (routes_of r) @ all_routes routes_of ms"
    by (simp add: all_routes_def x)
  ultimately show ?case by (auto simp: entry_route_def comp_def)
qed (simp add: all_routes_def)

lemma allowed_methods_exact:
  assumes "distinct (map fst (rt_methods table))"
  shows "sorted (allowed_methods R table path)" and "distinct (allowed_methods R table path)"
    and "m \<in> set (allowed_methods R table path) \<longleftrightarrow>
      (\<exists>r. map_of (rt_methods table) m = Some r \<and> router_at R r path \<noteq> None)"
proof -
  show "sorted (allowed_methods R table path)" by (simp add: allowed_methods_def)
  show "distinct (allowed_methods R table path)"
    using assms by (simp add: allowed_methods_def distinct_map_filter)
  show "m \<in> set (allowed_methods R table path) \<longleftrightarrow>
      (\<exists>r. map_of (rt_methods table) m = Some r \<and> router_at R r path \<noteq> None)"
    using assms by (auto simp: allowed_methods_def image_iff)
qed

section \<open>A list router for concrete executions\<close>

definition list_router :: "(string \<times> RouteTarget) list router_lib" where
  "list_router = \<lparr>router_new = [],
     router_insert = (\<lambda>r p t. if p \<in> set (map fst r) then Inl ''conflict'' else Inr (r @ [(p, t)])),
     router_at = (\<lambda>r p. map_option (\<lambda>t. (t, [])) (map_of r p))\<rparr>"

lemma list_router_laws: "router_laws list_router (\<lambda>r. r)"
  by (auto simp: router_laws_def list_router_def split: if_splits dest!: map_of_SomeD intro: rev_image_eqI)

abbreviation hello_endpoint :: EndpointClient where
  "hello_endpoint \<equiv> \<lparr>ep_describe = Inr \<lparr>dr_routes = [\<lparr>dri_method = ''get'', dri_openapi = None,
       dri_path = ''/hello'', dri_route_id = ''hello''\<rparr>]\<rparr>,
     ep_handle = (\<lambda>cancelled request. if cancelled then Inl (RuntimeError DeadlineExceeded)
       else Inr \<lparr>hres_body = ''hi'', hres_headers = [], hres_status = 200\<rparr>)\<rparr>"

definition hello_table :: "(string \<times> RouteTarget) list RouteTable" where
  "hello_table = \<lparr>rt_providers = [hello_endpoint], rt_stream_providers = [], rt_websocket_providers = [],
     rt_websocket_policy = None,
     rt_methods = [(''GET'', [(''/hello'', \<lparr>tgt_route_id = ''hello'', tgt_provider = ProvBuffered 0\<rparr>)])],
     rt_manifest = WebIngressRouteManifest [WebIngressRoute ''GET'' ''/hello'' ''hello''],
     rt_request_timeout = 30000\<rparr>"

lemma hello_resolves:
  "resolve list_http list_router (\<lambda>_. ''e'') (\<lambda>_. ''e'') [hello_endpoint] [] [] None 30000 = Inr hello_table"
proof -
  have m: "to_ascii_uppercase (trim ''get'') = ''GET''" by code_simp
  have v: "method_from_bytes list_http ''GET''" by code_simp
  have r: "\<not> invalid_route ''hello'' ''/hello''" by code_simp
  show ?thesis
    by (simp add: resolve_def resolve_buffered_def resolve_route_def m v r Let_def methods_insert_def
        list_router_def hello_table_def manifest_new_def enumerate_eq_zip)
qed

section \<open>Properties\<close>

text \<open>C5. A resolved table owns exactly the routes its providers declared, with methods
  normalized: its manifest lists them in canonical order, no two providers own the same method
  and path, there is at least one, and WebSocket providers are only accepted under an explicit
  policy.\<close>

theorem resolve_owns_declared_routes:
  assumes "router_laws R routes_of"
    and "resolve L R debug sdebug ps ss ws policy timeout = Inr table"
  shows "rt_manifest table = manifest_new (declared_routes ps ss ws) \<and>
    distinct (map (\<lambda>r. (wir_method r, wir_path r)) (declared_routes ps ss ws)) \<and>
    declared_routes ps ss ws \<noteq> [] \<and> (ws = [] \<or> rt_websocket_policy table = policy \<and> policy \<noteq> None)"
proof -
  from resolve_inv [OF assms] obtain acc where
    inv: "resolving_inv routes_of (target_owned ps ss ws) acc"
    and t: "rt_manifest table = manifest_new (fst acc)" "fst acc = declared_routes ps ss ws"
      "ws \<noteq> [] \<longrightarrow> policy \<noteq> None" "fst acc \<noteq> []" "rt_websocket_policy table = policy"
    by blast
  have "distinct (map (\<lambda>r. (wir_method r, wir_path r)) (all_routes routes_of (snd acc)))"
    by (rule all_routes_keys_distinct) (use inv in \<open>auto simp: resolving_inv_def\<close>)
  moreover have "mset (map (\<lambda>r. (wir_method r, wir_path r)) (all_routes routes_of (snd acc))) =
      mset (map (\<lambda>r. (wir_method r, wir_path r)) (fst acc))"
    using inv by (simp add: resolving_inv_def)
  ultimately have "distinct (map (\<lambda>r. (wir_method r, wir_path r)) (fst acc))"
    by (metis mset_eq_imp_distinct_iff)
  with t show ?thesis by auto
qed

theorem resolve_owns_declared_routes_witness:
  "rt_manifest hello_table = manifest_new (declared_routes [hello_endpoint] [] []) \<and>
   distinct (map (\<lambda>r. (wir_method r, wir_path r)) (declared_routes [hello_endpoint] [] []))"
  using resolve_owns_declared_routes [OF list_router_laws hello_resolves] by blast

text \<open>Dispatch through a resolved table never indexes a provider out of range, whatever the
  request, the handshake, the kernel's context and the moment of cancellation.\<close>

theorem dispatch_provider_in_range:
  assumes "router_laws R routes_of"
    and "resolve L R debug sdebug ps ss ws policy timeout = Inr table"
  shows "dp_outcome (dispatch R table context cancelled request handshake) \<noteq> Panicking"
proof -
  from resolve_inv [OF assms] have t: "rt_providers table = ps" "rt_stream_providers table = ss"
      "rt_websocket_providers table = ws" by blast+
  note ok = resolved_target_owned [OF assms]
  have nr: "dp_outcome (no_route R table p) \<noteq> Panicking" for p
    by (simp add: no_route_def dispatch_err_def Let_def)
  show ?thesis
    using nr
    by (auto simp: dispatch_def Let_def invoke_websocket_def invoke_buffered_def invoke_streaming_def t
        dispatch_err_def runtime_dispatch_error_def
        split: option.splits sum.splits RouteProvider.splits InvocationError.splits
          ConnectWebsocketError.splits list.splits head_result.splits prod.splits)
      (fastforce simp: target_owned_def dest: ok)+
qed

theorem dispatch_provider_in_range_witness:
  "dp_outcome (dispatch list_router hello_table (Inr ()) True sample_normalized None :: nat dispatched) \<noteq> Panicking"
  using dispatch_provider_in_range [OF list_router_laws hello_resolves] by blast

text \<open>A request whose method does not own its path is answered with \<open>NotFound\<close> when no method
  owns the path, and otherwise with \<open>MethodNotAllowed\<close> listing exactly the methods that do, sorted
  and without repetition; no provider is called and no failure is observed.\<close>

theorem dispatch_without_route:
  assumes "distinct (map fst (rt_methods table))"
    and "\<forall>r. map_of (rt_methods table) (ir_method request) = Some r \<longrightarrow> router_at R r (ir_path request) = None"
  shows "\<exists>allowed. dispatch R table context cancelled request handshake =
      dispatch_err (if allowed = [] then NotFound else MethodNotAllowed allowed) \<and>
    sorted allowed \<and> distinct allowed \<and> ir_method request \<notin> set allowed \<and>
    (\<forall>m. m \<in> set allowed \<longleftrightarrow>
       (\<exists>r. map_of (rt_methods table) m = Some r \<and> router_at R r (ir_path request) \<noteq> None))"
proof -
  let ?a = "allowed_methods R table (ir_path request)"
  show ?thesis
    using allowed_methods_exact [OF assms(1), where R = R and path = "ir_path request"] assms(2)
    by (intro exI [of _ ?a]) (auto simp: dispatch_def no_route_def Let_def split: option.splits)
qed

theorem dispatch_without_route_witness:
  "\<exists>allowed. dispatch list_router hello_table (Inr ()) False
      (sample_normalized\<lparr>ir_method := ''PUT'', ir_path := ''/hello''\<rparr>) None =
      (dispatch_err (if allowed = [] then NotFound else MethodNotAllowed allowed) :: nat dispatched) \<and>
     sorted allowed"
proof -
  let ?q = "sample_normalized\<lparr>ir_method := ''PUT'', ir_path := ''/hello''\<rparr>"
  have "distinct (map fst (rt_methods hello_table))" by (simp add: hello_table_def)
  moreover have "\<forall>r. map_of (rt_methods hello_table) (ir_method ?q) = Some r \<longrightarrow>
      router_at list_router r (ir_path ?q) = None"
    by (simp add: hello_table_def)
  ultimately show ?thesis
    using dispatch_without_route [of hello_table ?q list_router "Inr ()" False None] by blast
qed

text \<open>Dispatch shows the diagnostics observer at most one failure, always under the identity
  of the request; a request is answered as timed out exactly when the observed failure is a
  missed deadline, and nothing is observed when the endpoint answered or rejected the request.\<close>

theorem dispatch_observes_failures:
  "(case dp_outcome (dispatch R table (Inr ()) cancelled request handshake :: 'p dispatched) of
      Finished (Inl TimedOut) \<Rightarrow> \<exists>route i. dp_observed (dispatch R table (Inr ()) cancelled request handshake :: 'p dispatched) =
        [observe_failure (ir_request_id request) route i DeadlineExceeded]
    | Finished (Inl EndpointUnavailable) \<Rightarrow>
        rt_websocket_policy table = None \<or>
        (\<exists>route i f. dp_observed (dispatch R table (Inr ()) cancelled request handshake :: 'p dispatched) =
           [observe_failure (ir_request_id request) route i f] \<and> f \<noteq> DeadlineExceeded)
    | _ \<Rightarrow> dp_observed (dispatch R table (Inr ()) cancelled request handshake :: 'p dispatched) = [])"
proof -
  have nr: "dp_observed (no_route R table p :: 'p dispatched) = [] \<and>
      (\<exists>e. dp_outcome (no_route R table p :: 'p dispatched) = Finished (Inl e) \<and>
         e \<noteq> TimedOut \<and> e \<noteq> EndpointUnavailable)" for p
    by (simp add: no_route_def dispatch_err_def Let_def)
  define P :: "'p dispatched \<Rightarrow> bool" where "P d \<longleftrightarrow> (case dp_outcome d of
      Finished (Inl TimedOut) \<Rightarrow> \<exists>route i. dp_observed d =
        [observe_failure (ir_request_id request) route i DeadlineExceeded]
    | Finished (Inl EndpointUnavailable) \<Rightarrow> rt_websocket_policy table = None \<or>
        (\<exists>route i f. dp_observed d = [observe_failure (ir_request_id request) route i f] \<and>
           f \<noteq> DeadlineExceeded)
    | _ \<Rightarrow> dp_observed d = [])" for d
  have err: "P (dispatch_err e)" if "e \<noteq> TimedOut" "e \<noteq> EndpointUnavailable" for e
    using that by (auto simp: P_def dispatch_err_def split: DispatchError.splits)
  have err': "P ((dispatch_err e)\<lparr>dp_stream_cancelled := c\<rparr>)"
    if "e \<noteq> TimedOut" "e \<noteq> EndpointUnavailable" for e c
    using that by (auto simp: P_def dispatch_err_def split: DispatchError.splits)
  have run: "P (runtime_dispatch_error (ir_request_id request) route i f)" for route i f
    by (auto simp: P_def runtime_dispatch_error_def)
  have none: "rt_websocket_policy table = None \<Longrightarrow> P (dispatch_err EndpointUnavailable)"
    by (simp add: P_def dispatch_err_def)
  have quiet: "dp_observed d = [] \<Longrightarrow> dp_outcome d \<noteq> Finished (Inl TimedOut) \<Longrightarrow>
      dp_outcome d \<noteq> Finished (Inl EndpointUnavailable) \<Longrightarrow> P d" for d
    by (auto simp: P_def split: progress.splits sum.splits DispatchError.splits)
  have "P (invoke_buffered table cancelled request route params i)" for route params i
    by (auto simp: invoke_buffered_def intro: err run quiet split: sum.splits InvocationError.splits)
  moreover have "P (invoke_streaming table cancelled request route params i)" for route params i
    by (auto simp: invoke_streaming_def intro: err err' run quiet
        split: sum.splits InvocationError.splits head_result.splits option.splits)
  moreover have "P (invoke_websocket table cancelled request handshake route params i)" for route params i
    by (auto simp: invoke_websocket_def intro: err err' run quiet none
        split: option.splits sum.splits InvocationError.splits ConnectWebsocketError.splits
          list.splits prod.splits)
  moreover have "P (no_route R table p)" for p
    by (auto simp: no_route_def Let_def intro: err)
  ultimately have "P (dispatch R table (Inr ()) cancelled request handshake)"
    by (auto simp: dispatch_def Let_def split: option.splits RouteProvider.splits)
  then show ?thesis by (simp add: P_def)
qed

end
