(* ===== verification/OpenApiContract.thy ===== *)
theory OpenApiContract
  imports Json "HOL-Library.Product_Lexorder"
begin

text \<open>
  The OpenAPI plugin's document policy (\<open>config.rs\<close>) and its validation of a type-derived
  contract fragment against an authored operation (\<open>contract.rs\<close>). \<open>to_string\<close>, the compact
  text of a JSON value that orders \<open>required\<close> and \<open>enum\<close> arrays, is the serializer of
  \<open>serde_json\<close> and a parameter. Following schema references is recursion with no structural
  measure, so \<open>canonical_schema_with_root\<close> takes fuel; \<open>schema_fuel\<close> computes how much is
  always enough. An \<open>expect\<close> that fails is the error \<open>Panic\<close>.
\<close>

record OpenApiServer =
  oas_url :: string
  oas_description :: "string option"

record OpenApiConfig =
  oac_title :: string
  oac_version :: string
  oac_description :: "string option"
  oac_document_path :: string
  oac_servers :: "OpenApiServer list"
  oac_components :: "json_object option"

definition openapi_config_validate :: "OpenApiConfig \<Rightarrow> string + unit" where
  "openapi_config_validate c =
     (if trim (oac_title c) = [] then Inl ''title must not be empty''
      else if trim (oac_version c) = [] then Inl ''version must not be empty''
      else if \<not> starts_with (oac_document_path c) ''/'' \<or> list_ex (\<lambda>x. x \<in> set ''?#{}'') (oac_document_path c)
      then Inl ''document_path must be one static absolute path''
      else if list_ex (\<lambda>server. trim (oas_url server) = []) (oac_servers c)
      then Inl ''server URLs must not be empty''
      else Inr ())"

definition default_openapi_config :: OpenApiConfig where
  "default_openapi_config = \<lparr>oac_title = ''Lenso App'', oac_version = ''0.0.0'', oac_description = None,
     oac_document_path = ''/openapi.json'', oac_servers = [], oac_components = None\<rparr>"

datatype contract_error = ContractError string | Panic | OutOfFuel

definition route_error :: "string \<Rightarrow> string \<Rightarrow> contract_error" where
  "route_error route_id detail = ContractError (''route '' @ route_id @ detail)"

section \<open>References\<close>

definition component :: "OpenApiConfig \<Rightarrow> string \<Rightarrow> string \<Rightarrow> json option" where
  "component config section' name =
     Option.bind (oac_components config) (\<lambda>components.
       Option.bind (get_object components section') (\<lambda>m. bt_get m name))"

definition resolve_component ::
  "OpenApiConfig \<Rightarrow> json \<Rightarrow> string \<Rightarrow> string \<Rightarrow> contract_error + json" where
  "resolve_component config value section' route_id =
     (case Option.bind (json_get value ''$ref'') as_str of
        None \<Rightarrow> Inr value
      | Some reference \<Rightarrow>
          (case strip_prefix reference (''#/components/'' @ section' @ ''/'') of
             None \<Rightarrow> Inl (route_error route_id ('' uses unsupported OpenAPI reference '' @ reference))
           | Some name \<Rightarrow>
               if name = [] \<or> CHR ''/'' \<in> set name
               then Inl (route_error route_id ('' uses invalid OpenAPI reference '' @ reference))
               else ok_or (component config section' name)
                 (route_error route_id ('' references missing OpenAPI component '' @ reference))))"

definition resolve_schema_reference ::
  "OpenApiConfig \<Rightarrow> string \<Rightarrow> json \<Rightarrow> string \<Rightarrow> contract_error + json \<times> json \<times> string" where
  "resolve_schema_reference config reference local_root route_id =
     (case strip_prefix reference ''#/$defs/'' of
        Some name \<Rightarrow>
          try_in (ok_or (Option.bind (Option.bind (json_get local_root ''$defs'') as_object) (\<lambda>m. bt_get m name))
              (route_error route_id ('' references missing local OpenAPI definition '' @ reference))) (\<lambda>target.
            Inr (target, local_root, ''local:'' @ reference))
      | None \<Rightarrow>
          (case strip_prefix reference ''#/components/schemas/'' of
             None \<Rightarrow> Inl (route_error route_id ('' uses unsupported OpenAPI schema reference '' @ reference))
           | Some name \<Rightarrow>
               if name = [] \<or> CHR ''/'' \<in> set name
               then Inl (route_error route_id ('' uses invalid OpenAPI schema reference '' @ reference))
               else try_in (ok_or (component config ''schemas'' name)
                   (route_error route_id ('' references missing OpenAPI schema component '' @ reference))) (\<lambda>target.
                 Inr (target, target, ''component:'' @ reference))))"

section \<open>Canonical schemas\<close>

definition ignored_schema_keyword :: "string \<Rightarrow> bool" where
  "ignored_schema_keyword key \<longleftrightarrow> key \<in> set [''$schema'', ''$id'', ''title'', ''description'', ''examples'',
     ''example'', ''default'', ''deprecated'', ''readOnly'', ''writeOnly'']"

definition sort_json_array :: "(json \<Rightarrow> string) \<Rightarrow> json \<Rightarrow> json" where
  "sort_json_array to_string value =
     (case value of JArray values \<Rightarrow> JArray (sort_key to_string values) | _ \<Rightarrow> value)"

text \<open>The loops over the entries of an object and the elements of an array; \<open>rec\<close> is the recursive call.\<close>

definition canonical_entries ::
  "(json \<Rightarrow> string set \<Rightarrow> contract_error + json \<times> string set) \<Rightarrow> (string \<Rightarrow> bool) \<Rightarrow> (string \<Rightarrow> json \<Rightarrow> json) \<Rightarrow>
   json_object \<times> string set \<Rightarrow> json_object \<Rightarrow> contract_error + json_object \<times> string set" where
  "canonical_entries rec skip adjust = fold_res (\<lambda>(normalized, references) (key, value).
     if skip key then Inr (normalized, references)
     else try_in (rec value references) (\<lambda>(value', references').
       Inr (bt_insert key (adjust key value') normalized, references')))"

definition canonical_elements ::
  "(json \<Rightarrow> string set \<Rightarrow> contract_error + json \<times> string set) \<Rightarrow>
   json list \<times> string set \<Rightarrow> json list \<Rightarrow> contract_error + json list \<times> string set" where
  "canonical_elements rec = fold_res (\<lambda>(values, references) value.
     try_in (rec value references) (\<lambda>(value', references'). Inr (values @ [value'], references')))"

fun canonical_schema_with_root ::
  "nat \<Rightarrow> (json \<Rightarrow> string) \<Rightarrow> OpenApiConfig \<Rightarrow> string \<Rightarrow> json \<Rightarrow> json \<Rightarrow> string set \<Rightarrow>
   contract_error + json \<times> string set" where
  "canonical_schema_with_root 0 to_string config route_id local_root schema references = Inl OutOfFuel"
| "canonical_schema_with_root (Suc n) to_string config route_id local_root schema references =
     (case schema of
        JObject object \<Rightarrow>
          (case get_str object ''$ref'' of
             Some reference \<Rightarrow>
               try_in (resolve_schema_reference config reference local_root route_id) (\<lambda>(target, target_root, key).
                 if key \<in> references
                 then Inl (route_error route_id ('' has a cyclic OpenAPI schema reference '' @ reference))
                 else try_in (canonical_schema_with_root n to_string config route_id target_root target
                     (insert key references)) (\<lambda>(normalized, references').
                   case as_object normalized of
                     None \<Rightarrow> Inl (route_error route_id ('' OpenAPI schema reference '' @ reference @
                       '' did not resolve to an object''))
                   | Some normalized_object \<Rightarrow>
                       try_in (canonical_entries (canonical_schema_with_root n to_string config route_id local_root)
                           (\<lambda>key. key = ''$ref'' \<or> ignored_schema_keyword key) (\<lambda>_ v. v)
                           (normalized_object, references' - {key}) object) (\<lambda>(m, references'').
                         Inr (JObject m, references''))))
           | None \<Rightarrow>
               try_in (canonical_entries (canonical_schema_with_root n to_string config route_id local_root)
                   (\<lambda>key. ignored_schema_keyword key \<or> key = ''$defs'')
                   (\<lambda>key v. if key = ''required'' \<or> key = ''enum'' then sort_json_array to_string v else v)
                   ([], references) object) (\<lambda>(m, references').
                 Inr (JObject m, references')))
      | JArray values \<Rightarrow>
          try_in (canonical_elements (canonical_schema_with_root n to_string config route_id local_root)
              ([], references) values) (\<lambda>(xs, references'). Inr (JArray xs, references'))
      | _ \<Rightarrow> Inr (schema, references))"

text \<open>Fuel: the schemas a reference can reach are the root's and the components' subterms.\<close>

definition schema_fuel :: "OpenApiConfig \<Rightarrow> json \<Rightarrow> nat" where
  "schema_fuel config schema =
     (let total = nodes schema + (case oac_components config of None \<Rightarrow> 0 | Some m \<Rightarrow> nodes (JObject m))
      in Suc (2 * total * Suc total + total))"

definition canonical_schema ::
  "(json \<Rightarrow> string) \<Rightarrow> OpenApiConfig \<Rightarrow> json \<Rightarrow> string \<Rightarrow> contract_error + json" where
  "canonical_schema to_string config schema route_id =
     try_in (canonical_schema_with_root (schema_fuel config schema) to_string config route_id schema schema {})
       (\<lambda>(normalized, _). Inr normalized)"

section \<open>Parameters, request bodies and responses\<close>

record Parameter =
  par_required :: bool
  par_schema :: json

record RequestBody =
  rb_required :: bool
  rb_schema :: json

record Response =
  rsp_media_type :: string
  rsp_schema :: json

definition require_string ::
  "json_object \<Rightarrow> string \<Rightarrow> string \<Rightarrow> string \<Rightarrow> contract_error + unit" where
  "require_string contract field actual route_id =
     try_in (ok_or (get_str contract field)
         (route_error route_id ('' has a generated contract without string '' @ field))) (\<lambda>expected.
       if expected \<noteq> actual
       then Inl (route_error route_id ('' strict OpenAPI contract drifted '' @ field @ '': generated `'' @ expected @
         ''`, declared `'' @ actual @ ''`''))
       else Inr ())"

definition validate_parameter_serialization ::
  "json_object \<Rightarrow> string \<Rightarrow> string \<Rightarrow> string \<Rightarrow> contract_error + unit" where
  "validate_parameter_serialization parameter location route_id name =
     (let default_style = (if location = ''path'' then ''simple'' else ''form'');
          default_explode = (location = ''query'')
      in if (case get_str parameter ''style'' of None \<Rightarrow> False | Some style \<Rightarrow> style \<noteq> default_style)
         then Inl (route_error route_id ('' strict OpenAPI '' @ location @ '' parameter '' @ name @
           '' uses a non-default serialization style''))
         else if (case get_bool parameter ''explode'' of None \<Rightarrow> False | Some explode \<Rightarrow> explode \<noteq> default_explode)
         then Inl (route_error route_id ('' strict OpenAPI '' @ location @ '' parameter '' @ name @
           '' uses a non-default explode setting''))
         else if get_bool parameter ''allowReserved'' = Some True
         then Inl (route_error route_id ('' strict OpenAPI '' @ location @ '' parameter '' @ name @ '' sets allowReserved''))
         else Inr ())"

definition insert_parameter ::
  "(json \<Rightarrow> string) \<Rightarrow> OpenApiConfig \<Rightarrow> string \<Rightarrow> string \<Rightarrow> (string \<times> string, Parameter) btree \<Rightarrow> json \<Rightarrow>
   contract_error + (string \<times> string, Parameter) btree" where
  "insert_parameter to_string config route_id origin parameters value =
     try_in (resolve_component config value ''parameters'' route_id) (\<lambda>value.
     try_in (ok_or (as_object value)
         (route_error route_id ('' has a non-object '' @ origin @ '' OpenAPI parameter''))) (\<lambda>object.
     try_in (ok_or (get_str object ''in'')
         (route_error route_id '' has an OpenAPI parameter without a location'')) (\<lambda>location.
       if location \<notin> {''path'', ''query''} then Inr parameters
       else
         try_in (ok_or (get_str object ''name'')
             (route_error route_id ('' has a '' @ location @ '' parameter without a name''))) (\<lambda>name.
         try_in (ok_or (get_bool object ''required'')
             (route_error route_id ('' '' @ location @ '' parameter '' @ name @ '' must declare required''))) (\<lambda>required.
           if location = ''path'' \<and> \<not> required
           then Inl (route_error route_id ('' path parameter '' @ name @ '' must be required''))
           else
             try_in (validate_parameter_serialization object location route_id name) (\<lambda>_.
             try_in (ok_or (bt_get object ''schema'')
                 (route_error route_id ('' '' @ location @ '' parameter '' @ name @ '' has no schema''))) (\<lambda>schema.
             try_in (canonical_schema to_string config schema route_id) (\<lambda>schema'.
               if bt_get parameters (location, name) \<noteq> None
               then Inl (route_error route_id ('' declares the same '' @ location @ '' parameter '' @ name @
                 '' more than once''))
               else Inr (bt_insert (location, name) \<lparr>par_required = required, par_schema = schema'\<rparr> parameters)))))))))"

definition parameter_map ::
  "(json \<Rightarrow> string) \<Rightarrow> OpenApiConfig \<Rightarrow> string \<Rightarrow> json option \<Rightarrow> string \<Rightarrow>
   contract_error + (string \<times> string, Parameter) btree" where
  "parameter_map to_string config route_id value origin =
     (case value of
        None \<Rightarrow> Inr []
      | Some value \<Rightarrow>
          try_in (ok_or (as_array value)
              (route_error route_id ('' has non-array '' @ origin @ '' OpenAPI parameters''))) (\<lambda>vs.
            fold_res (insert_parameter to_string config route_id origin) [] vs))"

text \<open>The loop that compares two maps whose keys were compared before.\<close>

definition compare_entries ::
  "('k \<Rightarrow> contract_error) \<Rightarrow> ('k, 'v) btree \<Rightarrow> ('k, 'v) btree \<Rightarrow> contract_error + unit" where
  "compare_entries differs expected actual =
     fold_res (\<lambda>_ (key, e). case bt_get actual key of
         None \<Rightarrow> Inl Panic
       | Some a \<Rightarrow> if e \<noteq> a then Inl (differs key) else Inr ()) () expected"

definition validate_parameters ::
  "(json \<Rightarrow> string) \<Rightarrow> OpenApiConfig \<Rightarrow> string \<Rightarrow> json_object \<Rightarrow> json_object \<Rightarrow> contract_error + unit" where
  "validate_parameters to_string config route_id expected operation =
     try_in (parameter_map to_string config route_id (bt_get expected ''parameters'') ''generated'') (\<lambda>expected.
     try_in (parameter_map to_string config route_id (bt_get operation ''parameters'') ''authored'') (\<lambda>actual.
       if map fst expected \<noteq> map fst actual
       then Inl (route_error route_id '' strict OpenAPI path or query parameters differ from its typed handler'')
       else compare_entries (\<lambda>key. route_error route_id ('' strict OpenAPI '' @ fst key @ '' parameter `'' @ snd key @
         ''` differs from its typed handler'')) expected actual))"

definition media_schema ::
  "(json \<Rightarrow> string) \<Rightarrow> OpenApiConfig \<Rightarrow> string \<Rightarrow> json_object \<Rightarrow> string \<Rightarrow> string \<Rightarrow> contract_error + json" where
  "media_schema to_string config route_id object expected_media_type origin =
     try_in (ok_or (get_object object ''content'')
         (route_error route_id ('' '' @ origin @ '' OpenAPI content must be an object''))) (\<lambda>content.
       if length content \<noteq> 1 \<or> bt_get content expected_media_type = None
       then Inl (route_error route_id ('' '' @ origin @ '' OpenAPI content must contain only '' @ expected_media_type))
       else
         try_in (ok_or (get_object content expected_media_type)
             (route_error route_id ('' '' @ origin @ '' OpenAPI '' @ expected_media_type @ '' content must be an object'')))
           (\<lambda>media.
         try_in (ok_or (bt_get media ''schema'')
             (route_error route_id ('' '' @ origin @ '' OpenAPI '' @ expected_media_type @ '' content has no schema'')))
           (\<lambda>schema. canonical_schema to_string config schema route_id)))"

definition request_body ::
  "(json \<Rightarrow> string) \<Rightarrow> OpenApiConfig \<Rightarrow> string \<Rightarrow> json \<Rightarrow> string \<Rightarrow> contract_error + RequestBody" where
  "request_body to_string config route_id value origin =
     try_in (ok_or (as_object value)
         (route_error route_id ('' has a non-object '' @ origin @ '' OpenAPI requestBody''))) (\<lambda>object.
     try_in (media_schema to_string config route_id object ''application/json'' origin) (\<lambda>schema.
       Inr \<lparr>rb_required = (get_bool object ''required'' = Some True), rb_schema = schema\<rparr>))"

definition validate_request_body ::
  "(json \<Rightarrow> string) \<Rightarrow> OpenApiConfig \<Rightarrow> string \<Rightarrow> json_object \<Rightarrow> json_object \<Rightarrow> contract_error + unit" where
  "validate_request_body to_string config route_id expected operation =
     (case (bt_get expected ''requestBody'', bt_get operation ''requestBody'') of
        (None, None) \<Rightarrow> Inr ()
      | (Some expected, Some actual) \<Rightarrow>
          try_in (resolve_component config expected ''requestBodies'' route_id) (\<lambda>expected.
          try_in (resolve_component config actual ''requestBodies'' route_id) (\<lambda>actual.
          try_in (request_body to_string config route_id expected ''generated'') (\<lambda>expected.
          try_in (request_body to_string config route_id actual ''authored'') (\<lambda>actual.
            if expected \<noteq> actual
            then Inl (route_error route_id '' strict OpenAPI JSON request body differs from its typed handler'')
            else Inr ()))))
      | _ \<Rightarrow> Inl (route_error route_id '' strict OpenAPI request body differs from its typed handler''))"

definition is_status_code :: "string \<Rightarrow> bool" where
  "is_status_code status \<longleftrightarrow>
     length status = 3 \<and> (case parse_usize status of None \<Rightarrow> False | Some n \<Rightarrow> n \<in> {100..599})"

definition insert_response ::
  "(json \<Rightarrow> string) \<Rightarrow> OpenApiConfig \<Rightarrow> string \<Rightarrow> string \<Rightarrow> (string, Response) btree \<Rightarrow> string \<times> json \<Rightarrow>
   contract_error + (string, Response) btree" where
  "insert_response to_string config route_id origin responses entry =
     (case entry of (status, value) \<Rightarrow>
        if \<not> is_status_code status
        then Inl (route_error route_id ('' strict OpenAPI response key '' @ status @ '' is not an explicit HTTP status''))
        else
          try_in (resolve_component config value ''responses'' route_id) (\<lambda>value.
          try_in (ok_or (as_object value)
              (route_error route_id ('' has a non-object '' @ origin @ '' response '' @ status))) (\<lambda>object.
            let media_type = (if starts_with status ''2'' then ''application/json'' else ''application/problem+json'')
            in try_in (media_schema to_string config route_id object media_type origin) (\<lambda>schema.
              Inr (bt_insert status \<lparr>rsp_media_type = media_type, rsp_schema = schema\<rparr> responses)))))"

definition response_map ::
  "(json \<Rightarrow> string) \<Rightarrow> OpenApiConfig \<Rightarrow> string \<Rightarrow> json option \<Rightarrow> string \<Rightarrow> contract_error + (string, Response) btree" where
  "response_map to_string config route_id value origin =
     try_in (ok_or (Option.bind value as_object)
         (route_error route_id ('' has a non-object '' @ origin @ '' OpenAPI responses field''))) (\<lambda>object.
       fold_res (insert_response to_string config route_id origin) [] object)"

definition validate_responses ::
  "(json \<Rightarrow> string) \<Rightarrow> OpenApiConfig \<Rightarrow> string \<Rightarrow> json_object \<Rightarrow> json_object \<Rightarrow> contract_error + unit" where
  "validate_responses to_string config route_id expected operation =
     try_in (response_map to_string config route_id (bt_get expected ''responses'') ''generated'') (\<lambda>expected.
     try_in (response_map to_string config route_id (bt_get operation ''responses'') ''authored'') (\<lambda>actual.
       if map fst expected \<noteq> map fst actual
       then Inl (route_error route_id
         '' strict OpenAPI success or known error responses differ from its typed handler'')
       else compare_entries (\<lambda>status. route_error route_id ('' strict OpenAPI response '' @ status @
         '' differs from its typed handler'')) expected actual))"

definition contract_validate ::
  "(json \<Rightarrow> string) \<Rightarrow> OpenApiConfig \<Rightarrow> string \<Rightarrow> string \<Rightarrow> string \<Rightarrow> json_object \<Rightarrow> json \<Rightarrow> contract_error + unit" where
  "contract_validate to_string config route_id route_method path operation contract =
     try_in (ok_or (as_object contract)
         (route_error route_id '' has a non-object generated strict OpenAPI contract'')) (\<lambda>contract.
     try_in (require_string contract ''route_id'' route_id route_id) (\<lambda>_.
     try_in (require_string contract ''method'' route_method route_id) (\<lambda>_.
     try_in (require_string contract ''path'' path route_id) (\<lambda>_.
     try_in (ok_or (get_object contract ''operation'')
         (route_error route_id '' has a generated contract without an operation'')) (\<lambda>expected.
     try_in (validate_parameters to_string config route_id expected operation) (\<lambda>_.
     try_in (validate_request_body to_string config route_id expected operation) (\<lambda>_.
       validate_responses to_string config route_id expected operation)))))))"

section \<open>Following references ends\<close>

lemma fold_res_not_error:
  assumes "P s" and "\<And>s x. P s \<Longrightarrow> x \<in> set xs \<Longrightarrow> f s x \<noteq> Inl e"
    and "\<And>s x s'. P s \<Longrightarrow> x \<in> set xs \<Longrightarrow> f s x = Inr s' \<Longrightarrow> P s'"
  shows "fold_res f s xs \<noteq> Inl e"
  using assms
proof (induction xs arbitrary: s)
  case (Cons x xs)
  show ?case
  proof (cases "f s x")
    case (Inl e')
    then show ?thesis using Cons.prems(2) [OF Cons.prems(1), of x] by simp
  next
    case (Inr s')
    then have "P s'" using Cons.prems(3) [OF Cons.prems(1), of x] by simp
    then have "fold_res f s' xs \<noteq> Inl e"
    proof (rule Cons.IH)
      show "f t y \<noteq> Inl e" if "P t" "y \<in> set xs" for t y
        using Cons.prems(2) [of t y] that by simp
      show "P t'" if "P t" "y \<in> set xs" "f t y = Inr t'" for t y t'
        using Cons.prems(3) [of t y t'] that by simp
    qed
    with Inr show ?thesis by simp
  qed
qed simp

lemma canonical_entries_refs:
  assumes "canonical_entries rec skip adjust (m, refs) object = Inr (m', refs')"
    and "\<And>k x v r. (k, x) \<in> set object \<Longrightarrow> rec x refs = Inr (v, r) \<Longrightarrow> r = refs"
  shows "refs' = refs"
proof -
  have "snd (m', refs') = refs"
    by (rule fold_res_invariant [OF assms(1) [unfolded canonical_entries_def], of "\<lambda>s. snd s = refs"])
      (auto simp: try_in_Inr_iff dest: assms(2) split: if_splits)
  then show ?thesis by simp
qed

lemma canonical_elements_refs:
  assumes "canonical_elements rec (xs, refs) values = Inr (xs', refs')"
    and "\<And>x v r. x \<in> set values \<Longrightarrow> rec x refs = Inr (v, r) \<Longrightarrow> r = refs"
  shows "refs' = refs"
proof -
  have "snd (xs', refs') = refs"
    by (rule fold_res_invariant [OF assms(1) [unfolded canonical_elements_def], of "\<lambda>s. snd s = refs"])
      (auto simp: try_in_Inr_iff dest: assms(2))
  then show ?thesis by simp
qed

text \<open>How a normalization succeeds.\<close>

lemma canonical_Inr_cases:
  assumes "canonical_schema_with_root (Suc n) T config rid root schema refs = Inr (v, refs')"
  obtains (ref) object reference target troot key nobj r1 m where "schema = JObject object"
      and "get_str object ''$ref'' = Some reference"
      and "resolve_schema_reference config reference root rid = Inr (target, troot, key)" and "key \<notin> refs"
      and "canonical_schema_with_root n T config rid troot target (insert key refs) = Inr (JObject nobj, r1)"
      and "canonical_entries (canonical_schema_with_root n T config rid root)
        (\<lambda>key. key = ''$ref'' \<or> ignored_schema_keyword key) (\<lambda>_ v. v) (nobj, r1 - {key}) object = Inr (m, refs')"
      and "v = JObject m"
  | (object) object m where "schema = JObject object" and "get_str object ''$ref'' = None"
      and "canonical_entries (canonical_schema_with_root n T config rid root)
        (\<lambda>key. ignored_schema_keyword key \<or> key = ''$defs'')
        (\<lambda>key v. if key = ''required'' \<or> key = ''enum'' then sort_json_array T v else v)
        ([], refs) object = Inr (m, refs')"
      and "v = JObject m"
  | (array) vs xs where "schema = JArray vs"
      and "canonical_elements (canonical_schema_with_root n T config rid root) ([], refs) vs = Inr (xs, refs')"
      and "v = JArray xs"
  | (scalar) "v = schema" and "refs' = refs" and "as_object schema = None" and "as_array schema = None"
proof (cases schema)
  case (JObject obj)
  show thesis
  proof (cases "get_str obj ''$ref''")
    case None
    with assms JObject object show thesis by (auto simp: try_in_Inr_iff)
  next
    case (Some reference)
    with assms JObject ref show thesis
      by (auto simp: try_in_Inr_iff split: if_splits option.splits)
  qed
next
  case (JArray vs)
  with assms array show thesis by (auto simp: try_in_Inr_iff)
qed (use assms scalar in \<open>auto simp: json_access_defs\<close>)

lemma canonical_refs_restored:
  "canonical_schema_with_root n T config rid root schema refs = Inr (v, refs') \<Longrightarrow> refs' = refs"
proof (induction n arbitrary: root schema refs v refs')
  case (Suc n)
  from Suc.prems show ?case
  proof (cases rule: canonical_Inr_cases)
    case (ref object reference target troot key nobj r1 m)
    have "r1 - {key} = refs" using Suc.IH [OF ref(5)] ref(4) by auto
    with canonical_entries_refs [OF ref(6)] Suc.IH show ?thesis by metis
  next
    case (object object m)
    from canonical_entries_refs [OF object(3)] Suc.IH show ?thesis by metis
  next
    case (array vs xs)
    from canonical_elements_refs [OF array(2)] Suc.IH show ?thesis by metis
  qed simp
qed simp

text \<open>More fuel changes nothing once there is enough.\<close>

lemma fold_res_more_fuel:
  assumes "fold_res f s xs \<noteq> Inl e" and "\<And>s x. x \<in> set xs \<Longrightarrow> f s x \<noteq> Inl e \<Longrightarrow> g s x = f s x"
  shows "fold_res g s xs = fold_res f s xs"
  using assms
proof (induction xs arbitrary: s)
  case (Cons x xs)
  then have "g s x = f s x" by (auto simp: try_in_Inl_iff)
  with Cons show ?case by (cases "f s x") auto
qed simp

lemma canonical_entries_more_fuel:
  assumes "canonical_entries f skip adjust s object \<noteq> Inl e"
    and "\<And>k x r. (k, x) \<in> set object \<Longrightarrow> f x r \<noteq> Inl e \<Longrightarrow> g x r = f x r"
  shows "canonical_entries g skip adjust s object = canonical_entries f skip adjust s object"
  using assms(1) unfolding canonical_entries_def
  by (rule fold_res_more_fuel) (auto simp: try_in_Inl_iff split: if_splits intro!: arg_cong2 [of _ _ _ _ try_in] assms(2))

lemma canonical_elements_more_fuel:
  assumes "canonical_elements f s values \<noteq> Inl e"
    and "\<And>x r. x \<in> set values \<Longrightarrow> f x r \<noteq> Inl e \<Longrightarrow> g x r = f x r"
  shows "canonical_elements g s values = canonical_elements f s values"
  using assms(1) unfolding canonical_elements_def
  by (rule fold_res_more_fuel) (auto simp: try_in_Inl_iff intro!: arg_cong2 [of _ _ _ _ try_in] assms(2))

lemma canonical_more_fuel:
  assumes "canonical_schema_with_root n T config rid root schema refs \<noteq> Inl OutOfFuel"
  shows "canonical_schema_with_root (Suc n) T config rid root schema refs =
    canonical_schema_with_root n T config rid root schema refs"
  using assms
proof (induction n arbitrary: root schema refs)
  case (Suc n)
  let ?c = "\<lambda>n. canonical_schema_with_root n T config rid"
  have entries: "canonical_entries (?c (Suc n) root) skip adjust s object = canonical_entries (?c n root) skip adjust s object"
    if "canonical_entries (?c n root) skip adjust s object \<noteq> Inl OutOfFuel" for skip adjust s object
    using that Suc.IH by (rule canonical_entries_more_fuel)
  show ?case
  proof (cases schema)
    case (JObject object)
    show ?thesis
    proof (cases "get_str object ''$ref''")
      case None
      from Suc.prems None JObject entries show ?thesis by (simp add: try_in_Inl_iff)
    next
      case (Some reference)
      show ?thesis
      proof (cases "resolve_schema_reference config reference root rid")
        case (Inr x)
        obtain target troot key where x: "x = (target, troot, key)" by (cases x)
        show ?thesis
        proof (cases "key \<in> refs")
          case False
          have "?c n troot target (insert key refs) \<noteq> Inl OutOfFuel"
            using Suc.prems Some JObject Inr x False by (auto simp: try_in_Inl_iff)
          then have t: "?c (Suc n) troot target (insert key refs) = ?c n troot target (insert key refs)"
            by (rule Suc.IH)
          show ?thesis
          proof (cases "?c n troot target (insert key refs)")
            case (Inl e)
            with t Some JObject Inr x False show ?thesis by simp
          next
            case (Inr y)
            obtain v r1 where y: "y = (v, r1)" by (cases y)
            show ?thesis
              using Suc.prems Some JObject \<open>resolve_schema_reference config reference root rid = Inr x\<close> x False Inr y t
                entries
              by (cases "as_object v") (simp_all add: try_in_Inl_iff del: json_access_Some)
          qed
        qed (use Some JObject Inr x in simp)
      qed (use Some JObject in simp)
    qed
  next
    case (JArray vs)
    have "canonical_elements (?c (Suc n) root) ([], refs) vs = canonical_elements (?c n root) ([], refs) vs"
      by (rule canonical_elements_more_fuel [OF _ Suc.IH]) (use Suc.prems JArray in \<open>auto simp: try_in_Inl_iff\<close>)
    with JArray show ?thesis by simp
  qed simp_all
qed simp

lemma canonical_fuel_le:
  assumes "canonical_schema_with_root n T config rid root schema refs \<noteq> Inl OutOfFuel" and "n \<le> n'"
  shows "canonical_schema_with_root n' T config rid root schema refs =
    canonical_schema_with_root n T config rid root schema refs"
  using assms(2) by (induction n' rule: dec_induct) (use assms(1) canonical_more_fuel in auto)

definition schema_world :: "OpenApiConfig \<Rightarrow> json \<Rightarrow> json set" where
  "schema_world config schema =
     subterms schema \<union> (case oac_components config of None \<Rightarrow> {} | Some m \<Rightarrow> subterms (JObject m))"

definition reference_keys :: "OpenApiConfig \<Rightarrow> json \<Rightarrow> string set" where
  "reference_keys config schema =
     (\<lambda>r. ''local:'' @ r) ` {r. JString r \<in> schema_world config schema} \<union>
     (\<lambda>r. ''component:'' @ r) ` {r. JString r \<in> schema_world config schema}"

lemma finite_world [simp]: "finite (schema_world config schema)"
  by (simp add: schema_world_def split: option.splits)

lemma schema_world_closed:
  "b \<in> schema_world config schema \<Longrightarrow> a \<in> subterms b \<Longrightarrow> a \<in> schema_world config schema"
  by (auto simp: schema_world_def intro: subterms_trans split: option.splits)

lemma bt_get_subterm: "bt_get m k = Some v \<Longrightarrow> v \<in> subterms (JObject m)"
  using map_of_SomeD by fastforce

lemma resolve_schema_reference_world:
  assumes "resolve_schema_reference config reference root rid = Inr (target, troot, key)"
    and "root \<in> schema_world config schema" and "JString reference \<in> schema_world config schema"
  shows "target \<in> schema_world config schema" and "troot \<in> schema_world config schema"
    and "key \<in> reference_keys config schema"
proof -
  have comp: "v \<in> schema_world config schema" if "component config sect name = Some v" for sect name v
  proof -
    from that obtain m m' where "oac_components config = Some m" "bt_get m sect = Some (JObject m')"
      "bt_get m' name = Some v"
      by (auto simp: component_def bind_eq_Some_conv result_simps)
    then have "v \<in> subterms (JObject m)"
      using subterms_trans [OF bt_get_subterm bt_get_subterm] by blast
    with \<open>oac_components config = Some m\<close> show ?thesis by (auto simp: schema_world_def)
  qed
  have loc: "v \<in> schema_world config schema"
    if "Option.bind (Option.bind (json_get root ''$defs'') as_object) (\<lambda>m. bt_get m name) = Some v" for name v
  proof -
    from that obtain m m' where "root = JObject m" "bt_get m ''$defs'' = Some (JObject m')" "bt_get m' name = Some v"
      by (auto simp: json_get_def bind_eq_Some_conv)
    then have "v \<in> subterms root" using subterms_trans [OF bt_get_subterm bt_get_subterm] by blast
    then show ?thesis by (rule schema_world_closed [OF assms(2)])
  qed
  have "target \<in> schema_world config schema \<and> troot \<in> schema_world config schema \<and>
      key \<in> reference_keys config schema"
    using assms comp loc unfolding resolve_schema_reference_def reference_keys_def
    by (auto simp: try_in_Inr_iff ok_or_Inr_iff split: option.splits if_splits)
  then show "target \<in> schema_world config schema" and "troot \<in> schema_world config schema"
    and "key \<in> reference_keys config schema" by blast+
qed

lemma get_str_world:
  assumes "JObject object \<in> schema_world config schema" and "get_str object k = Some r"
  shows "JString r \<in> schema_world config schema"
  by (rule schema_world_closed [OF assms(1) bt_get_subterm [of _ k]]) (use assms(2) in \<open>simp add: result_simps\<close>)

lemma reference_keys_finite: "finite (reference_keys config schema)"
proof -
  have "finite (JString -` schema_world config schema)"
    by (rule finite_vimageI) (auto intro: injI)
  then show ?thesis by (simp add: reference_keys_def vimage_def)
qed

lemma card_reference_keys:
  "card (reference_keys config schema) \<le> 2 * card (schema_world config schema)"
proof -
  let ?R = "{r. JString r \<in> schema_world config schema}"
  have "JString ` ?R \<subseteq> schema_world config schema" by auto
  then have "finite (JString ` ?R)" and le: "card (JString ` ?R) \<le> card (schema_world config schema)"
    by (auto intro: finite_subset card_mono)
  moreover have "inj_on JString ?R" by (rule inj_onI) simp
  ultimately have fin: "finite ?R" and le: "card ?R \<le> card (schema_world config schema)"
    by (auto simp: finite_image_iff card_image)
  have "card (reference_keys config schema) \<le> card ((\<lambda>r. ''local:'' @ r) ` ?R) + card ((\<lambda>r. ''component:'' @ r) ` ?R)"
    unfolding reference_keys_def by (rule card_Un_le)
  also have "\<dots> \<le> card ?R + card ?R" by (intro add_mono card_image_le fin)
  finally show ?thesis using le by simp
qed

lemma canonical_entries_not_error:
  assumes "\<And>k x. (k, x) \<in> set object \<Longrightarrow> rec x refs \<noteq> Inl e"
    and "\<And>x v r. rec x refs = Inr (v, r) \<Longrightarrow> r = refs"
  shows "canonical_entries rec skip adjust (m, refs) object \<noteq> Inl e"
  unfolding canonical_entries_def
  by (rule fold_res_not_error [of "\<lambda>s. snd s = refs"])
    (auto simp: try_in_Inl_iff try_in_Inr_iff assms(1) dest: assms(2) split: if_splits)

lemma canonical_elements_not_error:
  assumes "\<And>x. x \<in> set vs \<Longrightarrow> rec x refs \<noteq> Inl e"
    and "\<And>x v r. rec x refs = Inr (v, r) \<Longrightarrow> r = refs"
  shows "canonical_elements rec (xs, refs) vs \<noteq> Inl e"
  unfolding canonical_elements_def
  by (rule fold_res_not_error [of "\<lambda>s. snd s = refs"])
    (auto simp: try_in_Inl_iff try_in_Inr_iff assms(1) dest: assms(2))

lemma resolve_schema_reference_error:
  "resolve_schema_reference config reference root rid \<noteq> Inl OutOfFuel"
  by (auto simp: resolve_schema_reference_def route_error_def try_in_Inl_iff ok_or_Inl_iff split: option.splits)

lemma card_descend:
  assumes "finite U" and "key \<in> U" and "key \<notin> refs"
  shows "card (U - refs) * Suc D = card (U - insert key refs) * Suc D + Suc D"
proof -
  have "U - insert key refs = (U - refs) - {key}" by auto
  with assms have "Suc (card (U - insert key refs)) = card (U - refs)"
    using card_Suc_Diff1 [of "U - refs" key] by simp
  then show ?thesis by (metis add.commute mult_Suc)
qed

lemma canonical_enough_fuel:
  assumes "schema \<in> schema_world config s0" and "root \<in> schema_world config s0"
    and "\<forall>j \<in> schema_world config s0. nodes j \<le> D"
    and "card (reference_keys config s0 - refs) * Suc D + nodes schema < n"
  shows "canonical_schema_with_root n T config rid root schema refs \<noteq> Inl OutOfFuel"
  using assms(1,2,4)
proof (induction n arbitrary: root schema refs)
  case (Suc n)
  let ?W = "schema_world config s0" and ?U = "reference_keys config s0"
  have child: "canonical_schema_with_root n T config rid root x refs \<noteq> Inl OutOfFuel"
    if "nodes x < nodes schema" "x \<in> ?W" for x
    using Suc.IH [OF that(2) Suc.prems(2), of refs] Suc.prems(3) that(1) by linarith
  show ?case
  proof (cases schema)
    case (JObject object)
    have entries: "canonical_entries (canonical_schema_with_root n T config rid root) skip adjust (m, refs) object
        \<noteq> Inl OutOfFuel" for skip adjust m
    proof (rule canonical_entries_not_error)
      fix k x assume kx: "(k, x) \<in> set object"
      have "x \<in> ?W" by (rule schema_world_closed [OF Suc.prems(1)]) (use kx JObject in force)
      then show "canonical_schema_with_root n T config rid root x refs \<noteq> Inl OutOfFuel"
        using child child_nodes(2) [OF kx] JObject by simp
    qed (rule canonical_refs_restored)
    show ?thesis
    proof (cases "get_str object ''$ref''")
      case None
      with JObject entries show ?thesis by (simp add: try_in_Inl_iff)
    next
      case (Some reference)
      have target: "canonical_schema_with_root n T config rid troot target (insert key refs) \<noteq> Inl OutOfFuel"
        if r: "resolve_schema_reference config reference root rid = Inr (target, troot, key)" and k: "key \<notin> refs"
        for target troot key
      proof -
        note w = resolve_schema_reference_world [OF r Suc.prems(2) get_str_world [OF Suc.prems(1) [unfolded JObject] Some]]
        have "card (?U - refs) * Suc D = card (?U - insert key refs) * Suc D + Suc D"
          by (rule card_descend) (use w(3) k reference_keys_finite in auto)
        moreover have "nodes target \<le> D" using assms(3) w(1) by blast
        ultimately have "card (?U - insert key refs) * Suc D + nodes target < n" using Suc.prems(3) by linarith
        then show ?thesis by (rule Suc.IH [OF w(1,2)])
      qed
      have restored: "r1 - {key} = refs" if "canonical_schema_with_root n T config rid troot target (insert key refs) = Inr (v, r1)"
        "key \<notin> refs" for troot target key v r1
        using canonical_refs_restored [OF that(1)] that(2) by auto
      show ?thesis
        using JObject Some target restored entries resolve_schema_reference_error
        by (auto simp: try_in_Inl_iff route_error_def split: option.splits if_splits)
    qed
  next
    case (JArray vs)
    have "canonical_elements (canonical_schema_with_root n T config rid root) ([], refs) vs \<noteq> Inl OutOfFuel"
    proof (rule canonical_elements_not_error)
      fix x assume x: "x \<in> set vs"
      have "x \<in> ?W" by (rule schema_world_closed [OF Suc.prems(1)]) (use x JArray in auto)
      then show "canonical_schema_with_root n T config rid root x refs \<noteq> Inl OutOfFuel"
        using child child_nodes(1) [OF x] JArray by simp
    qed (rule canonical_refs_restored)
    with JArray show ?thesis by (simp add: try_in_Inl_iff)
  qed simp_all
qed simp

lemma canonical_schema_terminates:
  "canonical_schema_with_root (schema_fuel config schema) T config rid schema schema {} \<noteq> Inl OutOfFuel"
proof -
  let ?total = "nodes schema + (case oac_components config of None \<Rightarrow> 0 | Some m \<Rightarrow> nodes (JObject m))"
  have "card (schema_world config schema) \<le> ?total"
  proof (cases "oac_components config")
    case None
    then show ?thesis using card_subterms [of schema] by (simp add: schema_world_def)
  next
    case (Some m)
    have "card (schema_world config schema) \<le> card (subterms schema) + card (subterms (JObject m))"
      unfolding schema_world_def Some option.case by (rule card_Un_le)
    also have "\<dots> \<le> ?total" unfolding Some option.case by (intro add_mono card_subterms)
    finally show ?thesis .
  qed
  with card_reference_keys [of config schema] have "card (reference_keys config schema) \<le> 2 * ?total"
    by (meson mult_le_mono2 order.trans)
  then have "card (reference_keys config schema) * Suc ?total + nodes schema \<le> 2 * ?total * Suc ?total + ?total"
    by (intro add_mono mult_le_mono1) auto
  then have fuel: "card (reference_keys config schema - {}) * Suc ?total + nodes schema < schema_fuel config schema"
    by (simp add: schema_fuel_def Let_def less_Suc_eq_le del: mult_Suc_right)
  have "\<forall>j \<in> schema_world config schema. nodes j \<le> ?total"
    unfolding schema_world_def
    by (auto split: option.splits simp del: nodes.simps subterms.simps
        dest!: subterm_nodes intro: le_add1 order.trans)
  with fuel show ?thesis
    by (intro canonical_enough_fuel [where ?s0.0 = schema and D = ?total]) (auto simp: schema_world_def)
qed

text \<open>A normalization that ends with any fuel is the canonical schema.\<close>

lemma canonical_schema_by_fuel:
  assumes "canonical_schema_with_root n T config rid schema schema {} \<noteq> Inl OutOfFuel"
  shows "canonical_schema T config schema rid =
    try_in (canonical_schema_with_root n T config rid schema schema {}) (\<lambda>(v, _). Inr v)"
proof (cases "n \<le> schema_fuel config schema")
  case True
  show ?thesis unfolding canonical_schema_def canonical_fuel_le [OF assms True] ..
next
  case False
  then have "schema_fuel config schema \<le> n" by simp
  from canonical_fuel_le [OF canonical_schema_terminates this] show ?thesis
    unfolding canonical_schema_def by (simp only:)
qed

text \<open>No reference survives: no object of the result has a textual \<open>$ref\<close>.\<close>

fun ref_free :: "json \<Rightarrow> bool" where
  "ref_free (JArray xs) = (\<forall>x \<in> set xs. ref_free x)"
| "ref_free (JObject m) = (\<forall>e \<in> set m. ref_free (snd e) \<and> (fst e = ''$ref'' \<longrightarrow> as_str (snd e) = None))"
| "ref_free _ = True"

lemma ref_free_subterm: "ref_free v \<Longrightarrow> JObject m \<in> subterms v \<Longrightarrow> get_str m ''$ref'' = None"
proof (induction v rule: ref_free.induct)
  case (2 m')
  have "get_str m' ''$ref'' = None"
  proof (cases "bt_get m' ''$ref''")
    case (Some x)
    with 2(2) map_of_SomeD [OF Some] show ?thesis by (auto simp: get_str_def)
  qed (simp add: get_str_def)
  with 2 show ?case by auto
qed auto

lemma ref_free_sort: "ref_free (sort_json_array T v) = ref_free v"
  by (cases v) (simp_all add: sort_json_array_def)

lemma ref_free_insert:
  assumes "ref_free (JObject m)" and "ref_free v" and "k = ''$ref'' \<Longrightarrow> as_str v = None"
  shows "ref_free (JObject (bt_insert k v m))"
proof -
  have "ref_free (snd e) \<and> (fst e = ''$ref'' \<longrightarrow> as_str (snd e) = None)" if "e \<in> set (bt_insert k v m)" for e
    using bt_insert_mem [OF that] assms by auto
  then show ?thesis by simp
qed

lemma canonical_entries_ref_free:
  assumes "canonical_entries rec skip adjust (m, refs) object = Inr (m', refs')" and "ref_free (JObject m)"
    and "\<And>k x r v r'. (k, x) \<in> set object \<Longrightarrow> \<not> skip k \<Longrightarrow> rec x r = Inr (v, r') \<Longrightarrow>
      ref_free (adjust k v) \<and> (k = ''$ref'' \<longrightarrow> as_str (adjust k v) = None)"
  shows "ref_free (JObject m')"
proof -
  have "ref_free (JObject (fst (m', refs')))"
  proof (rule fold_res_invariant [OF assms(1) [unfolded canonical_entries_def], of "\<lambda>s. ref_free (JObject (fst s))"])
    fix s e s' assume e: "e \<in> set object" and inv: "ref_free (JObject (fst s))"
      and step: "(case s of (normalized, references) \<Rightarrow> \<lambda>(key, value). if skip key then Inr (normalized, references)
        else try_in (rec value references) (\<lambda>(value', references').
          Inr (bt_insert key (adjust key value') normalized, references'))) e = Inr s'"
    obtain n r k x where se: "s = (n, r)" "e = (k, x)" by (cases s, cases e) auto
    show "ref_free (JObject (fst s'))"
    proof (cases "skip k")
      case True
      with step inv show ?thesis by (simp add: se del: ref_free.simps)
    next
      case False
      with step se obtain v r' where "rec x r = Inr (v, r')" "s' = (bt_insert k (adjust k v) n, r')"
        by (auto simp: try_in_Inr_iff)
      with assms(3) [of k x r v r'] e inv False se show ?thesis
        by (simp add: ref_free_insert del: ref_free.simps)
    qed
  qed (use assms(2) in simp)
  then show ?thesis by simp
qed

text \<open>The values of \<open>serde_json\<close> have objects with distinct keys.\<close>

definition well_formed_world :: "OpenApiConfig \<Rightarrow> json \<Rightarrow> bool" where
  "well_formed_world config schema \<longleftrightarrow>
     (\<forall>m. JObject m \<in> schema_world config schema \<longrightarrow> bt_inv m)"

lemma canonical_ref_free:
  assumes "well_formed_world config s0"
    and "schema \<in> schema_world config s0" and "root \<in> schema_world config s0"
    and "canonical_schema_with_root n T config rid root schema refs = Inr (v, refs')"
  shows "ref_free v \<and> (as_str schema = None \<longrightarrow> as_str v = None)"
  using assms(2-4)
proof (induction n arbitrary: root schema refs v refs')
  case (Suc n)
  have member: "x \<in> schema_world config s0" if "schema = JObject obj" "(k, x) \<in> set obj" for obj k x
    by (rule schema_world_closed [OF Suc.prems(1)]) (use that in force)
  from Suc.prems(3) show ?case
  proof (cases rule: canonical_Inr_cases)
    case (ref obj reference target troot key nobj r1 m)
    note w = resolve_schema_reference_world [OF ref(3) Suc.prems(2) get_str_world [OF Suc.prems(1) [unfolded ref(1)] ref(2)]]
    have "ref_free (JObject m)"
      by (rule canonical_entries_ref_free [OF ref(6)])
        (use Suc.IH [OF w(1,2) ref(5)] Suc.IH [OF member [OF ref(1)] Suc.prems(2)] in auto)
    with ref show ?thesis by (simp add: as_str_def del: ref_free.simps)
  next
    case (object obj m)
    have "ref_free (JObject m)"
    proof (rule canonical_entries_ref_free [OF object(3)])
      fix k x r v r' assume kx: "(k, x) \<in> set obj" and c: "canonical_schema_with_root n T config rid root x r = Inr (v, r')"
      let ?v = "if k = ''required'' \<or> k = ''enum'' then sort_json_array T v else v"
      have "as_str x = None" if "k = ''$ref''"
      proof -
        have "bt_inv obj" using assms(1) Suc.prems(1) object(1) by (simp add: well_formed_world_def)
        then have "bt_get obj ''$ref'' = Some x" using kx that by (simp add: bt_inv_mem_iff)
        with object(2) show ?thesis by (simp add: get_str_def)
      qed
      with Suc.IH [OF member [OF object(1) kx] Suc.prems(2) c]
      show "ref_free ?v \<and> (k = ''$ref'' \<longrightarrow> as_str ?v = None)" by (auto simp: ref_free_sort)
    qed simp
    with object show ?thesis by (simp add: as_str_def del: ref_free.simps)
  next
    case (array vs xs)
    have "ref_free (JArray (fst (xs, refs')))"
    proof (rule fold_res_invariant [OF array(2) [unfolded canonical_elements_def], of "\<lambda>s. ref_free (JArray (fst s))"])
      fix s x s' assume x: "x \<in> set vs" and inv: "ref_free (JArray (fst s))"
        and step: "(case s of (vs, references) \<Rightarrow> \<lambda>value. try_in (canonical_schema_with_root n T config rid root value references)
          (\<lambda>(value', references'). Inr (vs @ [value'], references'))) x = Inr s'"
      have "x \<in> schema_world config s0"
        by (rule schema_world_closed [OF Suc.prems(1)]) (use x array(1) in auto)
      with step inv Suc.IH [OF this Suc.prems(2)] show "ref_free (JArray (fst s'))"
        by (cases s) (auto simp: try_in_Inr_iff)
    qed simp
    with array show ?thesis by (simp add: as_str_def)
  next
    case scalar
    then show ?thesis by (cases schema) (auto simp: json_access_defs)
  qed
qed simp

section \<open>Errors\<close>

text \<open>A result whose failure, if any, is a message for the author.\<close>

definition benign :: "contract_error + 'a \<Rightarrow> bool" where
  "benign r \<longleftrightarrow> (\<forall>e. r = Inl e \<longrightarrow> (\<exists>msg. e = ContractError msg))"

lemma benign_intros:
  "benign (Inr a)"
  "(P \<Longrightarrow> benign r) \<Longrightarrow> (\<not> P \<Longrightarrow> benign r') \<Longrightarrow> benign (if P then r else r')"
  "(x = None \<Longrightarrow> benign r) \<Longrightarrow> (\<And>y. x = Some y \<Longrightarrow> benign (g y)) \<Longrightarrow>
     benign (case x of None \<Rightarrow> r | Some y \<Rightarrow> g y)"
  "benign (Inl (route_error rid d))"
  "benign (ok_or x (route_error rid d))"
  "benign r \<Longrightarrow> (\<And>a. r = Inr a \<Longrightarrow> benign (f a)) \<Longrightarrow> benign (try_in r f)"
  by (auto simp: benign_def route_error_def ok_or_def try_in_def split: option.splits sum.splits)

lemma benign_fold_res:
  "(\<And>s x. x \<in> set xs \<Longrightarrow> benign (f s x)) \<Longrightarrow> benign (fold_res f s xs)"
  by (induction xs arbitrary: s) (auto intro!: benign_intros(1,6))

lemma canonical_not_panic: "canonical_schema_with_root n T config rid root schema refs \<noteq> Inl Panic"
proof (induction n arbitrary: root schema refs)
  case (Suc n)
  have entries: "canonical_entries (canonical_schema_with_root n T config rid root) skip adjust (m, r) object \<noteq> Inl Panic"
    for skip adjust m r object
    by (rule canonical_entries_not_error) (auto simp: Suc.IH dest: canonical_refs_restored)
  have elements: "canonical_elements (canonical_schema_with_root n T config rid root) (xs, r) vs \<noteq> Inl Panic" for xs r vs
    by (rule canonical_elements_not_error) (auto simp: Suc.IH dest: canonical_refs_restored)
  have "resolve_schema_reference config reference root rid \<noteq> Inl Panic" for reference
    by (auto simp: resolve_schema_reference_def route_error_def try_in_Inl_iff ok_or_Inl_iff split: option.splits)
  with Suc.IH entries elements show ?case
    by (auto simp: try_in_Inl_iff route_error_def split: json.splits option.splits if_splits)
qed simp

lemma benign_canonical_schema: "benign (canonical_schema T config schema rid)"
proof -
  have "\<exists>msg. e = ContractError msg"
    if "canonical_schema_with_root (schema_fuel config schema) T config rid schema schema {} = Inl e" for e
    using that canonical_schema_terminates [of config schema T rid] canonical_not_panic
    by (cases e) (metis, metis, metis)
  then show ?thesis by (auto simp: benign_def canonical_schema_def try_in_Inl_iff)
qed

lemma benign_resolve_component: "benign (resolve_component config v sect rid)"
  unfolding resolve_component_def by (intro benign_intros)

lemma benign_media_schema: "benign (media_schema T config rid m t origin)"
  unfolding media_schema_def by (intro benign_intros benign_canonical_schema)

lemma benign_request_body: "benign (request_body T config rid v origin)"
  unfolding request_body_def by (intro benign_intros benign_media_schema)

lemma benign_insert_parameter: "benign (insert_parameter T config rid origin ps v)"
  unfolding insert_parameter_def validate_parameter_serialization_def Let_def
  by (intro benign_intros benign_resolve_component benign_canonical_schema)

lemma benign_parameter_map: "benign (parameter_map T config rid v origin)"
  unfolding parameter_map_def by (intro benign_intros benign_fold_res benign_insert_parameter)

lemma benign_insert_response: "benign (insert_response T config rid origin rs e)"
  unfolding insert_response_def Let_def
  by (cases e) (simp only: prod.case, intro benign_intros benign_resolve_component benign_media_schema)

lemma benign_response_map: "benign (response_map T config rid v origin)"
  unfolding response_map_def by (intro benign_intros benign_fold_res benign_insert_response)

section \<open>Comparison\<close>

lemma parameter_map_inv: "parameter_map T config rid v origin = Inr ps \<Longrightarrow> bt_inv ps"
proof -
  have step: "bt_inv m'" if "bt_inv m" "insert_parameter T config rid origin m x = Inr m'" for m x m'
    using that by (auto simp: insert_parameter_def try_in_Inr_iff bt_insert_inv split: if_splits)
  assume "parameter_map T config rid v origin = Inr ps"
  then show ?thesis
    by (auto simp: parameter_map_def try_in_Inr_iff split: option.splits
        elim!: fold_res_invariant [where P = bt_inv] dest: step)
qed

lemma response_map_inv: "response_map T config rid v origin = Inr rs \<Longrightarrow> bt_inv rs"
proof -
  have step: "bt_inv m'" if "bt_inv m" "insert_response T config rid origin m x = Inr m'" for m x m'
    using that by (auto simp: insert_response_def try_in_Inr_iff bt_insert_inv Let_def split: if_splits prod.splits)
  assume "response_map T config rid v origin = Inr rs"
  then show ?thesis
    by (auto simp: response_map_def try_in_Inr_iff elim!: fold_res_invariant [where P = bt_inv] dest: step)
qed

lemma compare_entries_run:
  "compare_entries differs es actual = Inr () \<longleftrightarrow> (\<forall>e \<in> set es. bt_get actual (fst e) = Some (snd e))"
  unfolding compare_entries_def
  by (induction es) (auto simp: try_in_Inr_iff split: option.splits if_splits)

lemma compare_entries_iff:
  assumes "bt_inv actual" and "map fst expected = map fst actual"
  shows "compare_entries differs expected actual = Inr () \<longleftrightarrow> expected = actual"
proof
  have dist: "distinct (map fst actual)" using assms(1) by (rule bt_inv_distinct)
  assume "compare_entries differs expected actual = Inr ()"
  then have get: "bt_get actual (fst e) = Some (snd e)" if "e \<in> set expected" for e
    using that by (simp add: compare_entries_run)
  have len: "length expected = length actual" using assms(2) by (metis length_map)
  show "expected = actual"
  proof (rule nth_equalityI [OF len])
    fix i assume i: "i < length expected"
    have keys: "fst (expected ! i) = fst (actual ! i)" using assms(2) i len by (metis nth_map)
    have "bt_get actual (fst (actual ! i)) = Some (snd (actual ! i))"
      using dist i len by (simp add: map_of_is_SomeI)
    with get [of "expected ! i"] i keys show "expected ! i = actual ! i" by (simp add: prod_eq_iff)
  qed
next
  assume "expected = actual"
  then show "compare_entries differs expected actual = Inr ()"
    using bt_inv_distinct [OF assms(1)] by (simp add: compare_entries_run)
qed

lemma benign_compare_entries:
  assumes "map fst expected = map fst actual"
  shows "benign (compare_entries (\<lambda>k. route_error rid (d k)) expected actual)"
  unfolding compare_entries_def
proof (rule benign_fold_res)
  fix s :: unit and e assume "e \<in> set expected"
  then have "fst e \<in> set (map fst actual)" unfolding assms [symmetric] by simp
  then have "bt_get actual (fst e) \<noteq> None" by (simp add: map_of_eq_None_iff)
  then show "benign ((\<lambda>_ (key, e). case bt_get actual key of None \<Rightarrow> Inl Panic
      | Some a \<Rightarrow> if e \<noteq> a then Inl (route_error rid (d key)) else Inr ()) s e)"
    by (auto split: prod.splits option.splits intro: benign_intros)
qed

lemma validate_parameters_iff:
  "validate_parameters T config rid expected operation = Inr () \<longleftrightarrow>
     (\<exists>ps. parameter_map T config rid (bt_get expected ''parameters'') ''generated'' = Inr ps \<and>
        parameter_map T config rid (bt_get operation ''parameters'') ''authored'' = Inr ps)"
  using compare_entries_iff [OF parameter_map_inv]
  by (fastforce simp: validate_parameters_def try_in_Inr_iff split: if_splits)

lemma validate_responses_iff:
  "validate_responses T config rid expected operation = Inr () \<longleftrightarrow>
     (\<exists>rs. response_map T config rid (bt_get expected ''responses'') ''generated'' = Inr rs \<and>
        response_map T config rid (bt_get operation ''responses'') ''authored'' = Inr rs)"
  using compare_entries_iff [OF response_map_inv]
  by (fastforce simp: validate_responses_def try_in_Inr_iff split: if_splits)

lemma validate_request_body_iff:
  "validate_request_body T config rid expected operation = Inr () \<longleftrightarrow>
     (case (bt_get expected ''requestBody'', bt_get operation ''requestBody'') of
        (None, None) \<Rightarrow> True
      | (Some e, Some a) \<Rightarrow> (\<exists>e' a' body. resolve_component config e ''requestBodies'' rid = Inr e' \<and>
           resolve_component config a ''requestBodies'' rid = Inr a' \<and>
           request_body T config rid e' ''generated'' = Inr body \<and> request_body T config rid a' ''authored'' = Inr body)
      | _ \<Rightarrow> False)"
  by (auto simp: validate_request_body_def try_in_Inr_iff split: option.splits if_splits)

lemma benign_validate:
  "benign (validate_parameters T config rid expected operation)"
  "benign (validate_request_body T config rid expected operation)"
  "benign (validate_responses T config rid expected operation)"
proof -
  show "benign (validate_parameters T config rid expected operation)"
    unfolding validate_parameters_def
    by (intro benign_intros benign_parameter_map benign_compare_entries) simp
  show "benign (validate_responses T config rid expected operation)"
    unfolding validate_responses_def
    by (intro benign_intros benign_response_map benign_compare_entries) simp
  show "benign (validate_request_body T config rid expected operation)"
    unfolding validate_request_body_def prod.case
    by (intro benign_intros benign_resolve_component benign_request_body)
qed

lemma contract_validate_benign: "benign (contract_validate T config rid route_method path operation contract)"
proof -
  have "benign (require_string c field actual rid)" for c field actual
    unfolding require_string_def by (intro benign_intros)
  then show ?thesis unfolding contract_validate_def by (intro benign_intros benign_validate)
qed

section \<open>Sample values\<close>

text \<open>A stand-in for the serializer, and a schema that refers to its own definition.\<close>

fun as_text :: "json \<Rightarrow> string" where
  "as_text (JString s) = s"
| "as_text _ = []"

abbreviation ref_schema :: json where
  "ref_schema \<equiv> JObject [(''$defs'', JObject [(''Item'', JObject [(''type'', JString ''string'')])]),
                         (''$ref'', JString ''#/$defs/Item'')]"

section \<open>Properties\<close>



text \<open>Validating a contract cannot panic and always ends: the only failures are messages.\<close>

theorem contract_validate_total:
  "case contract_validate T config rid route_method path operation contract of
     Inl e \<Rightarrow> \<exists>msg. e = ContractError msg | Inr _ \<Rightarrow> True"
  using contract_validate_benign [of T config rid route_method path operation contract]
  by (auto simp: benign_def split: sum.splits)


section \<open>Where normalization and intent differ\<close>

text \<open>The annotation keywords are dropped wherever they occur, also where they are names of
  properties: an object schema whose only property is called \<open>title\<close> has the same canonical form
  whatever that property's schema is, so a contract does not notice when it changes.\<close>

theorem canonical_schema_drops_title_property:
  "canonical_schema T config (JObject [(''properties'', JObject [(''title'', p)]), (''type'', JString ''object'')]) rid =
     Inr (JObject [(''properties'', JObject []), (''type'', JString ''object'')])"
proof -
  let ?s = "JObject [(''properties'', JObject [(''title'', p)]), (''type'', JString ''object'')]"
  have "canonical_schema_with_root (Suc (Suc (Suc 0))) T config rid ?s ?s {} =
      Inr (JObject [(''properties'', JObject []), (''type'', JString ''object'')], {})"
    by (simp add: canonical_entries_def get_str_def ignored_schema_keyword_def less_list_code)
  then show ?thesis using canonical_schema_by_fuel [of "Suc (Suc (Suc 0))" T config rid ?s] by simp
qed

text \<open>The key under which an active local reference is remembered does not say whose definitions
  it refers to: two schemas that both call a local definition \<open>Item\<close>, one referring to the other,
  are reported as cyclic although following the references ends after three steps.\<close>

theorem canonical_schema_spurious_cycle:
  "canonical_schema T
     (default_openapi_config\<lparr>oac_components := Some [(''schemas'', JObject [(''B'', ref_schema)])]\<rparr>)
     (JObject [(''$defs'', JObject [(''Item'', JObject [(''$ref'', JString ''#/components/schemas/B'')])]),
               (''$ref'', JString ''#/$defs/Item'')]) rid =
   Inl (ContractError (''route '' @ rid @ '' has a cyclic OpenAPI schema reference #/$defs/Item'')) \<and>
   canonical_schema T default_openapi_config ref_schema rid =
     Inr (JObject [(''$defs'', JObject [(''Item'', JObject [(''type'', JString ''string'')])]), (''type'', JString ''string'')])"
proof -
  let ?config = "default_openapi_config\<lparr>oac_components := Some [(''schemas'', JObject [(''B'', ref_schema)])]\<rparr>"
  let ?s = "JObject [(''$defs'', JObject [(''Item'', JObject [(''$ref'', JString ''#/components/schemas/B'')])]),
               (''$ref'', JString ''#/$defs/Item'')]"
  let ?n = "Suc (Suc (Suc (Suc (Suc 0))))"
  note sims = canonical_entries_def get_str_def ignored_schema_keyword_def less_list_code json_get_def
    resolve_schema_reference_def strip_prefix_def starts_with_def component_def get_object_def default_openapi_config_def
    route_error_def bind_eq_Some_conv
  have "canonical_schema_with_root ?n T ?config rid ?s ?s {} =
      Inl (ContractError (''route '' @ rid @ '' has a cyclic OpenAPI schema reference #/$defs/Item''))"
    by (simp add: sims)
  moreover have "canonical_schema_with_root ?n T default_openapi_config rid ref_schema ref_schema {} =
      Inr (JObject [(''$defs'', JObject [(''Item'', JObject [(''type'', JString ''string'')])]),
        (''type'', JString ''string'')], {})"
    by (simp add: sims)
  ultimately show ?thesis
    using canonical_schema_by_fuel [of ?n T ?config rid ?s]
      canonical_schema_by_fuel [of ?n T default_openapi_config rid ref_schema] by simp
qed

end
