(* ===== verification/OpenApiAssemble.thy ===== *)
theory OpenApiAssemble
  imports OpenApiContract
begin

text \<open>
  Assembly of the OpenAPI document from endpoint descriptions (\<open>assemble.rs\<close>) and the plugin that
  serves it (\<open>lib.rs\<close>). The pretty printer of \<open>serde_json\<close> is the parameter \<open>to_vec_pretty\<close>,
  the \<open>Debug\<close> text of a description error the parameter \<open>debug\<close>.
\<close>

definition METHODS :: "string list" where
  "METHODS = [''delete'', ''get'', ''head'', ''options'', ''patch'', ''post'', ''put'', ''trace'']"

definition OPENAPI_CONTRACT_EXTENSION :: string where
  "OPENAPI_CONTRACT_EXTENSION = ''x-lenso-contract''"

type_synonym document_paths = "(string, (string, json) btree) btree"

record Info =
  inf_title :: string
  inf_version :: string
  inf_description :: "string option"

record Document =
  doc_openapi :: string
  doc_json_schema_dialect :: string
  doc_info :: Info
  doc_paths :: document_paths
  doc_servers :: "OpenApiServer list"
  doc_components :: "json_object option"

section \<open>Path templates\<close>

text \<open>\<open>chars().any(char::is_whitespace)\<close> on UTF-8 text.\<close>

definition has_whitespace :: "string \<Rightarrow> bool" where
  "has_whitespace s \<longleftrightarrow> list_ex (\<lambda>i. list_ex (starts_with (drop i s)) unicode_whitespace) [0..<length s]"

definition parameter_name :: "string \<Rightarrow> string" where
  "parameter_name declared = (case strip_prefix declared ''*'' of None \<Rightarrow> declared | Some name \<Rightarrow> name)"

lemma split_once_length: "split_once c s = Some (a, b) \<Longrightarrow> length a + length b < length s"
  by (auto simp: split_once_Some)

function openapi_path_loop ::
  "string \<Rightarrow> string \<Rightarrow> string list \<Rightarrow> string \<Rightarrow> contract_error + string \<times> string list" where
  "openapi_path_loop route_id rendered parameters remainder =
     (case split_once (CHR ''{'') remainder of
        None \<Rightarrow>
          if CHR ''}'' \<in> set remainder
          then Inl (route_error route_id '' has an unmatched path parameter terminator'')
          else Inr (rendered @ remainder, parameters)
      | Some (before, after_start) \<Rightarrow>
          (case split_once (CHR ''}'') after_start of
             None \<Rightarrow> Inl (route_error route_id '' has an unclosed path parameter'')
           | Some (declared, rest) \<Rightarrow>
               if CHR ''{'' \<in> set declared then Inl (route_error route_id '' has a nested path parameter'')
               else
                 let name = parameter_name declared in
                 if name = [] \<or> has_whitespace name
                 then Inl (route_error route_id '' has an invalid path parameter'')
                 else if name \<in> set parameters
                 then Inl (route_error route_id ('' repeats path parameter '' @ name))
                 else openapi_path_loop route_id (rendered @ before @ ''{'' @ name @ ''}'') (parameters @ [name]) rest))"
  by pat_completeness auto
termination
  by (relation "measure (\<lambda>(_, _, _, remainder). length remainder)") (auto dest!: split_once_length)

declare openapi_path_loop.simps [simp del]

definition openapi_path :: "string \<Rightarrow> string \<Rightarrow> contract_error + string \<times> string list" where
  "openapi_path route_id path =
     (if \<not> starts_with path ''/'' \<or> CHR ''?'' \<in> set path \<or> CHR ''#'' \<in> set path
      then Inl (route_error route_id '' does not use an absolute OpenAPI path'')
      else openapi_path_loop route_id [] [] path)"

section \<open>Operations\<close>

definition declare_parameter :: "string \<Rightarrow> string set \<Rightarrow> json \<Rightarrow> contract_error + string set" where
  "declare_parameter route_id declared parameter =
     try_in (ok_or (as_object parameter) (route_error route_id '' has a non-object OpenAPI parameter'')) (\<lambda>parameter.
       if get_str parameter ''in'' \<noteq> Some ''path'' then Inr declared
       else try_in (ok_or (get_str parameter ''name'') (route_error route_id '' has a path parameter without a name''))
         (\<lambda>name.
           if get_bool parameter ''required'' \<noteq> Some True
           then Inl (route_error route_id ('' path parameter '' @ name @ '' must be required''))
           else Inr (insert name declared)))"

definition path_parameter :: "string \<Rightarrow> json" where
  "path_parameter name =
     JObject [(''in'', JString ''path''), (''name'', JString name), (''required'', JBool True),
              (''schema'', JObject [(''type'', JString ''string'')])]"

definition push_path_parameter :: "string set \<times> json list \<Rightarrow> string \<Rightarrow> string set \<times> json list" where
  "push_path_parameter acc name =
     (case acc of (declared, parameters) \<Rightarrow>
        if name \<in> declared then acc else (insert name declared, parameters @ [path_parameter name]))"

definition ensure_path_parameters ::
  "string \<Rightarrow> string list \<Rightarrow> json_object \<Rightarrow> contract_error + json_object" where
  "ensure_path_parameters route_id path_parameters operation =
     (if path_parameters = [] then Inr operation
      else try_in (ok_or (as_array (case bt_get operation ''parameters'' of None \<Rightarrow> JArray [] | Some v \<Rightarrow> v))
          (route_error route_id '' has a non-array OpenAPI parameters field'')) (\<lambda>parameters.
        try_in (fold_res (declare_parameter route_id) {} parameters) (\<lambda>declared.
          Inr (bt_insert ''parameters''
            (JArray (snd (foldl push_path_parameter (declared, parameters) path_parameters))) operation))))"

definition default_responses :: json where
  "default_responses =
     JObject [(''default'', JObject [(''description'', JString ''Undocumented response.'')])]"

definition with_responses :: "string \<Rightarrow> json_object \<Rightarrow> contract_error + json_object" where
  "with_responses route_id operation =
     (case bt_get operation ''responses'' of
        Some (JObject _) \<Rightarrow> Inr operation
      | Some _ \<Rightarrow> Inl (route_error route_id '' has a non-object OpenAPI responses field'')
      | None \<Rightarrow> Inr (bt_insert ''responses'' default_responses operation))"

section \<open>The document\<close>

type_synonym assembling = "document_paths \<times> string set"

definition assemble_route ::
  "(json \<Rightarrow> string) \<Rightarrow> OpenApiConfig \<Rightarrow> assembling \<Rightarrow> DescribeResponseRoutesItem \<Rightarrow> contract_error + assembling" where
  "assemble_route to_string config acc route =
     (case acc of (paths, operation_ids) \<Rightarrow>
        let route_id = dri_route_id route in
        try_in (openapi_path route_id (dri_path route)) (\<lambda>(path, path_parameters).
          let lower_method = to_ascii_lowercase (trim (dri_method route)) in
          if lower_method \<notin> set METHODS
          then Inl (route_error route_id ('' uses HTTP method '' @ dri_method route @
            '' which OpenAPI 3.1 cannot describe''))
          else if trim route_id = [] then Inl (ContractError ''an OpenAPI route has an empty route ID'')
          else if route_id \<in> operation_ids
          then Inl (ContractError (''duplicate OpenAPI operationId '' @ route_id))
          else
            let operation = (case dri_openapi route of None \<Rightarrow> [] | Some m \<Rightarrow> m);
                strict_contract = bt_get operation OPENAPI_CONTRACT_EXTENSION;
                operation = bt_remove OPENAPI_CONTRACT_EXTENSION operation
            in if bt_get operation ''operationId'' \<noteq> None
               then Inl (route_error route_id '' must not override its generated operationId'')
               else
                 try_in (with_responses route_id operation) (\<lambda>operation.
                 try_in (case strict_contract of
                     None \<Rightarrow> Inr ()
                   | Some strict_contract \<Rightarrow>
                       contract_validate to_string config route_id (dri_method route) (dri_path route) operation
                         strict_contract) (\<lambda>_.
                 try_in (ensure_path_parameters route_id path_parameters operation) (\<lambda>operation.
                   let operation = bt_insert ''operationId'' (JString route_id) operation;
                       methods = (case bt_get paths path of None \<Rightarrow> [] | Some m \<Rightarrow> m)
                   in if bt_get methods lower_method \<noteq> None
                      then Inl (ContractError (''duplicate OpenAPI route '' @ to_ascii_uppercase lower_method @ '' '' @ path))
                      else Inr (bt_insert path (bt_insert lower_method (JObject operation) methods) paths,
                                insert route_id operation_ids))))))"

definition document :: "OpenApiConfig \<Rightarrow> document_paths \<Rightarrow> Document" where
  "document config paths =
     \<lparr>doc_openapi = ''3.1.0'', doc_json_schema_dialect = ''https://json-schema.org/draft/2020-12/schema'',
      doc_info = \<lparr>inf_title = oac_title config, inf_version = oac_version config,
        inf_description = oac_description config\<rparr>,
      doc_paths = paths, doc_servers = oac_servers config, doc_components = oac_components config\<rparr>"

definition assemble ::
  "(json \<Rightarrow> string) \<Rightarrow> (Document \<Rightarrow> string + bytes) \<Rightarrow> OpenApiConfig \<Rightarrow> DescribeResponse list \<Rightarrow>
   contract_error + bytes" where
  "assemble to_string to_vec_pretty config descriptions =
     try_in (fold_res (assemble_route to_string config) ([], {}) (concat (map dr_routes descriptions)))
       (\<lambda>(paths, _).
         if paths = [] then Inl (ContractError ''OpenAPI requires at least one explicitly bound Endpoint'')
         else try_in (map_err (\<lambda>error. ContractError (''OpenAPI document serialization failed: '' @ error))
             (to_vec_pretty (document config paths))) (\<lambda>bs. Inr (bs @ [CHR 0x0A])))"

section \<open>The plugin\<close>

record OpenApiPlugin =
  oap_config :: OpenApiConfig
  oap_document :: "bytes option"

definition DOCUMENT_ROUTE_ID :: string where
  "DOCUMENT_ROUTE_ID = ''lenso.openapi.document''"

definition openapi_validate_config :: "OpenApiConfig \<Rightarrow> RuntimeFailure + unit" where
  "openapi_validate_config config =
     map_err (\<lambda>detail. InvalidResolvedPlan (''OpenAPI configuration is invalid: '' @ detail))
       (openapi_config_validate config)"

definition openapi_describe :: "OpenApiPlugin \<Rightarrow> DescribeResponse" where
  "openapi_describe plugin =
     \<lparr>dr_routes = [\<lparr>dri_method = ''GET'',
       dri_openapi = Some [(''responses'', JObject [(''200'', JObject [
           (''content'', JObject [(''application/json'', JObject [(''schema'', JObject [(''type'', JString ''object'')])])]),
           (''description'', JString ''OpenAPI 3.1 document'')])]),
         (''summary'', JString ''Get the OpenAPI document'')],
       dri_path = oac_document_path (oap_config plugin), dri_route_id = DOCUMENT_ROUTE_ID\<rparr>]\<rparr>"

definition openapi_handle :: "OpenApiPlugin \<Rightarrow> HandleRequest \<Rightarrow> RuntimeFailure + (HandleError + HandleResponse)" where
  "openapi_handle plugin request =
     (if hr_route_id request = DOCUMENT_ROUTE_ID then
        (case oap_document plugin of
           None \<Rightarrow> Inl (Internal ''OpenAPI document is unavailable before activation'')
         | Some bs \<Rightarrow> Inr (Inr \<lparr>hres_body = bs,
             hres_headers = [\<lparr>nv_name = ''content-type'', nv_value = ''application/json; charset=utf-8''\<rparr>],
             hres_status = 200\<rparr>))
      else Inr (Inl HandleRejected))"

definition describe_failure :: "(DescribeError \<Rightarrow> string) \<Rightarrow> nat \<Rightarrow> DescribeError \<Rightarrow> RuntimeFailure" where
  "describe_failure debug provider_index error =
     PluginFailure (''OpenAPI Endpoint provider '' @ decimal provider_index @ '' rejected its description: '' @ debug error)"

text \<open>What \<open>activate\<close> makes of the answers of the bound endpoints, in order; \<open>None\<close> is a panic of the assembly.\<close>

definition collect_description ::
  "(DescribeError \<Rightarrow> string) \<Rightarrow> nat \<times> (DescribeError InvocationError + DescribeResponse) \<Rightarrow> RuntimeFailure + DescribeResponse" where
  "collect_description debug answer =
     (case answer of (provider_index, r) \<Rightarrow>
        map_err (\<lambda>error. case error of
            Domain error \<Rightarrow> describe_failure debug provider_index error
          | RuntimeError error \<Rightarrow> error) r)"

definition openapi_activate ::
  "(json \<Rightarrow> string) \<Rightarrow> (Document \<Rightarrow> string + bytes) \<Rightarrow> (DescribeError \<Rightarrow> string) \<Rightarrow>
   (DescribeError InvocationError + DescribeResponse) list \<Rightarrow> OpenApiPlugin \<Rightarrow>
   (OpenApiPlugin \<times> (RuntimeFailure + unit)) option" where
  "openapi_activate to_string to_vec_pretty debug answers plugin =
     (case traverse (collect_description debug) (enumerate 0 answers) of
        Inl failure \<Rightarrow> Some (plugin, Inl failure)
      | Inr descriptions \<Rightarrow>
          (case assemble to_string to_vec_pretty (oap_config plugin) descriptions of
             Inl (ContractError detail) \<Rightarrow> Some (plugin, Inl (PluginFailure detail))
           | Inl _ \<Rightarrow> None
           | Inr assembled \<Rightarrow> Some (plugin\<lparr>oap_document := Some assembled\<rparr>, Inr ())))"

definition openapi_deactivate :: "OpenApiPlugin \<Rightarrow> OpenApiPlugin \<times> (RuntimeFailure + unit)" where
  "openapi_deactivate plugin = (plugin\<lparr>oap_document := None\<rparr>, Inr ())"

section \<open>Path templates rendered\<close>

text \<open>
  A template as literal pieces, each followed by a declared parameter, and a last literal. The
  declaration of a parameter may start with \<open>*\<close> (a catch-all); it is rendered without.
\<close>

definition template_text :: "(string \<Rightarrow> string) \<Rightarrow> (string \<times> string) list \<Rightarrow> string \<Rightarrow> string" where
  "template_text f pieces last_piece =
     concat (map (\<lambda>(literal, declared). literal @ ''{'' @ f declared @ ''}'') pieces) @ last_piece"

definition template_pieces :: "(string \<times> string) list \<Rightarrow> string \<Rightarrow> bool" where
  "template_pieces pieces last_piece \<longleftrightarrow>
     (\<forall>(literal, declared) \<in> set pieces. CHR ''{'' \<notin> set literal \<and> CHR ''{'' \<notin> set declared \<and>
        CHR ''}'' \<notin> set declared \<and> parameter_name declared \<noteq> [] \<and> \<not> has_whitespace (parameter_name declared)) \<and>
     CHR ''{'' \<notin> set last_piece \<and> CHR ''}'' \<notin> set last_piece"

lemma template_text_Cons [simp]:
  "template_text f ((literal, declared) # pieces) last_piece = literal @ ''{'' @ f declared @ ''}'' @ template_text f pieces last_piece"
  by (simp add: template_text_def)

lemma template_text_Nil [simp]: "template_text f [] last_piece = last_piece"
  by (simp add: template_text_def)

lemma openapi_path_loop_sound:
  assumes "openapi_path_loop rid rendered parameters remainder = Inr (path, params)" and "distinct parameters"
  shows "\<exists>pieces last_piece. remainder = template_text (\<lambda>d. d) pieces last_piece \<and> template_pieces pieces last_piece \<and>
    path = rendered @ template_text parameter_name pieces last_piece \<and>
    params = parameters @ map (\<lambda>p. parameter_name (snd p)) pieces \<and> distinct params"
  using assms
proof (induction rid rendered parameters remainder rule: openapi_path_loop.induct)
  case (1 rid rendered parameters remainder)
  show ?case
  proof (cases "split_once (CHR ''{'') remainder")
    case None
    with "1.prems" have "path = rendered @ remainder" "params = parameters" "CHR ''}'' \<notin> set remainder"
      by (auto simp: openapi_path_loop.simps [of rid rendered parameters remainder] split: if_splits)
    moreover have "CHR ''{'' \<notin> set remainder" using None by (simp add: split_once_None)
    ultimately show ?thesis
      using "1.prems"(2) by (intro exI [of _ "[]"] exI [of _ remainder]) (simp add: template_pieces_def)
  next
    case (Some ba)
    obtain before after where ba: "ba = (before, after)" by (cases ba)
    with Some "1.prems" obtain declared rest where s2: "split_once (CHR ''}'') after = Some (declared, rest)"
      by (auto simp: openapi_path_loop.simps [of rid rendered parameters remainder] split: option.splits)
    let ?name = "parameter_name declared"
    have ok: "CHR ''{'' \<notin> set declared" "?name \<noteq> []" "\<not> has_whitespace ?name" "?name \<notin> set parameters"
      and loop: "openapi_path_loop rid (rendered @ before @ ''{'' @ ?name @ ''}'') (parameters @ [?name]) rest = Inr (path, params)"
      using "1.prems"(1) Some ba s2
      by (auto simp: openapi_path_loop.simps [of rid rendered parameters remainder] Let_def split: if_splits)
    have "distinct (parameters @ [?name])" using "1.prems"(2) ok(4) by simp
    from "1.IH" [OF Some ba [symmetric] s2 refl ok(1) refl _ ok(4) loop this] ok(2,3)
    obtain pieces last_piece where ih: "rest = template_text (\<lambda>d. d) pieces last_piece" "template_pieces pieces last_piece"
      "path = (rendered @ before @ ''{'' @ ?name @ ''}'') @ template_text parameter_name pieces last_piece"
      "params = (parameters @ [?name]) @ map (\<lambda>p. parameter_name (snd p)) pieces" "distinct params"
      by auto
    from Some ba s2 have "remainder = before @ CHR ''{'' # declared @ CHR ''}'' # rest" "CHR ''{'' \<notin> set before"
      "CHR ''}'' \<notin> set declared" by (auto simp: split_once_Some)
    with ih ok show ?thesis
      by (intro exI [of _ "(before, declared) # pieces"] exI [of _ last_piece]) (auto simp: template_pieces_def)
  qed
qed

section \<open>Declared parameters\<close>

definition path_declaration :: "string \<Rightarrow> json \<Rightarrow> bool" where
  "path_declaration name j \<longleftrightarrow> (\<exists>m. j = JObject m \<and> get_str m ''in'' = Some ''path'' \<and>
     get_str m ''name'' = Some name \<and> get_bool m ''required'' = Some True)"

definition declares_path_parameter :: "json_object \<Rightarrow> string \<Rightarrow> bool" where
  "declares_path_parameter operation name \<longleftrightarrow>
     (\<exists>ps. bt_get operation ''parameters'' = Some (JArray ps) \<and> (\<exists>j \<in> set ps. path_declaration name j))"

lemma path_parameter_declaration: "path_declaration name (path_parameter name)"
  by (simp add: path_declaration_def path_parameter_def get_str_def get_bool_def)

lemma declare_parameters_sound:
  assumes "fold_res (declare_parameter rid) {} ps = Inr declared" and "name \<in> declared"
  shows "\<exists>j \<in> set ps. path_declaration name j"
proof -
  have "\<forall>n \<in> declared. \<exists>j \<in> set ps. path_declaration n j"
  proof (rule fold_res_invariant [OF assms(1), of "\<lambda>d. \<forall>n \<in> d. \<exists>j \<in> set ps. path_declaration n j"])
    fix d j d' assume j: "j \<in> set ps" and inv: "\<forall>n \<in> d. \<exists>j \<in> set ps. path_declaration n j"
      and step: "declare_parameter rid d j = Inr d'"
    from step have "d' = d \<or> (\<exists>name. path_declaration name j \<and> d' = insert name d)"
      by (auto simp: declare_parameter_def try_in_Inr_iff ok_or_Inr_iff path_declaration_def split: if_splits)
    then show "\<forall>n \<in> d'. \<exists>j \<in> set ps. path_declaration n j" using inv j by auto
  qed simp
  with assms(2) show ?thesis by blast
qed

lemma push_path_parameters:
  assumes "foldl push_path_parameter (declared, ps) names = (declared', ps')"
    and "\<forall>n \<in> declared. \<exists>j \<in> set ps. path_declaration n j"
  shows "(\<forall>n \<in> declared'. \<exists>j \<in> set ps'. path_declaration n j) \<and> declared \<union> set names \<subseteq> declared'"
  using assms
proof (induction names arbitrary: declared ps)
  case (Cons n names)
  obtain d q where q: "push_path_parameter (declared, ps) n = (d, q)" by (cases "push_path_parameter (declared, ps) n")
  then have d: "d = insert n declared" and "\<forall>n \<in> d. \<exists>j \<in> set q. path_declaration n j"
    using Cons.prems(2) path_parameter_declaration by (auto simp: push_path_parameter_def split: if_splits)
  with Cons.IH [of d q] Cons.prems(1) q show ?case by auto
qed auto

lemma ensure_path_parameters_Inr:
  assumes "ensure_path_parameters rid names operation = Inr operation'" and "bt_inv operation"
  shows "bt_inv operation'" and "k \<noteq> ''parameters'' \<Longrightarrow> bt_get operation' k = bt_get operation k"
    and "n \<in> set names \<Longrightarrow> declares_path_parameter operation' n"
proof -
  have "bt_inv operation' \<and> (\<forall>k. k \<noteq> ''parameters'' \<longrightarrow> bt_get operation' k = bt_get operation k) \<and>
      (\<forall>n \<in> set names. declares_path_parameter operation' n)"
  proof (cases "names = []")
    case False
    with assms obtain ps declared where d: "fold_res (declare_parameter rid) {} ps = Inr declared"
      and op: "operation' = bt_insert ''parameters'' (JArray (snd (foldl push_path_parameter (declared, ps) names))) operation"
      by (auto simp: ensure_path_parameters_def try_in_Inr_iff)
    obtain declared' ps' where f: "foldl push_path_parameter (declared, ps) names = (declared', ps')"
      by (cases "foldl push_path_parameter (declared, ps) names")
    have "\<forall>n \<in> declared. \<exists>j \<in> set ps. path_declaration n j" using declare_parameters_sound [OF d] by blast
    from push_path_parameters [OF f this] have "\<forall>n \<in> set names. \<exists>j \<in> set ps'. path_declaration n j" by auto
    with op f assms(2) show ?thesis
      by (auto simp: bt_insert_inv bt_get_insert declares_path_parameter_def)
  qed (use assms in \<open>auto simp: ensure_path_parameters_def\<close>)
  then show "bt_inv operation'" and "k \<noteq> ''parameters'' \<Longrightarrow> bt_get operation' k = bt_get operation k"
    and "n \<in> set names \<Longrightarrow> declares_path_parameter operation' n" by auto
qed

section \<open>Assembled documents\<close>

definition operation_at :: "document_paths \<Rightarrow> string \<Rightarrow> string \<Rightarrow> json option" where
  "operation_at paths path m = Option.bind (bt_get paths path) (\<lambda>ms. bt_get ms m)"

text \<open>What the document says of one route.\<close>

definition documented :: "document_paths \<Rightarrow> DescribeResponseRoutesItem \<Rightarrow> bool" where
  "documented paths route \<longleftrightarrow> (\<exists>path params operation.
     openapi_path (dri_route_id route) (dri_path route) = Inr (path, params) \<and>
     to_ascii_lowercase (trim (dri_method route)) \<in> set METHODS \<and>
     operation_at paths path (to_ascii_lowercase (trim (dri_method route))) = Some (JObject operation) \<and>
     get_str operation ''operationId'' = Some (dri_route_id route) \<and>
     get_object operation ''responses'' \<noteq> None \<and>
     (\<forall>n \<in> set params. declares_path_parameter operation n))"

definition route_well_formed :: "DescribeResponseRoutesItem \<Rightarrow> bool" where
  "route_well_formed route \<longleftrightarrow> (case dri_openapi route of None \<Rightarrow> True | Some m \<Rightarrow> bt_inv m)"

definition paths_inv :: "document_paths \<Rightarrow> bool" where
  "paths_inv paths \<longleftrightarrow> bt_inv paths \<and> (\<forall>path ms. bt_get paths path = Some ms \<longrightarrow> bt_inv ms)"

lemma operation_at_insert:
  assumes "paths_inv paths"
  shows "paths_inv (bt_insert path (bt_insert m op (case bt_get paths path of None \<Rightarrow> [] | Some ms \<Rightarrow> ms)) paths)"
    and "operation_at (bt_insert path (bt_insert m op (case bt_get paths path of None \<Rightarrow> [] | Some ms \<Rightarrow> ms)) paths) path' m' =
      (if path' = path \<and> m' = m then Some op else operation_at paths path' m')"
proof -
  let ?ms = "case bt_get paths path of None \<Rightarrow> [] | Some ms \<Rightarrow> ms"
  have inv: "bt_inv ?ms" using assms by (simp add: paths_inv_def split: option.splits)
  show "paths_inv (bt_insert path (bt_insert m op ?ms) paths)"
    using assms inv by (auto simp: paths_inv_def bt_insert_inv bt_get_insert)
  show "operation_at (bt_insert path (bt_insert m op ?ms) paths) path' m' =
      (if path' = path \<and> m' = m then Some op else operation_at paths path' m')"
    using assms inv by (auto simp: paths_inv_def operation_at_def bt_get_insert split: option.splits)
qed

lemma with_responses_Inr:
  assumes "with_responses rid operation = Inr operation'" and "bt_inv operation"
  shows "bt_inv operation'" and "get_object operation' ''responses'' \<noteq> None"
  using assms
  by (auto simp: with_responses_def get_object_def bt_insert_inv bt_get_insert default_responses_def
      split: option.splits json.splits)

lemma assemble_route_Inr:
  assumes "assemble_route T config (paths, ids) route = Inr (paths', ids')"
    and "paths_inv paths" and "route_well_formed route"
  obtains path params operation where "openapi_path (dri_route_id route) (dri_path route) = Inr (path, params)"
    and "to_ascii_lowercase (trim (dri_method route)) \<in> set METHODS" and "dri_route_id route \<notin> ids"
    and "ids' = insert (dri_route_id route) ids" and "paths_inv paths'"
    and "operation_at paths path (to_ascii_lowercase (trim (dri_method route))) = None"
    and "\<forall>p m. operation_at paths' p m = (if p = path \<and> m = to_ascii_lowercase (trim (dri_method route))
      then Some (JObject operation) else operation_at paths p m)"
    and "get_str operation ''operationId'' = Some (dri_route_id route)"
    and "get_object operation ''responses'' \<noteq> None"
    and "\<forall>n \<in> set params. declares_path_parameter operation n"
proof -
  let ?m = "to_ascii_lowercase (trim (dri_method route))" and ?rid = "dri_route_id route"
  define op0 where "op0 = bt_remove OPENAPI_CONTRACT_EXTENSION (case dri_openapi route of None \<Rightarrow> [] | Some m \<Rightarrow> m)"
  have op0: "bt_inv op0"
    using assms(3) by (auto simp: op0_def route_well_formed_def bt_remove_inv split: option.splits)
  from assms(1) obtain path params op1 op2 where p: "openapi_path ?rid (dri_path route) = Inr (path, params)"
    "?m \<in> set METHODS" "?rid \<notin> ids" and r: "with_responses ?rid op0 = Inr op1"
    and e: "ensure_path_parameters ?rid params op1 = Inr op2"
    and free: "bt_get (case bt_get paths path of None \<Rightarrow> [] | Some ms \<Rightarrow> ms) ?m = None"
    and paths': "paths' = bt_insert path (bt_insert ?m (JObject (bt_insert ''operationId'' (JString ?rid) op2))
        (case bt_get paths path of None \<Rightarrow> [] | Some ms \<Rightarrow> ms)) paths"
    and ids': "ids' = insert ?rid ids"
    unfolding op0_def
    by (auto simp: assemble_route_def Let_def try_in_Inr_iff split: if_splits)
  note op1 = with_responses_Inr [OF r op0]
  note op2 = ensure_path_parameters_Inr [OF e op1(1)]
  show thesis
  proof (rule that [OF p(1,2,3) ids'])
    show "paths_inv paths'" unfolding paths' by (rule operation_at_insert(1) [OF assms(2)])
    show "operation_at paths path ?m = None"
      using free by (simp add: operation_at_def split: option.splits)
    show "\<forall>p m. operation_at paths' p m = (if p = path \<and> m = ?m
        then Some (JObject (bt_insert ''operationId'' (JString ?rid) op2)) else operation_at paths p m)"
      unfolding paths' using operation_at_insert(2) [OF assms(2)] by blast
    show "get_str (bt_insert ''operationId'' (JString ?rid) op2) ''operationId'' = Some ?rid"
      by (simp add: get_str_def bt_get_insert [OF op2(1)])
    show "get_object (bt_insert ''operationId'' (JString ?rid) op2) ''responses'' \<noteq> None"
      using op1(2) op2(2) [of "''responses''"] by (simp add: get_object_def bt_get_insert [OF op2(1)])
    show "\<forall>n \<in> set params. declares_path_parameter (bt_insert ''operationId'' (JString ?rid) op2) n"
      using op2(3) by (simp add: declares_path_parameter_def bt_get_insert [OF op2(1)])
  qed
qed

lemma documented_mono:
  assumes "documented paths r" and "\<And>p m op. operation_at paths p m = Some op \<Longrightarrow> operation_at paths' p m = Some op"
  shows "documented paths' r"
  using assms unfolding documented_def by blast

lemma assemble_routes:
  assumes "fold_res (assemble_route T config) (paths, ids) routes = Inr (paths', ids')"
    and "paths_inv paths" and "list_all route_well_formed routes"
  shows "set (map dri_route_id routes) \<inter> ids = {} \<and> distinct (map dri_route_id routes) \<and>
    (\<forall>p m op. operation_at paths p m = Some op \<longrightarrow> operation_at paths' p m = Some op) \<and>
    (\<forall>r \<in> set routes. documented paths' r) \<and>
    (\<forall>p m op. operation_at paths' p m = Some op \<longrightarrow> operation_at paths p m = Some op \<or>
       (\<exists>r \<in> set routes. \<exists>o'. op = JObject o' \<and> get_str o' ''operationId'' = Some (dri_route_id r)))"
  using assms
proof (induction routes arbitrary: paths ids)
  case (Cons r routes)
  then obtain paths1 ids1 where step: "assemble_route T config (paths, ids) r = Inr (paths1, ids1)"
    and rest: "fold_res (assemble_route T config) (paths1, ids1) routes = Inr (paths', ids')"
    by (auto simp: try_in_Inr_iff)
  from Cons.prems(3) have "route_well_formed r" "list_all route_well_formed routes" by simp_all
  from step Cons.prems(2) this(1) obtain path params operation where
    r: "openapi_path (dri_route_id r) (dri_path r) = Inr (path, params)"
      "to_ascii_lowercase (trim (dri_method r)) \<in> set METHODS" "dri_route_id r \<notin> ids"
      "ids1 = insert (dri_route_id r) ids" "paths_inv paths1"
      "operation_at paths path (to_ascii_lowercase (trim (dri_method r))) = None"
      "\<forall>p m. operation_at paths1 p m = (if p = path \<and> m = to_ascii_lowercase (trim (dri_method r))
        then Some (JObject operation) else operation_at paths p m)"
      "get_str operation ''operationId'' = Some (dri_route_id r)" "get_object operation ''responses'' \<noteq> None"
      "\<forall>n \<in> set params. declares_path_parameter operation n"
    by (rule assemble_route_Inr)
  note ih = Cons.IH [OF rest r(5) \<open>list_all route_well_formed routes\<close>]
  have "documented paths1 r" unfolding documented_def using r by auto
  with ih documented_mono have "documented paths' r" by blast
  moreover have "operation_at paths' p m = Some op" if "operation_at paths p m = Some op" for p m op
  proof -
    have "operation_at paths1 p m = Some op" using that r(6,7) by (cases "p = path") auto
    with ih show ?thesis by blast
  qed
  moreover have "operation_at paths p m = Some op \<or>
      (\<exists>x \<in> set (r # routes). \<exists>o'. op = JObject o' \<and> get_str o' ''operationId'' = Some (dri_route_id x))"
    if "operation_at paths' p m = Some op" for p m op
  proof (cases "operation_at paths1 p m = Some op")
    case True
    with r(7,8) show ?thesis by (auto split: if_splits)
  next
    case False
    with ih that show ?thesis by fastforce
  qed
  moreover have "set (map dri_route_id (r # routes)) \<inter> ids = {}" "distinct (map dri_route_id (r # routes))"
    using ih r(3,4) by auto
  ultimately show ?case using ih by simp
qed simp

lemma benign_assemble: "benign (assemble T pretty config descriptions)"
proof -
  have cv: "benign (contract_validate T config rid m p op c)" for rid m p op c
    using contract_validate_benign by blast
  have loop: "benign (openapi_path_loop rid rendered ps rest)" for rid rendered ps rest
  proof (induction rid rendered ps rest rule: openapi_path_loop.induct)
    case (1 rid rendered ps rest)
    then show ?case
      by (subst openapi_path_loop.simps) (auto simp: Let_def intro!: benign_intros split: option.splits prod.splits)
  qed
  have ensure: "benign (ensure_path_parameters rid names op)" for rid names op
    unfolding ensure_path_parameters_def declare_parameter_def by (intro benign_intros benign_fold_res)
  have responses: "benign (with_responses rid op)" for rid op
    by (auto simp: with_responses_def intro: benign_intros split: option.splits json.splits)
  have message: "benign (Inl (ContractError d) :: contract_error + 'x)" for d
    by (simp add: benign_def)
  have "benign (assemble_route T config acc r)" for acc r
    unfolding assemble_route_def openapi_path_def Let_def
    by (cases acc) (auto intro!: benign_intros message loop responses ensure cv split: option.splits)
  then show ?thesis
    unfolding assemble_def
    by (intro benign_intros benign_fold_res) (auto intro!: benign_intros message simp: map_err_def split: sum.splits)
qed

lemma assemble_documents:
  assumes "assemble T pretty config descriptions = Inr bs"
    and "list_all (\<lambda>d. list_all route_well_formed (dr_routes d)) descriptions"
  shows "\<exists>paths text'. pretty (document config paths) = Inr text' \<and> bs = text' @ [CHR 0x0A] \<and>
    distinct (map dri_route_id (concat (map dr_routes descriptions))) \<and>
    list_all (documented paths) (concat (map dr_routes descriptions)) \<and>
    (\<forall>path m op. operation_at paths path m = Some op \<longrightarrow>
       (\<exists>r \<in> set (concat (map dr_routes descriptions)). \<exists>o'. op = JObject o' \<and>
          get_str o' ''operationId'' = Some (dri_route_id r)))"
proof -
  let ?routes = "concat (map dr_routes descriptions)"
  from assms(1) obtain paths ids text' where
    fold: "fold_res (assemble_route T config) ([], {}) ?routes = Inr (paths, ids)"
    and out: "pretty (document config paths) = Inr text'" "bs = text' @ [CHR 0x0A]"
    by (auto simp: assemble_def try_in_Inr_iff map_err_Inr_iff split: if_splits)
  have "list_all route_well_formed ?routes" using assms(2) by (auto simp: list_all_iff)
  from assemble_routes [OF fold _ this] out show ?thesis
    by (intro exI [of _ paths] exI [of _ text']) (auto simp: paths_inv_def operation_at_def list_all_iff)
qed

section \<open>Properties\<close>

text \<open>C22. An assembled document is complete and consistent: the route identifiers are distinct, every
  route of every bound endpoint appears under its rendered path and lower-cased method with its
  identifier as \<open>operationId\<close>, a responses object and a required declaration of every path
  parameter, and every operation of the document belongs to one of the routes.\<close>

theorem assembled_document_complete:
  assumes "assemble T pretty config descriptions = Inr bs"
    and "list_all (\<lambda>d. list_all route_well_formed (dr_routes d)) descriptions"
  shows "\<exists>paths text'. pretty (document config paths) = Inr text' \<and> bs = text' @ [CHR 0x0A] \<and>
    distinct (map dri_route_id (concat (map dr_routes descriptions))) \<and>
    list_all (documented paths) (concat (map dr_routes descriptions)) \<and>
    (\<forall>path m op. operation_at paths path m = Some op \<longrightarrow>
       (\<exists>r \<in> set (concat (map dr_routes descriptions)). \<exists>o'. op = JObject o' \<and>
          get_str o' ''operationId'' = Some (dri_route_id r)))"
  by (rule assemble_documents [OF assms])

abbreviation sample_description :: DescribeResponse where
  "sample_description \<equiv> \<lparr>dr_routes = [\<lparr>dri_method = ''GET'', dri_openapi = None, dri_path = ''/pets/{id}'',
     dri_route_id = ''pets.get''\<rparr>]\<rparr>"

lemma sample_assembled:
  "assemble as_text (\<lambda>_. Inr ''doc'') default_openapi_config [sample_description] = Inr (''doc'' @ [CHR 0x0A])"
  by code_simp

theorem assembled_document_complete_witness:
  "\<exists>paths. documented paths \<lparr>dri_method = ''GET'', dri_openapi = None, dri_path = ''/pets/{id}'',
     dri_route_id = ''pets.get''\<rparr>"
proof -
  have "list_all (\<lambda>d. list_all route_well_formed (dr_routes d)) [sample_description]"
    by (simp add: route_well_formed_def)
  from assembled_document_complete [OF sample_assembled this] show ?thesis by auto
qed

text \<open>Rendering a path template: the template is a sequence of literals and declared parameters,
  the rendered path is the same sequence with the catch-all marks removed, and the parameters are
  the declared names in order, nonempty, without white space and pairwise different.\<close>

theorem openapi_path_renders:
  assumes "openapi_path rid path = Inr (rendered, params)"
  shows "\<exists>pieces last_piece. path = template_text (\<lambda>d. d) pieces last_piece \<and> template_pieces pieces last_piece \<and>
    rendered = template_text parameter_name pieces last_piece \<and>
    params = map (\<lambda>p. parameter_name (snd p)) pieces \<and> distinct params"
  using assms openapi_path_loop_sound [of rid "[]" "[]" path rendered params]
  by (auto simp: openapi_path_def split: if_splits)

theorem openapi_path_renders_witness:
  "\<exists>pieces last_piece. ''/a/{id}/{*rest}'' = template_text (\<lambda>d. d) pieces last_piece \<and>
     ''/a/{id}/{rest}'' = template_text parameter_name pieces last_piece \<and>
     [''id'', ''rest''] = map (\<lambda>p. parameter_name (snd p)) pieces"
proof -
  have "openapi_path ''r'' ''/a/{id}/{*rest}'' = Inr (''/a/{id}/{rest}'', [''id'', ''rest''])" by code_simp
  from openapi_path_renders [OF this] show ?thesis by (elim exE conjE, intro exI conjI)
qed

text \<open>A closing brace is only noticed after the last parameter: the same stray brace is rejected
  there and kept in the rendered path before it.\<close>

lemma stray_terminator_before_parameter:
  "openapi_path ''r'' ''/a}/{id}'' = Inr (''/a}/{id}'', [''id'']) \<and>
   openapi_path ''r'' ''/{id}/a}'' = Inl (ContractError ''route r has an unmatched path parameter terminator'')"
  by code_simp

section \<open>Lifecycle\<close>

text \<open>The plugin over its lifetime: activations with whatever the endpoints answer, and deactivations.\<close>

inductive openapi_run ::
  "(json \<Rightarrow> string) \<Rightarrow> (Document \<Rightarrow> string + bytes) \<Rightarrow> (DescribeError \<Rightarrow> string) \<Rightarrow> OpenApiConfig \<Rightarrow> OpenApiPlugin \<Rightarrow> bool"
  for T pretty debug config where
  openapi_start: "openapi_run T pretty debug config \<lparr>oap_config = config, oap_document = None\<rparr>"
| openapi_activated: "openapi_run T pretty debug config p \<Longrightarrow>
    openapi_activate T pretty debug answers p = Some (p', r) \<Longrightarrow> openapi_run T pretty debug config p'"
| openapi_deactivated: "openapi_run T pretty debug config p \<Longrightarrow>
    openapi_run T pretty debug config (fst (openapi_deactivate p))"

lemma openapi_run_document:
  assumes "openapi_run T pretty debug config p"
  shows "oap_config p = config \<and> (\<forall>bs. oap_document p = Some bs \<longrightarrow>
    (\<exists>descriptions. assemble T pretty config descriptions = Inr bs))"
  using assms
  by (induction rule: openapi_run.induct)
    (auto simp: openapi_activate_def openapi_deactivate_def split: sum.splits contract_error.splits)

text \<open>The OpenAPI endpoint answers its own route with a document assembled from endpoint
  descriptions or, while there is none, with an internal failure; any other route is rejected.
  Activation never panics, a failed one leaves the document as it was, and a successful one
  installs the document of exactly the descriptions the endpoints returned.\<close>

theorem openapi_serves_assembled:
  assumes "openapi_run T pretty debug config p"
  shows "(case openapi_handle p request of
      Inl f \<Rightarrow> f = Internal ''OpenAPI document is unavailable before activation'' \<and> oap_document p = None
    | Inr (Inl e) \<Rightarrow> e = HandleRejected \<and> hr_route_id request \<noteq> DOCUMENT_ROUTE_ID
    | Inr (Inr response) \<Rightarrow> hr_route_id request = DOCUMENT_ROUTE_ID \<and> hres_status response = 200 \<and>
        (\<exists>descriptions. assemble T pretty config descriptions = Inr (hres_body response))) \<and>
    (\<exists>p' r. openapi_activate T pretty debug answers p = Some (p', r) \<and>
       (\<not> is_ok r \<longrightarrow> p' = p) \<and>
       (is_ok r \<longrightarrow> (\<exists>descriptions bs. answers = map Inr descriptions \<and>
          assemble T pretty config descriptions = Inr bs \<and> oap_document p' = Some bs)))"
proof
  show "case openapi_handle p request of
      Inl f \<Rightarrow> f = Internal ''OpenAPI document is unavailable before activation'' \<and> oap_document p = None
    | Inr (Inl e) \<Rightarrow> e = HandleRejected \<and> hr_route_id request \<noteq> DOCUMENT_ROUTE_ID
    | Inr (Inr response) \<Rightarrow> hr_route_id request = DOCUMENT_ROUTE_ID \<and> hres_status response = 200 \<and>
        (\<exists>descriptions. assemble T pretty config descriptions = Inr (hres_body response))"
    using openapi_run_document [OF assms] by (auto simp: openapi_handle_def split: option.splits)
  have answers: "answers = map Inr ds" if "traverse (collect_description debug) (enumerate n answers) = Inr ds" for ds n
    using that
    by (induction answers arbitrary: ds n)
      (auto simp: collect_description_def try_in_Inr_iff map_err_Inr_iff)
  show "\<exists>p' r. openapi_activate T pretty debug answers p = Some (p', r) \<and>
       (\<not> is_ok r \<longrightarrow> p' = p) \<and>
       (is_ok r \<longrightarrow> (\<exists>descriptions bs. answers = map Inr descriptions \<and>
          assemble T pretty config descriptions = Inr bs \<and> oap_document p' = Some bs))"
    using answers openapi_run_document [OF assms] benign_assemble [of T pretty config]
    by (auto simp: openapi_activate_def benign_def split: sum.splits contract_error.splits)
qed

theorem openapi_serves_assembled_witness:
  "\<exists>p' r. openapi_activate as_text (\<lambda>_. Inr ''doc'') (\<lambda>_. []) [Inr sample_description]
     \<lparr>oap_config = default_openapi_config, oap_document = None\<rparr> = Some (p', r) \<and>
   (is_ok r \<longrightarrow> oap_document p' \<noteq> None)"
  using openapi_serves_assembled [OF openapi_start [of as_text "\<lambda>_. Inr ''doc''" "\<lambda>_. []" default_openapi_config],
      of _ "[Inr sample_description]"] by fastforce

end
