(* ===== verification/EndpointResponse.thy ===== *)
theory EndpointResponse
  imports Json
begin

text \<open>
  Responses and typed request extraction for authored endpoints (\<open>response.rs\<close> and \<open>extract.rs\<close>
  of the endpoint crate) and the authenticated actor of \<open>lenso-http-auth\<close>. Serializing and
  deserializing a typed value is the serializer's business: a typed body enters as the outcome of
  \<open>serde_json::to_vec\<close>, and the decoders of \<open>serde_json\<close> and \<open>serde_urlencoded\<close> are parameters,
  as are the auth client and the assertions it issues. An \<open>expect\<close> that fails is \<open>None\<close>.
\<close>

type_synonym EndpointHandleInvocationError = "HandleError InvocationError"

definition JSON_CONTENT_TYPE :: string where "JSON_CONTENT_TYPE = ''application/json; charset=utf-8''"
definition PROBLEM_CONTENT_TYPE :: string where "PROBLEM_CONTENT_TYPE = ''application/problem+json; charset=utf-8''"
definition TEXT_CONTENT_TYPE :: string where "TEXT_CONTENT_TYPE = ''text/plain; charset=utf-8''"

section \<open>Responses\<close>

text \<open>The argument of each error is the text of its cause.\<close>

datatype ResponseBuildError = RbeJson string | NonTextHeaderValue string

definition build_error_text :: "ResponseBuildError \<Rightarrow> string" where
  "build_error_text error =
     (case error of
        RbeJson e \<Rightarrow> ''response JSON serialization failed: '' @ e
      | NonTextHeaderValue e \<Rightarrow> ''response header is not valid text: '' @ e)"

definition invocation_error_from :: "ResponseBuildError \<Rightarrow> EndpointHandleInvocationError" where
  "invocation_error_from error = RuntimeError (Internal (build_error_text error))"

definition with_content_type :: "nat \<Rightarrow> string \<Rightarrow> bytes \<Rightarrow> HandleResponse" where
  "with_content_type status content_type body =
     \<lparr>hres_body = body, hres_headers = [\<lparr>nv_name = ''content-type'', nv_value = content_type\<rparr>],
      hres_status = int status\<rparr>"

definition json_body_response :: "nat \<Rightarrow> string + bytes \<Rightarrow> ResponseBuildError + HandleResponse" where
  "json_body_response status encoded =
     try_in (map_err RbeJson encoded) (\<lambda>body. Inr (with_content_type status JSON_CONTENT_TYPE body))"

definition text_response :: "nat \<Rightarrow> string \<Rightarrow> HandleResponse" where
  "text_response status body = with_content_type status TEXT_CONTENT_TYPE body"

definition empty_response :: "nat \<Rightarrow> HandleResponse" where
  "empty_response status = \<lparr>hres_body = [], hres_headers = [], hres_status = int status\<rparr>"

definition with_header ::
  "'h http_lib \<Rightarrow> HandleResponse \<Rightarrow> header_name \<Rightarrow> header_value \<Rightarrow> string \<Rightarrow> ResponseBuildError + HandleResponse" where
  "with_header L response name value to_str_error =
     try_in (ok_or (to_str L value) (NonTextHeaderValue to_str_error)) (\<lambda>v.
       Inr (response\<lparr>hres_headers := hres_headers response @ [\<lparr>nv_name = name, nv_value = v\<rparr>]\<rparr>))"

text \<open>The status of a pair of a status and a response.\<close>

definition status_into_response ::
  "nat \<Rightarrow> ResponseBuildError + HandleResponse \<Rightarrow> ResponseBuildError + HandleResponse" where
  "status_into_response status body = try_in body (\<lambda>response. Inr (response\<lparr>hres_status := int status\<rparr>))"

record Problem =
  prb_type_uri :: string
  prb_title :: string
  prb_status :: nat
  prb_detail :: string
  prb_code :: string

definition problem_new :: "(nat \<Rightarrow> string option) \<Rightarrow> nat \<Rightarrow> string \<Rightarrow> string \<Rightarrow> Problem" where
  "problem_new canonical_reason status code detail =
     \<lparr>prb_type_uri = ''about:blank'',
      prb_title = (case canonical_reason status of None \<Rightarrow> ''HTTP error'' | Some r \<Rightarrow> r),
      prb_status = status, prb_detail = detail, prb_code = code\<rparr>"

text \<open>The serialized form of a problem, its fields in declaration order.\<close>

definition problem_json :: "Problem \<Rightarrow> json" where
  "problem_json p =
     JObject [(''type'', JString (prb_type_uri p)), (''title'', JString (prb_title p)),
              (''status'', JNumber (JInt (int (prb_status p)))), (''detail'', JString (prb_detail p)),
              (''code'', JString (prb_code p))]"

definition problem_into_response ::
  "'h http_lib \<Rightarrow> (json \<Rightarrow> string + bytes) \<Rightarrow> Problem \<Rightarrow> HandleResponse option" where
  "problem_into_response L to_vec p =
     (if status_from_u16 L (prb_status p) then
        (case to_vec (problem_json p) of
           Inl _ \<Rightarrow> None
         | Inr body \<Rightarrow> Some (with_content_type (prb_status p) PROBLEM_CONTENT_TYPE body))
      else None)"

definition problem ::
  "'h http_lib \<Rightarrow> (json \<Rightarrow> string + bytes) \<Rightarrow> (nat \<Rightarrow> string option) \<Rightarrow> nat \<Rightarrow> string \<Rightarrow> string \<Rightarrow> HandleResponse option" where
  "problem L to_vec canonical_reason status code detail =
     problem_into_response L to_vec (problem_new canonical_reason status code detail)"

text \<open>Lowering of a handler's result: a response value or an error that is itself a response or a failure.\<close>

datatype endpoint_error =
    ResponseError "ResponseBuildError + HandleResponse"
  | InvocationFailure EndpointHandleInvocationError

definition into_endpoint_error :: "endpoint_error \<Rightarrow> EndpointHandleInvocationError + HandleResponse" where
  "into_endpoint_error e =
     (case e of
        ResponseError r \<Rightarrow> map_err invocation_error_from r
      | InvocationFailure f \<Rightarrow> Inl f)"

definition into_endpoint_result ::
  "endpoint_error + (ResponseBuildError + HandleResponse) \<Rightarrow> RuntimeFailure + (HandleError + HandleResponse)" where
  "into_endpoint_result result =
     (case result of
        Inr response \<Rightarrow> try_in (map_err (\<lambda>e. Internal (build_error_text e)) response) (\<lambda>r. Inr (Inr r))
      | Inl error \<Rightarrow>
          (case into_endpoint_error error of
             Inr response \<Rightarrow> Inr (Inr response)
           | Inl (Domain e) \<Rightarrow> Inr (Inl e)
           | Inl (RuntimeError e) \<Rightarrow> Inl e))"

section \<open>Extraction\<close>

datatype ExtractorRejection =
    RejectedResponse HandleResponse
  | RejectedInvocation EndpointHandleInvocationError

text \<open>A rejection that answers with a problem; the outer \<open>None\<close> is the panic of building it.\<close>

definition reject_problem ::
  "'h http_lib \<Rightarrow> (json \<Rightarrow> string + bytes) \<Rightarrow> (nat \<Rightarrow> string option) \<Rightarrow> nat \<Rightarrow> string \<Rightarrow> string \<Rightarrow>
   (ExtractorRejection + 'a) option" where
  "reject_problem L to_vec reason status code detail =
     map_option (\<lambda>r. Inl (RejectedResponse r)) (problem L to_vec reason status code detail)"

definition has_json_content_type :: "HandleRequest \<Rightarrow> bool" where
  "has_json_content_type request \<longleftrightarrow>
     list_ex (\<lambda>header. eq_ignore_ascii_case (nv_name header) ''content-type'' \<and>
         eq_ignore_ascii_case (trim (hd (split_on (CHR '';'') (nv_value header)))) ''application/json'')
       (hr_headers request)"

definition extract_json ::
  "'h http_lib \<Rightarrow> (json \<Rightarrow> string + bytes) \<Rightarrow> (nat \<Rightarrow> string option) \<Rightarrow> (bytes \<Rightarrow> 'a option) \<Rightarrow> HandleRequest \<Rightarrow>
   (ExtractorRejection + 'a) option" where
  "extract_json L to_vec reason from_slice request =
     (if \<not> has_json_content_type request
      then reject_problem L to_vec reason 415 ''json_content_type_required''
        ''The request content type must be application/json.''
      else (case from_slice (hr_body request) of
          Some v \<Rightarrow> Some (Inr v)
        | None \<Rightarrow> reject_problem L to_vec reason 400 ''invalid_json_body''
            ''The request body is not valid JSON for this endpoint.''))"

definition extract_optional_json ::
  "'h http_lib \<Rightarrow> (json \<Rightarrow> string + bytes) \<Rightarrow> (nat \<Rightarrow> string option) \<Rightarrow> (bytes \<Rightarrow> 'a option) \<Rightarrow> HandleRequest \<Rightarrow>
   (ExtractorRejection + 'a option) option" where
  "extract_optional_json L to_vec reason from_slice request =
     (if hr_body request = [] then Some (Inr None)
      else map_option (\<lambda>r. try_in r (\<lambda>v. Inr (Some v))) (extract_json L to_vec reason from_slice request))"

definition invalid_path ::
  "'h http_lib \<Rightarrow> (json \<Rightarrow> string + bytes) \<Rightarrow> (nat \<Rightarrow> string option) \<Rightarrow> (ExtractorRejection + 'a) option" where
  "invalid_path L to_vec reason =
     reject_problem L to_vec reason 400 ''invalid_path_parameters''
       ''The route path parameters are not valid for this endpoint.''"

definition extract_path ::
  "'h http_lib \<Rightarrow> (json \<Rightarrow> string + bytes) \<Rightarrow> (nat \<Rightarrow> string option) \<Rightarrow>
   ((string \<times> string) list \<Rightarrow> string option) \<Rightarrow> (string \<Rightarrow> 'a option) \<Rightarrow> HandleRequest \<Rightarrow>
   (ExtractorRejection + 'a) option" where
  "extract_path L to_vec reason to_string from_str request =
     (case to_string (map (\<lambda>p. (nv_name p, nv_value p)) (hr_path_parameters request)) of
        None \<Rightarrow> invalid_path L to_vec reason
      | Some encoded \<Rightarrow>
          (case from_str encoded of
             Some v \<Rightarrow> Some (Inr v)
           | None \<Rightarrow> invalid_path L to_vec reason))"

definition extract_query ::
  "'h http_lib \<Rightarrow> (json \<Rightarrow> string + bytes) \<Rightarrow> (nat \<Rightarrow> string option) \<Rightarrow> (string \<Rightarrow> 'a option) \<Rightarrow> HandleRequest \<Rightarrow>
   (ExtractorRejection + 'a) option" where
  "extract_query L to_vec reason from_str request =
     (case from_str (case hr_query request of None \<Rightarrow> [] | Some q \<Rightarrow> q) of
        Some v \<Rightarrow> Some (Inr v)
      | None \<Rightarrow> reject_problem L to_vec reason 400 ''invalid_query''
          ''The query string is not valid for this endpoint.'')"

definition extract_request_id :: "HandleRequest \<Rightarrow> ExtractorRejection + string" where
  "extract_request_id request = Inr (hr_request_id request)"

definition extract_body :: "HandleRequest \<Rightarrow> ExtractorRejection + bytes" where
  "extract_body request = Inr (hr_body request)"

definition extract_headers :: "HandleRequest \<Rightarrow> ExtractorRejection + (string \<times> string) list" where
  "extract_headers request = Inr (map (\<lambda>h. (nv_name h, nv_value h)) (hr_headers request))"

definition headers_get :: "(string \<times> string) list \<Rightarrow> string \<Rightarrow> string option" where
  "headers_get values' name = map_option snd (find (\<lambda>e. eq_ignore_ascii_case (fst e) name) values')"

section \<open>Authentication\<close>

datatype AuthenticateError = Expired | InvalidCredential | Revoked | Unsupported | AuthUnknown UnknownDomainError

datatype 'as AuthOutcome = Absent | Authenticated 'as

text \<open>
  What the auth crates provide: the call with a context and the credential as evidence, the decoding of
  its response, and of an assertion its actor kind and its attachment to a context. Error texts are
  their \<open>Debug\<close> forms.
\<close>

record ('ctx, 'resp, 'as) auth_lib =
  authenticate_with_context :: "'ctx \<Rightarrow> (string \<times> string) option \<Rightarrow> AuthenticateError InvocationError + 'resp"
  decode_auth_response :: "'resp \<Rightarrow> string + 'as AuthOutcome"
  actor_kind :: "'as \<Rightarrow> string"
  attach :: "'as \<Rightarrow> 'ctx \<Rightarrow> string + 'ctx"

definition auth_internal :: "string \<Rightarrow> ExtractorRejection" where
  "auth_internal error = RejectedInvocation (RuntimeError (Internal error))"

definition unauthorized ::
  "'h http_lib \<Rightarrow> (json \<Rightarrow> string + bytes) \<Rightarrow> (nat \<Rightarrow> string option) \<Rightarrow> string \<Rightarrow> string \<Rightarrow>
   (EndpointHandleInvocationError + HandleResponse) option" where
  "unauthorized L to_vec reason code detail =
     map_option (\<lambda>r. map_err invocation_error_from
         (with_header L r ''www-authenticate'' (plain ''Bearer'') ''failed to convert header to a str''))
       (problem L to_vec reason 401 code detail)"

definition authentication_rejection ::
  "'h http_lib \<Rightarrow> (json \<Rightarrow> string + bytes) \<Rightarrow> (nat \<Rightarrow> string option) \<Rightarrow> AuthenticateError \<Rightarrow>
   (EndpointHandleInvocationError + HandleResponse) option" where
  "authentication_rejection L to_vec reason error =
     (case (case error of
        Expired \<Rightarrow> (''expired_credential'', ''The supplied authentication credential has expired.'')
      | InvalidCredential \<Rightarrow> (''invalid_credential'', ''The supplied authentication credential is invalid.'')
      | Revoked \<Rightarrow> (''revoked_credential'', ''The supplied authentication credential has been revoked.'')
      | Unsupported \<Rightarrow> (''unsupported_credential'', ''The supplied authentication credential is not supported.'')
      | AuthUnknown _ \<Rightarrow> (''authentication_failed'', ''The supplied authentication credential was not accepted.''))
      of (code, detail) \<Rightarrow> unauthorized L to_vec reason code detail)"

definition reject_with ::
  "(EndpointHandleInvocationError + HandleResponse) option \<Rightarrow> ExtractorRejection option" where
  "reject_with r = map_option (\<lambda>r. case r of Inl e \<Rightarrow> RejectedInvocation e | Inr resp \<Rightarrow> RejectedResponse resp) r"

text \<open>The context afterwards, and the actor or the rejection.\<close>

definition extract_authenticated_actor ::
  "'h http_lib \<Rightarrow> (json \<Rightarrow> string + bytes) \<Rightarrow> (nat \<Rightarrow> string option) \<Rightarrow>
   EndpointHandleInvocationError + ('ctx, 'resp, 'as) auth_lib \<Rightarrow> string \<Rightarrow> ('as \<Rightarrow> 'a) \<Rightarrow> 'ctx \<Rightarrow> HandleRequest \<Rightarrow>
   ('ctx \<times> (ExtractorRejection + 'a)) option" where
  "extract_authenticated_actor L to_vec reason auth_client kind from_assertion ctx request =
     (case auth_client of
        Inl e \<Rightarrow> Some (ctx, Inl (RejectedInvocation e))
      | Inr auth \<Rightarrow>
          (let evidence = map_option (\<lambda>c. (rc_scheme c, rc_value c)) (hr_credential request) in
           case authenticate_with_context auth ctx evidence of
             Inl (Domain error) \<Rightarrow>
               map_option (\<lambda>r. (ctx, Inl r)) (reject_with (authentication_rejection L to_vec reason error))
           | Inl (RuntimeError error) \<Rightarrow> Some (ctx, Inl (RejectedInvocation (RuntimeError error)))
           | Inr response \<Rightarrow>
               (case decode_auth_response auth response of
                  Inl error \<Rightarrow> Some (ctx, Inl (auth_internal error))
                | Inr Absent \<Rightarrow>
                    map_option (\<lambda>r. (ctx, Inl r)) (reject_with (unauthorized L to_vec reason
                      ''authentication_required'' ''Authentication credentials are required.''))
                | Inr (Authenticated assertion) \<Rightarrow>
                    if actor_kind auth assertion \<noteq> kind
                    then map_option (\<lambda>r. (ctx, Inl (RejectedResponse r)))
                      (problem L to_vec reason 403 ''unexpected_actor_kind''
                        ''The authenticated actor cannot access this endpoint.'')
                    else (case attach auth assertion ctx of
                        Inl error \<Rightarrow> Some (ctx, Inl (auth_internal error))
                      | Inr ctx' \<Rightarrow> Some (ctx', Inr (from_assertion assertion))))))"

section \<open>Problems can be built\<close>

text \<open>What the code relies on: serializing a value without maps of its own cannot fail.\<close>

definition writes_json :: "(json \<Rightarrow> string + bytes) \<Rightarrow> bool" where
  "writes_json to_vec \<longleftrightarrow> (\<forall>j. is_ok (to_vec j))"

definition accepts_status :: "'h http_lib \<Rightarrow> bool" where
  "accepts_status L \<longleftrightarrow> (\<forall>n. 100 \<le> n \<and> n < 1000 \<longrightarrow> status_from_u16 L n)"

definition is_problem :: "nat \<Rightarrow> HandleResponse \<Rightarrow> bool" where
  "is_problem status r \<longleftrightarrow> hres_status r = int status \<and>
     \<lparr>nv_name = ''content-type'', nv_value = PROBLEM_CONTENT_TYPE\<rparr> \<in> set (hres_headers r)"

lemma list_http_accepts_status: "accepts_status list_http"
  by (simp add: accepts_status_def list_http_def)

lemma constant_writes_json: "writes_json (\<lambda>_. Inr body)"
  by (simp add: writes_json_def is_ok_iff)

lemma problem_built:
  assumes "writes_json to_vec" and "accepts_status L" and "100 \<le> status" and "status < 1000"
  obtains body where "problem L to_vec reason status code detail = Some (with_content_type status PROBLEM_CONTENT_TYPE body)"
proof -
  let ?p = "problem_new reason status code detail"
  obtain body where "to_vec (problem_json ?p) = Inr body"
    using assms(1) unfolding writes_json_def is_ok_iff by blast
  moreover have "prb_status ?p = status" by (simp add: problem_new_def)
  ultimately have "problem L to_vec reason status code detail = Some (with_content_type status PROBLEM_CONTENT_TYPE body)"
    using assms(2-4) by (simp add: problem_def problem_into_response_def accepts_status_def)
  then show thesis by (rule that)
qed

lemma unauthorized_built:
  assumes "writes_json to_vec" and "accepts_status L" and "header_text_laws L"
  shows "\<exists>r. unauthorized L to_vec reason code detail = Some (Inr r) \<and> is_problem 401 r \<and>
    \<lparr>nv_name = ''www-authenticate'', nv_value = ''Bearer''\<rparr> \<in> set (hres_headers r)"
proof -
  obtain body where p: "problem L to_vec reason 401 code detail = Some (with_content_type 401 PROBLEM_CONTENT_TYPE body)"
    using problem_built [OF assms(1,2), of 401 reason code detail] by auto
  have "list_all visible_ascii ''Bearer''" by code_simp
  then have "to_str L (plain ''Bearer'') = Some ''Bearer''"
    using header_text_lawsD(4) [OF assms(3)] by (simp add: to_str_def)
  with p show ?thesis
    by (simp add: unauthorized_def with_header_def is_problem_def with_content_type_def)
qed


section \<open>Extraction answers every request\<close>

definition answers_problem :: "nat \<Rightarrow> (ExtractorRejection + 'a) option \<Rightarrow> bool" where
  "answers_problem status out =
     (case out of Some (Inl (RejectedResponse r)) \<Rightarrow> is_problem status r | _ \<Rightarrow> False)"

definition decodes_or_problem :: "'a option \<Rightarrow> nat \<Rightarrow> (ExtractorRejection + 'a) option \<Rightarrow> bool" where
  "decodes_or_problem decoded status out =
     (case decoded of Some v \<Rightarrow> (case out of Some (Inr v') \<Rightarrow> v' = v | _ \<Rightarrow> False) | None \<Rightarrow> answers_problem status out)"

lemma answers_reject_problem:
  assumes "writes_json to_vec" and "accepts_status L" and "100 \<le> status" and "status < 1000"
  shows "answers_problem status (reject_problem L to_vec reason status code detail)"
proof -
  obtain body where "problem L to_vec reason status code detail = Some (with_content_type status PROBLEM_CONTENT_TYPE body)"
    using assms by (rule problem_built)
  then show ?thesis
    by (simp add: answers_problem_def reject_problem_def is_problem_def with_content_type_def)
qed

text \<open>The typed extractors never panic: a request yields the decoded value exactly when it decodes, a body without the JSON content type is answered with a 415 problem, and a body, path or query that does not decode with a 400 problem; an empty optional body needs no content type.\<close>

theorem extraction_answers_every_request:
  assumes "writes_json to_vec" and "accepts_status L"
  shows "(if has_json_content_type request
          then decodes_or_problem (from_slice (hr_body request)) 400 (extract_json L to_vec reason from_slice request)
          else answers_problem 415 (extract_json L to_vec reason from_slice request)) \<and>
    (if hr_body request = [] then extract_optional_json L to_vec reason from_slice request = Some (Inr None)
     else if has_json_content_type request
     then decodes_or_problem (map_option Some (from_slice (hr_body request))) 400
       (extract_optional_json L to_vec reason from_slice request)
     else answers_problem 415 (extract_optional_json L to_vec reason from_slice request)) \<and>
    decodes_or_problem (Option.bind (to_string (map (\<lambda>p. (nv_name p, nv_value p)) (hr_path_parameters request))) from_str)
      400 (extract_path L to_vec reason to_string from_str request) \<and>
    decodes_or_problem (from_query (case hr_query request of None \<Rightarrow> [] | Some q \<Rightarrow> q))
      400 (extract_query L to_vec reason from_query request)"
proof -
  note ans = answers_reject_problem [OF assms]
  have json: "if has_json_content_type request
          then decodes_or_problem (from_slice (hr_body request)) 400 (extract_json L to_vec reason from_slice request)
          else answers_problem 415 (extract_json L to_vec reason from_slice request)"
    by (simp add: extract_json_def decodes_or_problem_def ans split: option.splits)
  moreover have "if hr_body request = [] then extract_optional_json L to_vec reason from_slice request = Some (Inr None)
     else if has_json_content_type request
     then decodes_or_problem (map_option Some (from_slice (hr_body request))) 400
       (extract_optional_json L to_vec reason from_slice request)
     else answers_problem 415 (extract_optional_json L to_vec reason from_slice request)"
    using json
    by (auto simp: extract_optional_json_def decodes_or_problem_def answers_problem_def
        split: if_splits option.splits sum.splits ExtractorRejection.splits)
  moreover have "decodes_or_problem (Option.bind (to_string (map (\<lambda>p. (nv_name p, nv_value p)) (hr_path_parameters request))) from_str)
      400 (extract_path L to_vec reason to_string from_str request)"
    by (simp add: extract_path_def invalid_path_def decodes_or_problem_def ans split: option.splits)
  moreover have "decodes_or_problem (from_query (case hr_query request of None \<Rightarrow> [] | Some q \<Rightarrow> q))
      400 (extract_query L to_vec reason from_query request)"
    by (simp add: extract_query_def decodes_or_problem_def ans split: option.splits)
  ultimately show ?thesis by blast
qed

theorem extraction_answers_every_request_witness:
  "let request = \<lparr>hr_body = ''{}'', hr_credential = None, hr_headers = [\<lparr>nv_name = ''Content-Type'', nv_value = ''text/plain''\<rparr>],
         hr_method = ''POST'', hr_path = ''/'', hr_path_parameters = [], hr_query = None, hr_request_id = ''1'', hr_route_id = ''r''\<rparr> in
   answers_problem 415 (extract_json list_http (\<lambda>_. Inr ''{}'') (\<lambda>_. None) (\<lambda>b. Some b) request) \<and>
   extract_query list_http (\<lambda>_. Inr ''{}'') (\<lambda>_. None) (\<lambda>q. Some q) request = Some (Inr [])"
proof -
  let ?request = "\<lparr>hr_body = ''{}'', hr_credential = None, hr_headers = [\<lparr>nv_name = ''Content-Type'', nv_value = ''text/plain''\<rparr>],
         hr_method = ''POST'', hr_path = ''/'', hr_path_parameters = [], hr_query = None, hr_request_id = ''1'', hr_route_id = ''r''\<rparr>"
  have "\<not> has_json_content_type ?request" by code_simp
  then show ?thesis
    using extraction_answers_every_request [OF constant_writes_json list_http_accepts_status, of ?request "\<lambda>b. Some b"
        "''{}''" "\<lambda>_. None" "\<lambda>_. None" "\<lambda>_. None :: nat option" "\<lambda>q. Some q"]
    by (simp add: Let_def decodes_or_problem_def split: option.splits sum.splits)
qed

section \<open>Authenticated actors\<close>

text \<open>What an outcome of the actor extraction means to the handler.\<close>

definition refuses_actor :: "ExtractorRejection \<Rightarrow> bool" where
  "refuses_actor rejection =
     (case rejection of
        RejectedResponse r \<Rightarrow>
          is_problem 403 r \<or>
          (is_problem 401 r \<and> \<lparr>nv_name = ''www-authenticate'', nv_value = ''Bearer''\<rparr> \<in> set (hres_headers r))
      | RejectedInvocation _ \<Rightarrow> True)"

lemma reject_unauthorized:
  assumes "writes_json to_vec" and "accepts_status L" and "header_text_laws L"
  shows "\<exists>rej. reject_with (unauthorized L to_vec reason code detail) = Some rej \<and> refuses_actor rej"
  using unauthorized_built [OF assms, of reason code detail] by (auto simp: reject_with_def refuses_actor_def)

lemma reject_authentication:
  assumes "writes_json to_vec" and "accepts_status L" and "header_text_laws L"
  shows "\<exists>rej. reject_with (authentication_rejection L to_vec reason error) = Some rej \<and> refuses_actor rej"
  using reject_unauthorized [OF assms] by (simp add: authentication_rejection_def split: AuthenticateError.splits)

lemma reject_actor_kind:
  assumes "writes_json to_vec" and "accepts_status L"
  shows "\<exists>r. problem L to_vec reason 403 code detail = Some r \<and> refuses_actor (RejectedResponse r)"
proof -
  obtain body where "problem L to_vec reason 403 code detail = Some (with_content_type 403 PROBLEM_CONTENT_TYPE body)"
    using problem_built [OF assms, of 403 reason code detail] by auto
  then show ?thesis by (simp add: refuses_actor_def is_problem_def with_content_type_def)
qed

text \<open>C29. Extracting an actor never panics. The handler gets an actor only when the auth capability authenticated the request's own credential, the assertion has the required actor kind and was attached to the invocation context; every other outcome leaves the context as it was and is refused, with a 401 problem carrying the Bearer challenge, a 403 problem, or a runtime failure.\<close>

theorem actor_only_when_authenticated:
  fixes auth_client :: "EndpointHandleInvocationError + ('ctx, 'resp, 'as) auth_lib"
  assumes "writes_json to_vec" and "accepts_status L" and "header_text_laws L"
  shows "case extract_authenticated_actor L to_vec reason auth_client kind from_assertion ctx request of
      None \<Rightarrow> False
    | Some (ctx', Inl rejection) \<Rightarrow> ctx' = ctx \<and> refuses_actor rejection
    | Some (ctx', Inr actor) \<Rightarrow> (\<exists>auth response assertion.
        auth_client = Inr auth \<and>
        authenticate_with_context auth ctx (map_option (\<lambda>c. (rc_scheme c, rc_value c)) (hr_credential request)) = Inr response \<and>
        decode_auth_response auth response = Inr (Authenticated assertion) \<and>
        actor_kind auth assertion = kind \<and> attach auth assertion ctx = Inr ctx' \<and> actor = from_assertion assertion)"
proof -
  obtain r1 where r1: "reject_with (unauthorized L to_vec reason ''authentication_required''
      ''Authentication credentials are required.'') = Some r1" "refuses_actor r1"
    using reject_unauthorized [OF assms] by blast
  obtain r2 where r2: "problem L to_vec reason 403 ''unexpected_actor_kind''
      ''The authenticated actor cannot access this endpoint.'' = Some r2" "refuses_actor (RejectedResponse r2)"
    using reject_actor_kind [OF assms(1,2)] by blast
  have r3: "\<forall>error. \<exists>rej. reject_with (authentication_rejection L to_vec reason error) = Some rej \<and> refuses_actor rej"
    using reject_authentication [OF assms] by blast
  show ?thesis
  proof (cases auth_client)
    case (Inl e)
    then show ?thesis by (simp add: extract_authenticated_actor_def refuses_actor_def)
  next
    case auth: (Inr auth)
    let ?call = "authenticate_with_context auth ctx (map_option (\<lambda>c. (rc_scheme c, rc_value c)) (hr_credential request))"
    show ?thesis
    proof (cases ?call)
      case (Inl error)
      show ?thesis
      proof (cases error)
        case (Domain e)
        obtain rej where "reject_with (authentication_rejection L to_vec reason e) = Some rej" "refuses_actor rej"
          using r3 by blast
        then show ?thesis by (simp add: extract_authenticated_actor_def Let_def auth Inl Domain)
      next
        case (RuntimeError e)
        then show ?thesis by (simp add: extract_authenticated_actor_def Let_def auth Inl refuses_actor_def)
      qed
    next
      case (Inr response)
      then show ?thesis
        by (auto simp: extract_authenticated_actor_def Let_def auth r1 r2 auth_internal_def refuses_actor_def [of "RejectedInvocation _"]
            split: sum.splits AuthOutcome.splits)
    qed
  qed
qed

theorem actor_only_when_authenticated_witness:
  "let auth = \<lparr>authenticate_with_context = (\<lambda>c e. case e of None \<Rightarrow> Inr Absent | Some _ \<Rightarrow> Inr (Authenticated ''user'')),
        decode_auth_response = Inr, actor_kind = (\<lambda>a. a), attach = (\<lambda>a c. Inr (a # c))\<rparr>;
     request = \<lparr>hr_body = [], hr_credential = None, hr_headers = [], hr_method = ''GET'', hr_path = ''/'',
        hr_path_parameters = [], hr_query = None, hr_request_id = ''1'', hr_route_id = ''r''\<rparr>
   in (case extract_authenticated_actor list_http (\<lambda>_. Inr ''{}'') (\<lambda>_. None) (Inr auth) ''user'' (\<lambda>a. a) [] request of
         Some ([], Inl rejection) \<Rightarrow> refuses_actor rejection | _ \<Rightarrow> False)"
proof -
  let ?auth = "\<lparr>authenticate_with_context = (\<lambda>c e. case e of None \<Rightarrow> Inr Absent | Some _ \<Rightarrow> Inr (Authenticated ''user'')),
        decode_auth_response = Inr, actor_kind = (\<lambda>a. a), attach = (\<lambda>a c. Inr (a # c))\<rparr>"
  let ?request = "\<lparr>hr_body = [], hr_credential = None, hr_headers = [], hr_method = ''GET'', hr_path = ''/'',
        hr_path_parameters = [], hr_query = None, hr_request_id = ''1'', hr_route_id = ''r''\<rparr>"
  show ?thesis
    using actor_only_when_authenticated [OF constant_writes_json list_http_accepts_status list_http_header_text_laws,
        where ?body1 = "''{}''" and reason = "\<lambda>_. None" and auth_client = "Inr ?auth" and kind = "''user''"
          and from_assertion = "\<lambda>a. a" and ctx = "[]" and request = ?request]
    by (auto simp: Let_def split: option.splits sum.splits)
qed

end
