(* ===== verification/EndpointAuthoring.thy ===== *)
theory EndpointAuthoring
  imports Routing OpenApiAssemble EndpointResponse
begin

text \<open>
  Authored endpoints (\<open>authoring.rs\<close>): the outcome of an endpoint's own middleware, the route
  table and its validation at compile time, the description and dispatch that \<open>http_endpoint!\<close>
  generates from one list of arms, and the test harness of \<open>testing.rs\<close>. A failed \<open>assert!\<close> is an
  error with its message, \<open>unreachable!\<close> and a failed \<open>expect\<close> are \<open>None\<close>. A contract factory is the
  result of calling it, a handler a function of context and request.
\<close>

section \<open>Middleware outcomes\<close>

record 'ctx MiddlewareOutcome =
  mo_next :: "('ctx \<times> HandleRequest) option"
  mo_response :: "HandleResponse option"

definition outcome_next :: "'ctx \<Rightarrow> HandleRequest \<Rightarrow> 'ctx MiddlewareOutcome" where
  "outcome_next ctx request = \<lparr>mo_next = Some (ctx, request), mo_response = None\<rparr>"

definition outcome_response :: "HandleResponse \<Rightarrow> 'ctx MiddlewareOutcome" where
  "outcome_response response = \<lparr>mo_next = None, mo_response = Some response\<rparr>"

definition into_result :: "'ctx MiddlewareOutcome \<Rightarrow> (HandleResponse + 'ctx \<times> HandleRequest) option" where
  "into_result outcome =
     (case (mo_next outcome, mo_response outcome) of
        (Some n, None) \<Rightarrow> Some (Inr n)
      | (None, Some response) \<Rightarrow> Some (Inl response)
      | _ \<Rightarrow> None)"

section \<open>Routes\<close>

record EndpointRoute =
  er_route_id :: string
  er_method :: string
  er_path :: string
  er_openapi :: "string option"
  er_openapi_contract :: "(string + json) option"

definition route_new :: "string \<Rightarrow> string \<Rightarrow> string \<Rightarrow> EndpointRoute" where
  "route_new route_id route_method path =
     \<lparr>er_route_id = route_id, er_method = route_method, er_path = path, er_openapi = None, er_openapi_contract = None\<rparr>"

definition with_openapi :: "EndpointRoute \<Rightarrow> string \<Rightarrow> EndpointRoute" where
  "with_openapi route operation = route\<lparr>er_openapi := Some operation\<rparr>"

definition with_openapi_contract :: "EndpointRoute \<Rightarrow> string + json \<Rightarrow> EndpointRoute" where
  "with_openapi_contract route contract = route\<lparr>er_openapi_contract := Some contract\<rparr>"

definition route_eq :: "EndpointRoute \<Rightarrow> EndpointRoute \<Rightarrow> bool" where
  "route_eq a b \<longleftrightarrow> er_route_id a = er_route_id b \<and> er_method a = er_method b \<and> er_path a = er_path b \<and>
     er_openapi a = er_openapi b \<and> (er_openapi_contract a \<noteq> None) = (er_openapi_contract b \<noteq> None)"

definition into_description ::
  "(string \<Rightarrow> json_object option) \<Rightarrow> EndpointRoute \<Rightarrow> DescribeError + DescribeResponseRoutesItem" where
  "into_description from_str route =
     try_in (case er_openapi route of
         None \<Rightarrow> Inr None
       | Some s \<Rightarrow> try_in (ok_or (from_str s) InvalidConfiguration) (\<lambda>m. Inr (Some m))) (\<lambda>openapi.
     try_in (case er_openapi_contract route of
         None \<Rightarrow> Inr openapi
       | Some made \<Rightarrow> try_in (map_err (\<lambda>_. InvalidConfiguration) made) (\<lambda>contract.
           let operation = (case openapi of None \<Rightarrow> [] | Some m \<Rightarrow> m) in
           if bt_get operation OPENAPI_CONTRACT_EXTENSION \<noteq> None then Inl InvalidConfiguration
           else Inr (Some (bt_insert OPENAPI_CONTRACT_EXTENSION contract operation)))) (\<lambda>openapi.
       Inr \<lparr>dri_method = er_method route, dri_openapi = openapi, dri_path = er_path route,
            dri_route_id = er_route_id route\<rparr>))"

definition endpoint_describe ::
  "(string \<Rightarrow> json_object option) \<Rightarrow> EndpointRoute list \<Rightarrow> DescribeError + DescribeResponse" where
  "endpoint_describe from_str routes =
     try_in (traverse (into_description from_str) routes) (\<lambda>rs. Inr \<lparr>dr_routes = rs\<rparr>)"

section \<open>Validation of a route table\<close>

text \<open>The \<open>while\<close> loops over the bytes of a name: every byte from \<open>index\<close> on is accepted.\<close>

function bytes_from :: "(char \<Rightarrow> bool) \<Rightarrow> string \<Rightarrow> nat \<Rightarrow> bool" where
  "bytes_from accepted bs index =
     (if index < length bs then (if \<not> accepted (bs ! index) then False else bytes_from accepted bs (index + 1)) else True)"
  by pat_completeness auto
termination
  by (relation "measure (\<lambda>(_, bs, index). length bs - index)") auto

declare bytes_from.simps [simp del]

definition valid_route_id :: "string \<Rightarrow> bool" where
  "valid_route_id v \<longleftrightarrow> (if v = [] then False else bytes_from (\<lambda>c. \<not> is_ascii_whitespace c) v 0)"

definition method_byte :: "char \<Rightarrow> bool" where
  "method_byte c \<longleftrightarrow> is_ascii_uppercase c \<or> is_ascii_digit c \<or>
     byte c \<in> {33, 35, 36, 37, 38, 39, 42, 43, 45, 46, 94, 95, 96, 124, 126}"

definition valid_method :: "string \<Rightarrow> bool" where
  "valid_method v \<longleftrightarrow> (if v = [] then False else bytes_from method_byte v 0)"

definition valid_path :: "string \<Rightarrow> bool" where
  "valid_path v \<longleftrightarrow> (if v = [] \<or> v ! 0 \<noteq> CHR ''/'' then False
     else bytes_from (\<lambda>c. c \<noteq> CHR ''?'' \<and> c \<noteq> CHR ''#'') v 0)"

function string_eq_from :: "string \<Rightarrow> string \<Rightarrow> nat \<Rightarrow> bool" where
  "string_eq_from left right index =
     (if index < length left
      then (if left ! index \<noteq> right ! index then False else string_eq_from left right (index + 1))
      else True)"
  by pat_completeness auto
termination
  by (relation "measure (\<lambda>(left, _, index). length left - index)") auto

declare string_eq_from.simps [simp del]

definition string_eq :: "string \<Rightarrow> string \<Rightarrow> bool" where
  "string_eq left right \<longleftrightarrow> (if length left \<noteq> length right then False else string_eq_from left right 0)"

function check_previous :: "EndpointRoute list \<Rightarrow> EndpointRoute \<Rightarrow> nat \<Rightarrow> nat \<Rightarrow> string + unit" where
  "check_previous routes route index previous =
     (if previous < index then
        let candidate = routes ! previous in
        if string_eq (er_route_id candidate) (er_route_id route) then Inl ''HTTP route ids must be unique''
        else if string_eq (er_method candidate) (er_method route) \<and> string_eq (er_path candidate) (er_path route)
        then Inl ''HTTP method and path pairs must be unique''
        else check_previous routes route index (previous + 1)
      else Inr ())"
  by pat_completeness auto
termination
  by (relation "measure (\<lambda>(_, _, index, previous). index - previous)") auto

declare check_previous.simps [simp del]

function validate_from :: "EndpointRoute list \<Rightarrow> nat \<Rightarrow> string + unit" where
  "validate_from routes index =
     (if index < length routes then
        let route = routes ! index in
        if \<not> valid_route_id (er_route_id route) then Inl ''HTTP route id is invalid''
        else if \<not> valid_method (er_method route) then Inl ''HTTP route method is invalid''
        else if \<not> valid_path (er_path route) then Inl ''HTTP route path is invalid''
        else try_in (check_previous routes route index 0) (\<lambda>_. validate_from routes (index + 1))
      else Inr ())"
  by pat_completeness auto
termination
  by (relation "measure (\<lambda>(routes, index). length routes - index)") auto

declare validate_from.simps [simp del]

definition validate_endpoint_routes :: "EndpointRoute list \<Rightarrow> string + unit" where
  "validate_endpoint_routes routes =
     (if routes = [] then Inl ''an HTTP Endpoint needs at least one route'' else validate_from routes 0)"

section \<open>The generated endpoint\<close>

type_synonym 'ctx handler = "'ctx \<Rightarrow> HandleRequest \<Rightarrow> EndpointHandleInvocationError + HandleResponse"

text \<open>The arms of \<open>http_endpoint!\<close>: the routes and the handlers come from the same list.\<close>

type_synonym 'ctx arms = "(EndpointRoute \<times> 'ctx handler) list"

definition endpoint_dispatch ::
  "'ctx arms \<Rightarrow> 'ctx \<Rightarrow> HandleRequest \<Rightarrow> RuntimeFailure + (HandleError + HandleResponse)" where
  "endpoint_dispatch arms ctx request =
     (case find (\<lambda>(route, _). er_route_id route = hr_route_id request) arms of
        Some (_, handler) \<Rightarrow>
          (case handler ctx request of
             Inr response \<Rightarrow> Inr (Inr response)
           | Inl (Domain error) \<Rightarrow> Inr (Inl error)
           | Inl (RuntimeError error) \<Rightarrow> Inl error)
      | None \<Rightarrow> Inr (Inl HandleRejected))"

section \<open>The test harness\<close>

text \<open>\<open>str::replace\<close> of a non-empty pattern, from left to right.\<close>

function str_replace :: "string \<Rightarrow> string \<Rightarrow> string \<Rightarrow> string" where
  "str_replace pat to s =
     (if s = [] \<or> pat = [] then s
      else if starts_with s pat then to @ str_replace pat to (drop (length pat) s)
      else hd s # str_replace pat to (tl s))"
  by pat_completeness auto
termination
  by (relation "measure (\<lambda>(_, _, s). length s)") auto

declare str_replace.simps [simp del]

record TestRequest =
  tr_route_id :: string
  tr_body :: bytes
  tr_headers :: "NameValue list"
  tr_path_parameters :: "NameValue list"
  tr_query :: "string option"

definition test_request :: "string \<Rightarrow> TestRequest" where
  "test_request route_id =
     \<lparr>tr_route_id = route_id, tr_body = [], tr_headers = [], tr_path_parameters = [], tr_query = None\<rparr>"

definition test_json :: "string + bytes \<Rightarrow> TestRequest \<Rightarrow> string + TestRequest" where
  "test_json encoded t = try_in encoded (\<lambda>body.
     Inr (t\<lparr>tr_body := body,
            tr_headers := tr_headers t @ [\<lparr>nv_name = ''content-type'', nv_value = ''application/json''\<rparr>]\<rparr>))"

definition test_query :: "string + string \<Rightarrow> TestRequest \<Rightarrow> string + TestRequest" where
  "test_query encoded t = try_in encoded (\<lambda>q. Inr (t\<lparr>tr_query := Some q\<rparr>))"

definition test_path_parameter :: "string \<Rightarrow> string \<Rightarrow> TestRequest \<Rightarrow> TestRequest" where
  "test_path_parameter name v t = t\<lparr>tr_path_parameters := tr_path_parameters t @ [\<lparr>nv_name = name, nv_value = v\<rparr>]\<rparr>"

definition test_header :: "string \<Rightarrow> string \<Rightarrow> TestRequest \<Rightarrow> TestRequest" where
  "test_header name v t = t\<lparr>tr_headers := tr_headers t @ [\<lparr>nv_name = name, nv_value = v\<rparr>]\<rparr>"

datatype EndpointTestError = UnknownRoute string | TestDomain HandleError | TestRuntime RuntimeFailure

definition test_error_from :: "EndpointHandleInvocationError \<Rightarrow> EndpointTestError" where
  "test_error_from error = (case error of Domain e \<Rightarrow> TestDomain e | RuntimeError e \<Rightarrow> TestRuntime e)"

definition expand_path :: "string \<Rightarrow> NameValue list \<Rightarrow> string" where
  "expand_path path parameters =
     foldl (\<lambda>path p. str_replace (''{'' @ nv_name p @ ''}'') (nv_value p) path) path parameters"

definition test_send :: "'ctx arms \<Rightarrow> 'ctx \<Rightarrow> TestRequest \<Rightarrow> EndpointTestError + HandleResponse" where
  "test_send arms ctx t =
     try_in (ok_or (find (\<lambda>route. er_route_id route = tr_route_id t) (map fst arms)) (UnknownRoute (tr_route_id t)))
       (\<lambda>route.
         let request = \<lparr>hr_body = tr_body t, hr_credential = None, hr_headers = tr_headers t,
               hr_method = er_method route, hr_path = expand_path (er_path route) (tr_path_parameters t),
               hr_path_parameters = tr_path_parameters t, hr_query = tr_query t,
               hr_request_id = ''endpoint-test-1'', hr_route_id = tr_route_id t\<rparr>
         in try_in (map_err TestRuntime (endpoint_dispatch arms ctx request)) (\<lambda>outcome.
              map_err TestDomain outcome))"

definition test_status :: "'h http_lib \<Rightarrow> HandleResponse \<Rightarrow> nat option" where
  "test_status L r =
     (if 0 \<le> hres_status r \<and> hres_status r < 65536 \<and> status_from_u16 L (nat (hres_status r))
      then Some (nat (hres_status r)) else None)"

definition test_response_header :: "HandleResponse \<Rightarrow> string \<Rightarrow> string option" where
  "test_response_header r name =
     map_option nv_value (find (\<lambda>h. eq_ignore_ascii_case (nv_name h) name) (hres_headers r))"

section \<open>The index loops as predicates\<close>

lemma upto_step: "i < n \<Longrightarrow> (\<forall>j. i \<le> j \<and> j < (n :: nat) \<longrightarrow> P j) \<longleftrightarrow> P i \<and> (\<forall>j. i + 1 \<le> j \<and> j < n \<longrightarrow> P j)"
  by (auto simp: order_le_less Suc_le_eq) (metis Suc_lessI)

lemma bytes_from_iff: "bytes_from accepted bs i \<longleftrightarrow> (\<forall>j. i \<le> j \<and> j < length bs \<longrightarrow> accepted (bs ! j))"
proof (induction accepted bs i rule: bytes_from.induct)
  case (1 accepted bs i)
  then show ?case by (subst bytes_from.simps) (auto simp: upto_step)
qed

lemma bytes_from_0: "bytes_from accepted bs 0 \<longleftrightarrow> list_all accepted bs"
  by (auto simp: bytes_from_iff list_all_length)

lemma string_eq_from_iff:
  "string_eq_from l r i \<longleftrightarrow> (\<forall>j. i \<le> j \<and> j < length l \<longrightarrow> l ! j = r ! j)"
proof (induction l r i rule: string_eq_from.induct)
  case (1 l r i)
  then show ?case by (subst string_eq_from.simps) (auto simp: upto_step)
qed

lemma string_eq_iff: "string_eq l r \<longleftrightarrow> l = r"
  by (auto simp: string_eq_def string_eq_from_iff list_eq_iff_nth_eq)

lemma valid_name_iff:
  "valid_route_id v \<longleftrightarrow> v \<noteq> [] \<and> list_all (\<lambda>c. \<not> is_ascii_whitespace c) v"
  "valid_method v \<longleftrightarrow> v \<noteq> [] \<and> list_all method_byte v"
  "valid_path v \<longleftrightarrow> starts_with v ''/'' \<and> CHR ''?'' \<notin> set v \<and> CHR ''#'' \<notin> set v"
  by (cases v; auto simp: valid_route_id_def valid_method_def valid_path_def bytes_from_0 list_all_iff starts_with_def)+

definition clash :: "EndpointRoute \<Rightarrow> EndpointRoute \<Rightarrow> bool" where
  "clash a b \<longleftrightarrow> er_route_id a = er_route_id b \<or> (er_method a = er_method b \<and> er_path a = er_path b)"

lemma check_previous_iff:
  "check_previous routes route i k = Inr () \<longleftrightarrow> (\<forall>j. k \<le> j \<and> j < i \<longrightarrow> \<not> clash (routes ! j) route)"
proof (induction routes route i k rule: check_previous.induct)
  case (1 routes route i k)
  then show ?case
    by (subst check_previous.simps) (auto simp: Let_def string_eq_iff clash_def upto_step)
qed

definition valid_route :: "EndpointRoute \<Rightarrow> bool" where
  "valid_route r \<longleftrightarrow> valid_route_id (er_route_id r) \<and> valid_method (er_method r) \<and> valid_path (er_path r)"

lemma validate_from_iff:
  "validate_from routes i = Inr () \<longleftrightarrow>
     (\<forall>j. i \<le> j \<and> j < length routes \<longrightarrow> valid_route (routes ! j) \<and> (\<forall>k < j. \<not> clash (routes ! k) (routes ! j)))"
proof (induction routes i rule: validate_from.induct)
  case (1 routes i)
  then show ?case
    by (subst validate_from.simps)
      (auto simp: Let_def valid_route_def try_in_Inr_iff check_previous_iff upto_step)
qed

lemma distinct_map_earlier:
  "distinct (map f rs) \<longleftrightarrow> (\<forall>j < length rs. \<forall>k < j. f (rs ! k) \<noteq> f (rs ! j))"
  by (auto simp: distinct_conv_nth) (metis linorder_neqE_nat order.strict_trans)

lemma pairwise_distinct:
  "(\<forall>j < length rs. \<forall>k < j. \<not> clash (rs ! k) (rs ! j)) \<longleftrightarrow>
     distinct (map er_route_id rs) \<and> distinct (map (\<lambda>r. (er_method r, er_path r)) rs)"
  by (auto simp: clash_def distinct_map_earlier)

lemma validated_ids: "validate_endpoint_routes routes = Inr () \<Longrightarrow> distinct (map er_route_id routes)"
proof -
  assume "validate_endpoint_routes routes = Inr ()"
  then have "\<forall>j < length routes. \<forall>k < j. \<not> clash (routes ! k) (routes ! j)"
    by (auto simp: validate_endpoint_routes_def validate_from_iff split: if_splits)
  then show ?thesis unfolding pairwise_distinct by blast
qed

text \<open>Compile-time validation accepts a route table exactly when it is not empty, every route
  identifier is non-empty without ASCII whitespace, every method is a non-empty upper-case token,
  every path is absolute without query or fragment, and neither route identifiers nor pairs of
  method and path repeat.\<close>

theorem validate_endpoint_routes_iff:
  "validate_endpoint_routes routes = Inr () \<longleftrightarrow>
     routes \<noteq> [] \<and>
     (\<forall>r \<in> set routes. er_route_id r \<noteq> [] \<and> list_all (\<lambda>c. \<not> is_ascii_whitespace c) (er_route_id r) \<and>
        er_method r \<noteq> [] \<and> list_all method_byte (er_method r) \<and>
        starts_with (er_path r) ''/'' \<and> CHR ''?'' \<notin> set (er_path r) \<and> CHR ''#'' \<notin> set (er_path r)) \<and>
     distinct (map er_route_id routes) \<and> distinct (map (\<lambda>r. (er_method r, er_path r)) routes)"
proof -
  have "validate_from routes 0 = Inr () \<longleftrightarrow> (\<forall>r \<in> set routes. valid_route r) \<and>
      (\<forall>j < length routes. \<forall>k < j. \<not> clash (routes ! k) (routes ! j))"
    by (auto simp: validate_from_iff all_set_conv_all_nth)
  then show ?thesis
    by (simp add: validate_endpoint_routes_def pairwise_distinct valid_route_def valid_name_iff)
qed

theorem validate_endpoint_routes_iff_witness:
  "validate_endpoint_routes [route_new ''orders.create'' ''POST'' ''/orders'', route_new ''orders.read'' ''GET'' ''/orders/{id}''] = Inr () \<and>
   validate_endpoint_routes [route_new ''orders.read'' ''GET'' ''/orders/{id}'', route_new ''orders.copy'' ''GET'' ''/orders/{id}''] \<noteq> Inr ()"
  using validate_endpoint_routes_iff [of "[route_new ''orders.create'' ''POST'' ''/orders'', route_new ''orders.read'' ''GET'' ''/orders/{id}'']"]
    validate_endpoint_routes_iff [of "[route_new ''orders.read'' ''GET'' ''/orders/{id}'', route_new ''orders.copy'' ''GET'' ''/orders/{id}'']"]
  by (simp add: route_new_def method_byte_def is_ascii_whitespace_def is_ascii_uppercase_def is_ascii_digit_def byte_def starts_with_def)

section \<open>Outcomes and the harness\<close>

lemma into_result_constructed:
  "into_result (outcome_next ctx request) = Some (Inr (ctx, request))"
  "into_result (outcome_response response) = Some (Inl response)"
  by (simp_all add: into_result_def outcome_next_def outcome_response_def)

section \<open>Trimming names without whitespace\<close>

lemma trim_front_id: "(\<And>w. w \<in> set ws \<Longrightarrow> w \<noteq> [] \<Longrightarrow> \<not> starts_with s w) \<Longrightarrow> trim_front ws s = s"
  by (subst trim_front.simps) (auto simp: find_Some_iff split: option.splits)

definition graphic :: "char \<Rightarrow> bool" where
  "graphic c \<longleftrightarrow> 32 < byte c \<and> byte c < 127"

lemma whitespace_not_graphic:
  "w \<in> set unicode_whitespace \<Longrightarrow> \<not> graphic (hd w) \<and> \<not> graphic (last w)"
proof -
  have "list_all (\<lambda>w. \<not> graphic (hd w) \<and> \<not> graphic (last w)) unicode_whitespace" by code_simp
  then show "w \<in> set unicode_whitespace \<Longrightarrow> \<not> graphic (hd w) \<and> \<not> graphic (last w)" by (simp add: list_all_iff)
qed

lemma trim_graphic:
  assumes "list_all graphic s"
  shows "trim s = s"
proof -
  have hd_mem: "starts_with t w \<Longrightarrow> w \<noteq> [] \<Longrightarrow> hd w \<in> set t" for t w
    by (cases w) (auto simp: starts_with_iff)
  have "trim_front unicode_whitespace s = s"
    by (rule trim_front_id) (use assms whitespace_not_graphic hd_mem in \<open>fastforce simp: list_all_iff\<close>)
  moreover have "trim_front (map rev unicode_whitespace) (rev s) = rev s"
  proof (rule trim_front_id)
    fix w assume "w \<in> set (map rev unicode_whitespace)" "w \<noteq> []"
    then obtain v where v: "v \<in> set unicode_whitespace" "w = rev v" "v \<noteq> []" by auto
    then have "\<not> graphic (hd w)" using whitespace_not_graphic by (simp add: hd_rev)
    with hd_mem [of "rev s" w] \<open>w \<noteq> []\<close> assms show "\<not> starts_with (rev s) w" by (auto simp: list_all_iff)
  qed
  ultimately show ?thesis by (simp add: trim_def)
qed

lemma method_byte_graphic: "method_byte c \<Longrightarrow> graphic c \<and> \<not> is_ascii_lowercase c"
  by (auto simp: method_byte_def graphic_def is_ascii_uppercase_def is_ascii_digit_def is_ascii_lowercase_def)

lemma normalize_valid_method:
  assumes "list_all method_byte m"
  shows "to_ascii_uppercase (trim m) = m"
proof -
  have "list_all graphic m" "\<not> list_ex is_ascii_lowercase m"
    using assms method_byte_graphic by (auto simp: list_all_iff list_ex_iff)
  then show ?thesis by (simp add: trim_graphic to_ascii_uppercase_id)
qed

lemma visible_route_id_not_blank:
  assumes "list_all visible_ascii v" and "valid_route_id v"
  shows "trim v \<noteq> []"
proof -
  have "list_all graphic v"
    using assms by (auto simp: valid_name_iff list_all_iff visible_ascii_def graphic_def is_ascii_whitespace_def
        order_le_less)
  then show ?thesis using assms(2) by (simp add: trim_graphic valid_name_iff)
qed

text \<open>
  The rule of the macro and the rule of the ingress differ on other whitespace: an identifier that
  is a vertical tab is accepted at compile time and refused when the ingress starts.
\<close>

lemma valid_route_id_refused_by_ingress:
  "valid_route_id [CHR 0x0B] \<and> invalid_route [CHR 0x0B] ''/orders''"
proof
  show "valid_route_id [CHR 0x0B]" by (simp add: valid_name_iff is_ascii_whitespace_def byte_def)
  show "invalid_route [CHR 0x0B] ''/orders''" by code_simp
qed

section \<open>Authored endpoints behind the ingress\<close>

text \<open>
  The client the ingress holds for an authored endpoint when the kernel delivers its calls: a
  domain error or a runtime failure of the provider comes back as such.
\<close>

definition authored_client :: "(string \<Rightarrow> json_object option) \<Rightarrow> 'ctx \<Rightarrow> 'ctx arms \<Rightarrow> EndpointClient" where
  "authored_client from_str ctx arms =
     \<lparr>ep_describe = map_err Domain (endpoint_describe from_str (map fst arms)),
      ep_handle = (\<lambda>cancelled request.
        try_in (map_err RuntimeError (endpoint_dispatch arms ctx request)) (map_err Domain))\<rparr>"

text \<open>What the \<open>http\<close> crate promises of methods: a token is one.\<close>

definition accepts_methods :: "'h http_lib \<Rightarrow> bool" where
  "accepts_methods L \<longleftrightarrow> (\<forall>m. m \<noteq> [] \<and> list_all token_char m \<longrightarrow> method_from_bytes L m)"

lemma list_http_accepts_methods: "accepts_methods list_http"
  by (simp add: accepts_methods_def list_http_def)

lemma method_byte_token:
  assumes "method_byte c"
  shows "token_char c"
proof -
  let ?marks = "[33, 35, 36, 37, 38, 39, 42, 43, 45, 46, 94, 95, 96, 124, 126] :: nat list"
  have "list_all token_char (map char_of ?marks)" by code_simp
  then have marks: "n \<in> set ?marks \<Longrightarrow> token_char (char_of n)" for n by (simp only: list_all_iff list.set_map ball_simps)
  have c: "char_of (byte c) = c" by (simp add: byte_def)
  have "is_ascii_uppercase c \<or> is_ascii_digit c \<or> byte c \<in> set ?marks" using assms by (simp add: method_byte_def)
  then show ?thesis
  proof (elim disjE)
    assume "byte c \<in> set ?marks"
    from marks [OF this] show ?thesis by (simp only: c)
  qed (simp_all add: token_char_def is_ascii_alphanumeric_def)
qed

lemma described_routes:
  assumes "endpoint_describe from_str routes = Inr d"
  shows "map (\<lambda>r. (dri_method r, dri_path r, dri_route_id r)) (dr_routes d) =
    map (\<lambda>r. (er_method r, er_path r, er_route_id r)) routes"
proof -
  have item: "into_description from_str r = Inr y \<Longrightarrow>
      (dri_method y, dri_path y, dri_route_id y) = (er_method r, er_path r, er_route_id r)" for r y
    by (auto simp: into_description_def try_in_Inr_iff)
  have "list_all2 (\<lambda>r y. into_description from_str r = Inr y) routes (dr_routes d)"
    using assms by (auto simp: endpoint_describe_def result_simps)
  then show ?thesis by (induction rule: list_all2_induct) (auto simp: item)
qed

lemma fold_res_Inl: "fold_res f s xs = Inl e \<Longrightarrow> \<exists>s' x. x \<in> set xs \<and> f s' x = Inl e"
  by (induction xs arbitrary: s) (auto simp: try_in_Inl_iff, metis)

definition collision :: "RuntimeFailure \<Rightarrow> bool" where
  "collision e \<longleftrightarrow> (\<exists>m p error. e = plugin_failure (''HTTP route collision for '' @ m @ '' '' @ p @ '': '' @ error))"

lemma validated_route_collides:
  assumes "accepts_methods L" and "valid_route r" and "list_all visible_ascii (er_route_id r)"
    and "resolve_route L R who kind i acc (er_method r, er_path r, er_route_id r) = Inl e"
  shows "collision e"
proof -
  have m: "list_all method_byte (er_method r)" "er_method r \<noteq> []"
    using assms(2) by (simp_all add: valid_route_def valid_name_iff)
  then have "method_from_bytes L (er_method r)"
    using assms(1) method_byte_token by (auto simp: accepts_methods_def list_all_iff)
  moreover have "\<not> invalid_route (er_route_id r) (er_path r)"
    using assms(2) visible_route_id_not_blank [OF assms(3)]
    by (simp add: valid_route_def valid_name_iff(3) invalid_route_def)
  ultimately show ?thesis
    using assms(4) unfolding collision_def
    by (auto simp: resolve_route_def normalize_valid_method [OF m(1)] Let_def try_in_Inl_iff map_err_def
        split: prod.splits sum.splits)
qed

definition startable :: "(string \<Rightarrow> json_object option) \<Rightarrow> 'ctx arms \<Rightarrow> bool" where
  "startable from_str arms \<longleftrightarrow>
     validate_endpoint_routes (map fst arms) = Inr () \<and>
     list_all (\<lambda>(r, _). list_all visible_ascii (er_route_id r)) arms \<and>
     is_ok (endpoint_describe from_str (map fst arms))"

lemma startable_provider_collides:
  assumes "accepts_methods L" and "startable from_str arms"
    and "resolve_buffered L R debug acc (i, authored_client from_str ctx arms) = Inl e"
  shows "collision e"
proof -
  obtain d where d: "endpoint_describe from_str (map fst arms) = Inr d"
    using assms(2) by (auto simp: startable_def is_ok_iff)
  then have "fold_res (resolve_route L R ''HTTP Endpoint provider'' ProvBuffered i) acc
      (map (\<lambda>r. (er_method r, er_path r, er_route_id r)) (map fst arms)) = Inl e"
    using assms(3) by (simp add: resolve_buffered_def authored_client_def described_routes [OF d] del: map_map)
  from fold_res_Inl [OF this] obtain s r h where "(r, h) \<in> set arms" and
    "resolve_route L R ''HTTP Endpoint provider'' ProvBuffered i s (er_method r, er_path r, er_route_id r) = Inl e"
    by auto
  moreover have "valid_route r \<and> list_all visible_ascii (er_route_id r)" if "(r, h) \<in> set arms"
  proof
    show "list_all visible_ascii (er_route_id r)" using assms(2) that by (auto simp: startable_def list_all_iff)
    have "validate_from (map fst arms) 0 = Inr ()"
      using assms(2) by (auto simp: startable_def validate_endpoint_routes_def split: if_splits)
    then show "valid_route r" using that by (auto simp: validate_from_iff in_set_conv_nth)
  qed
  ultimately show ?thesis using validated_route_collides [OF assms(1)] by blast
qed

lemma startable_endpoints_start:
  fixes eps :: "'ctx arms list"
  assumes "accepts_methods L" and "router_laws R routes_of"
    and "eps \<noteq> []" and "list_all (startable from_str) eps"
  shows "case resolve L R debug sdebug (map (authored_client from_str ctx) eps) [] [] policy timeout of
      Inl e \<Rightarrow> collision e
    | Inr table \<Rightarrow> rt_manifest table = manifest_new (concat (map (\<lambda>arms.
        map (\<lambda>(r, _). WebIngressRoute (er_method r) (er_path r) (er_route_id r)) arms) eps))"
proof -
  let ?clients = "map (authored_client from_str ctx) eps"
  let ?I = "resolving_inv routes_of (\<lambda>_. True)"
  have routes: "buffered_routes (authored_client from_str ctx arms) =
      map (\<lambda>(r, _). WebIngressRoute (er_method r) (er_path r) (er_route_id r)) arms \<and> arms \<noteq> []"
    if "startable from_str arms" for arms :: "'ctx arms"
  proof -
    from that obtain d where d: "endpoint_describe from_str (map fst arms) = Inr d"
      and v: "validate_from (map fst arms) 0 = Inr ()" "arms \<noteq> []"
      by (auto simp: startable_def is_ok_iff validate_endpoint_routes_def split: if_splits)
    have "list_all method_byte (er_method r)" if "(r, h) \<in> set arms" for r h
      using v(1) that by (auto simp: validate_from_iff in_set_conv_nth valid_route_def valid_name_iff)
    then have "map (\<lambda>r. declared_route (er_method r, er_path r, er_route_id r)) (map fst arms) =
        map (\<lambda>(r, _). WebIngressRoute (er_method r) (er_path r) (er_route_id r)) arms"
      by (auto simp: declared_route_def normalize_valid_method)
    moreover have "map (\<lambda>r. declared_route (dri_method r, dri_path r, dri_route_id r)) (dr_routes d) =
        map declared_route (map (\<lambda>r. (er_method r, er_path r, er_route_id r)) (map fst arms))"
      unfolding described_routes [OF d, symmetric] by simp
    ultimately show ?thesis using d v(2) by (simp add: buffered_routes_def authored_client_def comp_def)
  qed
  show ?thesis
  proof (cases "fold_res (resolve_buffered L R debug) ([], []) (List.enumerate 0 ?clients)")
    case (Inl e)
    from fold_res_Inl [OF this] obtain acc i arms where "arms \<in> set eps"
      "resolve_buffered L R debug acc (i, authored_client from_str ctx arms) = Inl e"
      by (auto simp: in_set_enumerate_eq) (metis nth_mem)
    then have "startable from_str arms" using assms(4) by (simp add: list_all_iff)
    then have "collision e" by (rule startable_provider_collides [OF assms(1)]) fact
    with Inl show ?thesis by (simp add: resolve_def)
  next
    case (Inr acc)
    have "?I acc \<and> fst acc = fst (([], []) :: 'b resolving) @ concat (map buffered_routes ?clients)"
      by (rule fold_providers_inv [where I = ?I, OF Inr])
        (simp add: resolving_inv_def all_routes_def, rule resolve_buffered_inv [OF assms(2)], assumption+, rule TrueI)
    moreover have "concat (map buffered_routes ?clients) = concat (map (\<lambda>arms.
        map (\<lambda>(r, _). WebIngressRoute (er_method r) (er_path r) (er_route_id r)) arms) eps)"
      using assms(4) routes by (induction eps) auto
    moreover have "concat (map (\<lambda>arms. map (\<lambda>(r, _). WebIngressRoute (er_method r) (er_path r) (er_route_id r)) arms) eps) \<noteq> []"
      using assms(3,4) routes by (cases eps) auto
    ultimately have "fst acc = concat (map (\<lambda>arms.
        map (\<lambda>(r, _). WebIngressRoute (er_method r) (er_path r) (er_route_id r)) arms) eps)" "snd acc \<noteq> []"
      by (auto simp: resolving_inv_def)
    with Inr show ?thesis by (simp add: resolve_def)
  qed
qed

text \<open>When every endpoint is an authored one whose route table passed compile-time validation
  and has printable identifiers, and whose operations can be described, starting the ingress can
  only fail because two routes collide in the path router: no route is refused as invalid and
  there is always a route to serve.\<close>

theorem validated_endpoints_start:
  fixes eps :: "'ctx arms list"
  assumes "accepts_methods L" and "router_laws R routes_of"
    and "eps \<noteq> []" and "list_all (startable from_str) eps"
  shows "case resolve L R debug sdebug (map (authored_client from_str ctx) eps) [] [] policy timeout of
      Inl e \<Rightarrow> collision e
    | Inr table \<Rightarrow> rt_manifest table = manifest_new (concat (map (\<lambda>arms.
        map (\<lambda>(r, _). WebIngressRoute (er_method r) (er_path r) (er_route_id r)) arms) eps))"
  by (rule startable_endpoints_start [OF assms])

abbreviation greeting_arms :: "unit arms" where
  "greeting_arms \<equiv> [(route_new ''hello'' ''GET'' ''/hello'', \<lambda>_ _. Inr (text_response 200 ''hi''))]"

lemma greeting_startable: "startable (\<lambda>_. None) greeting_arms"
  by code_simp

theorem validated_endpoints_start_witness:
  "case resolve list_http list_router (\<lambda>_. ''e'') (\<lambda>_. ''e'') (map (authored_client (\<lambda>_. None) ()) [greeting_arms]) [] [] None 1000 of
     Inl e \<Rightarrow> collision e
   | Inr table \<Rightarrow> rt_manifest table = manifest_new [WebIngressRoute ''GET'' ''/hello'' ''hello'']"
  using validated_endpoints_start [OF list_http_accepts_methods list_router_laws, of "[greeting_arms]" "\<lambda>_. None",
      where debug = "\<lambda>_. ''e''" and sdebug = "\<lambda>_. ''e''" and policy = None and timeout = 1000 and ctx = "()"]
    greeting_startable
  by (simp add: route_new_def split: sum.splits)

lemma find_arm:
  assumes "rid \<in> er_route_id ` fst ` set arms"
  obtains route handler where "find (\<lambda>(route, _). er_route_id route = rid) arms = Some (route, handler)"
    and "(route, handler) \<in> set arms" and "er_route_id route = rid"
proof -
  have "find (\<lambda>(route, _). er_route_id route = rid) arms \<noteq> None"
    using assms by (auto simp: find_None_iff)
  then obtain a where a: "find (\<lambda>(route, _). er_route_id route = rid) arms = Some a" by blast
  moreover obtain route handler where "a = (route, handler)" by (cases a)
  moreover have "a \<in> set arms \<and> (case a of (route, _) \<Rightarrow> er_route_id route = rid)"
    using a by (auto simp: find_Some_iff in_set_conv_nth)
  ultimately show thesis using that by auto
qed

lemma authored_routes_declared:
  "wir_route_id ` set (buffered_routes (authored_client from_str ctx arms)) \<subseteq> er_route_id ` fst ` set arms"
proof (cases "endpoint_describe from_str (map fst arms)")
  case (Inr d)
  have "wir_route_id ` set (buffered_routes (authored_client from_str ctx arms)) =
      (\<lambda>(_, _, rid). rid) ` set (map (\<lambda>r. (dri_method r, dri_path r, dri_route_id r)) (dr_routes d))"
    using Inr by (simp add: buffered_routes_def authored_client_def declared_route_def image_image)
  then show ?thesis unfolding described_routes [OF Inr] by force
qed (simp add: buffered_routes_def authored_client_def)

lemma arm_reached:
  fixes eps :: "'ctx arms list"
  assumes "router_laws R routes_of"
    and "resolve L R debug sdebug (map (authored_client from_str ctx) eps) ss ws policy timeout = Inr table"
    and "map_of (rt_methods table) (ir_method request) = Some r"
    and "router_at R r (ir_path request) = Some (target, params)"
    and "tgt_provider target = ProvBuffered i"
  shows "\<exists>route handler. i < length eps \<and> (route, handler) \<in> set (eps ! i) \<and> er_route_id route = tgt_route_id target \<and>
    (dispatch R table (Inr ()) cancelled request handshake :: 'p dispatched) =
      (case handler ctx (handle_request_of request (tgt_route_id target) params) of
         Inr response \<Rightarrow> \<lparr>dp_outcome = Finished (Inr (DispBuffered response)), dp_observed = [], dp_stream_cancelled = False\<rparr>
       | Inl (Domain _) \<Rightarrow> dispatch_err Rejected
       | Inl (RuntimeError failure) \<Rightarrow> runtime_dispatch_error (ir_request_id request) (tgt_route_id target) i failure)"
proof -
  let ?ps = "map (authored_client from_str ctx) eps"
  have "target_owned ?ps ss ws target" by (rule resolved_target_owned [OF assms(1-4)])
  then have i: "i < length eps" and own: "tgt_route_id target \<in> er_route_id ` fst ` set (eps ! i)"
    using assms(5) authored_routes_declared [of from_str ctx "eps ! i"] by (auto simp: target_owned_def)
  from own obtain route handler where
    f: "find (\<lambda>(route, _). er_route_id route = tgt_route_id target) (eps ! i) = Some (route, handler)"
    and mem: "(route, handler) \<in> set (eps ! i)" "er_route_id route = tgt_route_id target" by (rule find_arm)
  have prov: "rt_providers table = ?ps" using resolve_inv [OF assms(1,2)] by blast
  let ?req = "handle_request_of request (tgt_route_id target) params"
  have rid: "hr_route_id ?req = tgt_route_id target" by (simp add: handle_request_of_def)
  have call: "ep_handle (?ps ! i) cancelled ?req = handler ctx ?req"
    using i f by (auto simp: authored_client_def endpoint_dispatch_def rid split: sum.splits InvocationError.splits)
  have "(dispatch R table (Inr ()) cancelled request handshake :: 'p dispatched) =
      invoke_buffered table cancelled request (tgt_route_id target) params i"
    using assms(3-5) by (simp add: dispatch_def Let_def)
  with i mem call show ?thesis
    by (intro exI [of _ route] exI [of _ handler]) (simp add: invoke_buffered_def prov)
qed

text \<open>Routing and authored dispatch agree: a request the ingress matches to a route of an
  authored endpoint is always answered by a handler declared for that route, called with the
  request the ingress built, never by the fallback that rejects unknown routes; the handler's
  response, domain error or runtime failure is what the ingress turns into its answer.\<close>

theorem authored_handler_reached:
  fixes eps :: "'ctx arms list"
  assumes "router_laws R routes_of"
    and "resolve L R debug sdebug (map (authored_client from_str ctx) eps) ss ws policy timeout = Inr table"
    and "map_of (rt_methods table) (ir_method request) = Some r"
    and "router_at R r (ir_path request) = Some (target, params)"
    and "tgt_provider target = ProvBuffered i"
  shows "\<exists>route handler. i < length eps \<and> (route, handler) \<in> set (eps ! i) \<and> er_route_id route = tgt_route_id target \<and>
    (dispatch R table (Inr ()) cancelled request handshake :: 'p dispatched) =
      (case handler ctx (handle_request_of request (tgt_route_id target) params) of
         Inr response \<Rightarrow> \<lparr>dp_outcome = Finished (Inr (DispBuffered response)), dp_observed = [], dp_stream_cancelled = False\<rparr>
       | Inl (Domain _) \<Rightarrow> dispatch_err Rejected
       | Inl (RuntimeError failure) \<Rightarrow> runtime_dispatch_error (ir_request_id request) (tgt_route_id target) i failure)"
  by (rule arm_reached [OF assms])

definition greeting_table :: "(string \<times> RouteTarget) list RouteTable" where
  "greeting_table = hello_table\<lparr>rt_providers := [authored_client (\<lambda>_. None) () greeting_arms]\<rparr>"

lemma greeting_resolves:
  "resolve list_http list_router (\<lambda>_. ''e'') (\<lambda>_. ''e'') (map (authored_client (\<lambda>_. None) ()) [greeting_arms]) [] [] None 30000 =
   Inr greeting_table"
proof -
  have m: "to_ascii_uppercase (trim ''GET'') = ''GET''" by code_simp
  have v: "method_from_bytes list_http ''GET''" by code_simp
  have r: "\<not> invalid_route ''hello'' ''/hello''" by code_simp
  show ?thesis
    by (simp add: resolve_def resolve_buffered_def resolve_route_def m v r Let_def methods_insert_def authored_client_def
        endpoint_describe_def into_description_def route_new_def greeting_table_def
        list_router_def hello_table_def manifest_new_def enumerate_eq_zip)
qed

theorem authored_handler_reached_witness:
  "(dispatch list_router greeting_table (Inr ()) False
      (sample_normalized\<lparr>ir_method := ''GET'', ir_path := ''/hello''\<rparr>) None :: nat dispatched) =
   \<lparr>dp_outcome = Finished (Inr (DispBuffered (text_response 200 ''hi''))), dp_observed = [], dp_stream_cancelled = False\<rparr>"
proof -
  let ?q = "sample_normalized\<lparr>ir_method := ''GET'', ir_path := ''/hello''\<rparr>"
  let ?t = "\<lparr>tgt_route_id = ''hello'', tgt_provider = ProvBuffered 0\<rparr>"
  have m: "map_of (rt_methods greeting_table) (ir_method ?q) = Some [(''/hello'', ?t)]"
    by (simp add: greeting_table_def hello_table_def)
  have a: "router_at list_router [(''/hello'', ?t)] (ir_path ?q) = Some (?t, [])"
    by (simp add: list_router_def)
  show ?thesis
    using authored_handler_reached [OF list_router_laws greeting_resolves m a, of 0 False None] by auto
qed

text \<open>The harness calls the handler of the first arm with the requested identifier, or reports it unknown.\<close>

lemma test_send_reaches_handler:
  "test_send arms ctx t =
     (case find (\<lambda>(route, _). er_route_id route = tr_route_id t) arms of
        None \<Rightarrow> Inl (UnknownRoute (tr_route_id t))
      | Some (route, handler) \<Rightarrow> map_err test_error_from (handler ctx
          \<lparr>hr_body = tr_body t, hr_credential = None, hr_headers = tr_headers t, hr_method = er_method route,
           hr_path = expand_path (er_path route) (tr_path_parameters t), hr_path_parameters = tr_path_parameters t,
           hr_query = tr_query t, hr_request_id = ''endpoint-test-1'', hr_route_id = tr_route_id t\<rparr>))"
proof -
  have "find (\<lambda>route. er_route_id route = tr_route_id t) (map fst arms) =
      map_option fst (find (\<lambda>(route, _). er_route_id route = tr_route_id t) arms)"
    by (induction arms) auto
  then show ?thesis
    by (auto simp: test_send_def endpoint_dispatch_def test_error_from_def map_err_def
        split: option.splits sum.splits InvocationError.splits)
qed

end
