(* ===== verification/ContractBuilder.thy ===== *)
theory ContractBuilder
  imports OpenApiContract
begin

text \<open>
  The builder of strict contract fragments (\<open>contract.rs\<close> of the endpoint crate), which the OpenAPI
  plugin later compares with the authored operation. The schema of a handler's type is what
  \<open>schema_for\<close> of another crate derives: it is an argument. The theory shows that the two sides
  agree: a contract the builder produces is one the plugin's validation accepts.
\<close>

definition json_lit :: "(string \<times> json) list \<Rightarrow> json" where
  "json_lit es = JObject (foldl (\<lambda>m (k, v). bt_insert k v m) [] es)"

text \<open>A status is a \<open>u16\<close>; the codes of a problem are an ordered set of strings.\<close>

record ContractBuilder =
  cb_route_id :: string
  cb_method :: string
  cb_path :: string
  cb_parameters :: "(string \<times> string, json) btree"
  cb_request_body :: "json option"
  cb_success :: "(nat \<times> json) option"
  cb_problems :: "(nat, (string, unit) btree) btree"

definition contract_new :: "string \<Rightarrow> string \<Rightarrow> string \<Rightarrow> ContractBuilder" where
  "contract_new route_id route_method path =
     \<lparr>cb_route_id = route_id, cb_method = route_method, cb_path = path, cb_parameters = [],
      cb_request_body = None, cb_success = None, cb_problems = []\<rparr>"

fun contains_local_definition_reference :: "json \<Rightarrow> bool" where
  "contains_local_definition_reference (JObject m) \<longleftrightarrow>
     (case get_str m ''$ref'' of None \<Rightarrow> False | Some r \<Rightarrow> starts_with r ''#/$defs/'') \<or>
     (\<exists>e \<in> set m. contains_local_definition_reference (snd e))"
| "contains_local_definition_reference (JArray vs) \<longleftrightarrow> (\<exists>v \<in> set vs. contains_local_definition_reference v)"
| "contains_local_definition_reference _ \<longleftrightarrow> False"

definition with_definitions :: "json option \<Rightarrow> json \<Rightarrow> json" where
  "with_definitions definitions schema =
     (if contains_local_definition_reference schema
      then (case (definitions, as_object schema) of
          (Some ds, Some m) \<Rightarrow> JObject (bt_insert ''$defs'' ds m)
        | _ \<Rightarrow> schema)
      else schema)"

definition parameter_json :: "string \<Rightarrow> string \<Rightarrow> bool \<Rightarrow> json \<Rightarrow> json" where
  "parameter_json name location required schema =
     json_lit [(''name'', JString name), (''in'', JString location), (''required'', JBool required), (''schema'', schema)]"

definition required_names :: "json_object \<Rightarrow> string set" where
  "required_names root =
     (case Option.bind (bt_get root ''required'') as_array of
        None \<Rightarrow> {}
      | Some vs \<Rightarrow> set (List.map_filter as_str vs))"

definition add_parameter ::
  "string \<Rightarrow> bool \<Rightarrow> json_object \<Rightarrow> (string \<times> string, json) btree \<Rightarrow> string \<times> json \<Rightarrow>
   string + (string \<times> string, json) btree" where
  "add_parameter location required_for_all root parameters property =
     (case property of (name, property_schema) \<Rightarrow>
        let property_schema = with_definitions (bt_get root ''$defs'') property_schema;
            key = (location, name)
        in if bt_get parameters key \<noteq> None
           then Inl (''strict OpenAPI contract declares '' @ location @ '' parameter `'' @ name @ ''` more than once'')
           else Inr (bt_insert key
             (parameter_json name location (required_for_all \<or> name \<in> required_names root) property_schema) parameters))"

definition add_parameters :: "json \<Rightarrow> string \<Rightarrow> bool \<Rightarrow> ContractBuilder \<Rightarrow> string + ContractBuilder" where
  "add_parameters schema location required_for_all b =
     try_in (ok_or (as_object schema)
         (''strict OpenAPI '' @ location @ '' parameters must derive from an object schema'')) (\<lambda>root.
     try_in (ok_or (get_object root ''properties'')
         (''strict OpenAPI '' @ location @ '' parameters must derive named object properties'')) (\<lambda>properties.
       if properties = []
       then Inl (''strict OpenAPI '' @ location @ '' parameters must declare at least one property'')
       else try_in (fold_res (add_parameter location required_for_all root) (cb_parameters b) properties) (\<lambda>parameters.
         Inr (b\<lparr>cb_parameters := parameters\<rparr>))))"

definition set_json_body :: "json \<Rightarrow> bool \<Rightarrow> ContractBuilder \<Rightarrow> string + ContractBuilder" where
  "set_json_body schema required b =
     (if cb_request_body b \<noteq> None
      then Inl ''a strict OpenAPI contract can declare only one JSON request body''
      else Inr (b\<lparr>cb_request_body := Some (json_lit [(''required'', JBool required),
        (''content'', json_lit [(''application/json'', json_lit [(''schema'', schema)])])])\<rparr>))"

definition contract_path :: "json \<Rightarrow> ContractBuilder \<Rightarrow> string + ContractBuilder" where
  "contract_path schema b = add_parameters schema ''path'' True b"

definition contract_query :: "json \<Rightarrow> ContractBuilder \<Rightarrow> string + ContractBuilder" where
  "contract_query schema b = add_parameters schema ''query'' False b"

definition json_body :: "json \<Rightarrow> ContractBuilder \<Rightarrow> string + ContractBuilder" where
  "json_body schema b = set_json_body schema True b"

definition optional_json_body :: "json \<Rightarrow> ContractBuilder \<Rightarrow> string + ContractBuilder" where
  "optional_json_body schema b = set_json_body schema False b"

definition success_json :: "json \<Rightarrow> nat \<Rightarrow> ContractBuilder \<Rightarrow> string + ContractBuilder" where
  "success_json schema status b =
     (if \<not> (200 \<le> status \<and> status \<le> 299)
      then Inl (''strict OpenAPI success status '' @ decimal status @ '' must be between 200 and 299'')
      else if cb_success b \<noteq> None
      then Inl ''a strict OpenAPI contract can declare only one success response''
      else Inr (b\<lparr>cb_success := Some (status, schema)\<rparr>))"

definition known_problem :: "nat \<Rightarrow> string \<Rightarrow> ContractBuilder \<Rightarrow> string + ContractBuilder" where
  "known_problem status code b =
     (if \<not> (400 \<le> status \<and> status \<le> 599)
      then Inl (''strict OpenAPI problem status '' @ decimal status @ '' must be between 400 and 599'')
      else if trim code = [] then Inl ''a strict OpenAPI problem code must not be empty''
      else let codes = (case bt_get (cb_problems b) status of None \<Rightarrow> [] | Some cs \<Rightarrow> cs)
           in Inr (b\<lparr>cb_problems := bt_insert status (bt_insert code () codes) (cb_problems b)\<rparr>))"

definition contract_response :: "string \<Rightarrow> string \<Rightarrow> json \<Rightarrow> json" where
  "contract_response description media_type schema =
     json_lit [(''description'', JString description),
       (''content'', json_lit [(media_type, json_lit [(''schema'', schema)])])]"

definition problem_schema :: "nat \<Rightarrow> string list \<Rightarrow> json" where
  "problem_schema status codes =
     json_lit [(''type'', JString ''object''),
       (''required'', JArray [JString ''type'', JString ''title'', JString ''status'', JString ''detail'', JString ''code'']),
       (''properties'', json_lit [
          (''type'', json_lit [(''type'', JString ''string'')]),
          (''title'', json_lit [(''type'', JString ''string'')]),
          (''status'', json_lit [(''const'', JNumber (JInt (int status)))]),
          (''detail'', json_lit [(''type'', JString ''string'')]),
          (''code'', json_lit [(''type'', JString ''string''), (''enum'', JArray (map JString codes))])]),
       (''additionalProperties'', JBool False)]"

definition add_problem_response ::
  "nat \<Rightarrow> json_object \<Rightarrow> nat \<times> (string, unit) btree \<Rightarrow> string + json_object" where
  "add_problem_response success_status responses problem =
     (case problem of (status, codes) \<Rightarrow>
        if status = success_status
        then Inl (''known problem status '' @ decimal status @ '' conflicts with the success response'')
        else Inr (bt_insert (decimal status) (contract_response ''Known problem response.'' ''application/problem+json''
          (problem_schema status (map fst codes))) responses))"

definition contract_build :: "ContractBuilder \<Rightarrow> string + json" where
  "contract_build b =
     try_in (ok_or (cb_success b) ''a strict OpenAPI contract needs one JSON success response'')
       (\<lambda>(success_status, success_schema).
     let operation = [];
         operation = (if cb_parameters b \<noteq> [] then bt_insert ''parameters'' (JArray (map snd (cb_parameters b))) operation
                      else operation);
         operation = (case cb_request_body b of None \<Rightarrow> operation | Some r \<Rightarrow> bt_insert ''requestBody'' r operation);
         responses = bt_insert (decimal success_status)
           (contract_response ''Successful response.'' ''application/json'' success_schema) []
     in try_in (fold_res (add_problem_response success_status) responses (cb_problems b)) (\<lambda>responses.
       Inr (json_lit [(''route_id'', JString (cb_route_id b)), (''method'', JString (cb_method b)),
         (''path'', JString (cb_path b)),
         (''operation'', JObject (bt_insert ''responses'' (JObject responses) operation))])))"

section \<open>What the builder operations keep\<close>

definition body_json :: "bool \<Rightarrow> json \<Rightarrow> json" where
  "body_json required schema = json_lit [(''required'', JBool required),
     (''content'', json_lit [(''application/json'', json_lit [(''schema'', schema)])])]"

definition parameter_ok :: "(string \<times> string) \<times> json \<Rightarrow> bool" where
  "parameter_ok e \<longleftrightarrow> (\<exists>name location required schema.
     e = ((location, name), parameter_json name location required schema) \<and>
     (location = ''path'' \<and> required \<or> location = ''query''))"

definition builder_inv :: "ContractBuilder \<Rightarrow> bool" where
  "builder_inv b \<longleftrightarrow>
     bt_inv (cb_parameters b) \<and> (\<forall>e \<in> set (cb_parameters b). parameter_ok e) \<and>
     (\<forall>r. cb_request_body b = Some r \<longrightarrow> (\<exists>required schema. r = body_json required schema)) \<and>
     (\<forall>status schema. cb_success b = Some (status, schema) \<longrightarrow> 200 \<le> status \<and> status \<le> 299) \<and>
     bt_inv (cb_problems b) \<and> (\<forall>(status, codes) \<in> set (cb_problems b). 400 \<le> status \<and> status \<le> 599)"

text \<open>The builders a program can make.\<close>

inductive buildable :: "ContractBuilder \<Rightarrow> bool" where
  built_new: "buildable (contract_new route_id route_method path)"
| built_path: "buildable b \<Longrightarrow> contract_path schema b = Inr b' \<Longrightarrow> buildable b'"
| built_query: "buildable b \<Longrightarrow> contract_query schema b = Inr b' \<Longrightarrow> buildable b'"
| built_json_body: "buildable b \<Longrightarrow> json_body schema b = Inr b' \<Longrightarrow> buildable b'"
| built_optional_json_body: "buildable b \<Longrightarrow> optional_json_body schema b = Inr b' \<Longrightarrow> buildable b'"
| built_success_json: "buildable b \<Longrightarrow> success_json schema status b = Inr b' \<Longrightarrow> buildable b'"
| built_known_problem: "buildable b \<Longrightarrow> known_problem status code b = Inr b' \<Longrightarrow> buildable b'"

lemma add_parameters_inv:
  assumes "add_parameters schema location required b = Inr b'" and "builder_inv b"
    and "location = ''path'' \<and> required \<or> location = ''query''"
  shows "builder_inv b'"
proof -
  from assms(1) obtain root properties ps where
    f: "fold_res (add_parameter location required root) (cb_parameters b) properties = Inr ps"
    and b': "b' = b\<lparr>cb_parameters := ps\<rparr>"
    by (auto simp: add_parameters_def result_simps split: if_splits)
  have "bt_inv ps \<and> (\<forall>e \<in> set ps. parameter_ok e)"
  proof (rule fold_res_invariant [OF f])
    show "bt_inv (cb_parameters b) \<and> (\<forall>e \<in> set (cb_parameters b). parameter_ok e)"
      using assms(2) by (simp add: builder_inv_def)
    fix s x s' assume "bt_inv s \<and> (\<forall>e \<in> set s. parameter_ok e)" "add_parameter location required root s x = Inr s'"
    moreover from this(2) obtain name p where "s' = bt_insert (location, name)
        (parameter_json name location (required \<or> name \<in> required_names root) p) s"
      by (auto simp: add_parameter_def Let_def split: prod.splits if_splits)
    moreover have "parameter_ok ((location, name), parameter_json name location (required \<or> name \<in> required_names root) p)"
      for name p using assms(3) unfolding parameter_ok_def by blast
    ultimately show "bt_inv s' \<and> (\<forall>e \<in> set s'. parameter_ok e)"
      using bt_insert_mem by (metis bt_insert_inv)
  qed
  with assms(2) b' show ?thesis by (simp add: builder_inv_def)
qed

lemma set_json_body_inv: "set_json_body schema required b = Inr b' \<Longrightarrow> builder_inv b \<Longrightarrow> builder_inv b'"
  by (auto simp: set_json_body_def builder_inv_def body_json_def [symmetric] split: if_splits) blast

lemma known_problem_inv: "known_problem status code b = Inr b' \<Longrightarrow> builder_inv b \<Longrightarrow> builder_inv b'"
  by (auto simp: known_problem_def Let_def builder_inv_def split: if_splits intro: bt_insert_inv dest!: bt_insert_mem)

lemma built_inv: "buildable b \<Longrightarrow> builder_inv b"
proof (induction rule: buildable.induct)
  case (built_new route_id route_method path)
  then show ?case by (simp add: contract_new_def builder_inv_def)
next
  case (built_path b schema b')
  then show ?case using add_parameters_inv by (simp add: contract_path_def)
next
  case (built_query b schema b')
  then show ?case using add_parameters_inv by (simp add: contract_query_def)
next
  case (built_success_json b schema status b')
  then show ?case by (auto simp: success_json_def builder_inv_def split: if_splits)
qed (auto simp: json_body_def optional_json_body_def intro: set_json_body_inv known_problem_inv)

section \<open>The plugin reads what the builder wrote\<close>

lemma parameter_json_obj:
  "parameter_json name location required schema =
     JObject [(''in'', JString location), (''name'', JString name), (''required'', JBool required), (''schema'', schema)]"
  by (simp add: parameter_json_def json_lit_def less_list_code)

lemma body_json_obj:
  "body_json required schema =
     JObject [(''content'', JObject [(''application/json'', JObject [(''schema'', schema)])]), (''required'', JBool required)]"
  by (simp add: body_json_def json_lit_def less_list_code)

lemma contract_response_obj:
  "contract_response description media_type schema =
     JObject [(''content'', JObject [(media_type, JObject [(''schema'', schema)])]), (''description'', JString description)]"
  by (simp add: contract_response_def json_lit_def less_list_code)

lemmas built_obj = parameter_json_obj body_json_obj contract_response_obj

lemma insert_built_parameter:
  assumes "location = ''path'' \<and> required \<or> location = ''query''" and "bt_get ps (location, name) = None"
  shows "insert_parameter T config rid origin ps (parameter_json name location required schema) =
    try_in (canonical_schema T config schema rid) (\<lambda>s.
      Inr (bt_insert (location, name) \<lparr>par_required = required, par_schema = s\<rparr> ps))"
  using assms
  by (auto simp: insert_parameter_def resolve_component_def json_get_def built_obj get_str_def get_bool_def
      validate_parameter_serialization_def Let_def)

definition schema_at :: "json \<Rightarrow> json" where
  "schema_at p = (case json_get p ''schema'' of None \<Rightarrow> JNull | Some s \<Rightarrow> s)"

lemma schema_at_parameter [simp]: "schema_at (parameter_json name location required schema) = schema"
  by (simp add: schema_at_def built_obj json_get_def)

lemma media_schema_built:
  "media_schema T config rid [(''content'', JObject [(mt, JObject [(''schema'', schema)])]), rest] mt origin =
     canonical_schema T config schema rid"
  by (simp add: media_schema_def get_object_def)

lemma request_body_built:
  "resolve_component config (body_json required schema) section' rid = Inr (body_json required schema)"
  "request_body T config rid (body_json required schema) origin =
     try_in (canonical_schema T config schema rid) (\<lambda>s. Inr \<lparr>rb_required = required, rb_schema = s\<rparr>)"
  by (simp_all add: resolve_component_def json_get_def built_obj request_body_def media_schema_built get_bool_def)

lemma canonical_strings:
  "canonical_elements (canonical_schema_with_root (Suc n) T config rid root) (xs, refs) (map JString codes) =
     Inr (xs @ map JString codes, refs)"
  by (induction codes arbitrary: xs) (auto simp: canonical_elements_def)

lemma problem_schema_canonical: "is_ok (canonical_schema T config (problem_schema status codes) rid)"
proof -
  let ?s = "problem_schema status codes"
  have names: "JArray [JString ''type'', JString ''title'', JString ''status'', JString ''detail'', JString ''code''] =
      JArray (map JString [''type'', ''title'', ''status'', ''detail'', ''code''])" by simp
  have "is_ok (canonical_schema_with_root (Suc (Suc (Suc (Suc (Suc 0))))) T config rid ?s ?s {})"
    unfolding problem_schema_def names
    by (simp add: json_lit_def less_list_code canonical_entries_def get_str_def ignored_schema_keyword_def canonical_strings
        del: list.map)
  then obtain v where "canonical_schema_with_root (Suc (Suc (Suc (Suc (Suc 0))))) T config rid ?s ?s {} = Inr v"
    by (auto simp: is_ok_iff)
  then show ?thesis using canonical_schema_by_fuel [of "Suc (Suc (Suc (Suc (Suc 0))))" T config rid ?s]
    by (cases v) simp
qed

lemma fold_res_mono:
  assumes "fold_res f s xs = Inr t" and "\<And>s x s'. f s x = Inr s' \<Longrightarrow> g s x = Inr s'"
  shows "fold_res g s xs = Inr t"
  using assms(1) by (induction xs arbitrary: s) (auto simp: try_in_Inr_iff dest: assms(2))

lemma insert_parameter_origin:
  "insert_parameter T config rid origin ps v = Inr ps' \<Longrightarrow> insert_parameter T config rid origin' ps v = Inr ps'"
  by (auto simp: insert_parameter_def try_in_Inr_iff ok_or_Inr_iff split: if_splits)

lemma media_schema_origin:
  "media_schema T config rid m mt origin = Inr s \<Longrightarrow> media_schema T config rid m mt origin' = Inr s"
  by (auto simp: media_schema_def try_in_Inr_iff ok_or_Inr_iff split: if_splits)

lemma insert_response_origin:
  "insert_response T config rid origin rs e = Inr rs' \<Longrightarrow> insert_response T config rid origin' rs e = Inr rs'"
  by (auto simp: insert_response_def try_in_Inr_iff ok_or_Inr_iff Let_def split: prod.splits if_splits
      dest: media_schema_origin [where origin' = origin'])

lemma map_origin:
  "parameter_map T config rid v origin = Inr ps \<Longrightarrow> parameter_map T config rid v origin' = Inr ps"
  "response_map T config rid v origin = Inr rs \<Longrightarrow> response_map T config rid v origin' = Inr rs"
  using fold_res_mono [of "insert_parameter T config rid origin" _ _ _ "insert_parameter T config rid origin'",
      OF _ insert_parameter_origin]
    fold_res_mono [of "insert_response T config rid origin" _ _ _ "insert_response T config rid origin'",
      OF _ insert_response_origin]
  by (auto simp: parameter_map_def response_map_def try_in_Inr_iff ok_or_Inr_iff split: option.splits)

lemma fold_built_parameters:
  assumes "distinct (map fst es)" and "\<forall>e \<in> set es. parameter_ok e"
    and "\<forall>e \<in> set es. bt_get ps (fst e) = None" and "bt_inv ps"
  shows "is_ok (fold_res (insert_parameter T config rid origin) ps (map snd es)) \<longleftrightarrow>
    (\<forall>e \<in> set es. is_ok (canonical_schema T config (schema_at (snd e)) rid))"
  using assms
proof (induction es arbitrary: ps)
  case (Cons e es)
  from Cons.prems(2) obtain name location required schema where
    e: "e = ((location, name), parameter_json name location required schema)"
    and loc: "location = ''path'' \<and> required \<or> location = ''query''" by (auto simp: parameter_ok_def)
  have new: "bt_get ps (location, name) = None" using Cons.prems(3) e by simp
  show ?case
  proof (cases "canonical_schema T config schema rid")
    case (Inl err)
    then show ?thesis by (simp add: e insert_built_parameter [OF loc new])
  next
    case (Inr c)
    let ?ps = "bt_insert (location, name) \<lparr>par_required = required, par_schema = c\<rparr> ps"
    have "\<forall>e \<in> set es. bt_get ?ps (fst e) = None"
      using Cons.prems(1,3) e by (force simp: bt_get_insert [OF Cons.prems(4)])
    from Cons.IH [OF _ _ this bt_insert_inv [OF Cons.prems(4)]] Cons.prems(1,2) Inr show ?thesis
      by (simp add: e insert_built_parameter [OF loc new])
  qed
qed simp

lemma decimal_three_digits:
  assumes "100 \<le> n" and "n < 1000"
  shows "decimal n = [char_of (48 + n div 100), char_of (48 + n div 10 mod 10), char_of (48 + n mod 10)]"
proof -
  have "decimal (n div 100) = [char_of (48 + n div 100)]" using assms by (subst decimal.simps) auto
  moreover have "n div 10 div 10 = n div 100" by simp
  ultimately have "decimal (n div 10) = [char_of (48 + n div 100), char_of (48 + n div 10 mod 10)]"
    using assms by (subst decimal.simps) auto
  then show ?thesis using assms by (subst decimal.simps) auto
qed

lemma status_key:
  assumes "100 \<le> n" and "n \<le> 599"
  shows "is_status_code (decimal n)" and "starts_with (decimal n) ''2'' \<longleftrightarrow> n div 100 = 2"
proof -
  have n: "n < 1000" and "n \<le> usize_max" using assms by (simp_all add: usize_max_def)
  then show "is_status_code (decimal n)"
    using assms decimal_three_digits [OF assms(1) n] parse_usize_decimal [of n] by (simp add: is_status_code_def)
  have "n div 100 < 6" using assms by simp
  then have "byte (char_of (48 + n div 100)) = 48 + n div 100" by simp
  moreover have "byte CHR ''2'' = 50" by (simp add: byte_def)
  ultimately have "char_of (48 + n div 100) = CHR ''2'' \<longleftrightarrow> 48 + n div 100 = 50"
    by (metis byte_inject)
  then show "starts_with (decimal n) ''2'' \<longleftrightarrow> n div 100 = 2"
    by (simp add: decimal_three_digits [OF assms(1) n] starts_with_def)
qed

definition response_ok :: "json \<Rightarrow> string \<times> json \<Rightarrow> bool" where
  "response_ok success e \<longleftrightarrow>
     (\<exists>n d. 200 \<le> n \<and> n \<le> 299 \<and> e = (decimal n, contract_response d ''application/json'' success)) \<or>
     (\<exists>n d codes. 400 \<le> n \<and> n \<le> 599 \<and>
        e = (decimal n, contract_response d ''application/problem+json'' (problem_schema n codes)))"

lemma is_ok_try_in: "is_ok (try_in r (\<lambda>s. Inr (g s))) \<longleftrightarrow> is_ok r"
  by (cases r) simp_all

lemma insert_built_response:
  assumes "response_ok success e"
  shows "is_ok (canonical_schema T config success rid) \<Longrightarrow> is_ok (insert_response T config rid origin rs e)"
    and "fst e = decimal n \<Longrightarrow> 200 \<le> n \<Longrightarrow> n \<le> 299 \<Longrightarrow>
      \<not> is_ok (canonical_schema T config success rid) \<Longrightarrow> \<not> is_ok (insert_response T config rid origin rs e)"
proof -
  have two: "n div 100 = 2" if "200 \<le> n" "n \<le> 299" for n :: nat using that by simp
  have other: "n div 100 \<noteq> 2" if "400 \<le> n" "n \<le> 599" for n :: nat using that by auto
  have ok: "insert_response T config rid origin rs (decimal n, contract_response d mt schema) =
      try_in (canonical_schema T config schema rid) (\<lambda>s. Inr (bt_insert (decimal n) \<lparr>rsp_media_type = mt, rsp_schema = s\<rparr> rs))"
    if "100 \<le> n" "n \<le> 599" "mt = (if n div 100 = 2 then ''application/json'' else ''application/problem+json'')" for n d mt schema
    using that status_key [OF that(1,2)]
    by (simp add: insert_response_def resolve_component_def json_get_def contract_response_obj media_schema_built Let_def)
  show "is_ok (insert_response T config rid origin rs e)" if "is_ok (canonical_schema T config success rid)"
    using assms that problem_schema_canonical [of T config _ _ rid] two other
    by (auto simp: response_ok_def ok is_ok_try_in)
  show "\<not> is_ok (insert_response T config rid origin rs e)" if key: "fst e = decimal n" "200 \<le> n" "n \<le> 299"
    and bad: "\<not> is_ok (canonical_schema T config success rid)"
  proof -
    have "m = k" if "decimal m = decimal k" for m k by (metis from_decimal_decimal that)
    then obtain d where "e = (decimal n, contract_response d ''application/json'' success)"
      using assms key by (fastforce simp: response_ok_def)
    with bad key two show ?thesis
      by (simp add: ok is_ok_try_in)
  qed
qed

lemma fold_res_all_ok:
  "(\<And>s x. x \<in> set xs \<Longrightarrow> is_ok (f s x)) \<Longrightarrow> is_ok (fold_res f s xs)"
proof (induction xs arbitrary: s)
  case (Cons x xs)
  have "is_ok (f s x)" using Cons.prems by simp
  then obtain s' where "f s x = Inr s'" unfolding is_ok_iff by blast
  with Cons show ?case by simp
qed simp

lemma fold_res_one_bad:
  "x \<in> set xs \<Longrightarrow> (\<And>s. \<not> is_ok (f s x)) \<Longrightarrow> \<not> is_ok (fold_res f s xs)"
proof (induction xs arbitrary: s)
  case (Cons y ys)
  then show ?case by (cases "f s y") (auto, metis is_ok_simps(1))
qed simp

lemma built_responses:
  assumes "builder_inv b" and "cb_success b = Some (n, schema)"
    and "fold_res (add_problem_response n)
      (bt_insert (decimal n) (contract_response d ''application/json'' schema) []) (cb_problems b) = Inr responses"
  shows "is_ok (response_map T config rid (Some (JObject responses)) origin) \<longleftrightarrow> is_ok (canonical_schema T config schema rid)"
proof -
  have n: "200 \<le> n" "n \<le> 299" using assms(1,2) by (auto simp: builder_inv_def)
  let ?P = "\<lambda>rs. (\<forall>e \<in> set rs. response_ok schema e) \<and> decimal n \<in> fst ` set rs"
  have "?P responses"
  proof (rule fold_res_invariant [OF assms(3)])
    show "?P (bt_insert (decimal n) (contract_response d ''application/json'' schema) [])"
      using n by (auto simp: response_ok_def)
    fix rs x rs' assume x: "x \<in> set (cb_problems b)" and P: "?P rs" and step: "add_problem_response n rs x = Inr rs'"
    obtain k codes where k: "x = (k, codes)" by (cases x)
    let ?r = "contract_response ''Known problem response.'' ''application/problem+json'' (problem_schema k (map fst codes))"
    have rs': "rs' = bt_insert (decimal k) ?r rs"
      using step by (auto simp: add_problem_response_def k split: if_splits)
    have "400 \<le> k \<and> k \<le> 599" using x k assms(1) by (auto simp: builder_inv_def)
    then have new: "response_ok schema (decimal k, ?r)" unfolding response_ok_def by blast
    have "response_ok schema e" if "e \<in> set rs'" for e
      using bt_insert_mem [of e "decimal k" ?r rs] that new P unfolding rs' by blast
    moreover have "fst ` set rs' = insert (decimal k) (fst ` set rs)"
      using bt_insert_keys [of "decimal k" ?r rs] unfolding rs' list.set_map .
    ultimately show "?P rs'" using P by blast
  qed
  then obtain e where e: "e \<in> set responses" "fst e = decimal n" and all: "\<forall>e \<in> set responses. response_ok schema e" by auto
  show ?thesis
  proof (cases "is_ok (canonical_schema T config schema rid)")
    case True
    have "is_ok (fold_res (insert_response T config rid origin) [] responses)"
      by (rule fold_res_all_ok) (use all True in \<open>auto intro: insert_built_response(1)\<close>)
    with True show ?thesis by (simp add: response_map_def)
  next
    case False
    have "\<not> is_ok (fold_res (insert_response T config rid origin) [] responses)"
      by (rule fold_res_one_bad [OF e(1)]) (rule insert_built_response(2) [OF bspec [OF all e(1)] e(2) n False])
    with False show ?thesis by (simp add: response_map_def)
  qed
qed

section \<open>Round trip\<close>

definition body_schema :: "json \<Rightarrow> json" where
  "body_schema r =
     (case Option.bind (json_get r ''content'') (\<lambda>c. json_get c ''application/json'') of
        None \<Rightarrow> JNull
      | Some media \<Rightarrow> schema_at media)"

lemma body_schema_built [simp]: "body_schema (body_json required schema) = schema"
  by (simp add: body_schema_def schema_at_def built_obj json_get_def)

text \<open>The schemas of a handler's types that end up in its contract.\<close>

definition builder_schemas :: "ContractBuilder \<Rightarrow> json list" where
  "builder_schemas b =
     map (\<lambda>e. schema_at (snd e)) (cb_parameters b) @
     (case cb_request_body b of None \<Rightarrow> [] | Some r \<Rightarrow> [body_schema r]) @
     (case cb_success b of None \<Rightarrow> [] | Some (_, schema) \<Rightarrow> [schema])"

definition built_operation :: "ContractBuilder \<Rightarrow> json_object \<Rightarrow> json_object" where
  "built_operation b responses =
     (let operation = (if cb_parameters b \<noteq> [] then bt_insert ''parameters'' (JArray (map snd (cb_parameters b))) [] else []);
          operation = (case cb_request_body b of None \<Rightarrow> operation | Some r \<Rightarrow> bt_insert ''requestBody'' r operation)
      in bt_insert ''responses'' (JObject responses) operation)"

lemma built_operation_get:
  "bt_get (built_operation b responses) ''parameters'' =
     (if cb_parameters b \<noteq> [] then Some (JArray (map snd (cb_parameters b))) else None)"
  "bt_get (built_operation b responses) ''requestBody'' = cb_request_body b"
  "bt_get (built_operation b responses) ''responses'' = Some (JObject responses)"
  by (auto simp: built_operation_def Let_def less_list_code split: option.splits)

lemma contract_build_cases:
  assumes "contract_build b = Inr c"
  obtains n schema responses where "cb_success b = Some (n, schema)"
    and "fold_res (add_problem_response n)
      (bt_insert (decimal n) (contract_response ''Successful response.'' ''application/json'' schema) [])
      (cb_problems b) = Inr responses"
    and "c = JObject [(''method'', JString (cb_method b)), (''operation'', JObject (built_operation b responses)),
      (''path'', JString (cb_path b)), (''route_id'', JString (cb_route_id b))]"
  using assms
  by (auto simp: contract_build_def Let_def try_in_Inr_iff ok_or_Inr_iff built_operation_def json_lit_def less_list_code
      split: prod.splits)

lemma is_ok_both_origins:
  assumes "\<And>x. f o1 = Inr x \<Longrightarrow> f o2 = Inr x"
  shows "(\<exists>x. f o1 = Inr x \<and> f o2 = Inr x) \<longleftrightarrow> is_ok (f o1)"
  unfolding is_ok_iff using assms by blast

lemma builder_accepted:
  assumes "buildable b" and "contract_build b = Inr c" and "json_get c ''operation'' = Some (JObject operation)"
  shows "contract_validate T config (cb_route_id b) (cb_method b) (cb_path b) operation c = Inr () \<longleftrightarrow>
    (\<forall>schema \<in> set (builder_schemas b). is_ok (canonical_schema T config schema (cb_route_id b)))"
proof -
  let ?rid = "cb_route_id b"
  have inv: "builder_inv b" using assms(1) by (rule built_inv)
  from assms(2) obtain n schema responses where succ: "cb_success b = Some (n, schema)"
    and fold: "fold_res (add_problem_response n)
      (bt_insert (decimal n) (contract_response ''Successful response.'' ''application/json'' schema) [])
      (cb_problems b) = Inr responses"
    and c: "c = JObject [(''method'', JString (cb_method b)), (''operation'', JObject (built_operation b responses)),
      (''path'', JString (cb_path b)), (''route_id'', JString (cb_route_id b))]" by (rule contract_build_cases)
  let ?op = "built_operation b responses"
  have op: "operation = ?op" using assms(3) by (simp add: c json_get_def)
  have "validate_parameters T config ?rid ?op ?op = Inr () \<longleftrightarrow>
      is_ok (parameter_map T config ?rid (bt_get ?op ''parameters'') ''generated'')"
    unfolding validate_parameters_iff by (rule is_ok_both_origins) (rule map_origin(1))
  also have "\<dots> \<longleftrightarrow> (\<forall>e \<in> set (cb_parameters b). is_ok (canonical_schema T config (schema_at (snd e)) ?rid))"
    using inv fold_built_parameters [of "cb_parameters b" "[]" T config ?rid "''generated''"] bt_inv_distinct
    by (auto simp: parameter_map_def built_operation_get(1) builder_inv_def)
  finally have ps: "validate_parameters T config ?rid ?op ?op = Inr () \<longleftrightarrow>
      (\<forall>e \<in> set (cb_parameters b). is_ok (canonical_schema T config (schema_at (snd e)) ?rid))" .
  have rs: "validate_responses T config ?rid ?op ?op = Inr () \<longleftrightarrow> is_ok (canonical_schema T config schema ?rid)"
    unfolding validate_responses_iff built_operation_get(3) built_responses [OF inv succ fold, symmetric, of T config ?rid "''generated''"]
    by (rule is_ok_both_origins) (rule map_origin(2))
  have body: "validate_request_body T config ?rid ?op ?op = Inr () \<longleftrightarrow>
      (\<forall>r. cb_request_body b = Some r \<longrightarrow> is_ok (canonical_schema T config (body_schema r) ?rid))"
  proof (cases "cb_request_body b")
    case None
    then show ?thesis by (simp add: validate_request_body_def built_operation_get)
  next
    case (Some r)
    then obtain required s where "r = body_json required s" using inv by (auto simp: builder_inv_def)
    with Some show ?thesis
      by (cases "canonical_schema T config s ?rid")
        (simp_all add: validate_request_body_def built_operation_get request_body_built)
  qed
  have "contract_validate T config ?rid (cb_method b) (cb_path b) operation c = Inr () \<longleftrightarrow>
      validate_parameters T config ?rid ?op ?op = Inr () \<and> validate_request_body T config ?rid ?op ?op = Inr () \<and>
      validate_responses T config ?rid ?op ?op = Inr ()"
    by (simp add: contract_validate_def op c require_string_def get_str_def get_object_def try_in_Inr_iff)
  also have "\<dots> \<longleftrightarrow> (\<forall>schema \<in> set (builder_schemas b). is_ok (canonical_schema T config schema ?rid))"
    unfolding ps rs body by (auto simp: builder_schemas_def succ split: option.splits)
  finally show ?thesis .
qed

text \<open>The builder of strict contracts and the plugin that checks them agree: a contract built
  with any sequence of builder operations is accepted against the operation it was generated
  with, exactly when the schemas of the handler's types can be normalized; the problem responses
  the builder writes itself never stand in the way.\<close>

theorem built_contract_accepted:
  assumes "buildable b" and "contract_build b = Inr c" and "json_get c ''operation'' = Some (JObject operation)"
  shows "contract_validate T config (cb_route_id b) (cb_method b) (cb_path b) operation c = Inr () \<longleftrightarrow>
    (\<forall>schema \<in> set (builder_schemas b). is_ok (canonical_schema T config schema (cb_route_id b)))"
  by (rule builder_accepted [OF assms])

definition sample_builder :: ContractBuilder where
  "sample_builder = (contract_new ''orders.read'' ''GET'' ''/orders'')
     \<lparr>cb_success := Some (200, JObject [(''type'', JString ''object'')])\<rparr>"

theorem built_contract_accepted_witness:
  "case contract_build sample_builder of
     Inl _ \<Rightarrow> False
   | Inr c \<Rightarrow> (case json_get c ''operation'' of
       Some (JObject operation) \<Rightarrow>
         contract_validate as_text default_openapi_config ''orders.read'' ''GET'' ''/orders'' operation c = Inr ()
     | _ \<Rightarrow> False)"
proof -
  let ?schema = "JObject [(''type'', JString ''object'')]"
  have b: "buildable sample_builder"
    by (rule built_success_json [OF built_new, of ?schema 200 "''orders.read''" "''GET''" "''/orders''"])
      (simp add: success_json_def contract_new_def sample_builder_def)
  obtain responses where c: "contract_build sample_builder =
      Inr (JObject [(''method'', JString ''GET''), (''operation'', JObject (built_operation sample_builder responses)),
        (''path'', JString ''/orders''), (''route_id'', JString ''orders.read'')])"
    by (auto simp: contract_build_def Let_def built_operation_def json_lit_def less_list_code sample_builder_def contract_new_def)
  have "canonical_schema_with_root (Suc (Suc 0)) as_text default_openapi_config ''orders.read'' ?schema ?schema {} = Inr (?schema, {})"
    by (simp add: canonical_entries_def get_str_def ignored_schema_keyword_def)
  then have "canonical_schema as_text default_openapi_config ?schema ''orders.read'' = Inr ?schema"
    using canonical_schema_by_fuel [of "Suc (Suc 0)" as_text default_openapi_config "''orders.read''" ?schema] by simp
  with built_contract_accepted [OF b c, where operation = "built_operation sample_builder responses"
      and T = as_text and config = default_openapi_config] c
  show ?thesis
    by (simp add: json_get_def sample_builder_def contract_new_def builder_schemas_def)
qed

end
