(* ===== verification/EndpointMacro.thy ===== *)
theory EndpointMacro
  imports MacroSyntax EndpointAuthoring ContractBuilder
begin

text \<open>
  The attribute macro \<open>endpoint\<close> of \<open>lenso-capability-http-endpoint-macros\<close>: from an implementation
  block to a route table, contract factories and a dispatcher. The syntax tree is that of \<open>syn\<close> as
  far as the macro looks at it. The generated code is given by its meaning: a contract factory is
  the result of calling it, a dispatch arm a function of context and request over the methods of
  the provider, which are parameters. Reading the attributes takes fuel (theory \<open>MacroSyntax\<close>).
\<close>

section \<open>Syntax trees\<close>

datatype ty = TyPath "path_segment list" | TyTuple "ty list" | TyOther string
  and path_segment = PathSegment string path_arguments
  and path_arguments = NoArguments | AngleBracketed "generic_argument list" | ParenthesizedArguments
  and generic_argument = ArgType ty | ArgOther string

fun segment_ident :: "path_segment \<Rightarrow> string" where
  "segment_ident (PathSegment i _) = i"

fun segment_arguments :: "path_segment \<Rightarrow> path_arguments" where
  "segment_arguments (PathSegment _ a) = a"

text \<open>
  An attribute: its path when that is one identifier, whether it is a path only, and the stream of
  its arguments, or the error of \<open>syn\<close> when it has none in parentheses.
\<close>

record 's attribute =
  at_ident :: "string option"
  at_is_path :: bool
  at_args :: "string + 's"

datatype FnArg = Receiver | Typed ty

record 's ImplItemFn =
  mf_attrs :: "'s attribute list"
  mf_ident :: string
  mf_inputs :: "FnArg list"
  mf_output :: "ty option"

datatype 's ImplItem = ImplFn "'s ImplItemFn" | ImplOther string

record 's ItemImpl =
  ii_attrs :: "'s attribute list"
  ii_trait :: bool
  ii_generic :: bool
  ii_self_ty :: ty
  ii_items :: "'s ImplItem list"

section \<open>Types\<close>

text \<open>The last of a list, when there is one.\<close>

definition last_of :: "'a list \<Rightarrow> 'a option" where
  "last_of xs = (if xs = [] then None else Some (last xs))"

definition final_type_ident :: "ty \<Rightarrow> string option" where
  "final_type_ident t = (case t of TyPath segments \<Rightarrow> map_option segment_ident (last_of segments) | _ \<Rightarrow> None)"

fun type_arguments :: "generic_argument list \<Rightarrow> ty list" where
  "type_arguments [] = []"
| "type_arguments (ArgType t # as) = t # type_arguments as"
| "type_arguments (ArgOther _ # as) = type_arguments as"

definition extractor_type_argument :: "ty \<Rightarrow> string \<Rightarrow> string + ty" where
  "extractor_type_argument t expected =
     (let missing = ''strict OpenAPI '' @ expected @ ''<T> needs one type parameter'' in
      case t of
        TyPath segments \<Rightarrow>
          (case last_of segments of
             None \<Rightarrow> Inl missing
           | Some segment \<Rightarrow>
               if segment_ident segment \<noteq> expected then Inl (''expected strict OpenAPI '' @ expected @ ''<T>'')
               else (case segment_arguments segment of
                   AngleBracketed arguments \<Rightarrow>
                     (case type_arguments arguments of
                        [inner] \<Rightarrow> Inr inner
                      | _ \<Rightarrow> Inl missing)
                 | _ \<Rightarrow> Inl missing))
      | _ \<Rightarrow> Inl missing)"

section \<open>Handler metadata\<close>

record MacroRoute =
  mr_method :: string
  mr_id :: string
  mr_path :: string
  mr_openapi :: "string option"

record HandlerMetadata =
  hm_route :: "MacroRoute option"
  hm_middlewares :: "string list"
  hm_openapi :: "string option"
  hm_contract :: "OpenApiContractMetadata option"

definition http_method :: "'s attribute \<Rightarrow> string option" where
  "http_method a = Option.bind (at_ident a) (map_of
     [(''get'', ''GET''), (''post'', ''POST''), (''put'', ''PUT''), (''patch'', ''PATCH''), (''delete'', ''DELETE''),
      (''head'', ''HEAD''), (''options'', ''OPTIONS''), (''query'', ''QUERY'')])"

text \<open>A loop over attributes whose body reads arguments.\<close>

fun fold_fuel :: "('b \<Rightarrow> 'a \<Rightarrow> (string + 'b) option) \<Rightarrow> 'b \<Rightarrow> 'a list \<Rightarrow> (string + 'b) option" where
  "fold_fuel f b [] = Some (Inr b)"
| "fold_fuel f b (x # xs) = try_fuel (f b x) (\<lambda>b. fold_fuel f b xs)"

definition middleware_arguments :: "'s syn_lib \<Rightarrow> nat \<Rightarrow> 's attribute \<Rightarrow> (string + string list) option" where
  "middleware_arguments Y n a =
     try_fuel (Some (at_args a)) (\<lambda>s.
     try_fuel (parse_terminated Y (\<lambda>s. Some (syn_ident Y s)) n s) (\<lambda>arguments.
       Some (if arguments = [] then Inl ''middleware requires at least one provider method'' else Inr arguments)))"

definition take_middleware ::
  "'s syn_lib \<Rightarrow> nat \<Rightarrow> string list \<times> 's attribute list \<Rightarrow> 's attribute \<Rightarrow>
   (string + string list \<times> 's attribute list) option" where
  "take_middleware Y n st a =
     (case st of (middlewares, retained) \<Rightarrow>
      if at_ident a = Some ''middleware'' then
        try_fuel (middleware_arguments Y n a) (\<lambda>arguments. Some (Inr (middlewares @ arguments, retained)))
      else Some (Inr (middlewares, retained @ [a])))"

definition take_provider_middlewares ::
  "'s syn_lib \<Rightarrow> nat \<Rightarrow> 's attribute list \<Rightarrow> (string + string list \<times> 's attribute list) option" where
  "take_provider_middlewares Y n attributes = fold_fuel (take_middleware Y n) ([], []) attributes"

text \<open>\<open>J\<close> bundles what the macro uses of \<open>serde_json\<close>, and \<open>base10_parse::<u16>\<close> of a literal.\<close>

record macro_lib =
  ml_number :: "string \<Rightarrow> json_number option"
  ml_to_string :: "json_object \<Rightarrow> string + string"
  ml_from_str :: "string \<Rightarrow> string + json"
  ml_base10_u16 :: "string \<Rightarrow> string + nat"

definition take_attribute ::
  "'s syn_lib \<Rightarrow> macro_lib \<Rightarrow> nat \<Rightarrow> HandlerMetadata \<times> 's attribute list \<Rightarrow> 's attribute \<Rightarrow>
   (string + HandlerMetadata \<times> 's attribute list) option" where
  "take_attribute Y J n st a =
     (case st of (hm, retained) \<Rightarrow>
      if at_ident a = Some ''middleware'' then
        try_fuel (middleware_arguments Y n a) (\<lambda>arguments.
          Some (Inr (hm\<lparr>hm_middlewares := hm_middlewares hm @ arguments\<rparr>, retained)))
      else if at_ident a = Some ''openapi'' then
        if hm_openapi hm \<noteq> None then Some (Inl ''an endpoint handler may declare only one OpenAPI Operation Object'')
        else try_fuel (Some (at_args a)) (\<lambda>s.
          try_fuel (parse_args Y (parse_openapi_operation Y (ml_number J) n) s) (\<lambda>operation.
          try_fuel (Some (into_literal (ml_to_string J) (ml_from_str J) operation)) (\<lambda>literal.
            Some (Inr (hm\<lparr>hm_openapi := Some literal\<rparr>, retained)))))
      else if at_ident a = Some ''openapi_contract'' then
        if hm_contract hm \<noteq> None then Some (Inl ''an endpoint handler may declare only one strict OpenAPI contract'')
        else try_fuel
          (if at_is_path a then Some (Inr metadata_default)
           else try_fuel (Some (at_args a)) (\<lambda>s.
             parse_args Y (\<lambda>s. parse_contract_metadata Y n s metadata_default False) s)) (\<lambda>contract.
          Some (Inr (hm\<lparr>hm_contract := Some contract\<rparr>, retained)))
      else
        (case http_method a of
           None \<Rightarrow> Some (Inr (hm, retained @ [a]))
         | Some verb \<Rightarrow>
             if hm_route hm \<noteq> None then Some (Inl ''an endpoint handler may declare only one HTTP method'')
             else try_fuel (Some (at_args a)) (\<lambda>s.
               try_fuel (parse_route_arguments Y n s) (\<lambda>arguments.
                 Some (Inr (hm\<lparr>hm_route := Some \<lparr>mr_method = verb, mr_id = ra_route_id arguments,
                   mr_path = ra_path arguments, mr_openapi = None\<rparr>\<rparr>, retained))))))"

definition take_handler_metadata ::
  "'s syn_lib \<Rightarrow> macro_lib \<Rightarrow> nat \<Rightarrow> 's attribute list \<Rightarrow> (string + HandlerMetadata \<times> 's attribute list) option" where
  "take_handler_metadata Y J n attributes =
     fold_fuel (take_attribute Y J n)
       (\<lparr>hm_route = None, hm_middlewares = [], hm_openapi = None, hm_contract = None\<rparr>, []) attributes"

section \<open>Strict contracts\<close>

record ContractProblem =
  cp_status :: nat
  cp_code :: string

record ContractBody =
  cbd_ty :: ty
  cbd_required :: bool

record RequestContractShape =
  rcs_path :: "ty option"
  rcs_query :: "ty option"
  rcs_body :: "ContractBody option"
  rcs_problems :: "ContractProblem list"

record EndpointContract =
  ec_path :: "ty option"
  ec_query :: "ty option"
  ec_body :: "ContractBody option"
  ec_success :: ty
  ec_success_status :: nat
  ec_problems :: "ContractProblem list"

definition generated_problem :: "nat \<Rightarrow> string \<Rightarrow> ContractProblem" where
  "generated_problem status code = \<lparr>cp_status = status, cp_code = code\<rparr>"

definition add_json_extractor_problems :: "ContractProblem list \<Rightarrow> ContractProblem list" where
  "add_json_extractor_problems problems =
     problems @ [generated_problem 400 ''invalid_json_body'', generated_problem 415 ''json_content_type_required'']"

definition shape_json_body ::
  "ty \<Rightarrow> bool \<Rightarrow> RequestContractShape \<Rightarrow> string + RequestContractShape" where
  "shape_json_body t required shape =
     (if rcs_body shape \<noteq> None then Inl ''a strict OpenAPI contract supports one Json<T> request body''
      else try_in (extractor_type_argument t ''Json'') (\<lambda>inner.
        Inr (shape\<lparr>rcs_body := Some \<lparr>cbd_ty = inner, cbd_required = required\<rparr>,
          rcs_problems := add_json_extractor_problems (rcs_problems shape)\<rparr>)))"

definition shape_argument :: "RequestContractShape \<Rightarrow> FnArg \<Rightarrow> string + RequestContractShape" where
  "shape_argument shape input =
     (case input of
        Receiver \<Rightarrow> Inr shape
      | Typed t \<Rightarrow>
          let name = final_type_ident t in
          if name \<in> {Some ''InvocationContext'', Some ''RequestId''} then Inr shape
          else if name = Some ''Path'' then
            if rcs_path shape \<noteq> None then Inl ''a strict OpenAPI contract supports one Path<T> extractor''
            else try_in (extractor_type_argument t ''Path'') (\<lambda>inner.
              Inr (shape\<lparr>rcs_path := Some inner,
                rcs_problems := rcs_problems shape @ [generated_problem 400 ''invalid_path_parameters'']\<rparr>))
          else if name = Some ''QueryParams'' then
            if rcs_query shape \<noteq> None then Inl ''a strict OpenAPI contract supports one QueryParams<T> extractor''
            else try_in (extractor_type_argument t ''QueryParams'') (\<lambda>inner.
              Inr (shape\<lparr>rcs_query := Some inner,
                rcs_problems := rcs_problems shape @ [generated_problem 400 ''invalid_query'']\<rparr>))
          else if name = Some ''Json'' then shape_json_body t True shape
          else if name = Some ''Option'' then
            try_in (extractor_type_argument t ''Option'') (\<lambda>inner.
              if final_type_ident inner = Some ''Json'' then shape_json_body inner False shape
              else Inl ''strict OpenAPI contracts support Option only around Json<T>'')
          else if name \<in> {Some ''Body'', Some ''Headers'', Some ''HandleRequest''} then
            Inl ''strict OpenAPI contracts require typed Path, QueryParams, and Json values instead of raw request data''
          else Inl (''strict OpenAPI contracts support InvocationContext, RequestId, Path<T>, QueryParams<T>, Json<T>, '' @
            ''and Option<Json<T>> handler arguments''))"

definition derive_strict_request_shape :: "'s ImplItemFn \<Rightarrow> string + RequestContractShape" where
  "derive_strict_request_shape m =
     fold_res shape_argument \<lparr>rcs_path = None, rcs_query = None, rcs_body = None, rcs_problems = []\<rparr> (mf_inputs m)"

definition endpoint_result_types :: "'s ImplItemFn \<Rightarrow> string + ty \<times> ty" where
  "endpoint_result_types m =
     (let wrong = ''a strict OpenAPI handler must return Result<Success, Error>'' in
      case mf_output m of
        Some (TyPath segments) \<Rightarrow>
          (case last_of segments of
             None \<Rightarrow> Inl wrong
           | Some segment \<Rightarrow>
               if segment_ident segment \<noteq> ''Result'' then Inl wrong
               else (case segment_arguments segment of
                   AngleBracketed arguments \<Rightarrow>
                     (case type_arguments arguments of
                        [success, error] \<Rightarrow> Inr (success, error)
                      | _ \<Rightarrow> Inl wrong)
                 | _ \<Rightarrow> Inl wrong))
      | _ \<Rightarrow> Inl wrong)"

definition parse_success_status :: "macro_lib \<Rightarrow> string \<Rightarrow> string + nat" where
  "parse_success_status J status =
     try_in (ml_base10_u16 J status) (\<lambda>parsed.
       if \<not> (200 \<le> parsed \<and> parsed \<le> 299) then Inl ''strict OpenAPI success status must be between 200 and 299''
       else Inr parsed)"

definition parse_problem_status :: "macro_lib \<Rightarrow> string \<Rightarrow> string + nat" where
  "parse_problem_status J status =
     try_in (ml_base10_u16 J status) (\<lambda>parsed.
       if \<not> (400 \<le> parsed \<and> parsed \<le> 599) then Inl ''strict OpenAPI problem status must be between 400 and 599''
       else Inr parsed)"

definition strict_success_type :: "macro_lib \<Rightarrow> ty \<Rightarrow> string option \<Rightarrow> string + ty \<times> nat" where
  "strict_success_type J success declared_status =
     (if final_type_ident success = Some ''Json'' then
        try_in (case declared_status of None \<Rightarrow> Inr 200 | Some status \<Rightarrow> parse_success_status J status) (\<lambda>status.
          if status \<noteq> 200
          then Inl ''Json<T> always returns status 200; use (StatusCode, Json<T>) for another success status''
          else try_in (extractor_type_argument success ''Json'') (\<lambda>inner. Inr (inner, status)))
      else (case success of
          TyTuple [status_type, response] \<Rightarrow>
            if final_type_ident status_type \<noteq> Some ''StatusCode'' \<or> final_type_ident response \<noteq> Some ''Json''
            then Inl ''strict OpenAPI contracts support (StatusCode, Json<T>) success values''
            else (case declared_status of
                None \<Rightarrow> Inl ''(StatusCode, Json<T>) needs openapi_contract(success = status)''
              | Some status \<Rightarrow>
                  try_in (extractor_type_argument response ''Json'') (\<lambda>inner.
                  try_in (parse_success_status J status) (\<lambda>parsed. Inr (inner, parsed))))
        | TyTuple _ \<Rightarrow> Inl ''strict OpenAPI contracts support (StatusCode, Json<T>) success values''
        | _ \<Rightarrow> Inl ''strict OpenAPI contracts support Json<T> or (StatusCode, Json<T>) success values''))"

definition declare_problem ::
  "macro_lib \<Rightarrow> ContractProblem list \<Rightarrow> OpenApiContractError \<Rightarrow> string + ContractProblem list" where
  "declare_problem J problems error =
     try_in (parse_problem_status J (oce_status error)) (\<lambda>status.
       if trim (oce_code error) = [] then Inl ''a strict OpenAPI problem code must not be empty''
       else if list_ex (\<lambda>problem. cp_status problem = status \<and> cp_code problem = oce_code error) problems
       then Inl ''a strict OpenAPI problem status and code may be declared only once''
       else Inr (problems @ [\<lparr>cp_status = status, cp_code = oce_code error\<rparr>]))"

definition extend_problem_contract ::
  "macro_lib \<Rightarrow> ty \<Rightarrow> OpenApiContractMetadata \<Rightarrow> ContractProblem list \<Rightarrow> string + ContractProblem list" where
  "extend_problem_contract J error metadata problems =
     (if final_type_ident error = Some ''Problem'' then
        if ocm_errors metadata = []
        then Inl ''a strict OpenAPI contract for Problem errors must enumerate errors = [(status, \"code\")]''
        else fold_res (declare_problem J) problems (ocm_errors metadata)
      else if final_type_ident error = Some ''EndpointHandleInvocationError'' then
        if ocm_errors metadata \<noteq> [] then Inl ''strict OpenAPI errors require a Problem handler error type''
        else Inr problems
      else Inl ''strict OpenAPI contracts support Problem or EndpointHandleInvocationError handler errors'')"

definition derive_endpoint_contract ::
  "macro_lib \<Rightarrow> 's ImplItemFn \<Rightarrow> OpenApiContractMetadata \<Rightarrow> string + EndpointContract" where
  "derive_endpoint_contract J m metadata =
     try_in (derive_strict_request_shape m) (\<lambda>shape.
     try_in (endpoint_result_types m) (\<lambda>(success, error).
     try_in (strict_success_type J success (ocm_success metadata)) (\<lambda>(success, success_status).
     try_in (extend_problem_contract J error metadata (rcs_problems shape)) (\<lambda>problems.
       Inr \<lparr>ec_path = rcs_path shape, ec_query = rcs_query shape, ec_body = rcs_body shape,
            ec_success = success, ec_success_status = success_status, ec_problems = problems\<rparr>))))"

section \<open>Expansion\<close>

datatype ArgumentKind = ArgContext | ArgRequest | ArgExtractor string

record HandlerArgument =
  ha_ty :: ty
  ha_kind :: ArgumentKind

record MacroHandler =
  mh_route :: MacroRoute
  mh_middlewares :: "string list"
  mh_method :: string
  mh_arguments :: "HandlerArgument list"
  mh_contract :: "EndpointContract option"

definition argument_kind :: "nat \<Rightarrow> ty \<Rightarrow> ArgumentKind" where
  "argument_kind index t =
     (if final_type_ident t = Some ''InvocationContext'' then ArgContext
      else if final_type_ident t = Some ''HandleRequest'' then ArgRequest
      else ArgExtractor (''__lenso_extracted_'' @ decimal index))"

fun typed_arguments :: "(nat \<times> FnArg) list \<Rightarrow> HandlerArgument list" where
  "typed_arguments [] = []"
| "typed_arguments ((index, Receiver) # inputs) = typed_arguments inputs"
| "typed_arguments ((index, Typed t) # inputs) =
     \<lparr>ha_ty = t, ha_kind = argument_kind index t\<rparr> # typed_arguments inputs"

definition handler_arguments :: "'s ImplItemFn \<Rightarrow> string + HandlerArgument list" where
  "handler_arguments m =
     (let arguments = typed_arguments (List.enumerate 0 (mf_inputs m));
          context_count = length (filter (\<lambda>a. ha_kind a = ArgContext) arguments);
          request_count = length (filter (\<lambda>a. ha_kind a = ArgRequest) arguments)
      in if context_count > 1 \<or> request_count > 1
         then Inl ''an endpoint handler accepts at most one InvocationContext and one HandleRequest''
         else Inr arguments)"

definition validate_endpoint_implementation :: "'s ItemImpl \<Rightarrow> string + unit" where
  "validate_endpoint_implementation implementation =
     (if ii_trait implementation then Inl ''endpoint can only be applied to an inherent impl block''
      else if ii_generic implementation then Inl ''endpoint does not support generic impl blocks''
      else Inr ())"

definition expand_method ::
  "macro_lib \<Rightarrow> string list \<Rightarrow> 's ImplItemFn \<Rightarrow> HandlerMetadata \<Rightarrow> string + MacroHandler option" where
  "expand_method J provider_middlewares m metadata =
     (case hm_route metadata of
        Some route \<Rightarrow>
          if hm_contract metadata \<noteq> None \<and> hm_openapi metadata = None
          then Inl ''openapi_contract requires an OpenAPI Operation Object on the same handler''
          else try_in (case hm_contract metadata of
              None \<Rightarrow> Inr None
            | Some contract \<Rightarrow> try_in (derive_endpoint_contract J m contract) (\<lambda>c. Inr (Some c))) (\<lambda>contract.
          try_in (handler_arguments m) (\<lambda>arguments.
            Inr (Some \<lparr>mh_route = route\<lparr>mr_openapi := hm_openapi metadata\<rparr>,
              mh_middlewares = provider_middlewares @ hm_middlewares metadata,
              mh_method = mf_ident m, mh_arguments = arguments, mh_contract = contract\<rparr>)))
      | None \<Rightarrow>
          if hm_middlewares metadata \<noteq> [] \<or> hm_openapi metadata \<noteq> None \<or> hm_contract metadata \<noteq> None
          then Inl ''endpoint metadata can only be attached to an HTTP handler''
          else Inr None)"

definition expand_item ::
  "'s syn_lib \<Rightarrow> macro_lib \<Rightarrow> nat \<Rightarrow> string list \<Rightarrow> MacroHandler list \<times> 's ImplItem list \<Rightarrow> 's ImplItem \<Rightarrow>
   (string + MacroHandler list \<times> 's ImplItem list) option" where
  "expand_item Y J n provider_middlewares st item =
     (case st of (routes, items) \<Rightarrow>
      (case item of
         ImplOther _ \<Rightarrow> Some (Inr (routes, items @ [item]))
       | ImplFn m \<Rightarrow>
           try_fuel (take_handler_metadata Y J n (mf_attrs m)) (\<lambda>(metadata, retained).
           try_fuel (Some (expand_method J provider_middlewares m metadata)) (\<lambda>handler.
             Some (Inr (routes @ (case handler of None \<Rightarrow> [] | Some h \<Rightarrow> [h]),
               items @ [ImplFn (m\<lparr>mf_attrs := retained\<rparr>)]))))))"

text \<open>
  The name of a contract factory. \<open>Ident::new\<close> panics on a name that is no identifier, which is a
  raw one in the middle; the compiler reports the panic as an error of the attribute.
\<close>

definition contract_factory_name :: "MacroHandler \<Rightarrow> nat \<Rightarrow> string + string" where
  "contract_factory_name handler index =
     (let name = ''__lenso_openapi_contract_'' @ mh_method handler @ ''_'' @ decimal index
      in if no_raw (mh_method handler) then Inr name else Inl (''`'' @ name @ ''` is not a valid identifier''))"

text \<open>The result of calling a generated factory; \<open>S\<close> is \<open>schema_for\<close>.\<close>

definition contract_factory :: "(ty \<Rightarrow> json) \<Rightarrow> MacroHandler \<Rightarrow> EndpointContract \<Rightarrow> string + json" where
  "contract_factory S handler contract =
     (let c = contract_new (mr_id (mh_route handler)) (mr_method (mh_route handler)) (mr_path (mh_route handler)) in
      try_in (case ec_path contract of None \<Rightarrow> Inr c | Some t \<Rightarrow> contract_path (S t) c) (\<lambda>c.
      try_in (case ec_query contract of None \<Rightarrow> Inr c | Some t \<Rightarrow> contract_query (S t) c) (\<lambda>c.
      try_in (case ec_body contract of
          None \<Rightarrow> Inr c
        | Some body \<Rightarrow> (if cbd_required body then json_body (S (cbd_ty body)) c else optional_json_body (S (cbd_ty body)) c)) (\<lambda>c.
      try_in (success_json (S (ec_success contract)) (ec_success_status contract) c) (\<lambda>c.
      try_in (fold_res (\<lambda>c problem. known_problem (cp_status problem) (cp_code problem) c) c (ec_problems contract))
        contract_build)))))"

text \<open>The associated functions of the generated \<open>impl\<close> block, by name.\<close>

definition endpoint_contract_impl ::
  "(ty \<Rightarrow> json) \<Rightarrow> MacroHandler list \<Rightarrow> string + (string \<times> (string + json)) list" where
  "endpoint_contract_impl S routes =
     traverse (\<lambda>(index, handler, contract).
         try_in (contract_factory_name handler index) (\<lambda>name. Inr (name, contract_factory S handler contract)))
       (List.map_filter (\<lambda>(index, handler). map_option (\<lambda>contract. (index, handler, contract)) (mh_contract handler))
         (List.enumerate 0 routes))"

text \<open>A route of the table; its factory is called by name. A name that is not there does not compile.\<close>

definition endpoint_route ::
  "(string \<times> (string + json)) list \<Rightarrow> nat \<times> MacroHandler \<Rightarrow> string + EndpointRoute" where
  "endpoint_route factories e =
     (case e of (index, handler) \<Rightarrow>
        let route = route_new (mr_id (mh_route handler)) (mr_method (mh_route handler)) (mr_path (mh_route handler));
            route = (case mr_openapi (mh_route handler) of None \<Rightarrow> route | Some operation \<Rightarrow> with_openapi route operation)
        in case mh_contract handler of
             None \<Rightarrow> Inr route
           | Some _ \<Rightarrow>
               try_in (contract_factory_name handler index) (\<lambda>name.
               try_in (ok_or (map_of factories name) (''no function named '' @ name)) (\<lambda>made.
                 Inr (with_openapi_contract route made))))"

text \<open>
  What the generated code declares. The constant that validates the table is evaluated by the
  compiler, so its failure is an error of the expansion too.
\<close>

record 's Expansion =
  ex_implementation :: "'s ItemImpl"
  ex_handlers :: "MacroHandler list"
  ex_factories :: "(string \<times> (string + json)) list"
  ex_routes :: "EndpointRoute list"
  ex_provides :: bool

definition expand_endpoint_with_registration ::
  "'s syn_lib \<Rightarrow> macro_lib \<Rightarrow> (ty \<Rightarrow> json) \<Rightarrow> nat \<Rightarrow> 's ItemImpl \<Rightarrow> bool \<Rightarrow> (string + 's Expansion) option" where
  "expand_endpoint_with_registration Y J S n implementation register_plugin =
     try_fuel (Some (validate_endpoint_implementation implementation)) (\<lambda>_.
     try_fuel (take_provider_middlewares Y n (ii_attrs implementation)) (\<lambda>(provider_middlewares, attrs).
     try_fuel (fold_fuel (expand_item Y J n provider_middlewares) ([], []) (ii_items implementation)) (\<lambda>(routes, items).
       if routes = [] then Some (Inl ''endpoint impl must declare at least one HTTP handler attribute'')
       else
         try_fuel (Some (endpoint_contract_impl S routes)) (\<lambda>factories.
         try_fuel (Some (traverse (endpoint_route factories) (List.enumerate 0 routes))) (\<lambda>table.
         try_fuel (Some (validate_endpoint_routes table)) (\<lambda>_.
           Some (Inr \<lparr>ex_implementation = implementation\<lparr>ii_attrs := attrs, ii_items := items\<rparr>,
             ex_handlers = routes, ex_factories = factories, ex_routes = table, ex_provides = register_plugin\<rparr>)))))))"

text \<open>The macro itself: its only argument is the mode that leaves out the registration.\<close>

definition endpoint ::
  "'s syn_lib \<Rightarrow> macro_lib \<Rightarrow> (ty \<Rightarrow> json) \<Rightarrow> nat \<Rightarrow> 's \<Rightarrow> 's ItemImpl \<Rightarrow> (string + 's Expansion) option" where
  "endpoint Y J S n arguments implementation =
     try_fuel (if syn_is_empty Y arguments then Some (Inr True)
       else try_fuel (parse_args Y (\<lambda>s. Some (syn_ident Y s)) arguments) (\<lambda>mode.
         Some (if mode \<noteq> ''standalone'' then Inl ''endpoint accepts only the internal `standalone` mode'' else Inr False)))
     (expand_endpoint_with_registration Y J S n implementation)"

section \<open>The generated dispatcher\<close>

text \<open>
  The methods of the provider: its middleware, the extraction of a value of some type, which may
  change the invocation context, and its handlers. A handler's result is a response value or an
  error that is one, as \<open>IntoEndpointResult\<close> has it.
\<close>

datatype ('ctx, 'v) arg_value = CtxValue 'ctx | ReqValue HandleRequest | ExtractedValue 'v

type_synonym endpoint_outcome = "RuntimeFailure + (HandleError + HandleResponse)"

record ('ctx, 'v) provider =
  pv_middleware :: "string \<Rightarrow> 'ctx \<Rightarrow> HandleRequest \<Rightarrow> EndpointHandleInvocationError + 'ctx MiddlewareOutcome"
  pv_from_request :: "ty \<Rightarrow> 'ctx \<Rightarrow> HandleRequest \<Rightarrow> (ExtractorRejection + 'v) \<times> 'ctx"
  pv_call :: "string \<Rightarrow> ('ctx, 'v) arg_value list \<Rightarrow> endpoint_error + (ResponseBuildError + HandleResponse)"

definition lower_error :: "EndpointHandleInvocationError \<Rightarrow> endpoint_outcome" where
  "lower_error e = (case e of Domain error \<Rightarrow> Inr (Inl error) | RuntimeError error \<Rightarrow> Inl error)"

text \<open>A step of an arm either answers or goes on; \<open>None\<close> is the \<open>unreachable!\<close> of \<open>into_result\<close>.\<close>

definition middleware_step ::
  "('ctx, 'v) provider \<Rightarrow> string \<Rightarrow> 'ctx \<Rightarrow> HandleRequest \<Rightarrow> (endpoint_outcome + 'ctx \<times> HandleRequest) option" where
  "middleware_step P name ctx request =
     (case pv_middleware P name ctx request of
        Inr outcome \<Rightarrow> map_option (map_err (\<lambda>response. Inr (Inr response))) (into_result outcome)
      | Inl error \<Rightarrow> Some (Inl (lower_error error)))"

fun middleware_steps ::
  "('ctx, 'v) provider \<Rightarrow> string list \<Rightarrow> 'ctx \<Rightarrow> HandleRequest \<Rightarrow> (endpoint_outcome + 'ctx \<times> HandleRequest) option" where
  "middleware_steps P [] ctx request = Some (Inr (ctx, request))"
| "middleware_steps P (name # names) ctx request =
     (case middleware_step P name ctx request of
        Some (Inr (ctx, request)) \<Rightarrow> middleware_steps P names ctx request
      | stopped \<Rightarrow> stopped)"

text \<open>The extractors bind their values to variables, in the order of the arguments.\<close>

fun extractor_steps ::
  "('ctx, 'v) provider \<Rightarrow> HandlerArgument list \<Rightarrow> 'ctx \<Rightarrow> HandleRequest \<Rightarrow> (string \<times> 'v) list \<Rightarrow>
   endpoint_outcome + 'ctx \<times> (string \<times> 'v) list" where
  "extractor_steps P [] ctx request bound = Inr (ctx, bound)"
| "extractor_steps P (a # as) ctx request bound =
     (case ha_kind a of
        ArgExtractor binding \<Rightarrow>
          (case pv_from_request P (ha_ty a) ctx request of
             (Inr v, ctx) \<Rightarrow> extractor_steps P as ctx request ((binding, v) # bound)
           | (Inl (RejectedResponse response), _) \<Rightarrow> Inl (Inr (Inr response))
           | (Inl (RejectedInvocation error), _) \<Rightarrow> Inl (lower_error error))
      | _ \<Rightarrow> extractor_steps P as ctx request bound)"

definition argument_value ::
  "'ctx \<Rightarrow> HandleRequest \<Rightarrow> (string \<times> 'v) list \<Rightarrow> HandlerArgument \<Rightarrow> ('ctx, 'v) arg_value option" where
  "argument_value ctx request bound a =
     (case ha_kind a of
        ArgContext \<Rightarrow> Some (CtxValue ctx)
      | ArgRequest \<Rightarrow> Some (ReqValue request)
      | ArgExtractor binding \<Rightarrow> map_option ExtractedValue (map_of bound binding))"

definition dispatch_arm ::
  "('ctx, 'v) provider \<Rightarrow> MacroHandler \<Rightarrow> 'ctx \<Rightarrow> HandleRequest \<Rightarrow> endpoint_outcome option" where
  "dispatch_arm P handler ctx request =
     (case middleware_steps P (mh_middlewares handler) ctx request of
        None \<Rightarrow> None
      | Some (Inl answer) \<Rightarrow> Some answer
      | Some (Inr (ctx, request)) \<Rightarrow>
          (case extractor_steps P (mh_arguments handler) ctx request [] of
             Inl answer \<Rightarrow> Some answer
           | Inr (ctx, bound) \<Rightarrow>
               map_option (\<lambda>arguments. into_endpoint_result (pv_call P (mh_method handler) arguments))
                 (those (map (argument_value ctx request bound) (mh_arguments handler)))))"

definition macro_dispatch ::
  "('ctx, 'v) provider \<Rightarrow> MacroHandler list \<Rightarrow> 'ctx \<Rightarrow> HandleRequest \<Rightarrow> endpoint_outcome option" where
  "macro_dispatch P handlers ctx request =
     (case find (\<lambda>h. mr_id (mh_route h) = hr_route_id request) handlers of
        Some h \<Rightarrow> dispatch_arm P h ctx request
      | None \<Rightarrow> Some (Inr (Inl HandleRejected)))"

section \<open>Enough fuel\<close>

definition light_attribute :: "('s \<Rightarrow> tok list) \<Rightarrow> nat \<Rightarrow> 's attribute \<Rightarrow> bool" where
  "light_attribute toks n a \<longleftrightarrow> (case at_args a of Inl _ \<Rightarrow> True | Inr s \<Rightarrow> weight (toks s) < n)"

definition item_attributes :: "'s ImplItem \<Rightarrow> 's attribute list" where
  "item_attributes item = (case item of ImplFn m \<Rightarrow> mf_attrs m | ImplOther _ \<Rightarrow> [])"

text \<open>Every attribute has fewer tokens than the fuel.\<close>

definition light :: "('s \<Rightarrow> tok list) \<Rightarrow> nat \<Rightarrow> 's ItemImpl \<Rightarrow> bool" where
  "light toks n implementation \<longleftrightarrow>
     list_all (light_attribute toks n) (ii_attrs implementation @ concat (map item_attributes (ii_items implementation)))"

lemma fold_fuel_answers:
  "(\<And>b x. x \<in> set xs \<Longrightarrow> f b x \<noteq> None) \<Longrightarrow> fold_fuel f b xs \<noteq> None"
proof (induction xs arbitrary: b)
  case (Cons x xs)
  show ?case unfolding fold_fuel.simps by (rule try_fuel_answers) (use Cons in simp_all)
qed simp

lemma parse_args_answers: "parser s \<noteq> None \<Longrightarrow> parse_args Y parser s \<noteq> None"
  unfolding parse_args_def by (intro try_fuel_answers) (auto split: prod.splits)

lemma middleware_arguments_answer:
  assumes Y: "syn_laws Y toks keyword" and "light_attribute toks n a"
  shows "middleware_arguments Y n a \<noteq> None"
proof -
  have "answers toks n (\<lambda>s. Some (syn_ident Y s))" by (auto simp: answers_def dest: syn_shrinks(1) [OF Y])
  then have "parse_terminated Y (\<lambda>s. Some (syn_ident Y s)) n s \<noteq> None" if "at_args a = Inr s" for s
    using parse_terminated_answers [OF Y _ _ order_refl] assms(2) that by (simp add: light_attribute_def)
  then show ?thesis unfolding middleware_arguments_def by (intro try_fuel_answers) auto
qed

lemma take_attribute_answers:
  assumes Y: "syn_laws Y toks keyword" and a: "light_attribute toks n a"
  shows "take_attribute Y J n st a \<noteq> None"
proof -
  have args: "weight (toks s) < n" if "Some (at_args a) = Some (Inr s)" for s
    using a that by (simp add: light_attribute_def)
  have case_answers: "(\<And>v. x = Some v \<Longrightarrow> f v \<noteq> None) \<Longrightarrow> (case x of None \<Rightarrow> Some r | Some v \<Rightarrow> f v) \<noteq> None"
    for x :: "string option" and f and r :: "string + HandlerMetadata \<times> 'a attribute list" by (cases x) simp_all
  note steps = if_answers try_fuel_answers pair_answers case_answers parse_args_answers
  note leaves = middleware_arguments_answer [OF Y a] operation_answers(2) [OF Y] metadata_answers [OF Y]
    route_arguments_answer [OF Y]
  show ?thesis
    unfolding take_attribute_def
    by (intro steps leaves; (erule args | simp))
qed

lemma expansion_answers:
  assumes Y: "syn_laws Y toks keyword" and "light toks n implementation"
  shows "expand_endpoint_with_registration Y J S n implementation register \<noteq> None"
proof -
  have "take_provider_middlewares Y n (ii_attrs implementation) \<noteq> None"
    unfolding take_provider_middlewares_def
  proof (rule fold_fuel_answers)
    fix b and a assume "a \<in> set (ii_attrs implementation)"
    then have "light_attribute toks n a" using assms(2) by (simp add: light_def list_all_iff)
    then show "take_middleware Y n b a \<noteq> None"
      unfolding take_middleware_def by (intro pair_answers if_answers try_fuel_answers middleware_arguments_answer [OF Y]) simp_all
  qed
  moreover have "fold_fuel (expand_item Y J n ms) ([], []) (ii_items implementation) \<noteq> None" for ms
  proof (rule fold_fuel_answers)
    fix b item assume "item \<in> set (ii_items implementation)"
    then have "\<forall>a \<in> set (item_attributes item). light_attribute toks n a"
      using assms(2) by (auto simp: light_def list_all_iff)
    then have "take_handler_metadata Y J n (item_attributes item) \<noteq> None"
      unfolding take_handler_metadata_def by (intro fold_fuel_answers take_attribute_answers [OF Y]) blast
    then show "expand_item Y J n ms b item \<noteq> None"
    proof (cases item)
      case (ImplFn m)
      with \<open>take_handler_metadata Y J n (item_attributes item) \<noteq> None\<close> show ?thesis
        unfolding expand_item_def ImplFn ImplItem.case item_attributes_def
        by (intro try_fuel_answers pair_answers) simp_all
    qed (simp add: expand_item_def split: prod.splits)
  qed
  ultimately show ?thesis
    unfolding expand_endpoint_with_registration_def
    by (intro try_fuel_answers if_answers pair_answers) simp_all
qed

text \<open>C32. The macro always answers: with more fuel than an attribute has tokens, the expansion ends
  with an error or with the generated code, for every stream library that keeps its promises.\<close>

theorem endpoint_macro_terminates:
  assumes "syn_laws Y toks keyword" and "light toks n implementation"
  shows "\<exists>r. endpoint Y J S n arguments implementation = Some r"
proof -
  have "endpoint Y J S n arguments implementation \<noteq> None"
    unfolding endpoint_def
    by (intro try_fuel_answers if_answers expansion_answers [OF assms] parse_args_answers) simp_all
  then show ?thesis by blast
qed

text \<open>The route a handler is given in the table.\<close>

definition handler_route :: "(ty \<Rightarrow> json) \<Rightarrow> MacroHandler \<Rightarrow> EndpointRoute" where
  "handler_route S h =
     \<lparr>er_route_id = mr_id (mh_route h), er_method = mr_method (mh_route h), er_path = mr_path (mh_route h),
      er_openapi = mr_openapi (mh_route h), er_openapi_contract = map_option (contract_factory S h) (mh_contract h)\<rparr>"

section \<open>A sample endpoint\<close>

abbreviation plain_ty :: "string \<Rightarrow> ty" where
  "plain_ty name \<equiv> TyPath [PathSegment name NoArguments]"

abbreviation generic_ty :: "string \<Rightarrow> ty list \<Rightarrow> ty" where
  "generic_ty name arguments \<equiv> TyPath [PathSegment name (AngleBracketed (map ArgType arguments))]"

definition sample_attribute :: "string \<Rightarrow> tok list \<Rightarrow> tok list attribute" where
  "sample_attribute name tokens = \<lparr>at_ident = Some name, at_is_path = False, at_args = Inr tokens\<rparr>"

definition sample_operation :: json_object where
  "sample_operation = [(''summary'', JString ''Read an order'')]"

definition sample_route_tokens :: "tok list" where
  "sample_route_tokens = [TokLit (LitStr ''orders.read''), TokPunct '','', TokLit (LitStr ''/orders'')]"

definition sample_contract_tokens :: "tok list" where
  "sample_contract_tokens = [TokIdent ''errors'', TokPunct ''='',
     TokGroup Bracket [TokGroup Parenthesis [TokLit (LitInt ''404''), TokPunct '','', TokLit (LitStr ''order_not_found'')]]]"

definition sample_method :: "tok list ImplItemFn" where
  "sample_method =
     \<lparr>mf_attrs = [sample_attribute ''middleware'' [TokIdent ''authorize''], sample_attribute ''get'' sample_route_tokens,
        sample_attribute ''openapi'' (json_tokens (\<lambda>_. ''0'') (JObject sample_operation)),
        sample_attribute ''openapi_contract'' sample_contract_tokens],
      mf_ident = ''read'',
      mf_inputs = [Receiver, Typed (plain_ty ''InvocationContext''), Typed (generic_ty ''QueryParams'' [plain_ty ''ReadQuery''])],
      mf_output = Some (generic_ty ''Result'' [generic_ty ''Json'' [plain_ty ''Order''], plain_ty ''Problem''])\<rparr>"

definition sample_impl :: "tok list ItemImpl" where
  "sample_impl =
     \<lparr>ii_attrs = [sample_attribute ''middleware'' [TokIdent ''trace_all'']], ii_trait = False, ii_generic = False,
      ii_self_ty = plain_ty ''OrdersHttp'', ii_items = [ImplFn sample_method]\<rparr>"

text \<open>A JSON library that knows the sample operation.\<close>

definition sample_lib :: macro_lib where
  "sample_lib =
     \<lparr>ml_number = (\<lambda>_. None),
      ml_to_string = (\<lambda>m. if m = sample_operation then Inr ''sample'' else Inl ''unknown object''),
      ml_from_str = (\<lambda>s. if s = ''sample'' then Inr (JObject sample_operation) else Inl ''unknown text''),
      ml_base10_u16 = (\<lambda>s. if s = ''404'' then Inr 404 else Inl ''unknown number'')\<rparr>"

definition sample_schema :: "ty \<Rightarrow> json" where
  "sample_schema t = JObject [(''properties'', JObject [(''id'', JObject [(''type'', JString ''string'')])])]"

definition sample_handler :: MacroHandler where
  "sample_handler =
     \<lparr>mh_route = \<lparr>mr_method = ''GET'', mr_id = ''orders.read'', mr_path = ''/orders'', mr_openapi = Some ''sample''\<rparr>,
      mh_middlewares = [''trace_all'', ''authorize''], mh_method = ''read'',
      mh_arguments = [\<lparr>ha_ty = plain_ty ''InvocationContext'', ha_kind = ArgContext\<rparr>,
        \<lparr>ha_ty = generic_ty ''QueryParams'' [plain_ty ''ReadQuery''], ha_kind = ArgExtractor ''__lenso_extracted_2''\<rparr>],
      mh_contract = Some \<lparr>ec_path = None, ec_query = Some (plain_ty ''ReadQuery''), ec_body = None, ec_success = plain_ty ''Order'',
        ec_success_status = 200, ec_problems = [generated_problem 400 ''invalid_query'', generated_problem 404 ''order_not_found'']\<rparr>\<rparr>"

abbreviation sample_fuel :: nat where
  "sample_fuel \<equiv> Suc (Suc (Suc (Suc (Suc (Suc (Suc (Suc 0)))))))"

abbreviation sample_expand :: "(string + tok list Expansion) option" where
  "sample_expand \<equiv> expand_endpoint_with_registration (tok_syn (\<lambda>_. False)) sample_lib sample_schema sample_fuel sample_impl True"

lemma sample_steps1:
  "take_provider_middlewares (tok_syn (\<lambda>_. False)) sample_fuel (ii_attrs sample_impl) = Some (Inr ([''trace_all''], []))"
  by code_simp

definition sample_metadata :: HandlerMetadata where
  "sample_metadata =
     \<lparr>hm_route = Some \<lparr>mr_method = ''GET'', mr_id = ''orders.read'', mr_path = ''/orders'', mr_openapi = None\<rparr>,
      hm_middlewares = [''authorize''], hm_openapi = Some ''sample'',
      hm_contract = Some \<lparr>ocm_success = None, ocm_errors = [\<lparr>oce_status = ''404'', oce_code = ''order_not_found''\<rparr>]\<rparr>\<rparr>"

lemma sample_taken:
  "take_provider_middlewares (tok_syn (\<lambda>_. False)) sample_fuel (ii_attrs sample_impl) = Some (Inr ([''trace_all''], []))"
  "take_handler_metadata (tok_syn (\<lambda>_. False)) sample_lib sample_fuel (mf_attrs sample_method) = Some (Inr (sample_metadata, []))"
  by code_simp+

lemma sample_derived:
  "derive_endpoint_contract sample_lib sample_method (the (hm_contract sample_metadata)) = Inr (the (mh_contract sample_handler))"
proof -
  have "trim ''order_not_found'' = ''order_not_found''" by (rule trim_graphic) (simp add: graphic_def byte_def)
  then show ?thesis
    by (simp add: derive_endpoint_contract_def derive_strict_request_shape_def shape_argument_def extractor_type_argument_def
        final_type_ident_def last_of_def Let_def endpoint_result_types_def strict_success_type_def extend_problem_contract_def
        declare_problem_def parse_problem_status_def sample_lib_def sample_method_def sample_metadata_def sample_handler_def
        generated_problem_def)
qed

lemma sample_expanded_method: "expand_method sample_lib [''trace_all''] sample_method sample_metadata = Inr (Some sample_handler)"
proof -
  have "decimal (Suc (Suc 0)) = ''2''" by code_simp
  then have "handler_arguments sample_method = Inr (mh_arguments sample_handler)"
    by (simp add: handler_arguments_def sample_method_def sample_handler_def argument_kind_def final_type_ident_def last_of_def
        Let_def)
  with sample_derived show ?thesis by (simp add: expand_method_def sample_metadata_def sample_method_def sample_handler_def)
qed

lemma sample_expands: "\<exists>X. sample_expand = Some (Inr X) \<and> ex_handlers X = [sample_handler]"
proof -
  have "fold_fuel (expand_item (tok_syn (\<lambda>_. False)) sample_lib sample_fuel [''trace_all'']) ([], []) (ii_items sample_impl) =
      Some (Inr ([sample_handler], [ImplFn (sample_method\<lparr>mf_attrs := []\<rparr>)]))"
    by (simp add: sample_impl_def expand_item_def sample_taken(2) sample_expanded_method)
  moreover obtain fs where fs: "endpoint_contract_impl sample_schema [sample_handler] = Inr fs"
    "traverse (endpoint_route fs) (List.enumerate 0 [sample_handler]) = Inr [handler_route sample_schema sample_handler]"
    by (simp add: endpoint_contract_impl_def map_filter_simps sample_handler_def contract_factory_name_def no_raw_def starts_with_def
        Let_def endpoint_route_def handler_route_def route_new_def with_openapi_def with_openapi_contract_def)
  moreover have "validate_endpoint_routes [handler_route sample_schema sample_handler] = Inr ()" by code_simp
  moreover have "validate_endpoint_implementation sample_impl = Inr ()"
    by (simp add: validate_endpoint_implementation_def sample_impl_def)
  ultimately show ?thesis
    by (simp add: expand_endpoint_with_registration_def sample_taken(1))
qed

theorem endpoint_macro_terminates_witness:
  "\<exists>r. endpoint (tok_syn (\<lambda>_. False)) sample_lib sample_schema 8 [] sample_impl = Some r"
proof (rule endpoint_macro_terminates [OF tok_syn_laws])
  show "light id 8 sample_impl"
    by (simp add: light_def light_attribute_def sample_impl_def sample_method_def item_attributes_def sample_attribute_def
        sample_route_tokens_def sample_contract_tokens_def sample_operation_def)
qed

end
