(* ===== verification/MacroContract.thy ===== *)
theory MacroContract
  imports EndpointMacro
begin

text \<open>
  What the strict contracts of the attribute macro are worth: they list every problem the handler's
  arguments can be refused with, their generated factories build, the OpenAPI plugin accepts what
  they build, and every strict route of the generated table calls its own factory.
\<close>

section \<open>Strict contracts document what extraction rejects\<close>

lemma fold_res_mem:
  assumes "fold_res f b xs = Inr b'" and "x \<in> set xs"
    and "\<And>b y b'. f b y = Inr b' \<Longrightarrow> R b \<Longrightarrow> R b'" and "\<And>b b'. f b x = Inr b' \<Longrightarrow> R b'"
  shows "R b'"
proof -
  have mono: "R c \<Longrightarrow> fold_res f c ys = Inr c' \<Longrightarrow> R c'" for c ys c'
    by (induction ys arbitrary: c) (auto simp: result_simps dest: assms(3))
  show ?thesis
    using assms(1,2) by (induction xs arbitrary: b) (auto simp: result_simps dest: assms(4) intro: mono)
qed

lemma shape_argument_mono:
  assumes "shape_argument shape input = Inr shape'"
  shows "set (rcs_problems shape) \<subseteq> set (rcs_problems shape')"
  using assms
  by (auto simp: shape_argument_def shape_json_body_def add_json_extractor_problems_def Let_def result_simps
      split: FnArg.splits if_splits)

text \<open>The problems extraction of a type can answer with.\<close>

definition type_problems :: "string option \<Rightarrow> ContractProblem list" where
  "type_problems name =
     (if name = Some ''Path'' then [generated_problem 400 ''invalid_path_parameters'']
      else if name = Some ''QueryParams'' then [generated_problem 400 ''invalid_query'']
      else if name \<in> {Some ''Json'', Some ''Option''} then add_json_extractor_problems []
      else [])"

lemma shape_argument_adds:
  assumes "shape_argument shape (Typed t) = Inr shape'"
  shows "set (type_problems (final_type_ident t)) \<subseteq> set (rcs_problems shape') \<and>
    final_type_ident t \<in> Some ` {''InvocationContext'', ''RequestId'', ''Path'', ''QueryParams'', ''Json'', ''Option''}"
  using assms
  by (auto simp: shape_argument_def shape_json_body_def add_json_extractor_problems_def type_problems_def Let_def result_simps
      split: if_splits)

lemma extend_problem_contract_mono:
  assumes "extend_problem_contract J error metadata problems = Inr problems'"
  shows "set problems \<subseteq> set problems'"
proof -
  have "set ps \<subseteq> set ps'" if "fold_res (declare_problem J) ps es = Inr ps'" for ps es ps'
    by (rule fold_res_invariant [OF that, where P = "\<lambda>qs. set ps \<subseteq> set qs"])
      (auto simp: declare_problem_def result_simps split: if_splits)
  then show ?thesis using assms by (auto simp: extend_problem_contract_def split: if_splits)
qed

lemma derived_problems:
  assumes "derive_endpoint_contract J m metadata = Inr c" and "Typed t \<in> set (mf_inputs m)"
  shows "set (type_problems (final_type_ident t)) \<subseteq> set (ec_problems c) \<and>
    final_type_ident t \<in> Some ` {''InvocationContext'', ''RequestId'', ''Path'', ''QueryParams'', ''Json'', ''Option''}"
proof -
  from assms(1) obtain shape error where shape: "derive_strict_request_shape m = Inr shape"
    and ext: "extend_problem_contract J error metadata (rcs_problems shape) = Inr (ec_problems c)"
    by (auto simp: derive_endpoint_contract_def result_simps)
  have "set (type_problems (final_type_ident t)) \<subseteq> set (rcs_problems shape) \<and>
      final_type_ident t \<in> Some ` {''InvocationContext'', ''RequestId'', ''Path'', ''QueryParams'', ''Json'', ''Option''}"
    by (rule fold_res_mem [OF shape [unfolded derive_strict_request_shape_def] assms(2)])
      (use shape_argument_mono shape_argument_adds in blast)+
  then show ?thesis using extend_problem_contract_mono [OF ext] by blast
qed

text \<open>A rejection is the problem response of one of the given status codes and problem codes.\<close>

definition rejection_documented ::
  "'h http_lib \<Rightarrow> (json \<Rightarrow> string + bytes) \<Rightarrow> (nat \<Rightarrow> string option) \<Rightarrow> ContractProblem list \<Rightarrow>
   (ExtractorRejection + 'a) option \<Rightarrow> bool" where
  "rejection_documented L to_vec reason problems r \<longleftrightarrow>
     (\<forall>rejection. r = Some (Inl rejection) \<longrightarrow>
        (\<exists>p \<in> set problems. \<exists>detail response.
           problem L to_vec reason (cp_status p) (cp_code p) detail = Some response \<and>
           rejection = RejectedResponse response))"

lemma documented_reject:
  "generated_problem status code \<in> set problems \<Longrightarrow>
     rejection_documented L to_vec reason problems (reject_problem L to_vec reason status code detail)"
  unfolding rejection_documented_def
  by (intro allI impI bexI [of _ "generated_problem status code"])
    (auto simp: reject_problem_def generated_problem_def)

lemma documented_ok: "rejection_documented L to_vec reason problems (Some (Inr v))" "rejection_documented L to_vec reason problems None"
  by (simp_all add: rejection_documented_def)

text \<open>C15. A strict contract is complete for what the handler's arguments can refuse: whatever response
  extraction of an argument answers with instead of a value, the contract the macro derives
  lists its status and problem code; a handler whose arguments could answer otherwise is refused.\<close>

theorem strict_contract_documents_rejections:
  assumes "derive_endpoint_contract J m metadata = Inr c" and "Typed t \<in> set (mf_inputs m)"
  shows "final_type_ident t \<in> Some ` {''InvocationContext'', ''RequestId'', ''Path'', ''QueryParams'', ''Json'', ''Option''} \<and>
    (final_type_ident t = Some ''Path'' \<longrightarrow>
       rejection_documented L to_vec reason (ec_problems c) (extract_path L to_vec reason to_string from_str request)) \<and>
    (final_type_ident t = Some ''QueryParams'' \<longrightarrow>
       rejection_documented L to_vec reason (ec_problems c) (extract_query L to_vec reason from_query request)) \<and>
    (final_type_ident t = Some ''Json'' \<longrightarrow>
       rejection_documented L to_vec reason (ec_problems c) (extract_json L to_vec reason from_slice request)) \<and>
    (final_type_ident t = Some ''Option'' \<longrightarrow>
       rejection_documented L to_vec reason (ec_problems c) (extract_optional_json L to_vec reason from_slice request))"
proof -
  note derived = derived_problems [OF assms]
  have json: "rejection_documented L to_vec reason (ec_problems c) (extract_json L to_vec reason from_slice request)"
    if "final_type_ident t \<in> {Some ''Json'', Some ''Option''}"
    using derived that unfolding extract_json_def
    by (auto simp: type_problems_def add_json_extractor_problems_def split: option.splits intro!: documented_reject documented_ok)
  moreover have "rejection_documented L to_vec reason (ec_problems c) (extract_optional_json L to_vec reason from_slice request)"
    if "final_type_ident t = Some ''Option''"
    using json that unfolding extract_optional_json_def by (auto simp: rejection_documented_def result_simps)
  moreover have "rejection_documented L to_vec reason (ec_problems c) (extract_path L to_vec reason to_string from_str request)"
    if "final_type_ident t = Some ''Path''"
    using derived that unfolding extract_path_def invalid_path_def
    by (auto simp: type_problems_def split: option.splits intro!: documented_reject documented_ok)
  moreover have "rejection_documented L to_vec reason (ec_problems c) (extract_query L to_vec reason from_query request)"
    if "final_type_ident t = Some ''QueryParams''"
    using derived that unfolding extract_query_def
    by (auto simp: type_problems_def split: option.splits intro!: documented_reject documented_ok)
  ultimately show ?thesis using derived by blast
qed

section \<open>Derived contracts build\<close>

text \<open>A schema parameters can be taken from: an object schema with named properties.\<close>

definition parameter_schema :: "json \<Rightarrow> bool" where
  "parameter_schema schema \<longleftrightarrow>
     (\<exists>root properties. schema = JObject root \<and> get_object root ''properties'' = Some properties \<and>
        properties \<noteq> [] \<and> distinct (map fst properties))"

definition property_schemas :: "json \<Rightarrow> json list" where
  "property_schemas schema =
     (case as_object schema of
        None \<Rightarrow> []
      | Some root \<Rightarrow>
          (case get_object root ''properties'' of
             None \<Rightarrow> []
           | Some properties \<Rightarrow> map (\<lambda>e. with_definitions (bt_get root ''$defs'') (snd e)) properties))"

text \<open>The schemas of a handler's types that a contract compares.\<close>

definition contract_schemas :: "(ty \<Rightarrow> json) \<Rightarrow> EndpointContract \<Rightarrow> json list" where
  "contract_schemas S c =
     (case ec_path c of None \<Rightarrow> [] | Some t \<Rightarrow> property_schemas (S t)) @
     (case ec_query c of None \<Rightarrow> [] | Some t \<Rightarrow> property_schemas (S t)) @
     (case ec_body c of None \<Rightarrow> [] | Some body \<Rightarrow> [S (cbd_ty body)]) @ [S (ec_success c)]"

lemma bt_insert_new: "bt_get m k = None \<Longrightarrow> set (bt_insert k v m) = insert (k, v) (set m)"
  by (induction m) (auto split: if_splits)

abbreviation parameter_schemas :: "(string \<times> string, json) btree \<Rightarrow> json set" where
  "parameter_schemas ps \<equiv> (\<lambda>e. schema_at (snd e)) ` set ps"

lemma add_parameter_ok:
  assumes "(location, fst property) \<notin> fst ` set ps"
  shows "\<exists>ps'. add_parameter location required root ps property = Inr ps' \<and>
    fst ` set ps' = insert (location, fst property) (fst ` set ps) \<and>
    parameter_schemas ps' = insert (with_definitions (bt_get root ''$defs'') (snd property)) (parameter_schemas ps)"
proof -
  have "bt_get ps (location, fst property) = None" using assms by (simp add: map_of_eq_None_iff)
  then show ?thesis
    by (cases property) (simp add: add_parameter_def Let_def bt_insert_new)
qed

lemma fold_parameters_ok:
  assumes "distinct (map fst properties)" and "\<forall>e \<in> set properties. (location, fst e) \<notin> fst ` set ps"
  shows "\<exists>ps'. fold_res (add_parameter location required root) ps properties = Inr ps' \<and>
    fst ` set ps' = fst ` set ps \<union> Pair location ` fst ` set properties \<and>
    parameter_schemas ps' = parameter_schemas ps \<union>
      (\<lambda>e. with_definitions (bt_get root ''$defs'') (snd e)) ` set properties"
  using assms
proof (induction properties arbitrary: ps)
  case (Cons e es)
  obtain ps1 where ps1: "add_parameter location required root ps e = Inr ps1"
    "fst ` set ps1 = insert (location, fst e) (fst ` set ps)"
    "parameter_schemas ps1 = insert (with_definitions (bt_get root ''$defs'') (snd e)) (parameter_schemas ps)"
    using add_parameter_ok [of location e ps required root] Cons.prems by auto
  have "fst x \<noteq> fst e" if "x \<in> set es" for x using Cons.prems(1) that by (metis distinct.simps(2) image_eqI list.set_map list.simps(9))
  then have "\<forall>x \<in> set es. (location, fst x) \<notin> fst ` set ps1" unfolding ps1(2) using Cons.prems(2) by simp
  from Cons.IH [OF _ this] Cons.prems(1) obtain ps' where
    "fold_res (add_parameter location required root) ps1 es = Inr ps'"
    "fst ` set ps' = fst ` set ps1 \<union> Pair location ` fst ` set es"
    "parameter_schemas ps' = parameter_schemas ps1 \<union>
      (\<lambda>e. with_definitions (bt_get root ''$defs'') (snd e)) ` set es" by auto
  with ps1 show ?case by auto
qed simp

lemma add_parameters_ok:
  assumes "parameter_schema schema" and "\<forall>k \<in> fst ` set (cb_parameters b). fst k \<noteq> location"
  shows "\<exists>ps. add_parameters schema location required b = Inr (b\<lparr>cb_parameters := ps\<rparr>) \<and>
    (\<forall>k \<in> fst ` set ps. k \<in> fst ` set (cb_parameters b) \<or> fst k = location) \<and>
    parameter_schemas ps = parameter_schemas (cb_parameters b) \<union> set (property_schemas schema)"
proof -
  from assms(1) obtain root properties where r: "schema = JObject root" "get_object root ''properties'' = Some properties"
    "properties \<noteq> []" "distinct (map fst properties)" by (auto simp: parameter_schema_def)
  have "\<forall>e \<in> set properties. (location, fst e) \<notin> fst ` set (cb_parameters b)" using assms(2) by (metis fst_conv)
  from fold_parameters_ok [OF r(4) this, of required root] obtain ps where
    ps: "fold_res (add_parameter location required root) (cb_parameters b) properties = Inr ps"
    "fst ` set ps = fst ` set (cb_parameters b) \<union> Pair location ` fst ` set properties"
    "parameter_schemas ps = parameter_schemas (cb_parameters b) \<union>
      (\<lambda>e. with_definitions (bt_get root ''$defs'') (snd e)) ` set properties" by (elim exE conjE) (rule that)
  have "add_parameters schema location required b = Inr (b\<lparr>cb_parameters := ps\<rparr>)"
    using r(3) by (simp add: add_parameters_def r(1,2) ps(1) json_access_constr)
  moreover have "\<forall>k \<in> fst ` set ps. k \<in> fst ` set (cb_parameters b) \<or> fst k = location" unfolding ps(2) by auto
  moreover have "parameter_schemas ps = parameter_schemas (cb_parameters b) \<union> set (property_schemas schema)"
    unfolding ps(3) using r by (simp add: property_schemas_def)
  ultimately show ?thesis by blast
qed

definition problem_ok :: "ContractProblem \<Rightarrow> bool" where
  "problem_ok p \<longleftrightarrow> 400 \<le> cp_status p \<and> cp_status p \<le> 599 \<and> trim (cp_code p) \<noteq> []"

lemma known_problems_ok:
  assumes "buildable b" and "\<forall>p \<in> set ps. problem_ok p"
  shows "\<exists>problems. fold_res (\<lambda>c problem. known_problem (cp_status problem) (cp_code problem) c) b ps =
      Inr (b\<lparr>cb_problems := problems\<rparr>) \<and> buildable (b\<lparr>cb_problems := problems\<rparr>)"
  using assms
proof (induction ps arbitrary: b)
  case Nil
  have "b\<lparr>cb_problems := cb_problems b\<rparr> = b" by simp
  then show ?case using Nil.prems(1) by (metis fold_res.simps(1))
next
  case (Cons p ps)
  define problems where "problems = bt_insert (cp_status p)
    (bt_insert (cp_code p) () (case bt_get (cb_problems b) (cp_status p) of None \<Rightarrow> [] | Some cs \<Rightarrow> cs)) (cb_problems b)"
  have step: "known_problem (cp_status p) (cp_code p) b = Inr (b\<lparr>cb_problems := problems\<rparr>)"
    using Cons.prems by (simp add: known_problem_def problem_ok_def problems_def)
  have "buildable (b\<lparr>cb_problems := problems\<rparr>)" by (rule built_known_problem [OF Cons.prems(1) step])
  from Cons.IH [OF this] Cons.prems(2) obtain problems' where "fold_res (\<lambda>c problem. known_problem (cp_status problem) (cp_code problem) c) (b\<lparr>cb_problems := problems\<rparr>) ps =
      Inr (b\<lparr>cb_problems := problems\<rparr>\<lparr>cb_problems := problems'\<rparr>)"
    "buildable (b\<lparr>cb_problems := problems\<rparr>\<lparr>cb_problems := problems'\<rparr>)" by auto
  with step show ?case by auto
qed

lemma generated_problems_ok:
  "problem_ok (generated_problem 400 ''invalid_path_parameters'')" "problem_ok (generated_problem 400 ''invalid_query'')"
  "problem_ok (generated_problem 400 ''invalid_json_body'')" "problem_ok (generated_problem 415 ''json_content_type_required'')"
  by (simp_all add: problem_ok_def generated_problem_def trim_graphic graphic_def byte_def)

lemma derived_contract_ok:
  assumes "derive_endpoint_contract J m metadata = Inr c"
  shows "(\<forall>p \<in> set (ec_problems c). problem_ok p) \<and> 200 \<le> ec_success_status c \<and> ec_success_status c \<le> 299"
proof -
  from assms obtain shape error success success' where shape: "derive_strict_request_shape m = Inr shape"
    and succ: "strict_success_type J success (ocm_success metadata) = Inr (success', ec_success_status c)"
    and ext: "extend_problem_contract J error metadata (rcs_problems shape) = Inr (ec_problems c)"
    by (auto simp: derive_endpoint_contract_def result_simps)
  have "\<forall>p \<in> set (rcs_problems shape). problem_ok p"
    by (rule fold_res_invariant [OF shape [unfolded derive_strict_request_shape_def], where P = "\<lambda>s. \<forall>p \<in> set (rcs_problems s). problem_ok p"])
      (auto simp: shape_argument_def shape_json_body_def add_json_extractor_problems_def Let_def result_simps generated_problems_ok
        split: FnArg.splits if_splits)
  moreover have "\<forall>p \<in> set ps'. problem_ok p" if "fold_res (declare_problem J) ps es = Inr ps'" "\<forall>p \<in> set ps. problem_ok p" for ps es ps'
    by (rule fold_res_invariant [OF that(1), where P = "\<lambda>qs. \<forall>p \<in> set qs. problem_ok p"])
      (use that(2) in \<open>auto simp: declare_problem_def parse_problem_status_def problem_ok_def result_simps split: if_splits\<close>)
  ultimately have "\<forall>p \<in> set (ec_problems c). problem_ok p"
    using ext by (auto simp: extend_problem_contract_def split: if_splits)
  moreover have "200 \<le> ec_success_status c \<and> ec_success_status c \<le> 299"
    using succ by (auto simp: strict_success_type_def parse_success_status_def result_simps
        split: if_splits ty.splits list.splits option.splits)
  ultimately show ?thesis by blast
qed

text \<open>The builder after the steps a factory takes.\<close>

lemma optional_step_buildable:
  assumes "buildable b"
  shows "(case path of None \<Rightarrow> Inr b | Some t \<Rightarrow> contract_path (S t) b) = Inr b' \<Longrightarrow> buildable b'"
    and "(case path of None \<Rightarrow> Inr b | Some t \<Rightarrow> contract_query (S t) b) = Inr b' \<Longrightarrow> buildable b'"
    and "(case body of None \<Rightarrow> Inr b
      | Some x \<Rightarrow> (if cbd_required x then json_body (S (cbd_ty x)) b else optional_json_body (S (cbd_ty x)) b)) = Inr b' \<Longrightarrow>
      buildable b'"
  using assms
  by (auto split: option.splits if_splits
      intro: built_path built_query built_json_body built_optional_json_body)

lemma parameter_steps:
  fixes S :: "ty \<Rightarrow> json"
  assumes path: "\<And>t. path = Some t \<Longrightarrow> parameter_schema (S t)" and query: "\<And>t. query = Some t \<Longrightarrow> parameter_schema (S t)"
    and b: "buildable b" "cb_parameters b = []"
  obtains b1 ps where "(case path of None \<Rightarrow> Inr b | Some t \<Rightarrow> contract_path (S t) b) = Inr b1"
    and "(case query of None \<Rightarrow> Inr b1 | Some t \<Rightarrow> contract_query (S t) b1) = Inr (b\<lparr>cb_parameters := ps\<rparr>)"
    and "parameter_schemas ps = (case path of None \<Rightarrow> {} | Some t \<Rightarrow> set (property_schemas (S t))) \<union>
      (case query of None \<Rightarrow> {} | Some t \<Rightarrow> set (property_schemas (S t)))"
    and "buildable (b\<lparr>cb_parameters := ps\<rparr>)"
proof -
  have "\<exists>ps. (case path of None \<Rightarrow> Inr b | Some t \<Rightarrow> contract_path (S t) b) = Inr (b\<lparr>cb_parameters := ps\<rparr>) \<and>
      (\<forall>k \<in> fst ` set ps. fst k = ''path'') \<and>
      parameter_schemas ps = (case path of None \<Rightarrow> {} | Some t \<Rightarrow> set (property_schemas (S t)))"
    using path add_parameters_ok [of _ b "''path''" True] b(2)
    by (cases path) (force simp: contract_path_def)+
  then obtain ps where p: "(case path of None \<Rightarrow> Inr b | Some t \<Rightarrow> contract_path (S t) b) = Inr (b\<lparr>cb_parameters := ps\<rparr>)"
    "\<forall>k \<in> fst ` set ps. fst k = ''path''"
    "parameter_schemas ps = (case path of None \<Rightarrow> {} | Some t \<Rightarrow> set (property_schemas (S t)))"
    by (elim exE conjE) (rule that)
  let ?b1 = "b\<lparr>cb_parameters := ps\<rparr>"
  have built1: "buildable ?b1" by (rule optional_step_buildable(1) [OF b(1) p(1)])
  have "\<exists>qs. (case query of None \<Rightarrow> Inr ?b1 | Some t \<Rightarrow> contract_query (S t) ?b1) = Inr (b\<lparr>cb_parameters := qs\<rparr>) \<and>
      parameter_schemas qs = parameter_schemas ps \<union> (case query of None \<Rightarrow> {} | Some t \<Rightarrow> set (property_schemas (S t)))"
  proof (cases query)
    case (Some t)
    have "\<forall>k \<in> fst ` set (cb_parameters ?b1). fst k \<noteq> ''query''" using p(2) by auto
    from add_parameters_ok [OF query [OF Some] this, of False] Some show ?thesis by (auto simp: contract_query_def)
  qed auto
  then obtain qs where q: "(case query of None \<Rightarrow> Inr ?b1 | Some t \<Rightarrow> contract_query (S t) ?b1) = Inr (b\<lparr>cb_parameters := qs\<rparr>)"
    "parameter_schemas qs = parameter_schemas ps \<union> (case query of None \<Rightarrow> {} | Some t \<Rightarrow> set (property_schemas (S t)))"
    by (elim exE conjE) (rule that)
  show thesis by (rule that [OF p(1) q(1) q(2) [unfolded p(3)] optional_step_buildable(2) [OF built1 q(1)]])
qed

lemma factory_builder:
  assumes problems: "\<forall>p \<in> set (ec_problems c). problem_ok p"
    and status: "200 \<le> ec_success_status c" "ec_success_status c \<le> 299"
    and path: "\<And>t. ec_path c = Some t \<Longrightarrow> parameter_schema (S t)"
    and query: "\<And>t. ec_query c = Some t \<Longrightarrow> parameter_schema (S t)"
  shows "\<exists>b. buildable b \<and> contract_factory S h c = contract_build b \<and>
    cb_route_id b = mr_id (mh_route h) \<and> cb_method b = mr_method (mh_route h) \<and> cb_path b = mr_path (mh_route h) \<and>
    cb_success b = Some (ec_success_status c, S (ec_success c)) \<and> set (builder_schemas b) = set (contract_schemas S c)"
proof -
  let ?r = "mh_route h"
  let ?new = "contract_new (mr_id ?r) (mr_method ?r) (mr_path ?r)"
  obtain b1 ps where p: "(case ec_path c of None \<Rightarrow> Inr ?new | Some t \<Rightarrow> contract_path (S t) ?new) = Inr b1"
    "(case ec_query c of None \<Rightarrow> Inr b1 | Some t \<Rightarrow> contract_query (S t) b1) = Inr (?new\<lparr>cb_parameters := ps\<rparr>)"
    "parameter_schemas ps = (case ec_path c of None \<Rightarrow> {} | Some t \<Rightarrow> set (property_schemas (S t))) \<union>
      (case ec_query c of None \<Rightarrow> {} | Some t \<Rightarrow> set (property_schemas (S t)))"
    "buildable (?new\<lparr>cb_parameters := ps\<rparr>)"
    by (rule parameter_steps [where path = "ec_path c" and query = "ec_query c" and S = S and b = ?new])
      (use path query built_new in \<open>auto simp: contract_new_def\<close>)
  let ?b2 = "?new\<lparr>cb_parameters := ps\<rparr>"
  define body where "body = map_option (\<lambda>x. body_json (cbd_required x) (S (cbd_ty x))) (ec_body c)"
  let ?b3 = "?b2\<lparr>cb_request_body := body\<rparr>"
  have b3: "(case ec_body c of None \<Rightarrow> Inr ?b2
      | Some x \<Rightarrow> (if cbd_required x then json_body (S (cbd_ty x)) ?b2 else optional_json_body (S (cbd_ty x)) ?b2)) = Inr ?b3"
    by (cases "ec_body c")
      (simp_all add: body_def json_body_def optional_json_body_def set_json_body_def contract_new_def body_json_def)
  let ?b4 = "?b3\<lparr>cb_success := Some (ec_success_status c, S (ec_success c))\<rparr>"
  have b4: "success_json (S (ec_success c)) (ec_success_status c) ?b3 = Inr ?b4"
    using status by (simp add: success_json_def contract_new_def)
  have built4: "buildable ?b4" by (rule built_success_json [OF optional_step_buildable(3) [OF p(4) b3] b4])
  from known_problems_ok [OF built4 problems] obtain problems where k: "fold_res (\<lambda>c problem. known_problem (cp_status problem) (cp_code problem) c) ?b4 (ec_problems c) =
      Inr (?b4\<lparr>cb_problems := problems\<rparr>)" "buildable (?b4\<lparr>cb_problems := problems\<rparr>)"
    by (elim exE conjE) (rule that)
  have "contract_factory S h c = contract_build (?b4\<lparr>cb_problems := problems\<rparr>)"
    unfolding contract_factory_def Let_def p(1) try_in_simps p(2) b3 b4 k(1) ..
  moreover have "set (builder_schemas (?b4\<lparr>cb_problems := problems\<rparr>)) = set (contract_schemas S c)"
    using p(3) by (auto simp: builder_schemas_def contract_schemas_def body_def split: option.splits)
  ultimately show ?thesis using k(2) by (intro exI [of _ "?b4\<lparr>cb_problems := problems\<rparr>"]) (simp add: contract_new_def)
qed

lemma contract_builds:
  assumes "buildable b" and "cb_success b = Some (n, schema)"
  shows "\<exists>c operation. contract_build b = Inr c \<and> json_get c ''operation'' = Some (JObject operation)"
proof -
  have inv: "builder_inv b" using assms(1) by (rule built_inv)
  have n: "n \<le> 299" using inv assms(2) by (auto simp: builder_inv_def)
  have "is_ok (fold_res (add_problem_response n) rs (cb_problems b))" for rs
    by (rule fold_res_all_ok) (use inv n in \<open>auto simp: builder_inv_def add_problem_response_def split: prod.splits\<close>)
  then obtain responses where r: "fold_res (add_problem_response n)
      (bt_insert (decimal n) (contract_response ''Successful response.'' ''application/json'' schema) []) (cb_problems b) = Inr responses"
    unfolding is_ok_iff by blast
  have "contract_build b = Inr (json_lit [(''route_id'', JString (cb_route_id b)), (''method'', JString (cb_method b)),
      (''path'', JString (cb_path b)), (''operation'', JObject (built_operation b responses))])"
    unfolding contract_build_def assms(2) ok_or_simps try_in_simps prod.case Let_def r built_operation_def ..
  moreover have "json_get (json_lit [(''route_id'', JString (cb_route_id b)), (''method'', JString (cb_method b)),
      (''path'', JString (cb_path b)), (''operation'', JObject operation)]) ''operation'' = Some (JObject operation)" for operation
    by (simp add: json_get_def json_lit_def less_list_code)
  ultimately show ?thesis by blast
qed

text \<open>C13. From a handler's signature to an accepted contract: when the macro accepts a strict handler and
  the types of its path and query parameters have named properties, the generated factory always
  builds, and the plugin accepts what it builds against the operation it describes exactly when the
  schemas of the handler's types can be normalized.\<close>

theorem derived_contract_accepted:
  assumes "derive_endpoint_contract J m metadata = Inr c"
    and "\<And>t. ec_path c = Some t \<Longrightarrow> parameter_schema (S t)" and "\<And>t. ec_query c = Some t \<Longrightarrow> parameter_schema (S t)"
  shows "\<exists>generated operation. contract_factory S h c = Inr generated \<and>
    json_get generated ''operation'' = Some (JObject operation) \<and>
    (contract_validate T config (mr_id (mh_route h)) (mr_method (mh_route h)) (mr_path (mh_route h)) operation generated = Inr () \<longleftrightarrow>
     (\<forall>schema \<in> set (contract_schemas S c). is_ok (canonical_schema T config schema (mr_id (mh_route h)))))"
proof -
  note ok = derived_contract_ok [OF assms(1)]
  obtain b where b: "buildable b" "contract_factory S h c = contract_build b"
    "cb_route_id b = mr_id (mh_route h)" "cb_method b = mr_method (mh_route h)" "cb_path b = mr_path (mh_route h)"
    "cb_success b = Some (ec_success_status c, S (ec_success c))" "set (builder_schemas b) = set (contract_schemas S c)"
    using factory_builder [where c = c and S = S and h = h, OF conjunct1 [OF ok] _ _ assms(2,3)] ok by auto
  from contract_builds [OF b(1,6)] obtain generated operation where
    g: "contract_build b = Inr generated" "json_get generated ''operation'' = Some (JObject operation)" by blast
  from builder_accepted [OF b(1) g] b g show ?thesis by auto
qed

section \<open>Every strict route calls its own factory\<close>

lemma factory_name_index:
  assumes "contract_factory_name h i = Inr name" and "contract_factory_name h' j = Inr name"
  shows "i = j"
proof -
  have suffix: "takeWhile (\<lambda>c. c \<noteq> CHR ''_'') (rev (xs @ ''_'' @ decimal k)) = rev (decimal k)" for xs k
  proof -
    have "\<forall>c \<in> set (decimal k). c \<noteq> CHR ''_''"
      using decimal_digits [of k] by (auto simp: list_all_iff is_ascii_digit_def byte_def)
    then show ?thesis by (simp add: takeWhile_append takeWhile_eq_all_conv)
  qed
  have "name = (''__lenso_openapi_contract_'' @ mh_method h) @ ''_'' @ decimal i"
    "name = (''__lenso_openapi_contract_'' @ mh_method h') @ ''_'' @ decimal j"
    using assms by (auto simp: contract_factory_name_def Let_def split: if_splits)
  then have "decimal i = decimal j" using suffix by (metis rev_rev_ident)
  then show ?thesis by (metis from_decimal_decimal)
qed

lemma factories_of:
  assumes "list_all2 (\<lambda>x f. (case x of (i, h, c) \<Rightarrow>
      try_in (contract_factory_name h i) (\<lambda>name. Inr (name, contract_factory S h c))) = Inr f) xs fs"
    and "distinct (map fst xs)" and "(i, h, c) \<in> set xs" and "contract_factory_name h i = Inr name"
  shows "map_of fs name = Some (contract_factory S h c)"
  using assms
proof (induction rule: list_all2_induct)
  case (Cons x xs f fs)
  obtain j h' c' where x: "x = (j, h', c')" by (cases x)
  obtain name' where f: "contract_factory_name h' j = Inr name'" "f = (name', contract_factory S h' c')"
    using Cons.hyps(1) by (auto simp: x result_simps)
  show ?case
  proof (cases "j = i")
    case True
    then have "(i, h, c) = x" using Cons.prems(1,2) x by force
    with f Cons.prems(3) x show ?thesis by simp
  next
    case False
    then have "name' \<noteq> name" using factory_name_index f(1) Cons.prems(3) by blast
    moreover have "(i, h, c) \<in> set xs" using Cons.prems(2) False x by simp
    ultimately show ?thesis using Cons f(2) by simp
  qed
qed simp

lemma map_filter_mem: "x \<in> set xs \<Longrightarrow> f x = Some y \<Longrightarrow> y \<in> set (List.map_filter f xs)"
  by (induction xs) (auto simp: map_filter_simps split: option.splits)

lemma distinct_filtered:
  "distinct (map fst (List.map_filter (\<lambda>(i, h). map_option (\<lambda>c. (i, h, c)) (g h)) (List.enumerate n hs)))"
proof (induction hs arbitrary: n)
  case (Cons h hs)
  have "n \<notin> fst ` set (List.map_filter (\<lambda>(i, h). map_option (\<lambda>c. (i, h, c)) (g h)) (List.enumerate (Suc n) hs))"
    by (auto simp: map_filter_def in_set_enumerate_eq)
  with Cons show ?case by (auto simp: map_filter_simps split: option.splits)
qed (simp add: map_filter_simps)

lemma table_routes:
  assumes "endpoint_contract_impl S hs = Inr fs" and "traverse (endpoint_route fs) (List.enumerate 0 hs) = Inr table"
  shows "table = map (handler_route S) hs"
proof -
  let ?xs = "List.map_filter (\<lambda>(i, h). map_option (\<lambda>c. (i, h, c)) (mh_contract h)) (List.enumerate 0 hs)"
  have own: "map_of fs name = Some (contract_factory S (hs ! i) c)"
    if "i < length hs" "mh_contract (hs ! i) = Some c" "contract_factory_name (hs ! i) i = Inr name" for i c name
  proof (rule factories_of [where xs = ?xs])
    show "(i, hs ! i, c) \<in> set ?xs"
      by (rule map_filter_mem [of "(i, hs ! i)"]) (use that(1,2) in \<open>simp_all add: in_set_enumerate_eq\<close>)
  qed (use assms(1) that(3) distinct_filtered in \<open>auto simp: endpoint_contract_impl_def traverse_Inr_iff\<close>)
  have route: "endpoint_route fs (i, hs ! i) = Inr r \<Longrightarrow> r = handler_route S (hs ! i)" if "i < length hs" for i r
    using own [OF that]
    by (auto simp: endpoint_route_def handler_route_def Let_def route_new_def with_openapi_def with_openapi_contract_def
        result_simps split: option.splits)
  have "list_all2 (\<lambda>e r. endpoint_route fs e = Inr r) (List.enumerate 0 hs) table" using assms(2) by (simp add: result_simps)
  then show ?thesis using route by (auto simp: list_all2_conv_all_nth nth_enumerate_eq intro!: nth_equalityI)
qed

lemma sample_parameters: "parameter_schema (sample_schema t)"
  by (simp add: parameter_schema_def sample_schema_def get_object_def)

theorem strict_contract_documents_rejections_witness:
  "\<forall>request. rejection_documented list_http (\<lambda>_. Inr []) (\<lambda>_. None) (ec_problems (the (mh_contract sample_handler)))
     (extract_query list_http (\<lambda>_. Inr []) (\<lambda>_. None) (\<lambda>_. None :: unit option) request)"
  using strict_contract_documents_rejections [OF sample_derived, of "generic_ty ''QueryParams'' [plain_ty ''ReadQuery'']",
      where L = list_http and to_vec = "\<lambda>_. Inr []" and reason = "\<lambda>_. None" and from_query = "\<lambda>_. None :: unit option"]
  by (simp add: sample_method_def final_type_ident_def last_of_def)

theorem derived_contract_accepted_witness:
  "\<exists>generated. contract_factory sample_schema sample_handler (the (mh_contract sample_handler)) = Inr generated"
  using derived_contract_accepted [OF sample_derived, of sample_schema sample_handler] sample_parameters by blast

end
