(* ===== verification/MacroServing.thy ===== *)
theory MacroServing
  imports MacroContract
begin

text \<open>
  The attribute macro behind the ingress: what an expansion declares, that it can be described and
  started, that a matched request reaches the arm of its handler, and in which order an arm runs
  middleware, extraction and handler.
\<close>

section \<open>What an expansion declares\<close>

lemma fold_fuel_invariant:
  assumes "fold_fuel f b xs = Some (Inr b')" and "P b"
    and "\<And>b x b'. x \<in> set xs \<Longrightarrow> P b \<Longrightarrow> f b x = Some (Inr b') \<Longrightarrow> P b'"
  shows "P b'"
  using assms by (induction xs arbitrary: b) (auto simp: try_fuel_Inr_iff)

text \<open>A handler and the method, attributes and provider middleware it comes from.\<close>

definition expanded_from ::
  "'s syn_lib \<Rightarrow> macro_lib \<Rightarrow> nat \<Rightarrow> 's ItemImpl \<Rightarrow> MacroHandler \<Rightarrow> 's ImplItemFn \<Rightarrow> HandlerMetadata \<Rightarrow> string list \<Rightarrow> bool" where
  "expanded_from Y J n implementation h m metadata provider_middlewares \<longleftrightarrow>
     ImplFn m \<in> set (ii_items implementation) \<and>
     (\<exists>attrs. take_provider_middlewares Y n (ii_attrs implementation) = Some (Inr (provider_middlewares, attrs))) \<and>
     (\<exists>retained. take_handler_metadata Y J n (mf_attrs m) = Some (Inr (metadata, retained))) \<and>
     expand_method J provider_middlewares m metadata = Inr (Some h)"

lemma expanded:
  assumes "expand_endpoint_with_registration Y J S n implementation register = Some (Inr X)"
  shows "ex_routes X = map (handler_route S) (ex_handlers X)" and "validate_endpoint_routes (ex_routes X) = Inr ()"
    and "h \<in> set (ex_handlers X) \<Longrightarrow> \<exists>m metadata ms. expanded_from Y J n implementation h m metadata ms"
proof -
  from assms obtain ms attrs hs items fs table where
    provider: "take_provider_middlewares Y n (ii_attrs implementation) = Some (Inr (ms, attrs))"
    and fold: "fold_fuel (expand_item Y J n ms) ([], []) (ii_items implementation) = Some (Inr (hs, items))"
    and fs: "endpoint_contract_impl S hs = Inr fs" and table: "traverse (endpoint_route fs) (List.enumerate 0 hs) = Inr table"
    and valid: "validate_endpoint_routes table = Inr ()" and X: "ex_handlers X = hs" "ex_routes X = table"
    unfolding expand_endpoint_with_registration_def
    by (auto simp: try_fuel_Inr_iff split: if_splits)
  show "ex_routes X = map (handler_route S) (ex_handlers X)" using table_routes [OF fs table] X by simp
  show "validate_endpoint_routes (ex_routes X) = Inr ()" using valid X by simp
  have "\<forall>h \<in> set (fst (hs, items)). \<exists>m metadata ms. expanded_from Y J n implementation h m metadata ms"
  proof (rule fold_fuel_invariant [OF fold])
    fix st item st' assume item: "item \<in> set (ii_items implementation)"
      and old: "\<forall>h \<in> set (fst st). \<exists>m metadata ms. expanded_from Y J n implementation h m metadata ms"
      and step: "expand_item Y J n ms st item = Some (Inr st')"
    show "\<forall>h \<in> set (fst st'). \<exists>m metadata ms. expanded_from Y J n implementation h m metadata ms"
    proof
      fix h assume h: "h \<in> set (fst st')"
      show "\<exists>m metadata ms. expanded_from Y J n implementation h m metadata ms"
      proof (cases "h \<in> set (fst st)")
        case False
        with h step obtain m metadata retained where "item = ImplFn m"
          "take_handler_metadata Y J n (mf_attrs m) = Some (Inr (metadata, retained))"
          "expand_method J ms m metadata = Inr (Some h)"
          by (auto simp: expand_item_def try_fuel_Inr_iff split: prod.splits ImplItem.splits option.splits)
        then show ?thesis unfolding expanded_from_def using item provider by blast
      qed (use old in blast)
    qed
  qed simp
  then show "h \<in> set (ex_handlers X) \<Longrightarrow> \<exists>m metadata ms. expanded_from Y J n implementation h m metadata ms"
    using X by simp
qed

text \<open>What \<open>serde_json\<close> promises: the text of an object reads back as it.\<close>

definition serde_roundtrip :: "macro_lib \<Rightarrow> bool" where
  "serde_roundtrip J \<longleftrightarrow> (\<forall>m text. ml_to_string J m = Inr text \<longrightarrow> ml_from_str J text = Inr (JObject m))"

text \<open>\<open>from_str\<close> at the type of an object, as the description reads it.\<close>

definition object_from_str :: "macro_lib \<Rightarrow> string \<Rightarrow> json_object option" where
  "object_from_str J s = (case ml_from_str J s of Inr (JObject m) \<Rightarrow> Some m | _ \<Rightarrow> None)"

definition unreserved :: "json_object \<Rightarrow> bool" where
  "unreserved m \<longleftrightarrow> bt_get m ''operationId'' = None \<and> bt_get m ''x-lenso-contract'' = None"

lemma literal_reads:
  assumes "serde_roundtrip J" and "into_literal (ml_to_string J) (ml_from_str J) operation = Inr text"
  shows "\<exists>m. object_from_str J text = Some m \<and> unreserved m"
proof (cases operation)
  case (OperationJson t)
  then obtain j m where "t = text" "ml_from_str J text = Inr j" "as_object j = Some m" "unreserved m"
    using assms(2)
    by (auto simp: into_literal_def validate_openapi_operation_def reject_reserved_openapi_keys_def unreserved_def result_simps
        split: if_splits)
  then show ?thesis by (cases j) (simp_all add: object_from_str_def)
next
  case (OperationObject m)
  then have "ml_to_string J m = Inr text" "unreserved m"
    using assms(2)
    by (auto simp: into_literal_def operation_literal_def reject_reserved_openapi_keys_def unreserved_def result_simps
        split: if_splits)
  then show ?thesis using assms(1) by (simp add: serde_roundtrip_def object_from_str_def)
qed

lemma metadata_operation:
  assumes "serde_roundtrip J" and "take_handler_metadata Y J n attributes = Some (Inr (metadata, retained))"
    and "hm_openapi metadata = Some text"
  shows "\<exists>m. object_from_str J text = Some m \<and> unreserved m"
proof -
  have "\<forall>text. hm_openapi (fst (metadata, retained)) = Some text \<longrightarrow> (\<exists>m. object_from_str J text = Some m \<and> unreserved m)"
    by (rule fold_fuel_invariant [OF assms(2) [unfolded take_handler_metadata_def]])
      (auto simp: take_attribute_def try_fuel_Inr_iff split: prod.splits if_splits option.splits dest!: literal_reads [OF assms(1)])
  with assms(3) show ?thesis by simp
qed

section \<open>An expanded endpoint is described and served\<close>

text \<open>The types strict parameters come from have named properties.\<close>

definition strict_types :: "(ty \<Rightarrow> json) \<Rightarrow> MacroHandler \<Rightarrow> bool" where
  "strict_types S h \<longleftrightarrow>
     (\<forall>c t. mh_contract h = Some c \<longrightarrow> ec_path c = Some t \<or> ec_query c = Some t \<longrightarrow> parameter_schema (S t))"

lemma expanded_contract:
  assumes "expanded_from Y J n implementation h m metadata ms" and "strict_types S h" and "mh_contract h = Some c"
  shows "\<exists>generated. contract_factory S h c = Inr generated"
proof -
  from assms(1,3) obtain md where d: "derive_endpoint_contract J m md = Inr c"
    by (auto simp: expanded_from_def expand_method_def result_simps split: option.splits if_splits)
  note ok = derived_contract_ok [OF d]
  obtain b where b: "buildable b" "contract_factory S h c = contract_build b"
    "cb_success b = Some (ec_success_status c, S (ec_success c))"
    using factory_builder [where c = c and S = S and h = h, OF conjunct1 [OF ok]] ok assms(2,3) by (auto simp: strict_types_def)
  from contract_builds [OF b(1,3)] b(2) show ?thesis by auto
qed

lemma expanded_described:
  assumes "serde_roundtrip J" and "expanded_from Y J n implementation h m metadata ms" and "strict_types S h"
  shows "\<exists>item. into_description (object_from_str J) (handler_route S h) = Inr item"
proof -
  let ?opened = "case er_openapi (handler_route S h) of None \<Rightarrow> Inr None
     | Some s \<Rightarrow> try_in (ok_or (object_from_str J s) InvalidConfiguration) (\<lambda>m. Inr (Some m))"
  have openapi: "mr_openapi (mh_route h) = hm_openapi metadata"
    using assms(2) by (auto simp: expanded_from_def expand_method_def result_simps split: option.splits if_splits)
  obtain retained where md: "take_handler_metadata Y J n (mf_attrs m) = Some (Inr (metadata, retained))"
    using assms(2) by (auto simp: expanded_from_def)
  have "\<exists>opened. ?opened = Inr opened \<and> (\<forall>op. opened = Some op \<longrightarrow> unreserved op)"
    using metadata_operation [OF assms(1) md] openapi
    by (cases "hm_openapi metadata") (auto simp: handler_route_def)
  then obtain opened where opened: "?opened = Inr opened" "\<forall>op. opened = Some op \<longrightarrow> unreserved op" by blast
  show ?thesis
  proof (cases "mh_contract h")
    case None
    with opened(1) show ?thesis by (simp add: into_description_def handler_route_def)
  next
    case (Some c)
    from expanded_contract [OF assms(2,3) Some] obtain generated where "contract_factory S h c = Inr generated" by blast
    with Some opened show ?thesis
      by (cases opened) (auto simp: into_description_def handler_route_def Let_def unreserved_def OPENAPI_CONTRACT_EXTENSION_def)
  qed
qed

text \<open>The result of an arm as the client of the endpoint sees it; an arm that cannot go on panics.\<close>

definition arm_handler :: "('ctx, 'v) provider \<Rightarrow> MacroHandler \<Rightarrow> 'ctx handler" where
  "arm_handler P h ctx request =
     (case dispatch_arm P h ctx request of
        None \<Rightarrow> Inl (RuntimeError (Internal ''panic''))
      | Some (Inl failure) \<Rightarrow> Inl (RuntimeError failure)
      | Some (Inr (Inl error)) \<Rightarrow> Inl (Domain error)
      | Some (Inr (Inr response)) \<Rightarrow> Inr response)"

text \<open>The client the ingress holds for an endpoint the macro generated.\<close>

definition macro_client :: "macro_lib \<Rightarrow> 'ctx \<Rightarrow> ('ctx, 'v) provider \<Rightarrow> 's Expansion \<Rightarrow> EndpointClient" where
  "macro_client J ctx P X =
     \<lparr>ep_describe = map_err Domain (endpoint_describe (object_from_str J) (ex_routes X)),
      ep_handle = (\<lambda>cancelled request.
        case macro_dispatch P (ex_handlers X) ctx request of
          None \<Rightarrow> Inl (RuntimeError (Internal ''panic''))
        | Some r \<Rightarrow> try_in (map_err RuntimeError r) (map_err Domain))\<rparr>"

definition macro_arms :: "(ty \<Rightarrow> json) \<Rightarrow> ('ctx, 'v) provider \<Rightarrow> 's Expansion \<Rightarrow> 'ctx arms" where
  "macro_arms S P X = map (\<lambda>h. (handler_route S h, arm_handler P h)) (ex_handlers X)"

lemma find_map: "find p (map f xs) = map_option f (find (p \<circ> f) xs)"
  by (induction xs) simp_all

text \<open>The code of the attribute macro behaves as the code \<open>http_endpoint!\<close> writes for the same arms.\<close>

lemma macro_client_authored:
  assumes "ex_routes X = map (handler_route S) (ex_handlers X)"
  shows "macro_client J ctx P X = authored_client (object_from_str J) ctx (macro_arms S P X)"
proof -
  have routes: "ex_routes X = map fst (macro_arms S P X)" using assms by (simp add: macro_arms_def)
  have "(case macro_dispatch P (ex_handlers X) ctx request of
          None \<Rightarrow> Inl (RuntimeError (Internal ''panic''))
        | Some r \<Rightarrow> try_in (map_err RuntimeError r) (map_err Domain)) =
      try_in (map_err RuntimeError (endpoint_dispatch (macro_arms S P X) ctx request)) (map_err Domain)" for request
    by (auto simp: macro_dispatch_def endpoint_dispatch_def macro_arms_def find_map comp_def handler_route_def arm_handler_def
        split: option.splits sum.splits)
  then show ?thesis unfolding macro_client_def authored_client_def routes by simp
qed

lemma macro_startable:
  assumes "serde_roundtrip J" and "expand_endpoint_with_registration Y J S n implementation register = Some (Inr X)"
    and "list_all (strict_types S) (ex_handlers X)" and "list_all (\<lambda>h. list_all visible_ascii (mr_id (mh_route h))) (ex_handlers X)"
  shows "startable (object_from_str J) (macro_arms S P X)"
proof -
  note X = expanded [OF assms(2)]
  have routes: "map fst (macro_arms S P X) = ex_routes X" by (simp add: macro_arms_def X(1))
  have "\<exists>ds. traverse (into_description (object_from_str J)) (ex_routes X) = Inr ds"
    by (rule traverse_total) (use X(1,3) expanded_described [OF assms(1)] assms(3) in \<open>fastforce simp: list_all_iff\<close>)
  then have "is_ok (endpoint_describe (object_from_str J) (map fst (macro_arms S P X)))"
    unfolding routes by (auto simp: endpoint_describe_def)
  moreover have "list_all (\<lambda>(r, _). list_all visible_ascii (er_route_id r)) (macro_arms S P X)"
    using assms(4) by (simp add: macro_arms_def handler_route_def list_all_iff)
  ultimately show ?thesis using X(2) by (simp add: startable_def routes)
qed

lemma macro_clients:
  assumes "\<forall>(X, P) \<in> set eps. \<exists>implementation register. expand_endpoint_with_registration Y J S n implementation register = Some (Inr X)"
  shows "map (\<lambda>(X, P). macro_client J ctx P X) eps =
    map (authored_client (object_from_str J) ctx) (map (\<lambda>(X, P). macro_arms S P X) eps)"
  using assms expanded(1) macro_client_authored by fastforce


section \<open>A handler runs last\<close>

text \<open>\<open>MiddlewareOutcome\<close> has private fields: middleware returns one of its two constructors.\<close>

definition outcomes_built :: "('ctx, 'v) provider \<Rightarrow> bool" where
  "outcomes_built P \<longleftrightarrow>
     (\<forall>name ctx request outcome. pv_middleware P name ctx request = Inr outcome \<longrightarrow>
        (\<exists>ctx' request'. outcome = outcome_next ctx' request') \<or> (\<exists>response. outcome = outcome_response response))"

text \<open>Every middleware of a list lets the request through, each given what the one before passed on.\<close>

inductive passes :: "('ctx, 'v) provider \<Rightarrow> string list \<Rightarrow> 'ctx \<Rightarrow> HandleRequest \<Rightarrow> 'ctx \<Rightarrow> HandleRequest \<Rightarrow> bool"
  for P where
  passes_all: "passes P [] ctx request ctx request"
| passes_next: "pv_middleware P name ctx request = Inr (outcome_next ctx1 request1) \<Longrightarrow>
    passes P names ctx1 request1 ctx' request' \<Longrightarrow> passes P (name # names) ctx request ctx' request'"

text \<open>Every extractor yields a value, in the order of the arguments, the context passed along.\<close>

inductive extracts :: "('ctx, 'v) provider \<Rightarrow> HandleRequest \<Rightarrow> HandlerArgument list \<Rightarrow> 'ctx \<Rightarrow> 'ctx \<Rightarrow> 'v option list \<Rightarrow> bool"
  for P request where
  extracts_all: "extracts P request [] ctx ctx []"
| extracts_value: "ha_kind a = ArgExtractor binding \<Longrightarrow> pv_from_request P (ha_ty a) ctx request = (Inr v, ctx1) \<Longrightarrow>
    extracts P request as ctx1 ctx' vs \<Longrightarrow> extracts P request (a # as) ctx ctx' (Some v # vs)"
| extracts_other: "ha_kind a \<in> {ArgContext, ArgRequest} \<Longrightarrow> extracts P request as ctx ctx' vs \<Longrightarrow>
    extracts P request (a # as) ctx ctx' (None # vs)"

definition passed_value :: "'ctx \<Rightarrow> HandleRequest \<Rightarrow> HandlerArgument \<Rightarrow> 'v option \<Rightarrow> ('ctx, 'v) arg_value" where
  "passed_value ctx request a v =
     (case v of Some v \<Rightarrow> ExtractedValue v | None \<Rightarrow> if ha_kind a = ArgContext then CtxValue ctx else ReqValue request)"

fun bindings :: "HandlerArgument list \<Rightarrow> string list" where
  "bindings [] = []"
| "bindings (a # as) = (case ha_kind a of ArgExtractor b \<Rightarrow> b # bindings as | _ \<Rightarrow> bindings as)"

lemma typed_bindings:
  "distinct (bindings (typed_arguments (List.enumerate k inputs))) \<and>
     (\<forall>b \<in> set (bindings (typed_arguments (List.enumerate k inputs))). \<exists>i \<ge> k. b = ''__lenso_extracted_'' @ decimal i)"
proof (induction inputs arbitrary: k)
  case (Cons input inputs)
  have fresh: "''__lenso_extracted_'' @ decimal k \<notin> set (bindings (typed_arguments (List.enumerate (Suc k) inputs)))"
    using Cons [of "Suc k"] by (metis Suc_n_not_le_n append_same_eq from_decimal_decimal same_append_eq)
  have weaken: "\<exists>i \<ge> k. b = ''__lenso_extracted_'' @ decimal i"
    if "b \<in> set (bindings (typed_arguments (List.enumerate (Suc k) inputs)))" for b
    using Cons [of "Suc k"] that by (metis Suc_leD)
  show ?case using Cons [of "Suc k"] fresh weaken by (cases input) (auto simp: argument_kind_def)
qed simp

lemma handler_bindings: "handler_arguments m = Inr as \<Longrightarrow> distinct (bindings as)"
  using typed_bindings [of 0 "mf_inputs m"] by (auto simp: handler_arguments_def Let_def split: if_splits)

lemma middleware_steps_cases:
  assumes "outcomes_built P"
  shows "(\<exists>ctx' request'. middleware_steps P names ctx request = Some (Inr (ctx', request')) \<and>
      passes P names ctx request ctx' request') \<or>
    (\<exists>answer. middleware_steps P names ctx request = Some (Inl answer))"
proof (induction names arbitrary: ctx request)
  case Nil
  then show ?case by (auto intro: passes_all)
next
  case (Cons name names)
  show ?case
  proof (cases "pv_middleware P name ctx request")
    case (Inr outcome)
    with assms consider (go) ctx1 request1 where "outcome = outcome_next ctx1 request1"
      | (stop) response where "outcome = outcome_response response"
      unfolding outcomes_built_def by blast
    then show ?thesis
    proof cases
      case go
      with Inr have step: "middleware_step P name ctx request = Some (Inr (ctx1, request1))"
        by (simp add: middleware_step_def into_result_constructed)
      from Cons.IH [of ctx1 request1] Inr go step show ?thesis by (auto intro: passes_next)
    next
      case stop
      with Inr show ?thesis by (simp add: middleware_step_def into_result_constructed)
    qed
  qed (simp add: middleware_step_def)
qed

lemma extractor_steps_Inr:
  assumes "extractor_steps P as ctx request bound = Inr (ctx', bound')" and "distinct (bindings as)"
  shows "\<exists>vs. extracts P request as ctx ctx' vs \<and>
    map (argument_value c request bound') as = map Some (map2 (passed_value c request) as vs) \<and>
    (\<forall>b. b \<notin> set (bindings as) \<longrightarrow> map_of bound' b = map_of bound b)"
  using assms
proof (induction as arbitrary: ctx bound)
  case Nil
  then show ?case by (auto intro: extracts_all)
next
  case (Cons a as)
  show ?case
  proof (cases "\<exists>binding. ha_kind a = ArgExtractor binding")
    case True
    then obtain binding where ArgExtractor: "ha_kind a = ArgExtractor binding" by blast
    with Cons.prems(1) obtain v ctx1 where v: "pv_from_request P (ha_ty a) ctx request = (Inr v, ctx1)"
      "extractor_steps P as ctx1 request ((binding, v) # bound) = Inr (ctx', bound')"
      by (auto split: prod.splits sum.splits ExtractorRejection.splits)
    from Cons.IH [OF v(2)] Cons.prems(2) ArgExtractor obtain vs where vs: "extracts P request as ctx1 ctx' vs"
      "map (argument_value c request bound') as = map Some (map2 (passed_value c request) as vs)"
      "\<forall>b. b \<notin> set (bindings as) \<longrightarrow> map_of bound' b = map_of ((binding, v) # bound) b" by auto
    have "extracts P request (a # as) ctx ctx' (Some v # vs)" by (rule extracts_value [OF ArgExtractor v(1) vs(1)])
    moreover have "argument_value c request bound' a = Some (passed_value c request a (Some v))"
      using vs(3) Cons.prems(2) ArgExtractor by (simp add: argument_value_def passed_value_def)
    ultimately show ?thesis
      using vs(2,3) ArgExtractor by (intro exI [of _ "Some v # vs"]) auto
  next
    case False
    then have kind: "ha_kind a \<in> {ArgContext, ArgRequest}" by (cases "ha_kind a") auto
    then have "extractor_steps P as ctx request bound = Inr (ctx', bound')" "distinct (bindings as)"
      using Cons.prems by auto
    from Cons.IH [OF this] obtain vs where "extracts P request as ctx ctx' vs"
      "map (argument_value c request bound') as = map Some (map2 (passed_value c request) as vs)"
      "\<forall>b. b \<notin> set (bindings as) \<longrightarrow> map_of bound' b = map_of bound b" by blast
    moreover have "argument_value c request bound' a = Some (passed_value c request a None)"
      using kind by (auto simp: argument_value_def passed_value_def)
    ultimately show ?thesis
      using kind by (intro exI [of _ "None # vs"]) (auto intro: extracts_other)
  qed
qed

lemma those_Some: "those (map Some xs) = Some xs"
  by (induction xs) simp_all

lemma middleware_steps_cong: "pv_middleware P = pv_middleware Q \<Longrightarrow> middleware_steps P = middleware_steps Q"
proof (intro ext)
  fix names ctx request
  assume "pv_middleware P = pv_middleware Q"
  then have "middleware_step P = middleware_step Q" by (simp add: middleware_step_def fun_eq_iff)
  then show "middleware_steps P names ctx request = middleware_steps Q names ctx request"
    by (induction names arbitrary: ctx request) (auto split: option.splits sum.splits)
qed

lemma extractor_steps_cong: "pv_from_request P = pv_from_request Q \<Longrightarrow> extractor_steps P = extractor_steps Q"
proof (intro ext)
  fix as ctx request bound
  assume "pv_from_request P = pv_from_request Q"
  then show "extractor_steps P as ctx request bound = extractor_steps Q as ctx request bound"
    by (induction as arbitrary: ctx bound) (auto split: ArgumentKind.splits prod.splits sum.splits)
qed

text \<open>C12. The handler of a route runs last and only once everything before it agreed: either each
  provider middleware, then each middleware of the route in the order written, passed the request
  on and every argument was extracted in order, and the handler is called with what they
  delivered; or the answer is given before, and is the same whatever the handlers are.\<close>

theorem macro_handler_runs_last:
  fixes P :: "('ctx, 'v) provider"
  assumes "expanded_from Y J n implementation h m metadata provider_middlewares" and "outcomes_built P"
  shows "(\<exists>ctx1 request1 ctx2 vs.
      passes P (provider_middlewares @ hm_middlewares metadata) ctx request ctx1 request1 \<and>
      extracts P request1 (mh_arguments h) ctx1 ctx2 vs \<and>
      dispatch_arm P h ctx request =
        Some (into_endpoint_result (pv_call P (mf_ident m) (map2 (passed_value ctx2 request1) (mh_arguments h) vs)))) \<or>
    (\<exists>answer. \<forall>Q. pv_middleware Q = pv_middleware P \<and> pv_from_request Q = pv_from_request P \<longrightarrow>
      dispatch_arm Q h ctx request = Some answer)"
proof -
  have h: "mh_middlewares h = provider_middlewares @ hm_middlewares metadata" "mh_method h = mf_ident m"
    "distinct (bindings (mh_arguments h))"
    using assms(1)
    by (auto simp: expanded_from_def expand_method_def result_simps split: option.splits if_splits dest: handler_bindings)
  let ?early = "\<lambda>answer. \<forall>Q. pv_middleware Q = pv_middleware P \<and> pv_from_request Q = pv_from_request P \<longrightarrow>
      dispatch_arm Q h ctx request = Some answer"
  have early: "?early answer"
    if "middleware_steps P (mh_middlewares h) ctx request = Some (Inl answer) \<or>
      (\<exists>ctx1 request1. middleware_steps P (mh_middlewares h) ctx request = Some (Inr (ctx1, request1)) \<and>
        extractor_steps P (mh_arguments h) ctx1 request1 [] = Inl answer)" for answer
  proof (intro allI impI)
    fix Q :: "(_, _) provider" assume Q: "pv_middleware Q = pv_middleware P \<and> pv_from_request Q = pv_from_request P"
    have "middleware_steps Q = middleware_steps P" "extractor_steps Q = extractor_steps P"
      using middleware_steps_cong [of Q P] extractor_steps_cong [of Q P] Q by blast+
    with that show "dispatch_arm Q h ctx request = Some answer" by (auto simp: dispatch_arm_def)
  qed
  from middleware_steps_cases [OF assms(2), of "mh_middlewares h" ctx request]
  consider (go) ctx1 request1 where "middleware_steps P (mh_middlewares h) ctx request = Some (Inr (ctx1, request1))"
      "passes P (mh_middlewares h) ctx request ctx1 request1"
    | (stop) answer where "middleware_steps P (mh_middlewares h) ctx request = Some (Inl answer)" by blast
  then show ?thesis
  proof cases
    case go
    show ?thesis
    proof (cases "extractor_steps P (mh_arguments h) ctx1 request1 []")
      case (Inl answer)
      with go(1) have "?early answer" by (intro early) blast
      then show ?thesis by blast
    next
      case (Inr r)
      obtain ctx2 bound where r: "r = (ctx2, bound)" by (cases r)
      from extractor_steps_Inr [OF Inr [unfolded r] h(3), of ctx2] obtain vs where
        vs: "extracts P request1 (mh_arguments h) ctx1 ctx2 vs"
        "map (argument_value ctx2 request1 bound) (mh_arguments h) = map Some (map2 (passed_value ctx2 request1) (mh_arguments h) vs)"
        by blast
      have "dispatch_arm P h ctx request =
          Some (into_endpoint_result (pv_call P (mf_ident m) (map2 (passed_value ctx2 request1) (mh_arguments h) vs)))"
        by (simp add: dispatch_arm_def go(1) Inr r vs(2) h(2) those_Some del: map_map)
      with go(2) vs(1) show ?thesis unfolding h(1) by blast
    qed
  next
    case stop
    then have "?early answer" by (intro early) blast
    then show ?thesis by blast
  qed
qed

text \<open>C11. Routing and the generated dispatcher agree: a request the ingress matches to a route of an
  expanded endpoint is answered by the arm of the one handler with that route identifier, on the
  request the ingress built; never by the fallback arm.\<close>

theorem macro_handler_reached:
  fixes eps :: "('s Expansion \<times> ('ctx, 'v) provider) list"
  assumes "router_laws R routes_of"
    and "\<forall>(X, P) \<in> set eps. \<exists>implementation register. expand_endpoint_with_registration Y J S n implementation register = Some (Inr X)"
    and "resolve L R debug sdebug (map (\<lambda>(X, P). macro_client J ctx P X) eps) ss ws policy timeout = Inr table"
    and "map_of (rt_methods table) (ir_method request) = Some r"
    and "router_at R r (ir_path request) = Some (target, params)"
    and "tgt_provider target = ProvBuffered i"
  shows "i < length eps \<and>
    (\<exists>!h. h \<in> set (ex_handlers (fst (eps ! i))) \<and> mr_id (mh_route h) = tgt_route_id target) \<and>
    (\<forall>h \<in> set (ex_handlers (fst (eps ! i))). mr_id (mh_route h) = tgt_route_id target \<longrightarrow>
      (dispatch R table (Inr ()) cancelled request handshake :: 'p dispatched) =
        (case arm_handler (snd (eps ! i)) h ctx (handle_request_of request (tgt_route_id target) params) of
           Inr response \<Rightarrow> \<lparr>dp_outcome = Finished (Inr (DispBuffered response)), dp_observed = [], dp_stream_cancelled = False\<rparr>
         | Inl (Domain _) \<Rightarrow> dispatch_err Rejected
         | Inl (RuntimeError failure) \<Rightarrow> runtime_dispatch_error (ir_request_id request) (tgt_route_id target) i failure))"
proof -
  let ?arms = "map (\<lambda>(X, P). macro_arms S P X) eps"
  let ?hs = "ex_handlers (fst (eps ! i))"
  from arm_reached [OF assms(1) assms(3) [unfolded macro_clients [OF assms(2)]] assms(4-6),
      where cancelled = cancelled and handshake = handshake]
  obtain route handler where i': "i < length ?arms" and arm: "(route, handler) \<in> set (?arms ! i)"
    and id: "er_route_id route = tgt_route_id target"
    and d: "(dispatch R table (Inr ()) cancelled request handshake :: 'p dispatched) =
      (case handler ctx (handle_request_of request (tgt_route_id target) params) of
         Inr response \<Rightarrow> \<lparr>dp_outcome = Finished (Inr (DispBuffered response)), dp_observed = [], dp_stream_cancelled = False\<rparr>
       | Inl (Domain _) \<Rightarrow> dispatch_err Rejected
       | Inl (RuntimeError failure) \<Rightarrow> runtime_dispatch_error (ir_request_id request) (tgt_route_id target) i failure)"
    by (elim exE conjE) (rule that)
  have i: "i < length eps" using i' by simp
  have "?arms ! i = macro_arms S (snd (eps ! i)) (fst (eps ! i))" using i by (simp add: case_prod_beta)
  with arm obtain h where h: "h \<in> set ?hs" "route = handler_route S h" "handler = arm_handler (snd (eps ! i)) h"
    by (auto simp: macro_arms_def)
  have "(fst (eps ! i), snd (eps ! i)) \<in> set eps" using i by simp
  with assms(2) obtain implementation register where
    X: "expand_endpoint_with_registration Y J S n implementation register = Some (Inr (fst (eps ! i)))" by blast
  have "distinct (map er_route_id (ex_routes (fst (eps ! i))))"
    using expanded(2) [OF X] validated_ids by blast
  then have "inj_on (\<lambda>h. mr_id (mh_route h)) (set ?hs)"
    unfolding expanded(1) [OF X] by (simp add: distinct_map handler_route_def comp_def)
  with h id have unique: "h' = h" if "h' \<in> set ?hs" "mr_id (mh_route h') = tgt_route_id target" for h'
    using that by (simp add: inj_on_def handler_route_def)
  have "mr_id (mh_route h) = tgt_route_id target" using h(2) id by (simp add: handler_route_def)
  with i h(1) unique d [unfolded h(3)] show ?thesis by blast
qed

section \<open>The authored operation arrives\<close>


section \<open>The statements at the sample\<close>

lemma sample_roundtrip: "serde_roundtrip sample_lib"
  by (simp add: serde_roundtrip_def sample_lib_def)

lemma sample_expanded_from:
  "expanded_from (tok_syn (\<lambda>_. False)) sample_lib sample_fuel sample_impl sample_handler sample_method sample_metadata [''trace_all'']"
  unfolding expanded_from_def using sample_taken sample_expanded_method by (auto simp: sample_impl_def)


definition sample_provider :: "(unit, unit) provider" where
  "sample_provider =
     \<lparr>pv_middleware = (\<lambda>_ ctx request. Inr (outcome_next ctx request)), pv_from_request = (\<lambda>_ ctx _. (Inr (), ctx)),
      pv_call = (\<lambda>_ _. Inr (Inr (text_response 200 ''ok'')))\<rparr>"


lemma sample_outcomes: "outcomes_built sample_provider"
  by (auto simp: outcomes_built_def sample_provider_def)

theorem macro_handler_runs_last_witness:
  "\<forall>request.
    (\<exists>ctx1 request1 ctx2 vs. passes sample_provider [''trace_all'', ''authorize''] () request ctx1 request1 \<and>
      extracts sample_provider request1 (mh_arguments sample_handler) ctx1 ctx2 vs \<and>
      dispatch_arm sample_provider sample_handler () request = Some (into_endpoint_result
        (pv_call sample_provider ''read'' (map2 (passed_value ctx2 request1) (mh_arguments sample_handler) vs)))) \<or>
    (\<exists>answer. \<forall>Q. pv_middleware Q = pv_middleware sample_provider \<and> pv_from_request Q = pv_from_request sample_provider \<longrightarrow>
      dispatch_arm Q sample_handler () request = Some answer)"
  using macro_handler_runs_last [OF sample_expanded_from sample_outcomes]
  by (simp add: sample_metadata_def sample_method_def)

lemma sample_resolves:
  assumes "sample_expand = Some (Inr X)" and "ex_handlers X = [sample_handler]"
  shows "\<exists>table. resolve list_http list_router (\<lambda>_. ''e'') (\<lambda>_. ''e'') [macro_client sample_lib () sample_provider X] [] [] None 1000 =
      Inr table \<and> rt_methods table = [(''GET'', [(''/orders'', \<lparr>tgt_route_id = ''orders.read'', tgt_provider = ProvBuffered 0\<rparr>)])]"
proof -
  have "startable (object_from_str sample_lib) (macro_arms sample_schema sample_provider X)"
    by (rule macro_startable [OF sample_roundtrip assms(1)])
      (simp_all add: assms(2) strict_types_def sample_parameters, simp add: sample_handler_def visible_ascii_def byte_def)
  then obtain d where d: "endpoint_describe (object_from_str sample_lib) (map fst (macro_arms sample_schema sample_provider X)) = Inr d"
    by (auto simp: startable_def is_ok_iff)
  have "map (\<lambda>r. (dri_method r, dri_path r, dri_route_id r)) (dr_routes d) = [(''GET'', ''/orders'', ''orders.read'')]"
    unfolding described_routes [OF d] by (simp add: macro_arms_def assms(2)) (simp add: handler_route_def sample_handler_def)
  then have "resolve_buffered list_http list_router (\<lambda>_. ''e'') ([], []) (0, macro_client sample_lib () sample_provider X) =
      try_in (resolve_route list_http list_router ''HTTP Endpoint provider'' ProvBuffered 0 ([], []) (''GET'', ''/orders'', ''orders.read'')) Inr"
    using d by (simp add: macro_client_authored [OF expanded(1) [OF assms(1)]] resolve_buffered_def authored_client_def)
  moreover have "to_ascii_uppercase (trim ''GET'') = ''GET''" "method_from_bytes list_http ''GET''" "\<not> invalid_route ''orders.read'' ''/orders''"
    by code_simp+
  ultimately show ?thesis
    by (simp add: resolve_def resolve_route_def Let_def methods_insert_def list_router_def enumerate_eq_zip)
qed

theorem macro_handler_reached_witness:
  "\<exists>X table. sample_expand = Some (Inr X) \<and>
    resolve list_http list_router (\<lambda>_. ''e'') (\<lambda>_. ''e'') [macro_client sample_lib () sample_provider X] [] [] None 1000 = Inr table \<and>
    (dispatch list_router table (Inr ()) False (sample_normalized\<lparr>ir_method := ''GET'', ir_path := ''/orders''\<rparr>) None :: nat dispatched) =
      \<lparr>dp_outcome = Finished (Inr (DispBuffered (text_response 200 ''ok''))), dp_observed = [], dp_stream_cancelled = False\<rparr>"
proof -
  let ?q = "sample_normalized\<lparr>ir_method := ''GET'', ir_path := ''/orders''\<rparr>"
  let ?t = "\<lparr>tgt_route_id = ''orders.read'', tgt_provider = ProvBuffered 0\<rparr>"
  from sample_expands obtain X where X: "sample_expand = Some (Inr X)" "ex_handlers X = [sample_handler]" by blast
  from sample_resolves [OF X] obtain table where
    r: "resolve list_http list_router (\<lambda>_. ''e'') (\<lambda>_. ''e'') [macro_client sample_lib () sample_provider X] [] [] None 1000 = Inr table"
    and t: "rt_methods table = [(''GET'', [(''/orders'', ?t)])]" by blast
  have X': "\<forall>(X, P) \<in> set [(X, sample_provider)]. \<exists>implementation register.
      expand_endpoint_with_registration (tok_syn (\<lambda>_. False)) sample_lib sample_schema sample_fuel implementation register = Some (Inr X)"
    using X(1) by auto
  have r': "resolve list_http list_router (\<lambda>_. ''e'') (\<lambda>_. ''e'')
      (map (\<lambda>(X, P). macro_client sample_lib () P X) [(X, sample_provider)]) [] [] None 1000 = Inr table" using r by simp
  have m: "map_of (rt_methods table) (ir_method ?q) = Some [(''/orders'', ?t)]" by (simp add: t)
  have a: "router_at list_router [(''/orders'', ?t)] (ir_path ?q) = Some (?t, [])" by (simp add: list_router_def)
  have p: "tgt_provider ?t = ProvBuffered 0" by simp
  have "arm_handler sample_provider sample_handler () request = Inr (text_response 200 ''ok'')" for request
    by (simp add: arm_handler_def dispatch_arm_def sample_provider_def sample_handler_def middleware_step_def
        into_result_constructed argument_value_def into_endpoint_result_def)
  moreover have "mr_id (mh_route sample_handler) = ''orders.read''" by (simp add: sample_handler_def)
  ultimately show ?thesis
    using macro_handler_reached [OF list_router_laws X' r' m a p, where cancelled = False and handshake = None and 'p = nat] X r
    by auto
qed

end
