(* ===== verification/ServedDocument.thy ===== *)
theory ServedDocument
  imports MacroServing OpenApiAssemble
begin

text \<open>
  From the attributes of an endpoint to the document the OpenAPI plugin serves: the attribute macro
  (\<open>lenso-capability-http-endpoint-macros\<close>) generates the descriptions, the plugin (\<open>lenso-openapi-plugin\<close>)
  asks for them when it is activated, checks strict contracts against them and serves the assembled document.
\<close>

section \<open>Strict contracts are checked\<close>

text \<open>What the assembly has compared for one route: the operation without the contract, completed by
  responses, against the contract.\<close>

definition contract_checked :: "(json \<Rightarrow> string) \<Rightarrow> OpenApiConfig \<Rightarrow> DescribeResponseRoutesItem \<Rightarrow> bool" where
  "contract_checked T config route \<longleftrightarrow>
     (\<forall>m contract. dri_openapi route = Some m \<and> bt_get m OPENAPI_CONTRACT_EXTENSION = Some contract \<longrightarrow>
        (\<exists>operation. with_responses (dri_route_id route) (bt_remove OPENAPI_CONTRACT_EXTENSION m) = Inr operation \<and>
           contract_validate T config (dri_route_id route) (dri_method route) (dri_path route) operation contract = Inr ()))"

lemma assemble_route_checks:
  assumes "assemble_route T config acc route = Inr acc'"
  shows "contract_checked T config route"
  using assms unfolding contract_checked_def
  by (auto simp: assemble_route_def Let_def try_in_Inr_iff split: prod.splits if_splits)

lemma assemble_checks:
  assumes "assemble T pretty config descriptions = Inr bs"
  shows "list_all (contract_checked T config) (concat (map dr_routes descriptions))"
proof -
  have "fold_res (assemble_route T config) acc routes = Inr acc' \<Longrightarrow> list_all (contract_checked T config) routes" for acc acc' routes
    by (induction routes arbitrary: acc) (auto simp: try_in_Inr_iff dest: assemble_route_checks)
  moreover obtain acc where "fold_res (assemble_route T config) ([], {}) (concat (map dr_routes descriptions)) = Inr acc"
    using assms by (auto simp: assemble_def try_in_Inr_iff)
  ultimately show ?thesis by blast
qed

section \<open>What a handler is described by\<close>

text \<open>The operation an author gave a handler, as it is read from its literal.\<close>

definition authored_operation :: "macro_lib \<Rightarrow> MacroHandler \<Rightarrow> json_object \<Rightarrow> bool" where
  "authored_operation J h m \<longleftrightarrow>
     (case mr_openapi (mh_route h) of None \<Rightarrow> m = [] | Some literal \<Rightarrow> object_from_str J literal = Some m)"

definition handler_item :: "MacroHandler \<Rightarrow> DescribeResponseRoutesItem" where
  "handler_item h = \<lparr>dri_method = mr_method (mh_route h), dri_openapi = None, dri_path = mr_path (mh_route h), dri_route_id = mr_id (mh_route h)\<rparr>"

lemma bt_remove_insert: "bt_get m k = None \<Longrightarrow> bt_remove k (bt_insert k v m) = m"
proof (induction m)
  case (Cons e m)
  then have "fst e \<noteq> k" "bt_get m k = None" by (auto split: if_splits)
  moreover from this(2) have "filter (\<lambda>e. fst e \<noteq> k) m = m" by (auto simp: filter_id_conv map_of_eq_None_iff)
  ultimately show ?case using Cons.IH by (cases e) (auto simp: bt_remove_def)
qed (simp add: bt_remove_def)

lemma bt_get_inserted: "bt_get (bt_insert k v m) k = Some v"
  by (induction k v m rule: bt_insert.induct) auto

lemma described_handler:
  assumes "into_description (object_from_str J) (handler_route S h) = Inr item"
  shows "dri_method item = mr_method (mh_route h) \<and> dri_path item = mr_path (mh_route h) \<and> dri_route_id item = mr_id (mh_route h)"
    and "(\<And>s m. object_from_str J s = Some m \<Longrightarrow> bt_inv m) \<Longrightarrow> route_well_formed item"
    and "mh_contract h = Some c \<Longrightarrow> \<exists>m generated. authored_operation J h m \<and> contract_factory S h c = Inr generated \<and>
      bt_get m OPENAPI_CONTRACT_EXTENSION = None \<and> dri_openapi item = Some (bt_insert OPENAPI_CONTRACT_EXTENSION generated m)"
proof -
  show "dri_method item = mr_method (mh_route h) \<and> dri_path item = mr_path (mh_route h) \<and> dri_route_id item = mr_id (mh_route h)"
    using assms by (auto simp: into_description_def handler_route_def try_in_Inr_iff)
  show "route_well_formed item" if "\<And>s m. object_from_str J s = Some m \<Longrightarrow> bt_inv m"
  proof -
    have "bt_inv [(OPENAPI_CONTRACT_EXTENSION, contract)]" for contract :: json by (simp add: bt_inv_def)
    then show ?thesis
      using assms that
      by (auto simp: into_description_def handler_route_def route_well_formed_def try_in_Inr_iff Let_def ok_or_def
          intro!: bt_insert_inv split: option.splits if_splits)
  qed
  show "\<exists>m generated. authored_operation J h m \<and> contract_factory S h c = Inr generated \<and>
      bt_get m OPENAPI_CONTRACT_EXTENSION = None \<and> dri_openapi item = Some (bt_insert OPENAPI_CONTRACT_EXTENSION generated m)"
    if "mh_contract h = Some c"
    using assms that
    by (auto simp: into_description_def handler_route_def authored_operation_def try_in_Inr_iff map_err_Inr_iff Let_def ok_or_def
        split: option.splits if_splits)
qed

lemma described_handlers:
  assumes "endpoint_describe from_str (map (handler_route S) hs) = Inr d"
  shows "list_all2 (\<lambda>h item. into_description from_str (handler_route S h) = Inr item) hs (dr_routes d)"
  using assms by (auto simp: endpoint_describe_def result_simps list_all2_map1)

text \<open>The handlers of all endpoints, and the descriptions their clients return.\<close>

definition all_handlers :: "('s Expansion \<times> ('ctx, 'v) provider) list \<Rightarrow> MacroHandler list" where
  "all_handlers eps = concat (map (\<lambda>(X, P). ex_handlers X) eps)"

lemma described_endpoints:
  assumes "\<forall>(X, P) \<in> set eps. \<exists>implementation register. expand_endpoint_with_registration Y J S n implementation register = Some (Inr X)"
    and "map (\<lambda>(X, P). ep_describe (macro_client J ctx P X)) eps = map Inr descriptions"
  shows "list_all2 (\<lambda>h item. into_description (object_from_str J) (handler_route S h) = Inr item)
    (all_handlers eps) (concat (map dr_routes descriptions))"
  using assms
proof (induction eps arbitrary: descriptions)
  case (Cons e eps)
  obtain X P where e: "e = (X, P)" by (cases e)
  with Cons.prems obtain d ds where ds: "descriptions = d # ds" and d: "ep_describe (macro_client J ctx P X) = Inr d"
    and rest: "map (\<lambda>(X, P). ep_describe (macro_client J ctx P X)) eps = map Inr ds" by (cases descriptions) auto
  have "ex_routes X = map (handler_route S) (ex_handlers X)" using Cons.prems(1) e expanded(1) by fastforce
  with d have "endpoint_describe (object_from_str J) (map (handler_route S) (ex_handlers X)) = Inr d"
    by (simp add: macro_client_def map_err_Inr_iff)
  note first = described_handlers [OF this]
  from Cons.IH [OF _ rest] Cons.prems(1) have "list_all2 (\<lambda>h item. into_description (object_from_str J) (handler_route S h) = Inr item)
    (all_handlers eps) (concat (map dr_routes ds))" by simp
  with first show ?case by (simp add: all_handlers_def e ds list_all2_appendI)
qed (simp add: all_handlers_def)

lemma documented_item:
  "documented paths item \<Longrightarrow> dri_method item = dri_method item' \<Longrightarrow> dri_path item = dri_path item' \<Longrightarrow>
   dri_route_id item = dri_route_id item' \<Longrightarrow> documented paths item'"
  by (simp add: documented_def)

lemma list_all2_members:
  assumes "list_all2 R xs ys"
  shows "x \<in> set xs \<Longrightarrow> \<exists>y \<in> set ys. R x y" and "y \<in> set ys \<Longrightarrow> \<exists>x \<in> set xs. R x y"
  using assms by (induction rule: list_all2_induct) auto

lemma activated_document:
  assumes "openapi_run T pretty debug config p" and "openapi_activate T pretty debug replies p = Some (p', Inr ())"
  obtains descriptions bs where "replies = map Inr descriptions" and "assemble T pretty config descriptions = Inr bs"
    and "oap_document p' = Some bs"
  using conjunct2 [OF openapi_serves_assembled [OF assms(1), of undefined replies]] assms(2) that by auto

lemma described_ids:
  assumes "list_all2 (\<lambda>h item. into_description (object_from_str J) (handler_route S h) = Inr item) hs items"
  shows "map dri_route_id items = map (\<lambda>h. mr_id (mh_route h)) hs"
  using assms by (induction rule: list_all2_induct) (auto dest: described_handler(1))

lemma strict_handlers_agree:
  assumes "assemble T pretty config descriptions = Inr bs"
    and "list_all2 (\<lambda>h item. into_description (object_from_str J) (handler_route S h) = Inr item) hs (concat (map dr_routes descriptions))"
    and "h \<in> set hs" and "mh_contract h = Some c"
  shows "\<exists>m operation generated. authored_operation J h m \<and> contract_factory S h c = Inr generated \<and>
    with_responses (mr_id (mh_route h)) m = Inr operation \<and>
    contract_validate T config (mr_id (mh_route h)) (mr_method (mh_route h)) (mr_path (mh_route h)) operation generated = Inr ()"
proof -
  from list_all2_members(1) [OF assms(2,3)] obtain item where item: "item \<in> set (concat (map dr_routes descriptions))"
    "into_description (object_from_str J) (handler_route S h) = Inr item" by blast
  from described_handler(3) [OF item(2) assms(4)] obtain m generated where m: "authored_operation J h m" "contract_factory S h c = Inr generated"
    "bt_get m OPENAPI_CONTRACT_EXTENSION = None" "dri_openapi item = Some (bt_insert OPENAPI_CONTRACT_EXTENSION generated m)" by blast
  have stored: "bt_get (bt_insert OPENAPI_CONTRACT_EXTENSION generated m) OPENAPI_CONTRACT_EXTENSION = Some generated"
    by (rule bt_get_inserted)
  from assemble_checks [OF assms(1)] item(1) have "contract_checked T config item" by (auto simp: list_all_iff)
  with m(4) stored have "\<exists>operation. with_responses (dri_route_id item) m = Inr operation \<and>
      contract_validate T config (dri_route_id item) (dri_method item) (dri_path item) operation generated = Inr ()"
    unfolding contract_checked_def using bt_remove_insert [OF m(3)] by auto
  with m(1,2) described_handler(1) [OF item(2)] show ?thesis by auto
qed

section \<open>The served document\<close>


section \<open>The statement at a plain handler\<close>

definition plain_method :: "tok list ImplItemFn" where
  "plain_method = sample_method\<lparr>mf_attrs := [sample_attribute ''get'' sample_route_tokens]\<rparr>"

definition plain_impl :: "tok list ItemImpl" where
  "plain_impl = sample_impl\<lparr>ii_attrs := [], ii_items := [ImplFn plain_method]\<rparr>"

definition plain_metadata :: HandlerMetadata where
  "plain_metadata = sample_metadata\<lparr>hm_middlewares := [], hm_openapi := None, hm_contract := None\<rparr>"

definition plain_handler :: MacroHandler where
  "plain_handler = sample_handler\<lparr>mh_route := (mh_route sample_handler)\<lparr>mr_openapi := None\<rparr>, mh_middlewares := [], mh_contract := None\<rparr>"

lemma plain_taken:
  "take_provider_middlewares (tok_syn (\<lambda>_. False)) sample_fuel (ii_attrs plain_impl) = Some (Inr ([], []))"
  "take_handler_metadata (tok_syn (\<lambda>_. False)) sample_lib sample_fuel (mf_attrs plain_method) = Some (Inr (plain_metadata, []))"
  by code_simp+

lemma plain_expands:
  "\<exists>X. expand_endpoint_with_registration (tok_syn (\<lambda>_. False)) sample_lib sample_schema sample_fuel plain_impl True = Some (Inr X) \<and>
     ex_handlers X = [plain_handler]"
proof -
  have "decimal (Suc (Suc 0)) = ''2''" by code_simp
  then have expands: "expand_method sample_lib [] plain_method plain_metadata = Inr (Some plain_handler)"
    by (simp add: expand_method_def plain_method_def plain_metadata_def plain_handler_def sample_method_def sample_metadata_def sample_handler_def
        handler_arguments_def argument_kind_def final_type_ident_def last_of_def Let_def)
  have "fold_fuel (expand_item (tok_syn (\<lambda>_. False)) sample_lib sample_fuel []) ([], []) (ii_items plain_impl) =
      Some (Inr ([plain_handler], [ImplFn (plain_method\<lparr>mf_attrs := []\<rparr>)]))"
    by (simp add: plain_impl_def expand_item_def plain_taken(2) expands)
  moreover have "endpoint_contract_impl sample_schema [plain_handler] = Inr []"
    "traverse (endpoint_route []) (List.enumerate 0 [plain_handler]) = Inr [handler_route sample_schema plain_handler]"
    by (simp_all add: endpoint_contract_impl_def map_filter_simps plain_handler_def sample_handler_def endpoint_route_def handler_route_def route_new_def)
  moreover have "validate_endpoint_routes [handler_route sample_schema plain_handler] = Inr ()" by code_simp
  moreover have "validate_endpoint_implementation plain_impl = Inr ()"
    by (simp add: validate_endpoint_implementation_def plain_impl_def sample_impl_def)
  ultimately show ?thesis by (simp add: expand_endpoint_with_registration_def plain_taken(1))
qed

abbreviation plain_plugin :: OpenApiPlugin where
  "plain_plugin \<equiv> \<lparr>oap_config = default_openapi_config, oap_document = None\<rparr>"

lemma plain_activated:
  "openapi_activate as_text (\<lambda>_. Inr ''doc'') (\<lambda>_. []) [Inr \<lparr>dr_routes = [\<lparr>dri_method = ''GET'', dri_openapi = None, dri_path = ''/orders'',
      dri_route_id = ''orders.read''\<rparr>]\<rparr>] plain_plugin = Some (plain_plugin\<lparr>oap_document := Some (''doc'' @ [CHR 0x0A])\<rparr>, Inr ())"
  by code_simp


end
