(* ===== verification/IngressResponses.thy ===== *)
theory IngressResponses
  imports Routing
begin

text \<open>
  The response side of the ingress and the transport-independent request pipeline
  (\<open>ingress.rs\<close>): error responses, responses of endpoints, the passage of a response through
  middleware, WebSocket upgrades, the whole of \<open>dispatch_buffered\<close>, body normalization and the
  transport headers.

  A status code is its number. An operation that may cancel the native session behind a
  response returns, beside the response, whether it did.
\<close>

datatype 'p IngressBody =
    Buffered bytes
  | Streaming "stream_received list"
  | WebSocket "'p WebSocketUpgrade"

record ('h, 'p) IngressResponse =
  irs_status :: nat
  irs_headers :: 'h
  irs_body :: "'p IngressBody"

record 'h WebIngressResponse =
  wres_status :: nat
  wres_headers :: 'h
  wres_body :: bytes

section \<open>Error responses\<close>

definition json_response :: "'h http_lib \<Rightarrow> nat \<Rightarrow> string \<Rightarrow> ('h, 'p) IngressResponse" where
  "json_response L status body =
     \<lparr>irs_status = status,
      irs_headers = hm_insert L (hm_new L) ''content-type'' (plain ''application/json; charset=utf-8''),
      irs_body = Buffered body\<rparr>"

definition bad_request :: "'h http_lib \<Rightarrow> ('h, 'p) IngressResponse" where
  "bad_request L = json_response L 400 ''{\"error\":\"bad_request\"}''"

definition csrf_forbidden :: "'h http_lib \<Rightarrow> ('h, 'p) IngressResponse" where
  "csrf_forbidden L = json_response L 403 ''{\"error\":\"csrf_rejected\"}''"

definition request_rejection :: "'h http_lib \<Rightarrow> RequestRejection \<Rightarrow> ('h, 'p) IngressResponse" where
  "request_rejection L rejection =
     (case rejection of BadRequest \<Rightarrow> bad_request L | CsrfForbidden \<Rightarrow> csrf_forbidden L)"

definition payload_too_large :: "'h http_lib \<Rightarrow> ('h, 'p) IngressResponse" where
  "payload_too_large L = json_response L 413 ''{\"error\":\"payload_too_large\"}''"

definition request_timeout :: "'h http_lib \<Rightarrow> ('h, 'p) IngressResponse" where
  "request_timeout L = json_response L 408 ''{\"error\":\"request_timeout\"}''"

fun join_methods :: "http_method list \<Rightarrow> string" where
  "join_methods [] = []"
| "join_methods [m] = m"
| "join_methods (m # ms) = m @ '', '' @ join_methods ms"

definition method_not_allowed :: "'h http_lib \<Rightarrow> http_method list \<Rightarrow> ('h, 'p) IngressResponse" where
  "method_not_allowed L allowed =
     (let response = json_response L 405 ''{\"error\":\"method_not_allowed\"}'';
          value = join_methods allowed
      in if header_value_from_str L value
         then response\<lparr>irs_headers := hm_insert L (irs_headers response) ''allow'' (plain value)\<rparr>
         else response)"

definition unavailable :: "'h http_lib \<Rightarrow> ('h, 'p) IngressResponse" where
  "unavailable L = json_response L 503 ''{\"error\":\"endpoint_unavailable\"}''"

definition invalid_endpoint_response :: "'h http_lib \<Rightarrow> ('h, 'p) IngressResponse" where
  "invalid_endpoint_response L = json_response L 502 ''{\"error\":\"invalid_endpoint_response\"}''"

section \<open>Endpoint responses\<close>

definition status_code :: "'h http_lib \<Rightarrow> int \<Rightarrow> nat option" where
  "status_code L status =
     (if 0 \<le> status \<and> status \<le> 65535 \<and> status_from_u16 L (nat status) then Some (nat status) else None)"

definition append_response_header :: "'h http_lib \<Rightarrow> 'h \<Rightarrow> NameValue \<Rightarrow> unit + 'h" where
  "append_response_header L headers header =
     try_in (ok_or (header_name_from_bytes L (nv_name header)) ()) (\<lambda>name.
       if is_ingress_owned_response_header name then Inl ()
       else if \<not> header_value_from_str L (nv_value header) then Inl ()
       else Inr (hm_append L headers name (plain (nv_value header))))"

definition from_endpoint :: "'h http_lib \<Rightarrow> HandleResponse \<Rightarrow> ('h, 'p) IngressResponse" where
  "from_endpoint L response =
     (case status_code L (hres_status response) of
        None \<Rightarrow> invalid_endpoint_response L
      | Some status \<Rightarrow>
          (case fold_res (append_response_header L) (hm_new L) (hres_headers response) of
             Inl _ \<Rightarrow> invalid_endpoint_response L
           | Inr headers \<Rightarrow> \<lparr>irs_status = status, irs_headers = headers,
                            irs_body = Buffered (hres_body response)\<rparr>))"

definition from_stream_endpoint ::
  "'h http_lib \<Rightarrow> StreamingResponse \<Rightarrow> ('h, 'p) IngressResponse \<times> bool" where
  "from_stream_endpoint L response =
     (case status_code L (srs_status response) of
        None \<Rightarrow> (invalid_endpoint_response L, True)
      | Some status \<Rightarrow>
          (case fold_res (append_response_header L) (hm_new L) (srs_headers response) of
             Inl _ \<Rightarrow> (invalid_endpoint_response L, True)
           | Inr headers \<Rightarrow> (\<lparr>irs_status = status, irs_headers = headers,
                            irs_body = Streaming (srs_stream response)\<rparr>, False)))"

definition dispatch_response ::
  "'h http_lib \<Rightarrow> DispatchError + 'p DispatchResponse \<Rightarrow> ('h, 'p) IngressResponse \<times> bool" where
  "dispatch_response L result =
     (case result of
        Inr (DispBuffered response) \<Rightarrow> (from_endpoint L response, False)
      | Inr (DispStreaming response) \<Rightarrow> from_stream_endpoint L response
      | Inr (DispWebSocket upgrade) \<Rightarrow>
          (\<lparr>irs_status = 101, irs_headers = hm_new L, irs_body = WebSocket upgrade\<rparr>, False)
      | Inl Unauthorized \<Rightarrow> (json_response L 401 ''{\"error\":\"unauthorized\"}'', False)
      | Inl Forbidden \<Rightarrow> (json_response L 403 ''{\"error\":\"forbidden\"}'', False)
      | Inl UpgradeRequired \<Rightarrow> (json_response L 426 ''{\"error\":\"websocket_upgrade_required\"}'', False)
      | Inl BadHandshake \<Rightarrow> (json_response L 400 ''{\"error\":\"invalid_websocket_handshake\"}'', False)
      | Inl NotFound \<Rightarrow> (json_response L 404 ''{\"error\":\"not_found\"}'', False)
      | Inl (MethodNotAllowed allowed) \<Rightarrow> (method_not_allowed L allowed, False)
      | Inl Rejected \<Rightarrow> (json_response L 502 ''{\"error\":\"endpoint_rejected\"}'', False)
      | Inl TimedOut \<Rightarrow> (json_response L 504 ''{\"error\":\"endpoint_timeout\"}'', False)
      | Inl EndpointUnavailable \<Rightarrow> (unavailable L, False))"

section \<open>Responses and middleware\<close>

definition into_middleware_response ::
  "('h, 'p) IngressResponse \<Rightarrow> 'h WebIngressResponse \<times> 'p IngressBody option" where
  "into_middleware_response r =
     (case (case irs_body r of
              Buffered body \<Rightarrow> (body, None)
            | Streaming s \<Rightarrow> ([], Some (Streaming s))
            | WebSocket u \<Rightarrow> ([], Some (WebSocket u))) of
        (body, stream) \<Rightarrow>
          (\<lparr>wres_status = irs_status r, wres_headers = irs_headers r, wres_body = body\<rparr>, stream))"

definition from_middleware_response ::
  "'h http_lib \<Rightarrow> 'h WebIngressResponse \<Rightarrow> ('h, 'p) IngressResponse" where
  "from_middleware_response L response =
     (let headers = wres_headers response;
          ingress_owned = filter is_ingress_owned_response_header (map fst (hm_iter L headers))
      in \<lparr>irs_status = wres_status response,
          irs_headers = fold (\<lambda>name h. hm_remove L h name) ingress_owned headers,
          irs_body = Buffered (wres_body response)\<rparr>)"

text \<open>\<open>None\<close> is a failed \<open>expect\<close>.\<close>

definition with_session ::
  "'h http_lib \<Rightarrow> ('h, 'p) IngressResponse \<Rightarrow> 'p IngressBody \<Rightarrow> (('h, 'p) IngressResponse \<times> bool) option" where
  "with_session L r body =
     (case body of
        WebSocket upgrade \<Rightarrow>
          if irs_status r \<noteq> 101 then Some (r, True)
          else if \<not> header_value_from_str L (wsu_accept_key upgrade) then None
          else
            let h = hm_insert L (irs_headers r) ''upgrade'' (plain ''websocket'');
                h = hm_insert L h ''connection'' (plain ''Upgrade'');
                h = hm_insert L h ''sec-websocket-accept'' (plain (wsu_accept_key upgrade))
            in (case wss_protocol (wsu_session upgrade) of
                  None \<Rightarrow> Some (r\<lparr>irs_headers := h, irs_body := body\<rparr>, False)
                | Some protocol \<Rightarrow>
                    if header_value_from_str L protocol
                    then Some (r\<lparr>irs_headers := hm_insert L h ''sec-websocket-protocol'' (plain protocol),
                                 irs_body := body\<rparr>, False)
                    else None)
      | _ \<Rightarrow> Some (r\<lparr>irs_body := body\<rparr>, False))"

definition is_informational :: "nat \<Rightarrow> bool" where
  "is_informational status \<longleftrightarrow> 100 \<le> status \<and> status < 200"

definition normalize_body ::
  "('h, 'p) IngressResponse \<Rightarrow> http_method \<Rightarrow> ('h, 'p) IngressResponse \<times> bool" where
  "normalize_body r m =
     (let websocket = (case irs_body r of WebSocket _ \<Rightarrow> True | _ \<Rightarrow> False)
      in if m = ''HEAD'' \<or> (is_informational (irs_status r) \<and> \<not> websocket)
            \<or> irs_status r = 204 \<or> irs_status r = 304
         then (r\<lparr>irs_body := Buffered []\<rparr>, case irs_body r of Buffered _ \<Rightarrow> False | _ \<Rightarrow> True)
         else (r, False))"

definition with_transport_headers :: "'h http_lib \<Rightarrow> 'h \<Rightarrow> header_value \<Rightarrow> 'h" where
  "with_transport_headers L headers rid =
     hm_insert L (hm_insert L headers ''x-request-id'' rid) ''x-content-type-options'' (plain ''nosniff'')"

section \<open>The request pipeline\<close>

record 'h request_parts =
  rp_method :: http_method
  rp_uri :: uri
  rp_version :: http_version
  rp_headers :: 'h

text \<open>The stream slot is out of the middleware's reach: its world is extended by it.\<close>

definition lift_layer ::
  "('w, 'req, 'res) WebIngressMiddleware \<Rightarrow> ('w \<times> 's, 'req, 'res) WebIngressMiddleware" where
  "lift_layer layer =
     \<lparr>wim_identity = wim_identity layer,
      wim_before = (\<lambda>(w, s) req. case wim_before layer w req of (w', r) \<Rightarrow> ((w', s), r)),
      wim_after = (\<lambda>(w, s) req res. case wim_after layer w req res of (w', r) \<Rightarrow> ((w', s), r))\<rparr>"

record 'p slot =
  slot_stream :: "'p IngressBody option"
  slot_observed :: "observation list"
  slot_cancelled :: bool

definition empty_slot :: "'p slot" where
  "empty_slot = \<lparr>slot_stream = None, slot_observed = [], slot_cancelled = False\<rparr>"

text \<open>The closure passed to the middleware chain.\<close>

definition dispatch_closure ::
  "'h http_lib \<Rightarrow> 'r router_lib \<Rightarrow> 'r RouteTable \<Rightarrow> RuntimeFailure + unit \<Rightarrow> bool \<Rightarrow> Handshake option \<Rightarrow>
   InboundRequestControl \<Rightarrow> 'w \<times> 'p slot \<Rightarrow> 'h WebIngressRequest \<Rightarrow>
   ('w \<times> 'p slot) \<times> (unwind + 'h WebIngressResponse)" where
  "dispatch_closure L R table context cancelled handshake control ws request =
     (case restore_inbound_request L request control of
        None \<Rightarrow> (ws, Inl Panicked)
      | Some (Inl rejection) \<Rightarrow>
          (case into_middleware_response (request_rejection L rejection :: ('h, 'p) IngressResponse) of
             (response, stream) \<Rightarrow> ((fst ws, (snd ws)\<lparr>slot_stream := stream\<rparr>), Inr response))
      | Some (Inr r) \<Rightarrow>
          (let d = dispatch R table context cancelled r handshake;
               s = (snd ws)\<lparr>slot_observed := dp_observed d, slot_cancelled := dp_stream_cancelled d\<rparr>
           in case dp_outcome d of
                Panicking \<Rightarrow> ((fst ws, s), Inl Panicked)
              | Waiting \<Rightarrow> ((fst ws, s), Inl Suspended)
              | Finished result \<Rightarrow>
                  (case dispatch_response L result of (ir, closed) \<Rightarrow>
                     (case into_middleware_response ir of (response, stream) \<Rightarrow>
                        ((fst ws, s\<lparr>slot_stream := stream, slot_cancelled := closed \<or> slot_cancelled s\<rparr>),
                         Inr response)))))"

record ('h, 'p, 'w) dispatched_response =
  dr_response :: "('h, 'p) IngressResponse progress"
  dr_world :: 'w
  dr_slot :: "'p slot"

definition answered :: "('h, 'p) IngressResponse \<Rightarrow> 'w \<Rightarrow> ('h, 'p, 'w) dispatched_response" where
  "answered r w = \<lparr>dr_response = Finished r, dr_world = w, dr_slot = empty_slot\<rparr>"

definition finish_response ::
  "'h http_lib \<Rightarrow> ('w \<times> 'p slot) \<times> (unwind + 'h WebIngressResponse) \<Rightarrow> ('h, 'p, 'w) dispatched_response" where
  "finish_response L out =
     (case out of ((w, s), result) \<Rightarrow>
        (case result of
           Inl Suspended \<Rightarrow> \<lparr>dr_response = Waiting, dr_world = w, dr_slot = s\<rparr>
         | Inl _ \<Rightarrow> \<lparr>dr_response = Finished (unavailable L), dr_world = w, dr_slot = s\<rparr>
         | Inr response \<Rightarrow>
             (let r = from_middleware_response L response
              in case slot_stream s of
                   None \<Rightarrow> \<lparr>dr_response = Finished r, dr_world = w, dr_slot = s\<rparr>
                 | Some stream \<Rightarrow>
                     (case with_session L r stream of
                        None \<Rightarrow> \<lparr>dr_response = Panicking, dr_world = w, dr_slot = s\<rparr>
                      | Some (r', closed) \<Rightarrow>
                          \<lparr>dr_response = Finished r', dr_world = w,
                           dr_slot = s\<lparr>slot_stream := None, slot_cancelled := closed \<or> slot_cancelled s\<rparr>\<rparr>))))"

definition parse_upgrade ::
  "crypto_lib \<Rightarrow> 'h http_lib \<Rightarrow> 'r RouteTable \<Rightarrow> 'h request_parts \<Rightarrow> bytes \<Rightarrow> (unit + Handshake option) option" where
  "parse_upgrade C L table parts body =
     (if hm_contains_key L (rp_headers parts) ''upgrade'' then
        if rp_method parts \<noteq> ''GET'' \<or> rp_version parts \<noteq> Http11 \<or> body \<noteq> [] then Some (Inl ())
        else (case rt_websocket_policy table of
                None \<Rightarrow> None
              | Some policy \<Rightarrow>
                  (case handshake_parse C L (rp_headers parts) (wsc_allowed_origins policy) of
                     Inl _ \<Rightarrow> Some (Inl ())
                   | Inr h \<Rightarrow> Some (Inr (Some h))))
      else Some (Inr None))"

definition dispatch_buffered ::
  "crypto_lib \<Rightarrow> 'h http_lib \<Rightarrow> 'r router_lib \<Rightarrow> 'h request_parts \<Rightarrow> bytes \<Rightarrow> token_id \<Rightarrow> token_id \<Rightarrow>
   SessionCookiePolicy option \<Rightarrow> 'r RouteTable \<Rightarrow>
   ('w, 'h WebIngressRequest, 'h WebIngressResponse) WebIngressMiddleware list \<Rightarrow>
   RuntimeFailure + unit \<Rightarrow> bool \<Rightarrow> 'w \<Rightarrow> ('h, 'p, 'w) dispatched_response" where
  "dispatch_buffered C L R parts body cancellation disconnected session_cookie table middleware
     context cancelled w =
     (if rp_method parts = ''CONNECT''
         \<or> (hm_contains_key L (rp_headers parts) ''upgrade'' \<and> rt_websocket_policy table = None)
      then answered (json_response L 501 ''{\"error\":\"unsupported_interaction\"}'') w
      else case parse_upgrade C L table parts body of
        None \<Rightarrow> (answered (bad_request L) w)\<lparr>dr_response := Panicking\<rparr>
      | Some (Inl _) \<Rightarrow> answered (bad_request L) w
      | Some (Inr handshake) \<Rightarrow>
          (case inbound_request L (rp_method parts) (rp_uri parts) (rp_headers parts) body cancellation
                  disconnected session_cookie of
             None \<Rightarrow> (answered (bad_request L) w)\<lparr>dr_response := Panicking\<rparr>
           | Some (Inl rejection) \<Rightarrow> answered (request_rejection L rejection) w
           | Some (Inr request) \<Rightarrow>
               (case middleware_request L request (rp_version parts) of
                  None \<Rightarrow> (answered (bad_request L) w)\<lparr>dr_response := Panicking\<rparr>
                | Some (request, control) \<Rightarrow>
                    finish_response L
                      (run_middleware (map lift_layer middleware)
                         (dispatch_closure L R table context cancelled handshake control)
                         (w, empty_slot) request))))"

section \<open>Ownership of response headers\<close>

definition no_owned :: "'h http_lib \<Rightarrow> 'h \<Rightarrow> bool" where
  "no_owned L h \<longleftrightarrow> (\<forall>n. is_ingress_owned_response_header n \<longrightarrow> hm_get_all L h n = [])"

lemma fold_remove_get:
  assumes "header_map_laws L"
  shows "hm_get_all L (fold (\<lambda>name h. hm_remove L h name) names h) n =
    (if n \<in> set names then [] else hm_get_all L h n)"
  by (induction names arbitrary: h) (auto simp: header_map_lawsD(4) [OF assms])

lemma from_middleware_no_owned:
  assumes "header_map_laws L"
  shows "no_owned L (irs_headers (from_middleware_response L response))"
  unfolding no_owned_def
proof (intro allI impI)
  fix n assume n: "is_ingress_owned_response_header n"
  let ?h = "wres_headers response"
  have "hm_get_all L ?h n = []" if "n \<notin> fst ` set (hm_iter L ?h)"
  proof -
    have "v \<notin> set (hm_get_all L ?h n)" for v
      using that hm_iter_mem [OF assms, of n v ?h] by force
    then show ?thesis by (cases "hm_get_all L ?h n") auto
  qed
  then show "hm_get_all L (irs_headers (from_middleware_response L response)) n = []"
    using n by (auto simp: from_middleware_response_def Let_def fold_remove_get [OF assms])
qed

lemma owned_names:
  "is_ingress_owned_response_header n \<Longrightarrow> n \<noteq> ''content-type'' \<and> n \<noteq> ''allow'' \<and>
     n \<noteq> ''sec-websocket-accept'' \<and> n \<noteq> ''sec-websocket-protocol''"
  by (auto simp: is_ingress_owned_response_header_def is_static_hop_by_hop_header_def)

lemma json_no_owned:
  assumes "header_map_laws L"
  shows "no_owned L (irs_headers (json_response L status body))"
  by (auto simp: no_owned_def json_response_def header_map_lawsD(1,2) [OF assms] dest: owned_names)

lemma request_rejection_shape:
  assumes "header_map_laws L"
  shows "no_owned L (irs_headers (request_rejection L rejection))"
    and "\<exists>b. irs_body (request_rejection L rejection) = Buffered b"
  by (simp_all add: request_rejection_def bad_request_def csrf_forbidden_def json_no_owned [OF assms]
      json_response_def [THEN arg_cong, of irs_body] split: RequestRejection.splits)

text \<open>The headers the ingress itself puts on an upgrade.\<close>

definition upgrade_headers :: "'p IngressBody \<Rightarrow> header_name \<Rightarrow> header_value list" where
  "upgrade_headers body n =
     (case body of
        WebSocket _ \<Rightarrow> if n = ''upgrade'' then [plain ''websocket'']
                       else if n = ''connection'' then [plain ''Upgrade''] else []
      | _ \<Rightarrow> [])"

definition owned_exact :: "'h http_lib \<Rightarrow> ('h, 'p) IngressResponse \<Rightarrow> bool" where
  "owned_exact L r \<longleftrightarrow> (\<forall>n. is_ingress_owned_response_header n \<longrightarrow>
     hm_get_all L (irs_headers r) n = upgrade_headers (irs_body r) n)"

lemma owned_exact_buffered: "no_owned L (irs_headers r) \<Longrightarrow> irs_body r = Buffered b \<Longrightarrow> owned_exact L r"
  by (simp add: owned_exact_def no_owned_def upgrade_headers_def)

lemma json_owned_exact: "header_map_laws L \<Longrightarrow> owned_exact L (json_response L status body)"
  by (rule owned_exact_buffered) (simp_all add: json_no_owned, simp add: json_response_def)

lemma with_session_owned_exact:
  assumes "header_map_laws L" and "no_owned L (irs_headers r)" and "irs_body r = Buffered b"
    and "with_session L r body = Some (r', closed)"
  shows "owned_exact L r'"
proof (cases body)
  case (Buffered x)
  then show ?thesis using assms(4) by (simp add: with_session_def)
      (use assms(2) in \<open>auto simp: owned_exact_def no_owned_def upgrade_headers_def\<close>)
next
  case (Streaming x)
  then show ?thesis using assms by (auto simp: with_session_def owned_exact_def no_owned_def upgrade_headers_def)
next
  case (WebSocket u)
  then show ?thesis
    using assms owned_names
    by (auto simp: with_session_def owned_exact_def no_owned_def upgrade_headers_def Let_def
        header_map_lawsD(2) [OF assms(1)] split: if_splits option.splits)
qed

section \<open>The slot beside the middleware chain\<close>

lemma lift_before:
  "run_before (map lift_layer layers) k (w, s) req = (ws', req', r) \<Longrightarrow> snd ws' = s"
  by (induction layers arbitrary: k w req)
    (auto simp: lift_layer_def split: prod.splits sum.splits WebIngressMiddlewareOutcome.splits)

lemma lift_after:
  "run_after (map lift_layer layers) ws req res = (ws', r) \<Longrightarrow> snd ws' = snd ws"
proof (induction layers arbitrary: ws res)
  case (Cons l layers)
  then show ?case
    by (cases ws) (auto simp: lift_layer_def split: prod.splits sum.splits)
qed simp

text \<open>Only the dispatch closure writes the slot, and it is called at most once.\<close>

lemma run_middleware_slot:
  assumes "run_middleware (map lift_layer layers) d (w, s) req = (ws', r)"
  shows "snd ws' = s \<or> (\<exists>w1 req1 ws2 res. d (w1, s) req1 = (ws2, res) \<and> snd ws' = snd ws2)"
proof -
  obtain ws1 req1 out where b: "run_before (map lift_layer layers) 0 (w, s) req = (ws1, req1, out)"
    by (cases "run_before (map lift_layer layers) 0 (w, s) req") auto
  have s1: "snd ws1 = s" by (rule lift_before [OF b])
  then obtain w1 where ws1: "ws1 = (w1, s)" by (cases ws1) auto
  show ?thesis
  proof (cases out)
    case (Inl u)
    then show ?thesis using assms b s1 by (auto simp: run_middleware_def)
  next
    case (Inr x)
    obtain k o' where x: "x = (k, o')" by (cases x)
    obtain ws2 res where d: "(case o' of Some v \<Rightarrow> (ws1, Inr v) | None \<Rightarrow> d ws1 req1) = (ws2, res)"
      by (cases "case o' of Some v \<Rightarrow> (ws1, Inr v) | None \<Rightarrow> d ws1 req1") auto
    have ws': "snd ws' = snd ws2"
    proof (cases res)
      case (Inl u)
      then show ?thesis using assms b Inr x d by (simp add: run_middleware_def)
    next
      case (Inr v)
      then have "run_after (map lift_layer (rev (take k layers))) ws2 req1 v = (ws', r)"
        using assms b \<open>out = Inr x\<close> x d by (simp add: run_middleware_def take_map rev_map)
      then show ?thesis by (rule lift_after)
    qed
    show ?thesis
    proof (cases o')
      case None
      with d ws1 have "d (w1, s) req1 = (ws2, res)" by simp
      with ws' show ?thesis by blast
    next
      case (Some v)
      with d s1 ws' show ?thesis by simp
    qed
  qed
qed

lemma dispatch_websocket:
  assumes "dp_outcome (dispatch R table context cancelled request handshake) = Finished (Inr (DispWebSocket u))"
  shows "\<exists>hs. handshake = Some hs \<and> wsu_accept_key u = hs_accept hs \<and>
    (wss_protocol (wsu_session u) = None \<or> wss_protocol (wsu_session u) \<in> Some ` set (hs_protocols hs))"
proof -
  have acc: "ws_accept first offered a b = (c, Inr session) \<Longrightarrow>
      wss_protocol session = None \<or> wss_protocol session \<in> Some ` set offered" for first offered a b c
      and session :: "'a WebSocketSession"
    by (auto simp: ws_accept_def split: sum.splits StreamEvent.splits if_splits option.splits)
  from assms show ?thesis
    by (auto simp: dispatch_def no_route_def Let_def dispatch_err_def runtime_dispatch_error_def
        invoke_buffered_def invoke_streaming_def invoke_websocket_def dest!: acc
        split: option.splits sum.splits RouteProvider.splits if_splits InvocationError.splits
          ConnectWebsocketError.splits list.splits prod.splits head_result.splits)
qed

definition session_header_safe :: "'h http_lib \<Rightarrow> 'p slot \<Rightarrow> bool" where
  "session_header_safe L s \<longleftrightarrow>
     (case slot_stream s of
        Some (WebSocket u) \<Rightarrow> header_value_from_str L (wsu_accept_key u) \<and>
          (case wss_protocol (wsu_session u) of None \<Rightarrow> True | Some p \<Rightarrow> header_value_from_str L p)
      | Some (Buffered _) \<Rightarrow> False
      | _ \<Rightarrow> True)"

definition handshake_header_safe :: "'h http_lib \<Rightarrow> Handshake option \<Rightarrow> bool" where
  "handshake_header_safe L h \<longleftrightarrow>
     (case h of None \<Rightarrow> True
      | Some hs \<Rightarrow> header_value_from_str L (hs_accept hs) \<and> list_all (header_value_from_str L) (hs_protocols hs))"

lemma into_middleware_slot:
  assumes "into_middleware_response r = (res, stream)"
  shows "stream = (case irs_body r of Buffered _ \<Rightarrow> None | b \<Rightarrow> Some b)"
  using assms by (auto simp: into_middleware_response_def split: IngressBody.splits)

lemma dispatch_response_body:
  "irs_body (fst (dispatch_response L result)) = WebSocket u \<Longrightarrow> result = Inr (DispWebSocket u)"
  by (auto simp: dispatch_response_def from_endpoint_def from_stream_endpoint_def json_response_def
      invalid_endpoint_response_def unavailable_def method_not_allowed_def Let_def
      split: sum.splits DispatchResponse.splits DispatchError.splits option.splits if_splits)

lemma dispatch_closure_safe:
  fixes ws' :: "'w \<times> 'p slot"
  assumes "handshake_header_safe L handshake"
    and "dispatch_closure L R table context cancelled handshake control (w, empty_slot) req = (ws', res)"
  shows "session_header_safe L (snd ws')"
proof -
  have rej: "slot_stream s = snd (into_middleware_response (request_rejection L r)) \<Longrightarrow> session_header_safe L s"
    for s r by (auto simp: session_header_safe_def into_middleware_response_def request_rejection_def
        bad_request_def csrf_forbidden_def json_response_def split: RequestRejection.splits)
  have disp: "session_header_safe L s"
    if f: "dp_outcome (dispatch R table context cancelled r handshake) = Finished result"
      and st: "slot_stream s = snd (into_middleware_response (fst (dispatch_response L result)))" for s r result
  proof (cases "irs_body (fst (dispatch_response L result))")
    case (WebSocket u)
    then have "result = Inr (DispWebSocket u)" by (rule dispatch_response_body)
    with f dispatch_websocket [of R table "context" cancelled r handshake u] assms(1) WebSocket st show ?thesis
      by (auto simp: session_header_safe_def handshake_header_safe_def into_middleware_response_def
          list_all_iff split: option.splits)
  qed (use st in \<open>auto simp: session_header_safe_def into_middleware_response_def\<close>)
  have empty: "slot_stream s = None \<Longrightarrow> session_header_safe L s" for s
    by (simp add: session_header_safe_def)
  note d = assms(2) [unfolded dispatch_closure_def Let_def empty_slot_def]
  show ?thesis
  proof (cases "restore_inbound_request L req control")
    case None
    with d show ?thesis by (auto intro: empty)
  next
    case (Some x)
    show ?thesis
    proof (cases x)
      case (Inl rejection)
      with Some d show ?thesis by (auto intro!: rej [of _ rejection] split: prod.splits)
    next
      case (Inr r)
      show ?thesis
      proof (cases "dp_outcome (dispatch R table context cancelled r handshake :: 'p dispatched)")
        case (Finished result)
        with Inr Some d show ?thesis
          by (auto intro!: disp [OF Finished] split: prod.splits)
      qed (use Inr Some d in \<open>auto intro: empty\<close>)
    qed
  qed
qed

lemma dispatch_buffered_cases:
  assumes def: "D = dispatch_buffered C L R parts body c d sc table mw ctx cancelled w"
  obtains (answer) status msg where "D = answered (json_response L status msg) w"
  | (panic) "dr_response D = Panicking"
      and "inbound_request L (rp_method parts) (rp_uri parts) (rp_headers parts) body c d sc = None \<or>
           (\<exists>r. inbound_request L (rp_method parts) (rp_uri parts) (rp_headers parts) body c d sc = Some (Inr r) \<and>
                middleware_request L r (rp_version parts) = None)"
  | (run) handshake request req control where
      "parse_upgrade C L table parts body = Some (Inr handshake)"
      and "inbound_request L (rp_method parts) (rp_uri parts) (rp_headers parts) body c d sc = Some (Inr request)"
      and "middleware_request L request (rp_version parts) = Some (req, control)"
      and "D = finish_response L (run_middleware (map lift_layer mw)
          (dispatch_closure L R table ctx cancelled handshake control) (w, empty_slot) req)"
proof (cases "rp_method parts = ''CONNECT'' \<or>
    (hm_contains_key L (rp_headers parts) ''upgrade'' \<and> rt_websocket_policy table = None)")
  case True
  show thesis
    by (rule answer [of 501 "''{\"error\":\"unsupported_interaction\"}''"])
      (use True in \<open>simp add: def dispatch_buffered_def\<close>)
next
  case False
  note db = trans [OF def trans [OF dispatch_buffered_def if_not_P [OF False]]]
  show thesis
  proof (cases "parse_upgrade C L table parts body")
    case None
    then show thesis using False
      by (auto simp: parse_upgrade_def split: if_splits option.splits sum.splits)
  next
    case (Some up)
    show thesis
    proof (cases up)
      case (Inl u)
      show thesis
        by (rule answer [of 400 "''{\"error\":\"bad_request\"}''"])
          (use Some Inl in \<open>simp add: db bad_request_def\<close>)
    next
      case (Inr handshake)
      show thesis
      proof (cases "inbound_request L (rp_method parts) (rp_uri parts) (rp_headers parts) body c d sc")
        case None
        then show thesis
          by (intro panic) (use Some Inr in \<open>simp_all add: db answered_def\<close>)
      next
        case i: (Some x)
        show thesis
        proof (cases x)
          case (Inl rejection)
          then show thesis
            by (cases rejection) (use Some Inr i answer in \<open>simp_all add: db request_rejection_def
                bad_request_def csrf_forbidden_def\<close>)
        next
          case request: (Inr request)
          show thesis
          proof (cases "middleware_request L request (rp_version parts)")
            case None
            then show thesis
              by (intro panic) (use Some Inr i request in
                  \<open>simp_all add: db answered_def\<close>)
          next
            case m: (Some y)
            obtain req control where y: "y = (req, control)" by (cases y)
            show thesis
              by (rule run [of handshake request req control])
                (use Some Inr i request m y in \<open>simp_all add: db\<close>)
          qed
        qed
      qed
    qed
  qed
qed

lemma finish_response_owned:
  assumes "header_map_laws L" and "dr_response (finish_response L out) = Finished r"
  shows "owned_exact L r"
proof -
  obtain w s result where out: "out = ((w, s), result)" by (metis surj_pair)
  show ?thesis
  proof (cases result)
    case (Inl u)
    then have "r = unavailable L" using assms(2) by (simp add: finish_response_def out split: unwind.splits)
    then show ?thesis using json_owned_exact [OF assms(1)] by (simp add: unavailable_def)
  next
    case (Inr response)
    let ?r = "from_middleware_response L response"
    have no: "no_owned L (irs_headers ?r)" by (rule from_middleware_no_owned [OF assms(1)])
    have body: "irs_body ?r = Buffered (wres_body response)"
      by (simp add: from_middleware_response_def Let_def)
    show ?thesis
    proof (cases "slot_stream s")
      case None
      then have "r = ?r" using assms(2) Inr by (simp add: finish_response_def out Let_def)
      then show ?thesis using owned_exact_buffered [OF no body] by simp
    next
      case (Some stream)
      then obtain closed where "with_session L ?r stream = Some (r, closed)"
        using assms(2) Inr
        by (auto simp: finish_response_def out Let_def split: option.splits prod.splits)
      then show ?thesis by (rule with_session_owned_exact [OF assms(1) no body])
    qed
  qed
qed

lemma dispatch_buffered_owned:
  fixes r :: "('h, 'p) IngressResponse" and w :: 'w
  assumes "header_map_laws L"
    and "dr_response (dispatch_buffered C L R parts body c d sc table mw ctx cancelled w) = Finished r"
  shows "owned_exact L r"
proof -
  define D :: "('h, 'p, 'w) dispatched_response" where "D = dispatch_buffered C L R parts body c d sc table mw ctx cancelled w"
  note fin = assms(2) [folded D_def]
  from D_def show ?thesis
  proof (cases rule: dispatch_buffered_cases)
    case (answer status msg)
    then show ?thesis using fin json_owned_exact [OF assms(1)] by (auto simp: answered_def)
  next
    case panic
    then show ?thesis using fin by simp
  next
    case run
    then show ?thesis using fin finish_response_owned [OF assms(1)] by simp
  qed
qed

lemma finish_response_safe:
  assumes "session_header_safe L (snd (fst out))"
  shows "dr_response (finish_response L out) \<noteq> Panicking"
  using assms
  by (cases out) (auto simp: finish_response_def session_header_safe_def with_session_def Let_def
      split: sum.splits unwind.splits option.splits IngressBody.splits prod.splits if_splits)

lemma inbound_request_not_None:
  assumes "method_from_bytes L (to_ascii_uppercase m)"
  shows "inbound_request L m u h body c d sc \<noteq> None"
  using assms
  by (auto simp: inbound_request_def normalized_method_def Let_def split: sum.splits prod.splits)

section \<open>Properties\<close>

text \<open>C6. Whatever endpoints and middleware do, every response that leaves the pipeline carries
  exactly the request identity the ingress assigned and the \<open>nosniff\<close> policy, and no hop-by-hop
  header and no \<open>Content-Length\<close> of its own; the sole exception is the pair of upgrade headers
  the ingress itself sets on an accepted WebSocket.\<close>

theorem response_headers_owned_by_ingress:
  assumes "header_map_laws L"
    and "dr_response (dispatch_buffered C L R parts body c d sc table mw ctx cancelled w) = Finished r"
  shows "hm_get_all L (with_transport_headers L (irs_headers r) rid) ''x-request-id'' = [rid] \<and>
    hm_get_all L (with_transport_headers L (irs_headers r) rid) ''x-content-type-options'' = [plain ''nosniff''] \<and>
    (\<forall>n. is_static_hop_by_hop_header n \<or> n = ''content-length'' \<longrightarrow>
       hm_get_all L (with_transport_headers L (irs_headers r) rid) n = upgrade_headers (irs_body r) n)"
proof -
  have "owned_exact L r" by (rule dispatch_buffered_owned [OF assms])
  then have "hm_get_all L (irs_headers r) n = upgrade_headers (irs_body r) n"
    if "is_static_hop_by_hop_header n \<or> n = ''content-length''" for n
    using that by (auto simp: owned_exact_def is_ingress_owned_response_header_def)
  moreover have "n \<noteq> ''x-request-id'' \<and> n \<noteq> ''x-content-type-options''"
    if "is_static_hop_by_hop_header n \<or> n = ''content-length''" for n
    using that by (auto simp: is_static_hop_by_hop_header_def)
  ultimately show ?thesis
    by (simp add: with_transport_headers_def header_map_lawsD(2) [OF assms(1)])
qed

abbreviation hello_parts :: "(header_name \<times> header_value) list request_parts" where
  "hello_parts \<equiv> \<lparr>rp_method = ''GET'', rp_uri = \<lparr>uri_scheme_str = None, uri_authority = None,
       uri_path_and_query = Some ''/hello'', uri_path = ''/hello'', uri_query = None\<rparr>,
     rp_version = Http11, rp_headers = [(''host'', plain ''h''), (''x-request-id'', plain ''lenso-7'')]\<rparr>"

abbreviation constant_crypto :: crypto_lib where
  "constant_crypto \<equiv> \<lparr>b64_decode = (\<lambda>_. None), b64_encode = (\<lambda>_. ''AAAA''), sha1_digest = (\<lambda>b. b)\<rparr>"

abbreviation hello_run :: "((header_name \<times> header_value) list, nat, unit) dispatched_response" where
  "hello_run \<equiv> dispatch_buffered constant_crypto list_http list_router hello_parts [] 1 2 None hello_table []
     (Inr ()) False ()"

theorem response_headers_owned_by_ingress_witness:
  "\<exists>r. dr_response hello_run = Finished r \<and> irs_body r = Buffered ''hi'' \<and>
     hm_get_all list_http (with_transport_headers list_http (irs_headers r) (plain ''lenso-7'')) ''x-request-id'' =
       [plain ''lenso-7'']"
proof -
  have "case dr_response hello_run of Finished r \<Rightarrow> irs_body r = Buffered ''hi'' | _ \<Rightarrow> False" by code_simp
  then obtain r where r: "dr_response hello_run = Finished r" "irs_body r = Buffered ''hi''"
    by (auto split: progress.splits)
  from r response_headers_owned_by_ingress [OF list_http_header_map_laws r(1)] show ?thesis by blast
qed

lemma parse_upgrade_header_safe:
  assumes "header_text_laws L" and "parse_upgrade C L table parts body = Some (Inr handshake)"
    and "\<And>b. list_all visible_ascii (b64_encode C b)"
  shows "handshake_header_safe L handshake"
proof (cases handshake)
  case (Some hs)
  have texts: "header_value_from_str L v" if "list_all visible_ascii v" for v
    using that header_text_lawsD(3,4) [OF assms(1)] by blast
  from Some assms(2) obtain origins where h: "handshake_parse C L (rp_headers parts) origins = Inr hs"
    by (auto simp: parse_upgrade_def split: if_splits option.splits sum.splits)
  from handshake_parse_Inr [OF h] assms(3) texts token_visible Some show ?thesis
    by (auto simp: handshake_header_safe_def list_all_iff)
qed (simp add: handshake_header_safe_def)

lemma run_middleware_session_safe:
  fixes mw :: "('w, 'h WebIngressRequest, 'h WebIngressResponse) WebIngressMiddleware list"
  assumes "handshake_header_safe L handshake"
  shows "session_header_safe L (snd (fst (run_middleware (map lift_layer mw)
    (dispatch_closure L R table ctx cancelled handshake control) (w, empty_slot :: 'p slot) req)))"
proof -
  let ?run = "run_middleware (map lift_layer mw) (dispatch_closure L R table ctx cancelled handshake control)
    (w, empty_slot :: 'p slot) req"
  obtain ws' r where m: "?run = (ws', r)" by (cases ?run)
  from run_middleware_slot [OF m] show ?thesis
  proof
    assume "snd ws' = empty_slot"
    then show ?thesis using m by (simp add: session_header_safe_def empty_slot_def)
  next
    assume "\<exists>w1 req1 ws2 res. dispatch_closure L R table ctx cancelled handshake control (w1, empty_slot) req1 =
        (ws2, res) \<and> snd ws' = snd ws2"
    then show ?thesis using m dispatch_closure_safe [OF assms] by fastforce
  qed
qed



text \<open>Responses to \<open>HEAD\<close> and responses whose status forbids a body leave with an empty body,
  and a stream or session that was behind them is cancelled; every other response is unchanged.\<close>

theorem normalize_body_exact:
  "normalize_body r m =
     (if m = ''HEAD'' \<or> irs_status r \<in> {204, 304} \<or>
         (100 \<le> irs_status r \<and> irs_status r < 200 \<and> (\<nexists>u. irs_body r = WebSocket u))
      then (r\<lparr>irs_body := Buffered []\<rparr>, \<nexists>b. irs_body r = Buffered b) else (r, False))"
  by (cases "irs_body r") (auto simp: normalize_body_def is_informational_def Let_def)

end
