(* ===== verification/Server.thy ===== *)
theory Server
  imports IngressResponses BoundedBody
begin

text \<open>
  The socket side of the ingress (\<open>server.rs\<close>): reading a request body under its limit, the
  activity of a connection and its idle timeout, request permits, the whole of a service call, and
  the polled response body. Semaphores are those of \<open>tokio\<close> and taken as parameters; the order
  in which the branches of a \<open>select\<close> become ready is an input.
\<close>

section \<open>Request bodies\<close>

datatype BodyReadError = TooLarge | Invalid

text \<open>What \<open>body.frame().await\<close> yields until the end of the body.\<close>

datatype body_frame = BodyError | BodyData bytes | BodyTrailers

record body_state =
  bs_first :: "bytes option"
  bs_combined :: "bytes option"
  bs_total :: nat

definition collect_frame :: "nat \<Rightarrow> body_state \<Rightarrow> body_frame \<Rightarrow> BodyReadError + body_state" where
  "collect_frame limit s frame =
     (case frame of
        BodyError \<Rightarrow> Inl Invalid
      | BodyTrailers \<Rightarrow> Inr s
      | BodyData data \<Rightarrow>
          try_in (ok_or (checked_add (bs_total s) (length data)) TooLarge) (\<lambda>total.
            if total > limit then Inl TooLarge
            else
              let s = s\<lparr>bs_total := total\<rparr> in
              if data = [] then Inr s
              else (case bs_combined s of
                  Some buffer \<Rightarrow> Inr (s\<lparr>bs_combined := Some (buffer @ data)\<rparr>)
                | None \<Rightarrow>
                    (case bs_first s of
                       Some initial \<Rightarrow>
                         Inr (s\<lparr>bs_first := None, bs_combined := Some (initial @ data)\<rparr>)
                     | None \<Rightarrow> Inr (s\<lparr>bs_first := Some data\<rparr>)))))"

definition collect_bounded_body :: "nat \<Rightarrow> body_frame list \<Rightarrow> BodyReadError + bytes" where
  "collect_bounded_body limit frames =
     try_in (fold_res (collect_frame limit)
               \<lparr>bs_first = None, bs_combined = None, bs_total = 0\<rparr> frames) (\<lambda>s.
       Inr (case (bs_combined s, bs_first s) of
              (Some buffer, _) \<Rightarrow> buffer
            | (None, Some data) \<Rightarrow> data
            | (None, None) \<Rightarrow> []))"

definition frame_data :: "body_frame \<Rightarrow> BodyReadError + bytes" where
  "frame_data f = (case f of BodyError \<Rightarrow> Inl Invalid | BodyData d \<Rightarrow> Inr d | BodyTrailers \<Rightarrow> Inr [])"

definition body_content :: "body_state \<Rightarrow> bytes" where
  "body_content s = (case bs_combined s of Some b \<Rightarrow> b | None \<Rightarrow> (case bs_first s of Some d \<Rightarrow> d | None \<Rightarrow> []))"

definition body_inv :: "body_state \<Rightarrow> bool" where
  "body_inv s \<longleftrightarrow> bs_total s = length (body_content s)"

lemma collect_frame_spec:
  assumes "body_inv s" and "limit < usize_max" and "bs_total s \<le> limit"
  shows "(case frame_data f of
      Inl e \<Rightarrow> collect_frame limit s f = Inl e
    | Inr d \<Rightarrow>
        if length (body_content s) + length d > limit then collect_frame limit s f = Inl TooLarge
        else \<exists>s'. collect_frame limit s f = Inr s' \<and> body_inv s' \<and> body_content s' = body_content s @ d)"
  using assms
  by (cases f) (auto simp: frame_data_def collect_frame_def body_inv_def body_content_def result_simps
      checked_add_def Let_def split: option.splits)

lemma collect_fold_spec:
  assumes "body_inv s" and "limit < usize_max" and "bs_total s \<le> limit"
  shows "try_in (fold_res (collect_frame limit) s fs) (\<lambda>s'. Inr (body_content s')) =
    bounded_from frame_data TooLarge limit (body_content s) fs"
  using assms
proof (induction fs arbitrary: s)
  case Nil
  then show ?case by simp
next
  case (Cons f fs)
  note spec = collect_frame_spec [OF Cons.prems, of f]
  show ?case
  proof (cases "frame_data f")
    case (Inl e)
    with spec show ?thesis by simp
  next
    case (Inr d)
    show ?thesis
    proof (cases "length (body_content s) + length d > limit")
      case True
      with spec Inr show ?thesis by simp
    next
      case False
      with spec Inr obtain s' where s': "collect_frame limit s f = Inr s'" "body_inv s'"
        "body_content s' = body_content s @ d" by auto
      with False have "bs_total s' \<le> limit" by (simp add: body_inv_def)
      with Cons.IH [OF s'(2) Cons.prems(2)] s' Inr False show ?thesis by simp
    qed
  qed
qed

interpretation request_body: bounded_reader collect_bounded_body frame_data TooLarge
proof
  fix limit and fs :: "body_frame list" assume "limit < usize_max"
  let ?s = "\<lparr>bs_first = None, bs_combined = None, bs_total = 0\<rparr>"
  have "try_in (fold_res (collect_frame limit) ?s fs) (\<lambda>s'. Inr (body_content s')) =
      bounded_from frame_data TooLarge limit (body_content ?s) fs"
    by (rule collect_fold_spec) (use \<open>limit < usize_max\<close> in \<open>auto simp: body_inv_def body_content_def\<close>)
  moreover have "collect_bounded_body limit fs =
      try_in (fold_res (collect_frame limit) ?s fs) (\<lambda>s'. Inr (body_content s'))"
    unfolding collect_bounded_body_def
    by (rule arg_cong [where f = "try_in _"]) (auto simp: fun_eq_iff body_content_def split: option.splits)
  ultimately show "collect_bounded_body limit fs = bounded_from frame_data TooLarge limit [] fs"
    by (simp add: body_content_def)
qed

section \<open>Connection activity\<close>

record ConnectionActivityState =
  cas_active_requests :: nat
  cas_idle_since :: nat

definition activity_new :: "nat \<Rightarrow> ConnectionActivityState" where
  "activity_new now = \<lparr>cas_active_requests = 0, cas_idle_since = now\<rparr>"

definition activity_begin :: "ConnectionActivityState \<Rightarrow> ConnectionActivityState" where
  "activity_begin s = s\<lparr>cas_active_requests := saturating_add (cas_active_requests s) 1\<rparr>"

text \<open>The drop of an \<open>ActiveRequest\<close>.\<close>

definition activity_end :: "nat \<Rightarrow> ConnectionActivityState \<Rightarrow> ConnectionActivityState" where
  "activity_end now s =
     (let remaining = saturating_sub (cas_active_requests s) 1;
          s = s\<lparr>cas_active_requests := remaining\<rparr>
      in if remaining = 0 then s\<lparr>cas_idle_since := now\<rparr> else s)"

text \<open>\<open>wait_for_connection_idle\<close>: the instant the loop sleeps until, and its exit test on waking.\<close>

definition idle_deadline :: "nat \<Rightarrow> nat \<Rightarrow> ConnectionActivityState \<Rightarrow> nat" where
  "idle_deadline now timeout s =
     (if cas_active_requests s = 0 then cas_idle_since s + timeout else now + timeout)"

definition idle_expired :: "nat \<Rightarrow> nat \<Rightarrow> ConnectionActivityState \<Rightarrow> bool" where
  "idle_expired now timeout s \<longleftrightarrow>
     cas_active_requests s = 0 \<and> saturating_sub now (cas_idle_since s) \<ge> timeout"

datatype activity_event = Begins | Ends

text \<open>A history of one connection: when its requests begin and end, in time order; an end needs a
  request that is still active. The last component counts the guards alive.\<close>

inductive activity_run ::
  "nat \<Rightarrow> (nat \<times> activity_event) list \<Rightarrow> ConnectionActivityState \<Rightarrow> nat \<Rightarrow> nat \<Rightarrow> bool" for opened where
  run_open: "activity_run opened [] (activity_new opened) opened 0"
| run_begin: "activity_run opened log s now n \<Longrightarrow> now \<le> t \<Longrightarrow> Suc n \<le> usize_max \<Longrightarrow>
     activity_run opened (log @ [(t, Begins)]) (activity_begin s) t (Suc n)"
| run_end: "activity_run opened log s now (Suc n) \<Longrightarrow> now \<le> t \<Longrightarrow>
     activity_run opened (log @ [(t, Ends)]) (activity_end t s) t n"

lemma activity_run_inv:
  "activity_run opened log s now n \<Longrightarrow>
     cas_active_requests s = n \<and> n \<le> usize_max \<and> cas_idle_since s \<le> now \<and>
     (\<forall>e \<in> set log. fst e \<le> now) \<and> (n = 0 \<longrightarrow> (\<forall>e \<in> set log. fst e \<le> cas_idle_since s))"
  by (induction rule: activity_run.induct)
    (auto simp: activity_new_def activity_begin_def activity_end_def saturating_add_def
      saturating_sub_def Let_def min_def)

section \<open>Serving one request\<close>

definition content_length :: "'h http_lib \<Rightarrow> 'h \<Rightarrow> nat option" where
  "content_length L headers =
     (case hm_get L headers ''content-length'' of
        None \<Rightarrow> None
      | Some value \<Rightarrow> (case to_str L value of None \<Rightarrow> None | Some v \<Rightarrow> parse_usize v))"

text \<open>How the race between reading the body, its timeout and the shutdown ended.\<close>

datatype body_race = BodyFinished | BodyTimedOut | BodyCancelled

record ('h, 'r, 'w) IngressService =
  is_config :: WebIngressConfig
  is_middleware :: "('w, 'h WebIngressRequest, 'h WebIngressResponse) WebIngressMiddleware list"
  is_routes :: "'r RouteTable"
  is_session_cookie :: "SessionCookiePolicy option"
  is_local_concurrency :: bool
  is_cancellation :: token_id

record 'h incoming =
  in_parts :: "'h request_parts"
  in_end_stream :: bool
  in_frames :: "body_frame list"

record call_env =
  env_local_permit :: bool
  env_global_permit :: bool
  env_race :: body_race
  env_context :: "RuntimeFailure + unit"
  env_cancelled :: bool
  env_disconnect :: token_id
  env_upgrade :: bool

definition service_dispatch ::
  "crypto_lib \<Rightarrow> 'h http_lib \<Rightarrow> 'r router_lib \<Rightarrow> ('h, 'r, 'w) IngressService \<Rightarrow> 'h incoming \<Rightarrow> call_env \<Rightarrow>
   'w \<Rightarrow> ('h, 'p, 'w) dispatched_response" where
  "service_dispatch C L R service request env w =
     (let parts = in_parts request;
          limit = wic_max_request_body_bytes (is_config service);
          length = content_length L (rp_headers parts)
      in if (case length of None \<Rightarrow> False | Some l \<Rightarrow> l > limit) then answered (payload_too_large L) w
         else
           (case (if in_end_stream request then Some (Inr [])
                  else (case env_race env of
                      BodyFinished \<Rightarrow> Some (collect_bounded_body limit (in_frames request))
                    | _ \<Rightarrow> None)) of
              None \<Rightarrow> answered (if env_race env = BodyTimedOut then request_timeout L else unavailable L) w
            | Some (Inl TooLarge) \<Rightarrow> answered (payload_too_large L) w
            | Some (Inl Invalid) \<Rightarrow> answered (bad_request L) w
            | Some (Inr body) \<Rightarrow>
                dispatch_buffered C L R parts body (is_cancellation service) (env_disconnect env)
                  (is_session_cookie service) (is_routes service) (is_middleware service)
                  (env_context env) (env_cancelled env) w))"

datatype ResponseBody = RespBuffered bytes | RespStreaming "stream_received list"

record ('h, 'p, 'w) served =
  sv_status :: nat
  sv_headers :: 'h
  sv_body :: ResponseBody
  sv_socket_task :: "'p WebSocketSession option"
  sv_session_cancelled :: bool
  sv_world :: 'w

text \<open>\<open>into_response\<close> followed by \<open>with_transport_headers\<close>.\<close>

definition into_response ::
  "'h http_lib \<Rightarrow> ('h, 'p) IngressResponse \<Rightarrow> header_value \<Rightarrow> 'w \<Rightarrow> ('h, 'p, 'w) served" where
  "into_response L r rid w =
     \<lparr>sv_status = irs_status r, sv_headers = with_transport_headers L (irs_headers r) rid,
      sv_body = (case irs_body r of Buffered b \<Rightarrow> RespBuffered b | WebSocket _ \<Rightarrow> RespBuffered []
                 | Streaming s \<Rightarrow> RespStreaming s),
      sv_socket_task = None,
      sv_session_cancelled = (case irs_body r of WebSocket _ \<Rightarrow> True | _ \<Rightarrow> False),
      sv_world = w\<rparr>"

text \<open>The end of \<open>call\<close>: a WebSocket body becomes the socket task, or is cancelled when the
  connection cannot be upgraded.\<close>

definition finish_call ::
  "'h http_lib \<Rightarrow> http_method \<Rightarrow> bool \<Rightarrow> WebSocketConfig option \<Rightarrow> header_value \<Rightarrow> 'w \<Rightarrow>
   ('h, 'p) IngressResponse \<Rightarrow> ('h, 'p, 'w) served" where
  "finish_call L m on_upgrade policy rid w response =
     (case irs_body response of
        WebSocket upgrade \<Rightarrow>
          if on_upgrade \<and> policy \<noteq> None
          then (into_response L (fst (normalize_body (response\<lparr>irs_body := Buffered []\<rparr>) m)) rid w)
                 \<lparr>sv_socket_task := Some (wsu_session upgrade)\<rparr>
          else (into_response L (fst (normalize_body (unavailable L) m)) rid w)
                 \<lparr>sv_session_cancelled := True\<rparr>
      | _ \<Rightarrow> (case normalize_body response m of (r, closed) \<Rightarrow>
                (into_response L r rid w)\<lparr>sv_session_cancelled := closed\<rparr>))"

definition service_call ::
  "crypto_lib \<Rightarrow> 'h http_lib \<Rightarrow> 'r router_lib \<Rightarrow> ('h, 'r, 'w) IngressService \<Rightarrow> 'h incoming \<Rightarrow> call_env \<Rightarrow>
   RequestIdSequence \<Rightarrow> 'w \<Rightarrow> ('h, 'p, 'w) served progress \<times> RequestIdSequence" where
  "service_call C L R service request env next w =
     (let parts = in_parts request;
          m = rp_method parts;
          on_upgrade = (hm_contains_key L (rp_headers parts) ''upgrade'' \<and> env_upgrade env);
          headers = mark_sensitive_headers L (rp_headers parts) (is_session_cookie service);
          head_len = canonical_request_head_len L m (rp_uri parts) (rp_version parts) headers
      in case replace_request_id L headers next of
           None \<Rightarrow> (Panicking, next)
         | Some (rid, headers', next') \<Rightarrow>
             (let finish = (\<lambda>w r. finish_call L m on_upgrade (wic_websocket (is_config service)) rid w r)
              in (if head_len > wic_max_request_head_bytes (is_config service)
                  then Finished (finish w (json_response L 431
                         ''{\"error\":\"request_header_fields_too_large\"}''))
                  else if is_local_concurrency service \<and> \<not> env_local_permit env
                  then Finished (into_response L (unavailable L) rid w)
                  else if \<not> env_global_permit env
                  then Finished (finish w (unavailable L))
                  else
                    let d = service_dispatch C L R service
                              (request\<lparr>in_parts := parts\<lparr>rp_headers := headers'\<rparr>\<rparr>) env w
                    in case dr_response d of
                         Panicking \<Rightarrow> Panicking
                       | Waiting \<Rightarrow> Waiting
                       | Finished r \<Rightarrow> Finished (finish (dr_world d) r), next')))"

section \<open>The polled response body\<close>

datatype 'a poll = PollPending | PollReady 'a

record 'p StreamingBody =
  sb_stream :: "'p WebIngressResponseStream"
  sb_receive :: bool
  sb_done :: bool

text \<open>\<open>poll_frame\<close>; \<open>yields\<close> is what the native stream has ready, in order. A receive future that
  is still suspended stays in \<open>sb_receive\<close> and is resumed by the next poll.\<close>

definition poll_frame ::
  "'p StreamingBody \<Rightarrow> stream_received list \<Rightarrow>
   (unit + bytes) option poll \<times> 'p StreamingBody \<times> stream_received list" where
  "poll_frame b yields =
     (if sb_done b then (PollReady None, b, yields)
      else
        let (entered, s) = (if sb_receive b then (Pending, sb_stream b) else stream_receive_enter (sb_stream b));
            (event, s, rest) =
              (case entered of
                 Returned r \<Rightarrow> (Some r, s, yields)
               | Pending \<Rightarrow> (case pull stream_receive_event yields s of
                     (None, s', rest) \<Rightarrow> (None, s', rest)
                   | (Some r, s', rest) \<Rightarrow> (Some r, stream_reading_drop s', rest)))
        in case event of
             None \<Rightarrow> (PollPending, b\<lparr>sb_stream := s, sb_receive := True\<rparr>, rest)
           | Some (Inr (Some bytes)) \<Rightarrow>
               (PollReady (Some (Inr bytes)), b\<lparr>sb_stream := s, sb_receive := False\<rparr>, rest)
           | Some (Inr None) \<Rightarrow>
               (PollReady None, b\<lparr>sb_stream := s, sb_receive := False, sb_done := True\<rparr>, rest)
           | Some (Inl _) \<Rightarrow>
               (PollReady (Some (Inl ())), b\<lparr>sb_stream := s, sb_receive := False, sb_done := True\<rparr>, rest))"

lemma pull_None:
  "pull event ys s = (None, s', rest) \<Longrightarrow> rest = [] \<and> pull event (ys @ zs) s = pull event zs s'"
  by (induction ys arbitrary: s) (auto split: prod.splits option.splits)

lemma service_dispatch_owned:
  assumes "header_map_laws L" and "dr_response (service_dispatch C L R service request env w) = Finished r"
  shows "owned_exact L r"
proof -
  have json: "owned_exact L (payload_too_large L)" "owned_exact L (request_timeout L)"
    "owned_exact L (unavailable L)" "owned_exact L (bad_request L)"
    by (simp_all add: payload_too_large_def request_timeout_def unavailable_def bad_request_def
        json_owned_exact [OF assms(1)])
  from assms(2) show ?thesis
    by (auto simp: service_dispatch_def Let_def answered_def json
        split: option.splits sum.splits if_splits body_race.splits BodyReadError.splits
        dest: dispatch_buffered_owned [OF assms(1)])
qed

lemma normalize_body_headers [simp]:
  "irs_headers (fst (normalize_body r m)) = irs_headers r"
  "irs_status (fst (normalize_body r m)) = irs_status r"
  by (simp_all add: normalize_body_def Let_def)

lemma into_response_sel [simp]:
  "sv_headers (into_response L r rid w) = with_transport_headers L (irs_headers r) rid"
  "sv_socket_task (into_response L r rid w) = None"
  "sv_status (into_response L r rid w) = irs_status r"
  "sv_world (into_response L r rid w) = w"
  by (simp_all add: into_response_def)

text \<open>The headers of a served response, from those of the ingress response.\<close>

definition served_headers_ok :: "'h http_lib \<Rightarrow> header_value \<Rightarrow> ('h, 'p, 'w) served \<Rightarrow> bool" where
  "served_headers_ok L rid r \<longleftrightarrow>
     hm_get_all L (sv_headers r) ''x-request-id'' = [rid] \<and>
     hm_get_all L (sv_headers r) ''x-content-type-options'' = [plain ''nosniff''] \<and>
     (\<forall>n. is_static_hop_by_hop_header n \<or> n = ''content-length'' \<longrightarrow>
        hm_get_all L (sv_headers r) n =
          (if sv_socket_task r = None then []
           else if n = ''upgrade'' then [plain ''websocket'']
           else if n = ''connection'' then [plain ''Upgrade''] else []))"

lemma transport_get:
  assumes "header_map_laws L"
  shows "hm_get_all L (with_transport_headers L h rid) n =
    (if n = ''x-content-type-options'' then [plain ''nosniff'']
     else if n = ''x-request-id'' then [rid] else hm_get_all L h n)"
  by (simp add: with_transport_headers_def header_map_lawsD(2) [OF assms])

lemma hop_names:
  assumes "is_static_hop_by_hop_header n \<or> n = ''content-length''"
  shows "n \<noteq> ''x-request-id''" "n \<noteq> ''x-content-type-options''" "is_ingress_owned_response_header n"
  using assms by (auto simp: is_static_hop_by_hop_header_def is_ingress_owned_response_header_def)

lemma into_response_ok:
  assumes "header_map_laws L" and "no_owned L (irs_headers r)"
  shows "served_headers_ok L rid (into_response L r rid w)"
  using assms hop_names
  by (auto simp: served_headers_ok_def transport_get [OF assms(1)] no_owned_def)

lemma served_ok_cancelled [simp]:
  "served_headers_ok L rid (r\<lparr>sv_session_cancelled := c\<rparr>) = served_headers_ok L rid r"
  by (simp add: served_headers_ok_def)

lemma finish_call_ok:
  assumes "header_map_laws L" and "owned_exact L r"
  shows "served_headers_ok L rid (finish_call L m up policy rid w r)"
proof (cases "\<exists>u. irs_body r = WebSocket u")
  case True
  then obtain u where u: "irs_body r = WebSocket u" by blast
  have un: "no_owned L (irs_headers (fst (normalize_body (unavailable L) m)))"
    by (simp add: unavailable_def json_no_owned [OF assms(1)])
  have hop: "hm_get_all L (irs_headers r) n = upgrade_headers (WebSocket u) n"
    if "is_static_hop_by_hop_header n \<or> n = ''content-length''" for n
    using assms(2) hop_names(3) [OF that] u by (simp add: owned_exact_def)
  show ?thesis
  proof (cases "up \<and> policy \<noteq> None")
    case True
    with u hop hop_names show ?thesis
      by (auto simp: finish_call_def served_headers_ok_def transport_get [OF assms(1)] upgrade_headers_def)
  next
    case False
    with u into_response_ok [OF assms(1) un] show ?thesis by (auto simp: finish_call_def)
  qed
next
  case False
  then have "no_owned L (irs_headers (fst (normalize_body r m)))"
    using assms(2) by (cases "irs_body r") (auto simp: owned_exact_def no_owned_def upgrade_headers_def)
  from into_response_ok [OF assms(1) this] False show ?thesis
    by (cases "irs_body r") (auto simp: finish_call_def split: prod.splits)
qed

section \<open>Properties\<close>

text \<open>C21. For every configuration the builders can produce, reading a request body yields a body
  exactly when all its frames arrive intact and together stay within the configured limit, and
  the body is then their concatenation; no larger body is ever assembled.\<close>

theorem request_body_within_limit:
  assumes "built L config"
  shows "collect_bounded_body (wic_max_request_body_bytes config) frames = Inr b \<longleftrightarrow>
    (\<exists>ds. map frame_data frames = map Inr ds \<and> b = concat ds \<and>
      length b \<le> wic_max_request_body_bytes config)"
proof -
  have "wic_max_request_body_bytes config < usize_max"
    using config_validate_limits(1) [OF built_valid [OF assms]]
    by (simp add: in_limit_def MAX_TRANSFER_BYTES_def usize_max_def)
  then show ?thesis by (rule request_body.read_exact)
qed

theorem request_body_within_limit_witness:
  "collect_bounded_body (wic_max_request_body_bytes default_config)
     [BodyData ''ab'', BodyData [], BodyTrailers, BodyData ''c''] = Inr ''abc''"
proof -
  have "map frame_data [BodyData ''ab'', BodyData [], BodyTrailers, BodyData ''c''] =
      map Inr [''ab'', [], [], ''c'']" by (simp add: frame_data_def)
  moreover have "length (concat [''ab'', [], [], ''c'']) \<le> wic_max_request_body_bytes default_config"
    by (simp add: default_config_def)
  ultimately show ?thesis
    using request_body_within_limit [OF built_default,
        of "[BodyData ''ab'', BodyData [], BodyTrailers, BodyData ''c'']" "''abc''"]
    by (metis append.simps concat.simps)
qed

text \<open>Every response of the service, refusals included, carries exactly the request identity
  drawn for that request and the \<open>nosniff\<close> policy, and no hop-by-hop or length header except the
  upgrade pair when a WebSocket task was started; each call draws exactly one identity.\<close>

theorem service_call_headers:
  assumes "header_map_laws L" and "header_text_laws L"
    and "service_call C L R service request env next w = (Finished r, next')"
  shows "next' = next + 1 \<and> served_headers_ok L (plain (''lenso-'' @ decimal (unat next))) r"
proof -
  let ?rid = "plain (''lenso-'' @ decimal (unat next))"
  let ?h = "mark_sensitive_headers L (rp_headers (in_parts request)) (is_session_cookie service)"
  have rid: "replace_request_id L ?h next = Some (?rid, hm_insert L ?h ''x-request-id'' ?rid, next + 1)"
    by (simp add: replace_request_id_def sequence_next_def request_id_header_value_eq [OF assms(2)])
  have un: "no_owned L (irs_headers (unavailable L))"
    by (simp add: unavailable_def json_no_owned [OF assms(1)])
  from assms(3) show ?thesis
    unfolding service_call_def rid Let_def
    by (auto simp: unavailable_def json_owned_exact [OF assms(1)] split: if_splits progress.splits
        intro!: finish_call_ok [OF assms(1)] into_response_ok [OF assms(1) un [unfolded unavailable_def]]
        dest: service_dispatch_owned [OF assms(1)])
qed

abbreviation hello_service :: "((header_name \<times> header_value) list, (string \<times> RouteTarget) list, unit) IngressService" where
  "hello_service \<equiv> \<lparr>is_config = default_config, is_middleware = [], is_routes = hello_table,
     is_session_cookie = None, is_local_concurrency = False, is_cancellation = 1\<rparr>"

abbreviation hello_incoming :: "(header_name \<times> header_value) list incoming" where
  "hello_incoming \<equiv> \<lparr>in_parts = hello_parts, in_end_stream = True, in_frames = []\<rparr>"

abbreviation no_permit_env :: call_env where
  "no_permit_env \<equiv> \<lparr>env_local_permit = False, env_global_permit = False, env_race = BodyFinished,
     env_context = Inr (), env_cancelled = False, env_disconnect = 2, env_upgrade = False\<rparr>"

lemma hello_refused:
  "service_call constant_crypto list_http list_router hello_service hello_incoming no_permit_env 7 () =
     (Finished (finish_call list_http ''GET'' False None (plain (''lenso-'' @ decimal 7)) ()
        (unavailable list_http :: ((header_name \<times> header_value) list, nat) IngressResponse)), 8)"
proof -
  have "canonical_request_head_len list_http ''GET'' (rp_uri hello_parts) Http11
      (mark_sensitive_headers list_http (rp_headers hello_parts) None) \<le> 16384"
    by (simp add: canonical_request_head_len_def serialized_uri_len_def version_len_def
        mark_sensitive_headers_def list_http_def Let_def)
  moreover have "request_id_header_value list_http 7 = Some (plain (''lenso-'' @ decimal 7))"
    using request_id_header_value_eq [OF list_http_header_text_laws, of 7] by simp
  moreover have "\<not> hm_contains_key list_http (rp_headers hello_parts) ''upgrade''"
    by (simp add: hm_contains_key_def list_http_def)
  ultimately show ?thesis
    by (simp add: service_call_def replace_request_id_def sequence_next_def Let_def default_config_def)
qed

theorem service_call_headers_witness:
  "\<exists>r. service_call constant_crypto list_http list_router hello_service hello_incoming no_permit_env 7 () =
      (Finished (r :: ((header_name \<times> header_value) list, nat, unit) served), 8) \<and>
     served_headers_ok list_http (plain (''lenso-'' @ decimal 7)) r"
  using service_call_headers [OF list_http_header_map_laws list_http_header_text_laws hello_refused]
    hello_refused by auto

text \<open>A request whose head exceeds the configured limit, or that gets no admission permit, is
  answered by the ingress itself (431 or 503): no middleware and no endpoint sees it.\<close>

theorem refused_requests_reach_nobody:
  assumes "header_text_laws L"
    and "wic_max_request_head_bytes (is_config service) <
           canonical_request_head_len L (rp_method (in_parts request)) (rp_uri (in_parts request))
             (rp_version (in_parts request))
             (mark_sensitive_headers L (rp_headers (in_parts request)) (is_session_cookie service))
         \<or> \<not> env_global_permit env \<or> is_local_concurrency service \<and> \<not> env_local_permit env"
  shows "\<exists>r. service_call C L R service request env next w = (Finished r, next + 1) \<and>
    sv_world r = w \<and> sv_status r \<in> {431, 503} \<and> sv_socket_task r = None"
proof -
  have fin: "sv_world (finish_call L m up policy rid w (json_response L n b)) = w \<and>
      sv_status (finish_call L m up policy rid w (json_response L n b)) = n \<and>
      sv_socket_task (finish_call L m up policy rid w (json_response L n b)) = None" for m up policy rid n b
    by (simp add: finish_call_def json_response_def normalize_body_def Let_def)
  show ?thesis
    using assms(2)
    by (auto simp: service_call_def replace_request_id_def sequence_next_def Let_def
        request_id_header_value_eq [OF assms(1)] unavailable_def fin)
      (simp_all add: json_response_def)
qed

theorem refused_requests_reach_nobody_witness:
  "\<exists>r :: ((header_name \<times> header_value) list, nat, unit) served.
     service_call constant_crypto list_http list_router hello_service hello_incoming no_permit_env 7 () =
       (Finished r, 7 + 1) \<and> sv_status r \<in> {431, 503}"
  using refused_requests_reach_nobody [OF list_http_header_text_laws,
      of hello_service hello_incoming no_permit_env constant_crypto list_router 7 "()"] by auto

text \<open>A connection is closed as idle only when no request is active and none has begun or
  ended within the idle timeout; and an idle connection is recognised as such at the very instant
  the loop wakes for.\<close>

theorem idle_close_is_safe:
  assumes "activity_run opened log s now n"
  shows "(now \<le> t \<and> idle_expired t timeout s \<longrightarrow>
      n = 0 \<and> list_all (\<lambda>e. fst e + timeout \<le> t) log) \<and>
    (n = 0 \<longrightarrow> idle_expired (idle_deadline t timeout s) timeout s)"
  using activity_run_inv [OF assms]
  by (auto simp: idle_expired_def idle_deadline_def saturating_sub_def list_all_iff split: if_splits)

theorem idle_close_is_safe_witness:
  "activity_run 0 [(3, Begins), (5, Ends)] (activity_end 5 (activity_begin (activity_new 0))) 5 0 \<and>
   idle_expired (idle_deadline 9 10 (activity_end 5 (activity_begin (activity_new 0)))) 10
     (activity_end 5 (activity_begin (activity_new 0)))"
proof -
  have "activity_run 0 ([] @ [(3, Begins)]) (activity_begin (activity_new 0)) 3 (Suc 0)"
    by (rule run_begin [OF run_open]) (simp_all add: usize_max_def)
  from run_end [OF this, of 5]
  have r: "activity_run 0 [(3, Begins), (5, Ends)] (activity_end 5 (activity_begin (activity_new 0))) 5 0"
    by simp
  from r idle_close_is_safe [OF r] show ?thesis by blast
qed

text \<open>Polling a response body does not depend on when the stream's results become available:
  a poll that found nothing to deliver, repeated with what arrives later, does exactly what one
  poll with everything at hand would have done.\<close>

theorem poll_frame_resumes:
  assumes "poll_frame b yields = (PollPending, b', rest)"
  shows "rest = [] \<and> poll_frame b' later = poll_frame b (yields @ later)"
proof -
  obtain entered s where e: "(if sb_receive b then (Pending, sb_stream b) else stream_receive_enter (sb_stream b)) = (entered, s)"
    by (metis surj_pair)
  from assms e obtain s' where nd: "\<not> sb_done b" and p: "entered = Pending" "pull stream_receive_event yields s = (None, s', rest)"
    and b': "b' = b\<lparr>sb_stream := s', sb_receive := True\<rparr>"
    by (auto simp: poll_frame_def split: if_splits entered.splits prod.splits option.splits sum.splits)
  from pull_None [OF p(2), of later]
  have "rest = []" "pull stream_receive_event (yields @ later) s = pull stream_receive_event later s'" by auto
  then show ?thesis
    using e p(1) nd b' by (simp add: poll_frame_def split: prod.splits option.splits sum.splits)
qed

theorem poll_frame_resumes_witness:
  "\<exists>b' :: nat StreamingBody. poll_frame \<lparr>sb_stream = stream_new, sb_receive = False, sb_done = False\<rparr> [Inr PeerHalfClosed] =
      (PollPending, b', []) \<and>
     poll_frame b' [Inr (Terminal (Inr ()))] =
       poll_frame \<lparr>sb_stream = stream_new, sb_receive = False, sb_done = False\<rparr>
         ([Inr PeerHalfClosed] @ [Inr (Terminal (Inr ()))])"
proof -
  let ?b = "\<lparr>sb_stream = stream_new, sb_receive = False, sb_done = False\<rparr> :: nat StreamingBody"
  have "\<exists>b'. poll_frame ?b [Inr PeerHalfClosed] = (PollPending, b', [])"
    by (simp add: poll_frame_def stream_receive_enter_def stream_receive_event_def stream_new_def)
  then obtain b' where b': "poll_frame ?b [Inr PeerHalfClosed] = (PollPending, b', [])" by blast
  with poll_frame_resumes [OF b'] show ?thesis by blast
qed

end
