(* ===== verification/Replication.thy ===== *)
theory Replication
  imports Middleware IngressConfig Admission
begin

text \<open>
  One listener shared by equivalent ingress replicas (\<open>replication.rs\<close>): the coordinator binds
  once, hands every replica a slot, waits until all of them have published the same manifest, and
  then passes accepted connections on round robin, each under a permit of a shared semaphore.

  A channel is \<open>tokio::sync::mpsc\<close>, a record of operations with the laws \<open>mpsc_laws\<close>; the
  semaphore is that of \<open>Admission\<close>. Channels live in a store and a slot names its sender by
  index, so that a slot that registers again leaves its former channel to its receiver. What the
  operating system answers is an argument, and \<open>'c\<close> is a socket. The counters are \<open>AtomicUsize\<close>
  and wrap.
\<close>

datatype 'q try_sent = SentTo 'q | ChannelFull | ChannelClosed

record ('q, 'c) mpsc_lib =
  mpsc_channel :: "nat \<Rightarrow> 'q"
  mpsc_capacity :: "'q \<Rightarrow> nat"
  mpsc_is_closed :: "'q \<Rightarrow> bool"
  mpsc_queued :: "'q \<Rightarrow> 'c list"
  mpsc_try_send :: "'q \<Rightarrow> 'c \<Rightarrow> 'q try_sent"
  mpsc_recv :: "'q \<Rightarrow> ('c \<times> 'q) option"
  mpsc_close :: "'q \<Rightarrow> 'q"

text \<open>
  Documented behaviour: a channel is a queue of bounded length; sending to it fails exactly when
  its receiver is gone or it is full, and receiving takes the oldest message, also from a closed
  channel.
\<close>

definition mpsc_laws :: "('q, 'c) mpsc_lib \<Rightarrow> bool" where
  "mpsc_laws M \<longleftrightarrow>
     (\<forall>n. mpsc_queued M (mpsc_channel M n) = [] \<and> mpsc_capacity M (mpsc_channel M n) = n \<and>
        \<not> mpsc_is_closed M (mpsc_channel M n)) \<and>
     (\<forall>q c. (mpsc_try_send M q c = ChannelClosed \<longleftrightarrow> mpsc_is_closed M q) \<and>
        (mpsc_try_send M q c = ChannelFull \<longleftrightarrow>
           \<not> mpsc_is_closed M q \<and> mpsc_capacity M q \<le> length (mpsc_queued M q))) \<and>
     (\<forall>q c q'. mpsc_try_send M q c = SentTo q' \<longrightarrow>
        mpsc_queued M q' = mpsc_queued M q @ [c] \<and> mpsc_capacity M q' = mpsc_capacity M q \<and> \<not> mpsc_is_closed M q') \<and>
     (\<forall>q. mpsc_recv M q = None \<longleftrightarrow> mpsc_queued M q = []) \<and>
     (\<forall>q c q'. mpsc_recv M q = Some (c, q') \<longrightarrow>
        mpsc_queued M q = c # mpsc_queued M q' \<and> mpsc_capacity M q' = mpsc_capacity M q \<and>
        mpsc_is_closed M q' = mpsc_is_closed M q) \<and>
     (\<forall>q. mpsc_queued M (mpsc_close M q) = mpsc_queued M q \<and> mpsc_is_closed M (mpsc_close M q))"

lemma mpsc_lawsD:
  assumes "mpsc_laws M"
  shows "mpsc_queued M (mpsc_channel M n) = []" and "mpsc_capacity M (mpsc_channel M n) = n"
    and "\<not> mpsc_is_closed M (mpsc_channel M n)"
    and "mpsc_try_send M q c = ChannelClosed \<longleftrightarrow> mpsc_is_closed M q"
    and "mpsc_try_send M q c = ChannelFull \<longleftrightarrow> \<not> mpsc_is_closed M q \<and> mpsc_capacity M q \<le> length (mpsc_queued M q)"
    and "mpsc_try_send M q c = SentTo q' \<Longrightarrow>
      mpsc_queued M q' = mpsc_queued M q @ [c] \<and> mpsc_capacity M q' = mpsc_capacity M q \<and> \<not> mpsc_is_closed M q'"
    and "mpsc_recv M q = None \<longleftrightarrow> mpsc_queued M q = []"
    and "mpsc_recv M q = Some (x, q') \<Longrightarrow> mpsc_queued M q = x # mpsc_queued M q' \<and>
      mpsc_capacity M q' = mpsc_capacity M q \<and> mpsc_is_closed M q' = mpsc_is_closed M q"
    and "mpsc_queued M (mpsc_close M q) = mpsc_queued M q" and "mpsc_is_closed M (mpsc_close M q)"
  using assms unfolding mpsc_laws_def by blast+

section \<open>Coordinator state\<close>

record WebIngressReplicaManifest =
  rm_middleware :: "string list"
  rm_routes :: WebIngressRouteManifest

record ReplicaSlot =
  sl_allocated :: bool
  sl_manifest :: "WebIngressReplicaManifest option"
  sl_connections :: "nat option"

record CoordinatorState =
  co_slots :: "ReplicaSlot list"
  co_canonical_manifest :: "WebIngressReplicaManifest option"

definition coordinator_ready :: "CoordinatorState \<Rightarrow> bool" where
  "coordinator_ready st \<longleftrightarrow> list_all (\<lambda>slot. sl_manifest slot \<noteq> None) (co_slots st)"

record ('q, 's) ListenerCoordinator =
  lc_config :: WebIngressConfig
  lc_local_address :: string
  lc_state :: CoordinatorState
  lc_next_slot :: "64 word"
  lc_next_connection :: "64 word"
  lc_next_request_id :: "64 word"
  lc_request_concurrency :: 's
  lc_connection_concurrency :: 's
  lc_local_request_limit :: nat
  lc_acceptor_failure :: "string option"
  lc_ready :: bool
  lc_channels :: "'q list"

text \<open>The answers of the operating system while the listener is bound.\<close>

record listener_io =
  io_bind :: "string + unit"
  io_local_addr :: "string + string"
  io_into_std :: "string + unit"
  io_spawn :: "string + unit"

definition coordinator_bind ::
  "'h http_lib \<Rightarrow> 's semaphore_lib \<Rightarrow> listener_io \<Rightarrow> WebIngressConfig \<Rightarrow> nat \<Rightarrow>
   RuntimeFailure + ('q, 's) ListenerCoordinator" where
  "coordinator_bind L S io config replica_count =
     try_in (map_err plugin_failure (config_validate L config)) (\<lambda>_.
       if replica_count = 0
       then Inl (plugin_failure ''Web Ingress listener coordinator requires at least one replica'')
       else
         try_in (map_err (\<lambda>e. plugin_failure (''Web Ingress bind failed: '' @ e)) (io_bind io)) (\<lambda>_.
         try_in (map_err (\<lambda>e. plugin_failure (''Web Ingress address failed: '' @ e)) (io_local_addr io)) (\<lambda>address.
         try_in (map_err (\<lambda>e. plugin_failure (''Web Ingress listener transfer failed: '' @ e)) (io_into_std io)) (\<lambda>_.
         let inner = \<lparr>lc_config = config, lc_local_address = address,
               lc_state = \<lparr>co_slots = replicate replica_count
                   \<lparr>sl_allocated = False, sl_manifest = None, sl_connections = None\<rparr>,
                 co_canonical_manifest = None\<rparr>,
               lc_next_slot = 0, lc_next_connection = 0, lc_next_request_id = 0,
               lc_request_concurrency = sem_new S (wic_max_concurrent_requests config),
               lc_connection_concurrency = sem_new S (wic_max_connections config),
               lc_local_request_limit = div_ceil (wic_max_concurrent_requests config) replica_count,
               lc_acceptor_failure = None, lc_ready = False, lc_channels = []\<rparr>
         in try_in (map_err (\<lambda>e. plugin_failure (''Web Ingress acceptor could not start: '' @ e)) (io_spawn io)) (\<lambda>_.
              Inr inner)))))"

section \<open>Replicas\<close>

definition set_slot ::
  "nat \<Rightarrow> (ReplicaSlot \<Rightarrow> ReplicaSlot) \<Rightarrow> ('q, 's) ListenerCoordinator \<Rightarrow> ('q, 's) ListenerCoordinator" where
  "set_slot i f c =
     c\<lparr>lc_state := (lc_state c)\<lparr>co_slots := (co_slots (lc_state c))[i := f (co_slots (lc_state c) ! i)]\<rparr>\<rparr>"

text \<open>A replica is known by its slot.\<close>

definition allocate_replica_at ::
  "('q, 's) ListenerCoordinator \<Rightarrow> nat \<Rightarrow> ('q, 's) ListenerCoordinator \<times> (RuntimeFailure + nat)" where
  "allocate_replica_at c slot =
     (let slots = co_slots (lc_state c) in
      if length slots \<le> slot
      then (c, Inl (plugin_failure (''Web Ingress listener coordinator expected '' @ decimal (length slots) @ '' replicas'')))
      else if sl_allocated (slots ! slot)
      then (c, Inl (plugin_failure (''Web Ingress listener coordinator replica slot '' @ decimal slot @
        '' is already allocated'')))
      else (set_slot slot (\<lambda>s. s\<lparr>sl_allocated := True\<rparr>) c, Inr slot))"

definition allocate_replica ::
  "('q, 's) ListenerCoordinator \<Rightarrow> ('q, 's) ListenerCoordinator \<times> (RuntimeFailure + nat)" where
  "allocate_replica c =
     (let slot = unat (lc_next_slot c) in allocate_replica_at (c\<lparr>lc_next_slot := lc_next_slot c + 1\<rparr>) slot)"

definition replica_validate_config :: "('q, 's) ListenerCoordinator \<Rightarrow> WebIngressConfig \<Rightarrow> string + unit" where
  "replica_validate_config c config =
     (if config = lc_config c then Inr ()
      else Inl ''same-port Web Ingress replicas must use the coordinator configuration'')"

text \<open>What a registered replica gets: its receiver, the shared semaphores being the coordinator's own.\<close>

record 's ReplicaConnectionSource =
  rcs_receiver :: nat
  rcs_local_request_concurrency :: 's

text \<open>The part of \<open>register\<close> that stores an accepted manifest and the new channel, and signals readiness.\<close>

definition publish_manifest ::
  "('q, 'c) mpsc_lib \<Rightarrow> ('q, 's) ListenerCoordinator \<Rightarrow> nat \<Rightarrow> WebIngressReplicaManifest \<Rightarrow> nat \<Rightarrow> ('q, 's) ListenerCoordinator" where
  "publish_manifest M c i manifest queue_capacity =
     (let ch = length (lc_channels c);
          c = c\<lparr>lc_state := (lc_state c)\<lparr>co_canonical_manifest := Some manifest\<rparr>\<rparr>;
          c = set_slot i (\<lambda>s. s\<lparr>sl_manifest := Some manifest, sl_connections := Some ch\<rparr>) c;
          c = c\<lparr>lc_channels := lc_channels c @ [mpsc_channel M queue_capacity]\<rparr>
      in if coordinator_ready (lc_state c) then c\<lparr>lc_ready := True\<rparr> else c)"

text \<open>\<open>None\<close> is the panic of indexing a slot that does not exist or of dividing by no slots.\<close>

definition register ::
  "('q, 'c) mpsc_lib \<Rightarrow> 's semaphore_lib \<Rightarrow> ('q, 's) ListenerCoordinator \<Rightarrow> nat \<Rightarrow>
   WebIngressRouteManifest \<Rightarrow> string list \<Rightarrow>
   (('q, 's) ListenerCoordinator \<times> (RuntimeFailure + 's ReplicaConnectionSource)) option" where
  "register M S c i routes middleware =
     (let manifest = \<lparr>rm_middleware = middleware, rm_routes = routes\<rparr>;
          st = lc_state c
      in if length (co_slots st) = 0 then None
         else
           let queue_capacity = max (div_ceil (wic_max_connections (lc_config c)) (length (co_slots st))) 1 in
           if (case co_canonical_manifest st of None \<Rightarrow> False | Some canonical \<Rightarrow> canonical \<noteq> manifest)
           then Some (c, Inl (plugin_failure
             ''same-port Web Ingress replicas have different route or middleware manifests''))
           else if length (co_slots st) \<le> i then None
           else Some (publish_manifest M c i manifest queue_capacity,
             Inr \<lparr>rcs_receiver = length (lc_channels c),
                  rcs_local_request_concurrency = sem_new S (lc_local_request_limit c)\<rparr>))"

text \<open>
  \<open>receive\<close>: each round reads the failure reported so far and then waits for the receiver or for
  a change of the failure. The list gives what the rounds see; \<open>Waits\<close> is a call still waiting.
\<close>

datatype 'c source_event = Received "'c option" | FailureChanged | FailureSenderGone

datatype 'c received_connection = Waits | ReceiveFailed string | ReceivedConnection "'c option"

fun source_receive :: "(string option \<times> 'c source_event) list \<Rightarrow> 'c received_connection" where
  "source_receive [] = Waits"
| "source_receive ((failure, event) # rounds) =
     (case failure of
        Some detail \<Rightarrow> ReceiveFailed detail
      | None \<Rightarrow>
          (case event of
             Received c \<Rightarrow> ReceivedConnection c
           | FailureChanged \<Rightarrow> source_receive rounds
           | FailureSenderGone \<Rightarrow> ReceivedConnection None))"

section \<open>Distributing connections\<close>

definition report_acceptor_failure :: "string \<Rightarrow> ('q, 's) ListenerCoordinator \<Rightarrow> ('q, 's) ListenerCoordinator" where
  "report_acceptor_failure detail c = c\<lparr>lc_acceptor_failure := Some detail\<rparr>"

text \<open>The offsets of the loop, as slots; the result is the store with the connection sent, or the full channels.\<close>

fun try_slots ::
  "('q, 'c) mpsc_lib \<Rightarrow> ReplicaSlot list \<Rightarrow> 'q list \<Rightarrow> 'c \<Rightarrow> nat list \<Rightarrow> nat list \<Rightarrow> nat list + 'q list" where
  "try_slots M slots channels connection waiting [] = Inl waiting"
| "try_slots M slots channels connection waiting (slot # rest) =
     (case sl_connections (slots ! slot) of
        None \<Rightarrow> try_slots M slots channels connection waiting rest
      | Some ch \<Rightarrow>
          (case mpsc_try_send M (channels ! ch) connection of
             SentTo q \<Rightarrow> Inr (channels[ch := q])
           | ChannelFull \<Rightarrow> try_slots M slots channels connection (waiting @ [ch]) rest
           | ChannelClosed \<Rightarrow> try_slots M slots channels connection waiting rest))"

definition slot_order :: "nat \<Rightarrow> nat \<Rightarrow> nat list" where
  "slot_order start slot_count = map (\<lambda>offset. (start + offset) mod slot_count) [0..<slot_count]"

text \<open>
  \<open>distribute_connection\<close> up to its reservations: refused without a permit, sent, or waiting for
  the channels that were full.
\<close>

datatype distributed =
  ConnectionRefused | ConnectionSent | ConnectionWaits "nat list" | DistributionPanics

definition distribute_connection ::
  "('q, 'c) mpsc_lib \<Rightarrow> 's semaphore_lib \<Rightarrow> ('q, 's) ListenerCoordinator \<Rightarrow> 'c \<Rightarrow>
   ('q, 's) ListenerCoordinator \<times> distributed" where
  "distribute_connection M S c connection =
     (case sem_try_acquire S (lc_connection_concurrency c) of
        None \<Rightarrow> (c, ConnectionRefused)
      | Some permits \<Rightarrow>
          let slots = co_slots (lc_state c);
              start = unat (lc_next_connection c) mod length slots;
              c = c\<lparr>lc_connection_concurrency := permits, lc_next_connection := lc_next_connection c + 1\<rparr>
          in if slots = [] then (c, DistributionPanics)
             else case try_slots M slots (lc_channels c) connection [] (slot_order start (length slots)) of
               Inr channels \<Rightarrow> (c\<lparr>lc_channels := channels\<rparr>, ConnectionSent)
             | Inl waiting \<Rightarrow> (c, ConnectionWaits waiting))"

text \<open>
  One finished reservation, in whatever order they finish: it sends the connection, or its channel
  is closed and the others remain. With none left the connection is dropped (\<open>gives_up\<close> below).
\<close>

definition reservation_done ::
  "('q, 'c) mpsc_lib \<Rightarrow> ('q, 's) ListenerCoordinator \<Rightarrow> 'c \<Rightarrow> nat list \<Rightarrow> nat \<Rightarrow>
   ('q, 's) ListenerCoordinator \<times> distributed" where
  "reservation_done M c connection waiting ch =
     (case mpsc_try_send M (lc_channels c ! ch) connection of
        SentTo q \<Rightarrow> (c\<lparr>lc_channels := (lc_channels c)[ch := q]\<rparr>, ConnectionSent)
      | ChannelFull \<Rightarrow> (c, ConnectionWaits waiting)
      | ChannelClosed \<Rightarrow> (c, ConnectionWaits (remove1 ch waiting)))"

section \<open>The shared listener as a transition system\<close>

text \<open>
  The steps of all threads: replicas are allocated and register, the acceptor wakes once the
  coordinator is ready and then handles one connection at a time, receivers take connections,
  go away and drain their channel one message after the other, and served connections end. A
  connection holds its permit until it is dropped.
\<close>

datatype acceptor_phase = AwaitingReady | Accepting | Stopped

record ('q, 's, 'c) listener_system =
  ls_coordinator :: "('q, 's) ListenerCoordinator"
  ls_acceptor :: acceptor_phase
  ls_replicas :: "nat list"
  ls_pending :: "('c \<times> nat list) option"
  ls_serving :: "'c list"

definition listener_start :: "('q, 's) ListenerCoordinator \<Rightarrow> ('q, 's, 'c) listener_system" where
  "listener_start c = \<lparr>ls_coordinator = c, ls_acceptor = AwaitingReady, ls_replicas = [], ls_pending = None, ls_serving = []\<rparr>"

definition slots_of :: "('q, 's, 'c) listener_system \<Rightarrow> ReplicaSlot list" where
  "slots_of s = co_slots (lc_state (ls_coordinator s))"

definition set_channel :: "nat \<Rightarrow> 'q \<Rightarrow> ('q, 's) ListenerCoordinator \<Rightarrow> ('q, 's) ListenerCoordinator" where
  "set_channel ch q c = c\<lparr>lc_channels := (lc_channels c)[ch := q]\<rparr>"

definition release_connection :: "'s semaphore_lib \<Rightarrow> ('q, 's) ListenerCoordinator \<Rightarrow> ('q, 's) ListenerCoordinator" where
  "release_connection S c = c\<lparr>lc_connection_concurrency := sem_release S (lc_connection_concurrency c)\<rparr>"

definition pending_after :: "'c \<Rightarrow> distributed \<Rightarrow> ('c \<times> nat list) option" where
  "pending_after connection outcome = (case outcome of ConnectionWaits w \<Rightarrow> Some (connection, w) | _ \<Rightarrow> None)"

datatype 'c listener_event =
    Allocates | AllocatesAt nat | Registers nat WebIngressRouteManifest "string list"
  | AcceptorWakes | AcceptorFails string | AcceptorStops
  | Accepts 'c | Reserves nat | GivesUp | Receives nat | ReceiverGone nat | Drains nat | ConnectionEnds 'c

inductive listener_step ::
  "('q, 'c) mpsc_lib \<Rightarrow> 's semaphore_lib \<Rightarrow> ('q, 's, 'c) listener_system \<Rightarrow> 'c listener_event \<Rightarrow>
   ('q, 's, 'c) listener_system \<Rightarrow> bool" for M S where
  allocates: "allocate_replica (ls_coordinator s) = (c, r) \<Longrightarrow>
    listener_step M S s Allocates (s\<lparr>ls_coordinator := c,
      ls_replicas := ls_replicas s @ (case r of Inl _ \<Rightarrow> [] | Inr i \<Rightarrow> [i])\<rparr>)"
| allocates_at: "allocate_replica_at (ls_coordinator s) i = (c, r) \<Longrightarrow>
    listener_step M S s (AllocatesAt i) (s\<lparr>ls_coordinator := c,
      ls_replicas := ls_replicas s @ (case r of Inl _ \<Rightarrow> [] | Inr i \<Rightarrow> [i])\<rparr>)"
| registers: "i \<in> set (ls_replicas s) \<Longrightarrow> register M S (ls_coordinator s) i routes middleware = Some (c, r) \<Longrightarrow>
    listener_step M S s (Registers i routes middleware) (s\<lparr>ls_coordinator := c\<rparr>)"
| acceptor_wakes: "ls_acceptor s = AwaitingReady \<Longrightarrow> lc_ready (ls_coordinator s) \<Longrightarrow>
    listener_step M S s AcceptorWakes (s\<lparr>ls_acceptor := Accepting\<rparr>)"
| acceptor_fails: "ls_acceptor s \<noteq> Stopped \<Longrightarrow> ls_pending s = None \<Longrightarrow>
    listener_step M S s (AcceptorFails detail)
      (s\<lparr>ls_coordinator := report_acceptor_failure detail (ls_coordinator s), ls_acceptor := Stopped\<rparr>)"
| acceptor_stops: "ls_pending s = None \<Longrightarrow> listener_step M S s AcceptorStops (s\<lparr>ls_acceptor := Stopped\<rparr>)"
| accepts: "ls_acceptor s = Accepting \<Longrightarrow> ls_pending s = None \<Longrightarrow>
    distribute_connection M S (ls_coordinator s) connection = (c, outcome) \<Longrightarrow>
    listener_step M S s (Accepts connection) (s\<lparr>ls_coordinator := c, ls_pending := pending_after connection outcome\<rparr>)"
| reserves: "ls_pending s = Some (connection, waiting) \<Longrightarrow> ch \<in> set waiting \<Longrightarrow>
    mpsc_try_send M (lc_channels (ls_coordinator s) ! ch) connection \<noteq> ChannelFull \<Longrightarrow>
    reservation_done M (ls_coordinator s) connection waiting ch = (c, outcome) \<Longrightarrow>
    listener_step M S s (Reserves ch) (s\<lparr>ls_coordinator := c, ls_pending := pending_after connection outcome\<rparr>)"
| gives_up: "ls_pending s = Some (connection, []) \<Longrightarrow>
    listener_step M S s GivesUp (s\<lparr>ls_coordinator := release_connection S (ls_coordinator s), ls_pending := None\<rparr>)"
| receives: "ch < length (lc_channels (ls_coordinator s)) \<Longrightarrow>
    mpsc_recv M (lc_channels (ls_coordinator s) ! ch) = Some (connection, q) \<Longrightarrow>
    listener_step M S s (Receives ch) (s\<lparr>ls_coordinator := set_channel ch q (ls_coordinator s),
      ls_serving := ls_serving s @ [connection]\<rparr>)"
| receiver_gone: "ch < length (lc_channels (ls_coordinator s)) \<Longrightarrow>
    listener_step M S s (ReceiverGone ch) (s\<lparr>ls_coordinator :=
      set_channel ch (mpsc_close M (lc_channels (ls_coordinator s) ! ch)) (ls_coordinator s)\<rparr>)"
| drains: "ch < length (lc_channels (ls_coordinator s)) \<Longrightarrow> mpsc_is_closed M (lc_channels (ls_coordinator s) ! ch) \<Longrightarrow>
    mpsc_recv M (lc_channels (ls_coordinator s) ! ch) = Some (connection, q) \<Longrightarrow>
    listener_step M S s (Drains ch)
      (s\<lparr>ls_coordinator := release_connection S (set_channel ch q (ls_coordinator s))\<rparr>)"
| connection_ends: "connection \<in> set (ls_serving s) \<Longrightarrow>
    listener_step M S s (ConnectionEnds connection) (s\<lparr>ls_coordinator := release_connection S (ls_coordinator s),
      ls_serving := remove1 connection (ls_serving s)\<rparr>)"

definition queued_connections :: "('q, 'c) mpsc_lib \<Rightarrow> ('q, 's) ListenerCoordinator \<Rightarrow> 'c list" where
  "queued_connections M c = concat (map (mpsc_queued M) (lc_channels c))"

text \<open>The connections that hold a permit: the one being placed, those in channels and those served.\<close>

definition held_connections :: "('q, 'c) mpsc_lib \<Rightarrow> ('q, 's, 'c) listener_system \<Rightarrow> 'c list" where
  "held_connections M s =
     (case ls_pending s of None \<Rightarrow> [] | Some (connection, _) \<Rightarrow> [connection]) @
     queued_connections M (ls_coordinator s) @ ls_serving s"

section \<open>The invariant of the coordinator\<close>

definition slots_inv :: "('q, 's) ListenerCoordinator \<Rightarrow> bool" where
  "slots_inv c \<longleftrightarrow>
     co_slots (lc_state c) \<noteq> [] \<and>
     (\<forall>slot \<in> set (co_slots (lc_state c)).
        (sl_manifest slot = None \<or> sl_manifest slot = co_canonical_manifest (lc_state c)) \<and>
        (\<forall>ch. sl_connections slot = Some ch \<longrightarrow> ch < length (lc_channels c))) \<and>
     (lc_ready c \<longrightarrow> coordinator_ready (lc_state c))"

definition allocation_inv :: "('q, 's, 'c) listener_system \<Rightarrow> bool" where
  "allocation_inv s \<longleftrightarrow> distinct (ls_replicas s) \<and>
     (\<forall>i. i \<in> set (ls_replicas s) \<longleftrightarrow> i < length (slots_of s) \<and> sl_allocated (slots_of s ! i))"

definition listener_inv :: "('q, 'c) mpsc_lib \<Rightarrow> ('q, 's, 'c) listener_system \<Rightarrow> bool" where
  "listener_inv M s \<longleftrightarrow>
     slots_inv (ls_coordinator s) \<and> allocation_inv s \<and>
     (\<forall>connection waiting. ls_pending s = Some (connection, waiting) \<longrightarrow>
        (\<forall>ch \<in> set waiting. ch < length (lc_channels (ls_coordinator s)))) \<and>
     (ls_acceptor s = Accepting \<or> held_connections M s \<noteq> [] \<longrightarrow> lc_ready (ls_coordinator s))"

lemma set_slot_fields [simp]:
  "lc_channels (set_slot i f c) = lc_channels c" "lc_ready (set_slot i f c) = lc_ready c"
  "lc_connection_concurrency (set_slot i f c) = lc_connection_concurrency c"
  "co_canonical_manifest (lc_state (set_slot i f c)) = co_canonical_manifest (lc_state c)"
  "co_slots (lc_state (set_slot i f c)) = (co_slots (lc_state c))[i := f (co_slots (lc_state c) ! i)]"
  by (simp_all add: set_slot_def)

lemma set_channel_fields [simp]:
  "lc_channels (set_channel ch q c) = (lc_channels c)[ch := q]" "lc_ready (set_channel ch q c) = lc_ready c"
  "lc_connection_concurrency (set_channel ch q c) = lc_connection_concurrency c"
  "lc_state (set_channel ch q c) = lc_state c"
  by (simp_all add: set_channel_def)

lemma release_connection_fields [simp]:
  "lc_channels (release_connection S c) = lc_channels c" "lc_ready (release_connection S c) = lc_ready c"
  "lc_connection_concurrency (release_connection S c) = sem_release S (lc_connection_concurrency c)"
  "lc_state (release_connection S c) = lc_state c"
  by (simp_all add: release_connection_def)

lemma allocate_replica_at_cases:
  assumes "allocate_replica_at c i = (c', r)"
  obtains e where "r = Inl e" and "c' = c"
  | "r = Inr i" and "i < length (co_slots (lc_state c))" and "\<not> sl_allocated (co_slots (lc_state c) ! i)"
    and "c' = set_slot i (\<lambda>s. s\<lparr>sl_allocated := True\<rparr>) c"
  using assms by (auto simp: allocate_replica_at_def Let_def not_le split: if_splits)

lemma set_update_all:
  assumes "\<forall>x \<in> set xs. P x" and "i < length xs \<Longrightarrow> P y"
  shows "\<forall>x \<in> set (xs[i := y]). P x"
proof
  fix x assume x: "x \<in> set (xs[i := y])"
  show "P x"
  proof (cases "i < length xs")
    case True
    then show ?thesis using x assms set_update_subset_insert [of xs i y] by blast
  next
    case False
    then show ?thesis using x assms(1) by (simp add: list_update_beyond)
  qed
qed

lemma coordinator_ready_set: "coordinator_ready st \<longleftrightarrow> (\<forall>slot \<in> set (co_slots st). sl_manifest slot \<noteq> None)"
  by (simp add: coordinator_ready_def list_all_iff)

lemma set_update_manifest:
  "\<forall>slot \<in> set slots. sl_manifest slot \<noteq> None \<Longrightarrow> (i < length slots \<Longrightarrow> sl_manifest y \<noteq> None) \<Longrightarrow>
   \<forall>slot \<in> set (slots[i := y]). sl_manifest slot \<noteq> None"
  by (rule set_update_all)

lemma allocate_at_inv:
  assumes "allocate_replica_at c i = (c', r)" and "slots_inv c"
  shows "slots_inv c'"
  using assms(1)
proof (cases rule: allocate_replica_at_cases)
  case 2
  let ?slots = "co_slots (lc_state c)"
  let ?P = "\<lambda>slot. (sl_manifest slot = None \<or> sl_manifest slot = co_canonical_manifest (lc_state c)) \<and>
        (\<forall>ch. sl_connections slot = Some ch \<longrightarrow> ch < length (lc_channels c))"
  have all: "\<forall>slot \<in> set ?slots. ?P slot" and rdy: "lc_ready c \<longrightarrow> (\<forall>slot \<in> set ?slots. sl_manifest slot \<noteq> None)"
    and ne: "?slots \<noteq> []"
    using assms(2) by (simp_all add: slots_inv_def coordinator_ready_set)
  have mem: "?slots ! i \<in> set ?slots" using 2(2) by simp
  have "?P ((?slots ! i)\<lparr>sl_allocated := True\<rparr>)" using bspec [OF all mem] by simp
  then have "\<forall>slot \<in> set (?slots[i := (?slots ! i)\<lparr>sl_allocated := True\<rparr>]). ?P slot"
    by (intro set_update_all [OF all])
  moreover have "lc_ready c \<longrightarrow> (\<forall>slot \<in> set (?slots[i := (?slots ! i)\<lparr>sl_allocated := True\<rparr>]). sl_manifest slot \<noteq> None)"
    using rdy mem by (intro impI set_update_manifest) auto
  ultimately show ?thesis using ne by (simp add: 2(4) slots_inv_def coordinator_ready_set)
qed (use assms(2) in simp)

lemma publish_manifest_fields [simp]:
  "co_slots (lc_state (publish_manifest M c i m n)) = (co_slots (lc_state c))[i := (co_slots (lc_state c) ! i)
     \<lparr>sl_manifest := Some m, sl_connections := Some (length (lc_channels c))\<rparr>]"
  "co_canonical_manifest (lc_state (publish_manifest M c i m n)) = Some m"
  "lc_channels (publish_manifest M c i m n) = lc_channels c @ [mpsc_channel M n]"
  "lc_connection_concurrency (publish_manifest M c i m n) = lc_connection_concurrency c"
  by (simp_all add: publish_manifest_def Let_def set_slot_def)

lemma publish_manifest_ready:
  "lc_ready (publish_manifest M c i m n) \<longleftrightarrow> lc_ready c \<or> coordinator_ready (lc_state (publish_manifest M c i m n))"
  by (simp add: publish_manifest_def Let_def set_slot_def)

lemma register_cases:
  assumes "register M S c i routes middleware = Some (c', r)"
  obtains e where "r = Inl e" and "c' = c"
  | n source manifest where "manifest = \<lparr>rm_middleware = middleware, rm_routes = routes\<rparr>" and "r = Inr source"
    and "i < length (co_slots (lc_state c))"
    and "co_canonical_manifest (lc_state c) = None \<or> co_canonical_manifest (lc_state c) = Some manifest"
    and "c' = publish_manifest M c i manifest n"
proof -
  let ?m = "\<lparr>rm_middleware = middleware, rm_routes = routes\<rparr>"
  consider "case co_canonical_manifest (lc_state c) of None \<Rightarrow> False | Some canonical \<Rightarrow> canonical \<noteq> ?m"
    | "co_canonical_manifest (lc_state c) = None \<or> co_canonical_manifest (lc_state c) = Some ?m"
    by (cases "co_canonical_manifest (lc_state c)") auto
  then show thesis
  proof cases
    case 1
    then have "c' = c" "\<exists>e. r = Inl e" using assms by (auto simp: register_def Let_def split: if_splits)
    with that(1) show thesis by blast
  next
    case 2
    then have "\<not> (case co_canonical_manifest (lc_state c) of None \<Rightarrow> False | Some canonical \<Rightarrow> canonical \<noteq> ?m)" by auto
    with assms have "i < length (co_slots (lc_state c))" "\<exists>n. c' = publish_manifest M c i ?m n" "\<exists>source. r = Inr source"
      by (auto simp: register_def Let_def not_le simp del: publish_manifest_fields split: if_splits)
    with that(2) [OF refl] 2 show thesis by blast
  qed
qed

lemma register_inv:
  assumes "register M S c i routes middleware = Some (c', r)" and "slots_inv c"
  shows "slots_inv c'"
  using assms(1)
proof (cases rule: register_cases)
  case (2 n source manifest)
  let ?slots = "co_slots (lc_state c)"
  let ?y = "(?slots ! i)\<lparr>sl_manifest := Some manifest, sl_connections := Some (length (lc_channels c))\<rparr>"
  let ?P = "\<lambda>slot. (sl_manifest slot = None \<or> sl_manifest slot = Some manifest) \<and>
        (\<forall>ch. sl_connections slot = Some ch \<longrightarrow> ch < Suc (length (lc_channels c)))"
  have "\<forall>slot \<in> set ?slots. ?P slot" using assms(2) 2(4) by (auto simp: slots_inv_def less_Suc_eq)
  then have "\<forall>slot \<in> set (?slots[i := ?y]). ?P slot" by (rule set_update_all) simp
  moreover have "lc_ready c \<Longrightarrow> coordinator_ready (lc_state c')"
  proof -
    assume "lc_ready c"
    with assms(2) have "\<forall>slot \<in> set ?slots. sl_manifest slot \<noteq> None" by (simp add: slots_inv_def coordinator_ready_set)
    then have "\<forall>slot \<in> set (?slots[i := ?y]). sl_manifest slot \<noteq> None" by (rule set_update_manifest) simp
    then show "coordinator_ready (lc_state c')" by (simp add: 2(5) coordinator_ready_set)
  qed
  then have "lc_ready c' \<Longrightarrow> coordinator_ready (lc_state c')" by (auto simp: 2(5) publish_manifest_ready)
  ultimately show ?thesis using assms(2) by (simp add: slots_inv_def 2(5))
qed (use assms(2) in simp)

section \<open>Placing one connection\<close>

text \<open>A slot takes the connection now: it has registered, and its channel is open and has room.\<close>

definition takes :: "('q, 'c) mpsc_lib \<Rightarrow> ReplicaSlot list \<Rightarrow> 'q list \<Rightarrow> nat \<Rightarrow> bool" where
  "takes M slots channels i \<longleftrightarrow>
     (case sl_connections (slots ! i) of
        None \<Rightarrow> False
      | Some ch \<Rightarrow> \<not> mpsc_is_closed M (channels ! ch) \<and>
          length (mpsc_queued M (channels ! ch)) < mpsc_capacity M (channels ! ch))"

lemma try_send_sent_iff:
  assumes "mpsc_laws M"
  shows "(\<exists>q'. mpsc_try_send M q c = SentTo q') \<longleftrightarrow>
    \<not> mpsc_is_closed M q \<and> length (mpsc_queued M q) < mpsc_capacity M q"
  using mpsc_lawsD(4,5) [OF assms, of q c] by (cases "mpsc_try_send M q c") auto

text \<open>The full channels among those the slots name.\<close>

definition full_channels :: "('q, 'c) mpsc_lib \<Rightarrow> ReplicaSlot list \<Rightarrow> 'q list \<Rightarrow> nat list \<Rightarrow> nat list" where
  "full_channels M slots channels order =
     filter (\<lambda>ch. \<not> mpsc_is_closed M (channels ! ch)) (List.map_filter (\<lambda>i. sl_connections (slots ! i)) order)"

lemma try_slots_outcome:
  assumes "mpsc_laws M"
  shows "case find (takes M slots channels) order of
      None \<Rightarrow> try_slots M slots channels c waiting order = Inl (waiting @ full_channels M slots channels order)
    | Some i \<Rightarrow> (\<exists>ch q. i \<in> set order \<and> sl_connections (slots ! i) = Some ch \<and> mpsc_try_send M (channels ! ch) c = SentTo q \<and>
        try_slots M slots channels c waiting order = Inr (channels[ch := q]))"
proof (induction order arbitrary: waiting)
  case (Cons i order)
  show ?case
  proof (cases "sl_connections (slots ! i)")
    case None
    with Cons [of waiting] show ?thesis
      by (auto simp: takes_def full_channels_def map_filter_simps split: option.splits)
  next
    case (Some ch)
    note sent = try_send_sent_iff [OF assms, of "channels ! ch" c]
    show ?thesis
    proof (cases "mpsc_try_send M (channels ! ch) c")
      case (SentTo q)
      with Some sent show ?thesis by (auto simp: takes_def)
    next
      case ChannelFull
      moreover from this have "\<not> takes M slots channels i" using Some sent by (auto simp: takes_def)
      moreover have "\<not> mpsc_is_closed M (channels ! ch)" using ChannelFull mpsc_lawsD(5) [OF assms] by blast
      ultimately show ?thesis using Some Cons [of "waiting @ [ch]"]
        by (auto simp: full_channels_def map_filter_simps split: option.splits)
    next
      case ChannelClosed
      moreover from this have "\<not> takes M slots channels i" using Some sent by (auto simp: takes_def)
      moreover have "mpsc_is_closed M (channels ! ch)" using ChannelClosed mpsc_lawsD(4) [OF assms] by blast
      ultimately show ?thesis using Some Cons [of waiting]
        by (auto simp: full_channels_def map_filter_simps split: option.splits)
    qed
  qed
qed (simp add: full_channels_def map_filter_simps)

lemma slot_order_range: "n \<noteq> 0 \<Longrightarrow> set (slot_order start n) = {..<n}"
proof -
  assume n: "n \<noteq> 0"
  have "i \<in> set (slot_order start n)" if "i < n" for i
  proof -
    let ?o = "(i + (n - start mod n)) mod n"
    have "(start + ?o) mod n = (start mod n + (i + (n - start mod n))) mod n" by (simp add: mod_simps)
    also have "start mod n + (i + (n - start mod n)) = i + n" using mod_less_divisor [of n start] n by linarith
    also have "(i + n) mod n = i" using that by simp
    finally have "i = (\<lambda>offset. (start + offset) mod n) ?o" by (rule sym)
    moreover have "?o \<in> set [0..<n]" using n by simp
    ultimately show ?thesis unfolding slot_order_def set_map by (rule image_eqI)
  qed
  moreover have "set (slot_order start n) \<subseteq> {..<n}" using n by (auto simp: slot_order_def)
  ultimately show "set (slot_order start n) = {..<n}" by blast
qed

lemma concat_update_length:
  "k < length xs \<Longrightarrow> length (concat (map f (xs[k := y]))) + length (f (xs ! k)) = length (concat (map f xs)) + length (f y)"
proof (induction xs arbitrary: k)
  case (Cons x xs)
  then show ?case by (cases k) auto
qed simp

lemma queued_set_channel:
  assumes "ch < length (lc_channels c)" and "lc_channels c' = (lc_channels c)[ch := q]"
  shows "length (queued_connections M c') + length (mpsc_queued M (lc_channels c ! ch)) =
    length (queued_connections M c) + length (mpsc_queued M q)"
  using concat_update_length [OF assms(1)] by (simp add: queued_connections_def assms(2))

lemma queued_in_set_channel:
  assumes "ch < length (lc_channels c)"
  shows "length (queued_connections M (set_channel ch q c)) + length (mpsc_queued M (lc_channels c ! ch)) =
    length (queued_connections M c) + length (mpsc_queued M q)"
  by (rule queued_set_channel [OF assms]) simp

text \<open>What placing a connection does to permits, channels and slots.\<close>

definition placed :: "('q, 'c) mpsc_lib \<Rightarrow> ('q, 's) ListenerCoordinator \<Rightarrow> ('q, 's) ListenerCoordinator \<Rightarrow> distributed \<Rightarrow> bool" where
  "placed M c c' outcome \<longleftrightarrow>
     lc_state c' = lc_state c \<and> lc_ready c' = lc_ready c \<and> length (lc_channels c') = length (lc_channels c) \<and>
     length (queued_connections M c') = length (queued_connections M c) + (if outcome = ConnectionSent then 1 else 0) \<and>
     (\<forall>waiting. outcome = ConnectionWaits waiting \<longrightarrow> (\<forall>ch \<in> set waiting. ch < length (lc_channels c)))"

lemma full_channels_range:
  assumes "slots_inv c" and "ch \<in> set (full_channels M (co_slots (lc_state c)) channels order)"
    and "set order \<subseteq> {..<length (co_slots (lc_state c))}"
  shows "ch < length (lc_channels c)"
proof -
  from assms(2) obtain i where "i \<in> set order" "sl_connections (co_slots (lc_state c) ! i) = Some ch"
    by (auto simp: full_channels_def List.map_filter_def)
  moreover from this have "co_slots (lc_state c) ! i \<in> set (co_slots (lc_state c))" using assms(3) by auto
  ultimately show ?thesis using assms(1) by (auto simp: slots_inv_def)
qed

lemma distribute_connection_placed:
  assumes laws: "mpsc_laws M" and inv: "slots_inv c" and d: "distribute_connection M S c x = (c', outcome)"
  shows "placed M c c' outcome"
    and "if outcome = ConnectionRefused then c' = c \<and> sem_try_acquire S (lc_connection_concurrency c) = None
         else \<exists>permits. sem_try_acquire S (lc_connection_concurrency c) = Some permits \<and>
           lc_connection_concurrency c' = permits"
    and "outcome \<noteq> DistributionPanics"
proof -
  let ?slots = "co_slots (lc_state c)"
  let ?order = "slot_order (unat (lc_next_connection c) mod length ?slots) (length ?slots)"
  let ?find = "find (takes M ?slots (lc_channels c)) ?order"
  have ne: "?slots \<noteq> []" using inv by (simp add: slots_inv_def)
  then have range: "set ?order = {..<length ?slots}" by (intro slot_order_range) simp
  note out = try_slots_outcome [OF laws, of ?slots "lc_channels c" x "[]" ?order]
  consider (refused) "sem_try_acquire S (lc_connection_concurrency c) = None"
    | (sent) permits i ch q where "sem_try_acquire S (lc_connection_concurrency c) = Some permits" "i < length ?slots"
        "sl_connections (?slots ! i) = Some ch" "mpsc_try_send M (lc_channels c ! ch) x = SentTo q"
        "try_slots M ?slots (lc_channels c) x [] ?order = Inr ((lc_channels c)[ch := q])"
    | (unsent) permits where "sem_try_acquire S (lc_connection_concurrency c) = Some permits"
        "try_slots M ?slots (lc_channels c) x [] ?order = Inl (full_channels M ?slots (lc_channels c) ?order)"
    using out range by (cases ?find; cases "sem_try_acquire S (lc_connection_concurrency c)") auto
  then have "placed M c c' outcome \<and> (if outcome = ConnectionRefused then c' = c \<and> sem_try_acquire S (lc_connection_concurrency c) = None
         else \<exists>permits. sem_try_acquire S (lc_connection_concurrency c) = Some permits \<and>
           lc_connection_concurrency c' = permits) \<and>
      outcome \<noteq> DistributionPanics"
  proof cases
    case refused
    then show ?thesis using d by (auto simp: distribute_connection_def placed_def)
  next
    case sent
    have mem: "?slots ! i \<in> set ?slots" using sent(2) by simp
    then have ch: "ch < length (lc_channels c)" using inv sent(3) by (auto simp: slots_inv_def)
    have c': "outcome = ConnectionSent" "lc_channels c' = (lc_channels c)[ch := q]" "lc_state c' = lc_state c"
        "lc_ready c' = lc_ready c" "lc_connection_concurrency c' = permits"
      using d sent(1,5) ne by (auto simp: distribute_connection_def Let_def)
    have "length (queued_connections M c') + length (mpsc_queued M (lc_channels c ! ch)) =
        length (queued_connections M c) + length (mpsc_queued M q)" by (rule queued_set_channel [OF ch c'(2)])
    moreover have "length (mpsc_queued M q) = Suc (length (mpsc_queued M (lc_channels c ! ch)))"
      using mpsc_lawsD(6) [OF laws sent(4)] by simp
    ultimately show ?thesis using sent(1) c' by (simp add: placed_def)
  next
    case unsent
    let ?full = "full_channels M ?slots (lc_channels c) ?order"
    have rangef: "\<forall>ch \<in> set ?full. ch < length (lc_channels c)"
      using full_channels_range [OF inv] range by blast
    then show ?thesis using d unsent ne
      by (auto simp: distribute_connection_def Let_def placed_def queued_connections_def)
  qed
  then show "placed M c c' outcome" and "if outcome = ConnectionRefused then c' = c \<and> sem_try_acquire S (lc_connection_concurrency c) = None
         else \<exists>permits. sem_try_acquire S (lc_connection_concurrency c) = Some permits \<and>
           lc_connection_concurrency c' = permits"
    and "outcome \<noteq> DistributionPanics"
    by blast+
qed

lemma reservation_done_placed:
  assumes laws: "mpsc_laws M" and "ch \<in> set waiting" and range: "\<forall>ch \<in> set waiting. ch < length (lc_channels c)"
    and "mpsc_try_send M (lc_channels c ! ch) x \<noteq> ChannelFull"
    and d: "reservation_done M c x waiting ch = (c', outcome)"
  shows "placed M c c' outcome \<and> lc_connection_concurrency c' = lc_connection_concurrency c \<and>
    (outcome = ConnectionSent \<or> (\<exists>w. outcome = ConnectionWaits w))"
proof (cases "mpsc_try_send M (lc_channels c ! ch) x")
  case (SentTo q)
  have ch: "ch < length (lc_channels c)" using assms(2,3) by blast
  have c': "outcome = ConnectionSent" "c' = c\<lparr>lc_channels := (lc_channels c)[ch := q]\<rparr>"
    using d SentTo by (auto simp: reservation_done_def)
  have "length (queued_connections M c') + length (mpsc_queued M (lc_channels c ! ch)) =
      length (queued_connections M c) + length (mpsc_queued M q)" by (rule queued_set_channel [OF ch]) (simp add: c')
  with mpsc_lawsD(6) [OF laws SentTo] c' show ?thesis by (simp add: placed_def)
next
  case ChannelClosed
  have "\<forall>k \<in> set (remove1 ch waiting). k < length (lc_channels c)" using range set_remove1_subset [of ch waiting] by blast
  with d ChannelClosed show ?thesis
    by (auto simp: reservation_done_def placed_def queued_connections_def)
qed (use assms(4) in simp)

section \<open>The invariant holds in every reachable state\<close>

lemma slots_inv_transfer:
  assumes "slots_inv c" and "lc_state c' = lc_state c" and "lc_ready c' = lc_ready c"
    and "length (lc_channels c') = length (lc_channels c)"
  shows "slots_inv c'"
  using assms by (simp add: slots_inv_def)

lemma allocation_inv_transfer:
  assumes "allocation_inv s" and "slots_of s' = slots_of s" and "ls_replicas s' = ls_replicas s"
  shows "allocation_inv s'"
  using assms by (simp add: allocation_inv_def)

lemma allocation_inv_at:
  assumes "allocation_inv s" and "allocate_replica_at c i = (c', r)" and "co_slots (lc_state c) = slots_of s"
  shows "allocation_inv (s\<lparr>ls_coordinator := c', ls_replicas := ls_replicas s @ (case r of Inl _ \<Rightarrow> [] | Inr i \<Rightarrow> [i])\<rparr>)"
  using assms(2)
proof (cases rule: allocate_replica_at_cases)
  case (1 e)
  then show ?thesis using assms by (simp add: allocation_inv_def slots_of_def)
next
  case 2
  then have "i \<notin> set (ls_replicas s)" using assms(1,3) by (simp add: allocation_inv_def)
  with assms(1,3) 2 show ?thesis by (auto simp: allocation_inv_def slots_of_def nth_list_update)
qed

lemma placed_inv:
  assumes "listener_inv M s" and "placed M (ls_coordinator s) c outcome" and "lc_ready (ls_coordinator s)"
  shows "listener_inv M (s\<lparr>ls_coordinator := c, ls_pending := pending_after x outcome\<rparr>)"
proof -
  let ?s = "s\<lparr>ls_coordinator := c, ls_pending := pending_after x outcome\<rparr>"
  have "slots_inv c" by (rule slots_inv_transfer [of "ls_coordinator s"]) (use assms(1,2) in \<open>simp_all add: listener_inv_def placed_def\<close>)
  moreover have "allocation_inv ?s"
    by (rule allocation_inv_transfer [of s]) (use assms(1,2) in \<open>simp_all add: listener_inv_def placed_def slots_of_def\<close>)
  ultimately show ?thesis
    using assms(2,3) by (auto simp: listener_inv_def placed_def pending_after_def split: distributed.splits)
qed

lemma channel_step_inv:
  assumes "listener_inv M s" and "lc_state c = lc_state (ls_coordinator s)" and "lc_ready c = lc_ready (ls_coordinator s)"
    and "length (lc_channels c) = length (lc_channels (ls_coordinator s))"
    and "held_connections M s \<noteq> [] \<or> held_connections M (s\<lparr>ls_coordinator := c, ls_serving := served\<rparr>) = []"
  shows "listener_inv M (s\<lparr>ls_coordinator := c, ls_serving := served\<rparr>)"
proof -
  let ?s = "s\<lparr>ls_coordinator := c, ls_serving := served\<rparr>"
  have "slots_inv c" by (rule slots_inv_transfer [of "ls_coordinator s"]) (use assms in \<open>simp_all add: listener_inv_def\<close>)
  moreover have "allocation_inv ?s"
    by (rule allocation_inv_transfer [of s]) (use assms in \<open>simp_all add: listener_inv_def slots_of_def\<close>)
  ultimately show ?thesis using assms by (auto simp: listener_inv_def)
qed

lemma held_nonempty:
  assumes "mpsc_laws M" and "ch < length (lc_channels (ls_coordinator s))"
    and "mpsc_queued M (lc_channels (ls_coordinator s) ! ch) \<noteq> []"
  shows "held_connections M s \<noteq> []"
proof -
  have "lc_channels (ls_coordinator s) ! ch \<in> set (lc_channels (ls_coordinator s))" using assms(2) by simp
  with assms(3) show ?thesis by (auto simp: held_connections_def queued_connections_def)
qed

lemma register_keeps:
  assumes "register M S c i routes middleware = Some (c', r)" and "mpsc_laws M"
  shows "length (co_slots (lc_state c')) = length (co_slots (lc_state c))"
    and "map sl_allocated (co_slots (lc_state c')) = map sl_allocated (co_slots (lc_state c))"
    and "queued_connections M c' = queued_connections M c" and "length (lc_channels c) \<le> length (lc_channels c')"
    and "lc_ready c \<Longrightarrow> lc_ready c'" and "lc_connection_concurrency c' = lc_connection_concurrency c"
proof -
  have upd: "map sl_allocated (slots[i := (slots ! i)\<lparr>sl_manifest := m, sl_connections := n\<rparr>]) = map sl_allocated slots"
    for slots m n by (cases "i < length slots") (simp_all add: map_update list_update_same_conv list_update_beyond)
  show "length (co_slots (lc_state c')) = length (co_slots (lc_state c))"
    and "map sl_allocated (co_slots (lc_state c')) = map sl_allocated (co_slots (lc_state c))"
    and "queued_connections M c' = queued_connections M c" and "length (lc_channels c) \<le> length (lc_channels c')"
    and "lc_ready c \<Longrightarrow> lc_ready c'" and "lc_connection_concurrency c' = lc_connection_concurrency c"
    using assms(1)
    by (cases rule: register_cases;
        simp add: upd queued_connections_def mpsc_lawsD(1) [OF assms(2)] publish_manifest_ready)+
qed

lemma listener_step_inv:
  assumes laws: "mpsc_laws M" and "listener_step M S s l s'" and inv: "listener_inv M s"
  shows "listener_inv M s'"
  using assms(2)
proof (cases rule: listener_step.cases)
  case (allocates c r)
  let ?c = "(ls_coordinator s)\<lparr>lc_next_slot := lc_next_slot (ls_coordinator s) + 1\<rparr>"
  have a: "allocate_replica_at ?c (unat (lc_next_slot (ls_coordinator s))) = (c, r)"
    using allocates(3) by (simp add: allocate_replica_def Let_def)
  have "slots_inv ?c" by (rule slots_inv_transfer [of "ls_coordinator s"]) (use inv in \<open>simp_all add: listener_inv_def\<close>)
  with allocate_at_inv [OF a] have "slots_inv c" .
  moreover have "allocation_inv s'"
    unfolding allocates(2) by (rule allocation_inv_at [OF _ a]) (use inv in \<open>simp_all add: listener_inv_def slots_of_def\<close>)
  moreover have "lc_channels c = lc_channels (ls_coordinator s) \<and> lc_ready c = lc_ready (ls_coordinator s)"
    using a by (cases rule: allocate_replica_at_cases) simp_all
  ultimately show ?thesis
    using inv by (auto simp: allocates(2) listener_inv_def held_connections_def queued_connections_def)
next
  case (allocates_at i c r)
  have "slots_inv c" by (rule allocate_at_inv [OF allocates_at(3)]) (use inv in \<open>simp add: listener_inv_def\<close>)
  moreover have "allocation_inv s'"
    unfolding allocates_at(2) by (rule allocation_inv_at [OF _ allocates_at(3)]) (use inv in \<open>simp_all add: listener_inv_def slots_of_def\<close>)
  moreover have "lc_channels c = lc_channels (ls_coordinator s) \<and> lc_ready c = lc_ready (ls_coordinator s)"
    using allocates_at(3) by (cases rule: allocate_replica_at_cases) simp_all
  ultimately show ?thesis
    using inv by (auto simp: allocates_at(2) listener_inv_def held_connections_def queued_connections_def)
next
  case (registers i routes middleware c r)
  note keep = register_keeps [OF registers(4) laws]
  have "slots_inv c" by (rule register_inv [OF registers(4)]) (use inv in \<open>simp add: listener_inv_def\<close>)
  moreover have "i < length (co_slots (lc_state c)) \<and> sl_allocated (co_slots (lc_state c) ! i) \<longleftrightarrow>
      i < length (slots_of s) \<and> sl_allocated (slots_of s ! i)" for i
    using keep(1,2) unfolding slots_of_def by (metis nth_map)
  then have "allocation_inv s'" using inv by (simp add: registers(2) listener_inv_def allocation_inv_def slots_of_def)
  ultimately show ?thesis
    using inv keep(3-5) by (fastforce simp: registers(2) listener_inv_def held_connections_def)
next
  case (accepts x c outcome)
  have "lc_ready (ls_coordinator s)" using inv accepts(3) by (simp add: listener_inv_def)
  moreover have "placed M (ls_coordinator s) c outcome"
    by (rule distribute_connection_placed(1) [OF laws _ accepts(5)]) (use inv in \<open>simp add: listener_inv_def\<close>)
  ultimately show ?thesis unfolding accepts(2) by (intro placed_inv [OF inv])
next
  case (reserves x waiting ch c outcome)
  have "lc_ready (ls_coordinator s)" using inv reserves(3) by (simp add: listener_inv_def held_connections_def)
  moreover have "\<forall>ch \<in> set waiting. ch < length (lc_channels (ls_coordinator s))" using inv reserves(3) by (simp add: listener_inv_def)
  then have "placed M (ls_coordinator s) c outcome" using reservation_done_placed [OF laws reserves(4) _ reserves(5,6)] by blast
  ultimately show ?thesis unfolding reserves(2) by (intro placed_inv [OF inv])
next
  case (gives_up x)
  have "listener_inv M (s\<lparr>ls_coordinator := release_connection S (ls_coordinator s), ls_serving := ls_serving s\<rparr>)"
    by (rule channel_step_inv [OF inv]) (simp_all add: held_connections_def queued_connections_def gives_up(3))
  then show ?thesis
    by (auto simp: gives_up(2) listener_inv_def allocation_inv_def slots_of_def held_connections_def queued_connections_def
        split: option.splits)
next
  case (receives ch x q)
  have "held_connections M s \<noteq> []"
    by (rule held_nonempty [OF laws receives(3)]) (use mpsc_lawsD(8) [OF laws receives(4)] in simp)
  then show ?thesis unfolding receives(2) by (intro channel_step_inv [OF inv]) simp_all
next
  case (receiver_gone ch)
  let ?c = "set_channel ch (mpsc_close M (lc_channels (ls_coordinator s) ! ch)) (ls_coordinator s)"
  have "length (queued_connections M ?c) = length (queued_connections M (ls_coordinator s))"
    using queued_in_set_channel [OF receiver_gone(3), of M "mpsc_close M (lc_channels (ls_coordinator s) ! ch)"]
    by (simp add: mpsc_lawsD(9) [OF laws])
  then have "held_connections M s \<noteq> [] \<or> held_connections M (s\<lparr>ls_coordinator := ?c, ls_serving := ls_serving s\<rparr>) = []"
    by (auto simp: held_connections_def split: option.splits)
  then have "listener_inv M (s\<lparr>ls_coordinator := ?c, ls_serving := ls_serving s\<rparr>)"
    by (intro channel_step_inv [OF inv]) simp_all
  then show ?thesis by (simp add: receiver_gone(2))
next
  case (drains ch x q)
  let ?c = "release_connection S (set_channel ch q (ls_coordinator s))"
  have "held_connections M s \<noteq> []"
    by (rule held_nonempty [OF laws drains(3)]) (use mpsc_lawsD(8) [OF laws drains(5)] in simp)
  then have "listener_inv M (s\<lparr>ls_coordinator := ?c, ls_serving := ls_serving s\<rparr>)"
    by (intro channel_step_inv [OF inv]) simp_all
  then show ?thesis by (simp add: drains(2))
next
  case (connection_ends x)
  have "held_connections M s \<noteq> []" using connection_ends(3) by (auto simp: held_connections_def)
  then show ?thesis unfolding connection_ends(2) by (intro channel_step_inv [OF inv]) simp_all
qed (use inv in \<open>auto simp: listener_inv_def allocation_inv_def slots_of_def slots_inv_def held_connections_def
    queued_connections_def report_acceptor_failure_def\<close>)

lemma listener_start_inv:
  assumes "coordinator_bind L S io config n = Inr c"
  shows "listener_inv M (listener_start c)"
    and "lc_connection_concurrency c = sem_new S (wic_max_connections config)" and "lc_config c = config"
    and "length (co_slots (lc_state c)) = n" and "held_connections M (listener_start c) = []"
proof -
  have "n \<noteq> 0" using assms by (auto simp: coordinator_bind_def try_in_Inr_iff split: if_splits)
  with assms show "listener_inv M (listener_start c)"
    and "lc_connection_concurrency c = sem_new S (wic_max_connections config)" and "lc_config c = config"
    and "length (co_slots (lc_state c)) = n" and "held_connections M (listener_start c) = []"
    by (auto simp: coordinator_bind_def try_in_Inr_iff Let_def listener_start_def listener_inv_def slots_inv_def
        allocation_inv_def slots_of_def held_connections_def queued_connections_def)
qed

section \<open>Admission of connections\<close>

text \<open>The steps taken from states that satisfy the invariant, by a channel that keeps its laws.\<close>

definition lawful_step ::
  "('q, 'c) mpsc_lib \<Rightarrow> 's semaphore_lib \<Rightarrow> ('q, 's, 'c) listener_system \<Rightarrow> 'c listener_event \<Rightarrow>
   ('q, 's, 'c) listener_system \<Rightarrow> bool" where
  "lawful_step M S s l s' \<longleftrightarrow> mpsc_laws M \<and> listener_inv M s \<and> listener_step M S s l s'"

lemma reaches_lawful:
  assumes "mpsc_laws M" and "reaches (listener_step M S) s t" and "listener_inv M s"
  shows "reaches (lawful_step M S) s t \<and> listener_inv M t"
  using assms(2,3)
proof (induction rule: reaches.induct)
  case (reaches_step s t l u)
  then show ?case using listener_step_inv [OF assms(1)] assms(1) by (auto simp: lawful_step_def intro: reaches.reaches_step)
qed (auto intro: reaches_refl)

lemma held_after:
  "length (held_connections M (s\<lparr>ls_coordinator := c, ls_pending := p\<rparr>)) =
     (if p = None then 0 else 1) + length (queued_connections M c) + length (ls_serving s)"
  "length (held_connections M (s\<lparr>ls_coordinator := c, ls_serving := served\<rparr>)) =
     (if ls_pending s = None then 0 else 1) + length (queued_connections M c) + length served"
  "length (held_connections M (s\<lparr>ls_coordinator := c\<rparr>)) =
     (if ls_pending s = None then 0 else 1) + length (queued_connections M c) + length (ls_serving s)"
  "length (held_connections M s) =
     (if ls_pending s = None then 0 else 1) + length (queued_connections M (ls_coordinator s)) + length (ls_serving s)"
  by (auto simp: held_connections_def split: option.splits)

lemma pending_after_None: "pending_after x outcome = None \<longleftrightarrow> (\<forall>w. outcome \<noteq> ConnectionWaits w)"
  by (cases outcome) (simp_all add: pending_after_def)

interpretation connection_admission: admission S "lawful_step M S"
    "\<lambda>s. lc_connection_concurrency (ls_coordinator s)" "held_connections M"
  for S :: "'s semaphore_lib" and M :: "('q, 'c) mpsc_lib"
proof
  fix s :: "('q, 's, 'c) listener_system" and l s'
  assume "lawful_step M S s l s'"
  then have laws: "mpsc_laws M" and inv: "listener_inv M s" and step: "listener_step M S s l s'"
    by (simp_all add: lawful_step_def)
  let ?p = "\<lambda>s. lc_connection_concurrency (ls_coordinator s)"
  show "?p s' = ?p s \<and> length (held_connections M s') = length (held_connections M s) \<or>
      sem_try_acquire S (?p s) = Some (?p s') \<and> length (held_connections M s') = Suc (length (held_connections M s)) \<or>
      ?p s' = sem_release S (?p s) \<and> length (held_connections M s) = Suc (length (held_connections M s'))"
    using step
  proof (cases rule: listener_step.cases)
    case (allocates c r)
    then have "allocate_replica_at ((ls_coordinator s)\<lparr>lc_next_slot := lc_next_slot (ls_coordinator s) + 1\<rparr>)
        (unat (lc_next_slot (ls_coordinator s))) = (c, r)" by (simp add: allocate_replica_def Let_def)
    then show ?thesis
      by (cases rule: allocate_replica_at_cases) (simp_all add: allocates(2) held_connections_def queued_connections_def)
  next
    case (allocates_at i c r)
    from allocates_at(3) show ?thesis
      by (cases rule: allocate_replica_at_cases) (simp_all add: allocates_at(2) held_connections_def queued_connections_def)
  next
    case (registers i routes middleware c r)
    show ?thesis using register_keeps(3,6) [OF registers(4) laws] by (simp add: registers(2) held_after)
  next
    case (accepts x c outcome)
    have si: "slots_inv (ls_coordinator s)" using inv by (simp add: listener_inv_def)
    note d = distribute_connection_placed [OF laws si accepts(5)]
    have q: "length (queued_connections M c) = length (queued_connections M (ls_coordinator s)) + (if outcome = ConnectionSent then 1 else 0)"
      using d(1) by (simp add: placed_def)
    show ?thesis
      using d(2,3) q accepts(4) unfolding accepts(2)
      by (cases outcome) (auto simp: held_after pending_after_None)
  next
    case (reserves x waiting ch c outcome)
    have "\<forall>ch \<in> set waiting. ch < length (lc_channels (ls_coordinator s))" using inv reserves(3) by (simp add: listener_inv_def)
    then have d: "placed M (ls_coordinator s) c outcome \<and> lc_connection_concurrency c = ?p s \<and>
      (outcome = ConnectionSent \<or> (\<exists>w. outcome = ConnectionWaits w))"
      using reservation_done_placed [OF laws reserves(4) _ reserves(5,6)] by blast
    then have "length (queued_connections M c) = length (queued_connections M (ls_coordinator s)) + (if outcome = ConnectionSent then 1 else 0)"
      by (simp add: placed_def)
    with d reserves(3) show ?thesis unfolding reserves(2)
      by (cases outcome) (auto simp: held_after pending_after_None)
  next
    case (gives_up x)
    then show ?thesis by (simp add: held_after queued_connections_def)
  next
    case (receives ch x q)
    have "length (queued_connections M (set_channel ch q (ls_coordinator s))) + 1 = length (queued_connections M (ls_coordinator s))"
      using queued_in_set_channel [OF receives(3), of M q] mpsc_lawsD(8) [OF laws receives(4)] by simp
    then show ?thesis unfolding receives(2) by (simp add: held_after)
  next
    case (receiver_gone ch)
    show ?thesis unfolding receiver_gone(2)
      using queued_in_set_channel [OF receiver_gone(3), of M "mpsc_close M (lc_channels (ls_coordinator s) ! ch)"]
      by (simp add: held_after mpsc_lawsD(9) [OF laws])
  next
    case (drains ch x q)
    have "length (queued_connections M (set_channel ch q (ls_coordinator s))) + 1 = length (queued_connections M (ls_coordinator s))"
      using queued_in_set_channel [OF drains(3), of M q] mpsc_lawsD(8) [OF laws drains(5)] by simp
    then show ?thesis unfolding drains(2) by (simp add: held_after queued_connections_def)
  next
    case (connection_ends x)
    then have "length (ls_serving s) = Suc (length (remove1 x (ls_serving s)))"
      using length_pos_if_in_set [OF connection_ends(3)] by (simp add: length_remove1)
    then show ?thesis unfolding connection_ends(2) by (simp add: held_after queued_connections_def)
  qed (simp_all add: held_connections_def queued_connections_def report_acceptor_failure_def)
qed

lemma listener_step_slots:
  assumes "listener_step M S s l s'" and "mpsc_laws M"
  shows "length (slots_of s') = length (slots_of s)"
  using assms(1)
proof (cases rule: listener_step.cases)
  case (allocates c r)
  then have "allocate_replica_at ((ls_coordinator s)\<lparr>lc_next_slot := lc_next_slot (ls_coordinator s) + 1\<rparr>)
      (unat (lc_next_slot (ls_coordinator s))) = (c, r)" by (simp add: allocate_replica_def Let_def)
  then show ?thesis by (cases rule: allocate_replica_at_cases) (simp_all add: allocates(2) slots_of_def)
next
  case (allocates_at i c r)
  from allocates_at(3) show ?thesis by (cases rule: allocate_replica_at_cases) (simp_all add: allocates_at(2) slots_of_def)
next
  case (registers i routes middleware c r)
  then show ?thesis using register_keeps(1) [OF registers(4) assms(2)] by (simp add: slots_of_def)
next
  case (accepts x c outcome)
  then have "lc_state c = lc_state (ls_coordinator s)"
    by (auto simp: distribute_connection_def Let_def split: option.splits if_splits sum.splits)
  then show ?thesis by (simp add: accepts(2) slots_of_def)
next
  case (reserves x waiting ch c outcome)
  then have "lc_state c = lc_state (ls_coordinator s)" by (auto simp: reservation_done_def split: try_sent.splits)
  then show ?thesis by (simp add: reserves(2) slots_of_def)
qed (simp_all add: slots_of_def report_acceptor_failure_def)

lemma reaches_slots:
  assumes "mpsc_laws M" and "reaches (listener_step M S) s t"
  shows "length (slots_of t) = length (slots_of s)"
  by (rule reaches_invariant [OF assms(2), of "\<lambda>t. length (slots_of t) = length (slots_of s)"])
    (simp_all add: listener_step_slots [OF _ assms(1)])

section \<open>Channels as lists\<close>

record 'c list_channel =
  ch_capacity :: nat
  ch_closed :: bool
  ch_queue :: "'c list"

definition list_mpsc :: "('c list_channel, 'c) mpsc_lib" where
  "list_mpsc = \<lparr>mpsc_channel = (\<lambda>n. \<lparr>ch_capacity = n, ch_closed = False, ch_queue = []\<rparr>),
     mpsc_capacity = ch_capacity, mpsc_is_closed = ch_closed, mpsc_queued = ch_queue,
     mpsc_try_send = (\<lambda>q c. if ch_closed q then ChannelClosed
        else if ch_capacity q \<le> length (ch_queue q) then ChannelFull
        else SentTo (q\<lparr>ch_queue := ch_queue q @ [c]\<rparr>)),
     mpsc_recv = (\<lambda>q. case ch_queue q of [] \<Rightarrow> None | c # cs \<Rightarrow> Some (c, q\<lparr>ch_queue := cs\<rparr>)),
     mpsc_close = (\<lambda>q. q\<lparr>ch_closed := True\<rparr>)\<rparr>"

lemma list_mpsc_laws: "mpsc_laws list_mpsc"
  by (auto simp: mpsc_laws_def list_mpsc_def split: if_splits list.splits)

section \<open>Round robin\<close>

text \<open>Connections accepted one after the other, with what became of each.\<close>

fun distribute_all ::
  "('q, 'c) mpsc_lib \<Rightarrow> 's semaphore_lib \<Rightarrow> ('q, 's) ListenerCoordinator \<Rightarrow> 'c list \<Rightarrow>
   ('q, 's) ListenerCoordinator \<times> distributed list" where
  "distribute_all M S c [] = (c, [])"
| "distribute_all M S c (x # xs) =
     (case distribute_connection M S c x of (c, outcome) \<Rightarrow>
        (case distribute_all M S c xs of (c, outcomes) \<Rightarrow> (c, outcome # outcomes)))"

text \<open>Every slot has its own open channel with room for \<open>n\<close> more connections.\<close>

definition all_open :: "('q, 'c) mpsc_lib \<Rightarrow> ('q, 's) ListenerCoordinator \<Rightarrow> (nat \<Rightarrow> nat) \<Rightarrow> nat \<Rightarrow> bool" where
  "all_open M c chan n \<longleftrightarrow>
     inj_on chan {..<length (co_slots (lc_state c))} \<and>
     (\<forall>i < length (co_slots (lc_state c)).
        sl_connections (co_slots (lc_state c) ! i) = Some (chan i) \<and> chan i < length (lc_channels c) \<and>
        \<not> mpsc_is_closed M (lc_channels c ! chan i) \<and>
        length (mpsc_queued M (lc_channels c ! chan i)) + n \<le> mpsc_capacity M (lc_channels c ! chan i))"

lemma slot_order_first: "start < n \<Longrightarrow> slot_order start n = start # map (\<lambda>offset. (start + offset) mod n) [1..<n]"
  by (simp add: slot_order_def upt_conv_Cons)

lemma distribute_one:
  assumes laws: "mpsc_laws M" and open': "all_open M c chan (Suc n)" and ne: "co_slots (lc_state c) \<noteq> []"
    and permit: "sem_try_acquire S (lc_connection_concurrency c) = Some permits"
  defines "start \<equiv> unat (lc_next_connection c) mod length (co_slots (lc_state c))"
  obtains q where "distribute_connection M S c x =
      (c\<lparr>lc_connection_concurrency := permits, lc_next_connection := lc_next_connection c + 1,
         lc_channels := (lc_channels c)[chan start := q]\<rparr>, ConnectionSent)"
    and "mpsc_queued M q = mpsc_queued M (lc_channels c ! chan start) @ [x]"
    and "mpsc_capacity M q = mpsc_capacity M (lc_channels c ! chan start)" and "\<not> mpsc_is_closed M q"
proof -
  let ?slots = "co_slots (lc_state c)"
  have lt: "start < length ?slots" unfolding start_def using ne by simp
  have at: "sl_connections (?slots ! start) = Some (chan start)" "\<not> mpsc_is_closed M (lc_channels c ! chan start)"
      "length (mpsc_queued M (lc_channels c ! chan start)) < mpsc_capacity M (lc_channels c ! chan start)"
    using open' lt unfolding all_open_def by fastforce+
  then obtain q where q: "mpsc_try_send M (lc_channels c ! chan start) x = SentTo q"
    using try_send_sent_iff [OF laws, of "lc_channels c ! chan start" x] by blast
  have "distribute_connection M S c x =
      (c\<lparr>lc_connection_concurrency := permits, lc_next_connection := lc_next_connection c + 1,
         lc_channels := (lc_channels c)[chan start := q]\<rparr>, ConnectionSent)"
    using ne at(1) q by (simp add: distribute_connection_def permit Let_def start_def [symmetric] slot_order_first [OF lt])
  then show thesis using that mpsc_lawsD(6) [OF laws q] by blast
qed

lemma all_open_sent:
  assumes "all_open M c chan (Suc n)" and "i < length (co_slots (lc_state c))"
    and "mpsc_queued M q = mpsc_queued M (lc_channels c ! chan i) @ [x]"
    and "mpsc_capacity M q = mpsc_capacity M (lc_channels c ! chan i)" and "\<not> mpsc_is_closed M q"
    and "lc_state c' = lc_state c" and "lc_channels c' = (lc_channels c)[chan i := q]"
  shows "all_open M c' chan n"
proof -
  have "chan i < length (lc_channels c)" using assms(1,2) by (simp add: all_open_def)
  then show ?thesis using assms unfolding all_open_def by (auto simp: nth_list_update)
qed

section \<open>Properties\<close>

text \<open>C10. A listener shared by replicas serves nothing before they agree: in every reachable state the
  replicas handed out have distinct slots, the registered ones published one and the same
  manifest of routes and middleware, and as soon as the acceptor runs or a connection is held all
  of them have; registering a handed-out replica never panics.\<close>

theorem replicas_agree_before_serving:
  fixes M :: "('q, 'c) mpsc_lib" and S :: "'s semaphore_lib"
  assumes "mpsc_laws M" and "coordinator_bind L S io config n = Inr c"
    and "reaches (listener_step M S) (listener_start c) s"
  shows "length (slots_of s) = n \<and> distinct (ls_replicas s) \<and> set (ls_replicas s) \<subseteq> {..<n} \<and>
    (\<exists>m. \<forall>slot \<in> set (slots_of s). sl_manifest slot = None \<or> sl_manifest slot = Some m) \<and>
    (ls_acceptor s = Accepting \<or> held_connections M s \<noteq> [] \<longrightarrow> (\<forall>slot \<in> set (slots_of s). sl_manifest slot \<noteq> None)) \<and>
    (\<forall>i \<in> set (ls_replicas s). register M S (ls_coordinator s) i routes middleware \<noteq> None)"
proof -
  note start = listener_start_inv [OF assms(2)]
  have inv: "listener_inv M s" using reaches_lawful [OF assms(1,3) start(1)] by blast
  have n: "length (slots_of s) = n"
    using reaches_slots [OF assms(1,3)] start(4) by (simp add: slots_of_def listener_start_def)
  have replicas: "distinct (ls_replicas s)" "i \<in> set (ls_replicas s) \<Longrightarrow> i < n" for i
    using inv n by (auto simp: listener_inv_def allocation_inv_def)
  have "\<exists>m. \<forall>slot \<in> set (slots_of s). sl_manifest slot = None \<or> sl_manifest slot = Some m"
    using inv by (cases "co_canonical_manifest (lc_state (ls_coordinator s))")
      (auto simp: listener_inv_def slots_inv_def slots_of_def)
  moreover have "ls_acceptor s = Accepting \<or> held_connections M s \<noteq> [] \<longrightarrow> (\<forall>slot \<in> set (slots_of s). sl_manifest slot \<noteq> None)"
    using inv by (auto simp: listener_inv_def slots_inv_def slots_of_def coordinator_ready_set)
  moreover have "register M S (ls_coordinator s) i routes middleware \<noteq> None" if "i \<in> set (ls_replicas s)" for i
    using replicas(2) [OF that] n by (auto simp: register_def Let_def slots_of_def)
  ultimately show ?thesis using n replicas by blast
qed

text \<open>C18. The limit on connections of a shared listener: however replicas and the acceptor interleave, and
  whatever becomes of the replicas and of their channels, no more connections than configured
  hold a permit, and a connection is refused exactly when that many do.\<close>

theorem shared_listener_bounded:
  fixes M :: "('q, 'c) mpsc_lib" and S :: "'s semaphore_lib"
  assumes "mpsc_laws M" and "semaphore_laws S" and "coordinator_bind L S io config n = Inr c"
    and "reaches (listener_step M S) (listener_start c) s"
  shows "length (held_connections M s) \<le> wic_max_connections config \<and>
    (snd (distribute_connection M S (ls_coordinator s) connection) = ConnectionRefused \<longleftrightarrow>
       length (held_connections M s) = wic_max_connections config)"
proof -
  note start = listener_start_inv [OF assms(3)]
  have "reaches (lawful_step M S) (listener_start c) s" and inv: "listener_inv M s"
    using reaches_lawful [OF assms(1,4) start(1)] by blast+
  note adm = connection_admission.admitted_within_capacity [OF assms(2) _ start(5) this(1)]
  have "lc_connection_concurrency (ls_coordinator (listener_start c :: ('q, 's, 'c) listener_system)) =
      sem_new S (wic_max_connections config)" using start(2) by (simp add: listener_start_def)
  note adm = adm [OF this]
  obtain c' outcome where d: "distribute_connection M S (ls_coordinator s) connection = (c', outcome)" by fastforce
  have "slots_inv (ls_coordinator s)" using inv by (simp add: listener_inv_def)
  from distribute_connection_placed(2) [OF assms(1) this d]
  have "outcome = ConnectionRefused \<longleftrightarrow> sem_try_acquire S (lc_connection_concurrency (ls_coordinator s)) = None"
    by (auto split: if_splits)
  with adm d show ?thesis by simp
qed

text \<open>Round robin: while every replica's channel has room and permits last, the connections
  accepted in a row are all placed, and the one after \<open>j\<close> others goes to the slot \<open>j\<close> places after the
  next one, counting around; each replica finds its share in its queue in the order of
  acceptance.\<close>

theorem connections_round_robin:
  fixes M :: "('q, 'c) mpsc_lib" and S :: "'s semaphore_lib"
  assumes "mpsc_laws M" and "semaphore_laws S" and "co_slots (lc_state c) \<noteq> []"
    and "all_open M c chan (length xs)" and "length xs \<le> sem_available S (lc_connection_concurrency c)"
    and "unat (lc_next_connection c) + length xs < 2 ^ 64"
  shows "snd (distribute_all M S c xs) = replicate (length xs) ConnectionSent \<and>
    (\<forall>i < length (co_slots (lc_state c)).
       mpsc_queued M (lc_channels (fst (distribute_all M S c xs)) ! chan i) =
       mpsc_queued M (lc_channels c ! chan i) @
       nths xs {j. (unat (lc_next_connection c) + j) mod length (co_slots (lc_state c)) = i})"
  using assms(3-6)
proof (induction xs arbitrary: c)
  case (Cons x xs)
  let ?k = "length (co_slots (lc_state c))"
  let ?start = "unat (lc_next_connection c) mod ?k"
  from Cons.prems(3) obtain permits where permit: "sem_try_acquire S (lc_connection_concurrency c) = Some permits"
    using semaphore_lawsD(2) [OF assms(2), of "lc_connection_concurrency c"]
    by (cases "sem_try_acquire S (lc_connection_concurrency c)") auto
  have op: "all_open M c chan (Suc (length xs))" using Cons.prems(2) by simp
  obtain q where d: "distribute_connection M S c x =
      (c\<lparr>lc_connection_concurrency := permits, lc_next_connection := lc_next_connection c + 1,
         lc_channels := (lc_channels c)[chan ?start := q]\<rparr>, ConnectionSent)" (is "_ = (?c, _)")
    and q: "mpsc_queued M q = mpsc_queued M (lc_channels c ! chan ?start) @ [x]"
      "mpsc_capacity M q = mpsc_capacity M (lc_channels c ! chan ?start)" "\<not> mpsc_is_closed M q"
    by (rule distribute_one [OF assms(1) op Cons.prems(1) permit])
  have lt: "?start < ?k" using Cons.prems(1) by simp
  have op': "all_open M ?c chan (length xs)" by (rule all_open_sent [OF op lt q]) simp_all
  have av: "length xs \<le> sem_available S (lc_connection_concurrency ?c)"
    using Cons.prems(3) semaphore_lawsD(3) [OF assms(2) permit] by simp
  have wrap: "unat (lc_next_connection c + 1) = Suc (unat (lc_next_connection c))"
    using Cons.prems(4) by (simp add: unat_word_ariths(1))
  have "snd (distribute_all M S ?c xs) = replicate (length xs) ConnectionSent \<and>
    (\<forall>i < ?k. mpsc_queued M (lc_channels (fst (distribute_all M S ?c xs)) ! chan i) =
       mpsc_queued M (lc_channels ?c ! chan i) @ nths xs {j. (Suc (unat (lc_next_connection c)) + j) mod ?k = i})"
    using Cons.IH [OF _ op' av] Cons.prems(1,4) wrap by simp
  moreover have "mpsc_queued M (lc_channels ?c ! chan i) =
      mpsc_queued M (lc_channels c ! chan i) @ (if ?start = i then [x] else [])" if "i < ?k" for i
  proof -
    have "chan i = chan ?start \<longleftrightarrow> i = ?start" using op that lt unfolding all_open_def by (auto dest: inj_onD)
    moreover have "chan ?start < length (lc_channels c)" using op lt unfolding all_open_def by blast
    ultimately show ?thesis using q(1) by (auto simp: nth_list_update)
  qed
  ultimately show ?case by (auto simp: d nths_Cons split: prod.splits)
qed simp

section \<open>Concrete listeners\<close>

abbreviation sample_io :: listener_io where
  "sample_io \<equiv> \<lparr>io_bind = Inr (), io_local_addr = Inr ''127.0.0.1:8080'', io_into_std = Inr (), io_spawn = Inr ()\<rparr>"

definition sample_coordinator :: "(nat list_channel, nat) ListenerCoordinator" where
  "sample_coordinator = \<lparr>lc_config = default_config, lc_local_address = ''127.0.0.1:8080'',
     lc_state = \<lparr>co_slots = replicate 2 \<lparr>sl_allocated = False, sl_manifest = None, sl_connections = None\<rparr>,
       co_canonical_manifest = None\<rparr>,
     lc_next_slot = 0, lc_next_connection = 0, lc_next_request_id = 0,
     lc_request_concurrency = wic_max_concurrent_requests default_config,
     lc_connection_concurrency = wic_max_connections default_config,
     lc_local_request_limit = div_ceil (wic_max_concurrent_requests default_config) 2,
     lc_acceptor_failure = None, lc_ready = False, lc_channels = []\<rparr>"

lemma sample_bound: "coordinator_bind list_http counter_semaphore sample_io default_config 2 = Inr sample_coordinator"
  by (simp add: coordinator_bind_def default_config_valid sample_coordinator_def counter_semaphore_def)

definition sample_system :: "(nat list_channel, nat, nat) listener_system" where
  "sample_system = (listener_start sample_coordinator)
     \<lparr>ls_coordinator := set_slot 0 (\<lambda>s. s\<lparr>sl_allocated := True\<rparr>) (sample_coordinator\<lparr>lc_next_slot := 1\<rparr>), ls_replicas := [0]\<rparr>"

lemma sample_reached: "reaches (listener_step list_mpsc counter_semaphore) (listener_start sample_coordinator) sample_system"
proof (rule reaches_step [OF reaches_refl])
  let ?c = "set_slot 0 (\<lambda>s. s\<lparr>sl_allocated := True\<rparr>) (sample_coordinator\<lparr>lc_next_slot := 1\<rparr>)"
  have "allocate_replica (ls_coordinator (listener_start sample_coordinator :: (nat list_channel, nat, nat) listener_system)) = (?c, Inr 0)"
    by (simp add: listener_start_def allocate_replica_def allocate_replica_at_def sample_coordinator_def)
  from listener_step.allocates [OF this]
  show "listener_step list_mpsc counter_semaphore (listener_start sample_coordinator) Allocates sample_system"
    by (simp add: sample_system_def listener_start_def)
qed

theorem replicas_agree_before_serving_witness:
  "length (slots_of sample_system) = 2 \<and> distinct (ls_replicas sample_system) \<and>
   register list_mpsc counter_semaphore (ls_coordinator sample_system) 0 (manifest_new []) [] \<noteq> None"
  using replicas_agree_before_serving [OF list_mpsc_laws sample_bound sample_reached]
  by (simp add: sample_system_def)

theorem shared_listener_bounded_witness:
  "length (held_connections list_mpsc sample_system) \<le> wic_max_connections default_config"
  using shared_listener_bounded [OF list_mpsc_laws counter_semaphore_laws sample_bound sample_reached] by blast

definition open_coordinator :: "(nat list_channel, nat) ListenerCoordinator" where
  "open_coordinator = sample_coordinator
     \<lparr>lc_state := \<lparr>co_slots = [\<lparr>sl_allocated = True, sl_manifest = None, sl_connections = Some 0\<rparr>,
          \<lparr>sl_allocated = True, sl_manifest = None, sl_connections = Some 1\<rparr>], co_canonical_manifest = None\<rparr>,
      lc_connection_concurrency := 8,
      lc_channels := replicate 2 \<lparr>ch_capacity = 4, ch_closed = False, ch_queue = []\<rparr>\<rparr>"

lemma open_coordinator_fields:
  "length (co_slots (lc_state open_coordinator)) = 2" "lc_next_connection open_coordinator = 0"
  "mpsc_queued list_mpsc (lc_channels open_coordinator ! 0) = []"
  by (simp_all add: open_coordinator_def sample_coordinator_def list_mpsc_def numeral_2_eq_2)

theorem connections_round_robin_witness:
  "let xs = [10, 11, 12 :: nat] in
   snd (distribute_all list_mpsc counter_semaphore open_coordinator xs) = replicate (length xs) ConnectionSent \<and>
   mpsc_queued list_mpsc (lc_channels (fst (distribute_all list_mpsc counter_semaphore open_coordinator xs)) ! 0) =
     nths xs {j. j mod 2 = 0}"
proof -
  define xs where "xs = [10, 11, 12 :: nat]"
  have "co_slots (lc_state open_coordinator) \<noteq> []" by (simp add: open_coordinator_def)
  moreover have "all_open list_mpsc open_coordinator id (length xs)"
    by (auto simp: xs_def all_open_def open_coordinator_def list_mpsc_def less_Suc_eq numeral_2_eq_2)
  moreover have "length xs \<le> sem_available counter_semaphore (lc_connection_concurrency open_coordinator)"
    by (simp add: xs_def open_coordinator_def counter_semaphore_def)
  moreover have "unat (lc_next_connection open_coordinator) + length xs < 2 ^ 64"
    by (simp add: xs_def open_coordinator_fields)
  ultimately have rr: "snd (distribute_all list_mpsc counter_semaphore open_coordinator xs) = replicate (length xs) ConnectionSent \<and>
    (\<forall>i < 2. mpsc_queued list_mpsc (lc_channels (fst (distribute_all list_mpsc counter_semaphore open_coordinator xs)) ! id i) =
       mpsc_queued list_mpsc (lc_channels open_coordinator ! id i) @ nths xs {j. (unat (0 :: 64 word) + j) mod 2 = i})"
    using connections_round_robin [OF list_mpsc_laws counter_semaphore_laws, of open_coordinator id xs]
    unfolding open_coordinator_fields(1,2) by blast
  then have "mpsc_queued list_mpsc (lc_channels (fst (distribute_all list_mpsc counter_semaphore open_coordinator xs)) ! id 0) =
       mpsc_queued list_mpsc (lc_channels open_coordinator ! id 0) @ nths xs {j. (unat (0 :: 64 word) + j) mod 2 = 0}"
    by (blast intro: zero_less_numeral)
  with rr show ?thesis unfolding xs_def [symmetric] Let_def by (simp add: open_coordinator_fields(3))
qed

end
