(* ===== verification/EventIngress.thy ===== *)
theory EventIngress
  imports Server Replication
begin

text \<open>
  The two ways to run the ingress plugin: inside an event host (\<open>event.rs\<close>), which hands over
  complete requests and pulls the response, and on a socket of its own or of a coordinator
  (\<open>native.rs\<close>). Both go through the request pipeline of \<open>IngressResponses\<close>. The parsed plugin
  configuration, the binding of the dependencies, the readiness of the application and the moment a
  token is cancelled are arguments.
\<close>

section \<open>The event factory\<close>

record ('h, 'r, 'w) EventState =
  es_config :: WebIngressConfig
  es_routes :: "'r RouteTable"
  es_middleware :: "('w, 'h WebIngressRequest, 'h WebIngressResponse) WebIngressMiddleware list"
  es_next_request_id :: RequestIdSequence

record ('h, 'r, 'w) WebIngressEventFactory =
  ef_instantiated :: bool
  ef_state :: "('h, 'r, 'w) EventState option"
  ef_middleware :: "('w, 'h WebIngressRequest, 'h WebIngressResponse) WebIngressMiddleware list"

definition event_factory_new :: "('h, 'r, 'w) WebIngressEventFactory" where
  "event_factory_new = \<lparr>ef_instantiated = False, ef_state = None, ef_middleware = []\<rparr>"

definition event_with_middleware ::
  "('w, 'h WebIngressRequest, 'h WebIngressResponse) WebIngressMiddleware \<Rightarrow>
   ('h, 'r, 'w) WebIngressEventFactory \<Rightarrow> ('h, 'r, 'w) WebIngressEventFactory" where
  "event_with_middleware m f = f\<lparr>ef_middleware := ef_middleware f @ [m]\<rparr>"

definition event_route_manifest :: "('h, 'r, 'w) WebIngressEventFactory \<Rightarrow> WebIngressRouteManifest option" where
  "event_route_manifest f = map_option (\<lambda>s. rt_manifest (es_routes s)) (ef_state f)"

text \<open>The lifecycle of an instance; the cell of the active state is the factory's.\<close>

record ('h, 'w) EventLifecycle =
  el_config :: WebIngressConfig
  el_middleware :: "('w, 'h WebIngressRequest, 'h WebIngressResponse) WebIngressMiddleware list"

definition ingress_event_instantiate ::
  "'h http_lib \<Rightarrow> string + WebIngressConfig \<Rightarrow> ('h, 'r, 'w) WebIngressEventFactory \<Rightarrow>
   ('h, 'r, 'w) WebIngressEventFactory \<times> (RuntimeFailure + ('h, 'w) EventLifecycle)" where
  "ingress_event_instantiate L parsed f =
     (case parsed of
        Inl error \<Rightarrow> (f, Inl (InvalidResolvedPlan (''Web Ingress configuration is invalid: '' @ error)))
      | Inr config \<Rightarrow>
          (case config_validate L config of
             Inl detail \<Rightarrow> (f, Inl (InvalidResolvedPlan detail))
           | Inr _ \<Rightarrow>
               (case validate_middleware (ef_middleware f) of
                  Inl detail \<Rightarrow> (f, Inl (InvalidResolvedPlan detail))
                | Inr _ \<Rightarrow>
                    if ef_instantiated f
                    then (f, Inl (plugin_failure ''create a fresh WebIngressEventFactory for each event App''))
                    else (f\<lparr>ef_instantiated := True\<rparr>, Inr \<lparr>el_config = config, el_middleware = ef_middleware f\<rparr>))))"

text \<open>The providers bound to the ingress: buffered, streaming and WebSocket.\<close>

type_synonym bound_providers = "EndpointClient list \<times> StreamEndpointClient list \<times> WebsocketEndpointClient list"

definition resolve_bound ::
  "'h http_lib \<Rightarrow> 'r router_lib \<Rightarrow> (DescribeError \<Rightarrow> string) \<Rightarrow> (DescribeStreamError \<Rightarrow> string) \<Rightarrow>
   RuntimeFailure + bound_providers \<Rightarrow> WebIngressConfig \<Rightarrow> RuntimeFailure + 'r RouteTable" where
  "resolve_bound L R debug sdebug connected config =
     try_in connected (\<lambda>(ps, ss, ws).
       resolve L R debug sdebug ps ss ws (wic_websocket config) (wic_request_timeout_millis config))"

definition event_activate ::
  "'h http_lib \<Rightarrow> 'r router_lib \<Rightarrow> (DescribeError \<Rightarrow> string) \<Rightarrow> (DescribeStreamError \<Rightarrow> string) \<Rightarrow>
   RuntimeFailure + bound_providers \<Rightarrow> ('h, 'w) EventLifecycle \<Rightarrow> ('h, 'r, 'w) WebIngressEventFactory \<Rightarrow>
   ('h, 'r, 'w) WebIngressEventFactory \<times> (RuntimeFailure + unit)" where
  "event_activate L R debug sdebug connected l f =
     (case resolve_bound L R debug sdebug connected (el_config l) of
        Inl e \<Rightarrow> (f, Inl e)
      | Inr routes \<Rightarrow>
          (f\<lparr>ef_state := Some \<lparr>es_config = el_config l, es_routes = routes, es_middleware = el_middleware l,
             es_next_request_id = 0\<rparr>\<rparr>, Inr ()))"

definition event_deactivate ::
  "('h, 'r, 'w) WebIngressEventFactory \<Rightarrow> ('h, 'r, 'w) WebIngressEventFactory \<times> (RuntimeFailure + unit)" where
  "event_deactivate f = (f\<lparr>ef_state := None\<rparr>, Inr ())"

section \<open>Handling an event\<close>

text \<open>
  What the host and the kernel do during a call. \<open>ev_permit\<close> is the permit, when the semaphore gave
  one before the token was cancelled; \<open>ev_accepting_then\<close> is the second look at the readiness.
\<close>

record 'p event_env =
  ev_open :: bool
  ev_accepting :: bool
  ev_cancelled_before :: bool
  ev_permit :: "'p option"
  ev_accepting_then :: bool
  ev_context :: "RuntimeFailure + unit"
  ev_cancelled :: bool
  ev_cancellation :: token_id
  ev_disconnect :: token_id

text \<open>The \<open>work\<close> future: its response and the permit it took.\<close>

definition event_work ::
  "crypto_lib \<Rightarrow> 'h http_lib \<Rightarrow> 'r router_lib \<Rightarrow> ('h, 'r, 'w) EventState \<Rightarrow> SessionCookiePolicy option \<Rightarrow>
   nat \<Rightarrow> 'h request_parts \<Rightarrow> bytes \<Rightarrow> 'p event_env \<Rightarrow> 'w \<Rightarrow> ('h, 'p, 'w) dispatched_response \<times> 'p option" where
  "event_work C L R st cookie head_len parts body env w =
     (if \<not> ev_open env \<or> \<not> ev_accepting env then (answered (unavailable L) w, None)
      else if head_len > wic_max_request_head_bytes (es_config st)
      then (answered (json_response L 431 ''{\"error\":\"request_header_fields_too_large\"}'') w, None)
      else if ev_cancelled_before env then (answered (unavailable L) w, None)
      else (case ev_permit env of
          None \<Rightarrow> (answered (unavailable L) w, None)
        | Some permit \<Rightarrow>
            if \<not> ev_accepting_then env then (answered (unavailable L) w, Some permit)
            else if length body > wic_max_request_body_bytes (es_config st)
                \<or> (case content_length L (rp_headers parts) of
                     None \<Rightarrow> False | Some l \<Rightarrow> l > wic_max_request_body_bytes (es_config st))
            then (answered (payload_too_large L) w, Some permit)
            else (dispatch_buffered C L R parts body (ev_cancellation env) (ev_disconnect env) cookie (es_routes st)
                    (es_middleware st) (ev_context env) (ev_cancelled env) w, Some permit)))"

datatype 'p WebIngressEventBody =
    EventBuffered bytes
  | EventStreaming "'p WebIngressResponseStream" "stream_received list"
  | EventWebSocket "'p WebSocketSession"

record ('h, 'p, 'w) event_response =
  er_status :: nat
  er_headers :: 'h
  er_body :: "'p WebIngressEventBody"
  er_session_cancelled :: bool
  er_world :: 'w

definition event_body :: "'p option \<Rightarrow> 'p IngressBody \<Rightarrow> 'p WebIngressEventBody" where
  "event_body permit body =
     (case body of
        WebSocket upgrade \<Rightarrow> EventWebSocket (ws_retain_permit permit (wsu_session upgrade))
      | Buffered bytes \<Rightarrow> EventBuffered bytes
      | Streaming stream \<Rightarrow> EventStreaming (stream_retain_permit permit stream_new) stream)"

definition event_finish ::
  "'h http_lib \<Rightarrow> http_method \<Rightarrow> header_value \<Rightarrow> 'p option \<Rightarrow> 'w \<Rightarrow> ('h, 'p) IngressResponse \<Rightarrow> ('h, 'p, 'w) event_response" where
  "event_finish L m rid permit w r =
     (case normalize_body r m of (response, closed) \<Rightarrow>
        \<lparr>er_status = irs_status response, er_headers = with_transport_headers L (irs_headers response) rid,
         er_body = event_body permit (irs_body response), er_session_cancelled = closed, er_world = w\<rparr>)"

definition handle_response ::
  "crypto_lib \<Rightarrow> 'h http_lib \<Rightarrow> 'r router_lib \<Rightarrow> ('h, 'r, 'w) WebIngressEventFactory \<Rightarrow> 'h request_parts \<Rightarrow> bytes \<Rightarrow>
   'p event_env \<Rightarrow> 'w \<Rightarrow> (RuntimeFailure + ('h, 'p, 'w) event_response) progress \<times> ('h, 'r, 'w) WebIngressEventFactory" where
  "handle_response C L R f parts body env w =
     (case ef_state f of
        None \<Rightarrow> (Finished (Inl (plugin_failure ''event ingress is not active'')), f)
      | Some st \<Rightarrow>
          (case (case wic_session_cookie (es_config st) of
                   None \<Rightarrow> Some None | Some c \<Rightarrow> map_option Some (policy_from L c)) of
             None \<Rightarrow> (Panicking, f)
           | Some cookie \<Rightarrow>
               let headers = mark_sensitive_headers L (rp_headers parts) cookie;
                   head_len = canonical_request_head_len L (rp_method parts) (rp_uri parts) (rp_version parts) headers
               in case replace_request_id L headers (es_next_request_id st) of
                    None \<Rightarrow> (Panicking, f)
                  | Some (rid, headers', next') \<Rightarrow>
                      let f' = f\<lparr>ef_state := Some (st\<lparr>es_next_request_id := next'\<rparr>)\<rparr>
                      in case event_work C L R st cookie head_len (parts\<lparr>rp_headers := headers'\<rparr>) body env w of
                           (d, permit) \<Rightarrow>
                             (case dr_response d of
                                Panicking \<Rightarrow> (Panicking, f')
                              | Waiting \<Rightarrow> (Waiting, f')
                              | Finished r \<Rightarrow>
                                  (Finished (Inr (event_finish L (rp_method parts) rid permit (dr_world d) r)), f'))))"

definition event_handle ::
  "crypto_lib \<Rightarrow> 'h http_lib \<Rightarrow> 'r router_lib \<Rightarrow> ('h, 'r, 'w) WebIngressEventFactory \<Rightarrow> 'h request_parts \<Rightarrow> bytes \<Rightarrow>
   'p event_env \<Rightarrow> 'w \<Rightarrow> (RuntimeFailure + nat \<times> 'h \<times> bytes) progress \<times> ('h, 'r, 'w) WebIngressEventFactory" where
  "event_handle C L R f parts body env w =
     (case handle_response C L R f parts body env w of (outcome, f') \<Rightarrow>
        (case outcome of
           Panicking \<Rightarrow> Panicking
         | Waiting \<Rightarrow> Waiting
         | Finished (Inl e) \<Rightarrow> Finished (Inl e)
         | Finished (Inr r) \<Rightarrow>
             (case er_body r of
                EventBuffered bytes \<Rightarrow> Finished (Inr (er_status r, er_headers r, bytes))
              | _ \<Rightarrow> Finished (Inl (plugin_failure ''streaming response requires handle_response''))), f'))"

section \<open>The native factory\<close>

record WebIngressState =
  wis_local_address :: "string option"
  wis_route_manifest :: "WebIngressRouteManifest option"

record ('h, 'w) WebIngressFactory =
  wif_middleware :: "('w, 'h WebIngressRequest, 'h WebIngressResponse) WebIngressMiddleware list"
  wif_observer :: WebIngressState
  wif_replica :: "nat option"

definition native_factory_with :: "nat option \<Rightarrow> ('h, 'w) WebIngressFactory" where
  "native_factory_with replica =
     \<lparr>wif_middleware = [], wif_observer = \<lparr>wis_local_address = None, wis_route_manifest = None\<rparr>, wif_replica = replica\<rparr>"

definition native_factory_new :: "('h, 'w) WebIngressFactory" where
  "native_factory_new = native_factory_with None"

definition native_replicated ::
  "('q, 's) ListenerCoordinator \<Rightarrow> ('q, 's) ListenerCoordinator \<times> (RuntimeFailure + ('h, 'w) WebIngressFactory)" where
  "native_replicated c = (case allocate_replica c of (c', r) \<Rightarrow> (c', try_in r (\<lambda>i. Inr (native_factory_with (Some i)))))"

definition native_replicated_at ::
  "('q, 's) ListenerCoordinator \<Rightarrow> nat \<Rightarrow> ('q, 's) ListenerCoordinator \<times> (RuntimeFailure + ('h, 'w) WebIngressFactory)" where
  "native_replicated_at c i =
     (case allocate_replica_at c i of (c', r) \<Rightarrow> (c', try_in r (\<lambda>i. Inr (native_factory_with (Some i)))))"

definition native_with_middleware ::
  "('w, 'h WebIngressRequest, 'h WebIngressResponse) WebIngressMiddleware \<Rightarrow> ('h, 'w) WebIngressFactory \<Rightarrow>
   ('h, 'w) WebIngressFactory" where
  "native_with_middleware m f = f\<lparr>wif_middleware := wif_middleware f @ [m]\<rparr>"

text \<open>The listener of a lifecycle is known by its address.\<close>

record ('h, 'w) WebIngressLifecycle =
  wil_config :: WebIngressConfig
  wil_middleware :: "('w, 'h WebIngressRequest, 'h WebIngressResponse) WebIngressMiddleware list"
  wil_observer :: WebIngressState
  wil_listener :: "string option"
  wil_replica :: "nat option"

definition native_instantiate ::
  "'h http_lib \<Rightarrow> ('q, 's) ListenerCoordinator \<Rightarrow> string + WebIngressConfig \<Rightarrow> ('h, 'w) WebIngressFactory \<Rightarrow>
   RuntimeFailure + ('h, 'w) WebIngressLifecycle" where
  "native_instantiate L coordinator parsed f =
     try_in (map_err (\<lambda>e. InvalidResolvedPlan (''Web Ingress configuration is invalid: '' @ e)) parsed) (\<lambda>config.
     try_in (map_err (\<lambda>e. InvalidResolvedPlan (''Web Ingress configuration is invalid: '' @ e)) (config_validate L config)) (\<lambda>_.
     try_in (map_err InvalidResolvedPlan (validate_middleware (wif_middleware f))) (\<lambda>_.
     try_in (case wif_replica f of
         None \<Rightarrow> Inr ()
       | Some _ \<Rightarrow> map_err (\<lambda>e. InvalidResolvedPlan (''Web Ingress replica configuration is invalid: '' @ e))
           (replica_validate_config coordinator config)) (\<lambda>_.
       Inr \<lparr>wil_config = config, wil_middleware = wif_middleware f, wil_observer = wif_observer f,
            wil_listener = None, wil_replica = wif_replica f\<rparr>))))"

definition native_prepare ::
  "('q, 's) ListenerCoordinator \<Rightarrow> listener_io \<Rightarrow> ('h, 'w) WebIngressLifecycle \<Rightarrow>
   ('h, 'w) WebIngressLifecycle \<times> (RuntimeFailure + unit)" where
  "native_prepare coordinator io l =
     (case wil_replica l of
        Some _ \<Rightarrow> (l\<lparr>wil_observer := (wil_observer l)\<lparr>wis_local_address := Some (lc_local_address coordinator)\<rparr>\<rparr>, Inr ())
      | None \<Rightarrow>
          (case io_bind io of
             Inl error \<Rightarrow> (l, Inl (plugin_failure (''Web Ingress bind failed: '' @ error)))
           | Inr _ \<Rightarrow>
               (case io_local_addr io of
                  Inl error \<Rightarrow> (l, Inl (plugin_failure (''Web Ingress address failed: '' @ error)))
                | Inr address \<Rightarrow>
                    (l\<lparr>wil_observer := (wil_observer l)\<lparr>wis_local_address := Some address\<rparr>,
                       wil_listener := Some address\<rparr>, Inr ()))))"

datatype 's ConnectionSource = SourceListener string | SourceReplica "'s ReplicaConnectionSource"

text \<open>
  \<open>activate\<close>: the lifecycle and the coordinator afterwards, and the source the spawned server
  accepts from. \<open>None\<close> is a panic.
\<close>

definition native_activate ::
  "'h http_lib \<Rightarrow> 'r router_lib \<Rightarrow> ('q, 'c) mpsc_lib \<Rightarrow> 's semaphore_lib \<Rightarrow> (DescribeError \<Rightarrow> string) \<Rightarrow>
   (DescribeStreamError \<Rightarrow> string) \<Rightarrow> RuntimeFailure + bound_providers \<Rightarrow> string + unit \<Rightarrow>
   ('q, 's) ListenerCoordinator \<Rightarrow> ('h, 'w) WebIngressLifecycle \<Rightarrow>
   (('q, 's) ListenerCoordinator \<times> ('h, 'w) WebIngressLifecycle \<times> (RuntimeFailure + 's ConnectionSource \<times> 'r RouteTable)) option" where
  "native_activate L R M S debug sdebug connected spawned c l =
     (let listener = wil_listener l;
          l = l\<lparr>wil_listener := None\<rparr>
      in if listener = None \<and> wil_replica l = None
         then Some (c, l, Inl (Internal ''Web Ingress listener was not prepared''))
         else
           (case resolve_bound L R debug sdebug connected (wil_config l) of
              Inl e \<Rightarrow> Some (c, l, Inl e)
            | Inr routes \<Rightarrow>
                let l = l\<lparr>wil_observer := (wil_observer l)\<lparr>wis_route_manifest := Some (rt_manifest routes)\<rparr>\<rparr>;
                    finish = (\<lambda>c source. Some (c, l,
                      try_in (map_err (\<lambda>e. plugin_failure (''Web Ingress task could not start: '' @ e)) spawned)
                        (\<lambda>_. Inr (source, routes))))
                in (case wil_replica l of
                      Some i \<Rightarrow>
                        (case register M S c i (rt_manifest routes) (identities (wil_middleware l)) of
                           None \<Rightarrow> None
                         | Some (c', Inl e) \<Rightarrow> Some (c', l, Inl e)
                         | Some (c', Inr source) \<Rightarrow> finish c' (SourceReplica source))
                    | None \<Rightarrow>
                        (case listener of
                           None \<Rightarrow> None
                         | Some address \<Rightarrow> finish c (SourceListener address)))))"

section \<open>Requests that ask for no upgrade\<close>

lemma dispatch_closure_no_websocket:
  fixes ws' :: "'w \<times> 'p slot"
  assumes "dispatch_closure L R table context cancelled None control (w, empty_slot) req = (ws', res)"
  shows "slot_stream (snd ws') \<noteq> Some (WebSocket u)"
proof -
  note d = assms [unfolded dispatch_closure_def Let_def empty_slot_def]
  show ?thesis
  proof (cases "restore_inbound_request L req control")
    case None
    with d show ?thesis by auto
  next
    case (Some x)
    show ?thesis
    proof (cases x)
      case (Inl rejection)
      with Some d show ?thesis
        by (auto simp: into_middleware_response_def request_rejection_def bad_request_def csrf_forbidden_def json_response_def
            split: RequestRejection.splits)
    next
      case (Inr r)
      show ?thesis
      proof (cases "dp_outcome (dispatch R table context cancelled r None :: 'p dispatched)")
        case (Finished result)
        have "irs_body (fst (dispatch_response L result)) \<noteq> WebSocket u"
        proof
          assume "irs_body (fst (dispatch_response L result)) = WebSocket u"
          then have "result = Inr (DispWebSocket u)" by (rule dispatch_response_body)
          with Finished dispatch_websocket [of R table "context" cancelled r None u] show False by simp
        qed
        moreover obtain ir closed where ir: "dispatch_response L result = (ir, closed)" by fastforce
        moreover obtain response stream where m: "into_middleware_response ir = (response, stream)" by fastforce
        ultimately have "stream \<noteq> Some (WebSocket u)" using into_middleware_slot [OF m] by (auto split: IngressBody.splits)
        with Inr Some d Finished ir m show ?thesis by auto
      qed (use Inr Some d in auto)
    qed
  qed
qed

lemma finish_response_no_websocket:
  assumes "slot_stream (snd (fst out)) \<noteq> Some (WebSocket u)" and "dr_response (finish_response L out) = Finished r"
  shows "irs_body r \<noteq> WebSocket u"
proof -
  obtain w s result where out: "out = ((w, s), result)" by (metis surj_pair)
  have body: "irs_body (from_middleware_response L response) = Buffered (wres_body response)" for response
    by (simp add: from_middleware_response_def Let_def)
  show ?thesis
  proof (cases result)
    case (Inl x)
    then have "r = unavailable L" using assms(2) by (simp add: finish_response_def out split: unwind.splits)
    then show ?thesis by (simp add: unavailable_def json_response_def)
  next
    case (Inr response)
    show ?thesis
    proof (cases "slot_stream s")
      case None
      then have "r = from_middleware_response L response" using assms(2) Inr by (simp add: finish_response_def out Let_def)
      then show ?thesis by (simp add: body)
    next
      case (Some stream)
      then obtain closed where "with_session L (from_middleware_response L response) stream = Some (r, closed)"
        using assms(2) Inr by (auto simp: finish_response_def out Let_def split: option.splits prod.splits)
      moreover have "stream \<noteq> WebSocket u" using assms(1) out Some by simp
      ultimately show ?thesis
        by (auto simp: with_session_def body Let_def split: IngressBody.splits if_splits option.splits)
    qed
  qed
qed

lemma no_upgrade_no_websocket:
  fixes r :: "('h, 'p) IngressResponse" and w :: 'w
  assumes "\<not> hm_contains_key L (rp_headers parts) ''upgrade''"
    and "dr_response (dispatch_buffered C L R parts body c d sc table mw ctx cancelled w) = Finished r"
  shows "irs_body r \<noteq> WebSocket u"
proof -
  define D :: "('h, 'p, 'w) dispatched_response" where "D = dispatch_buffered C L R parts body c d sc table mw ctx cancelled w"
  note fin = assms(2) [folded D_def]
  from D_def show ?thesis
  proof (cases rule: dispatch_buffered_cases)
    case (answer status msg)
    then show ?thesis using fin by (auto simp: answered_def json_response_def)
  next
    case panic
    then show ?thesis using fin by simp
  next
    case (run handshake request req control)
    have h: "handshake = None" using run(1) assms(1) by (simp add: parse_upgrade_def)
    obtain ws' res where m: "run_middleware (map lift_layer mw)
        (dispatch_closure L R table ctx cancelled handshake control) (w, empty_slot :: 'p slot) req = (ws', res)"
      by fastforce
    from run_middleware_slot [OF m] have "slot_stream (snd ws') \<noteq> Some (WebSocket u)"
      using dispatch_closure_no_websocket [of L R table ctx cancelled control, where u = u]
      unfolding h by (metis empty_slot_def option.distinct(1) slot.select_convs(1))
    with finish_response_no_websocket [of "(ws', res)" u L r] fin run(4) m show ?thesis by simp
  qed
qed

section \<open>Agreement of the two entrances\<close>

text \<open>The same request, with the same outcome of everything outside, at a socket and in an event host.\<close>

definition same_conditions ::
  "'h http_lib \<Rightarrow> ('h, 'r, 'w) EventState \<Rightarrow> ('h, 'r, 'w) IngressService \<Rightarrow> 'h incoming \<Rightarrow> bytes \<Rightarrow> call_env \<Rightarrow>
   'p event_env \<Rightarrow> bool" where
  "same_conditions L st service request body env eenv \<longleftrightarrow>
     is_config service = es_config st \<and> is_routes service = es_routes st \<and> is_middleware service = es_middleware st \<and>
     (case wic_session_cookie (es_config st) of
        None \<Rightarrow> is_session_cookie service = None
      | Some c \<Rightarrow> policy_from L c = is_session_cookie service \<and> is_session_cookie service \<noteq> None) \<and>
     is_cancellation service = ev_cancellation eenv \<and> env_disconnect env = ev_disconnect eenv \<and>
     env_context env = ev_context eenv \<and> env_cancelled env = ev_cancelled eenv \<and>
     (is_local_concurrency service \<longrightarrow> env_local_permit env) \<and> env_global_permit env \<and> env_race env = BodyFinished \<and>
     ev_open eenv \<and> ev_accepting eenv \<and> \<not> ev_cancelled_before eenv \<and> ev_permit eenv \<noteq> None \<and> ev_accepting_then eenv \<and>
     (if in_end_stream request then body = []
      else map frame_data (in_frames request) = map Inr (List.map_filter (\<lambda>f. case frame_data f of Inl _ \<Rightarrow> None | Inr d \<Rightarrow> Some d) (in_frames request)) \<and>
        body = concat (List.map_filter (\<lambda>f. case frame_data f of Inl _ \<Rightarrow> None | Inr d \<Rightarrow> Some d) (in_frames request)))"

definition same_answer :: "('h, 'p, 'w) served \<Rightarrow> ('h, 'p, 'w) event_response \<Rightarrow> bool" where
  "same_answer s e \<longleftrightarrow> sv_status s = er_status e \<and> sv_headers s = er_headers e \<and> sv_world s = er_world e \<and>
     sv_session_cancelled s = er_session_cancelled e \<and> sv_socket_task s = None \<and>
     (case er_body e of
        EventBuffered b \<Rightarrow> sv_body s = RespBuffered b
      | EventStreaming _ ys \<Rightarrow> sv_body s = RespStreaming ys
      | EventWebSocket _ \<Rightarrow> False)"

lemma finish_agree:
  assumes "\<forall>u. irs_body r \<noteq> WebSocket u"
  shows "same_answer (finish_call L m up policy rid w r) (event_finish L m rid permit w r)"
  using assms
  by (cases "irs_body r")
    (auto simp: same_answer_def finish_call_def event_finish_def normalize_body_def into_response_def event_body_def Let_def)

lemma collected_body:
  assumes "limit < usize_max" and "map frame_data frames = map Inr ds"
  shows "collect_bounded_body limit frames = (if length (concat ds) \<le> limit then Inr (concat ds) else Inl TooLarge)"
proof (cases "collect_bounded_body limit frames")
  case (Inl e)
  have "\<forall>f \<in> set frames. frame_data f \<noteq> Inl e"
  proof
    fix f assume "f \<in> set frames"
    then have "frame_data f \<in> set (map frame_data frames)" by simp
    then show "frame_data f \<noteq> Inl e" unfolding assms(2) by auto
  qed
  with request_body.read_failure [OF assms(1) Inl] have e: "e = TooLarge" by blast
  have "\<not> length (concat ds) \<le> limit"
  proof
    assume "length (concat ds) \<le> limit"
    then have "collect_bounded_body limit frames = Inr (concat ds)"
      using request_body.read_exact [OF assms(1)] assms(2) by blast
    with Inl show False by simp
  qed
  with Inl e show ?thesis by simp
next
  case (Inr b)
  then obtain ds' where "map frame_data frames = map Inr ds'" "b = concat ds'" "length b \<le> limit"
    using request_body.read_exact [OF assms(1)] by blast
  moreover from this(1) assms(2) have "map Inr ds' = (map Inr ds :: (BodyReadError + bytes) list)" by simp
  then have "ds' = ds" by (simp add: inj_map_eq_map inj_def)
  ultimately show ?thesis using Inr by simp
qed

lemma work_agree:
  assumes "wic_max_request_body_bytes (es_config st) < usize_max"
    and same: "same_conditions L st service request body env eenv"
    and "\<not> head_len > wic_max_request_head_bytes (es_config st)"
  shows "event_work C L R st (is_session_cookie service) head_len (in_parts request) body eenv w =
    (service_dispatch C L R service request env w, ev_permit eenv)"
proof -
  let ?limit = "wic_max_request_body_bytes (es_config st)"
  obtain p where p: "ev_permit eenv = Some p" using same by (auto simp: same_conditions_def)
  have read: "(if in_end_stream request then Some (Inr []) else Some (collect_bounded_body ?limit (in_frames request))) =
      Some (if length body \<le> ?limit then Inr body else Inl TooLarge)"
    using same collected_body [OF assms(1)] by (auto simp: same_conditions_def split: if_splits)
  show ?thesis
    using same assms(3) p read
    by (auto simp: event_work_def service_dispatch_def same_conditions_def Let_def not_le split: option.splits if_splits)
qed


definition outcomes_agree ::
  "('h, 'p, 'w) served progress \<Rightarrow> (RuntimeFailure + ('h, 'p, 'w) event_response) progress \<Rightarrow> bool" where
  "outcomes_agree s e =
     (case (s, e) of
        (Finished a, Finished (Inr b)) \<Rightarrow> same_answer a b
      | (Waiting, Waiting) \<Rightarrow> True
      | (Panicking, Panicking) \<Rightarrow> True
      | _ \<Rightarrow> False)"

lemma same_conditions_parts [simp]:
  "same_conditions L st service (request\<lparr>in_parts := parts\<rparr>) body env eenv = same_conditions L st service request body env eenv"
  by (simp add: same_conditions_def)

lemma same_conditions_cookie:
  assumes "same_conditions L st service request body env eenv"
  shows "(case wic_session_cookie (es_config st) of None \<Rightarrow> Some None | Some c \<Rightarrow> map_option Some (policy_from L c)) =
    Some (is_session_cookie service)"
  using assms by (auto simp: same_conditions_def split: option.splits)

lemma no_upgrade_kept:
  assumes "header_map_laws L" and "\<not> hm_contains_key L h ''upgrade''"
    and "replace_request_id L (mark_sensitive_headers L h cookie) next = Some (rid, h', next')"
  shows "\<not> hm_contains_key L h' ''upgrade''"
proof -
  have "h' = hm_insert L (mark_sensitive_headers L h cookie) ''x-request-id'' rid"
    using assms(3) by (auto simp: replace_request_id_def split: prod.splits)
  with assms(2) show ?thesis
    by (simp add: hm_contains_key_def mark_sensitive_headers_def header_map_lawsD(2,5) [OF assms(1)])
qed

lemma service_dispatch_no_websocket:
  assumes "\<not> hm_contains_key L (rp_headers (in_parts request)) ''upgrade''"
    and "dr_response (service_dispatch C L R service request env w) = Finished r"
  shows "irs_body r \<noteq> WebSocket u"
  using assms(2)
  by (auto simp: service_dispatch_def Let_def answered_def json_response_def payload_too_large_def request_timeout_def
      unavailable_def bad_request_def split: option.splits sum.splits if_splits BodyReadError.splits body_race.splits
      dest: no_upgrade_no_websocket [OF assms(1)])

lemma json_finish_agree:
  "same_answer (finish_call L m up policy rid w (json_response L n b)) (event_finish L m rid permit w (json_response L n b))"
  by (rule finish_agree) (simp add: json_response_def)

section \<open>Properties\<close>

text \<open>C9. The socket entrance and the event entrance are one ingress: the same request, asking for no
  upgrade, with the same configuration, routes and middleware and with admission granted, ends in
  both the same way, with the same status, headers and body, the same effect on the endpoints and
  the same next request identity.\<close>

theorem event_and_socket_agree:
  fixes eenv :: "'p event_env" and s :: "('h, 'p, 'w) served progress"
  assumes "header_map_laws L" and "built L (es_config st)" and "ef_state f = Some st"
    and same: "same_conditions L st service request body env eenv"
    and "\<not> hm_contains_key L (rp_headers (in_parts request)) ''upgrade''"
    and socket: "service_call C L R service request env (es_next_request_id st) w = (s, next')"
  shows "\<exists>e f' st'. handle_response C L R f (in_parts request) body eenv w = (e, f') \<and> outcomes_agree s e \<and>
    ef_state f' = Some st' \<and> es_next_request_id st' = next'"
proof -
  let ?h = "mark_sensitive_headers L (rp_headers (in_parts request)) (is_session_cookie service)"
  let ?len = "canonical_request_head_len L (rp_method (in_parts request)) (rp_uri (in_parts request)) (rp_version (in_parts request)) ?h"
  note cookie = same_conditions_cookie [OF same]
  have cfg: "is_config service = es_config st" using same by (simp add: same_conditions_def)
  have permits: "\<not> (is_local_concurrency service \<and> \<not> env_local_permit env)" "env_global_permit env"
    using same by (auto simp: same_conditions_def)
  have limit: "wic_max_request_body_bytes (es_config st) < usize_max"
    using config_validate_limits(1) [OF built_valid [OF assms(2)]]
    by (simp add: in_limit_def MAX_TRANSFER_BYTES_def usize_max_def)
  show ?thesis
  proof (cases "replace_request_id L ?h (es_next_request_id st)")
    case None
    then show ?thesis
      using socket assms(3) by (simp add: service_call_def handle_response_def cookie outcomes_agree_def)
  next
    case (Some x)
    then obtain rid h' n where r: "replace_request_id L ?h (es_next_request_id st) = Some (rid, h', n)" by (cases x) auto
    let ?parts = "(in_parts request)\<lparr>rp_headers := h'\<rparr>"
    let ?request = "request\<lparr>in_parts := ?parts\<rparr>"
    define d :: "('h, 'p, 'w) dispatched_response" where "d = service_dispatch C L R service ?request env w"
    show ?thesis
    proof (cases "?len > wic_max_request_head_bytes (es_config st)")
      case True
      have "event_work C L R st (is_session_cookie service) ?len ?parts body eenv w =
          (answered (json_response L 431 ''{\"error\":\"request_header_fields_too_large\"}'') w, None)"
        using True same by (simp add: event_work_def same_conditions_def)
      with socket assms(3) True cfg show ?thesis
        by (auto simp: service_call_def handle_response_def cookie r Let_def answered_def outcomes_agree_def json_finish_agree)
    next
      case False
      have work: "event_work C L R st (is_session_cookie service) ?len ?parts body eenv w = (d, ev_permit eenv)"
        using work_agree [OF limit, of L service ?request body env eenv ?len C R w] same False by (simp add: d_def)
      have "\<not> hm_contains_key L (rp_headers (in_parts ?request)) ''upgrade''"
        using no_upgrade_kept [OF assms(1,5) r] by simp
      then have noweb: "dr_response d = Finished a \<Longrightarrow> \<forall>u. irs_body a \<noteq> WebSocket u" for a
        unfolding d_def by (blast dest: service_dispatch_no_websocket)
      show ?thesis
      proof (cases "dr_response d")
        case (Finished a)
        note agree = finish_agree [OF noweb [OF Finished]]
        show ?thesis
          using socket assms(3) False cfg permits Finished work agree
          by (auto simp: service_call_def handle_response_def cookie r Let_def outcomes_agree_def d_def [symmetric])
      qed (use socket assms(3) False cfg permits work in
          \<open>auto simp: service_call_def handle_response_def cookie r Let_def outcomes_agree_def d_def [symmetric]\<close>)
    qed
  qed
qed


abbreviation hello_event_state :: "((header_name \<times> header_value) list, (string \<times> RouteTarget) list, unit) EventState" where
  "hello_event_state \<equiv> \<lparr>es_config = default_config, es_routes = hello_table, es_middleware = [], es_next_request_id = 7\<rparr>"

abbreviation hello_event_factory :: "((header_name \<times> header_value) list, (string \<times> RouteTarget) list, unit) WebIngressEventFactory" where
  "hello_event_factory \<equiv> \<lparr>ef_instantiated = True, ef_state = Some hello_event_state, ef_middleware = []\<rparr>"

abbreviation hello_call_env :: call_env where
  "hello_call_env \<equiv> \<lparr>env_local_permit = True, env_global_permit = True, env_race = BodyFinished,
     env_context = Inr (), env_cancelled = False, env_disconnect = 2, env_upgrade = False\<rparr>"

abbreviation hello_event_env :: "nat event_env" where
  "hello_event_env \<equiv> \<lparr>ev_open = True, ev_accepting = True, ev_cancelled_before = False, ev_permit = Some 0,
     ev_accepting_then = True, ev_context = Inr (), ev_cancelled = False, ev_cancellation = 1, ev_disconnect = 2\<rparr>"

theorem event_and_socket_agree_witness:
  "\<exists>e f'. handle_response constant_crypto list_http list_router hello_event_factory hello_parts [] hello_event_env () = (e, f') \<and>
     outcomes_agree (fst (service_call constant_crypto list_http list_router hello_service hello_incoming hello_call_env 7 ())) e"
proof -
  obtain s :: "((header_name \<times> header_value) list, nat, unit) served progress" and next'
    where s: "service_call constant_crypto list_http list_router hello_service hello_incoming hello_call_env 7 () = (s, next')"
    by fastforce
  have "same_conditions list_http hello_event_state hello_service hello_incoming [] hello_call_env hello_event_env"
    by (simp add: same_conditions_def default_config_def)
  moreover have "\<not> hm_contains_key list_http (rp_headers (in_parts hello_incoming)) ''upgrade''"
    by (simp add: hm_contains_key_def list_http_def)
  moreover have "built list_http (es_config hello_event_state)" by (simp add: built_default)
  ultimately have "\<exists>e f' st'. handle_response constant_crypto list_http list_router hello_event_factory (in_parts hello_incoming)
      [] hello_event_env () = (e, f') \<and> outcomes_agree s e \<and> ef_state f' = Some st' \<and> es_next_request_id st' = next'"
    using event_and_socket_agree [OF list_http_header_map_laws, of hello_event_state hello_event_factory hello_service
        hello_incoming "[]" hello_call_env hello_event_env constant_crypto list_router "()" s next'] s by simp
  with s show ?thesis by auto
qed

section \<open>The life of an event factory\<close>

text \<open>
  The clones of a factory share the two cells and have their own middleware list; \<open>other_clone\<close>
  goes on with a clone of any list. The second component holds the lifecycles instantiated so far.
\<close>

datatype event_op = Clones | Instantiates | ActivatesApp | Deactivates | HandlesRequest

inductive ingress_event_step ::
  "crypto_lib \<Rightarrow> 'h http_lib \<Rightarrow> 'r router_lib \<Rightarrow>
   ('h, 'r, 'w) WebIngressEventFactory \<times> ('h, 'w) EventLifecycle list \<Rightarrow> event_op \<Rightarrow>
   ('h, 'r, 'w) WebIngressEventFactory \<times> ('h, 'w) EventLifecycle list \<Rightarrow> bool" for C L R where
  other_clone: "ingress_event_step C L R (f, ls) Clones (f\<lparr>ef_middleware := ms\<rparr>, ls)"
| instantiated: "ingress_event_instantiate L parsed f = (f', Inr l) \<Longrightarrow> ingress_event_step C L R (f, ls) Instantiates (f', l # ls)"
| refused: "ingress_event_instantiate L parsed f = (f', Inl e) \<Longrightarrow> ingress_event_step C L R (f, ls) Instantiates (f', ls)"
| activated: "l \<in> set ls \<Longrightarrow> event_activate L R debug sdebug connected l f = (f', r) \<Longrightarrow> ingress_event_step C L R (f, ls) ActivatesApp (f', ls)"
| deactivated: "event_deactivate f = (f', r) \<Longrightarrow> ingress_event_step C L R (f, ls) ActivatesApp (f', ls)"
| handled: "handle_response C L R f parts body (env :: unit event_env) w = (r, f') \<Longrightarrow> ingress_event_step C L R (f, ls) HandlesRequest (f', ls)"

definition event_inv :: "'h http_lib \<Rightarrow> 'r router_lib \<Rightarrow>
   ('h, 'r, 'w) WebIngressEventFactory \<times> ('h, 'w) EventLifecycle list \<Rightarrow> bool" where
  "event_inv L R s \<longleftrightarrow>
     (case s of (f, ls) \<Rightarrow>
        length ls \<le> 1 \<and> (ef_instantiated f \<longleftrightarrow> ls \<noteq> []) \<and>
        (\<forall>l \<in> set ls. config_validate L (el_config l) = Inr () \<and> validate_middleware (el_middleware l) = Inr ()) \<and>
        (\<forall>st. ef_state f = Some st \<longrightarrow>
           (\<exists>l \<in> set ls. es_config st = el_config l \<and> es_middleware st = el_middleware l) \<and>
           (\<exists>debug sdebug connected. resolve_bound L R debug sdebug connected (es_config st) = Inr (es_routes st))))"

lemma instantiate_cases:
  assumes "ingress_event_instantiate L parsed f = (f', r)"
  obtains e where "r = Inl e" "f' = f"
  | config where "\<not> ef_instantiated f" "f' = f\<lparr>ef_instantiated := True\<rparr>"
      "r = Inr \<lparr>el_config = config, el_middleware = ef_middleware f\<rparr>"
      "config_validate L config = Inr ()" "validate_middleware (ef_middleware f) = Inr ()"
proof -
  have "(\<exists>e. r = Inl e \<and> f' = f) \<or> (\<exists>config. \<not> ef_instantiated f \<and> f' = f\<lparr>ef_instantiated := True\<rparr> \<and>
      r = Inr \<lparr>el_config = config, el_middleware = ef_middleware f\<rparr> \<and>
      config_validate L config = Inr () \<and> validate_middleware (ef_middleware f) = Inr ())"
    using assms by (auto simp: ingress_event_instantiate_def split: sum.splits if_splits)
  then show ?thesis using that by blast
qed

lemma handle_response_factory:
  assumes "handle_response C L R f parts body env w = (r, f')"
  shows "ef_instantiated f' = ef_instantiated f \<and>
    (f' = f \<or> (\<exists>st next. ef_state f = Some st \<and> ef_state f' = Some (st\<lparr>es_next_request_id := next\<rparr>)))"
  using assms
  by (auto simp: handle_response_def Let_def split: option.splits prod.splits progress.splits)

lemma ingress_step_inv:
  assumes "ingress_event_step C L R s op s'" and "event_inv L R s"
  shows "event_inv L R s'"
  using assms
proof (induction rule: ingress_event_step.induct)
  case (instantiated parsed f f' l ls)
  from instantiated(1) show ?case
    by (cases rule: instantiate_cases) (use instantiated(2) in \<open>auto simp: event_inv_def\<close>)
next
  case (refused parsed f f' e ls)
  from refused(1) show ?case
    by (cases rule: instantiate_cases) (use refused(2) in auto)
next
  case (activated l ls debug sdebug connected f f' r)
  then show ?case
    by (auto simp: event_activate_def event_inv_def split: sum.splits) blast+
next
  case (handled f parts body env w r f' ls)
  from handle_response_factory [OF handled(1)] handled(2) show ?case
    by (auto simp: event_inv_def) blast+
qed (auto simp: event_inv_def event_deactivate_def)

text \<open>An event factory serves one application: over every sequence of instantiations, activations,
  deactivations and requests, on it and its clones, at most one instance is created, and whatever
  state requests are handled in has a configuration and a middleware list that passed validation
  and routes resolved for that configuration.\<close>

theorem event_factory_serves_one_app:
  fixes C :: crypto_lib
  assumes "reaches (ingress_event_step C L R) (event_factory_new, []) (f, ls)"
  shows "length ls \<le> 1 \<and>
    (ls \<noteq> [] \<longrightarrow> (\<exists>e. ingress_event_instantiate L parsed f = (f, Inl e))) \<and>
    (ef_state f = Some st \<longrightarrow> config_validate L (es_config st) = Inr () \<and> validate_middleware (es_middleware st) = Inr () \<and>
      (\<exists>debug sdebug connected. resolve_bound L R debug sdebug connected (es_config st) = Inr (es_routes st)))"
proof -
  have inv: "event_inv L R (f, ls)"
  proof (rule reaches_invariant [OF assms])
    show "event_inv L R (event_factory_new, [])" by (simp add: event_inv_def event_factory_new_def)
  qed (rule ingress_step_inv)
  have "\<exists>e. ingress_event_instantiate L parsed f = (f, Inl e)" if "ls \<noteq> []"
  proof -
    obtain f' r where i: "ingress_event_instantiate L parsed f = (f', r)" by fastforce
    then show ?thesis by (cases rule: instantiate_cases) (use i inv that in \<open>auto simp: event_inv_def\<close>)
  qed
  with inv show ?thesis by (fastforce simp: event_inv_def)
qed

theorem event_factory_serves_one_app_witness:
  "\<exists>f :: ((header_name \<times> header_value) list, (string \<times> RouteTarget) list, unit) WebIngressEventFactory. \<exists>l e.
     reaches (ingress_event_step constant_crypto list_http list_router) (event_factory_new, []) (f, [l]) \<and>
     ingress_event_instantiate list_http (Inr default_config) f = (f, Inl e)"
proof -
  let ?f = "event_factory_new :: ((header_name \<times> header_value) list, (string \<times> RouteTarget) list, unit) WebIngressEventFactory"
  let ?l = "\<lparr>el_config = default_config, el_middleware = []\<rparr>"
  have "ingress_event_instantiate list_http (Inr default_config) ?f = (?f\<lparr>ef_instantiated := True\<rparr>, Inr ?l)"
    using built_valid [OF built_default, of list_http]
    by (simp add: ingress_event_instantiate_def event_factory_new_def validate_middleware_def)
  from ingress_event_step.instantiated [OF this, of constant_crypto list_router "[]"]
  have r: "reaches (ingress_event_step constant_crypto list_http list_router) (?f, []) (?f\<lparr>ef_instantiated := True\<rparr>, [?l])"
    by (rule reaches_step [OF reaches_refl])
  from event_factory_serves_one_app [OF r, of "Inr default_config"] r show ?thesis by blast
qed

end
