(* ===== verification/ServeLoop.thy ===== *)
theory ServeLoop
  imports EventIngress
begin

text \<open>
  The server around the service (\<open>server.rs\<close>, and the permit acquisition of \<open>ingress.rs\<close>): what
  a connection source provides, request admission under a global and a lane-local semaphore, the
  task of one connection, and the accept loop with its shutdown. The order in which branches of a
  \<open>select\<close> become ready, the network and the clock are inputs of the step relations.
\<close>

section \<open>Connection sources\<close>

definition source_request_concurrency ::
  "'s semaphore_lib \<Rightarrow> ('q, 's) ListenerCoordinator \<Rightarrow> 's ConnectionSource \<Rightarrow> nat \<Rightarrow> 's \<times> 's option" where
  "source_request_concurrency S coordinator source limit =
     (case source of
        SourceListener _ \<Rightarrow> (sem_new S limit, None)
      | SourceReplica r \<Rightarrow> (lc_request_concurrency coordinator, Some (rcs_local_request_concurrency r)))"

definition source_connection_concurrency ::
  "'s semaphore_lib \<Rightarrow> ('q, 's) ListenerCoordinator \<Rightarrow> 's ConnectionSource \<Rightarrow> nat \<Rightarrow> 's" where
  "source_connection_concurrency S coordinator source limit =
     (case source of SourceListener _ \<Rightarrow> sem_new S limit | SourceReplica _ \<Rightarrow> lc_connection_concurrency coordinator)"

definition source_request_ids :: "('q, 's) ListenerCoordinator \<Rightarrow> 's ConnectionSource \<Rightarrow> RequestIdSequence" where
  "source_request_ids coordinator source =
     (case source of SourceListener _ \<Rightarrow> 0 | SourceReplica _ \<Rightarrow> lc_next_request_id coordinator)"

text \<open>
  \<open>accept\<close>: the result of the listener, of \<open>receive\<close> and of the conversion of the stream are
  inputs. The flag tells whether the connection brings its permit; \<open>None\<close> is a call still waiting.
\<close>

definition source_accept ::
  "'s ConnectionSource \<Rightarrow> string + 'c \<Rightarrow> 'c received_connection \<Rightarrow> string + unit \<Rightarrow>
   (string + ('c \<times> bool) option) option" where
  "source_accept source accepted received from_std =
     (case source of
        SourceListener _ \<Rightarrow> Some (try_in accepted (\<lambda>stream. Inr (Some (stream, False))))
      | SourceReplica _ \<Rightarrow>
          (case received of
             Waits \<Rightarrow> None
           | ReceiveFailed e \<Rightarrow> Some (Inl e)
           | ReceivedConnection None \<Rightarrow> Some (Inr None)
           | ReceivedConnection (Some stream) \<Rightarrow> Some (try_in from_std (\<lambda>_. Inr (Some (stream, True))))))"

section \<open>Starting the server\<close>

text \<open>The head timeout and the stream limit given to the protocol builder; \<open>None\<close> is the panic of \<open>expect\<close>.\<close>

definition configure_protocol_limits :: "WebIngressConfig \<Rightarrow> (nat \<times> nat) option" where
  "configure_protocol_limits config =
     (if wic_max_concurrent_requests config < 2 ^ 32
      then Some (wic_request_head_timeout_millis config, wic_max_concurrent_requests config) else None)"

text \<open>The service every connection gets a clone of.\<close>

definition serve_service ::
  "'h http_lib \<Rightarrow> 's semaphore_lib \<Rightarrow> ('q, 's) ListenerCoordinator \<Rightarrow> 's ConnectionSource \<Rightarrow> WebIngressConfig \<Rightarrow>
   'r RouteTable \<Rightarrow> ('w, 'h WebIngressRequest, 'h WebIngressResponse) WebIngressMiddleware list \<Rightarrow> token_id \<Rightarrow>
   ('h, 'r, 'w) IngressService option" where
  "serve_service L S coordinator source config routes middleware cancellation =
     map_option (\<lambda>cookie.
         \<lparr>is_config = config, is_middleware = middleware, is_routes = routes, is_session_cookie = cookie,
          is_local_concurrency =
            (snd (source_request_concurrency S coordinator source (wic_max_concurrent_requests config)) \<noteq> None),
          is_cancellation = cancellation\<rparr>)
       (case wic_session_cookie config of None \<Rightarrow> Some None | Some c \<Rightarrow> map_option Some (policy_from L c))"

definition assert_server_result :: "string + unit \<Rightarrow> unit option" where
  "assert_server_result r = (case r of Inr _ \<Rightarrow> Some () | Inl _ \<Rightarrow> None)"

text \<open>\<open>wait_for_shutdown\<close>: the flag each round sees and whether the sender is gone; \<open>None\<close> waits on.\<close>

fun wait_for_shutdown :: "(bool \<times> bool) list \<Rightarrow> unit option" where
  "wait_for_shutdown [] = None"
| "wait_for_shutdown ((flag, gone) # rounds) = (if flag \<or> gone then Some () else wait_for_shutdown rounds)"

section \<open>Request admission\<close>

text \<open>\<open>acquire_request_permit\<close> up to its suspension; a waiting call tries again when a permit is free.\<close>

definition acquire_request_permit :: "'s semaphore_lib \<Rightarrow> 's \<Rightarrow> bool \<Rightarrow> 's option entered" where
  "acquire_request_permit S semaphore cancelled =
     (if cancelled then Returned None
      else (case sem_try_acquire S semaphore of Some s \<Rightarrow> Returned (Some s) | None \<Rightarrow> Pending))"

datatype call_phase = AwaitsLocal | AwaitsGlobal | Dispatching

record 's request_system =
  rq_global :: 's
  rq_locals :: "'s option list"
  rq_calls :: "(nat \<times> nat \<times> call_phase) list"

datatype call_event = CallBegins nat nat | LocalPermit nat | GlobalPermit nat | CallRefused nat | CallEnds nat

definition release_local :: "'s semaphore_lib \<Rightarrow> nat \<Rightarrow> 's request_system \<Rightarrow> 's request_system" where
  "release_local S lane s = s\<lparr>rq_locals := (rq_locals s)[lane := map_option (sem_release S) (rq_locals s ! lane)]\<rparr>"

definition replace_call :: "nat \<times> nat \<times> call_phase \<Rightarrow> (nat \<times> nat \<times> call_phase) list \<Rightarrow> 's request_system \<Rightarrow> 's request_system" where
  "replace_call c new s = s\<lparr>rq_calls := new @ remove1 c (rq_calls s)\<rparr>"

text \<open>The permits of the calls of all lanes, in whatever order the lanes run.\<close>

inductive call_step :: "'s semaphore_lib \<Rightarrow> 's request_system \<Rightarrow> call_event \<Rightarrow> 's request_system \<Rightarrow> bool" for S where
  begins: "lane < length (rq_locals s) \<Longrightarrow>
    call_step S s (CallBegins i lane)
      (s\<lparr>rq_calls := (i, lane, if rq_locals s ! lane = None then AwaitsGlobal else AwaitsLocal) # rq_calls s\<rparr>)"
| takes_local: "(i, lane, AwaitsLocal) \<in> set (rq_calls s) \<Longrightarrow> lane < length (rq_locals s) \<Longrightarrow>
    rq_locals s ! lane = Some l \<Longrightarrow> acquire_request_permit S l False = Returned (Some l') \<Longrightarrow>
    call_step S s (LocalPermit i)
      (replace_call (i, lane, AwaitsLocal) [(i, lane, AwaitsGlobal)] (s\<lparr>rq_locals := (rq_locals s)[lane := Some l']\<rparr>))"
| takes_global: "(i, lane, AwaitsGlobal) \<in> set (rq_calls s) \<Longrightarrow>
    acquire_request_permit S (rq_global s) False = Returned (Some g) \<Longrightarrow>
    call_step S s (GlobalPermit i)
      (replace_call (i, lane, AwaitsGlobal) [(i, lane, Dispatching)] (s\<lparr>rq_global := g\<rparr>))"
| refused_local: "(i, lane, AwaitsLocal) \<in> set (rq_calls s) \<Longrightarrow>
    call_step S s (CallRefused i) (replace_call (i, lane, AwaitsLocal) [] s)"
| refused_global: "(i, lane, AwaitsGlobal) \<in> set (rq_calls s) \<Longrightarrow> lane < length (rq_locals s) \<Longrightarrow>
    call_step S s (CallRefused i) (replace_call (i, lane, AwaitsGlobal) [] (release_local S lane s))"
| ends: "(i, lane, Dispatching) \<in> set (rq_calls s) \<Longrightarrow> lane < length (rq_locals s) \<Longrightarrow>
    call_step S s (CallEnds i)
      (replace_call (i, lane, Dispatching) [] (release_local S lane (s\<lparr>rq_global := sem_release S (rq_global s)\<rparr>)))"

definition dispatching :: "'s request_system \<Rightarrow> (nat \<times> nat \<times> call_phase) list" where
  "dispatching s = filter (\<lambda>c. snd (snd c) = Dispatching) (rq_calls s)"

definition lane_permits :: "nat \<Rightarrow> 's request_system \<Rightarrow> 's option" where
  "lane_permits lane s = (if lane < length (rq_locals s) then rq_locals s ! lane else None)"

text \<open>The calls that hold a permit of the lane.\<close>

definition holds_lane :: "nat \<Rightarrow> nat \<times> nat \<times> call_phase \<Rightarrow> bool" where
  "holds_lane lane c \<longleftrightarrow> fst (snd c) = lane \<and> snd (snd c) \<noteq> AwaitsLocal"

definition lane_calls :: "nat \<Rightarrow> 's request_system \<Rightarrow> (nat \<times> nat \<times> call_phase) list" where
  "lane_calls lane s = (if lane_permits lane s = None then [] else filter (holds_lane lane) (rq_calls s))"

lemma filter_remove1_length:
  "c \<in> set cs \<Longrightarrow> length (filter P (remove1 c cs)) = length (filter P cs) - (if P c then 1 else 0)"
  by (simp add: filter_remove1 length_remove1)

lemma filter_pos: "c \<in> set cs \<Longrightarrow> P c \<Longrightarrow> 0 < length (filter P cs)"
  by (auto simp: filter_empty_conv)


lemma acquire_granted [simp]: "acquire_request_permit S l False = Returned (Some l') \<longleftrightarrow> sem_try_acquire S l = Some l'"
  by (simp add: acquire_request_permit_def split: option.splits)

lemma replace_call_fields [simp]:
  "rq_global (replace_call c new s) = rq_global s" "rq_locals (replace_call c new s) = rq_locals s"
  "rq_calls (replace_call c new s) = new @ remove1 c (rq_calls s)"
  by (simp_all add: replace_call_def)

lemma release_local_fields [simp]:
  "rq_global (release_local S lane s) = rq_global s" "rq_calls (release_local S lane s) = rq_calls s"
  "length (rq_locals (release_local S lane s)) = length (rq_locals s)"
  "lane_permits i (release_local S lane s) =
     (if i = lane then map_option (sem_release S) (lane_permits i s) else lane_permits i s)"
  by (auto simp: release_local_def lane_permits_def nth_list_update)

interpretation global_admission: admission S "call_step S" rq_global dispatching
  for S :: "'s semaphore_lib"
proof
  fix s :: "'s request_system" and e s'
  assume "call_step S s e s'"
  then show "rq_global s' = rq_global s \<and> length (dispatching s') = length (dispatching s) \<or>
      sem_try_acquire S (rq_global s) = Some (rq_global s') \<and> length (dispatching s') = Suc (length (dispatching s)) \<or>
      rq_global s' = sem_release S (rq_global s) \<and> length (dispatching s) = Suc (length (dispatching s'))"
  proof cases
    case (ends i lane)
    have "0 < length (dispatching s)"
      unfolding dispatching_def by (rule filter_pos [OF ends(3)]) simp
    with ends show ?thesis by (simp add: dispatching_def filter_remove1_length [OF ends(3)])
  qed (simp_all add: dispatching_def filter_remove1_length)
qed

lemma lane_released:
  assumes "(i, lane', phase) \<in> set (rq_calls s)" and "phase \<noteq> AwaitsLocal"
    and "rq_calls s' = remove1 (i, lane', phase) (rq_calls s)"
    and "lane_permits lane s' = (if lane = lane' then map_option (sem_release S) (lane_permits lane s) else lane_permits lane s)"
  shows "the (lane_permits lane s') = the (lane_permits lane s) \<and> length (lane_calls lane s') = length (lane_calls lane s) \<or>
      the (lane_permits lane s') = sem_release S (the (lane_permits lane s)) \<and>
        length (lane_calls lane s) = Suc (length (lane_calls lane s'))"
proof (cases "lane = lane' \<and> lane_permits lane s \<noteq> None")
  case True
  then have "holds_lane lane (i, lane', phase)" using assms(2) by (simp add: holds_lane_def)
  with filter_pos [OF assms(1), where P = "holds_lane lane", OF this] True assms(3,4) show ?thesis
    by (auto simp: lane_calls_def filter_remove1_length [OF assms(1)])
next
  case False
  then show ?thesis
    using assms(3,4) by (auto simp: lane_calls_def filter_remove1_length [OF assms(1)] holds_lane_def)
qed

interpretation lane_admission: admission S "call_step S" "\<lambda>s. the (lane_permits lane s)" "lane_calls lane"
  for S :: "'s semaphore_lib" and lane
proof
  fix s :: "'s request_system" and e s'
  assume "call_step S s e s'"
  then show "the (lane_permits lane s') = the (lane_permits lane s) \<and> length (lane_calls lane s') = length (lane_calls lane s) \<or>
      sem_try_acquire S (the (lane_permits lane s)) = Some (the (lane_permits lane s')) \<and>
        length (lane_calls lane s') = Suc (length (lane_calls lane s)) \<or>
      the (lane_permits lane s') = sem_release S (the (lane_permits lane s)) \<and>
        length (lane_calls lane s) = Suc (length (lane_calls lane s'))"
  proof cases
    case (begins lane' i)
    then show ?thesis by (auto simp: lane_calls_def lane_permits_def holds_lane_def)
  next
    case (takes_local i lane' l l')
    then show ?thesis
      by (auto simp: lane_calls_def lane_permits_def holds_lane_def filter_remove1_length nth_list_update)
  next
    case (takes_global i lane' g)
    have "holds_lane lane (i, lane', AwaitsGlobal) \<Longrightarrow> 0 < length (filter (holds_lane lane) (rq_calls s))"
      by (rule filter_pos [OF takes_global(3)])
    moreover have "lane_permits lane s' = lane_permits lane s" by (simp add: takes_global(2) lane_permits_def)
    moreover have "holds_lane lane (i, lane', Dispatching) = holds_lane lane (i, lane', AwaitsGlobal)"
      by (simp add: holds_lane_def)
    ultimately show ?thesis by (simp add: takes_global(2) lane_calls_def filter_remove1_length [OF takes_global(3)])
  next
    case (refused_local i lane')
    then show ?thesis by (simp add: lane_calls_def lane_permits_def holds_lane_def filter_remove1_length)
  next
    case (refused_global i lane')
    have "lane_permits lane s' = (if lane = lane' then map_option (sem_release S) (lane_permits lane s) else lane_permits lane s)"
      by (simp add: refused_global(2) lane_permits_def release_local_def nth_list_update)
    from lane_released [OF refused_global(3) _ _ this] show ?thesis by (simp add: refused_global(2)) blast
  next
    case (ends i lane')
    have "lane_permits lane s' = (if lane = lane' then map_option (sem_release S) (lane_permits lane s) else lane_permits lane s)"
      by (simp add: ends(2) lane_permits_def release_local_def nth_list_update)
    from lane_released [OF ends(3) _ _ this] show ?thesis by (simp add: ends(2)) blast
  qed
qed


section \<open>The task of a connection\<close>

definition IDLE_CONNECTION_CLOSE_GRACE :: nat where
  "IDLE_CONNECTION_CLOSE_GRACE = 250"

text \<open>A task serves, or has asked for a graceful close and waits until the deadline, or runs its WebSocket.\<close>

datatype conn_phase = ConnServing | ConnClosing nat | ConnSocket

record connection_task =
  ct_id :: nat
  ct_own_permit :: bool
  ct_activity :: ConnectionActivityState
  ct_phase :: conn_phase

datatype conn_event = HttpEnds bool | ShutdownSeen | IdleSeen | GraceOver bool | SocketEnds

definition after_http :: "bool \<Rightarrow> conn_phase option" where
  "after_http socket_task = (if socket_task then Some ConnSocket else None)"

text \<open>
  The phase after an event at the given time, \<open>Some None\<close> when the task is over, and \<open>None\<close> when
  the event cannot happen. The flag of an event tells whether the service left a socket task.
\<close>

fun connection_event ::
  "WebIngressConfig \<Rightarrow> bool \<Rightarrow> nat \<Rightarrow> ConnectionActivityState \<Rightarrow> conn_phase \<Rightarrow> conn_event \<Rightarrow> conn_phase option option" where
  "connection_event config shutdown now activity ConnServing (HttpEnds socket_task) = Some (after_http socket_task)"
| "connection_event config shutdown now activity ConnServing ShutdownSeen =
     (if shutdown then Some (Some (ConnClosing (now + wic_shutdown_grace_timeout_millis config))) else None)"
| "connection_event config shutdown now activity ConnServing IdleSeen =
     (if idle_expired now (wic_connection_idle_timeout_millis config) activity
      then Some (Some (ConnClosing (now + IDLE_CONNECTION_CLOSE_GRACE))) else None)"
| "connection_event config shutdown now activity (ConnClosing deadline) (HttpEnds socket_task) = Some (after_http socket_task)"
| "connection_event config shutdown now activity (ConnClosing deadline) (GraceOver socket_task) =
     (if deadline \<le> now then Some (after_http socket_task) else None)"
| "connection_event config shutdown now activity ConnSocket SocketEnds = Some None"
| "connection_event config shutdown now activity _ _ = None"

section \<open>The accept loop\<close>

datatype serve_loop = ServeAccepting | ServeDraining "string + unit" | ServeReturned "string + unit"

record 's serve_state =
  sl_permits :: 's
  sl_tasks :: "connection_task list"
  sl_next :: nat
  sl_shutdown :: bool
  sl_loop :: serve_loop

definition serve_start :: "'s semaphore_lib \<Rightarrow> ('q, 's) ListenerCoordinator \<Rightarrow> 's ConnectionSource \<Rightarrow> WebIngressConfig \<Rightarrow> 's serve_state" where
  "serve_start S coordinator source config =
     \<lparr>sl_permits = source_connection_concurrency S coordinator source (wic_max_connections config), sl_tasks = [],
      sl_next = 0, sl_shutdown = False, sl_loop = ServeAccepting\<rparr>"

definition push_connection :: "bool \<Rightarrow> nat \<Rightarrow> 's serve_state \<Rightarrow> 's serve_state" where
  "push_connection own now s =
     s\<lparr>sl_tasks := \<lparr>ct_id = sl_next s, ct_own_permit = own, ct_activity = activity_new now, ct_phase = ConnServing\<rparr> # sl_tasks s,
       sl_next := Suc (sl_next s)\<rparr>"

definition stop_accepting :: "string + unit \<Rightarrow> 's serve_state \<Rightarrow> 's serve_state" where
  "stop_accepting r s = s\<lparr>sl_shutdown := True, sl_loop := ServeDraining r\<rparr>"

text \<open>The branch of the loop that \<open>accept\<close> returned in.\<close>

definition serve_accepted ::
  "'s semaphore_lib \<Rightarrow> nat \<Rightarrow> string + ('c \<times> bool) option \<Rightarrow> 's serve_state \<Rightarrow> 's serve_state" where
  "serve_accepted S now accepted s =
     (case accepted of
        Inr (Some (_, distributed)) \<Rightarrow>
          if distributed then push_connection False now s
          else (case sem_try_acquire S (sl_permits s) of
              None \<Rightarrow> s
            | Some permits \<Rightarrow> push_connection True now (s\<lparr>sl_permits := permits\<rparr>))
      | Inr None \<Rightarrow> stop_accepting (Inr ()) s
      | Inl error \<Rightarrow> stop_accepting (Inl error) s)"

text \<open>The end of a task drops its permit; a permit of the coordinator is released there.\<close>

definition end_connection :: "'s semaphore_lib \<Rightarrow> connection_task \<Rightarrow> 's serve_state \<Rightarrow> 's serve_state" where
  "end_connection S t s =
     s\<lparr>sl_tasks := remove1 t (sl_tasks s),
       sl_permits := (if ct_own_permit t then sem_release S (sl_permits s) else sl_permits s)\<rparr>"

definition set_task :: "connection_task \<Rightarrow> connection_task \<Rightarrow> 's serve_state \<Rightarrow> 's serve_state" where
  "set_task t t' s = s\<lparr>sl_tasks := t' # remove1 t (sl_tasks s)\<rparr>"

datatype serve_event =
  Cancelled | AcceptReturned | RequestBegins nat | RequestEnds nat | TaskEvent nat conn_event | TaskPanics nat | Drained

inductive serve_step ::
  "'s semaphore_lib \<Rightarrow> 's ConnectionSource \<Rightarrow> WebIngressConfig \<Rightarrow> 's serve_state \<Rightarrow> serve_event \<Rightarrow> 's serve_state \<Rightarrow> bool"
  for S source config where
  cancelled: "sl_loop s = ServeAccepting \<Longrightarrow> serve_step S source config s Cancelled (stop_accepting (Inr ()) s)"
| accept_returned: "sl_loop s = ServeAccepting \<Longrightarrow>
    source_accept source (accepted :: string + nat) received from_std = Some result \<Longrightarrow>
    serve_step S source config s AcceptReturned (serve_accepted S now result s)"
| request_begins: "t \<in> set (sl_tasks s) \<Longrightarrow>
    serve_step S source config s (RequestBegins (ct_id t)) (set_task t (t\<lparr>ct_activity := activity_begin (ct_activity t)\<rparr>) s)"
| request_ends: "t \<in> set (sl_tasks s) \<Longrightarrow>
    serve_step S source config s (RequestEnds (ct_id t)) (set_task t (t\<lparr>ct_activity := activity_end now (ct_activity t)\<rparr>) s)"
| task_moves: "t \<in> set (sl_tasks s) \<Longrightarrow>
    connection_event config (sl_shutdown s) now (ct_activity t) (ct_phase t) e = Some (Some phase) \<Longrightarrow>
    serve_step S source config s (TaskEvent (ct_id t) e) (set_task t (t\<lparr>ct_phase := phase\<rparr>) s)"
| task_ends: "t \<in> set (sl_tasks s) \<Longrightarrow>
    connection_event config (sl_shutdown s) now (ct_activity t) (ct_phase t) e = Some None \<Longrightarrow>
    serve_step S source config s (TaskEvent (ct_id t) e) (end_connection S t s)"
| task_panics: "t \<in> set (sl_tasks s) \<Longrightarrow> sl_loop s = ServeAccepting \<Longrightarrow>
    serve_step S source config s (TaskPanics (ct_id t))
      ((end_connection S t s)\<lparr>sl_shutdown := True, sl_loop := ServeReturned (Inl (''Web Ingress connection task failed: '' @ e))\<rparr>)"
| task_panics_late: "t \<in> set (sl_tasks s) \<Longrightarrow> sl_loop s \<noteq> ServeAccepting \<Longrightarrow>
    serve_step S source config s (TaskPanics (ct_id t)) (end_connection S t s)"
| drained: "sl_loop s = ServeDraining r \<Longrightarrow> sl_tasks s = [] \<Longrightarrow>
    serve_step S source config s Drained (s\<lparr>sl_loop := ServeReturned r\<rparr>)"

definition admitted :: "'s serve_state \<Rightarrow> connection_task list" where
  "admitted s = filter ct_own_permit (sl_tasks s)"

lemma serve_fields [simp]:
  "sl_permits (stop_accepting r s) = sl_permits s" "sl_tasks (stop_accepting r s) = sl_tasks s"
  "sl_permits (set_task t t' s) = sl_permits s" "sl_tasks (set_task t t' s) = t' # remove1 t (sl_tasks s)"
  "sl_loop (set_task t t' s) = sl_loop s" "sl_shutdown (set_task t t' s) = sl_shutdown s"
  "sl_loop (end_connection S t s) = sl_loop s" "sl_shutdown (end_connection S t s) = sl_shutdown s"
  "sl_tasks (end_connection S t s) = remove1 t (sl_tasks s)"
  "sl_loop (stop_accepting r s) = ServeDraining r" "sl_shutdown (stop_accepting r s)"
  by (simp_all add: stop_accepting_def set_task_def end_connection_def)

lemma admitted_set_task:
  assumes "t \<in> set (sl_tasks s)" and "ct_own_permit t' = ct_own_permit t"
  shows "length (admitted (set_task t t' s)) = length (admitted s)"
  using filter_pos [OF assms(1), of ct_own_permit] assms
  by (auto simp: admitted_def filter_remove1_length)

lemma admitted_end_connection:
  assumes "t \<in> set (sl_tasks s)"
  shows "if ct_own_permit t
    then sl_permits (end_connection S t s) = sem_release S (sl_permits s) \<and>
      length (admitted s) = Suc (length (admitted (end_connection S t s)))
    else sl_permits (end_connection S t s) = sl_permits s \<and> length (admitted (end_connection S t s)) = length (admitted s)"
  using filter_pos [OF assms, of ct_own_permit] assms
  by (auto simp: admitted_def filter_remove1_length end_connection_def)

interpretation socket_admission: admission S "serve_step S source config" sl_permits admitted
  for S :: "'s semaphore_lib" and source :: "'s ConnectionSource" and config
proof
  fix s :: "'s serve_state" and e s'
  assume "serve_step S source config s e s'"
  then show "sl_permits s' = sl_permits s \<and> length (admitted s') = length (admitted s) \<or>
      sem_try_acquire S (sl_permits s) = Some (sl_permits s') \<and> length (admitted s') = Suc (length (admitted s)) \<or>
      sl_permits s' = sem_release S (sl_permits s) \<and> length (admitted s) = Suc (length (admitted s'))"
  proof cases
    case (accept_returned accepted received from_std result now)
    then show ?thesis
      by (auto simp: serve_accepted_def push_connection_def admitted_def split: sum.splits option.splits)
  next
    case (task_ends t now e)
    with admitted_end_connection [OF task_ends(3), of S] show ?thesis by (auto split: if_splits)
  next
    case (task_panics t e)
    with admitted_end_connection [OF task_panics(3), of S] show ?thesis by (auto simp: admitted_def split: if_splits)
  next
    case (task_panics_late t)
    with admitted_end_connection [OF task_panics_late(3), of S] show ?thesis by (auto split: if_splits)
  qed (auto simp: admitted_set_task, auto simp: admitted_def)
qed


section \<open>Shutting down\<close>

lemma reaches_trans: "reaches step s t \<Longrightarrow> reaches step t u \<Longrightarrow> reaches step s u"
  by (rotate_tac, induction rule: reaches.induct) (auto intro: reaches_step)

lemma close_connection:
  assumes "t \<in> set (sl_tasks s)" and "ct_phase t \<noteq> ConnServing"
  shows "\<exists>now e. serve_step S source config s e (end_connection S t s)"
proof (cases "ct_phase t")
  case (ConnClosing deadline)
  then have "connection_event config (sl_shutdown s) deadline (ct_activity t) (ct_phase t) (GraceOver False) = Some None"
    by (simp add: after_http_def)
  from task_ends [OF assms(1) this] show ?thesis by blast
next
  case ConnSocket
  then have "connection_event config (sl_shutdown s) 0 (ct_activity t) (ct_phase t) SocketEnds = Some None" by simp
  from task_ends [OF assms(1) this] show ?thesis by blast
qed (use assms(2) in simp)

lemma drain_one:
  assumes "t \<in> set (sl_tasks s)" and "sl_shutdown s"
  shows "\<exists>s'. reaches (serve_step S source config) s s' \<and> sl_tasks s' = remove1 t (sl_tasks s) \<and>
    sl_loop s' = sl_loop s \<and> sl_shutdown s'"
proof (cases "ct_phase t = ConnServing")
  case False
  with close_connection [OF assms(1), of S source config] show ?thesis
    using assms(2) by (auto intro!: exI [of _ "end_connection S t s"] reaches_step [OF reaches_refl])
next
  case True
  let ?t = "t\<lparr>ct_phase := ConnClosing (wic_shutdown_grace_timeout_millis config)\<rparr>"
  have "connection_event config (sl_shutdown s) 0 (ct_activity t) (ct_phase t) ShutdownSeen =
      Some (Some (ConnClosing (wic_shutdown_grace_timeout_millis config)))"
    using True assms(2) by simp
  from task_moves [OF assms(1) this, of S source]
  have "reaches (serve_step S source config) s (set_task t ?t s)" by (rule reaches_step [OF reaches_refl])
  moreover obtain e where "serve_step S source config (set_task t ?t s) e (end_connection S ?t (set_task t ?t s))"
    using close_connection [of ?t "set_task t ?t s" S source config] by auto
  ultimately have "reaches (serve_step S source config) s (end_connection S ?t (set_task t ?t s))" by (rule reaches_step)
  with assms(2) show ?thesis by (intro exI [of _ "end_connection S ?t (set_task t ?t s)"]) simp
qed

lemma drain_all:
  assumes "sl_shutdown s" and "sl_loop s = ServeDraining r"
  shows "\<exists>s'. reaches (serve_step S source config) s s' \<and> sl_loop s' = ServeReturned r \<and> sl_tasks s' = []"
  using assms
proof (induction "length (sl_tasks s)" arbitrary: s)
  case 0
  then have "serve_step S source config s Drained (s\<lparr>sl_loop := ServeReturned r\<rparr>)" by (intro drained) simp_all
  with 0 show ?case by (intro exI [of _ "s\<lparr>sl_loop := ServeReturned r\<rparr>"]) (auto intro: reaches_step [OF reaches_refl])
next
  case (Suc n)
  then obtain t where t: "t \<in> set (sl_tasks s)" by (cases "sl_tasks s") auto
  from drain_one [OF t Suc.prems(1), of S source config] obtain s' where s':
    "reaches (serve_step S source config) s s'" "sl_tasks s' = remove1 t (sl_tasks s)" "sl_loop s' = sl_loop s" "sl_shutdown s'"
    by blast
  have "n = length (sl_tasks s')" using Suc.hyps(2) t s'(2) by (simp add: length_remove1)
  from Suc.hyps(1) [OF this s'(4)] s'(3) Suc.prems(2) obtain u where
    "reaches (serve_step S source config) s' u" "sl_loop u = ServeReturned r" "sl_tasks u = []" by auto
  with reaches_trans [OF s'(1)] show ?case by blast
qed

definition serve_inv :: "'s serve_state \<Rightarrow> bool" where
  "serve_inv s \<longleftrightarrow>
     (sl_shutdown s \<longleftrightarrow> sl_loop s \<noteq> ServeAccepting) \<and>
     (\<forall>r. sl_loop s = ServeReturned r \<longrightarrow> sl_tasks s = [] \<or> (\<exists>e. r = Inl (''Web Ingress connection task failed: '' @ e))) \<and>
     list_all (\<lambda>t. ct_id t < sl_next s) (sl_tasks s) \<and> distinct (map ct_id (sl_tasks s))"

lemma distinct_map_remove1:
  assumes "distinct (map f xs)" and "x \<in> set xs"
  shows "f x \<notin> f ` set (remove1 x xs) \<and> distinct (map f (remove1 x xs))"
  using assms by (induction xs) (auto simp: image_iff dest: notin_set_remove1)

lemma serve_inv_set_task:
  assumes "serve_inv s" and "t \<in> set (sl_tasks s)" and "ct_id t' = ct_id t"
  shows "serve_inv (set_task t t' s)"
proof -
  have "sl_next (set_task t t' s) = sl_next s" by (simp add: set_task_def)
  with assms distinct_map_remove1 [of ct_id "sl_tasks s" t] show ?thesis
    by (auto simp: serve_inv_def list_all_iff dest: notin_set_remove1)
qed

lemma serve_inv_end:
  assumes "serve_inv s" and "t \<in> set (sl_tasks s)"
  shows "serve_inv (end_connection S t s)"
proof -
  have "sl_next (end_connection S t s) = sl_next s" by (simp add: end_connection_def)
  with assms distinct_map_remove1 [of ct_id "sl_tasks s" t] show ?thesis
    by (auto simp: serve_inv_def list_all_iff dest: notin_set_remove1)
qed

lemma serve_step_inv:
  assumes "serve_step S source config s e s'" and "serve_inv s"
  shows "serve_inv s'"
  using assms(1)
proof cases
  case cancelled
  with assms(2) show ?thesis by (simp add: serve_inv_def stop_accepting_def)
next
  case (accept_returned accepted received from_std result now)
  with assms(2) show ?thesis
    by (auto simp: serve_inv_def serve_accepted_def push_connection_def stop_accepting_def list_all_iff less_Suc_eq
        split: sum.splits option.splits)
next
  case (task_panics t e)
  with serve_inv_end [OF assms(2) task_panics(3), of S] show ?thesis
    by (auto simp: serve_inv_def end_connection_def)
next
  case (drained r)
  with assms(2) show ?thesis by (simp add: serve_inv_def)
qed (use assms(2) in \<open>auto intro: serve_inv_set_task serve_inv_end\<close>)

lemma serve_start_inv: "serve_inv (serve_start S c source config)"
  by (simp add: serve_inv_def serve_start_def)

lemma reached_inv:
  assumes "reaches (serve_step S source config) (serve_start S c source config) s"
  shows "serve_inv s"
  using assms by (rule reaches_invariant) (auto intro: serve_start_inv serve_step_inv)

lemma stopped_tasks_shrink:
  assumes "serve_step S source config s e s'" and "sl_loop s \<noteq> ServeAccepting"
  shows "ct_id ` set (sl_tasks s') \<subseteq> ct_id ` set (sl_tasks s) \<and> sl_loop s' \<noteq> ServeAccepting"
  using assms by cases (auto dest!: subsetD [OF set_remove1_subset])


section \<open>Properties\<close>

text \<open>The request semaphores of the lanes that serve one listener, or share a coordinator.\<close>

definition requests_start ::
  "'s semaphore_lib \<Rightarrow> ('q, 's) ListenerCoordinator \<Rightarrow> 's ConnectionSource list \<Rightarrow> WebIngressConfig \<Rightarrow> 's request_system" where
  "requests_start S coordinator sources config =
     (let concurrency = (\<lambda>source. source_request_concurrency S coordinator source (wic_max_concurrent_requests config))
      in \<lparr>rq_global = fst (concurrency (hd sources)), rq_locals = map (snd \<circ> concurrency) sources, rq_calls = []\<rparr>)"

text \<open>The sources of one server: a single listener, or the registered replicas of a coordinator.\<close>

definition lanes_of :: "'s semaphore_lib \<Rightarrow> ('q, 's) ListenerCoordinator \<Rightarrow> 's ConnectionSource list \<Rightarrow> bool" where
  "lanes_of S coordinator sources \<longleftrightarrow>
     (\<exists>address. sources = [SourceListener address]) \<or>
     sources \<noteq> [] \<and> (\<forall>source \<in> set sources. \<exists>channel. source = SourceReplica
        \<lparr>rcs_receiver = channel, rcs_local_request_concurrency = sem_new S (lc_local_request_limit coordinator)\<rparr>)"

lemma registered_lane:
  "register M S c i routes middleware = Some (c', Inr r) \<Longrightarrow>
     r = \<lparr>rcs_receiver = length (lc_channels c), rcs_local_request_concurrency = sem_new S (lc_local_request_limit c)\<rparr>"
  by (auto simp: register_def Let_def split: if_splits)

lemma bound_coordinator_limits:
  assumes "coordinator_bind L S io config n = Inr c"
  shows "lc_request_concurrency c = sem_new S (wic_max_concurrent_requests config) \<and>
    lc_local_request_limit c = div_ceil (wic_max_concurrent_requests config) n"
  using assms by (auto simp: coordinator_bind_def Let_def result_simps split: if_splits)

lemma dispatches_bounded:
  fixes S :: "'s semaphore_lib"
  assumes "semaphore_laws S" and "coordinator_bind L S io config n = Inr c" and "lanes_of S c sources"
    and "reaches (call_step S) (requests_start S c sources config) s"
  shows "length (dispatching s) \<le> wic_max_concurrent_requests config \<and>
    length (lane_calls lane s) \<le> div_ceil (wic_max_concurrent_requests config) n \<and>
    ((i, k, AwaitsGlobal) \<in> set (rq_calls s) \<and> length (dispatching s) < wic_max_concurrent_requests config \<longrightarrow>
       (\<exists>s'. call_step S s (GlobalPermit i) s'))"
proof -
  let ?start = "requests_start S c sources config" and ?m = "div_ceil (wic_max_concurrent_requests config) n"
  note limits = bound_coordinator_limits [OF assms(2)]
  have global: "rq_global ?start = sem_new S (wic_max_concurrent_requests config)" "dispatching ?start = []"
    using assms(3) limits
    by (auto simp: requests_start_def Let_def lanes_of_def source_request_concurrency_def dispatching_def hd_conv_nth
        split: ConnectionSource.splits dest!: bspec [OF _ nth_mem [of 0 sources]])
  note cap = global_admission.admitted_within_capacity [OF assms(1) global assms(4)]
  have calls: "lane_calls lane ?start = []" by (simp add: lane_calls_def requests_start_def Let_def)
  have cases: "lane_permits lane ?start = None \<or> lane_permits lane ?start = Some (sem_new S ?m)"
    using assms(3) limits
    by (auto simp: lane_permits_def requests_start_def Let_def lanes_of_def source_request_concurrency_def
        split: ConnectionSource.splits dest!: bspec [OF _ nth_mem])
  have "length (lane_calls lane s) \<le> ?m"
  proof (cases "lane_permits lane ?start")
    case None
    have "lane_permits lane s = None"
      using assms(4)
    proof (rule reaches_invariant)
      fix t e u assume "lane_permits lane t = None" "call_step S t e u"
      from this(2,1) show "lane_permits lane u = None"
        by cases (auto simp: lane_permits_def release_local_def nth_list_update)
    qed (rule None)
    then show ?thesis by (simp add: lane_calls_def)
  next
    case (Some l)
    with cases have "the (lane_permits lane ?start) = sem_new S ?m" by simp
    from lane_admission.admitted_within_capacity(1) [OF assms(1) this calls assms(4)] show ?thesis .
  qed
  moreover have "\<exists>s'. call_step S s (GlobalPermit i) s'"
    if "(i, k, AwaitsGlobal) \<in> set (rq_calls s)" "length (dispatching s) < wic_max_concurrent_requests config"
  proof -
    from that(2) cap(3) obtain g where "sem_try_acquire S (rq_global s) = Some g" by fastforce
    with takes_global [OF that(1), of S g] show ?thesis by auto
  qed
  ultimately show ?thesis using cap(1) by blast
qed

text \<open>C17. Endpoints are never entered by more requests at once than the configuration allows, whatever
  the interleaving of the lanes and of refused and finished calls; a lane of a shared listener has
  at most its share past its own gate; and while capacity is left a request that waits for it can
  always proceed, so no permit is ever lost.\<close>

theorem concurrent_dispatches_bounded:
  fixes S :: "'s semaphore_lib"
  assumes "semaphore_laws S" and "coordinator_bind L S io config n = Inr c" and "lanes_of S c sources"
    and "reaches (call_step S) (requests_start S c sources config) s"
  shows "length (dispatching s) \<le> wic_max_concurrent_requests config \<and>
    length (lane_calls lane s) \<le> div_ceil (wic_max_concurrent_requests config) n \<and>
    ((i, k, AwaitsGlobal) \<in> set (rq_calls s) \<and> length (dispatching s) < wic_max_concurrent_requests config \<longrightarrow>
       (\<exists>s'. call_step S s (GlobalPermit i) s'))"
  using assms by (rule dispatches_bounded)

text \<open>A server with its own listener never holds more connections than configured: a connection
  accepted beyond that is dropped at once and leaves the server as it was, and every ended
  connection, even one whose task panicked, makes room for another.\<close>

theorem socket_connections_bounded:
  fixes S :: "'s semaphore_lib"
  assumes "semaphore_laws S"
    and "reaches (serve_step S (SourceListener address) config) (serve_start S c (SourceListener address) config) s"
  shows "length (admitted s) \<le> wic_max_connections config \<and>
    (length (admitted s) = wic_max_connections config \<longrightarrow> serve_accepted S now (Inr (Some (stream, False))) s = s) \<and>
    (length (admitted s) < wic_max_connections config \<longrightarrow>
       length (sl_tasks (serve_accepted S now (Inr (Some (stream, False))) s)) = Suc (length (sl_tasks s)))"
proof -
  let ?start = "serve_start S c (SourceListener address) config"
  have "sl_permits ?start = sem_new S (wic_max_connections config)" "admitted ?start = []"
    by (simp_all add: serve_start_def source_connection_concurrency_def admitted_def)
  note cap = socket_admission.admitted_within_capacity [OF assms(1) this assms(2)]
  from cap(1,3) show ?thesis by (auto simp: serve_accepted_def push_connection_def split: option.splits)
qed


text \<open>With a configuration from the builders the server starts without a panic: its cookie policy
  and its protocol limits can be built, and the stream limit it announces is the configured
  concurrency.\<close>

theorem serve_starts_on_built_config:
  assumes "built L config"
  shows "serve_service L S c source config routes middleware cancellation \<noteq> None \<and>
    configure_protocol_limits config = Some (wic_request_head_timeout_millis config, wic_max_concurrent_requests config)"
proof -
  have "\<exists>p. policy_from L k = Some p" if "wic_session_cookie config = Some k" for k
    using built_cookie_policy_usable [OF assms that] by blast
  moreover have "wic_max_concurrent_requests config < 2 ^ 32"
    using config_validate_limits [OF built_valid [OF assms]] by (simp add: in_limit_def MAX_CONCURRENT_REQUESTS_def)
  ultimately show ?thesis
    by (auto simp: serve_service_def configure_protocol_limits_def split: option.splits)
qed


section \<open>Executions\<close>

abbreviation sample_replica :: "nat ConnectionSource" where
  "sample_replica \<equiv> SourceReplica \<lparr>rcs_receiver = 0,
     rcs_local_request_concurrency = sem_new counter_semaphore (lc_local_request_limit sample_coordinator)\<rparr>"

lemma sample_requests:
  "requests_start counter_semaphore sample_coordinator [sample_replica] default_config =
     \<lparr>rq_global = 128, rq_locals = [Some 64], rq_calls = []\<rparr>"
  by (simp add: requests_start_def source_request_concurrency_def sample_coordinator_def counter_semaphore_def
      default_config_def div_ceil_def)

lemma sample_dispatch:
  "reaches (call_step counter_semaphore) \<lparr>rq_global = 128, rq_locals = [Some 64], rq_calls = []\<rparr>
     \<lparr>rq_global = 127, rq_locals = [Some 63], rq_calls = [(7, 0, Dispatching)]\<rparr>"
proof (rule reaches_step [OF reaches_step [OF reaches_step [OF reaches_refl]]])
  show "call_step counter_semaphore \<lparr>rq_global = 128, rq_locals = [Some 64], rq_calls = []\<rparr> (CallBegins 7 0)
      \<lparr>rq_global = 128, rq_locals = [Some 64], rq_calls = [(7, 0, AwaitsLocal)]\<rparr>"
    using begins [of 0 "\<lparr>rq_global = 128, rq_locals = [Some 64], rq_calls = []\<rparr>" counter_semaphore 7] by simp
  show "call_step counter_semaphore \<lparr>rq_global = 128, rq_locals = [Some 64], rq_calls = [(7, 0, AwaitsLocal)]\<rparr> (LocalPermit 7)
      \<lparr>rq_global = 128, rq_locals = [Some 63], rq_calls = [(7, 0, AwaitsGlobal)]\<rparr>"
    using takes_local [of 7 0 "\<lparr>rq_global = 128, rq_locals = [Some 64], rq_calls = [(7, 0, AwaitsLocal)]\<rparr>" 64 counter_semaphore 63]
    by (simp add: counter_semaphore_def replace_call_def split: nat.splits)
  show "call_step counter_semaphore \<lparr>rq_global = 128, rq_locals = [Some 63], rq_calls = [(7, 0, AwaitsGlobal)]\<rparr> (GlobalPermit 7)
      \<lparr>rq_global = 127, rq_locals = [Some 63], rq_calls = [(7, 0, Dispatching)]\<rparr>"
    using takes_global [of 7 0 "\<lparr>rq_global = 128, rq_locals = [Some 63], rq_calls = [(7, 0, AwaitsGlobal)]\<rparr>" counter_semaphore 127]
    by (simp add: counter_semaphore_def replace_call_def split: nat.splits)
qed

theorem concurrent_dispatches_bounded_witness:
  "length (dispatching \<lparr>rq_global = 127 :: nat, rq_locals = [Some 63], rq_calls = [(7, 0, Dispatching)]\<rparr>) \<le>
     wic_max_concurrent_requests default_config"
proof -
  have "lanes_of counter_semaphore sample_coordinator [sample_replica]" by (simp add: lanes_of_def)
  from concurrent_dispatches_bounded [OF counter_semaphore_laws sample_bound this sample_dispatch [folded sample_requests]]
  show ?thesis by blast
qed

lemma sample_accepted:
  fixes address :: string
  defines "start \<equiv> serve_start counter_semaphore sample_coordinator (SourceListener address) default_config"
  shows "reaches (serve_step counter_semaphore (SourceListener address) default_config) start
    (serve_accepted counter_semaphore 5 (Inr (Some (3 :: nat, False))) start)"
proof -
  have "serve_step counter_semaphore (SourceListener address) default_config start AcceptReturned
      (serve_accepted counter_semaphore 5 (Inr (Some (3 :: nat, False))) start)"
    by (rule accept_returned [where accepted = "Inr 3" and received = Waits and from_std = "Inr ()"])
      (simp_all add: start_def serve_start_def source_accept_def)
  then show ?thesis by (rule reaches_step [OF reaches_refl])
qed

theorem socket_connections_bounded_witness:
  "length (admitted (serve_accepted counter_semaphore 5 (Inr (Some (3 :: nat, False)))
     (serve_start counter_semaphore sample_coordinator (SourceListener ''127.0.0.1:0'') default_config))) \<le>
     wic_max_connections default_config"
  by (rule socket_connections_bounded [OF counter_semaphore_laws sample_accepted, THEN conjunct1])


theorem serve_starts_on_built_config_witness:
  "configure_protocol_limits default_config = Some (10000, 128)"
  using serve_starts_on_built_config [OF built_default, THEN conjunct2] by (simp add: default_config_def)

end
