(* ===== verification/ResponseBodies.thy ===== *)
theory ResponseBodies
  imports Server
begin

text \<open>
  The body of a response as the HTTP library drives it (\<open>ResponseBody\<close> of \<open>server.rs\<close>): polling, the end
  of the stream and the size hint, and what arrives at the client when the body is polled until it has no
  more to give, however the results of the stream are spread over time. The one-chunk body of
  \<open>http-body-util\<close> is a parameter.
\<close>

record 'f full_lib =
  full_new :: "bytes \<Rightarrow> 'f"
  full_poll :: "'f \<Rightarrow> bytes option \<times> 'f"
  full_is_end :: "'f \<Rightarrow> bool"
  full_size :: "'f \<Rightarrow> nat"

text \<open>A body of a single chunk: it gives its data once, unless that is empty, and then it has ended.\<close>

definition full_laws :: "'f full_lib \<Rightarrow> bool" where
  "full_laws F \<longleftrightarrow> (\<forall>data. full_size F (full_new F data) = length data \<and>
     (data = [] \<longrightarrow> full_is_end F (full_new F data) \<and> fst (full_poll F (full_new F data)) = None) \<and>
     (data \<noteq> [] \<longrightarrow> (\<exists>f. full_poll F (full_new F data) = (Some data, f) \<and> full_is_end F f \<and> fst (full_poll F f) = None)))"

definition list_full :: "bytes full_lib" where
  "list_full = \<lparr>full_new = (\<lambda>data. data), full_poll = (\<lambda>data. (if data = [] then None else Some data, [])),
     full_is_end = (\<lambda>data. data = []), full_size = length\<rparr>"

lemma list_full_laws: "full_laws list_full"
  by (simp add: full_laws_def list_full_def)

datatype ('f, 'p) polled_body = BufferedBody 'f | StreamedBody "'p StreamingBody"

definition streaming_body_new :: "'p StreamingBody" where
  "streaming_body_new = \<lparr>sb_stream = stream_new, sb_receive = False, sb_done = False\<rparr>"

text \<open>The body that \<open>into_response\<close> hands over.\<close>

definition body_of_response :: "'f full_lib \<Rightarrow> ResponseBody \<Rightarrow> ('f, 'p) polled_body" where
  "body_of_response F body =
     (case body of RespBuffered data \<Rightarrow> BufferedBody (full_new F data) | RespStreaming _ \<Rightarrow> StreamedBody streaming_body_new)"

definition body_poll_frame ::
  "'f full_lib \<Rightarrow> ('f, 'p) polled_body \<Rightarrow> stream_received list \<Rightarrow>
   (unit + bytes) option poll \<times> ('f, 'p) polled_body \<times> stream_received list" where
  "body_poll_frame F body yields =
     (case body of
        BufferedBody full \<Rightarrow> (case full_poll F full of (frame, full) \<Rightarrow> (PollReady (map_option Inr frame), BufferedBody full, yields))
      | StreamedBody b \<Rightarrow> (case poll_frame b yields of (r, b, rest) \<Rightarrow> (r, StreamedBody b, rest)))"

definition is_end_stream :: "'f full_lib \<Rightarrow> ('f, 'p) polled_body \<Rightarrow> bool" where
  "is_end_stream F body = (case body of BufferedBody full \<Rightarrow> full_is_end F full | StreamedBody b \<Rightarrow> sb_done b)"

text \<open>Lower and upper bound; the default hint knows nothing.\<close>

definition size_hint :: "'f full_lib \<Rightarrow> ('f, 'p) polled_body \<Rightarrow> nat \<times> nat option" where
  "size_hint F body = (case body of BufferedBody full \<Rightarrow> (full_size F full, Some (full_size F full)) | StreamedBody _ \<Rightarrow> (0, None))"

section \<open>Driving a streamed body\<close>

datatype body_end = BodyComplete | BodyAborted | BodyWaits

lemma poll_frame_shorter: "poll_frame b yields = (PollReady (Some (Inr chunk)), b', rest) \<Longrightarrow> length rest < length yields"
  by (auto simp: poll_frame_def stream_receive_enter_def split: if_splits prod.splits option.splits sum.splits entered.splits
      dest: pull_shorter)

text \<open>Polling until no further data is ready.\<close>

function consume :: "'p StreamingBody \<Rightarrow> stream_received list \<Rightarrow> bytes list \<times> body_end \<times> 'p StreamingBody" where
  "consume b yields =
     (case poll_frame b yields of
        (PollReady (Some (Inr chunk)), b', rest) \<Rightarrow> (case consume b' rest of (chunks, e, t) \<Rightarrow> (chunk # chunks, e, t))
      | (PollReady (Some (Inl _)), b', _) \<Rightarrow> ([], BodyAborted, b')
      | (PollReady None, b', _) \<Rightarrow> ([], BodyComplete, b')
      | (PollPending, b', _) \<Rightarrow> ([], BodyWaits, b'))"
  by auto

termination
  by (relation "measure (\<lambda>(b, yields). length yields)") (auto dest: poll_frame_shorter [OF sym])

declare consume.simps [simp del]

text \<open>The library polls again whenever the stream has more to say.\<close>

fun deliver :: "'p StreamingBody \<Rightarrow> stream_received list list \<Rightarrow> bytes list \<times> body_end \<times> 'p StreamingBody" where
  "deliver b [] = ([], BodyWaits, b)"
| "deliver b (yields # batches) =
     (case consume b yields of
        (chunks, BodyWaits, b') \<Rightarrow> (case deliver b' batches of (chunks', e, t) \<Rightarrow> (chunks @ chunks', e, t))
      | (chunks, e, b') \<Rightarrow> (chunks, e, b'))"

definition body_end_of :: "ending \<Rightarrow> body_end" where
  "body_end_of e = (case e of CleanEof \<Rightarrow> BodyComplete | FailedWith _ \<Rightarrow> BodyAborted | StillOpen \<Rightarrow> BodyWaits)"

text \<open>Between polls a body that has not ended has an idle stream, or a suspended receive of its own.\<close>

definition body_open :: "'p StreamingBody \<Rightarrow> bool" where
  "body_open b \<longleftrightarrow> \<not> sb_done b \<and> sb_receive b = wrs_receiving (sb_stream b) \<and> stream_idle (stream_reading_drop (sb_stream b))"

lemma new_body_open: "body_open streaming_body_new"
  by (simp add: body_open_def streaming_body_new_def stream_new_def stream_idle_def stream_reading_drop_def)

lemma open_poll:
  assumes "body_open b"
  shows "poll_frame b yields =
    (case pull stream_receive_event yields ((sb_stream b)\<lparr>wrs_receiving := True\<rparr>) of
       (None, s, rest) \<Rightarrow> (PollPending, b\<lparr>sb_stream := s, sb_receive := True\<rparr>, rest)
     | (Some (Inr (Some chunk)), s, rest) \<Rightarrow> (PollReady (Some (Inr chunk)), b\<lparr>sb_stream := stream_reading_drop s, sb_receive := False\<rparr>, rest)
     | (Some (Inr None), s, rest) \<Rightarrow> (PollReady None, b\<lparr>sb_stream := stream_reading_drop s, sb_receive := False, sb_done := True\<rparr>, rest)
     | (Some (Inl _), s, rest) \<Rightarrow> (PollReady (Some (Inl ())), b\<lparr>sb_stream := stream_reading_drop s, sb_receive := False, sb_done := True\<rparr>, rest))"
proof -
  have "(if sb_receive b then (Pending, sb_stream b) else stream_receive_enter (sb_stream b)) = (Pending, (sb_stream b)\<lparr>wrs_receiving := True\<rparr>)"
    using assms by (cases "sb_stream b") (auto simp: body_open_def stream_idle_def stream_reading_drop_def stream_receive_enter_def)
  then show ?thesis
    using assms by (simp add: poll_frame_def body_open_def split: prod.splits option.splits sum.splits)
qed

lemma consume_Nil: "body_open b \<Longrightarrow> \<exists>t. consume b [] = ([], BodyWaits, t) \<and> body_open t"
  by (subst consume.simps) (simp add: open_poll, simp add: body_open_def stream_idle_def stream_reading_drop_def)

lemma consume_half_closed: "body_open b \<Longrightarrow> consume b (Inr PeerHalfClosed # ys) = consume b ys"
  by (subst (1 2) consume.simps) (simp add: open_poll stream_receive_event_def)

lemma consume_chunk:
  assumes "body_open b" and "chunk_frame f"
  shows "\<exists>t. body_open t \<and> consume b (Inr (Message f) # ys) =
    (case consume t ys of (cs, e, t') \<Rightarrow> (yield_chunks (Inr (Message f)) @ cs, e, t'))"
proof -
  let ?t = "b\<lparr>sb_stream := stream_reading_drop ((sb_stream b)\<lparr>wrs_receiving := True\<rparr>), sb_receive := False\<rparr>"
  have "body_open ?t" using assms(1) by (simp add: body_open_def stream_idle_def stream_reading_drop_def)
  moreover have "poll_frame b (Inr (Message f) # ys) = (PollReady (Some (Inr (case sf_body f of None \<Rightarrow> [] | Some data \<Rightarrow> data))), ?t, ys)"
    using assms by (simp add: open_poll stream_receive_event_def chunk_frame_def)
  then have "consume b (Inr (Message f) # ys) = (case consume ?t ys of (cs, e, t') \<Rightarrow> (yield_chunks (Inr (Message f)) @ cs, e, t'))"
    by (subst consume.simps) (simp add: yield_chunks_def)
  ultimately show ?thesis by blast
qed

lemma consume_end:
  assumes "body_open b" and "\<not> body_yield y"
  shows "\<exists>t. consume b (y # ys) = (fst (stream_spec (y # ys)), body_end_of (snd (stream_spec (y # ys))), t) \<and> sb_done t"
  by (subst consume.simps)
    (use assms in \<open>auto simp: open_poll stream_receive_event_def body_yield_def chunk_frame_def body_end_of_def
      split: sum.splits StreamEvent.splits\<close>)

lemma body_waits_iff [simp]: "body_end_of e = BodyWaits \<longleftrightarrow> e = StillOpen"
  by (simp add: body_end_of_def split: ending.splits)

lemma not_body_yield_ends: "\<not> body_yield y \<Longrightarrow> snd (stream_spec (y # ys)) \<noteq> StillOpen"
  by (auto split: sum.splits StreamEvent.splits)

lemma consume_spec:
  assumes "body_open b"
  shows "\<exists>t. consume b ys = (fst (stream_spec ys), body_end_of (snd (stream_spec ys)), t) \<and>
    (if snd (stream_spec ys) = StillOpen then body_open t else sb_done t)"
  using assms
proof (induction ys arbitrary: b)
  case Nil
  then show ?case using consume_Nil [of b] by (simp add: body_end_of_def)
next
  case (Cons y ys)
  show ?case
  proof (cases "body_yield y")
    case False
    with consume_end [OF Cons.prems False] not_body_yield_ends [OF False] show ?thesis by metis
  next
    case True
    then consider "y = Inr PeerHalfClosed" | f where "y = Inr (Message f)" "chunk_frame f"
      by (auto simp: body_yield_def split: sum.splits StreamEvent.splits)
    then show ?thesis
    proof cases
      case 1
      with Cons show ?thesis by (simp add: consume_half_closed body_yield_def yield_chunks_def split: prod.splits)
    next
      case 2
      from consume_chunk [OF Cons.prems 2(2), of ys] obtain t where "body_open t"
        "consume b (y # ys) = (case consume t ys of (cs, e, t') \<Rightarrow> (yield_chunks y @ cs, e, t'))" unfolding 2(1) by blast
      with Cons.IH [of t] True show ?thesis by (auto split: prod.splits)
    qed
  qed
qed

lemma stream_spec_append:
  "stream_spec (ys @ zs) =
     (if snd (stream_spec ys) = StillOpen then (fst (stream_spec ys) @ fst (stream_spec zs), snd (stream_spec zs)) else stream_spec ys)"
  by (induction ys) (auto split: prod.splits sum.splits StreamEvent.splits)

lemma deliver_spec:
  assumes "body_open b"
  shows "\<exists>t. deliver b batches = (fst (stream_spec (concat batches)), body_end_of (snd (stream_spec (concat batches))), t) \<and>
    (snd (stream_spec (concat batches)) \<noteq> StillOpen \<longrightarrow> sb_done t)"
  using assms
proof (induction batches arbitrary: b)
  case (Cons ys batches)
  from consume_spec [OF Cons.prems, of ys] obtain t where
    t: "consume b ys = (fst (stream_spec ys), body_end_of (snd (stream_spec ys)), t)"
      "if snd (stream_spec ys) = StillOpen then body_open t else sb_done t" by blast
  show ?case
  proof (cases "snd (stream_spec ys) = StillOpen")
    case True
    with t Cons.IH [of t] show ?thesis by (auto simp: stream_spec_append body_end_of_def)
  next
    case False
    with t show ?thesis by (cases "snd (stream_spec ys)") (auto simp: stream_spec_append body_end_of_def)
  qed
qed (simp add: body_end_of_def)

section \<open>What the client receives\<close>

lemma ended_body_gives_nothing: "sb_done b \<Longrightarrow> poll_frame b yields = (PollReady None, b, yields)"
  by (simp add: poll_frame_def)

text \<open>C7. The body that reaches the client is the body the endpoint streamed, however its frames are spread
  over time: the chunks in order, a complete body exactly when the capability session ended well after chunk frames
  only, and an aborted one after any failure, rejection or malformed frame. An ended body says so and gives nothing more, and no
  length is promised beforehand.\<close>

theorem streamed_body_delivered:
  "\<exists>chunks e (t :: 'p StreamingBody). deliver streaming_body_new batches = (chunks, e, t) \<and>
    chunks = fst (stream_spec (concat batches)) \<and> e = body_end_of (snd (stream_spec (concat batches))) \<and>
    (e = BodyComplete \<longleftrightarrow> (\<exists>pre post. concat batches = pre @ Inr (Terminal (Inr ())) # post \<and> list_all body_yield pre \<and>
       chunks = concat (map yield_chunks pre))) \<and>
    (e = BodyWaits \<or>
       is_end_stream F (StreamedBody t) \<and> body_poll_frame F (StreamedBody t) later = (PollReady None, StreamedBody t, later)) \<and>
    size_hint F (StreamedBody t) = (0, None)"
proof -
  obtain chunks ending where spec: "stream_spec (concat batches) = (chunks, ending)" by fastforce
  obtain t :: "'p StreamingBody" where d: "deliver streaming_body_new batches = (chunks, body_end_of ending, t)"
    and ended: "ending \<noteq> StillOpen \<longrightarrow> sb_done t"
    using deliver_spec [OF new_body_open, of batches] by (auto simp: spec)
  have "body_end_of ending = BodyComplete \<longleftrightarrow> stream_spec (concat batches) = (chunks, CleanEof)"
    by (simp add: spec body_end_of_def split: ending.splits)
  moreover have "size_hint F (StreamedBody t) = (0, None)" by (simp add: size_hint_def)
  moreover have "body_end_of ending = BodyWaits \<or>
      is_end_stream F (StreamedBody t) \<and> body_poll_frame F (StreamedBody t) later = (PollReady None, StreamedBody t, later)"
    using ended by (auto simp: is_end_stream_def body_poll_frame_def ended_body_gives_nothing)
  ultimately show ?thesis unfolding stream_spec_clean_iff using d by (simp add: spec)
qed

text \<open>A buffered body is one exact chunk.\<close>

lemma buffered_body_delivered:
  fixes body :: "('f, 'p) polled_body"
  assumes "full_laws F" and "body = body_of_response F (RespBuffered data)"
  shows "size_hint F body = (length data, Some (length data)) \<and>
    (if data = [] then is_end_stream F body
     else \<exists>body'. body_poll_frame F body yields = (PollReady (Some (Inr data)), body', yields) \<and> is_end_stream F body')"
proof -
  have body: "body = BufferedBody (full_new F data)" by (simp add: assms(2) body_of_response_def)
  have size: "full_size F (full_new F data) = length data" using assms(1) by (simp add: full_laws_def)
  show ?thesis
  proof (cases "data = []")
    case True
    then have "full_is_end F (full_new F data)" using assms(1) by (simp add: full_laws_def)
    with True size show ?thesis by (simp add: body size_hint_def is_end_stream_def)
  next
    case False
    then obtain f where "full_poll F (full_new F data) = (Some data, f)" "full_is_end F f" using assms(1) by (auto simp: full_laws_def)
    with False size show ?thesis by (simp add: body size_hint_def is_end_stream_def body_poll_frame_def)
  qed
qed

end
