(* ===== verification/WsNative.thy ===== *)
theory WsNative
  imports WsSession Admission
begin

text \<open>
  The native WebSocket transport (\<open>websocket_native.rs\<close>): the translation between the messages
  of \<open>tungstenite\<close> and contract frames, the two pumps between the socket and the session, and
  the way the task ends. The socket is not part of the repository: what it reads, the results of
  its writes and the moment of a timeout or a cancellation are inputs of the step relation. A
  \<open>CloseCode\<close> is the number it converts to and from.
\<close>

datatype ws_message =
    MsgText string
  | MsgBinary bytes
  | MsgClose "(nat \<times> string) option"
  | MsgPing bytes
  | MsgPong bytes
  | MsgFrame

datatype ws_error = ConnectionClosed | AlreadyClosed | OtherError

definition ws_closed :: "ws_error \<Rightarrow> bool" where
  "ws_closed error \<longleftrightarrow> error = ConnectionClosed \<or> error = AlreadyClosed"

definition empty_frame :: "WsKind \<Rightarrow> WsFrame" where
  "empty_frame kind = \<lparr>wf_body = None, wf_code = None, wf_kind = kind, wf_protocol = None, wf_reason = None, wf_text = None\<rparr>"

text \<open>\<open>Inl\<close> ends the pump, \<open>Inr None\<close> is \<open>continue\<close>.\<close>

definition incoming_frame :: "ws_message \<Rightarrow> unit + WsFrame option" where
  "incoming_frame message =
     (case message of
        MsgText text \<Rightarrow> Inr (Some ((empty_frame Text)\<lparr>wf_text := Some text\<rparr>))
      | MsgBinary bytes \<Rightarrow> Inr (Some ((empty_frame Binary)\<lparr>wf_body := Some bytes\<rparr>))
      | MsgClose (Some (code, reason)) \<Rightarrow>
          Inr (Some ((empty_frame Close)\<lparr>wf_code := Some (int code), wf_reason := Some reason\<rparr>))
      | MsgClose None \<Rightarrow> Inr (Some ((empty_frame Close)\<lparr>wf_code := Some 1000\<rparr>))
      | MsgPing _ \<Rightarrow> Inr None
      | MsgPong _ \<Rightarrow> Inr None
      | MsgFrame \<Rightarrow> Inl ())"

definition u16_try_from :: "int \<Rightarrow> unit + nat" where
  "u16_try_from code = (if 0 \<le> code \<and> code < 2 ^ 16 then Inr (nat code) else Inl ())"

text \<open>What the outgoing pump does with a frame: flush only, or send a message.\<close>

definition outgoing_message :: "bool \<Rightarrow> WsFrame \<Rightarrow> unit + ws_message option" where
  "outgoing_message peer_closed frame =
     (case wf_kind frame of
        Text \<Rightarrow> try_in (ok_or (wf_text frame) ()) (\<lambda>text. Inr (Some (MsgText text)))
      | Binary \<Rightarrow> try_in (ok_or (wf_body frame) ()) (\<lambda>body. Inr (Some (MsgBinary body)))
      | Close \<Rightarrow>
          if peer_closed then Inr None
          else try_in (ok_or (wf_code frame) ()) (\<lambda>code.
               try_in (u16_try_from code) (\<lambda>code.
                 Inr (Some (MsgClose (Some (code, case wf_reason frame of None \<Rightarrow> [] | Some reason \<Rightarrow> reason))))))
      | Accept \<Rightarrow> Inl ())"

section \<open>The pumps\<close>

datatype in_phase = InReads | InSends bool | InDone | InFailed
datatype out_phase = OutCalls | OutWaits | OutWrites | OutCloses | OutDone | OutFailed
datatype pump_phase = PumpUpgrading | PumpRunning | PumpEnded

record 'p ws_pump =
  pm_session :: "'p WebSocketSession"
  pm_phase :: pump_phase
  pm_in :: in_phase
  pm_out :: out_phase
  pm_peer_closed :: bool
  pm_read :: "ws_message list"
  pm_written :: "ws_message list"

definition pump_start :: "'p WebSocketSession \<Rightarrow> 'p ws_pump" where
  "pump_start session = \<lparr>pm_session = session, pm_phase = PumpUpgrading, pm_in = InReads, pm_out = OutCalls,
     pm_peer_closed = False, pm_read = [], pm_written = []\<rparr>"

text \<open>The body of the incoming loop for a message, up to the suspension of \<open>send\<close>.\<close>

definition pump_message :: "ws_message \<Rightarrow> 'p ws_pump \<Rightarrow> 'p ws_pump" where
  "pump_message message s =
     (let s = s\<lparr>pm_read := pm_read s @ [message],
                pm_peer_closed := (pm_peer_closed s \<or> (case message of MsgClose _ \<Rightarrow> True | _ \<Rightarrow> False))\<rparr>
      in case incoming_frame message of
           Inl _ \<Rightarrow> s\<lparr>pm_in := InFailed\<rparr>
         | Inr None \<Rightarrow> s
         | Inr (Some frame) \<Rightarrow>
             (case ws_send_enter frame (pm_session s) of
                (Returned _, session) \<Rightarrow> s\<lparr>pm_session := session, pm_in := InFailed\<rparr>
              | (Pending, session) \<Rightarrow> s\<lparr>pm_session := session, pm_in := InSends (wf_kind frame = Close)\<rparr>))"

definition pump_sent :: "bool \<Rightarrow> RuntimeFailure + unit \<Rightarrow> 'p ws_pump \<Rightarrow> 'p ws_pump" where
  "pump_sent closing result s =
     (case ws_send_complete result (pm_session s) of
        (Inl _, session) \<Rightarrow> s\<lparr>pm_session := session, pm_in := InFailed\<rparr>
      | (Inr _, session) \<Rightarrow> s\<lparr>pm_session := session, pm_in := (if closing then InDone else InReads)\<rparr>)"

text \<open>A result of \<open>receive\<close> in the outgoing loop.\<close>

definition pump_received :: "RuntimeFailure + WsFrame option \<Rightarrow> 'p ws_pump \<Rightarrow> 'p ws_pump" where
  "pump_received result s =
     (case result of
        Inl _ \<Rightarrow> s\<lparr>pm_out := OutFailed\<rparr>
      | Inr None \<Rightarrow> s\<lparr>pm_out := OutCloses\<rparr>
      | Inr (Some frame) \<Rightarrow>
          (case outgoing_message (pm_peer_closed s) frame of
             Inl _ \<Rightarrow> s\<lparr>pm_out := OutFailed\<rparr>
           | Inr None \<Rightarrow> s\<lparr>pm_out := OutWrites\<rparr>
           | Inr (Some message) \<Rightarrow> s\<lparr>pm_out := OutWrites, pm_written := pm_written s @ [message]\<rparr>))"

definition pump_call :: "'p ws_pump \<Rightarrow> 'p ws_pump" where
  "pump_call s =
     (case ws_receive_enter (pm_session s) of
        (Returned r, session) \<Rightarrow> pump_received r (s\<lparr>pm_session := session\<rparr>)
      | (Pending, session) \<Rightarrow> s\<lparr>pm_session := session, pm_out := OutWaits\<rparr>)"

definition pump_yield :: "ws_received \<Rightarrow> 'p ws_pump \<Rightarrow> 'p ws_pump" where
  "pump_yield yielded s =
     (case ws_receive_event yielded (pm_session s) of
        (None, session) \<Rightarrow> s\<lparr>pm_session := session\<rparr>
      | (Some r, session) \<Rightarrow> pump_received r (s\<lparr>pm_session := ws_reading_drop session\<rparr>))"

text \<open>The end of the exchange drops the suspended calls; a failed one announces itself to the peer.\<close>

definition unavailable_close :: ws_message where
  "unavailable_close = MsgClose (Some (1011, ''session unavailable''))"

definition pump_finish :: "bool \<Rightarrow> 'p ws_pump \<Rightarrow> 'p ws_pump" where
  "pump_finish ok s =
     (let session = (if pm_out s = OutWaits then ws_reading_drop (pm_session s) else pm_session s);
          session = (if \<exists>closing. pm_in s = InSends closing then ws_writing_drop session else session)
      in s\<lparr>pm_session := ws_cancel session, pm_phase := PumpEnded,
           pm_written := (if ok then pm_written s else pm_written s @ [unavailable_close])\<rparr>)"

definition exchanging :: "'p ws_pump \<Rightarrow> bool" where
  "exchanging s \<longleftrightarrow> pm_phase s = PumpRunning \<and> pm_in s \<noteq> InFailed \<and> pm_out s \<noteq> OutFailed"

datatype pump_event =
    Upgraded | UpgradeFails
  | Reads ws_message | ReadFails | SendDone "RuntimeFailure + unit"
  | Calls | Yields ws_received | WriteDone "ws_error option" | CloseDone "ws_error option"
  | Completes | Interrupted

inductive pump_step :: "'p ws_pump \<Rightarrow> pump_event \<Rightarrow> 'p ws_pump \<Rightarrow> bool" where
  upgraded: "pm_phase s = PumpUpgrading \<Longrightarrow> pump_step s Upgraded (s\<lparr>pm_phase := PumpRunning\<rparr>)"
| upgrade_fails: "pm_phase s = PumpUpgrading \<Longrightarrow>
    pump_step s UpgradeFails (s\<lparr>pm_session := ws_cancel (pm_session s), pm_phase := PumpEnded\<rparr>)"
| reads: "exchanging s \<Longrightarrow> pm_in s = InReads \<Longrightarrow> pump_step s (Reads message) (pump_message message s)"
| read_fails: "exchanging s \<Longrightarrow> pm_in s = InReads \<Longrightarrow> pump_step s ReadFails (s\<lparr>pm_in := InFailed\<rparr>)"
| send_done: "exchanging s \<Longrightarrow> pm_in s = InSends closing \<Longrightarrow> pump_step s (SendDone r) (pump_sent closing r s)"
| calls: "exchanging s \<Longrightarrow> pm_out s = OutCalls \<Longrightarrow> pump_step s Calls (pump_call s)"
| yields: "exchanging s \<Longrightarrow> pm_out s = OutWaits \<Longrightarrow> pump_step s (Yields y) (pump_yield y s)"
| write_done: "exchanging s \<Longrightarrow> pm_out s = OutWrites \<Longrightarrow>
    pump_step s (WriteDone r)
      (s\<lparr>pm_out := (case r of None \<Rightarrow> OutCalls | Some e \<Rightarrow> if ws_closed e then OutCalls else OutFailed)\<rparr>)"
| close_done: "exchanging s \<Longrightarrow> pm_out s = OutCloses \<Longrightarrow>
    pump_step s (CloseDone r)
      (s\<lparr>pm_out := (case r of None \<Rightarrow> OutDone | Some e \<Rightarrow> if ws_closed e then OutDone else OutFailed)\<rparr>)"
| completes: "pm_phase s = PumpRunning \<Longrightarrow> pm_in s = InDone \<and> pm_out s = OutDone \<Longrightarrow> pump_step s Completes (pump_finish True s)"
| failed: "pm_phase s = PumpRunning \<Longrightarrow> pm_in s = InFailed \<or> pm_out s = OutFailed \<Longrightarrow>
    pump_step s Completes (pump_finish False s)"
| interrupted: "pm_phase s = PumpRunning \<Longrightarrow> pump_step s Interrupted (pump_finish False s)"

section \<open>Translation\<close>

lemma empty_frame_fields [simp]:
  "wf_body (empty_frame k) = None" "wf_code (empty_frame k) = None" "wf_kind (empty_frame k) = k"
  "wf_protocol (empty_frame k) = None" "wf_reason (empty_frame k) = None" "wf_text (empty_frame k) = None"
  by (simp_all add: empty_frame_def)

definition with_reason :: "WsFrame \<Rightarrow> WsFrame" where
  "with_reason f = (if wf_kind f = Close
     then f\<lparr>wf_reason := Some (case wf_reason f of None \<Rightarrow> [] | Some reason \<Rightarrow> reason)\<rparr> else f)"

definition data_message :: "WsFrame \<Rightarrow> ws_message" where
  "data_message f = (case wf_kind f of Text \<Rightarrow> MsgText (the (wf_text f)) | _ \<Rightarrow> MsgBinary (the (wf_body f)))"

lemma validated_outgoing:
  assumes "validate_frame f limit = Inr ()"
  shows "\<exists>m. outgoing_message pc f = Inr m \<and>
    m = (if wf_kind f \<noteq> Close then Some (data_message f)
         else if pc then None
         else Some (MsgClose (Some (nat (the (wf_code f)), case wf_reason f of None \<Rightarrow> [] | Some reason \<Rightarrow> reason))))"
  using assms
  by (cases "wf_kind f")
    (auto simp: validate_frame_def outgoing_message_def data_message_def u16_try_from_def close_code_def
      split: if_splits option.splits)

lemma round_trip_outgoing:
  assumes "validate_frame f limit = Inr ()"
  shows "\<exists>m. outgoing_message False f = Inr (Some m) \<and> incoming_frame m = Inr (Some (with_reason f))"
proof (cases f)
  case (fields body code kind protocol reason content)
  with assms show ?thesis
    by (cases kind)
      (auto simp: validate_frame_def outgoing_message_def incoming_frame_def u16_try_from_def close_code_def
        no_payload_def with_reason_def empty_frame_def split: if_splits option.splits)
qed


section \<open>The pumps run the session\<close>

definition is_data :: "ws_message \<Rightarrow> bool" where
  "is_data m = (case m of MsgText _ \<Rightarrow> True | MsgBinary _ \<Rightarrow> True | _ \<Rightarrow> False)"

definition is_close :: "ws_message \<Rightarrow> bool" where
  "is_close m = (case m of MsgClose _ \<Rightarrow> True | _ \<Rightarrow> False)"

definition frames_of :: "ws_message list \<Rightarrow> WsFrame list" where
  "frames_of ms = concat (map (\<lambda>m. case incoming_frame m of Inr (Some f) \<Rightarrow> [f] | _ \<Rightarrow> []) ms)"

definition data_frames :: "WsFrame list \<Rightarrow> WsFrame list" where
  "data_frames = filter (\<lambda>f. wf_kind f \<noteq> Close)"

definition close_frames :: "WsFrame list \<Rightarrow> WsFrame list" where
  "close_frames = filter (\<lambda>f. wf_kind f = Close)"

lemma frames_of_simps [simp]:
  "frames_of [] = []"
  "frames_of (ms @ [m]) = frames_of ms @ (case incoming_frame m of Inr (Some f) \<Rightarrow> [f] | _ \<Rightarrow> [])"
  by (simp_all add: frames_of_def)

definition pump_log :: "'p WebSocketSession \<Rightarrow> 'p ws_pump \<Rightarrow> ws_log \<Rightarrow> nat \<Rightarrow> bool" where
  "pump_log s0 s log n \<longleftrightarrow>
     ws_run (s0, 0) log (pm_session s, n) \<and>
     (pm_phase s \<noteq> PumpEnded \<longrightarrow> n = (if pm_out s = OutWaits then 1 else 0)) \<and>
     filter is_data (pm_written s) = map data_message (data_frames (received_frames log)) \<and>
     length (filter is_close (pm_written s)) \<le>
       length (close_frames (received_frames log)) + (if pm_phase s = PumpEnded then 1 else 0) \<and>
     (\<exists>rest. frames_of (pm_read s) = sent_frames log @ rest \<and> length rest \<le> 1 \<and> (pm_in s \<noteq> InFailed \<longrightarrow> rest = [])) \<and>
     (pm_phase s = PumpEnded \<longrightarrow> wss_cancelled (pm_session s))"

lemma received_frame_simps [simp]:
  "received_frame (a, Gave (Inr (Some f))) = [f]" "received_frame (a, Gave (Inr None)) = []"
  "received_frame (a, Gave (Inl e)) = []" "received_frame (a, Silent) = []" "received_frame (a, SideGave q) = []"
  "sent_frame (a, Gave r) = []" "sent_frame (a, Silent) = []" "sent_frame (a, SideGave (Sending f)) = [f]"
  "sent_frame (a, SideGave (SendReturned e')) = []" "sent_frame (a, SideGave NoOut) = []"
  by (simp_all add: received_frame_def sent_frame_def)

lemma run_side:
  assumes "ws_run c log (s, n)" and "ws_side a s = (q, s')"
  shows "ws_run c (log @ [(Side a, SideGave q)]) (s', n)"
  using assms(1) step_side [of ws_side, OF assms(2)] by (rule run_step)

text \<open>A result of \<open>receive\<close> that is no validated frame leaves nothing written.\<close>

lemma pump_received_log:
  assumes "pump_log s0 s log n" and "pm_phase s = PumpRunning"
    and "ws_run (s0, 0) log' (session, 0)" and "sent_frames log' = sent_frames log"
    and "received_frames log' = received_frames log @ (case r of Inr (Some f) \<Rightarrow> [f] | _ \<Rightarrow> [])"
    and "\<And>f. r = Inr (Some f) \<Longrightarrow> \<exists>limit. validate_frame f limit = Inr ()"
  shows "pump_log s0 (pump_received r (s\<lparr>pm_session := session\<rparr>)) log' 0"
proof (cases r)
  case (Inl e)
  with assms show ?thesis by (simp add: pump_log_def pump_received_def)
next
  case (Inr x)
  show ?thesis
  proof (cases x)
    case None
    with Inr assms show ?thesis by (simp add: pump_log_def pump_received_def)
  next
    case (Some f)
    with Inr assms(6) obtain limit where "validate_frame f limit = Inr ()" by blast
    from validated_outgoing [OF this, of "pm_peer_closed s"] Inr Some assms
    show ?thesis
      by (auto simp: pump_log_def pump_received_def data_frames_def close_frames_def data_message_def is_data_def is_close_def
          split: WsKind.splits if_splits)
  qed
qed

lemma pump_message_log:
  assumes "pump_log s0 s log n" and "pm_phase s = PumpRunning" and "pm_in s = InReads"
  shows "\<exists>log'. pump_log s0 (pump_message m s) log' n"
proof (cases "incoming_frame m")
  case (Inl e)
  with assms show ?thesis by (auto simp: pump_log_def pump_message_def Let_def)
next
  case (Inr x)
  show ?thesis
  proof (cases x)
    case None
    with Inr assms show ?thesis by (auto simp: pump_log_def pump_message_def Let_def)
  next
    case (Some f)
    have run: "ws_run (s0, 0) log (pm_session s, n)" using assms(1) by (simp add: pump_log_def)
    obtain entered session where e: "ws_send_enter f (pm_session s) = (entered, session)" by fastforce
    show ?thesis
    proof (cases entered)
      case (Returned r)
      with e have "ws_side (OpSend f) (pm_session s) = (SendReturned r, session)" by (simp add: ws_side_def)
      from run_side [OF run this] e Returned Inr Some assms
      show ?thesis by (intro exI [of _ "log @ [(Side (OpSend f), SideGave (SendReturned r))]"])
          (auto simp: pump_log_def pump_message_def Let_def)
    next
      case Pending
      with e have "ws_side (OpSend f) (pm_session s) = (Sending f, session)" by (simp add: ws_side_def)
      from run_side [OF run this] e Pending Inr Some assms
      show ?thesis by (intro exI [of _ "log @ [(Side (OpSend f), SideGave (Sending f))]"])
          (auto simp: pump_log_def pump_message_def Let_def)
    qed
  qed
qed

lemma pump_sent_log:
  assumes "pump_log s0 s log n" and "pm_phase s = PumpRunning" and "pm_in s = InSends closing"
  shows "\<exists>log'. pump_log s0 (pump_sent closing r s) log' n"
proof -
  have run: "ws_run (s0, 0) log (pm_session s, n)" using assms(1) by (simp add: pump_log_def)
  obtain result session where c: "ws_send_complete r (pm_session s) = (result, session)" by fastforce
  then have "ws_side (OpSendComplete r) (pm_session s) = (SendReturned result, session)" by (simp add: ws_side_def)
  from run_side [OF run this] c assms show ?thesis
    by (intro exI [of _ "log @ [(Side (OpSendComplete r), SideGave (SendReturned result))]"])
      (auto simp: pump_log_def pump_sent_def split: sum.splits)
qed

lemma pump_call_log:
  assumes "pump_log s0 s log n" and "pm_phase s = PumpRunning" and "pm_out s = OutCalls"
  shows "\<exists>log' n'. pump_log s0 (pump_call s) log' n'"
proof -
  have run: "ws_run (s0, 0) log (pm_session s, 0)" using assms by (auto simp: pump_log_def)
  obtain entered session where e: "ws_receive_enter (pm_session s) = (entered, session)" by fastforce
  show ?thesis
  proof (cases entered)
    case (Returned r)
    then have none: "\<And>f. r \<noteq> Inr (Some f)"
      using e by (auto simp: ws_receive_enter_def split: if_splits)
    have "ws_run (s0, 0) (log @ [(Enter, Gave r)]) (session, 0)"
      using run_step [OF run step_returned] e Returned by blast
    then have "pump_log s0 (pump_received r (s\<lparr>pm_session := session\<rparr>)) (log @ [(Enter, Gave r)]) 0"
      by (rule pump_received_log [OF assms(1,2)]) (use none in \<open>auto split: sum.splits option.splits\<close>)
    with e Returned show ?thesis by (auto simp: pump_call_def)
  next
    case Pending
    have "ws_run (s0, 0) (log @ [(Enter, Silent)]) (session, Suc 0)"
      using run_step [OF run step_pending] e Pending by blast
    with e Pending assms show ?thesis
      by (intro exI [of _ "log @ [(Enter, Silent)]"] exI [of _ "Suc 0"]) (auto simp: pump_log_def pump_call_def)
  qed
qed

lemma yielded_frame_valid:
  assumes "ws_receive_event y s = (Some (Inr (Some f)), s')"
  shows "validate_frame f (wss_message_limit s) = Inr ()"
  using assms by (auto simp: ws_receive_event_def dest: validate_data_Inr(2) split: sum.splits StreamEvent.splits if_splits)

lemma pump_yield_log:
  assumes "pump_log s0 s log n" and "pm_phase s = PumpRunning" and "pm_out s = OutWaits"
  shows "\<exists>log' n'. pump_log s0 (pump_yield y s) log' n'"
proof -
  have run: "ws_run (s0, 0) log (pm_session s, Suc 0)" using assms by (auto simp: pump_log_def)
  obtain out session where e: "ws_receive_event y (pm_session s) = (out, session)" by fastforce
  show ?thesis
  proof (cases out)
    case None
    have "ws_run (s0, 0) (log @ [(Yield y, Silent)]) (session, Suc 0)"
      using run_step [OF run step_wait] e None by blast
    with e None assms show ?thesis
      by (intro exI [of _ "log @ [(Yield y, Silent)]"] exI [of _ "Suc 0"]) (auto simp: pump_log_def pump_yield_def)
  next
    case (Some r)
    have "ws_run (s0, 0) (log @ [(Yield y, Gave r)]) (ws_reading_drop session, 0)"
      using run_step [OF run step_finish] e Some by blast
    then have "pump_log s0 (pump_received r (s\<lparr>pm_session := ws_reading_drop session\<rparr>)) (log @ [(Yield y, Gave r)]) 0"
      by (rule pump_received_log [OF assms(1,2)])
        (use e Some in \<open>auto split: sum.splits option.splits dest: yielded_frame_valid\<close>)
    with e Some show ?thesis by (auto simp: pump_yield_def)
  qed
qed


lemma pump_finish_log:
  assumes "pump_log s0 s log n" and "pm_phase s = PumpRunning"
  shows "\<exists>log' n'. pump_log s0 (pump_finish ok s) log' n'"
proof -
  have run: "ws_run (s0, 0) log (pm_session s, n)" using assms(1) by (simp add: pump_log_def)
  let ?a = "if pm_out s = OutWaits then ws_reading_drop (pm_session s) else pm_session s"
  let ?la = "if pm_out s = OutWaits then log @ [(DropCall, Silent)] else log"
  have "ws_run (s0, 0) ?la (?a, 0)"
    using run assms run_step [OF run, of DropCall Silent] by (auto simp: pump_log_def intro: step_drop split: if_splits)
  let ?b = "if \<exists>closing. pm_in s = InSends closing then ws_writing_drop ?a else ?a"
  let ?lb = "if \<exists>closing. pm_in s = InSends closing then ?la @ [(Side OpSendDrop, SideGave NoOut)] else ?la"
  have "ws_run (s0, 0) ?lb (?b, 0)"
    using \<open>ws_run (s0, 0) ?la (?a, 0)\<close> run_side [OF \<open>ws_run (s0, 0) ?la (?a, 0)\<close>, of OpSendDrop]
    by (auto simp: ws_side_def)
  from run_side [OF this, of OpCancel] have "ws_run (s0, 0) (?lb @ [(Side OpCancel, SideGave NoOut)]) (ws_cancel ?b, 0)"
    by (simp add: ws_side_def)
  moreover have "received_frames (?lb @ [(Side OpCancel, SideGave NoOut)]) = received_frames log"
    "sent_frames (?lb @ [(Side OpCancel, SideGave NoOut)]) = sent_frames log"
    by simp_all
  moreover have "pm_session (pump_finish ok s) = ws_cancel ?b" by (simp add: pump_finish_def Let_def)
  moreover have "wss_cancelled (ws_cancel ?b)" by (simp add: ws_cancel_def)
  ultimately have "pump_log s0 (pump_finish ok s) (?lb @ [(Side OpCancel, SideGave NoOut)]) 0"
    using assms
    by (auto simp: pump_log_def pump_finish_def Let_def unavailable_close_def is_data_def is_close_def simp del: frames_simps)
  then show ?thesis by blast
qed

lemma pump_step_log:
  assumes "pump_step s e s'" and "pump_log s0 s log n"
  shows "\<exists>log' n'. pump_log s0 s' log' n'"
  using assms(1)
proof cases
  case upgrade_fails
  have run: "ws_run (s0, 0) log (pm_session s, n)" using assms(2) by (simp add: pump_log_def)
  from run_side [OF this, of OpCancel] have "ws_run (s0, 0) (log @ [(Side OpCancel, SideGave NoOut)]) (ws_cancel (pm_session s), n)"
    by (simp add: ws_side_def)
  with upgrade_fails assms(2) show ?thesis
    by (intro exI [of _ "log @ [(Side OpCancel, SideGave NoOut)]"] exI [of _ n]) (auto simp: pump_log_def ws_cancel_def)
next
  case (reads m)
  with pump_message_log [OF assms(2), of m] show ?thesis by (auto simp: exchanging_def)
next
  case (send_done closing r)
  with pump_sent_log [OF assms(2), of closing r] show ?thesis by (auto simp: exchanging_def)
next
  case calls
  with pump_call_log [OF assms(2)] show ?thesis by (auto simp: exchanging_def)
next
  case (yields y)
  with pump_yield_log [OF assms(2), of y] show ?thesis by (auto simp: exchanging_def)
next
  case (write_done r)
  with assms(2) show ?thesis
    by (intro exI [of _ log] exI [of _ n]) (auto simp: pump_log_def exchanging_def split: option.splits)
next
  case (close_done r)
  with assms(2) show ?thesis
    by (intro exI [of _ log] exI [of _ n]) (auto simp: pump_log_def exchanging_def split: option.splits)
next
  case completes
  with pump_finish_log [OF assms(2)] show ?thesis by blast
next
  case failed
  with pump_finish_log [OF assms(2)] show ?thesis by blast
next
  case interrupted
  with pump_finish_log [OF assms(2)] show ?thesis by blast
qed (use assms(2) in \<open>auto simp: pump_log_def exchanging_def\<close>)

lemma pump_reached_log:
  assumes "reaches pump_step (pump_start s0) s"
  shows "\<exists>log n. pump_log s0 s log n"
  using assms
proof (rule reaches_invariant)
  have "pump_log s0 (pump_start s0) [] 0"
    by (auto simp: pump_log_def pump_start_def data_frames_def close_frames_def intro: run_refl)
  then show "\<exists>log n. pump_log s0 (pump_start s0) log n" by blast
qed (blast intro: pump_step_log)

lemma close_only_last_one:
  assumes "close_only_last fs"
  shows "length (close_frames fs) \<le> 1"
  using assms by (cases fs rule: rev_cases) (auto simp: close_only_last_def close_frames_def list_all_iff filter_empty_conv)

section \<open>Properties\<close>

text \<open>Translation loses nothing: a frame that passed validation becomes a message from which the
  other side reads the same frame back, a missing close reason as an empty one.\<close>

theorem websocket_messages_round_trip:
  assumes "validate_frame f limit = Inr ()"
  shows "\<exists>m. outgoing_message False f = Inr (Some m) \<and> incoming_frame m = Inr (Some (with_reason f))"
  by (rule round_trip_outgoing [OF assms])



section \<open>Executions\<close>

abbreviation bye_frame :: WsFrame where
  "bye_frame \<equiv> (empty_frame Close)\<lparr>wf_code := Some 1000\<rparr>"

theorem websocket_messages_round_trip_witness:
  "\<exists>m. outgoing_message False bye_frame = Inr (Some m) \<and> incoming_frame m = Inr (Some (bye_frame\<lparr>wf_reason := Some []\<rparr>))"
proof -
  have "validate_frame bye_frame 16 = Inr ()" by (simp add: validate_frame_def no_payload_def close_code_def)
  moreover have "with_reason bye_frame = bye_frame\<lparr>wf_reason := Some []\<rparr>" by (simp add: with_reason_def)
  ultimately show ?thesis using websocket_messages_round_trip by metis
qed

definition fresh_session :: "nat WebSocketSession" where
  "fresh_session = \<lparr>wss_permit = None, wss_protocol = Some ''chat'', wss_message_limit = 16, wss_session_limit = 32,
     wss_transferred = 0, wss_cancelled = False, wss_terminal = False, wss_sent_close = False, wss_received_close = False,
     wss_reading = False, wss_writing = False, wss_stream_cancelled = False\<rparr>"

lemma fresh_accepted: "ws_accept (Inr (Message accept_frame)) [''chat''] 16 32 = (False, Inr fresh_session)"
  by (simp add: ws_accept_def no_payload_def fresh_session_def)

lemma greeting_pumped:
  "\<exists>s. reaches pump_step (pump_start fresh_session) s \<and> pm_written s = [MsgText ''hi''] \<and> pm_phase s = PumpRunning"
proof -
  let ?s1 = "(pump_start fresh_session)\<lparr>pm_phase := PumpRunning\<rparr>"
  let ?s2 = "pump_call ?s1"
  let ?y = "Inr (Message (text_frame ''hi'')) :: ws_received"
  have s2: "?s2 = ?s1\<lparr>pm_session := fresh_session\<lparr>wss_reading := True\<rparr>, pm_out := OutWaits\<rparr>"
    by (simp add: pump_call_def pump_start_def ws_receive_enter_def fresh_session_def)
  have s3: "pm_written (pump_yield ?y ?s2) = [MsgText ''hi''] \<and> pm_phase (pump_yield ?y ?s2) = PumpRunning"
    unfolding s2
    by (simp add: pump_yield_def ws_receive_event_def fresh_session_def validate_data_def validate_frame_def frame_bytes_def
        saturating_sub_def pump_received_def outgoing_message_def pump_start_def)
  have "pump_step (pump_start fresh_session) Upgraded ?s1" by (rule upgraded) (simp add: pump_start_def)
  moreover have "pump_step ?s1 Calls ?s2" by (rule calls) (simp_all add: exchanging_def pump_start_def)
  moreover have "pump_step ?s2 (Yields ?y) (pump_yield ?y ?s2)"
    by (rule yields) (unfold s2, simp_all add: exchanging_def pump_start_def)
  ultimately have "reaches pump_step (pump_start fresh_session) (pump_yield ?y ?s2)"
    by (blast intro: reaches_step reaches_refl)
  with s3 show ?thesis by blast
qed


end
