(* ===== verification/WebHost.thy ===== *)
theory WebHost
  imports EventIngress Json
begin

text \<open>
  The host preset (\<open>lenso-web-host\<close>): the builder and its plugin root, the resolution of the plan
  the kernel boots (releases, slots, defaults, bindings and lanes), the preparation of one ingress
  replica per lane, the adapter for Tower policies, and the socket-free client of
  \<open>simulated.rs\<close>. The plan, kernel and runner crates are not part of the repository: what they
  keep of a plan is the fields their constructors take, and plan resolution, plugin discovery and
  serialization are parameters. Values of theirs the code only passes on have type \<open>'o\<close>.
\<close>

section \<open>Plan data\<close>

record PluginInstanceId =
  pid_plugin_id :: string
  pid_instance_key :: string

record PluginDescriptor =
  pd_plugin_id :: string
  pd_root_slot :: string
  pd_provided :: "string list"

record HostDefaultPlugin =
  hdp_id :: PluginInstanceId
  hdp_configuration :: json

record HostBinding =
  hbd_consumer :: PluginInstanceId
  hbd_capability :: string
  hbd_providers :: "PluginInstanceId list"
  hbd_admission :: "(nat \<times> nat) option"

record PluginRootInstance =
  pri_id :: PluginInstanceId
  pri_configuration :: json
  pri_execution_lane :: "string option"

text \<open>The dependency choices are there exactly when dependency selection was adopted.\<close>

record 'o PluginRootSnapshot =
  prs_releases :: "'o list"
  prs_instances :: "PluginRootInstance list"
  prs_disabled :: "'o list"
  prs_dependency_choices :: "'o list option"

datatype HostSlot = SlotOne string | SlotMany string

record HostCatalog =
  hc_slots :: "HostSlot list"
  hc_releases :: "PluginDescriptor list"
  hc_defaults :: "HostDefaultPlugin list"
  hc_lanes :: "string list"
  hc_bindings :: "HostBinding list"

text \<open>Errors of the adapter catalog, the shutdown and the replicated runner have the type \<open>'x\<close>.\<close>

datatype 'x WebHostError =
    HostBind string
  | HostPlan string
  | MissingEndpoint
  | ListenerNotPublished
  | HostRuntime RuntimeFailure
  | HostAdapter 'x
  | HostShutdown 'x
  | ReplicationUnsupported string
  | SimulationUnsupported string
  | HostReplicated 'x

definition host_error_display :: "(RuntimeFailure \<Rightarrow> string) \<Rightarrow> ('x \<Rightarrow> string) \<Rightarrow> ('x \<Rightarrow> string) \<Rightarrow> 'x WebHostError \<Rightarrow> string" where
  "host_error_display debug_runtime display debug e =
     (case e of
        HostBind detail \<Rightarrow> ''Web Host bind failed: '' @ detail
      | HostPlan detail \<Rightarrow> ''Web Host plan failed: '' @ detail
      | MissingEndpoint \<Rightarrow> ''Web Host found no enabled lenso.http.endpoint@1 provider''
      | ListenerNotPublished \<Rightarrow> ''Web Ingress did not publish its bound address''
      | HostRuntime error \<Rightarrow> ''Web Host runtime failed: '' @ debug_runtime error
      | HostAdapter error \<Rightarrow> ''Web Host adapter catalog failed: '' @ display error
      | HostShutdown outcome \<Rightarrow> ''Web Host did not shut down cleanly: '' @ debug outcome
      | ReplicationUnsupported detail \<Rightarrow> ''replicated Web Host configuration is unsupported: '' @ detail
      | SimulationUnsupported detail \<Rightarrow> ''simulated Web Host configuration is unsupported: '' @ detail
      | HostReplicated error \<Rightarrow> ''replicated Web Host failed: '' @ debug error)"

abbreviation INSTANCE_KEY :: string where "INSTANCE_KEY \<equiv> ''default''"
abbreviation INGRESS_PACKAGE_ID :: string where "INGRESS_PACKAGE_ID \<equiv> ''lenso.web-ingress''"
abbreviation HTTP_ENDPOINT :: string where "HTTP_ENDPOINT \<equiv> ''lenso.http.endpoint@1''"
abbreviation STREAM_ENDPOINT :: string where "STREAM_ENDPOINT \<equiv> ''lenso.http.stream-endpoint@1''"
abbreviation WEBSOCKET_ENDPOINT :: string where "WEBSOCKET_ENDPOINT \<equiv> ''lenso.websocket.endpoint@1''"

definition ingress_descriptor :: PluginDescriptor where
  "ingress_descriptor = \<lparr>pd_plugin_id = INGRESS_PACKAGE_ID, pd_root_slot = ''http-ingress'', pd_provided = []\<rparr>"

section \<open>The builder\<close>

record ('o, 'm) NativeWebHost =
  nwh_bind_address :: "SocketAddr option"
  nwh_ingress_config :: WebIngressConfig
  nwh_root :: "'o PluginRootSnapshot"
  nwh_extra_defaults :: "HostDefaultPlugin list"
  nwh_extra_bindings :: "HostBinding list"
  nwh_extra_releases :: "PluginDescriptor list"
  nwh_factory_installers :: "(string \<times> PluginDescriptor) list"
  nwh_middleware :: "'m list"
  nwh_diagnostics :: bool
  nwh_extra_adapters :: "'o list"

definition host_new :: "('o, 'm) NativeWebHost" where
  "host_new = \<lparr>nwh_bind_address = None, nwh_ingress_config = default_config,
     nwh_root = \<lparr>prs_releases = [], prs_instances = [], prs_disabled = [], prs_dependency_choices = None\<rparr>,
     nwh_extra_defaults = [], nwh_extra_bindings = [], nwh_extra_releases = [], nwh_factory_installers = [],
     nwh_middleware = [], nwh_diagnostics = False, nwh_extra_adapters = []\<rparr>"

definition host_bind :: "SocketAddr \<Rightarrow> ('o, 'm) NativeWebHost \<Rightarrow> ('o, 'm) NativeWebHost" where
  "host_bind address host = host\<lparr>nwh_bind_address := Some address\<rparr>"

definition host_with_ingress_config :: "WebIngressConfig \<Rightarrow> ('o, 'm) NativeWebHost \<Rightarrow> ('o, 'm) NativeWebHost" where
  "host_with_ingress_config config host = host\<lparr>nwh_ingress_config := config\<rparr>"

definition host_with_middleware :: "'m \<Rightarrow> ('o, 'm) NativeWebHost \<Rightarrow> ('o, 'm) NativeWebHost" where
  "host_with_middleware m host = host\<lparr>nwh_middleware := nwh_middleware host @ [m]\<rparr>"

definition replacement_instance ::
  "PluginInstanceId \<Rightarrow> json \<Rightarrow> string option \<Rightarrow> PluginRootInstance option \<Rightarrow> PluginRootInstance" where
  "replacement_instance i configuration lane existing =
     \<lparr>pri_id = i, pri_configuration = configuration,
      pri_execution_lane = (case lane of Some l \<Rightarrow> Some l
        | None \<Rightarrow> (case existing of None \<Rightarrow> None | Some instance \<Rightarrow> pri_execution_lane instance))\<rparr>"

text \<open>The first instance of the same identity is replaced in place; a new one goes to the end.\<close>

fun put_instance :: "PluginInstanceId \<Rightarrow> json \<Rightarrow> string option \<Rightarrow> PluginRootInstance list \<Rightarrow> PluginRootInstance list" where
  "put_instance i configuration lane [] = [replacement_instance i configuration lane None]"
| "put_instance i configuration lane (existing # rest) =
     (if pri_id existing = i then replacement_instance i configuration lane (Some existing) # rest
      else existing # put_instance i configuration lane rest)"

definition push_instance ::
  "string \<Rightarrow> string \<Rightarrow> json \<Rightarrow> string option \<Rightarrow> ('o, 'm) NativeWebHost \<Rightarrow> ('o, 'm) NativeWebHost" where
  "push_instance plugin_id instance_key configuration execution_lane host =
     (let root = nwh_root host
      in host\<lparr>nwh_root := \<lparr>prs_releases = prs_releases root,
           prs_instances = put_instance \<lparr>pid_plugin_id = plugin_id, pid_instance_key = instance_key\<rparr>
             configuration execution_lane (prs_instances root),
           prs_disabled = prs_disabled root, prs_dependency_choices = prs_dependency_choices root\<rparr>\<rparr>)"

definition empty_configuration :: json where
  "empty_configuration = JObject []"

definition json_configuration :: "string + json \<Rightarrow> 'x WebHostError + json" where
  "json_configuration serialized = map_err HostPlan serialized"

definition host_plugin_on_lane :: "string \<Rightarrow> string \<Rightarrow> ('o, 'm) NativeWebHost \<Rightarrow> ('o, 'm) NativeWebHost" where
  "host_plugin_on_lane package_id lane host = push_instance package_id INSTANCE_KEY empty_configuration (Some lane) host"

definition host_instance_on_lane ::
  "string \<Rightarrow> string \<Rightarrow> string \<Rightarrow> string + json \<Rightarrow> ('o, 'm) NativeWebHost \<Rightarrow> 'x WebHostError + ('o, 'm) NativeWebHost" where
  "host_instance_on_lane package_id instance_key lane configuration host =
     try_in (json_configuration configuration) (\<lambda>json. Inr (push_instance package_id instance_key json (Some lane) host))"

definition host_factory :: "string \<Rightarrow> PluginDescriptor \<Rightarrow> ('o, 'm) NativeWebHost \<Rightarrow> ('o, 'm) NativeWebHost" where
  "host_factory package_id descriptor host =
     push_instance package_id INSTANCE_KEY empty_configuration None
       (host\<lparr>nwh_factory_installers := nwh_factory_installers host @ [(package_id, descriptor)]\<rparr>)"

definition host_release :: "PluginDescriptor \<Rightarrow> ('o, 'm) NativeWebHost \<Rightarrow> ('o, 'm) NativeWebHost" where
  "host_release descriptor host = host\<lparr>nwh_extra_releases := nwh_extra_releases host @ [descriptor]\<rparr>"

definition host_plugin :: "string \<Rightarrow> ('o, 'm) NativeWebHost \<Rightarrow> ('o, 'm) NativeWebHost" where
  "host_plugin package_id host = push_instance package_id INSTANCE_KEY empty_configuration None host"

definition host_plugin_with ::
  "string \<Rightarrow> string + json \<Rightarrow> ('o, 'm) NativeWebHost \<Rightarrow> 'x WebHostError + ('o, 'm) NativeWebHost" where
  "host_plugin_with package_id configuration host =
     try_in (json_configuration configuration) (\<lambda>json. Inr (push_instance package_id INSTANCE_KEY json None host))"

definition host_plugin_with_on_lane ::
  "string \<Rightarrow> string \<Rightarrow> string + json \<Rightarrow> ('o, 'm) NativeWebHost \<Rightarrow> 'x WebHostError + ('o, 'm) NativeWebHost" where
  "host_plugin_with_on_lane package_id lane configuration host =
     try_in (json_configuration configuration) (\<lambda>json. Inr (push_instance package_id INSTANCE_KEY json (Some lane) host))"

definition host_instance ::
  "string \<Rightarrow> string \<Rightarrow> string + json \<Rightarrow> ('o, 'm) NativeWebHost \<Rightarrow> 'x WebHostError + ('o, 'm) NativeWebHost" where
  "host_instance package_id instance_key configuration host =
     try_in (json_configuration configuration) (\<lambda>json. Inr (push_instance package_id instance_key json None host))"

definition host_enable :: "string \<Rightarrow> ('o, 'm) NativeWebHost \<Rightarrow> ('o, 'm) NativeWebHost" where
  "host_enable plugin_id host = push_instance plugin_id INSTANCE_KEY empty_configuration None host"

definition host_root :: "'o PluginRootSnapshot \<Rightarrow> ('o, 'm) NativeWebHost \<Rightarrow> ('o, 'm) NativeWebHost" where
  "host_root root host = host\<lparr>nwh_root := root\<rparr>"

definition host_with_default :: "HostDefaultPlugin \<Rightarrow> ('o, 'm) NativeWebHost \<Rightarrow> ('o, 'm) NativeWebHost" where
  "host_with_default d host = host\<lparr>nwh_extra_defaults := nwh_extra_defaults host @ [d]\<rparr>"

definition host_with_binding :: "HostBinding \<Rightarrow> ('o, 'm) NativeWebHost \<Rightarrow> ('o, 'm) NativeWebHost" where
  "host_with_binding b host = host\<lparr>nwh_extra_bindings := nwh_extra_bindings host @ [b]\<rparr>"

definition host_with_diagnostics :: "('o, 'm) NativeWebHost \<Rightarrow> ('o, 'm) NativeWebHost" where
  "host_with_diagnostics host = host\<lparr>nwh_diagnostics := True\<rparr>"

definition host_with_adapter :: "'o \<Rightarrow> ('o, 'm) NativeWebHost \<Rightarrow> ('o, 'm) NativeWebHost" where
  "host_with_adapter adapter host = host\<lparr>nwh_extra_adapters := nwh_extra_adapters host @ [adapter]\<rparr>"

section \<open>Plan resolution\<close>

definition provides_capability :: "PluginDescriptor \<Rightarrow> string \<Rightarrow> bool" where
  "provides_capability descriptor capability_id \<longleftrightarrow> list_ex (\<lambda>c. c = capability_id) (pd_provided descriptor)"

definition endpoint_ids_for :: "PluginInstanceId list \<Rightarrow> PluginDescriptor list \<Rightarrow> string \<Rightarrow> PluginInstanceId list" where
  "endpoint_ids_for enabled_ids releases capability_id =
     filter (\<lambda>i. list_ex (\<lambda>release. pd_plugin_id release = pid_plugin_id i \<and> provides_capability release capability_id) releases)
       enabled_ids"

definition admit_release :: "PluginDescriptor list \<Rightarrow> PluginDescriptor \<Rightarrow> PluginDescriptor list" where
  "admit_release releases release =
     (if pd_plugin_id release = INGRESS_PACKAGE_ID then releases
      else if list_ex (\<lambda>existing. pd_plugin_id existing = pd_plugin_id release) releases then releases
      else releases @ [release])"

definition host_releases :: "PluginDescriptor list \<Rightarrow> PluginDescriptor list \<Rightarrow> PluginDescriptor list" where
  "host_releases discovered extra_releases = foldl admit_release [ingress_descriptor] (discovered @ extra_releases)"

definition count_slot :: "(string, nat) btree \<Rightarrow> PluginDescriptor \<Rightarrow> (string, nat) btree" where
  "count_slot counts release =
     bt_insert (pd_root_slot release)
       (Suc (case bt_get counts (pd_root_slot release) of None \<Rightarrow> 0 | Some n \<Rightarrow> n)) counts"

definition slot_counts :: "PluginDescriptor list \<Rightarrow> (string, nat) btree" where
  "slot_counts releases = foldl count_slot [] releases"

definition host_slots :: "bool \<Rightarrow> PluginDescriptor list \<Rightarrow> HostSlot list" where
  "host_slots replicated releases =
     map (\<lambda>(slot, count).
         if replicated \<and> slot = pd_root_slot ingress_descriptor then SlotMany slot
         else if count = 1 then SlotOne slot else SlotMany slot)
       (slot_counts releases)"

definition ingress_bindings ::
  "(nat \<times> nat) \<Rightarrow> PluginInstanceId list \<Rightarrow> PluginInstanceId list \<Rightarrow> PluginInstanceId list \<Rightarrow> PluginInstanceId \<Rightarrow> HostBinding list" where
  "ingress_bindings limits http_ids stream_ids websocket_ids ingress_id =
     (let bind = (\<lambda>capability ids. \<lparr>hbd_consumer = ingress_id, hbd_capability = capability, hbd_providers = ids,
                    hbd_admission = Some limits\<rparr>)
      in [bind HTTP_ENDPOINT http_ids] @
         (if stream_ids = [] then [] else [bind STREAM_ENDPOINT stream_ids]) @
         (if websocket_ids = [] then [] else [bind WEBSOCKET_ENDPOINT websocket_ids]))"

definition insert_lane :: "(string, unit) btree \<Rightarrow> PluginRootInstance \<Rightarrow> (string, unit) btree" where
  "insert_lane lanes instance =
     (case pri_execution_lane instance of None \<Rightarrow> lanes | Some lane \<Rightarrow> bt_insert lane () lanes)"

definition execution_lanes :: "PluginRootInstance list \<Rightarrow> string list" where
  "execution_lanes instances = map fst (foldl insert_lane [(''main'', ())] instances)"

text \<open>\<open>resolve_web_plan\<close> up to the catalog handed to the resolver.\<close>

definition web_catalog ::
  "RuntimeFailure + PluginDescriptor list \<Rightarrow> (WebIngressConfig \<Rightarrow> string + json) \<Rightarrow> WebIngressConfig \<Rightarrow> 'o PluginRootSnapshot \<Rightarrow>
   HostDefaultPlugin list \<Rightarrow> HostBinding list \<Rightarrow> PluginDescriptor list \<Rightarrow> bool \<Rightarrow> 'x WebHostError + HostCatalog" where
  "web_catalog discovered to_json config root extra_defaults extra_bindings extra_releases replicated =
     try_in (map_err HostRuntime discovered) (\<lambda>discovered.
       let releases = host_releases discovered extra_releases in
       try_in (map_err HostPlan (to_json config)) (\<lambda>configuration.
         let defaults = \<lparr>hdp_id = \<lparr>pid_plugin_id = INGRESS_PACKAGE_ID, pid_instance_key = INSTANCE_KEY\<rparr>,
               hdp_configuration = configuration\<rparr> # extra_defaults;
             enabled_ids = map hdp_id defaults @ map pri_id (prs_instances root);
             http_ids = endpoint_ids_for enabled_ids releases HTTP_ENDPOINT
         in if http_ids = [] then Inl MissingEndpoint
            else
              let limits = endpoint_admission_limits config;
                  ingress_ids = filter (\<lambda>i. pid_plugin_id i = INGRESS_PACKAGE_ID) enabled_ids;
                  stream_ids = endpoint_ids_for enabled_ids releases STREAM_ENDPOINT;
                  websocket_ids = endpoint_ids_for enabled_ids releases WEBSOCKET_ENDPOINT
              in Inr \<lparr>hc_slots = host_slots replicated releases, hc_releases = releases, hc_defaults = defaults,
                   hc_lanes = execution_lanes (prs_instances root),
                   hc_bindings = concat (map (ingress_bindings limits http_ids stream_ids websocket_ids) ingress_ids) @ extra_bindings\<rparr>))"

definition resolve_web_plan ::
  "(HostCatalog \<Rightarrow> 'o PluginRootSnapshot \<Rightarrow> string + 'plan) \<Rightarrow> RuntimeFailure + PluginDescriptor list \<Rightarrow>
   (WebIngressConfig \<Rightarrow> string + json) \<Rightarrow> WebIngressConfig \<Rightarrow> 'o PluginRootSnapshot \<Rightarrow>
   HostDefaultPlugin list \<Rightarrow> HostBinding list \<Rightarrow> PluginDescriptor list \<Rightarrow> bool \<Rightarrow> 'x WebHostError + 'plan" where
  "resolve_web_plan resolver discovered to_json config root extra_defaults extra_bindings extra_releases replicated =
     try_in (web_catalog discovered to_json config root extra_defaults extra_bindings extra_releases replicated) (\<lambda>catalog.
       map_err HostPlan (resolver catalog root))"

definition host_config :: "'h http_lib \<Rightarrow> ('o, 'm) NativeWebHost \<Rightarrow> 'x WebHostError + WebIngressConfig" where
  "host_config L host =
     (case nwh_bind_address host of
        Some address \<Rightarrow> map_err HostBind (with_bind_address L (nwh_ingress_config host) address)
      | None \<Rightarrow> Inr (nwh_ingress_config host))"

definition resolve_plan_with_replication ::
  "'h http_lib \<Rightarrow> (HostCatalog \<Rightarrow> 'o PluginRootSnapshot \<Rightarrow> string + 'plan) \<Rightarrow> RuntimeFailure + PluginDescriptor list \<Rightarrow>
   (WebIngressConfig \<Rightarrow> string + json) \<Rightarrow> bool \<Rightarrow> ('o, 'm) NativeWebHost \<Rightarrow> 'x WebHostError + 'plan" where
  "resolve_plan_with_replication L resolver discovered to_json replicated host =
     try_in (host_config L host) (\<lambda>config.
       resolve_web_plan resolver discovered to_json config (nwh_root host) (nwh_extra_defaults host) (nwh_extra_bindings host)
         (map snd (nwh_factory_installers host) @ nwh_extra_releases host) replicated)"

section \<open>Replicated hosts\<close>

definition replication_supported :: "('o, 'm) NativeWebHost \<Rightarrow> 'x WebHostError + unit" where
  "replication_supported host =
     (if nwh_factory_installers host \<noteq> [] then Inl (ReplicationUnsupported
        ''hand-written factories from factory() are single-lane; install one per lane with with_replicated_lane'')
      else if nwh_middleware host \<noteq> [] \<or> nwh_diagnostics host then Inl (ReplicationUnsupported
        ''Ingress middleware and diagnostics require with_replicated_ingress'')
      else if nwh_extra_adapters host \<noteq> [] then Inl (ReplicationUnsupported
        ''Execution Adapters require with_replicated_lane'')
      else Inr ())"

definition replicate_instances :: "json \<Rightarrow> string list \<Rightarrow> ('o, 'm) NativeWebHost \<Rightarrow> ('o, 'm) NativeWebHost" where
  "replicate_instances configuration lanes host =
     foldl (\<lambda>host lane. if lane = ''main'' then host
        else push_instance INGRESS_PACKAGE_ID (''replica-'' @ lane) configuration (Some lane) host) host lanes"

text \<open>The replicas are numbered in the order of the lanes.\<close>

definition lane_indexes :: "string list \<Rightarrow> (string, nat) btree" where
  "lane_indexes lanes = foldl (\<lambda>m (index, lane). bt_insert lane index m) [] (List.enumerate 0 lanes)"

definition lane_ingress ::
  "(string, nat) btree \<Rightarrow> (RuntimeFailure \<Rightarrow> string) \<Rightarrow> ('q, 's) ListenerCoordinator \<Rightarrow> string \<Rightarrow>
   ('q, 's) ListenerCoordinator \<times> (string + ('h, 'w) WebIngressFactory)" where
  "lane_ingress indexes debug coordinator lane =
     (case bt_get indexes lane of
        None \<Rightarrow> (coordinator, Inl (''replicated Web Host received an undeclared Execution Lane `'' @ lane @ ''`''))
      | Some i \<Rightarrow> (case native_replicated_at coordinator i of
          (c, r) \<Rightarrow> (c, map_err (\<lambda>e. ''could not allocate Web Ingress replica: '' @ debug e) r)))"

text \<open>\<open>start_replicated\<close> up to the bound coordinator: the plan, the lane numbers and the coordinator.\<close>

definition prepare_replicated ::
  "'h http_lib \<Rightarrow> 's semaphore_lib \<Rightarrow> listener_io \<Rightarrow> (HostCatalog \<Rightarrow> 'o PluginRootSnapshot \<Rightarrow> string + 'plan) \<Rightarrow> ('plan \<Rightarrow> string list) \<Rightarrow>
   RuntimeFailure + PluginDescriptor list \<Rightarrow> (WebIngressConfig \<Rightarrow> string + json) \<Rightarrow> ('o, 'm) NativeWebHost \<Rightarrow>
   'x WebHostError + 'plan \<times> (string, nat) btree \<times> ('q, 's) ListenerCoordinator" where
  "prepare_replicated L S io resolver lanes_of_plan discovered to_json host =
     try_in (replication_supported host) (\<lambda>_.
     try_in (resolve_plan_with_replication L resolver discovered to_json True host) (\<lambda>initial_plan.
     try_in (host_config L host) (\<lambda>config.
     try_in (map_err HostPlan (to_json config)) (\<lambda>configuration.
       let host = replicate_instances configuration (lanes_of_plan initial_plan) host in
       try_in (resolve_plan_with_replication L resolver discovered to_json True host) (\<lambda>plan.
         let indexes = lane_indexes (lanes_of_plan plan) in
         try_in (map_err HostRuntime (coordinator_bind L S io config (length indexes))) (\<lambda>coordinator.
           Inr (plan, indexes, coordinator)))))))"

section \<open>Tower policies\<close>

datatype 'h TowerMiddlewareOutcome = TowerContinue | TowerRespond "'h WebIngressResponse"

text \<open>The adapter's \<open>before_request\<close>: the policy sees a copy of the request.\<close>

definition tower_before ::
  "('w \<Rightarrow> 'h WebIngressRequest \<Rightarrow> 'w \<times> (unwind + 'h TowerMiddlewareOutcome)) \<Rightarrow> 'w \<Rightarrow> 'h WebIngressRequest \<Rightarrow>
   'w \<times> 'h WebIngressRequest \<times> (unwind + 'h WebIngressResponse WebIngressMiddlewareOutcome)" where
  "tower_before service w request =
     (case service w request of (w', r) \<Rightarrow>
        (w', request, try_in r (\<lambda>outcome. Inr (case outcome of
           TowerContinue \<Rightarrow> Continue | TowerRespond response \<Rightarrow> Respond response))))"

text \<open>The trait's default \<open>after_response\<close> does nothing.\<close>

definition TowerIngressMiddleware ::
  "string \<Rightarrow> ('w \<Rightarrow> 'h WebIngressRequest \<Rightarrow> 'w \<times> (unwind + 'h TowerMiddlewareOutcome)) \<Rightarrow>
   ('w, 'h WebIngressRequest, 'h WebIngressResponse) WebIngressMiddleware" where
  "TowerIngressMiddleware identity service =
     \<lparr>wim_identity = identity, wim_before = tower_before service, wim_after = (\<lambda>w req response. (w, response, Inr ()))\<rparr>"

section \<open>The factories of a host\<close>

definition native_ingress :: "(('w, 'h WebIngressRequest, 'h WebIngressResponse) WebIngressMiddleware) list \<Rightarrow> ('h, 'w) WebIngressFactory" where
  "native_ingress middleware = foldl (\<lambda>ingress m. native_with_middleware m ingress) native_factory_new middleware"

definition event_ingress ::
  "(('w, 'h WebIngressRequest, 'h WebIngressResponse) WebIngressMiddleware) list \<Rightarrow> ('h, 'r, 'w) WebIngressEventFactory" where
  "event_ingress middleware = foldl (\<lambda>ingress m. event_with_middleware m ingress) event_factory_new middleware"

definition host_with_tower_middleware ::
  "string \<Rightarrow> ('w \<Rightarrow> 'h WebIngressRequest \<Rightarrow> 'w \<times> (unwind + 'h TowerMiddlewareOutcome)) \<Rightarrow>
   ('o, ('w, 'h WebIngressRequest, 'h WebIngressResponse) WebIngressMiddleware) NativeWebHost \<Rightarrow>
   ('o, ('w, 'h WebIngressRequest, 'h WebIngressResponse) WebIngressMiddleware) NativeWebHost" where
  "host_with_tower_middleware identity service host = host_with_middleware (TowerIngressMiddleware identity service) host"

fun with_adapters :: "('cat \<Rightarrow> 'o \<Rightarrow> 'x + 'cat) \<Rightarrow> 'cat \<Rightarrow> 'o list \<Rightarrow> 'x WebHostError + 'cat" where
  "with_adapters attach catalog [] = Inr catalog"
| "with_adapters attach catalog (adapter # adapters) =
     try_in (map_err HostAdapter (attach catalog adapter)) (\<lambda>catalog. with_adapters attach catalog adapters)"

text \<open>
  \<open>start\<close>. \<open>registry\<close> is the catalog of one registry that holds the ingress factory and the installed
  and linked factories; \<open>boot\<close> is the kernel's start, with what the ingress has published by then.
\<close>

definition host_start ::
  "'h http_lib \<Rightarrow> (HostCatalog \<Rightarrow> 'o PluginRootSnapshot \<Rightarrow> string + 'plan) \<Rightarrow> RuntimeFailure + PluginDescriptor list \<Rightarrow>
   (WebIngressConfig \<Rightarrow> string + json) \<Rightarrow> (('h, 'w) WebIngressFactory \<Rightarrow> (string \<times> PluginDescriptor) list \<Rightarrow> 'cat) \<Rightarrow>
   ('cat \<Rightarrow> 'o \<Rightarrow> 'x + 'cat) \<Rightarrow> ('plan \<Rightarrow> 'cat \<Rightarrow> RuntimeFailure + 'app \<times> WebIngressState) \<Rightarrow>
   ('o, ('w, 'h WebIngressRequest, 'h WebIngressResponse) WebIngressMiddleware) NativeWebHost \<Rightarrow>
   'x WebHostError + 'app \<times> string \<times> WebIngressState" where
  "host_start L resolver discovered to_json registry attach boot host =
     try_in (resolve_plan_with_replication L resolver discovered to_json False host) (\<lambda>plan.
     try_in (with_adapters attach (registry (native_ingress (nwh_middleware host)) (nwh_factory_installers host)) (nwh_extra_adapters host)) (\<lambda>catalog.
     try_in (map_err HostRuntime (boot plan catalog)) (\<lambda>(app, published).
     try_in (ok_or (wis_local_address published) ListenerNotPublished) (\<lambda>address. Inr (app, address, published)))))"

text \<open>\<open>start_event\<close> boots the same plan with the event factory, which stays the way in.\<close>

definition host_start_event ::
  "'h http_lib \<Rightarrow> (HostCatalog \<Rightarrow> 'o PluginRootSnapshot \<Rightarrow> string + 'plan) \<Rightarrow> RuntimeFailure + PluginDescriptor list \<Rightarrow>
   (WebIngressConfig \<Rightarrow> string + json) \<Rightarrow> (('h, 'r, 'w) WebIngressEventFactory \<Rightarrow> (string \<times> PluginDescriptor) list \<Rightarrow> 'cat) \<Rightarrow>
   ('cat \<Rightarrow> 'o \<Rightarrow> 'x + 'cat) \<Rightarrow> ('plan \<Rightarrow> 'cat \<Rightarrow> RuntimeFailure + 'app \<times> ('h, 'r, 'w) WebIngressEventFactory) \<Rightarrow>
   ('o, ('w, 'h WebIngressRequest, 'h WebIngressResponse) WebIngressMiddleware) NativeWebHost \<Rightarrow>
   'x WebHostError + 'app \<times> ('h, 'r, 'w) WebIngressEventFactory" where
  "host_start_event L resolver discovered to_json registry attach boot host =
     try_in (resolve_plan_with_replication L resolver discovered to_json False host) (\<lambda>plan.
     try_in (with_adapters attach (registry (event_ingress (nwh_middleware host)) (nwh_factory_installers host)) (nwh_extra_adapters host)) (\<lambda>catalog.
       map_err HostRuntime (boot plan catalog)))"

text \<open>\<open>shutdown\<close> of a running host; \<open>None\<close> is a clean outcome.\<close>

definition host_shutdown :: "'x option \<Rightarrow> 'x WebHostError + unit" where
  "host_shutdown outcome = (case outcome of None \<Rightarrow> Inr () | Some outcome \<Rightarrow> Inl (HostShutdown outcome))"

text \<open>\<open>prepare_simulated\<close>: the plan and the event factory; the registry is the kernel's.\<close>

definition prepare_simulated ::
  "'h http_lib \<Rightarrow> (HostCatalog \<Rightarrow> 'o PluginRootSnapshot \<Rightarrow> string + 'plan) \<Rightarrow> RuntimeFailure + PluginDescriptor list \<Rightarrow>
   (WebIngressConfig \<Rightarrow> string + json) \<Rightarrow>
   ('o, ('w, 'h WebIngressRequest, 'h WebIngressResponse) WebIngressMiddleware) NativeWebHost \<Rightarrow>
   'x WebHostError + 'plan \<times> ('h, 'r, 'w) WebIngressEventFactory" where
  "prepare_simulated L resolver discovered to_json host =
     try_in (resolve_plan_with_replication L resolver discovered to_json False host) (\<lambda>plan.
       if nwh_extra_adapters host \<noteq> []
       then Inl (SimulationUnsupported ''additional Execution Adapters require their own simulated Host boundary'')
       else Inr (plan, event_ingress (nwh_middleware host)))"

section \<open>Simulated requests\<close>

datatype SimulatedWebRequestError =
    AlreadyDispatched
  | SimRuntime RuntimeFailure
  | UnexpectedBody string string

text \<open>The cells the clones of a request share: the request and the cancellation token.\<close>

record 'h SimulatedWebRequest =
  swr_request :: "('h request_parts \<times> bytes) option"
  swr_disconnected :: bool

definition begin_request :: "'h request_parts \<Rightarrow> bytes \<Rightarrow> 'h SimulatedWebRequest" where
  "begin_request parts body = \<lparr>swr_request = Some (parts, body), swr_disconnected = False\<rparr>"

definition disconnect :: "'h SimulatedWebRequest \<Rightarrow> 'h SimulatedWebRequest" where
  "disconnect sim = sim\<lparr>swr_disconnected := True\<rparr>"

definition send_response ::
  "crypto_lib \<Rightarrow> 'h http_lib \<Rightarrow> 'r router_lib \<Rightarrow> ('h, 'r, 'w) WebIngressEventFactory \<Rightarrow> 'h SimulatedWebRequest \<Rightarrow>
   'p event_env \<Rightarrow> 'w \<Rightarrow>
   (SimulatedWebRequestError + ('h, 'p, 'w) event_response) progress \<times> 'h SimulatedWebRequest \<times> ('h, 'r, 'w) WebIngressEventFactory" where
  "send_response C L R f sim env w =
     (case swr_request sim of
        None \<Rightarrow> (Finished (Inl AlreadyDispatched), sim, f)
      | Some (parts, body) \<Rightarrow>
          (case handle_response C L R f parts body (env\<lparr>ev_cancelled_before := swr_disconnected sim\<rparr>) w of
             (outcome, f') \<Rightarrow> (map_progress (map_err SimRuntime) outcome, sim\<lparr>swr_request := None\<rparr>, f')))"

datatype body_kind = BufferedKind | StreamKind | WebSocketKind

fun kind_name :: "body_kind \<Rightarrow> string" where
  "kind_name BufferedKind = ''a buffered HTTP response''"
| "kind_name StreamKind = ''a streaming HTTP response''"
| "kind_name WebSocketKind = ''a WebSocket upgrade''"

fun kind_of :: "'p WebIngressEventBody \<Rightarrow> body_kind" where
  "kind_of (EventBuffered _) = BufferedKind"
| "kind_of (EventStreaming _ _) = StreamKind"
| "kind_of (EventWebSocket _) = WebSocketKind"

text \<open>\<open>send_buffered\<close>, \<open>open_stream\<close> and \<open>open_websocket\<close>, by the kind of body they accept.\<close>

definition send_expecting ::
  "body_kind \<Rightarrow> crypto_lib \<Rightarrow> 'h http_lib \<Rightarrow> 'r router_lib \<Rightarrow> ('h, 'r, 'w) WebIngressEventFactory \<Rightarrow> 'h SimulatedWebRequest \<Rightarrow>
   'p event_env \<Rightarrow> 'w \<Rightarrow>
   (SimulatedWebRequestError + ('h, 'p, 'w) event_response) progress \<times> 'h SimulatedWebRequest \<times> ('h, 'r, 'w) WebIngressEventFactory" where
  "send_expecting expected C L R f sim env w =
     (case send_response C L R f sim env w of (outcome, sim', f') \<Rightarrow>
        (map_progress (\<lambda>result. try_in result (\<lambda>response.
           if kind_of (er_body response) = expected then Inr response
           else Inl (UnexpectedBody (kind_name expected) (kind_name (kind_of (er_body response)))))) outcome, sim', f'))"

datatype ('p, 'w) sim_op = Disconnects | Sends body_kind "'p event_env" 'w

text \<open>The operations of the clones of one request, in the order they run, with the answers to the sends.\<close>

fun simulate ::
  "crypto_lib \<Rightarrow> 'h http_lib \<Rightarrow> 'r router_lib \<Rightarrow> ('p, 'w) sim_op list \<Rightarrow> ('h, 'r, 'w) WebIngressEventFactory \<Rightarrow> 'h SimulatedWebRequest \<Rightarrow>
   (SimulatedWebRequestError + ('h, 'p, 'w) event_response) progress list \<times> 'h SimulatedWebRequest \<times> ('h, 'r, 'w) WebIngressEventFactory" where
  "simulate C L R [] f sim = ([], sim, f)"
| "simulate C L R (Disconnects # ops) f sim = simulate C L R ops f (disconnect sim)"
| "simulate C L R (Sends expected env w # ops) f sim =
     (case send_expecting expected C L R f sim env w of (outcome, sim', f') \<Rightarrow>
        (case simulate C L R ops f' sim' of (outcomes, sim'', f'') \<Rightarrow> (outcome # outcomes, sim'', f'')))"

section \<open>Instances of the plugin root\<close>

definition instance_of :: "PluginInstanceId \<Rightarrow> PluginRootInstance list \<Rightarrow> PluginRootInstance option" where
  "instance_of i instances = List.find (\<lambda>instance. pri_id instance = i) instances"

lemma put_instance_other: "j \<noteq> i \<Longrightarrow> instance_of j (put_instance i configuration lane instances) = instance_of j instances"
  by (induction instances) (auto simp: instance_of_def replacement_instance_def)

lemma put_instance_same:
  "instance_of i (put_instance i configuration lane instances) =
     Some (replacement_instance i configuration lane (instance_of i instances))"
  by (induction instances) (auto simp: instance_of_def replacement_instance_def)

lemma put_instance_ids:
  "map pri_id (put_instance i configuration lane instances) =
     map pri_id instances @ (if i \<in> pri_id ` set instances then [] else [i])"
  by (induction instances) (auto simp: replacement_instance_def)

section \<open>Releases, slots and lanes\<close>

lemma admit_release_distinct:
  "distinct (map pd_plugin_id releases) \<Longrightarrow> distinct (map pd_plugin_id (admit_release releases release))"
  by (auto simp: admit_release_def list_ex_iff)

lemma admit_all_releases:
  assumes "distinct (map pd_plugin_id releases)" and "releases = ingress_descriptor # rest"
  shows "distinct (map pd_plugin_id (foldl admit_release releases later)) \<and>
    hd (foldl admit_release releases later) = ingress_descriptor \<and>
    set (map pd_plugin_id (foldl admit_release releases later)) = set (map pd_plugin_id releases) \<union> set (map pd_plugin_id later)"
  using assms
proof (induction later arbitrary: releases rest)
  case (Cons release later)
  have "admit_release releases release = releases \<or> admit_release releases release = releases @ [release]"
    by (simp add: admit_release_def)
  then obtain rest' where rest': "admit_release releases release = ingress_descriptor # rest'"
    using Cons.prems(2) by auto
  have "set (map pd_plugin_id (admit_release releases release)) = insert (pd_plugin_id release) (set (map pd_plugin_id releases))"
    using Cons.prems(2) by (auto simp: admit_release_def list_ex_iff ingress_descriptor_def image_iff) metis
  then show ?case
    using Cons.IH [OF admit_release_distinct [OF Cons.prems(1)] rest'] by simp
qed simp

lemma host_releases_catalog:
  "distinct (map pd_plugin_id (host_releases discovered extra)) \<and> hd (host_releases discovered extra) = ingress_descriptor \<and>
   set (map pd_plugin_id (host_releases discovered extra)) =
     insert INGRESS_PACKAGE_ID (set (map pd_plugin_id discovered) \<union> set (map pd_plugin_id extra))"
  using admit_all_releases [of "[ingress_descriptor]" "[]" "discovered @ extra"]
  by (simp add: host_releases_def ingress_descriptor_def Un_assoc)

lemma count_slots:
  assumes "bt_inv counts"
  shows "bt_inv (foldl count_slot counts releases) \<and> bt_get (foldl count_slot counts releases) slot =
    (if bt_get counts slot = None \<and> slot \<notin> pd_root_slot ` set releases then None
     else Some ((case bt_get counts slot of None \<Rightarrow> 0 | Some n \<Rightarrow> n) + count_list (map pd_root_slot releases) slot))"
  using assms
proof (induction releases arbitrary: counts)
  case (Cons release releases)
  have "bt_inv (count_slot counts release)" by (simp add: count_slot_def bt_insert_inv [OF Cons.prems])
  moreover have "bt_get (count_slot counts release) = (bt_get counts)(pd_root_slot release \<mapsto>
      Suc (case bt_get counts (pd_root_slot release) of None \<Rightarrow> 0 | Some n \<Rightarrow> n))"
    by (simp add: count_slot_def bt_get_insert [OF Cons.prems])
  ultimately show ?case using Cons.IH [of "count_slot counts release"] by (auto split: option.splits)
qed (auto split: option.splits)

lemma slot_counts_get:
  "bt_get (slot_counts releases) slot =
     (if slot \<in> pd_root_slot ` set releases then Some (count_list (map pd_root_slot releases) slot) else None)"
  and slot_counts_inv: "bt_inv (slot_counts releases)"
  using count_slots [of "[]" releases slot] by (auto simp: slot_counts_def)

lemma collect_lanes:
  assumes "bt_inv lanes"
  shows "bt_inv (foldl insert_lane lanes instances) \<and> set (map fst (foldl insert_lane lanes instances)) =
    set (map fst lanes) \<union> {lane. \<exists>instance \<in> set instances. pri_execution_lane instance = Some lane}"
  using assms
proof (induction instances arbitrary: lanes)
  case (Cons i instances)
  have "bt_inv (insert_lane lanes i)" by (simp add: insert_lane_def bt_insert_inv [OF Cons.prems] Cons.prems split: option.split)
  moreover have "set (map fst (insert_lane lanes i)) = set (map fst lanes) \<union> {lane. pri_execution_lane i = Some lane}"
    by (simp add: insert_lane_def bt_insert_keys [simplified] split: option.split)
  ultimately show ?case using Cons.IH [of "insert_lane lanes i"] by auto
qed simp

lemma execution_lanes_set:
  "set (execution_lanes instances) =
     insert ''main'' {lane. \<exists>instance \<in> set instances. pri_execution_lane instance = Some lane}"
  and execution_lanes_distinct: "distinct (execution_lanes instances)"
  using collect_lanes [of "[(''main'', ())]" instances] bt_inv_distinct
  unfolding execution_lanes_def by (auto simp: bt_inv_def)

section \<open>Lanes of a replicated host\<close>

lemma index_lanes:
  assumes "bt_inv m" and "distinct lanes" and "set (map fst m) \<inter> set lanes = {}"
  shows "bt_inv (foldl (\<lambda>m (index, lane). bt_insert lane index m) m (List.enumerate n lanes)) \<and>
    length (foldl (\<lambda>m (index, lane). bt_insert lane index m) m (List.enumerate n lanes)) = length m + length lanes \<and>
    (\<forall>lane. bt_get (foldl (\<lambda>m (index, lane). bt_insert lane index m) m (List.enumerate n lanes)) lane =
       (bt_get m ++ map_of (zip lanes [n..<n + length lanes])) lane)"
  using assms
proof (induction lanes arbitrary: m n)
  case (Cons lane lanes)
  have inv: "bt_inv (bt_insert lane n m)" by (rule bt_insert_inv [OF Cons.prems(1)])
  have keys: "set (map fst (bt_insert lane n m)) = insert lane (set (map fst m))" by (rule bt_insert_keys)
  have "length (map fst (bt_insert lane n m)) = length (map fst m) + 1"
    using Cons.prems(1,3) bt_inv_distinct [OF inv] bt_inv_distinct [OF Cons.prems(1)] keys
    by (metis IntI One_nat_def Suc_eq_plus1 card_insert_disjoint distinct_card emptyE finite_set list.set_intros(1))
  moreover have "[n..<n + length (lane # lanes)] = n # [Suc n..<Suc n + length lanes]"
    using upt_conv_Cons [of n "n + length (lane # lanes)"] by simp
  moreover have "lane \<notin> set lanes" using Cons.prems(2) by simp
  ultimately show ?case
    using Cons.IH [OF inv, of "Suc n"] Cons.prems(2,3) keys bt_get_insert [OF Cons.prems(1), of lane n]
    by (auto simp: map_add_def fun_eq_iff split: option.splits dest!: map_of_SomeD set_zip_leftD)
qed (simp add: map_add_def)

lemma lane_indexes_get:
  assumes "distinct lanes"
  shows "k < length lanes \<Longrightarrow> bt_get (lane_indexes lanes) (lanes ! k) = Some k"
    and "lane \<notin> set lanes \<Longrightarrow> bt_get (lane_indexes lanes) lane = None"
    and "length (lane_indexes lanes) = length lanes"
proof -
  note i = index_lanes [of "[]" lanes 0, folded lane_indexes_def, simplified, OF assms]
  show "length (lane_indexes lanes) = length lanes" using i by simp
  show "bt_get (lane_indexes lanes) (lanes ! k) = Some k" if "k < length lanes"
    using i that assms by (simp add: map_of_zip_nth)
  show "bt_get (lane_indexes lanes) lane = None" if "lane \<notin> set lanes"
    using i that by (simp add: map_of_zip_is_None)
qed

text \<open>The lanes start in some order, each asking for its ingress.\<close>

fun start_lanes ::
  "(string, nat) btree \<Rightarrow> (RuntimeFailure \<Rightarrow> string) \<Rightarrow> ('q, 's) ListenerCoordinator \<Rightarrow> string list \<Rightarrow>
   ('q, 's) ListenerCoordinator \<times> (string + ('h, 'w) WebIngressFactory) list" where
  "start_lanes indexes debug c [] = (c, [])"
| "start_lanes indexes debug c (lane # lanes) =
     (case lane_ingress indexes debug c lane of (c', r) \<Rightarrow>
        (case start_lanes indexes debug c' lanes of (c'', rs) \<Rightarrow> (c'', r # rs)))"

lemma start_lanes_slots:
  fixes c :: "('q, 's) ListenerCoordinator"
  assumes "distinct lanes" and "length (co_slots (lc_state c)) = length lanes" and "distinct order" and "set order \<subseteq> set lanes"
    and "\<forall>k < length lanes. lanes ! k \<in> set order \<longrightarrow> \<not> sl_allocated (co_slots (lc_state c) ! k)"
  shows "\<exists>c'. start_lanes (lane_indexes lanes) debug c order =
      (c', map (\<lambda>lane. Inr (native_factory_with (bt_get (lane_indexes lanes) lane) :: ('h, 'w) WebIngressFactory)) order) \<and>
    length (co_slots (lc_state c')) = length lanes \<and>
    (\<forall>k < length lanes. sl_allocated (co_slots (lc_state c') ! k) \<longleftrightarrow>
       lanes ! k \<in> set order \<or> sl_allocated (co_slots (lc_state c) ! k))"
  using assms(2-)
proof (induction order arbitrary: c)
  case (Cons lane order)
  then obtain k where k: "k < length lanes" "lanes ! k = lane" by (auto simp: in_set_conv_nth)
  let ?c = "set_slot k (\<lambda>s. s\<lparr>sl_allocated := True\<rparr>) c"
  have get: "bt_get (lane_indexes lanes) lane = Some k" using lane_indexes_get(1) [OF assms(1) k(1)] k(2) by simp
  have free: "\<not> sl_allocated (co_slots (lc_state c) ! k)" using Cons.prems(4) k by simp
  have first: "lane_ingress (lane_indexes lanes) debug c lane = (?c, Inr (native_factory_with (Some k)))"
    using free k(1) Cons.prems(1) by (simp add: lane_ingress_def get native_replicated_at_def allocate_replica_at_def)
  have other: "lanes ! j = lane \<longleftrightarrow> j = k" if "j < length lanes" for j
    using that k assms(1) by (auto simp: nth_eq_iff_index_eq)
  have slots: "sl_allocated (co_slots (lc_state ?c) ! j) \<longleftrightarrow> j = k \<or> sl_allocated (co_slots (lc_state c) ! j)" if "j < length lanes" for j
    using that k(1) Cons.prems(1) by (auto simp: set_slot_def nth_list_update)
  obtain c' where "start_lanes (lane_indexes lanes) debug ?c order =
      (c', map (\<lambda>lane. Inr (native_factory_with (bt_get (lane_indexes lanes) lane) :: ('h, 'w) WebIngressFactory)) order)"
    and "length (co_slots (lc_state c')) = length lanes"
    and "\<forall>j < length lanes. sl_allocated (co_slots (lc_state c') ! j) \<longleftrightarrow> lanes ! j \<in> set order \<or> sl_allocated (co_slots (lc_state ?c) ! j)"
    using Cons.IH [of ?c] Cons.prems k slots other by (auto simp: set_slot_def)
  then show ?case using slots other by (auto simp: first get)
qed simp

section \<open>Properties\<close>

text \<open>Enabling an instance replaces the instance of the same identity where it stands, or appends a new
  one: its configuration is the new one, its lane is the requested one or else the one it had, every other
  instance, the releases, the disabled entries and the dependency choices stay, and the list of identities is
  the old one, with a new identity at its end.\<close>

theorem push_instance_replaces:
  fixes host :: "('o, 'm) NativeWebHost" and p k configuration lane
  defines "root' \<equiv> nwh_root (push_instance p k configuration lane host)" and "root \<equiv> nwh_root host"
    and "i \<equiv> \<lparr>pid_plugin_id = p, pid_instance_key = k\<rparr>"
  shows "instance_of i (prs_instances root') = Some \<lparr>pri_id = i, pri_configuration = configuration,
        pri_execution_lane = (if lane = None then Option.bind (instance_of i (prs_instances root)) pri_execution_lane else lane)\<rparr> \<and>
      (\<lambda>j. instance_of j (prs_instances root'))(i := None) = (\<lambda>j. instance_of j (prs_instances root))(i := None) \<and>
      map pri_id (prs_instances root') = map pri_id (prs_instances root) @ (if i \<in> pri_id ` set (prs_instances root) then [] else [i]) \<and>
      prs_releases root' = prs_releases root \<and> prs_disabled root' = prs_disabled root \<and>
      prs_dependency_choices root' = prs_dependency_choices root"
  by (auto simp: root'_def root_def i_def push_instance_def Let_def put_instance_same put_instance_other put_instance_ids
      replacement_instance_def fun_eq_iff split: option.splits)

text \<open>C27. The catalog a host hands to the plan resolver. Preparing it fails as \<open>MissingEndpoint\<close> exactly when no
  enabled instance has a release that provides the HTTP endpoint; otherwise the releases carry each plugin
  once, the package's own ingress first whatever was discovered or added, every enabled ingress instance is
  bound to all enabled HTTP endpoints and to the stream and WebSocket ones there are, under the admission limits of
  its configuration, and the lanes are \<open>main\<close> and those of the instances, each once.\<close>

theorem host_catalog_binds_every_ingress:
  fixes discovered extra_releases extra_defaults and root :: "'o PluginRootSnapshot"
  assumes "to_json config = Inr configuration"
  defines "releases \<equiv> host_releases discovered extra_releases"
    and "enabled \<equiv> \<lparr>pid_plugin_id = INGRESS_PACKAGE_ID, pid_instance_key = INSTANCE_KEY\<rparr> # map hdp_id extra_defaults @
      map pri_id (prs_instances root)"
  defines "offered \<equiv> \<lambda>capability. filter (\<lambda>i. \<exists>r \<in> set releases. pd_plugin_id r = pid_plugin_id i \<and> capability \<in> set (pd_provided r)) enabled"
  shows "case web_catalog (Inr discovered) to_json config root extra_defaults extra_bindings extra_releases replicated of
      Inl e \<Rightarrow> e = MissingEndpoint \<and> offered HTTP_ENDPOINT = []
    | Inr catalog \<Rightarrow> offered HTTP_ENDPOINT \<noteq> [] \<and>
        hc_releases catalog = releases \<and> hd releases = ingress_descriptor \<and> distinct (map pd_plugin_id releases) \<and>
        (\<forall>b. b \<in> set (hc_bindings catalog) \<longleftrightarrow> b \<in> set extra_bindings \<or>
           hbd_consumer b \<in> set enabled \<and> pid_plugin_id (hbd_consumer b) = INGRESS_PACKAGE_ID \<and>
           hbd_capability b \<in> {HTTP_ENDPOINT, STREAM_ENDPOINT, WEBSOCKET_ENDPOINT} \<and>
           hbd_providers b = offered (hbd_capability b) \<and> hbd_providers b \<noteq> [] \<and>
           hbd_admission b = Some (endpoint_admission_limits config)) \<and>
        distinct (hc_lanes catalog) \<and> set (hc_lanes catalog) =
          insert ''main'' {lane. \<exists>i \<in> set (prs_instances root). pri_execution_lane i = Some lane}"
proof -
  have ids: "endpoint_ids_for enabled releases capability = offered capability" for capability
    by (simp add: endpoint_ids_for_def offered_def provides_capability_def list_ex_iff)
  show ?thesis
  proof (cases "offered HTTP_ENDPOINT = []")
    case True
    then show ?thesis by (simp add: web_catalog_def assms(1) releases_def [symmetric] Let_def enabled_def [symmetric] ids)
  next
    case False
    have bindings: "b \<in> set (ingress_bindings limits (offered HTTP_ENDPOINT) (offered STREAM_ENDPOINT) (offered WEBSOCKET_ENDPOINT) i) \<longleftrightarrow>
      hbd_consumer b = i \<and> hbd_capability b \<in> {HTTP_ENDPOINT, STREAM_ENDPOINT, WEBSOCKET_ENDPOINT} \<and>
      hbd_providers b = offered (hbd_capability b) \<and> hbd_providers b \<noteq> [] \<and> hbd_admission b = Some limits" for b limits i
      using False by (cases b) (auto simp: ingress_bindings_def Let_def)
    show ?thesis
      using False host_releases_catalog [of discovered extra_releases] execution_lanes_set [of "prs_instances root"]
        execution_lanes_distinct [of "prs_instances root"]
      by (auto simp: web_catalog_def assms(1) releases_def [symmetric] Let_def enabled_def [symmetric] ids bindings)
  qed
qed

text \<open>A replicated host that has been prepared gives every lane of its plan a replica of its own: in
  whatever order the lanes start, the lane at position \<open>k\<close> of the plan receives the ingress of slot \<open>k\<close>, no
  allocation fails, every slot is taken once all lanes have started, and a lane the plan does not declare
  receives none. The lanes of a resolved plan are distinct.\<close>

theorem every_lane_gets_its_replica:
  fixes coordinator :: "('q, 's) ListenerCoordinator"
  assumes "prepare_replicated L S io resolver lanes_of_plan discovered to_json host = Inr (plan, indexes, coordinator)"
    and "distinct (lanes_of_plan plan)" and "mset order = mset (lanes_of_plan plan)"
  shows "(\<exists>c'. start_lanes indexes debug coordinator order =
        (c', map (\<lambda>lane. Inr (native_factory_with (bt_get indexes lane) :: ('h, 'w) WebIngressFactory)) order) \<and>
      (\<forall>slot \<in> set (co_slots (lc_state c')). sl_allocated slot)) \<and>
    (\<forall>k < length order. bt_get indexes (lanes_of_plan plan ! k) = Some k) \<and>
    (\<forall>lane. lane \<notin> set order \<longrightarrow> lane_ingress indexes debug coordinator lane =
        (coordinator, Inl (''replicated Web Host received an undeclared Execution Lane `'' @ lane @ ''`'')
           :: string + ('h, 'w) WebIngressFactory))"
proof -
  let ?lanes = "lanes_of_plan plan"
  have ix: "indexes = lane_indexes ?lanes" and "\<exists>config. coordinator_bind L S io config (length indexes) = Inr coordinator"
    using assms(1) by (auto simp: prepare_replicated_def Let_def try_in_Inr_iff map_err_Inr_iff)
  then obtain config where bound: "coordinator_bind L S io config (length ?lanes) = Inr coordinator"
    using lane_indexes_get(3) [OF assms(2)] by auto
  then have fresh: "co_slots (lc_state coordinator) = replicate (length ?lanes) \<lparr>sl_allocated = False, sl_manifest = None, sl_connections = None\<rparr>"
    by (auto simp: coordinator_bind_def try_in_Inr_iff Let_def split: if_splits)
  have order: "set order = set ?lanes" "distinct order" "length order = length ?lanes"
    using assms(2,3) by (metis mset_eq_setD, metis mset_eq_imp_distinct_iff, metis size_mset)
  obtain c' where c': "start_lanes (lane_indexes ?lanes) debug coordinator order =
      (c', map (\<lambda>lane. Inr (native_factory_with (bt_get (lane_indexes ?lanes) lane) :: ('h, 'w) WebIngressFactory)) order)"
    "length (co_slots (lc_state c')) = length ?lanes"
    "\<forall>k < length ?lanes. sl_allocated (co_slots (lc_state c') ! k) \<longleftrightarrow>
       ?lanes ! k \<in> set order \<or> sl_allocated (co_slots (lc_state coordinator) ! k)"
    using start_lanes_slots [OF assms(2), of coordinator order debug] fresh order by auto
  then have one: "\<exists>c'. start_lanes indexes debug coordinator order =
        (c', map (\<lambda>lane. Inr (native_factory_with (bt_get indexes lane) :: ('h, 'w) WebIngressFactory)) order) \<and>
      (\<forall>slot \<in> set (co_slots (lc_state c')). sl_allocated slot)"
    unfolding ix using order by (auto simp: all_set_conv_all_nth)
  have two: "\<forall>k < length order. bt_get indexes (?lanes ! k) = Some k"
    unfolding ix using lane_indexes_get(1) [OF assms(2)] order(3) by simp
  have three: "\<forall>lane. lane \<notin> set order \<longrightarrow> lane_ingress indexes debug coordinator lane =
        (coordinator, Inl (''replicated Web Host received an undeclared Execution Lane `'' @ lane @ ''`'')
           :: string + ('h, 'w) WebIngressFactory)"
    unfolding ix using lane_indexes_get(2) [OF assms(2)] order(1) by (simp add: lane_ingress_def)
  from one two three show ?thesis by (intro conjI)
qed

abbreviation shop_descriptor :: PluginDescriptor where
  "shop_descriptor \<equiv> \<lparr>pd_plugin_id = ''shop.orders'', pd_root_slot = ''orders'', pd_provided = [HTTP_ENDPOINT]\<rparr>"

abbreviation shop_host :: "(unit, unit) NativeWebHost" where
  "shop_host \<equiv> host_plugin_on_lane ''shop.orders'' ''web'' (host_release shop_descriptor host_new)"

definition lanes_resolver :: "HostCatalog \<Rightarrow> unit PluginRootSnapshot \<Rightarrow> string + string list" where
  "lanes_resolver catalog root = Inr (hc_lanes catalog)"

lemma shop_instances:
  "prs_instances (nwh_root shop_host) =
      [\<lparr>pri_id = \<lparr>pid_plugin_id = ''shop.orders'', pid_instance_key = INSTANCE_KEY\<rparr>, pri_configuration = empty_configuration,
        pri_execution_lane = Some ''web''\<rparr>]"
  by (simp add: host_plugin_on_lane_def push_instance_def Let_def host_release_def host_new_def replacement_instance_def)

lemma shop_releases: "host_releases [] [shop_descriptor] = [ingress_descriptor, shop_descriptor]"
  by (simp add: host_releases_def admit_release_def ingress_descriptor_def)

theorem host_catalog_binds_every_ingress_witness:
  "\<exists>catalog. web_catalog (Inr []) (\<lambda>c. Inr JNull) default_config (nwh_root shop_host) [] [] [shop_descriptor] False = Inr catalog \<and>
     \<lparr>hbd_consumer = \<lparr>pid_plugin_id = INGRESS_PACKAGE_ID, pid_instance_key = INSTANCE_KEY\<rparr>, hbd_capability = HTTP_ENDPOINT,
      hbd_providers = [\<lparr>pid_plugin_id = ''shop.orders'', pid_instance_key = INSTANCE_KEY\<rparr>],
      hbd_admission = Some (endpoint_admission_limits default_config)\<rparr> \<in> set (hc_bindings catalog)"
proof -
  note all = host_catalog_binds_every_ingress [of "\<lambda>c. Inr JNull" default_config JNull "[]" "[shop_descriptor]" "[]" "nwh_root shop_host" "[]" False]
  show ?thesis
    using all by (auto simp: shop_instances shop_releases ingress_descriptor_def split: sum.splits)
qed

lemma shop_config: "host_config L shop_host = Inr default_config"
  by (simp add: host_config_def host_plugin_on_lane_def push_instance_def Let_def host_release_def host_new_def)

lemma shop_prepared:
  "prepare_replicated list_http counter_semaphore sample_io lanes_resolver (\<lambda>plan. plan) (Inr []) (\<lambda>c. Inr JNull) shop_host =
     (Inr ([''main'', ''web''], lane_indexes [''main'', ''web''], sample_coordinator) :: 'x WebHostError + _)"
proof -
  let ?replicated = "replicate_instances JNull [''main'', ''web''] shop_host"
  have resolved: "resolve_plan_with_replication list_http lanes_resolver (Inr []) (\<lambda>c. Inr JNull) True host =
      (Inr (execution_lanes (prs_instances (nwh_root host))) :: 'x WebHostError + _)"
    if "\<exists>x \<in> set (prs_instances (nwh_root host)). ''shop.orders'' = pid_plugin_id (pri_id x)"
      and "nwh_bind_address host = None" "nwh_ingress_config host = default_config" "nwh_factory_installers host = []"
      "nwh_extra_releases host = [shop_descriptor]" "nwh_extra_defaults host = []"
    for host :: "(unit, unit) NativeWebHost"
    using that
    by (auto simp: resolve_plan_with_replication_def host_config_def resolve_web_plan_def lanes_resolver_def web_catalog_def
        shop_releases Let_def endpoint_ids_for_def filter_empty_conv provides_capability_def ingress_descriptor_def)
  have supported: "replication_supported shop_host = (Inr () :: 'x WebHostError + unit)"
    by (simp add: replication_supported_def host_plugin_on_lane_def push_instance_def Let_def host_release_def host_new_def)
  have first: "resolve_plan_with_replication list_http lanes_resolver (Inr []) (\<lambda>c. Inr JNull) True shop_host =
      (Inr [''main'', ''web''] :: 'x WebHostError + _)"
    by (subst resolved) (simp_all add: execution_lanes_def insert_lane_def replacement_instance_def host_plugin_on_lane_def push_instance_def Let_def host_release_def host_new_def)
  have second: "resolve_plan_with_replication list_http lanes_resolver (Inr []) (\<lambda>c. Inr JNull) True ?replicated =
      (Inr [''main'', ''web''] :: 'x WebHostError + _)"
    by (subst resolved) (simp_all add: execution_lanes_def insert_lane_def replacement_instance_def replicate_instances_def
        host_plugin_on_lane_def push_instance_def Let_def host_release_def host_new_def)
  show ?thesis
    using sample_bound by (simp add: prepare_replicated_def supported shop_config first second lane_indexes_get(3) numeral_2_eq_2)
qed

theorem every_lane_gets_its_replica_witness:
  "\<exists>plan indexes (coordinator :: (nat list_channel, nat) ListenerCoordinator).
     prepare_replicated list_http counter_semaphore sample_io lanes_resolver (\<lambda>plan. plan) (Inr []) (\<lambda>c. Inr JNull) shop_host =
       Inr (plan, indexes, coordinator) \<and> plan = [''main'', ''web''] \<and>
     snd (start_lanes indexes (\<lambda>e. []) coordinator [''web'', ''main'']) =
       [Inr (native_factory_with (Some 1) :: (unit, unit) WebIngressFactory), Inr (native_factory_with (Some 0))]"
proof -
  note prepared = shop_prepared
  have "(\<exists>c'. start_lanes (lane_indexes [''main'', ''web'']) (\<lambda>e. []) sample_coordinator [''web'', ''main''] =
      (c', map (\<lambda>lane. Inr (native_factory_with (bt_get (lane_indexes [''main'', ''web'']) lane) :: (unit, unit) WebIngressFactory)) [''web'', ''main'']))"
    using every_lane_gets_its_replica [where lanes_of_plan = "\<lambda>plan. plan" and plan = "[''main'', ''web'']" and order = "[''web'', ''main'']"
        and debug = "\<lambda>e. []", OF prepared] by auto
  then have "snd (start_lanes (lane_indexes [''main'', ''web'']) (\<lambda>e. []) sample_coordinator [''web'', ''main'']) =
      [Inr (native_factory_with (Some 1) :: (unit, unit) WebIngressFactory), Inr (native_factory_with (Some 0))]"
    by (auto simp: lane_indexes_def)
  with prepared show ?thesis by blast
qed

lemma simulate_spent:
  assumes "swr_request sim = None" and "simulate C L R ops f sim = (outcomes, sim', f')"
  shows "f' = f \<and> swr_request sim' = None \<and> (\<forall>outcome \<in> set outcomes. outcome = Finished (Inl AlreadyDispatched))"
  using assms
proof (induction ops arbitrary: sim outcomes)
  case (Cons op ops)
  show ?case
  proof (cases op)
    case Disconnects
    then show ?thesis using Cons.IH [of "disconnect sim" outcomes] Cons.prems by (simp add: disconnect_def)
  next
    case (Sends expected env w)
    then show ?thesis using Cons.IH [of sim "tl outcomes"] Cons.prems
      by (auto simp: send_expecting_def send_response_def split: prod.splits)
  qed
qed simp

text \<open>A simulated request reaches the ingress at most once, whatever its clones do: of the sends of a run the
  first one alone hands the request over, with the disconnect it has seen, and every later one answers
  \<open>AlreadyDispatched\<close> and leaves the ingress as the first left it.\<close>

theorem simulated_request_is_one_shot:
  fixes env :: "'p event_env" and w :: 'w and f :: "('h, 'r, 'w) WebIngressEventFactory"
  assumes "simulate C L R (replicate n Disconnects @ Sends expected env w # ops) f (begin_request parts body) = (outcomes, sim, f')"
  defines "answer \<equiv> handle_response C L R f parts body (env\<lparr>ev_cancelled_before := n \<noteq> 0\<rparr>) w"
  shows "f' = snd answer \<and> swr_request sim = None \<and>
    (\<exists>first rest. outcomes = first # rest \<and> (\<forall>outcome \<in> set rest. outcome = Finished (Inl AlreadyDispatched)) \<and>
       first = map_progress (\<lambda>result. try_in (map_err SimRuntime result) (\<lambda>response.
         if kind_of (er_body response) = expected then Inr response
         else Inl (UnexpectedBody (kind_name expected) (kind_name (kind_of (er_body response)))))) (fst answer))"
proof -
  define shown :: "RuntimeFailure + ('h, 'p, 'w) event_response \<Rightarrow> SimulatedWebRequestError + ('h, 'p, 'w) event_response"
    where "shown = (\<lambda>result. try_in (map_err SimRuntime result) (\<lambda>response.
         if kind_of (er_body response) = expected then Inr response
         else Inl (UnexpectedBody (kind_name expected) (kind_name (kind_of (er_body response))))))"
  have hang_ups: "simulate C L R (replicate m Disconnects @ later) f sim =
      simulate C L R later f (if m = 0 then sim else disconnect sim)" for m later and sim :: "'h SimulatedWebRequest"
    by (induction m arbitrary: sim) (auto simp: disconnect_def)
  obtain out f1 where a: "answer = (out, f1)" by (cases answer)
  define spent where "spent = (\<lparr>swr_request = None, swr_disconnected = (n \<noteq> 0)\<rparr> :: 'h SimulatedWebRequest)"
  have send: "send_expecting expected C L R f (if n = 0 then begin_request parts body else disconnect (begin_request parts body)) env w =
      (map_progress shown out, spent, f1)"
    using a unfolding answer_def shown_def spent_def
    by (cases n; cases out) (simp_all add: send_expecting_def send_response_def begin_request_def disconnect_def comp_def)
  obtain rest sim1 f2 where r: "simulate C L R ops f1 spent = (rest, sim1, f2)" by (metis surj_pair)
  have "swr_request spent = None" by (simp add: spent_def)
  with simulate_spent [OF this r] show ?thesis using assms(1) unfolding hang_ups by (auto simp: send r a shown_def)
qed

theorem simulated_request_is_one_shot_witness:
  "\<exists>outcomes sim f'. simulate constant_crypto list_http list_router
      [Disconnects, Sends BufferedKind hello_event_env (), Sends StreamKind hello_event_env ()] hello_event_factory
      (begin_request hello_parts []) = (outcomes, sim, f') \<and> length outcomes = 2 \<and>
      outcomes ! 1 = Finished (Inl AlreadyDispatched) \<and> swr_request sim = None"
proof -
  obtain outcomes sim f' where s: "simulate constant_crypto list_http list_router
      (replicate 1 Disconnects @ Sends BufferedKind hello_event_env () # [Sends StreamKind hello_event_env ()]) hello_event_factory
      (begin_request hello_parts []) = (outcomes, sim, f')" by (metis surj_pair)
  have "length outcomes = 2" using s by (auto split: prod.splits)
  with simulated_request_is_one_shot [OF s] s show ?thesis by (fastforce simp: length_Suc_conv numeral_2_eq_2)
qed

lemma cancelled_work:
  assumes "ev_cancelled_before env"
  shows "\<exists>status \<in> {431, 503}. \<exists>message. event_work C L R st cookie head_len parts body env w = (answered (json_response L status message) w, None)"
  using assms by (auto simp: event_work_def unavailable_def)

lemma cancelled_answered:
  assumes "header_text_laws L" and "ef_state f = Some st" and "wic_session_cookie (es_config st) = None" and "ev_cancelled_before env"
  shows "\<exists>r f'. handle_response C L R f parts body env w = (Finished (Inr r), f')"
proof -
  let ?h = "mark_sensitive_headers L (rp_headers parts) None" and ?n = "es_next_request_id st"
  let ?rid = "plain (''lenso-'' @ decimal (unat ?n))"
  have rid: "replace_request_id L ?h ?n = Some (?rid, hm_insert L ?h ''x-request-id'' ?rid, ?n + 1)"
    by (simp add: replace_request_id_def sequence_next_def request_id_header_value_eq [OF assms(1)])
  obtain a where "event_work C L R st None (canonical_request_head_len L (rp_method parts) (rp_uri parts) (rp_version parts) ?h)
      (parts\<lparr>rp_headers := hm_insert L ?h ''x-request-id'' ?rid\<rparr>) body env w = (answered a w, None)"
    using cancelled_work [OF assms(4), of C L R st None _ "parts\<lparr>rp_headers := hm_insert L ?h ''x-request-id'' ?rid\<rparr>" body w]
    by blast
  then show ?thesis by (simp add: handle_response_def assms(2,3) rid Let_def answered_def)
qed

text \<open>A request whose client has disconnected before the send reaches no endpoint and no middleware: the
  world is untouched, and the answer is a buffered refusal, 503, or 431 for a head that is too large.\<close>

theorem disconnected_request_reaches_nobody:
  assumes "send_response C L R f (disconnect (begin_request parts body)) env w = (Finished (Inr r), sim, f')"
  shows "er_world r = w \<and> er_status r \<in> {431, 503} \<and> kind_of (er_body r) = BufferedKind"
proof -
  let ?env = "env\<lparr>ev_cancelled_before := True\<rparr>"
  obtain out where out: "handle_response C L R f parts body ?env w = (out, f')" and r: "map_progress (map_err SimRuntime) out = Finished (Inr r)"
    using assms by (auto simp: send_response_def disconnect_def begin_request_def split: prod.splits)
  from r have "out = Finished (Inr r)" by (cases out) (auto simp: map_err_Inr_iff)
  with out have "\<exists>st cookie head_len parts' d permit rid a.
      event_work C L R st cookie head_len parts' body ?env w = (d, permit) \<and>
      dr_response d = Finished a \<and> r = event_finish L (rp_method parts) rid permit (dr_world d) a"
    by (auto simp: handle_response_def Let_def split: option.splits prod.splits progress.splits) blast+
  then obtain st cookie head_len parts' d permit rid a where
    work: "event_work C L R st cookie head_len parts' body ?env w = (d, permit)"
    and a: "dr_response d = Finished a" "r = event_finish L (rp_method parts) rid permit (dr_world d) a" by blast
  obtain status message where s: "status \<in> {431, 503}" and
    "event_work C L R st cookie head_len parts' body ?env w = (answered (json_response L status message) w, None)"
    using cancelled_work [of ?env C L R st cookie head_len parts' body w] by auto
  with work have "d = answered (json_response L status message) w" "permit = None" by simp_all
  with a s show ?thesis
    by (auto simp: event_finish_def answered_def json_response_def normalize_body_def event_body_def is_informational_def)
qed

theorem disconnected_request_reaches_nobody_witness:
  "\<exists>(r :: ((header_name \<times> header_value) list, nat, unit) event_response) sim f'.
     send_response constant_crypto list_http list_router hello_event_factory (disconnect (begin_request hello_parts []))
       hello_event_env () = (Finished (Inr r), sim, f') \<and> er_status r \<in> {431, 503} \<and> kind_of (er_body r) = BufferedKind"
proof -
  let ?env = "hello_event_env\<lparr>ev_cancelled_before := True\<rparr>"
  have "\<exists>r f'. handle_response constant_crypto list_http list_router hello_event_factory hello_parts [] ?env () = (Finished (Inr r), f')"
    by (rule cancelled_answered [OF list_http_header_text_laws, where st = hello_event_state]) (simp_all add: default_config_def)
  then obtain r f' where h: "handle_response constant_crypto list_http list_router hello_event_factory hello_parts [] ?env () = (Finished (Inr r), f')"
    by blast
  then have "send_response constant_crypto list_http list_router hello_event_factory (disconnect (begin_request hello_parts []))
       hello_event_env () = (Finished (Inr r), (disconnect (begin_request hello_parts []))\<lparr>swr_request := None\<rparr>, f')"
    by (simp add: send_response_def disconnect_def begin_request_def)
  with disconnected_request_reaches_nobody [OF this] show ?thesis by blast
qed

section \<open>Tower policies and middleware\<close>

text \<open>What a sequence of policies decides: the first response, or none.\<close>

fun policies_decide ::
  "('w \<Rightarrow> 'h WebIngressRequest \<Rightarrow> 'w \<times> (unwind + 'h TowerMiddlewareOutcome)) list \<Rightarrow> 'w \<Rightarrow> 'h WebIngressRequest \<Rightarrow>
   'w \<times> (unwind + 'h WebIngressResponse option)" where
  "policies_decide [] w request = (w, Inr None)"
| "policies_decide (service # services) w request =
     (case service w request of
        (w', Inl u) \<Rightarrow> (w', Inl u)
      | (w', Inr (TowerRespond response)) \<Rightarrow> (w', Inr (Some response))
      | (w', Inr TowerContinue) \<Rightarrow> policies_decide services w' request)"

lemma tower_run_after: "run_after (map (case_prod TowerIngressMiddleware) policies) w request response = (w, Inr response)"
  by (induction policies) (auto simp: TowerIngressMiddleware_def)

lemma tower_run_before:
  "\<exists>entered. run_before (map (case_prod TowerIngressMiddleware) policies) n w request =
     (case policies_decide (map snd policies) w request of
        (w', Inl u) \<Rightarrow> (w', request, Inl u)
      | (w', Inr decision) \<Rightarrow> (w', request, Inr (entered, decision)))"
proof (induction policies arbitrary: n w)
  case (Cons policy policies)
  obtain identity service where p: "policy = (identity, service)" by (cases policy)
  obtain w' out where o: "service w request = (w', out)" by fastforce
  from Cons.IH [of "n + 1" w'] show ?case
    by (auto simp: p o TowerIngressMiddleware_def tower_before_def split: sum.splits prod.splits TowerMiddlewareOutcome.splits)
qed simp

text \<open>Tower policies only decide: a chain of them lets the endpoint answer the request exactly as it came,
  or ends it with the first policy's own response or failure, and changes no response.\<close>

theorem tower_policies_only_decide:
  "run_middleware (map (case_prod TowerIngressMiddleware) policies) proceed w request =
     (case policies_decide (map snd policies) w request of
        (w', Inl u) \<Rightarrow> (w', Inl u)
      | (w', Inr (Some response)) \<Rightarrow> (w', Inr response)
      | (w', Inr None) \<Rightarrow> proceed w' request)"
proof -
  obtain entered where e: "run_before (map (case_prod TowerIngressMiddleware) policies) 0 w request =
     (case policies_decide (map snd policies) w request of
        (w', Inl u) \<Rightarrow> (w', request, Inl u)
      | (w', Inr decision) \<Rightarrow> (w', request, Inr (entered, decision)))"
    using tower_run_before [of policies 0 w request] by (rule exE)
  have after: "run_after (rev (take entered (map (case_prod TowerIngressMiddleware) policies))) w' request response = (w', Inr response)"
    for w' response
    using tower_run_after [of "rev (take entered policies)"] by (simp add: rev_map take_map)
  show ?thesis
    by (auto simp: run_middleware_def e after split: prod.splits sum.splits option.splits)
qed

text \<open>A host without a bind address listens on loopback, at a port the system chooses.\<close>

lemma new_host_binds_ephemeral_port:
  "host_config L host_new = Inr default_config \<and> sa_port (wic_bind_address default_config) = 0"
  by (simp add: host_config_def host_new_def default_config_def)

text \<open>A host that has started runs the plan its builder resolves to, and reports the address its ingress published.\<close>

lemma host_started:
  fixes attach :: "'cat \<Rightarrow> 'o \<Rightarrow> 'x + 'cat"
  assumes "host_start L resolver discovered to_json registry attach boot host = Inr (app, address, published)"
  shows "\<exists>plan catalog. resolve_plan_with_replication L resolver discovered to_json False host = (Inr plan :: 'x WebHostError + 'plan) \<and>
    boot plan catalog = Inr (app, published) \<and> wis_local_address published = Some address"
  using assms by (auto simp: host_start_def try_in_Inr_iff map_err_Inr_iff ok_or_def split: option.splits)

text \<open>The socket host and the event host run the same middleware, in the order it was added.\<close>

lemma hosts_share_middleware:
  fixes ms :: "('w, 'h WebIngressRequest, 'h WebIngressResponse) WebIngressMiddleware list"
  shows
  "wif_middleware (native_ingress ms) = ms \<and> ef_middleware (event_ingress ms :: ('h, 'r, 'w) WebIngressEventFactory) = ms \<and> wif_replica (native_ingress ms) = None"
proof -
  have "wif_middleware (foldl (\<lambda>ingress m. native_with_middleware m ingress) g ms) = wif_middleware g @ ms \<and>
      wif_replica (foldl (\<lambda>ingress m. native_with_middleware m ingress) g ms) = wif_replica g" for g :: "('h, 'w) WebIngressFactory"
    by (induction ms arbitrary: g) (auto simp: native_with_middleware_def)
  moreover have "ef_middleware (foldl (\<lambda>ingress m. event_with_middleware m ingress) g ms) = ef_middleware g @ ms"
    for g :: "('h, 'r, 'w) WebIngressEventFactory"
    by (induction ms arbitrary: g) (auto simp: event_with_middleware_def)
  ultimately show ?thesis
    by (simp add: native_ingress_def event_ingress_def native_factory_new_def native_factory_with_def event_factory_new_def)
qed

end
