(* ===== verification/ContractCodec.thy ===== *)
theory ContractCodec
  imports EgressPolicy Json
begin

text \<open>
  The hand-over at a capability boundary, as the generated modules of the four contracts do it:
  the wire form of domain errors, the lowering of a provider's result and its rising at the
  client, the invocation of an operation by name, and the binding of every provider of a
  capability. The kernel's handles and its erased invocation are parameters. \<open>T\<close> is the
  display of a JSON value.
\<close>

section \<open>Domain errors on the wire\<close>

text \<open>The map serialized for an unknown error: a later entry replaces an earlier one of its name.\<close>

definition unknown_json :: "UnknownDomainError \<Rightarrow> json" where
  "unknown_json u =
     (let m = [(''code'', JString (ude_code u))];
          m = (case ude_payload u of None \<Rightarrow> m | Some payload \<Rightarrow> bt_insert ''payload'' payload m)
      in JObject (fold (\<lambda>(key, extra) m. bt_insert key extra m) (ude_extra u) m))"

definition bare_unknown :: "string \<Rightarrow> UnknownDomainError" where
  "bare_unknown code = \<lparr>ude_code = code, ude_payload = None, ude_extra = []\<rparr>"

definition unknown_from_object :: "json_object \<Rightarrow> string + UnknownDomainError" where
  "unknown_from_object m =
     (case Option.bind (bt_get m ''code'') as_str of
        None \<Rightarrow> Inl ''Domain Error object is missing a string code''
      | Some code \<Rightarrow>
          let m = bt_remove ''code'' m
          in Inr \<lparr>ude_code = code, ude_payload = bt_get m ''payload'', ude_extra = bt_remove ''payload'' m\<rparr>)"

definition not_a_domain_error :: "(json \<Rightarrow> string) \<Rightarrow> json \<Rightarrow> string" where
  "not_a_domain_error T j = ''Domain Error must be a string or object, got '' @ T j"

definition serialize_describe_error :: "DescribeError \<Rightarrow> json" where
  "serialize_describe_error e =
     (case e of InvalidConfiguration \<Rightarrow> JString ''invalid_configuration'' | DescribeUnknown u \<Rightarrow> unknown_json u)"

definition deserialize_describe_error :: "(json \<Rightarrow> string) \<Rightarrow> json \<Rightarrow> string + DescribeError" where
  "deserialize_describe_error T j =
     (case j of
        JString code \<Rightarrow>
          Inr (if code = ''invalid_configuration'' then InvalidConfiguration else DescribeUnknown (bare_unknown code))
      | JObject m \<Rightarrow> try_in (unknown_from_object m) (\<lambda>u. Inr (DescribeUnknown u))
      | _ \<Rightarrow> Inl (not_a_domain_error T j))"

definition serialize_handle_error :: "HandleError \<Rightarrow> json" where
  "serialize_handle_error e = (case e of HandleRejected \<Rightarrow> JString ''rejected'' | HandleUnknown u \<Rightarrow> unknown_json u)"

definition deserialize_handle_error :: "(json \<Rightarrow> string) \<Rightarrow> json \<Rightarrow> string + HandleError" where
  "deserialize_handle_error T j =
     (case j of
        JString code \<Rightarrow> Inr (if code = ''rejected'' then HandleRejected else HandleUnknown (bare_unknown code))
      | JObject m \<Rightarrow> try_in (unknown_from_object m) (\<lambda>u. Inr (HandleUnknown u))
      | _ \<Rightarrow> Inl (not_a_domain_error T j))"

definition serialize_describe_stream_error :: "DescribeStreamError \<Rightarrow> json" where
  "serialize_describe_stream_error e =
     (case e of StreamInvalidConfiguration \<Rightarrow> JString ''invalid_configuration'' | DescribeStreamUnknown u \<Rightarrow> unknown_json u)"

definition deserialize_describe_stream_error :: "(json \<Rightarrow> string) \<Rightarrow> json \<Rightarrow> string + DescribeStreamError" where
  "deserialize_describe_stream_error T j =
     (case j of
        JString code \<Rightarrow>
          Inr (if code = ''invalid_configuration'' then StreamInvalidConfiguration else DescribeStreamUnknown (bare_unknown code))
      | JObject m \<Rightarrow> try_in (unknown_from_object m) (\<lambda>u. Inr (DescribeStreamUnknown u))
      | _ \<Rightarrow> Inl (not_a_domain_error T j))"

definition serialize_stream_error :: "StreamError \<Rightarrow> json" where
  "serialize_stream_error e = (case e of StreamRejected \<Rightarrow> JString ''rejected'' | StreamUnknown u \<Rightarrow> unknown_json u)"

definition deserialize_stream_error :: "(json \<Rightarrow> string) \<Rightarrow> json \<Rightarrow> string + StreamError" where
  "deserialize_stream_error T j =
     (case j of
        JString code \<Rightarrow> Inr (if code = ''rejected'' then StreamRejected else StreamUnknown (bare_unknown code))
      | JObject m \<Rightarrow> try_in (unknown_from_object m) (\<lambda>u. Inr (StreamUnknown u))
      | _ \<Rightarrow> Inl (not_a_domain_error T j))"

definition serialize_connect_websocket_error :: "ConnectWebsocketError \<Rightarrow> json" where
  "serialize_connect_websocket_error e =
     (case e of
        WsRejected \<Rightarrow> JString ''rejected''
      | WsUnauthorized \<Rightarrow> JString ''unauthorized''
      | WsUnsupportedProtocol \<Rightarrow> JString ''unsupported_protocol''
      | WsUnknown u \<Rightarrow> unknown_json u)"

definition deserialize_connect_websocket_error :: "(json \<Rightarrow> string) \<Rightarrow> json \<Rightarrow> string + ConnectWebsocketError" where
  "deserialize_connect_websocket_error T j =
     (case j of
        JString code \<Rightarrow>
          Inr (if code = ''rejected'' then WsRejected
               else if code = ''unauthorized'' then WsUnauthorized
               else if code = ''unsupported_protocol'' then WsUnsupportedProtocol
               else WsUnknown (bare_unknown code))
      | JObject m \<Rightarrow> try_in (unknown_from_object m) (\<lambda>u. Inr (WsUnknown u))
      | _ \<Rightarrow> Inl (not_a_domain_error T j))"

definition serialize_describe_websocket_error :: "DescribeWebsocketError \<Rightarrow> json" where
  "serialize_describe_websocket_error e =
     (case e of
        WebsocketInvalidConfiguration \<Rightarrow> JString ''invalid_configuration''
      | DescribeWebsocketUnknown u \<Rightarrow> unknown_json u)"

definition deserialize_describe_websocket_error :: "(json \<Rightarrow> string) \<Rightarrow> json \<Rightarrow> string + DescribeWebsocketError" where
  "deserialize_describe_websocket_error T j =
     (case j of
        JString code \<Rightarrow>
          Inr (if code = ''invalid_configuration'' then WebsocketInvalidConfiguration
               else DescribeWebsocketUnknown (bare_unknown code))
      | JObject m \<Rightarrow> try_in (unknown_from_object m) (\<lambda>u. Inr (DescribeWebsocketUnknown u))
      | _ \<Rightarrow> Inl (not_a_domain_error T j))"

definition serialize_send_error :: "SendError \<Rightarrow> json" where
  "serialize_send_error e =
     (case e of
        DestinationNotAllowed \<Rightarrow> JString ''destination_not_allowed''
      | InvalidRequest \<Rightarrow> JString ''invalid_request''
      | RequestTooLarge \<Rightarrow> JString ''request_too_large''
      | ResponseTooLarge \<Rightarrow> JString ''response_too_large''
      | Timeout \<Rightarrow> JString ''timeout''
      | TransportFailure \<Rightarrow> JString ''transport_failure''
      | SendUnknown u \<Rightarrow> unknown_json u)"

definition deserialize_send_error :: "(json \<Rightarrow> string) \<Rightarrow> json \<Rightarrow> string + SendError" where
  "deserialize_send_error T j =
     (case j of
        JString code \<Rightarrow>
          Inr (if code = ''destination_not_allowed'' then DestinationNotAllowed
               else if code = ''invalid_request'' then InvalidRequest
               else if code = ''request_too_large'' then RequestTooLarge
               else if code = ''response_too_large'' then ResponseTooLarge
               else if code = ''timeout'' then Timeout
               else if code = ''transport_failure'' then TransportFailure
               else SendUnknown (bare_unknown code))
      | JObject m \<Rightarrow> try_in (unknown_from_object m) (\<lambda>u. Inr (SendUnknown u))
      | _ \<Rightarrow> Inl (not_a_domain_error T j))"

section \<open>The contract of a codec\<close>

text \<open>An unknown error whose additional fields are a map and do not use the two reserved names.\<close>

definition wire_safe :: "UnknownDomainError \<Rightarrow> bool" where
  "wire_safe u \<longleftrightarrow> bt_inv (ude_extra u) \<and> list_all (\<lambda>e. fst e \<noteq> ''code'' \<and> fst e \<noteq> ''payload'') (ude_extra u)"

definition error_document :: "json \<Rightarrow> bool" where
  "error_document j = (case j of JString _ \<Rightarrow> True | JObject m \<Rightarrow> Option.bind (bt_get m ''code'') as_str \<noteq> None | _ \<Rightarrow> False)"

lemma bt_eqI:
  assumes "bt_inv a" and "bt_inv b" and "bt_get a = bt_get b"
  shows "a = b"
proof -
  have "set a = set b" using assms bt_inv_mem_iff by (metis subrelI subset_antisym)
  moreover have "inj_on fst (set a \<union> set b)"
    using bt_inv_distinct [OF assms(1)] \<open>set a = set b\<close> by (simp add: distinct_map)
  ultimately show ?thesis
    using assms(1,2) by (intro map_sorted_distinct_set_unique [where f = fst]) (auto simp: bt_inv_def strict_sorted_iff)
qed

lemma fold_bt_insert:
  assumes "bt_inv m"
  shows "bt_inv (fold (\<lambda>(k, v) m. bt_insert k v m) es m) \<and>
    (distinct (map fst es) \<longrightarrow> bt_get (fold (\<lambda>(k, v) m. bt_insert k v m) es m) = (bt_get m) ++ map_of es)"
  using assms
proof (induction es arbitrary: m)
  case (Cons e es)
  obtain k v where e: "e = (k, v)" by (cases e)
  from Cons.IH [OF bt_insert_inv [OF Cons.prems, of k v]] show ?case
    by (auto simp: e bt_get_insert [OF Cons.prems] map_add_def fun_eq_iff map_of_eq_None_iff split: option.splits)
qed simp


lemma unknown_round_trip:
  assumes "wire_safe u"
  obtains m where "unknown_json u = JObject m" and "bt_inv m" and "unknown_from_object m = Inr u"
proof -
  define base where "base = (case ude_payload u of None \<Rightarrow> [(''code'', JString (ude_code u))]
    | Some payload \<Rightarrow> bt_insert ''payload'' payload [(''code'', JString (ude_code u))])"
  define m where "m = fold (\<lambda>(k, v) m. bt_insert k v m) (ude_extra u) base"
  have one: "bt_inv [(''code'', JString (ude_code u))]" by (simp add: bt_inv_def)
  have "bt_inv base"
    by (cases "ude_payload u") (simp_all only: base_def option.case one bt_insert_inv)
  moreover have "bt_get base = [''code'' \<mapsto> JString (ude_code u)](''payload'' := ude_payload u)"
    by (auto simp: base_def fun_eq_iff split: option.splits)
  ultimately have base: "bt_inv base" "bt_get base = [''code'' \<mapsto> JString (ude_code u)](''payload'' := ude_payload u)"
    by simp_all
  have extra: "bt_inv (ude_extra u)" "map_of (ude_extra u) ''code'' = None" "map_of (ude_extra u) ''payload'' = None"
    using assms by (auto simp: wire_safe_def list_all_iff map_of_eq_None_iff)
  have m: "bt_inv m" "bt_get m = bt_get base ++ map_of (ude_extra u)"
    using fold_bt_insert [OF base(1), of "ude_extra u"] bt_inv_distinct [OF extra(1)] by (simp_all add: m_def)
  have "bt_remove ''payload'' (bt_remove ''code'' m) = ude_extra u"
  proof (rule bt_eqI)
    show "bt_get (bt_remove ''payload'' (bt_remove ''code'' m)) = bt_get (ude_extra u)"
      using extra by (auto simp: bt_get_remove m(2) base(2) fun_eq_iff map_add_def split: option.splits)
  qed (simp_all add: bt_remove_inv m(1) extra(1))
  moreover have "bt_get m ''code'' = Some (JString (ude_code u))" "bt_get (bt_remove ''code'' m) ''payload'' = ude_payload u"
    using extra(2,3) by (auto simp: m(2) base(2) bt_get_remove map_add_def)
  ultimately have "unknown_from_object m = Inr u" by (simp add: unknown_from_object_def)
  moreover have "unknown_json u = JObject m" by (simp add: unknown_json_def m_def base_def Let_def cong: option.case_cong)
  ultimately show thesis using that m(1) by blast
qed

lemma unknown_from_object_safe:
  assumes "unknown_from_object m = Inr u" and "bt_inv m"
  shows "wire_safe u"
proof -
  have "ude_extra u = bt_remove ''payload'' (bt_remove ''code'' m)"
    using assms(1) by (auto simp: unknown_from_object_def Let_def split: option.splits)
  with bt_remove_inv [OF bt_remove_inv [OF assms(2)]] show ?thesis
    by (auto simp: wire_safe_def bt_remove_def list_all_iff)
qed

lemma unknown_from_object_ok: "is_ok (unknown_from_object m) \<longleftrightarrow> Option.bind (bt_get m ''code'') as_str \<noteq> None"
  by (auto simp: unknown_from_object_def Let_def split: option.splits)

text \<open>
  What the generated pair for an error type promises: \<open>known\<close> names the errors without fields,
  \<open>unknown\<close> wraps any other.
\<close>

locale domain_codec =
  fixes known :: "(string \<times> 'e) list"
    and unknown :: "UnknownDomainError \<Rightarrow> 'e"
    and serialize :: "'e \<Rightarrow> json"
    and deserialize :: "(json \<Rightarrow> string) \<Rightarrow> json \<Rightarrow> string + 'e"
  assumes exhaustive: "e \<in> snd ` set known \<or> (\<exists>u. e = unknown u)"
    and serialize_known: "(name, e) \<in> set known \<Longrightarrow> serialize e = JString name"
    and serialize_unknown: "serialize (unknown u) = unknown_json u"
    and distinct_names: "distinct (map fst known)"
    and deserialize_string: "deserialize T (JString code) =
      Inr (case map_of known code of Some e \<Rightarrow> e | None \<Rightarrow> unknown (bare_unknown code))"
    and deserialize_object: "deserialize T (JObject m) = try_in (unknown_from_object m) (\<lambda>u. Inr (unknown u))"
    and deserialize_other: "(\<forall>s. j \<noteq> JString s) \<Longrightarrow> (\<forall>m. j \<noteq> JObject m) \<Longrightarrow> deserialize T j = Inl (not_a_domain_error T j)"
begin

lemma round_trip:
  assumes "\<And>u. e = unknown u \<Longrightarrow> wire_safe u"
  shows "deserialize T (serialize e) = Inr e"
proof (cases "e \<in> snd ` set known")
  case True
  then obtain name where name: "(name, e) \<in> set known" by auto
  then have "map_of known name = Some e" using distinct_names by (simp add: map_of_eq_Some_iff)
  with name show ?thesis by (simp add: serialize_known deserialize_string)
next
  case False
  with exhaustive obtain u where u: "e = unknown u" by blast
  from unknown_round_trip [OF assms [OF u]] obtain m where "unknown_json u = JObject m" "unknown_from_object m = Inr u" .
  then show ?thesis by (simp add: u serialize_unknown deserialize_object)
qed

lemma accepts_iff: "is_ok (deserialize T j) \<longleftrightarrow> error_document j"
proof (cases "\<exists>s. j = JString s")
  case True
  then show ?thesis by (auto simp: deserialize_string error_document_def)
next
  case no_string: False
  show ?thesis
  proof (cases "\<exists>m. j = JObject m")
    case True
    then obtain m where m: "j = JObject m" by blast
    have "is_ok (deserialize T j) \<longleftrightarrow> is_ok (unknown_from_object m)"
      by (cases "unknown_from_object m") (simp_all add: m deserialize_object)
    then show ?thesis by (simp add: m unknown_from_object_ok error_document_def)
  next
    case False
    with no_string show ?thesis by (cases j) (auto simp: deserialize_other error_document_def)
  qed
qed

text \<open>What was read once is read again from its own wire form.\<close>

lemma read_back:
  assumes "deserialize T j = Inr e" and "\<And>m. j = JObject m \<Longrightarrow> bt_inv m"
    and "inj unknown" and "\<And>u name. (name, unknown u) \<notin> set known"
  shows "deserialize T (serialize e) = Inr e"
proof (rule round_trip)
  fix u assume u: "e = unknown u"
  consider (str) code where "j = JString code" | (obj) m where "j = JObject m"
    using assms(1) deserialize_other [of j T] by fastforce
  then show "wire_safe u"
  proof cases
    case str
    with assms(1,4) u have "unknown u = unknown (bare_unknown code)"
      by (auto simp: deserialize_string dest: map_of_SomeD split: option.splits)
    with assms(3) have "u = bare_unknown code" by (simp add: inj_eq)
    then show ?thesis by (simp add: wire_safe_def bare_unknown_def)
  next
    case obj
    with assms(1) u assms(3) have "unknown_from_object m = Inr u"
      by (auto simp: deserialize_object result_simps inj_eq)
    with assms(2) [OF obj] show ?thesis by (rule unknown_from_object_safe [rotated])
  qed
qed

end

interpretation describe_codec: domain_codec "[(''invalid_configuration'', InvalidConfiguration)]" DescribeUnknown
  serialize_describe_error deserialize_describe_error
  by unfold_locales
    (auto simp: serialize_describe_error_def deserialize_describe_error_def split: DescribeError.splits json.splits,
      (metis DescribeError.exhaust)?)

interpretation handle_codec: domain_codec "[(''rejected'', HandleRejected)]" HandleUnknown
  serialize_handle_error deserialize_handle_error
  by unfold_locales
    (auto simp: serialize_handle_error_def deserialize_handle_error_def split: HandleError.splits json.splits,
      (metis HandleError.exhaust)?)

interpretation describe_stream_codec: domain_codec "[(''invalid_configuration'', StreamInvalidConfiguration)]" DescribeStreamUnknown
  serialize_describe_stream_error deserialize_describe_stream_error
  by unfold_locales
    (auto simp: serialize_describe_stream_error_def deserialize_describe_stream_error_def split: DescribeStreamError.splits json.splits,
      (metis DescribeStreamError.exhaust)?)

interpretation stream_codec: domain_codec "[(''rejected'', StreamRejected)]" StreamUnknown
  serialize_stream_error deserialize_stream_error
  by unfold_locales
    (auto simp: serialize_stream_error_def deserialize_stream_error_def split: StreamError.splits json.splits,
      (metis StreamError.exhaust)?)

interpretation connect_websocket_codec: domain_codec "[(''rejected'', WsRejected), (''unauthorized'', WsUnauthorized),
    (''unsupported_protocol'', WsUnsupportedProtocol)]" WsUnknown
  serialize_connect_websocket_error deserialize_connect_websocket_error
  by unfold_locales
    (auto simp: serialize_connect_websocket_error_def deserialize_connect_websocket_error_def split: ConnectWebsocketError.splits json.splits,
      (metis ConnectWebsocketError.exhaust)?)

interpretation describe_websocket_codec: domain_codec "[(''invalid_configuration'', WebsocketInvalidConfiguration)]" DescribeWebsocketUnknown
  serialize_describe_websocket_error deserialize_describe_websocket_error
  by unfold_locales
    (auto simp: serialize_describe_websocket_error_def deserialize_describe_websocket_error_def split: DescribeWebsocketError.splits json.splits,
      (metis DescribeWebsocketError.exhaust)?)

interpretation send_codec: domain_codec "[(''destination_not_allowed'', DestinationNotAllowed), (''invalid_request'', InvalidRequest),
    (''request_too_large'', RequestTooLarge), (''response_too_large'', ResponseTooLarge), (''timeout'', Timeout),
    (''transport_failure'', TransportFailure)]" SendUnknown
  serialize_send_error deserialize_send_error
  by unfold_locales
    (auto simp: serialize_send_error_def deserialize_send_error_def split: SendError.splits json.splits,
      (metis SendError.exhaust)?)


section \<open>Results across the boundary\<close>

text \<open>The lowering of what a provider's method returned, and its rising at the client.\<close>

definition lower_result :: "'d InvocationError + 'v \<Rightarrow> RuntimeFailure + ('d + 'v)" where
  "lower_result r =
     (case r of
        Inr v \<Rightarrow> Inr (Inr v)
      | Inl (Domain error) \<Rightarrow> Inr (Inl error)
      | Inl (RuntimeError error) \<Rightarrow> Inl error)"

definition client_result :: "RuntimeFailure + ('d + 'v) \<Rightarrow> 'd InvocationError + 'v" where
  "client_result r = try_in (map_err RuntimeError r) (\<lambda>r. map_err Domain r)"

text \<open>A boxed value of any type; \<open>AnyForeign\<close> is one of a type no contract has.\<close>

datatype any_value =
    AnyDescribeRequest | AnyDescribeResponse DescribeResponse | AnyDescribeError DescribeError
  | AnyHandleRequest HandleRequest | AnyHandleResponse HandleResponse | AnyHandleError HandleError
  | AnyConnectWebsocketRequest ConnectWebsocketRequest | AnyConnectWebsocketError ConnectWebsocketError
  | AnySendRequest SendRequest | AnySendResponse SendResponse | AnySendError SendError
  | AnyForeign nat

definition ENDPOINT_CAPABILITY_ID :: string where
  "ENDPOINT_CAPABILITY_ID = ''lenso.http.endpoint@1''"

definition WEBSOCKET_CAPABILITY_ID :: string where
  "WEBSOCKET_CAPABILITY_ID = ''lenso.websocket.endpoint@1''"

definition CLIENT_CAPABILITY_ID :: string where
  "CLIENT_CAPABILITY_ID = ''lenso.http.client@1''"

definition STREAM_CAPABILITY_ID :: string where
  "STREAM_CAPABILITY_ID = ''lenso.http.stream-endpoint@1''"

record 'ctx EndpointProvider =
  pv_describe :: "'ctx \<Rightarrow> RuntimeFailure + (DescribeError + DescribeResponse)"
  pv_handle :: "'ctx \<Rightarrow> HandleRequest \<Rightarrow> RuntimeFailure + (HandleError + HandleResponse)"

definition boxed :: "('d \<Rightarrow> any_value) \<Rightarrow> ('v \<Rightarrow> any_value) \<Rightarrow> RuntimeFailure + ('d + 'v) \<Rightarrow> RuntimeFailure + (any_value + any_value)" where
  "boxed box_error box_value r = try_in r (\<lambda>r. Inr (map_sum box_error box_value r))"

definition endpoint_invoke ::
  "'ctx EndpointProvider \<Rightarrow> string \<Rightarrow> any_value \<Rightarrow> 'ctx \<Rightarrow> RuntimeFailure + (any_value + any_value)" where
  "endpoint_invoke p operation request ctx =
     (if operation = ''describe'' then
        (case request of
           AnyDescribeRequest \<Rightarrow> boxed AnyDescribeError AnyDescribeResponse (pv_describe p ctx)
         | _ \<Rightarrow> Inl (ProtocolViolation ENDPOINT_CAPABILITY_ID))
      else if operation = ''handle'' then
        (case request of
           AnyHandleRequest r \<Rightarrow> boxed AnyHandleError AnyHandleResponse (pv_handle p ctx r)
         | _ \<Rightarrow> Inl (ProtocolViolation ENDPOINT_CAPABILITY_ID))
      else Inl (UnknownOperation ENDPOINT_CAPABILITY_ID operation))"

text \<open>
  \<open>invoke_native\<close>: \<open>typed\<close> is the provider when the endpoint reveals it, \<open>erased\<close> the kernel's
  invocation through boxed values.
\<close>

definition describe_invoke_native ::
  "'ctx EndpointProvider option \<Rightarrow> (string \<Rightarrow> 'ctx \<Rightarrow> RuntimeFailure + (DescribeError + DescribeResponse)) \<Rightarrow>
   string \<Rightarrow> 'ctx \<Rightarrow> RuntimeFailure + (DescribeError + DescribeResponse)" where
  "describe_invoke_native typed erased operation ctx =
     (if operation \<noteq> ''describe'' then erased operation ctx
      else (case typed of None \<Rightarrow> erased operation ctx | Some p \<Rightarrow> pv_describe p ctx))"

definition handle_invoke_native ::
  "'ctx EndpointProvider option \<Rightarrow> (string \<Rightarrow> HandleRequest \<Rightarrow> 'ctx \<Rightarrow> RuntimeFailure + (HandleError + HandleResponse)) \<Rightarrow>
   string \<Rightarrow> HandleRequest \<Rightarrow> 'ctx \<Rightarrow> RuntimeFailure + (HandleError + HandleResponse)" where
  "handle_invoke_native typed erased operation request ctx =
     (if operation \<noteq> ''handle'' then erased operation request ctx
      else (case typed of None \<Rightarrow> erased operation request ctx | Some p \<Rightarrow> pv_handle p ctx request))"

definition client_describe ::
  "(string \<Rightarrow> 'ctx \<Rightarrow> RuntimeFailure + (DescribeError + DescribeResponse)) \<Rightarrow> 'ctx \<Rightarrow> DescribeError InvocationError + DescribeResponse" where
  "client_describe invoke ctx = client_result (invoke ''describe'' ctx)"

definition client_handle ::
  "(string \<Rightarrow> HandleRequest \<Rightarrow> 'ctx \<Rightarrow> RuntimeFailure + (HandleError + HandleResponse)) \<Rightarrow> 'ctx \<Rightarrow> HandleRequest \<Rightarrow>
   HandleError InvocationError + HandleResponse" where
  "client_handle invoke ctx request = client_result (invoke ''handle'' request ctx)"

text \<open>The endpoint of the HTTP client contract, and of the WebSocket contract, whose operation opens a session.\<close>

definition client_invoke ::
  "('ctx \<Rightarrow> SendRequest \<Rightarrow> RuntimeFailure + (SendError + SendResponse)) \<Rightarrow> string \<Rightarrow> any_value \<Rightarrow> 'ctx \<Rightarrow>
   RuntimeFailure + (any_value + any_value)" where
  "client_invoke send operation request ctx =
     (if operation = ''send'' then
        (case request of
           AnySendRequest r \<Rightarrow> boxed AnySendError AnySendResponse (send ctx r)
         | _ \<Rightarrow> Inl (ProtocolViolation CLIENT_CAPABILITY_ID))
      else Inl (UnknownOperation CLIENT_CAPABILITY_ID operation))"

definition client_send_native ::
  "('ctx \<Rightarrow> SendRequest \<Rightarrow> RuntimeFailure + (SendError + SendResponse)) option \<Rightarrow>
   (string \<Rightarrow> SendRequest \<Rightarrow> 'ctx \<Rightarrow> RuntimeFailure + (SendError + SendResponse)) \<Rightarrow>
   string \<Rightarrow> SendRequest \<Rightarrow> 'ctx \<Rightarrow> RuntimeFailure + (SendError + SendResponse)" where
  "client_send_native typed erased operation request ctx =
     (if operation \<noteq> ''send'' then erased operation request ctx
      else (case typed of None \<Rightarrow> erased operation request ctx | Some send \<Rightarrow> send ctx request))"

definition client_send ::
  "(string \<Rightarrow> SendRequest \<Rightarrow> 'ctx \<Rightarrow> RuntimeFailure + (SendError + SendResponse)) \<Rightarrow> 'ctx \<Rightarrow> SendRequest \<Rightarrow>
   ClientInvocationError + SendResponse" where
  "client_send invoke ctx request = client_result (invoke ''send'' request ctx)"

definition websocket_open ::
  "('ctx \<Rightarrow> ConnectWebsocketRequest \<Rightarrow> ConnectWebsocketError InvocationError + 's) \<Rightarrow> string \<Rightarrow> any_value \<Rightarrow> 'ctx \<Rightarrow>
   RuntimeFailure + (any_value + 's)" where
  "websocket_open connect operation request ctx =
     (if operation = ''connect_websocket'' then
        (case request of
           AnyConnectWebsocketRequest r \<Rightarrow>
             (case connect ctx r of
                Inr session \<Rightarrow> Inr (Inr session)
              | Inl (Domain error) \<Rightarrow> Inr (Inl (AnyConnectWebsocketError error))
              | Inl (RuntimeError error) \<Rightarrow> Inl error)
         | _ \<Rightarrow> Inl (ProtocolViolation WEBSOCKET_CAPABILITY_ID))
      else Inl (UnknownOperation WEBSOCKET_CAPABILITY_ID operation))"

definition client_connect_websocket ::
  "(string \<Rightarrow> ConnectWebsocketRequest \<Rightarrow> 'ctx \<Rightarrow> RuntimeFailure + (ConnectWebsocketError + 's)) \<Rightarrow> 'ctx \<Rightarrow> ConnectWebsocketRequest \<Rightarrow>
   ConnectWebsocketError InvocationError + 's" where
  "client_connect_websocket open_stream ctx request = client_result (open_stream ''connect_websocket'' request ctx)"

section \<open>Binding every provider\<close>

record ('k, 'j) capability_binding =
  bnd_capability_id :: string
  bnd_provider_instance :: string
  bnd_handle :: "'k option"
  bnd_stream_handle :: "'j option"

definition endpoint_many_from_dependencies ::
  "('k \<Rightarrow> RuntimeFailure + 'a) \<Rightarrow> ('k \<Rightarrow> RuntimeFailure + 'b) \<Rightarrow> ('k, 'j) capability_binding list \<Rightarrow>
   RuntimeFailure + (string \<times> 'a \<times> 'b) list" where
  "endpoint_many_from_dependencies typed_describe typed_handle bindings =
     traverse (\<lambda>b.
         try_in (ok_or (bnd_handle b) (Unavailable ENDPOINT_CAPABILITY_ID)) (\<lambda>k.
         try_in (typed_describe k) (\<lambda>describe.
         try_in (ok_or (bnd_handle b) (Unavailable ENDPOINT_CAPABILITY_ID)) (\<lambda>k.
         try_in (typed_handle k) (\<lambda>handle. Inr (bnd_provider_instance b, describe, handle))))))
       (filter (\<lambda>b. bnd_capability_id b = ENDPOINT_CAPABILITY_ID) bindings)"

definition stream_many_from_dependencies ::
  "('k \<Rightarrow> RuntimeFailure + 'a) \<Rightarrow> ('j \<Rightarrow> RuntimeFailure + 'b) \<Rightarrow> ('k, 'j) capability_binding list \<Rightarrow>
   RuntimeFailure + (string \<times> 'a \<times> 'b) list" where
  "stream_many_from_dependencies typed_describe typed_handle bindings =
     traverse (\<lambda>b.
         try_in (ok_or (bnd_handle b) (Unavailable STREAM_CAPABILITY_ID)) (\<lambda>k.
         try_in (typed_describe k) (\<lambda>describe.
         try_in (ok_or (bnd_stream_handle b) (Unavailable STREAM_CAPABILITY_ID)) (\<lambda>j.
         try_in (typed_handle j) (\<lambda>handle. Inr (bnd_provider_instance b, describe, handle))))))
       (filter (\<lambda>b. bnd_capability_id b = STREAM_CAPABILITY_ID) bindings)"

definition websocket_many_from_dependencies ::
  "('j \<Rightarrow> RuntimeFailure + 'a) \<Rightarrow> ('k \<Rightarrow> RuntimeFailure + 'b) \<Rightarrow> ('k, 'j) capability_binding list \<Rightarrow>
   RuntimeFailure + (string \<times> 'a \<times> 'b) list" where
  "websocket_many_from_dependencies typed_connect typed_describe bindings =
     traverse (\<lambda>b.
         try_in (ok_or (bnd_stream_handle b) (Unavailable WEBSOCKET_CAPABILITY_ID)) (\<lambda>j.
         try_in (typed_connect j) (\<lambda>connect.
         try_in (ok_or (bnd_handle b) (Unavailable WEBSOCKET_CAPABILITY_ID)) (\<lambda>k.
         try_in (typed_describe k) (\<lambda>describe. Inr (bnd_provider_instance b, connect, describe))))))
       (filter (\<lambda>b. bnd_capability_id b = WEBSOCKET_CAPABILITY_ID) bindings)"

section \<open>Properties\<close>

lemma client_lower [simp]: "client_result (lower_result r) = r"
  by (cases r) (auto simp: client_result_def lower_result_def split: InvocationError.splits)

text \<open>The erased invocation as the kernel documents it: the request is boxed, the endpoint invoked,
  and the result unboxed again.\<close>

definition erased_handle :: "'ctx EndpointProvider \<Rightarrow> string \<Rightarrow> HandleRequest \<Rightarrow> 'ctx \<Rightarrow> RuntimeFailure + (HandleError + HandleResponse)" where
  "erased_handle p operation request ctx =
     try_in (endpoint_invoke p operation (AnyHandleRequest request) ctx) (\<lambda>r.
       case r of
         Inr (AnyHandleResponse v) \<Rightarrow> Inr (Inr v)
       | Inl (AnyHandleError e) \<Rightarrow> Inr (Inl e)
       | _ \<Rightarrow> Inl (ProtocolViolation ENDPOINT_CAPABILITY_ID))"

lemma erased_handle_handle: "erased_handle p ''handle'' request ctx = pv_handle p ctx request"
proof (cases "pv_handle p ctx request")
  case (Inr r)
  then show ?thesis by (cases r) (simp_all add: erased_handle_def endpoint_invoke_def boxed_def)
qed (simp add: erased_handle_def endpoint_invoke_def boxed_def)

text \<open>A call through the capability returns to the client exactly what the provider's method
  returned, value, domain error or runtime failure, whether the kernel finds the typed provider or
  goes through boxed values; any other operation name is refused as unknown.\<close>

theorem handle_reaches_provider:
  assumes "typed = None \<or> typed = Some p" and "pv_handle p ctx request = lower_result (provider_method ctx request)"
  shows "client_handle (handle_invoke_native typed (erased_handle p)) ctx request = provider_method ctx request \<and>
    (operation \<notin> {''describe'', ''handle''} \<longrightarrow>
       handle_invoke_native typed (erased_handle p) operation request ctx = Inl (UnknownOperation ENDPOINT_CAPABILITY_ID operation))"
proof -
  have "handle_invoke_native typed (erased_handle p) ''handle'' request ctx = pv_handle p ctx request"
    using assms(1) by (auto simp: handle_invoke_native_def erased_handle_handle)
  with assms(2) show ?thesis
    by (auto simp: client_handle_def handle_invoke_native_def erased_handle_def endpoint_invoke_def)
qed


text \<open>What a peer sent is stable: an error read from a document is read again, unchanged, from the
  document it is written as.\<close>

theorem received_errors_are_stable:
  assumes "deserialize_send_error T j = Inr e" and "\<forall>m. j = JObject m \<longrightarrow> bt_inv m"
  shows "deserialize_send_error T (serialize_send_error e) = Inr e"
  by (rule send_codec.read_back [OF assms(1)]) (use assms(2) in \<open>auto simp: inj_def\<close>)

text \<open>Connecting to a capability binds every provider of it, each once and in the order of the
  bindings, or fails when one of them cannot be used; providers of other capabilities play no part.\<close>

theorem every_provider_bound:
  "case endpoint_many_from_dependencies typed_describe typed_handle bindings of
     Inr clients \<Rightarrow> map fst clients =
       map bnd_provider_instance (filter (\<lambda>b. bnd_capability_id b = ENDPOINT_CAPABILITY_ID) bindings)
   | Inl failure \<Rightarrow> \<exists>b \<in> set bindings. bnd_capability_id b = ENDPOINT_CAPABILITY_ID \<and>
       (bnd_handle b = None \<and> failure = Unavailable ENDPOINT_CAPABILITY_ID \<or>
        (\<exists>k. bnd_handle b = Some k \<and> (typed_describe k = Inl failure \<or> typed_handle k = Inl failure)))"
proof (cases "endpoint_many_from_dependencies typed_describe typed_handle bindings")
  case (Inl failure)
  from traverse_Inl_mem [OF this [unfolded endpoint_many_from_dependencies_def]] Inl show ?thesis
    by (fastforce simp: result_simps)
next
  case (Inr clients)
  from Inr [unfolded endpoint_many_from_dependencies_def traverse_Inr_iff] have
    "list_all2 (\<lambda>b c. fst c = bnd_provider_instance b) (filter (\<lambda>b. bnd_capability_id b = ENDPOINT_CAPABILITY_ID) bindings) clients"
    by (rule list_all2_mono) (auto simp: result_simps)
  then have "map fst clients = map bnd_provider_instance (filter (\<lambda>b. bnd_capability_id b = ENDPOINT_CAPABILITY_ID) bindings)"
    by (induction rule: list_all2_induct) auto
  with Inr show ?thesis by simp
qed

section \<open>Executions\<close>

abbreviation echo_provider :: "unit EndpointProvider" where
  "echo_provider \<equiv> \<lparr>pv_describe = (\<lambda>_. Inr (Inl InvalidConfiguration)),
     pv_handle = (\<lambda>_ r. lower_result (Inr \<lparr>hres_body = hr_body r, hres_headers = [], hres_status = 200\<rparr>))\<rparr>"

theorem handle_reaches_provider_witness:
  "\<forall>r. client_handle (handle_invoke_native None (erased_handle echo_provider)) () r =
     Inr \<lparr>hres_body = hr_body r, hres_headers = [], hres_status = 200\<rparr>"
proof
  fix r
  show "client_handle (handle_invoke_native None (erased_handle echo_provider)) () r =
      Inr \<lparr>hres_body = hr_body r, hres_headers = [], hres_status = 200\<rparr>"
    using handle_reaches_provider [of None echo_provider "()" r
        "\<lambda>_ r. Inr \<lparr>hres_body = hr_body r, hres_headers = [], hres_status = 200\<rparr>"] by simp
qed

abbreviation quota_error :: UnknownDomainError where
  "quota_error \<equiv> \<lparr>ude_code = ''quota'', ude_payload = Some (JBool True), ude_extra = [(''retry'', JNull)]\<rparr>"


theorem received_errors_are_stable_witness:
  "deserialize_send_error (\<lambda>_. []) (serialize_send_error (SendUnknown (bare_unknown ''later''))) =
     Inr (SendUnknown (bare_unknown ''later''))"
  by (rule received_errors_are_stable [of _ "JString ''later''"]) (simp_all add: deserialize_send_error_def)

end
