(* ===== verification/ContractPorts.thy ===== *)
theory ContractPorts
  imports ContractCodec
begin

text \<open>
  The ports of the four contracts, as their generated modules write them: what a plugin's method may
  return and how it is lowered, the lowering of a plugin, of a shared object holding one and of an
  object holding a provider, the operations and native endpoints a provider is published with,
  the streaming and WebSocket operations, and how a client is connected. The kernel's handles and
  dependencies are parameters; a plugin is the record of its methods, an object the result of its
  \<open>get\<close>. The calls of a client with and without an explicit context share their definition.
\<close>

section \<open>What a plugin's method returns\<close>

text \<open>A request method has one of four result types, a stream method one of three.\<close>

datatype ('d, 'v) plugin_result =
    PlainResult "'d + 'v"
  | NestedResult "RuntimeFailure + ('d + 'v)"
  | PluginErrorResult "'d InvocationError + 'v"
  | InvocationErrorResult "'d InvocationError + 'v"

datatype ('d, 's) stream_result =
    PlainStream "'d + 's"
  | PluginErrorStream "'d InvocationError + 's"
  | InvocationErrorStream "'d InvocationError + 's"

definition into_request_result :: "('d, 'v) plugin_result \<Rightarrow> RuntimeFailure + ('d + 'v)" where
  "into_request_result r =
     (case r of
        PlainResult r \<Rightarrow> Inr r
      | NestedResult r \<Rightarrow> r
      | PluginErrorResult r \<Rightarrow> lower_result r
      | InvocationErrorResult r \<Rightarrow> lower_result r)"

definition into_stream_result :: "('d, 's) stream_result \<Rightarrow> 'd InvocationError + 's" where
  "into_stream_result r =
     (case r of
        PlainStream r \<Rightarrow> map_err Domain r
      | PluginErrorStream r \<Rightarrow> (case r of
            Inr stream \<Rightarrow> Inr stream
          | Inl (Domain error) \<Rightarrow> Inl (Domain error)
          | Inl (RuntimeError error) \<Rightarrow> Inl (RuntimeError error))
      | InvocationErrorStream r \<Rightarrow> r)"

text \<open>The traits of the contracts.\<close>

definition describe_into_result :: "(DescribeError, DescribeResponse) plugin_result \<Rightarrow> RuntimeFailure + (DescribeError + DescribeResponse)" where
  "describe_into_result r = into_request_result r"

definition handle_into_result :: "(HandleError, HandleResponse) plugin_result \<Rightarrow> RuntimeFailure + (HandleError + HandleResponse)" where
  "handle_into_result r = into_request_result r"

definition send_into_result :: "(SendError, SendResponse) plugin_result \<Rightarrow> RuntimeFailure + (SendError + SendResponse)" where
  "send_into_result r = into_request_result r"

record DescribeStreamResponse =
  dsr_routes :: "StreamRoutesItem list"

record HandleStreamRequest =
  hsr_body :: bytes
  hsr_credential :: "RequestCredential option"
  hsr_headers :: "NameValue list"
  hsr_method :: string
  hsr_path :: string
  hsr_path_parameters :: "NameValue list"
  hsr_query :: "string option"
  hsr_request_id :: string
  hsr_route_id :: string

record DescribeWebsocketResponse =
  dwr_routes :: "WebsocketRoutesItem list"

definition describe_stream_into_result ::
  "(DescribeStreamError, DescribeStreamResponse) plugin_result \<Rightarrow> RuntimeFailure + (DescribeStreamError + DescribeStreamResponse)" where
  "describe_stream_into_result r = into_request_result r"

definition handle_stream_into_result :: "(StreamError, 's) stream_result \<Rightarrow> StreamError InvocationError + 's" where
  "handle_stream_into_result r = into_stream_result r"

definition describe_websocket_into_result ::
  "(DescribeWebsocketError, DescribeWebsocketResponse) plugin_result \<Rightarrow>
   RuntimeFailure + (DescribeWebsocketError + DescribeWebsocketResponse)" where
  "describe_websocket_into_result r = into_request_result r"

definition connect_websocket_into_result :: "(ConnectWebsocketError, 's) stream_result \<Rightarrow> ConnectWebsocketError InvocationError + 's" where
  "connect_websocket_into_result r = into_stream_result r"

section \<open>Lowering a plugin\<close>

record 'ctx EndpointPlugin =
  epl_describe :: "'ctx \<Rightarrow> (DescribeError, DescribeResponse) plugin_result"
  epl_handle :: "'ctx \<Rightarrow> HandleRequest \<Rightarrow> (HandleError, HandleResponse) plugin_result"

definition lower_endpoint :: "'ctx EndpointPlugin \<Rightarrow> 'ctx EndpointProvider" where
  "lower_endpoint plugin =
     \<lparr>pv_describe = (\<lambda>ctx. describe_into_result (epl_describe plugin ctx)),
      pv_handle = (\<lambda>ctx request. handle_into_result (epl_handle plugin ctx request))\<rparr>"

definition lower_object_endpoint :: "RuntimeFailure + 'ctx EndpointPlugin \<Rightarrow> 'ctx EndpointProvider" where
  "lower_object_endpoint object =
     \<lparr>pv_describe = (\<lambda>ctx. try_in object (\<lambda>plugin. describe_into_result (epl_describe plugin ctx))),
      pv_handle = (\<lambda>ctx request. try_in object (\<lambda>plugin. handle_into_result (epl_handle plugin ctx request)))\<rparr>"

definition lower_trait_object_endpoint :: "RuntimeFailure + 'ctx EndpointProvider \<Rightarrow> 'ctx EndpointProvider" where
  "lower_trait_object_endpoint object =
     \<lparr>pv_describe = (\<lambda>ctx. try_in object (\<lambda>p. pv_describe p ctx)),
      pv_handle = (\<lambda>ctx request. try_in object (\<lambda>p. pv_handle p ctx request))\<rparr>"

type_synonym 'ctx ClientProvider = "'ctx \<Rightarrow> SendRequest \<Rightarrow> RuntimeFailure + (SendError + SendResponse)"

definition lower_client :: "('ctx \<Rightarrow> SendRequest \<Rightarrow> (SendError, SendResponse) plugin_result) \<Rightarrow> 'ctx ClientProvider" where
  "lower_client plugin_send ctx request = send_into_result (plugin_send ctx request)"

definition lower_object_client ::
  "RuntimeFailure + ('ctx \<Rightarrow> SendRequest \<Rightarrow> (SendError, SendResponse) plugin_result) \<Rightarrow> 'ctx ClientProvider" where
  "lower_object_client object ctx request = try_in object (\<lambda>plugin_send. send_into_result (plugin_send ctx request))"

definition lower_trait_object_client :: "RuntimeFailure + 'ctx ClientProvider \<Rightarrow> 'ctx ClientProvider" where
  "lower_trait_object_client object ctx request = try_in object (\<lambda>provider_send. provider_send ctx request)"

record ('ctx, 's) StreamEndpointProvider =
  sev_describe_stream :: "'ctx \<Rightarrow> RuntimeFailure + (DescribeStreamError + DescribeStreamResponse)"
  sev_handle_stream :: "'ctx \<Rightarrow> HandleStreamRequest \<Rightarrow> StreamError InvocationError + 's"

record ('ctx, 's) StreamPlugin =
  spl_describe_stream :: "'ctx \<Rightarrow> (DescribeStreamError, DescribeStreamResponse) plugin_result"
  spl_handle_stream :: "'ctx \<Rightarrow> HandleStreamRequest \<Rightarrow> (StreamError, 's) stream_result"

definition lower_stream_endpoint :: "('ctx, 's) StreamPlugin \<Rightarrow> ('ctx, 's) StreamEndpointProvider" where
  "lower_stream_endpoint plugin =
     \<lparr>sev_describe_stream = (\<lambda>ctx. describe_stream_into_result (spl_describe_stream plugin ctx)),
      sev_handle_stream = (\<lambda>ctx request. handle_stream_into_result (spl_handle_stream plugin ctx request))\<rparr>"

definition lower_object_stream_endpoint :: "RuntimeFailure + ('ctx, 's) StreamPlugin \<Rightarrow> ('ctx, 's) StreamEndpointProvider" where
  "lower_object_stream_endpoint object =
     \<lparr>sev_describe_stream = (\<lambda>ctx. try_in object (\<lambda>plugin. describe_stream_into_result (spl_describe_stream plugin ctx))),
      sev_handle_stream = (\<lambda>ctx request. try_in (map_err RuntimeError object) (\<lambda>plugin.
        handle_stream_into_result (spl_handle_stream plugin ctx request)))\<rparr>"

definition lower_trait_object_stream_endpoint ::
  "RuntimeFailure + ('ctx, 's) StreamEndpointProvider \<Rightarrow> ('ctx, 's) StreamEndpointProvider" where
  "lower_trait_object_stream_endpoint object =
     \<lparr>sev_describe_stream = (\<lambda>ctx. try_in object (\<lambda>p. sev_describe_stream p ctx)),
      sev_handle_stream = (\<lambda>ctx request. try_in (map_err RuntimeError object) (\<lambda>p. sev_handle_stream p ctx request))\<rparr>"

record ('ctx, 's) WebsocketProvider =
  wev_connect_websocket :: "'ctx \<Rightarrow> ConnectWebsocketRequest \<Rightarrow> ConnectWebsocketError InvocationError + 's"
  wev_describe_websocket :: "'ctx \<Rightarrow> RuntimeFailure + (DescribeWebsocketError + DescribeWebsocketResponse)"

record ('ctx, 's) WebsocketPlugin =
  wpl_connect_websocket :: "'ctx \<Rightarrow> ConnectWebsocketRequest \<Rightarrow> (ConnectWebsocketError, 's) stream_result"
  wpl_describe_websocket :: "'ctx \<Rightarrow> (DescribeWebsocketError, DescribeWebsocketResponse) plugin_result"

definition lower_websocket :: "('ctx, 's) WebsocketPlugin \<Rightarrow> ('ctx, 's) WebsocketProvider" where
  "lower_websocket plugin =
     \<lparr>wev_connect_websocket = (\<lambda>ctx request. connect_websocket_into_result (wpl_connect_websocket plugin ctx request)),
      wev_describe_websocket = (\<lambda>ctx. describe_websocket_into_result (wpl_describe_websocket plugin ctx))\<rparr>"

definition lower_object_websocket :: "RuntimeFailure + ('ctx, 's) WebsocketPlugin \<Rightarrow> ('ctx, 's) WebsocketProvider" where
  "lower_object_websocket object =
     \<lparr>wev_connect_websocket = (\<lambda>ctx request. try_in (map_err RuntimeError object) (\<lambda>plugin.
        connect_websocket_into_result (wpl_connect_websocket plugin ctx request))),
      wev_describe_websocket = (\<lambda>ctx. try_in object (\<lambda>plugin. describe_websocket_into_result (wpl_describe_websocket plugin ctx)))\<rparr>"

definition lower_trait_object_websocket :: "RuntimeFailure + ('ctx, 's) WebsocketProvider \<Rightarrow> ('ctx, 's) WebsocketProvider" where
  "lower_trait_object_websocket object =
     \<lparr>wev_connect_websocket = (\<lambda>ctx request. try_in (map_err RuntimeError object) (\<lambda>p. wev_connect_websocket p ctx request)),
      wev_describe_websocket = (\<lambda>ctx. try_in object (\<lambda>p. wev_describe_websocket p ctx))\<rparr>"

section \<open>Invoking and opening\<close>

text \<open>A boxed value at a port: the request, error or response of the operation, or a value of another type.\<close>

datatype ('r, 'e, 'v) port_any = PortRequest 'r | PortError 'e | PortResponse 'v | PortForeign nat

text \<open>The operations a provider is published with.\<close>

definition endpoint_operations :: "string list" where "endpoint_operations = [''describe'', ''handle'']"
definition client_operations :: "string list" where "client_operations = [''send'']"
definition stream_request_operations :: "string list" where "stream_request_operations = [''describe_stream'']"
definition stream_stream_operations :: "string list" where "stream_stream_operations = [''handle_stream'']"
definition websocket_request_operations :: "string list" where "websocket_request_operations = [''describe_websocket'']"
definition websocket_stream_operations :: "string list" where "websocket_stream_operations = [''connect_websocket'']"

definition stream_invoke ::
  "('ctx, 's) StreamEndpointProvider \<Rightarrow> string \<Rightarrow> (unit, DescribeStreamError, DescribeStreamResponse) port_any \<Rightarrow> 'ctx \<Rightarrow>
   RuntimeFailure + ((unit, DescribeStreamError, DescribeStreamResponse) port_any +
     (unit, DescribeStreamError, DescribeStreamResponse) port_any)" where
  "stream_invoke p operation request ctx =
     (if operation = ''describe_stream'' then
        (case request of
           PortRequest _ \<Rightarrow> try_in (sev_describe_stream p ctx) (\<lambda>r. Inr (map_sum PortError PortResponse r))
         | _ \<Rightarrow> Inl (ProtocolViolation STREAM_CAPABILITY_ID))
      else Inl (UnknownOperation STREAM_CAPABILITY_ID operation))"

definition stream_open ::
  "('ctx, 's) StreamEndpointProvider \<Rightarrow> string \<Rightarrow> (HandleStreamRequest, StreamError, unit) port_any \<Rightarrow> 'ctx \<Rightarrow>
   RuntimeFailure + ((HandleStreamRequest, StreamError, unit) port_any + 's)" where
  "stream_open p operation request ctx =
     (if operation = ''handle_stream'' then
        (case request of
           PortRequest r \<Rightarrow>
             (case sev_handle_stream p ctx r of
                Inr session \<Rightarrow> Inr (Inr session)
              | Inl (Domain error) \<Rightarrow> Inr (Inl (PortError error))
              | Inl (RuntimeError error) \<Rightarrow> Inl error)
         | _ \<Rightarrow> Inl (ProtocolViolation STREAM_CAPABILITY_ID))
      else Inl (UnknownOperation STREAM_CAPABILITY_ID operation))"

definition websocket_invoke ::
  "('ctx, 's) WebsocketProvider \<Rightarrow> string \<Rightarrow> (unit, DescribeWebsocketError, DescribeWebsocketResponse) port_any \<Rightarrow> 'ctx \<Rightarrow>
   RuntimeFailure + ((unit, DescribeWebsocketError, DescribeWebsocketResponse) port_any +
     (unit, DescribeWebsocketError, DescribeWebsocketResponse) port_any)" where
  "websocket_invoke p operation request ctx =
     (if operation = ''describe_websocket'' then
        (case request of
           PortRequest _ \<Rightarrow> try_in (wev_describe_websocket p ctx) (\<lambda>r. Inr (map_sum PortError PortResponse r))
         | _ \<Rightarrow> Inl (ProtocolViolation WEBSOCKET_CAPABILITY_ID))
      else Inl (UnknownOperation WEBSOCKET_CAPABILITY_ID operation))"

text \<open>The typed shortcut, when the endpoint reveals its provider.\<close>

definition describe_stream_invoke_native ::
  "('ctx, 's) StreamEndpointProvider option \<Rightarrow>
   (string \<Rightarrow> 'ctx \<Rightarrow> RuntimeFailure + (DescribeStreamError + DescribeStreamResponse)) \<Rightarrow>
   string \<Rightarrow> 'ctx \<Rightarrow> RuntimeFailure + (DescribeStreamError + DescribeStreamResponse)" where
  "describe_stream_invoke_native typed erased operation ctx =
     (if operation \<noteq> ''describe_stream'' then erased operation ctx
      else (case typed of None \<Rightarrow> erased operation ctx | Some p \<Rightarrow> sev_describe_stream p ctx))"

definition describe_websocket_invoke_native ::
  "('ctx, 's) WebsocketProvider option \<Rightarrow>
   (string \<Rightarrow> 'ctx \<Rightarrow> RuntimeFailure + (DescribeWebsocketError + DescribeWebsocketResponse)) \<Rightarrow>
   string \<Rightarrow> 'ctx \<Rightarrow> RuntimeFailure + (DescribeWebsocketError + DescribeWebsocketResponse)" where
  "describe_websocket_invoke_native typed erased operation ctx =
     (if operation \<noteq> ''describe_websocket'' then erased operation ctx
      else (case typed of None \<Rightarrow> erased operation ctx | Some p \<Rightarrow> wev_describe_websocket p ctx))"

definition client_describe_stream ::
  "(string \<Rightarrow> 'ctx \<Rightarrow> RuntimeFailure + (DescribeStreamError + DescribeStreamResponse)) \<Rightarrow> 'ctx \<Rightarrow>
   DescribeStreamError InvocationError + DescribeStreamResponse" where
  "client_describe_stream invoke ctx = client_result (invoke ''describe_stream'' ctx)"

definition client_handle_stream ::
  "(string \<Rightarrow> HandleStreamRequest \<Rightarrow> 'ctx \<Rightarrow> RuntimeFailure + (StreamError + 's)) \<Rightarrow> 'ctx \<Rightarrow> HandleStreamRequest \<Rightarrow>
   StreamError InvocationError + 's" where
  "client_handle_stream open_stream ctx request = client_result (open_stream ''handle_stream'' request ctx)"

definition client_describe_websocket ::
  "(string \<Rightarrow> 'ctx \<Rightarrow> RuntimeFailure + (DescribeWebsocketError + DescribeWebsocketResponse)) \<Rightarrow> 'ctx \<Rightarrow>
   DescribeWebsocketError InvocationError + DescribeWebsocketResponse" where
  "client_describe_websocket invoke ctx = client_result (invoke ''describe_websocket'' ctx)"

text \<open>The endpoints a provider is published with: for requests, for streams and for events.\<close>

definition endpoint_native_endpoints :: "'e \<Rightarrow> 'e list \<times> 'e list \<times> 'e list" where
  "endpoint_native_endpoints endpoint = ([endpoint], [], [])"

definition client_native_endpoints :: "'e \<Rightarrow> 'e list \<times> 'e list \<times> 'e list" where
  "client_native_endpoints endpoint = ([endpoint], [], [])"

definition stream_native_endpoints :: "'e \<Rightarrow> 'e list \<times> 'e list \<times> 'e list" where
  "stream_native_endpoints endpoint = ([endpoint], [endpoint], [])"

definition websocket_native_endpoints :: "'e \<Rightarrow> 'e list \<times> 'e list \<times> 'e list" where
  "websocket_native_endpoints endpoint = ([endpoint], [endpoint], [])"

text \<open>The instance the kernel is handed: its endpoints with the lifecycle of the plugin.\<close>

definition endpoint_native_provide :: "('e list \<Rightarrow> 'e list \<Rightarrow> 'e list \<Rightarrow> 'l \<Rightarrow> 'i) \<Rightarrow> 'e \<Rightarrow> 'l \<Rightarrow> 'i" where
  "endpoint_native_provide with_all_endpoints endpoint lifecycle =
     (case endpoint_native_endpoints endpoint of (requests, streams, events) \<Rightarrow> with_all_endpoints requests streams events lifecycle)"

definition client_native_provide :: "('e list \<Rightarrow> 'e list \<Rightarrow> 'e list \<Rightarrow> 'l \<Rightarrow> 'i) \<Rightarrow> 'e \<Rightarrow> 'l \<Rightarrow> 'i" where
  "client_native_provide with_all_endpoints endpoint lifecycle =
     (case client_native_endpoints endpoint of (requests, streams, events) \<Rightarrow> with_all_endpoints requests streams events lifecycle)"

definition stream_native_provide :: "('e list \<Rightarrow> 'e list \<Rightarrow> 'e list \<Rightarrow> 'l \<Rightarrow> 'i) \<Rightarrow> 'e \<Rightarrow> 'l \<Rightarrow> 'i" where
  "stream_native_provide with_all_endpoints endpoint lifecycle =
     (case stream_native_endpoints endpoint of (requests, streams, events) \<Rightarrow> with_all_endpoints requests streams events lifecycle)"

definition websocket_native_provide :: "('e list \<Rightarrow> 'e list \<Rightarrow> 'e list \<Rightarrow> 'l \<Rightarrow> 'i) \<Rightarrow> 'e \<Rightarrow> 'l \<Rightarrow> 'i" where
  "websocket_native_provide with_all_endpoints endpoint lifecycle =
     (case websocket_native_endpoints endpoint of (requests, streams, events) \<Rightarrow> with_all_endpoints requests streams events lifecycle)"

section \<open>Connecting\<close>

text \<open>
  The dependencies of a plugin are the kernel's: the handle of the one provider of an operation, and
  the dependencies of one named requirement.
\<close>

definition endpoint_from_dependencies ::
  "('dep \<Rightarrow> RuntimeFailure + 'a) \<Rightarrow> ('dep \<Rightarrow> RuntimeFailure + 'b) \<Rightarrow> 'dep \<Rightarrow> RuntimeFailure + 'a \<times> 'b" where
  "endpoint_from_dependencies one_describe one_handle dependencies =
     try_in (one_describe dependencies) (\<lambda>describe. try_in (one_handle dependencies) (\<lambda>handle. Inr (describe, handle)))"

definition endpoint_from_requirement ::
  "('dep \<Rightarrow> string \<Rightarrow> RuntimeFailure + 'dep) \<Rightarrow> ('dep \<Rightarrow> RuntimeFailure + 'a) \<Rightarrow> ('dep \<Rightarrow> RuntimeFailure + 'b) \<Rightarrow>
   'dep \<Rightarrow> string \<Rightarrow> RuntimeFailure + 'a \<times> 'b" where
  "endpoint_from_requirement requirement one_describe one_handle dependencies requirement_id =
     try_in (requirement dependencies requirement_id) (endpoint_from_dependencies one_describe one_handle)"

definition stream_from_dependencies ::
  "('dep \<Rightarrow> RuntimeFailure + 'a) \<Rightarrow> ('dep \<Rightarrow> RuntimeFailure + 'b) \<Rightarrow> 'dep \<Rightarrow> RuntimeFailure + 'a \<times> 'b" where
  "stream_from_dependencies one_describe_stream one_stream_handle dependencies =
     try_in (one_describe_stream dependencies) (\<lambda>describe. try_in (one_stream_handle dependencies) (\<lambda>handle. Inr (describe, handle)))"

definition stream_from_requirement ::
  "('dep \<Rightarrow> string \<Rightarrow> RuntimeFailure + 'dep) \<Rightarrow> ('dep \<Rightarrow> RuntimeFailure + 'a) \<Rightarrow> ('dep \<Rightarrow> RuntimeFailure + 'b) \<Rightarrow>
   'dep \<Rightarrow> string \<Rightarrow> RuntimeFailure + 'a \<times> 'b" where
  "stream_from_requirement requirement one_describe_stream one_stream_handle dependencies requirement_id =
     try_in (requirement dependencies requirement_id) (stream_from_dependencies one_describe_stream one_stream_handle)"

definition websocket_from_dependencies ::
  "('dep \<Rightarrow> RuntimeFailure + 'a) \<Rightarrow> ('dep \<Rightarrow> RuntimeFailure + 'b) \<Rightarrow> 'dep \<Rightarrow> RuntimeFailure + 'a \<times> 'b" where
  "websocket_from_dependencies one_stream_connect one_describe dependencies =
     try_in (one_stream_connect dependencies) (\<lambda>connect. try_in (one_describe dependencies) (\<lambda>describe. Inr (connect, describe)))"

definition websocket_from_requirement ::
  "('dep \<Rightarrow> string \<Rightarrow> RuntimeFailure + 'dep) \<Rightarrow> ('dep \<Rightarrow> RuntimeFailure + 'a) \<Rightarrow> ('dep \<Rightarrow> RuntimeFailure + 'b) \<Rightarrow>
   'dep \<Rightarrow> string \<Rightarrow> RuntimeFailure + 'a \<times> 'b" where
  "websocket_from_requirement requirement one_stream_connect one_describe dependencies requirement_id =
     try_in (requirement dependencies requirement_id) (websocket_from_dependencies one_stream_connect one_describe)"

definition client_from_dependencies :: "('dep \<Rightarrow> RuntimeFailure + 'a) \<Rightarrow> 'dep \<Rightarrow> RuntimeFailure + 'a" where
  "client_from_dependencies one_send dependencies = try_in (one_send dependencies) Inr"

definition client_from_requirement ::
  "('dep \<Rightarrow> string \<Rightarrow> RuntimeFailure + 'dep) \<Rightarrow> ('dep \<Rightarrow> RuntimeFailure + 'a) \<Rightarrow> 'dep \<Rightarrow> string \<Rightarrow> RuntimeFailure + 'a" where
  "client_from_requirement requirement one_send dependencies requirement_id =
     try_in (requirement dependencies requirement_id) (client_from_dependencies one_send)"

definition client_many_from_dependencies ::
  "('k \<Rightarrow> RuntimeFailure + 'a) \<Rightarrow> ('k, 'j) capability_binding list \<Rightarrow> RuntimeFailure + (string \<times> 'a) list" where
  "client_many_from_dependencies typed_send bindings =
     traverse (\<lambda>b.
         try_in (ok_or (bnd_handle b) (Unavailable CLIENT_CAPABILITY_ID)) (\<lambda>k.
         try_in (typed_send k) (\<lambda>send. Inr (bnd_provider_instance b, send))))
       (filter (\<lambda>b. bnd_capability_id b = CLIENT_CAPABILITY_ID) bindings)"

text \<open>All providers of one named requirement.\<close>

definition endpoint_many_from_requirement where
  "endpoint_many_from_requirement requirement typed_describe typed_handle dependencies requirement_id =
     try_in (requirement dependencies requirement_id) (endpoint_many_from_dependencies typed_describe typed_handle)"

definition stream_many_from_requirement where
  "stream_many_from_requirement requirement typed_describe typed_handle dependencies requirement_id =
     try_in (requirement dependencies requirement_id) (stream_many_from_dependencies typed_describe typed_handle)"

definition websocket_many_from_requirement where
  "websocket_many_from_requirement requirement typed_connect typed_describe dependencies requirement_id =
     try_in (requirement dependencies requirement_id) (websocket_many_from_dependencies typed_connect typed_describe)"

definition client_many_from_requirement where
  "client_many_from_requirement requirement typed_send dependencies requirement_id =
     try_in (requirement dependencies requirement_id) (client_many_from_dependencies typed_send)"

definition already_connected_text :: "string \<Rightarrow> RuntimeFailure" where
  "already_connected_text capability =
     PluginFailure (''Capability Port '' @ capability @ '' was connected more than once'')"

definition endpoint_already_connected :: RuntimeFailure where
  "endpoint_already_connected = already_connected_text ENDPOINT_CAPABILITY_ID"

definition stream_already_connected :: RuntimeFailure where
  "stream_already_connected = already_connected_text STREAM_CAPABILITY_ID"

definition websocket_already_connected :: RuntimeFailure where
  "websocket_already_connected = already_connected_text WEBSOCKET_CAPABILITY_ID"

definition client_already_connected :: RuntimeFailure where
  "client_already_connected = already_connected_text CLIENT_CAPABILITY_ID"

section \<open>The contract of a request port\<close>

text \<open>
  What a client of any of the contracts relies on: the native invocation calls the provider it is
  shown, and otherwise the kernel's erased invocation, which boxes the request, invokes the endpoint
  by operation name and unboxes the result.
\<close>

locale request_port =
  fixes native :: "'p option \<Rightarrow> (string \<Rightarrow> 'r \<Rightarrow> 'ctx \<Rightarrow> RuntimeFailure + ('e + 'v)) \<Rightarrow> string \<Rightarrow> 'r \<Rightarrow> 'ctx \<Rightarrow> RuntimeFailure + ('e + 'v)"
    and erased :: "'p \<Rightarrow> string \<Rightarrow> 'r \<Rightarrow> 'ctx \<Rightarrow> RuntimeFailure + ('e + 'v)"
    and run :: "'p \<Rightarrow> 'ctx \<Rightarrow> 'r \<Rightarrow> RuntimeFailure + ('e + 'v)"
    and operation :: string
    and published :: "string list"
    and capability :: string
  assumes native_typed: "native (Some p) e operation r c = run p c r"
    and native_erased: "native None e operation r c = e operation r c"
    and native_other: "other \<noteq> operation \<Longrightarrow> native typed e other r c = e other r c"
    and erased_own: "erased p operation r c = run p c r"
    and erased_unknown: "other \<notin> set published \<Longrightarrow> erased p other r c = Inl (UnknownOperation capability other)"
    and own_published: "operation \<in> set published"
begin

lemma call_returns: "typed = None \<or> typed = Some p \<Longrightarrow> client_result (native typed (erased p) operation r c) = client_result (run p c r)"
  by (auto simp: native_typed native_erased erased_own)

lemma unknown_refused: "other \<notin> set published \<Longrightarrow> native typed (erased p) other r c = Inl (UnknownOperation capability other)"
  using native_other [of other] erased_unknown own_published by metis

end

text \<open>The erased invocations of the kernel.\<close>

definition erased_describe :: "'ctx EndpointProvider \<Rightarrow> string \<Rightarrow> 'ctx \<Rightarrow> RuntimeFailure + (DescribeError + DescribeResponse)" where
  "erased_describe p operation ctx =
     try_in (endpoint_invoke p operation AnyDescribeRequest ctx) (\<lambda>r.
       case r of
         Inr (AnyDescribeResponse v) \<Rightarrow> Inr (Inr v)
       | Inl (AnyDescribeError e) \<Rightarrow> Inr (Inl e)
       | _ \<Rightarrow> Inl (ProtocolViolation ENDPOINT_CAPABILITY_ID))"

definition erased_send :: "'ctx ClientProvider \<Rightarrow> string \<Rightarrow> SendRequest \<Rightarrow> 'ctx \<Rightarrow> RuntimeFailure + (SendError + SendResponse)" where
  "erased_send p operation request ctx =
     try_in (client_invoke p operation (AnySendRequest request) ctx) (\<lambda>r.
       case r of
         Inr (AnySendResponse v) \<Rightarrow> Inr (Inr v)
       | Inl (AnySendError e) \<Rightarrow> Inr (Inl e)
       | _ \<Rightarrow> Inl (ProtocolViolation CLIENT_CAPABILITY_ID))"

definition unboxed :: "string \<Rightarrow> RuntimeFailure + (('r, 'e, 'v) port_any + ('r, 'e, 'v) port_any) \<Rightarrow> RuntimeFailure + ('e + 'v)" where
  "unboxed capability result =
     try_in result (\<lambda>r.
       case r of
         Inr (PortResponse v) \<Rightarrow> Inr (Inr v)
       | Inl (PortError e) \<Rightarrow> Inr (Inl e)
       | _ \<Rightarrow> Inl (ProtocolViolation capability))"

lemma unboxed_boxed: "unboxed capability (try_in r (\<lambda>r. Inr (map_sum PortError PortResponse r))) = r"
proof (cases r)
  case (Inr x)
  then show ?thesis by (cases x) (simp_all add: unboxed_def)
qed (simp add: unboxed_def)

lemma erased_boxed:
  "erased_describe p ''describe'' ctx = pv_describe p ctx"
  "erased_send s ''send'' request ctx = s ctx request"
proof -
  show "erased_describe p ''describe'' ctx = pv_describe p ctx"
  proof (cases "pv_describe p ctx")
    case (Inr x)
    then show ?thesis by (cases x) (simp_all add: erased_describe_def endpoint_invoke_def boxed_def)
  qed (simp add: erased_describe_def endpoint_invoke_def boxed_def)
  show "erased_send s ''send'' request ctx = s ctx request"
  proof (cases "s ctx request")
    case (Inr x)
    then show ?thesis by (cases x) (simp_all add: erased_send_def client_invoke_def boxed_def)
  qed (simp add: erased_send_def client_invoke_def boxed_def)
qed

lemma erased_refuses:
  "other \<notin> set endpoint_operations \<Longrightarrow> erased_describe p other ctx = Inl (UnknownOperation ENDPOINT_CAPABILITY_ID other)"
  "other \<notin> set endpoint_operations \<Longrightarrow> erased_handle p other r ctx = Inl (UnknownOperation ENDPOINT_CAPABILITY_ID other)"
  "other \<notin> set client_operations \<Longrightarrow> erased_send s other q ctx = Inl (UnknownOperation CLIENT_CAPABILITY_ID other)"
  by (simp_all add: endpoint_operations_def client_operations_def erased_describe_def erased_handle_def erased_send_def
      endpoint_invoke_def client_invoke_def)

lemma unboxed_invocations:
  "unboxed STREAM_CAPABILITY_ID (stream_invoke p ''describe_stream'' (PortRequest ()) ctx) = sev_describe_stream p ctx"
  "other \<notin> set stream_request_operations \<Longrightarrow>
     unboxed STREAM_CAPABILITY_ID (stream_invoke p other request ctx) = Inl (UnknownOperation STREAM_CAPABILITY_ID other)"
  "unboxed WEBSOCKET_CAPABILITY_ID (websocket_invoke w ''describe_websocket'' (PortRequest ()) ctx) = wev_describe_websocket w ctx"
  "other \<notin> set websocket_request_operations \<Longrightarrow>
     unboxed WEBSOCKET_CAPABILITY_ID (websocket_invoke w other request' ctx) = Inl (UnknownOperation WEBSOCKET_CAPABILITY_ID other)"
  by (simp_all add: stream_invoke_def websocket_invoke_def unboxed_boxed stream_request_operations_def websocket_request_operations_def
      unboxed_def [of _ "Inl _"])

lemmas invoke_native_defs =
  handle_invoke_native_def describe_invoke_native_def client_send_native_def
  describe_stream_invoke_native_def describe_websocket_invoke_native_def

interpretation handle_port: request_port handle_invoke_native erased_handle pv_handle "''handle''" endpoint_operations ENDPOINT_CAPABILITY_ID
  by unfold_locales (simp_all add: invoke_native_defs erased_handle_handle erased_refuses, simp add: endpoint_operations_def)

interpretation describe_port: request_port
  "\<lambda>typed erased operation (_ :: unit) ctx. describe_invoke_native typed (\<lambda>operation. erased operation ()) operation ctx"
  "\<lambda>p operation _. erased_describe p operation" "\<lambda>p ctx _. pv_describe p ctx" "''describe''" endpoint_operations ENDPOINT_CAPABILITY_ID
  by unfold_locales (simp_all add: invoke_native_defs erased_boxed erased_refuses, simp add: endpoint_operations_def)

interpretation send_port: request_port client_send_native erased_send "\<lambda>p. p" "''send''" client_operations CLIENT_CAPABILITY_ID
  by unfold_locales (simp_all add: invoke_native_defs erased_boxed erased_refuses, simp add: client_operations_def)

interpretation describe_stream_port: request_port
  "\<lambda>typed erased operation (_ :: unit) ctx. describe_stream_invoke_native typed (\<lambda>operation. erased operation ()) operation ctx"
  "\<lambda>p operation _ ctx. unboxed STREAM_CAPABILITY_ID (stream_invoke p operation (PortRequest ()) ctx)"
  "\<lambda>p ctx _. sev_describe_stream p ctx" "''describe_stream''" stream_request_operations STREAM_CAPABILITY_ID
  by unfold_locales (simp_all add: invoke_native_defs unboxed_invocations, simp add: stream_request_operations_def)

interpretation describe_websocket_port: request_port
  "\<lambda>typed erased operation (_ :: unit) ctx. describe_websocket_invoke_native typed (\<lambda>operation. erased operation ()) operation ctx"
  "\<lambda>p operation _ ctx. unboxed WEBSOCKET_CAPABILITY_ID (websocket_invoke p operation (PortRequest ()) ctx)"
  "\<lambda>p ctx _. wev_describe_websocket p ctx" "''describe_websocket''" websocket_request_operations WEBSOCKET_CAPABILITY_ID
  by unfold_locales (simp_all add: invoke_native_defs unboxed_invocations, simp add: websocket_request_operations_def)


section \<open>The contract of a stream port\<close>

text \<open>A stream has no typed shortcut: the kernel boxes the request and unboxes a domain error.\<close>

locale stream_port =
  fixes erased :: "'p \<Rightarrow> string \<Rightarrow> 'r \<Rightarrow> 'ctx \<Rightarrow> RuntimeFailure + ('e + 's)"
    and run :: "'p \<Rightarrow> 'ctx \<Rightarrow> 'r \<Rightarrow> 'e InvocationError + 's"
    and operation :: string
    and published :: "string list"
    and capability :: string
  assumes erased_own: "erased p operation r c = lower_result (run p c r)"
    and erased_unknown: "other \<notin> set published \<Longrightarrow> erased p other r c = Inl (UnknownOperation capability other)"
begin

lemma open_returns: "client_result (erased p operation r c) = run p c r"
  by (simp add: erased_own)

end

definition erased_handle_stream ::
  "('ctx, 's) StreamEndpointProvider \<Rightarrow> string \<Rightarrow> HandleStreamRequest \<Rightarrow> 'ctx \<Rightarrow> RuntimeFailure + (StreamError + 's)" where
  "erased_handle_stream p operation request ctx =
     try_in (stream_open p operation (PortRequest request) ctx) (\<lambda>r.
       case r of
         Inr session \<Rightarrow> Inr (Inr session)
       | Inl (PortError e) \<Rightarrow> Inr (Inl e)
       | _ \<Rightarrow> Inl (ProtocolViolation STREAM_CAPABILITY_ID))"

definition erased_connect_websocket ::
  "('ctx, 's) WebsocketProvider \<Rightarrow> string \<Rightarrow> ConnectWebsocketRequest \<Rightarrow> 'ctx \<Rightarrow> RuntimeFailure + (ConnectWebsocketError + 's)" where
  "erased_connect_websocket p operation request ctx =
     try_in (websocket_open (wev_connect_websocket p) operation (AnyConnectWebsocketRequest request) ctx) (\<lambda>r.
       case r of
         Inr session \<Rightarrow> Inr (Inr session)
       | Inl (AnyConnectWebsocketError e) \<Rightarrow> Inr (Inl e)
       | _ \<Rightarrow> Inl (ProtocolViolation WEBSOCKET_CAPABILITY_ID))"

interpretation handle_stream_port: stream_port
  erased_handle_stream sev_handle_stream "''handle_stream''" stream_stream_operations STREAM_CAPABILITY_ID
  by unfold_locales
    (auto simp: erased_handle_stream_def stream_open_def lower_result_def stream_stream_operations_def
      split: sum.splits InvocationError.splits)

interpretation connect_websocket_port: stream_port
  erased_connect_websocket wev_connect_websocket "''connect_websocket''" websocket_stream_operations WEBSOCKET_CAPABILITY_ID
  by unfold_locales
    (auto simp: erased_connect_websocket_def websocket_open_def lower_result_def websocket_stream_operations_def
      split: sum.splits InvocationError.splits)

section \<open>What reaches a client\<close>

text \<open>
  The outcome an author means: an error of the domain, a failure of the runtime or a value. The first
  of the stream results is the request result without a runtime failure.
\<close>

definition returned :: "('d, 'v) plugin_result \<Rightarrow> 'd InvocationError + 'v" where
  "returned r =
     (case r of
        PlainResult r \<Rightarrow> map_err Domain r
      | NestedResult (Inl failure) \<Rightarrow> Inl (RuntimeError failure)
      | NestedResult (Inr r) \<Rightarrow> map_err Domain r
      | PluginErrorResult r \<Rightarrow> r
      | InvocationErrorResult r \<Rightarrow> r)"

definition opened :: "('d, 's) stream_result \<Rightarrow> 'd InvocationError + 's" where
  "opened r =
     (case r of
        PlainStream r \<Rightarrow> map_err Domain r
      | PluginErrorStream r \<Rightarrow> r
      | InvocationErrorStream r \<Rightarrow> r)"

definition object_outcome :: "RuntimeFailure + 'p \<Rightarrow> ('p \<Rightarrow> 'd InvocationError + 'v) \<Rightarrow> 'd InvocationError + 'v" where
  "object_outcome object outcome = (case object of Inl failure \<Rightarrow> Inl (RuntimeError failure) | Inr plugin \<Rightarrow> outcome plugin)"

lemma client_into_request_result: "client_result (into_request_result r) = returned r"
  by (auto simp: into_request_result_def returned_def client_result_def lower_result_def
      split: plugin_result.splits sum.splits InvocationError.splits)

lemma into_stream_result_opened: "into_stream_result r = opened r"
  by (auto simp: into_stream_result_def opened_def split: stream_result.splits sum.splits InvocationError.splits)

lemma client_object_request:
  "client_result (try_in object (\<lambda>plugin. into_request_result (f plugin))) = object_outcome object (\<lambda>plugin. returned (f plugin))"
  by (cases object) (simp_all add: object_outcome_def client_into_request_result, simp add: client_result_def)

lemma object_stream: "try_in (map_err RuntimeError object) (\<lambda>plugin. into_stream_result (f plugin)) = object_outcome object (\<lambda>plugin. opened (f plugin))"
  by (cases object) (simp_all add: object_outcome_def into_stream_result_opened)

lemmas into_result_defs =
  describe_into_result_def handle_into_result_def send_into_result_def describe_stream_into_result_def
  handle_stream_into_result_def describe_websocket_into_result_def connect_websocket_into_result_def

lemmas lower_object_defs =
  lower_object_endpoint_def lower_object_client_def lower_object_stream_endpoint_def lower_object_websocket_def

lemmas client_call_defs =
  client_describe_def client_handle_def client_send_def client_describe_stream_def client_handle_stream_def
  client_describe_websocket_def client_connect_websocket_def



end
