(* ===== verification/HostRun.thy ===== *)
theory HostRun
  imports WebHost ContractPorts
begin

text \<open>
  The running half of \<open>lenso-web-host/src/lib.rs\<close>: the builders of a replicated host, the catalog of
  one lane, \<open>start_replicated\<close>, the registry of a single-lane host, the running hosts and the loops that wait
  for Ctrl-C. The registry, the catalog of cross-lane transfers and the replicated runner belong to the kernel and are parameters.
\<close>

section \<open>The kernel's registries, transfers and runner\<close>

record ('f, 'reg, 'cat) registry_lib =
  rl_new :: 'reg
  rl_with_factory :: "'f \<Rightarrow> 'reg \<Rightarrow> 'reg"
  rl_with_linked_factories :: "'reg \<Rightarrow> 'reg"
  rl_single :: "'reg \<Rightarrow> 'cat"

record 'tr transfer_lib =
  tl_new :: 'tr
  tl_with_request :: "string \<Rightarrow> string list \<Rightarrow> 'tr \<Rightarrow> 'tr"
  tl_with_stream :: "string \<Rightarrow> string list \<Rightarrow> 'tr \<Rightarrow> 'tr"

type_synonym ('q, 's, 'cat) lane_build = "('q, 's) ListenerCoordinator \<Rightarrow> string \<Rightarrow> ('q, 's) ListenerCoordinator \<times> (string + 'cat)"

type_synonym ('plan, 'q, 's, 'cat, 'tr, 'x, 'app) runner =
  "'plan \<Rightarrow> ('q, 's, 'cat) lane_build \<Rightarrow> ('q, 's) ListenerCoordinator \<Rightarrow> 'tr \<Rightarrow> nat option \<Rightarrow> ('q, 's) ListenerCoordinator \<times> ('x + 'app)"

section \<open>Builders of a replicated host\<close>

text \<open>The four fields of \<open>NativeWebHost\<close> that only \<open>start_replicated\<close> reads.\<close>

record ('f, 'reg, 'cat, 'tr) replicated_builders =
  rb_ingress :: "(string \<Rightarrow> 'f \<Rightarrow> 'f) option"
  rb_lane :: "(string \<Rightarrow> 'reg \<Rightarrow> string + 'cat) option"
  rb_transfers :: "('tr \<Rightarrow> 'tr) option"
  rb_ready_timeout :: "nat option"

definition builders_default :: "('f, 'reg, 'cat, 'tr) replicated_builders" where
  "builders_default = \<lparr>rb_ingress = None, rb_lane = None, rb_transfers = None, rb_ready_timeout = None\<rparr>"

definition with_replicated_ingress ::
  "(string \<Rightarrow> 'f \<Rightarrow> 'f) \<Rightarrow> ('f, 'reg, 'cat, 'tr) replicated_builders \<Rightarrow> ('f, 'reg, 'cat, 'tr) replicated_builders" where
  "with_replicated_ingress builder b = b\<lparr>rb_ingress := Some builder\<rparr>"

definition with_replicated_lane ::
  "(string \<Rightarrow> 'reg \<Rightarrow> string + 'cat) \<Rightarrow> ('f, 'reg, 'cat, 'tr) replicated_builders \<Rightarrow> ('f, 'reg, 'cat, 'tr) replicated_builders" where
  "with_replicated_lane builder b = b\<lparr>rb_lane := Some builder\<rparr>"

definition with_replicated_transfers ::
  "('tr \<Rightarrow> 'tr) \<Rightarrow> ('f, 'reg, 'cat, 'tr) replicated_builders \<Rightarrow> ('f, 'reg, 'cat, 'tr) replicated_builders" where
  "with_replicated_transfers builder b = b\<lparr>rb_transfers := Some builder\<rparr>"

definition with_replicated_ready_timeout ::
  "nat \<Rightarrow> ('f, 'reg, 'cat, 'tr) replicated_builders \<Rightarrow> ('f, 'reg, 'cat, 'tr) replicated_builders" where
  "with_replicated_ready_timeout timeout b = b\<lparr>rb_ready_timeout := Some timeout\<rparr>"

definition default_replicated_transfers :: "'tr transfer_lib \<Rightarrow> 'tr" where
  "default_replicated_transfers T =
     tl_with_stream T WEBSOCKET_CAPABILITY_ID [''connect_websocket'']
       (tl_with_request T WEBSOCKET_CAPABILITY_ID [''describe_websocket'']
         (tl_with_stream T STREAM_CAPABILITY_ID [''handle_stream'']
           (tl_with_request T STREAM_CAPABILITY_ID [''describe_stream'']
             (tl_with_request T ENDPOINT_CAPABILITY_ID [''handle'']
               (tl_with_request T ENDPOINT_CAPABILITY_ID [''describe''] (tl_new T))))))"

definition replicated_transfers :: "'tr transfer_lib \<Rightarrow> ('f, 'reg, 'cat, 'tr) replicated_builders \<Rightarrow> 'tr" where
  "replicated_transfers T b =
     (case rb_transfers b of None \<Rightarrow> default_replicated_transfers T | Some builder \<Rightarrow> builder (default_replicated_transfers T))"

section \<open>One lane\<close>

definition ingress_builder :: "('f, 'reg, 'cat, 'tr) replicated_builders \<Rightarrow> string \<Rightarrow> 'f \<Rightarrow> 'f" where
  "ingress_builder b = (case rb_ingress b of None \<Rightarrow> (\<lambda>_ ingress. ingress) | Some builder \<Rightarrow> builder)"

definition lane_builder :: "('f, 'reg, 'cat) registry_lib \<Rightarrow> ('f, 'reg, 'cat, 'tr) replicated_builders \<Rightarrow> string \<Rightarrow> 'reg \<Rightarrow> string + 'cat" where
  "lane_builder RL b = (case rb_lane b of None \<Rightarrow> (\<lambda>_ registry. Inr (rl_single RL registry)) | Some builder \<Rightarrow> builder)"

definition lane_registry ::
  "('f, 'reg, 'cat) registry_lib \<Rightarrow> ('f, 'reg, 'cat, 'tr) replicated_builders \<Rightarrow> string \<Rightarrow> 'f \<Rightarrow> string + 'cat" where
  "lane_registry RL b lane ingress =
     lane_builder RL b lane (rl_with_linked_factories RL (rl_with_factory RL (ingress_builder b lane ingress) (rl_new RL)))"

definition lane_catalog ::
  "(('h, 'w) WebIngressFactory, 'reg, 'cat) registry_lib \<Rightarrow> (('h, 'w) WebIngressFactory, 'reg, 'cat, 'tr) replicated_builders \<Rightarrow>
   (string, nat) btree \<Rightarrow> (RuntimeFailure \<Rightarrow> string) \<Rightarrow> ('q, 's, 'cat) lane_build" where
  "lane_catalog RL b indexes debug coordinator lane =
     (case lane_ingress indexes debug coordinator lane of (c, r) \<Rightarrow> (c, try_in r (lane_registry RL b lane)))"

section \<open>Starting\<close>

record ('q, 's, 'app) RunningReplicatedWebHost =
  rrh_app :: 'app
  rrh_coordinator :: "('q, 's) ListenerCoordinator"

definition start_replicated ::
  "'h http_lib \<Rightarrow> 's semaphore_lib \<Rightarrow> listener_io \<Rightarrow> (HostCatalog \<Rightarrow> 'o PluginRootSnapshot \<Rightarrow> string + 'plan) \<Rightarrow> ('plan \<Rightarrow> string list) \<Rightarrow>
   RuntimeFailure + PluginDescriptor list \<Rightarrow> (WebIngressConfig \<Rightarrow> string + json) \<Rightarrow> (RuntimeFailure \<Rightarrow> string) \<Rightarrow>
   (('h, 'w) WebIngressFactory, 'reg, 'cat) registry_lib \<Rightarrow> 'tr transfer_lib \<Rightarrow> ('plan, 'q, 's, 'cat, 'tr, 'x, 'app) runner \<Rightarrow>
   (('h, 'w) WebIngressFactory, 'reg, 'cat, 'tr) replicated_builders \<Rightarrow> ('o, 'm) NativeWebHost \<Rightarrow>
   'x WebHostError + ('q, 's, 'app) RunningReplicatedWebHost" where
  "start_replicated L S io resolver lanes_of_plan discovered to_json debug RL T runner b host =
     try_in (prepare_replicated L S io resolver lanes_of_plan discovered to_json host) (\<lambda>(plan, indexes, coordinator).
       case runner plan (lane_catalog RL b indexes debug) coordinator (replicated_transfers T b) (rb_ready_timeout b) of
         (coordinator, r) \<Rightarrow> try_in (map_err HostReplicated r) (\<lambda>app. Inr \<lparr>rrh_app = app, rrh_coordinator = coordinator\<rparr>))"

text \<open>The registry of a host with one lane; an installer is the function it holds.\<close>

definition host_registry ::
  "('f, 'reg, 'cat) registry_lib \<Rightarrow> (string \<times> PluginDescriptor \<Rightarrow> 'reg \<Rightarrow> 'reg) \<Rightarrow> 'f \<Rightarrow> (string \<times> PluginDescriptor) list \<Rightarrow> 'cat" where
  "host_registry RL install ingress installers =
     rl_single RL (rl_with_linked_factories RL
       (foldl (\<lambda>registry installer. install installer registry) (rl_with_factory RL ingress (rl_new RL)) installers))"

text \<open>The plan a host would start, alone or replicated, and a Tower layer around a policy.\<close>

definition resolve_plan where
  "resolve_plan L resolver discovered to_json host = resolve_plan_with_replication L resolver discovered to_json False host"

definition resolve_replicated_plan where
  "resolve_replicated_plan L resolver discovered to_json host = resolve_plan_with_replication L resolver discovered to_json True host"

definition host_with_tower_layer where
  "host_with_tower_layer identity layer service host = host_with_tower_middleware identity (layer service) host"

section \<open>Running hosts\<close>

text \<open>Durations are milliseconds. \<open>shutdown\<close> waits at most three seconds.\<close>

definition SHUTDOWN_MILLIS :: nat where "SHUTDOWN_MILLIS = 3000"

record 'app RunningNativeWebHost =
  rnh_app :: 'app
  rnh_address :: string
  rnh_ingress :: WebIngressState

definition running_native :: "'app \<times> string \<times> WebIngressState \<Rightarrow> 'app RunningNativeWebHost" where
  "running_native r = (case r of (app, address, ingress) \<Rightarrow> \<lparr>rnh_app = app, rnh_address = address, rnh_ingress = ingress\<rparr>)"

definition native_shutdown :: "('app \<Rightarrow> nat \<Rightarrow> 'x option) \<Rightarrow> 'app RunningNativeWebHost \<Rightarrow> 'x WebHostError + unit" where
  "native_shutdown app_shutdown running = host_shutdown (app_shutdown (rnh_app running) SHUTDOWN_MILLIS)"

definition replicated_address :: "('q, 's, 'app) RunningReplicatedWebHost \<Rightarrow> string" where
  "replicated_address running = lc_local_address (rrh_coordinator running)"

definition replicated_shutdown :: "('app \<Rightarrow> nat \<Rightarrow> 'x + unit) \<Rightarrow> ('q, 's, 'app) RunningReplicatedWebHost \<Rightarrow> 'x WebHostError + unit" where
  "replicated_shutdown app_shutdown running = map_err HostReplicated (app_shutdown (rrh_app running) SHUTDOWN_MILLIS)"

text \<open>A running event host serves each request with a fresh cancellation token.\<close>

definition running_event_handle ::
  "crypto_lib \<Rightarrow> 'h http_lib \<Rightarrow> 'r router_lib \<Rightarrow> ('h, 'r, 'w) WebIngressEventFactory \<Rightarrow> 'h request_parts \<Rightarrow> bytes \<Rightarrow>
   'p event_env \<Rightarrow> 'w \<Rightarrow> (RuntimeFailure + nat \<times> 'h \<times> bytes) progress \<times> ('h, 'r, 'w) WebIngressEventFactory" where
  "running_event_handle C L R f parts body env w = event_handle C L R f parts body (env\<lparr>ev_cancelled_before := False\<rparr>) w"

definition running_event_handle_response ::
  "crypto_lib \<Rightarrow> 'h http_lib \<Rightarrow> 'r router_lib \<Rightarrow> ('h, 'r, 'w) WebIngressEventFactory \<Rightarrow> 'h request_parts \<Rightarrow> bytes \<Rightarrow>
   'p event_env \<Rightarrow> 'w \<Rightarrow> (RuntimeFailure + ('h, 'p, 'w) event_response) progress \<times> ('h, 'r, 'w) WebIngressEventFactory" where
  "running_event_handle_response C L R f parts body env w = handle_response C L R f parts body (env\<lparr>ev_cancelled_before := False\<rparr>) w"

text \<open>\<open>run\<close> and \<open>run_replicated\<close>: what the process does, and what it returns.\<close>

datatype host_event = AppStarted | SignalReceived | ShutdownRequested

definition host_run ::
  "'x WebHostError + 'running \<Rightarrow> string + unit \<Rightarrow> ('running \<Rightarrow> 'x WebHostError + unit) \<Rightarrow> host_event list \<times> ('x WebHostError + unit)" where
  "host_run started ctrl_c shutdown =
     (case started of
        Inl error \<Rightarrow> ([], Inl error)
      | Inr running \<Rightarrow> (case ctrl_c of
          Inl error \<Rightarrow> ([AppStarted], Inl (HostBind error))
        | Inr _ \<Rightarrow> ([AppStarted, SignalReceived, ShutdownRequested], shutdown running)))"

definition run_native :: "'x WebHostError + 'app \<times> string \<times> WebIngressState \<Rightarrow> string + unit \<Rightarrow> ('app \<Rightarrow> nat \<Rightarrow> 'x option) \<Rightarrow>
   host_event list \<times> ('x WebHostError + unit)" where
  "run_native started ctrl_c app_shutdown = host_run (try_in started (\<lambda>r. Inr (running_native r))) ctrl_c (native_shutdown app_shutdown)"

definition run_replicated :: "'x WebHostError + ('q, 's, 'app) RunningReplicatedWebHost \<Rightarrow> string + unit \<Rightarrow> ('app \<Rightarrow> nat \<Rightarrow> 'x + unit) \<Rightarrow>
   host_event list \<times> ('x WebHostError + unit)" where
  "run_replicated started ctrl_c app_shutdown = host_run started ctrl_c (replicated_shutdown app_shutdown)"

section \<open>What the runner promises\<close>

text \<open>
  The runner builds the lanes of its plan in some order, each once, and launches them together when every
  builder has succeeded; the error of a builder is the error of the start.
\<close>

fun build_lanes :: "('q, 's, 'cat) lane_build \<Rightarrow> ('q, 's) ListenerCoordinator \<Rightarrow> string list \<Rightarrow>
   ('q, 's) ListenerCoordinator \<times> (string \<times> (string + 'cat)) list" where
  "build_lanes build c [] = (c, [])"
| "build_lanes build c (lane # lanes) =
     (case build c lane of (c', r) \<Rightarrow> (case build_lanes build c' lanes of (c'', rs) \<Rightarrow> (c'', (lane, r) # rs)))"

definition lane_result :: "(string \<Rightarrow> string \<Rightarrow> 'x) \<Rightarrow> string \<times> (string + 'cat) \<Rightarrow> 'x + string \<times> 'cat" where
  "lane_result failed outcome = (case outcome of (lane, r) \<Rightarrow> map_sum (failed lane) (Pair lane) r)"

definition runner_laws ::
  "('plan, 'q, 's, 'cat, 'tr, 'x, 'app) runner \<Rightarrow> ('plan \<Rightarrow> string list) \<Rightarrow>
   ('plan \<Rightarrow> (string \<rightharpoonup> 'cat) \<Rightarrow> 'tr \<Rightarrow> nat option \<Rightarrow> 'x + 'app) \<Rightarrow> (string \<Rightarrow> string \<Rightarrow> 'x) \<Rightarrow> bool" where
  "runner_laws runner lanes_of_plan launch failed \<longleftrightarrow>
     (\<forall>plan build c transfers timeout. \<exists>order. mset order = mset (lanes_of_plan plan) \<and>
        runner plan build c transfers timeout =
          (case build_lanes build c order of (c', rs) \<Rightarrow>
             (c', try_in (traverse (lane_result failed) rs) (\<lambda>catalogs. launch plan (map_of catalogs) transfers timeout))))"

text \<open>What a lane's builder makes of the ingress of its slot.\<close>

definition lane_outcome ::
  "(('h, 'w) WebIngressFactory, 'reg, 'cat) registry_lib \<Rightarrow> (('h, 'w) WebIngressFactory, 'reg, 'cat, 'tr) replicated_builders \<Rightarrow>
   string list \<Rightarrow> nat \<Rightarrow> string + 'cat" where
  "lane_outcome RL b lanes k =
     lane_builder RL b (lanes ! k) (rl_with_linked_factories RL
       (rl_with_factory RL (ingress_builder b (lanes ! k) (native_factory_with (Some k))) (rl_new RL)))"

lemma build_lanes_started:
  fixes RL :: "(('h, 'w) WebIngressFactory, 'reg, 'cat) registry_lib"
  assumes "start_lanes indexes debug c order = (c', map (\<lambda>lane. Inr (f lane)) order)"
  shows "build_lanes (lane_catalog RL b indexes debug) c order = (c', map (\<lambda>lane. (lane, lane_registry RL b lane (f lane))) order)"
  using assms
proof (induction order arbitrary: c)
  case (Cons lane order)
  then obtain d where "lane_ingress indexes debug c lane = (d, Inr (f lane))"
    and "start_lanes indexes debug d order = (c', map (\<lambda>lane. Inr (f lane)) order)"
    by (auto split: prod.splits)
  with Cons.IH [of d] show ?case by (simp add: lane_catalog_def)
qed simp

lemma lane_results:
  assumes "\<forall>lane \<in> set order. g lane = Inr (cat lane)"
  shows "traverse (lane_result failed) (map (\<lambda>lane. (lane, g lane)) order) = Inr (map (\<lambda>lane. (lane, cat lane)) order)"
  using assms by (induction order) (simp_all add: lane_result_def)

lemma map_of_graph: "map_of (map (\<lambda>lane. (lane, cat lane)) order) = (\<lambda>lane. if lane \<in> set order then Some (cat lane) else None)"
  by (induction order) auto

lemma lane_failure:
  assumes "g lane = Inl e" and "lane \<in> set order"
  shows "\<exists>lane e. lane \<in> set order \<and> g lane = Inl e \<and>
    traverse (lane_result failed) (map (\<lambda>lane. (lane, g lane)) order) = Inl (failed lane e)"
  using assms
proof (induction order)
  case (Cons l order)
  show ?case
  proof (cases "g l")
    case (Inl e)
    then show ?thesis by (intro exI [of _ l] exI [of _ e]) (simp add: lane_result_def)
  next
    case (Inr cat)
    with Cons have "lane \<in> set order" by auto
    from Cons.IH [OF Cons.prems(1) this] Inr show ?thesis by (auto simp: lane_result_def)
  qed
qed simp

section \<open>Properties\<close>

lemma start_replicated_runs:
  fixes coordinator :: "('q, 's) ListenerCoordinator" and runner :: "('plan, 'q, 's, 'cat, 'tr, 'x, 'app) runner"
    and RL :: "(('h, 'w) WebIngressFactory, 'reg, 'cat) registry_lib"
  assumes "runner_laws runner lanes_of_plan launch failed"
    and "prepare_replicated L S io resolver lanes_of_plan discovered to_json host = (Inr (plan, indexes, coordinator) :: 'x WebHostError + _)"
    and "distinct (lanes_of_plan plan)"
  shows "\<exists>order c'. set order = set (lanes_of_plan plan) \<and> (\<forall>slot \<in> set (co_slots (lc_state c')). sl_allocated slot) \<and>
    (\<forall>k < length (lanes_of_plan plan). bt_get indexes (lanes_of_plan plan ! k) = Some k) \<and>
    start_replicated L S io resolver lanes_of_plan discovered to_json debug RL T runner b host =
      try_in (map_err HostReplicated (try_in
          (traverse (lane_result failed) (map (\<lambda>lane. (lane, lane_registry RL b lane (native_factory_with (bt_get indexes lane)))) order))
          (\<lambda>catalogs. launch plan (map_of catalogs) (replicated_transfers T b) (rb_ready_timeout b))))
        (\<lambda>app. Inr \<lparr>rrh_app = app, rrh_coordinator = c'\<rparr>)"
proof -
  let ?f = "\<lambda>lane. native_factory_with (bt_get indexes lane) :: ('h, 'w) WebIngressFactory"
  obtain order where order: "mset order = mset (lanes_of_plan plan)"
    and run: "runner plan (lane_catalog RL b indexes debug) coordinator (replicated_transfers T b) (rb_ready_timeout b) =
      (case build_lanes (lane_catalog RL b indexes debug) coordinator order of (c', rs) \<Rightarrow>
         (c', try_in (traverse (lane_result failed) rs) (\<lambda>catalogs. launch plan (map_of catalogs) (replicated_transfers T b) (rb_ready_timeout b))))"
    using assms(1) unfolding runner_laws_def by meson
  have same: "set order = set (lanes_of_plan plan)" and len: "length order = length (lanes_of_plan plan)"
    using order by (metis mset_eq_setD, metis size_mset)
  note lanes = every_lane_gets_its_replica [OF assms(2,3) order, where debug = debug and ?'h = 'h and ?'w = 'w]
  obtain c' where started: "start_lanes indexes debug coordinator order = (c', map (\<lambda>lane. Inr (?f lane)) order)"
    and slots: "\<forall>slot \<in> set (co_slots (lc_state c')). sl_allocated slot" using lanes by blast
  show ?thesis
    by (rule exI [of _ order], rule exI [of _ c'])
      (use lanes same len slots in \<open>simp add: start_replicated_def assms(2) run build_lanes_started [OF started]\<close>)
qed

text \<open>C28. A replicated host boots every lane of its plan on an ingress of its own: whatever order the runner
  starts the lanes in, the lane at position \<open>k\<close> of the plan gets the catalog its builder makes of the
  ingress factory of slot \<open>k\<close>, the runner launches exactly these lanes with the transfers and the deadline of the host, and
  every slot of the listener is taken by then. When a builder refuses, the start fails with the error of a
  lane that refused, and nothing is launched.\<close>

theorem replicated_start_builds_every_lane:
  fixes coordinator :: "('q, 's) ListenerCoordinator" and runner :: "('plan, 'q, 's, 'cat, 'tr, 'x, 'app) runner"
    and RL :: "(('h, 'w) WebIngressFactory, 'reg, 'cat) registry_lib"
  assumes "runner_laws runner lanes_of_plan launch failed"
    and "prepare_replicated L S io resolver lanes_of_plan discovered to_json host = (Inr (plan, indexes, coordinator) :: 'x WebHostError + _)"
    and "distinct (lanes_of_plan plan)"
  shows "((\<forall>k < length (lanes_of_plan plan). lane_outcome RL b (lanes_of_plan plan) k = Inr (cat (lanes_of_plan plan ! k))) \<longrightarrow>
      (\<exists>c'. start_replicated L S io resolver lanes_of_plan discovered to_json debug RL T runner b host =
         try_in (map_err HostReplicated (launch plan (\<lambda>lane. if lane \<in> set (lanes_of_plan plan) then Some (cat lane) else None)
             (replicated_transfers T b) (rb_ready_timeout b))) (\<lambda>app. Inr \<lparr>rrh_app = app, rrh_coordinator = c'\<rparr>) \<and>
         (\<forall>slot \<in> set (co_slots (lc_state c')). sl_allocated slot))) \<and>
    ((\<exists>k < length (lanes_of_plan plan). \<not> is_ok (lane_outcome RL b (lanes_of_plan plan) k)) \<longrightarrow>
      (\<exists>k e. k < length (lanes_of_plan plan) \<and> lane_outcome RL b (lanes_of_plan plan) k = Inl e \<and>
         start_replicated L S io resolver lanes_of_plan discovered to_json debug RL T runner b host =
           Inl (HostReplicated (failed (lanes_of_plan plan ! k) e))))"
proof -
  let ?lanes = "lanes_of_plan plan"
  let ?g = "\<lambda>lane. lane_registry RL b lane (native_factory_with (bt_get indexes lane))"
  let ?start = "start_replicated L S io resolver lanes_of_plan discovered to_json debug RL T runner b host"
  obtain order c' where same: "set order = set ?lanes" and slots: "\<forall>slot \<in> set (co_slots (lc_state c')). sl_allocated slot"
    and index: "\<forall>k < length ?lanes. bt_get indexes (?lanes ! k) = Some k"
    and start: "?start = try_in (map_err HostReplicated (try_in (traverse (lane_result failed) (map (\<lambda>lane. (lane, ?g lane)) order))
      (\<lambda>catalogs. launch plan (map_of catalogs) (replicated_transfers T b) (rb_ready_timeout b)))) (\<lambda>app. Inr \<lparr>rrh_app = app, rrh_coordinator = c'\<rparr>)"
    using start_replicated_runs [OF assms, where debug = debug and RL = RL and T = T and b = b] by blast
  have g: "?g (?lanes ! k) = lane_outcome RL b ?lanes k" if "k < length ?lanes" for k using that index by (simp add: lane_outcome_def lane_registry_def)
  show ?thesis
  proof (intro conjI impI)
    assume all: "\<forall>k < length ?lanes. lane_outcome RL b ?lanes k = Inr (cat (?lanes ! k))"
    have "\<forall>lane \<in> set order. ?g lane = Inr (cat lane)" unfolding same using all g by (auto simp: in_set_conv_nth)
    note built = lane_results [OF this, where failed = failed]
    show "\<exists>c'. ?start = try_in (map_err HostReplicated (launch plan (\<lambda>lane. if lane \<in> set ?lanes then Some (cat lane) else None)
        (replicated_transfers T b) (rb_ready_timeout b))) (\<lambda>app. Inr \<lparr>rrh_app = app, rrh_coordinator = c'\<rparr>) \<and>
      (\<forall>slot \<in> set (co_slots (lc_state c')). sl_allocated slot)"
      using slots by (intro exI [of _ c']) (simp add: start built map_of_graph same)
  next
    assume "\<exists>k < length ?lanes. \<not> is_ok (lane_outcome RL b ?lanes k)"
    then obtain k e where "k < length ?lanes" "lane_outcome RL b ?lanes k = Inl e" by (metis is_ok_simps(1) sumE)
    then have "?g (?lanes ! k) = Inl e" "?lanes ! k \<in> set order" using g same by auto
    from lane_failure [where g = ?g and failed = failed, OF this] obtain lane e where lane: "lane \<in> set order" "?g lane = Inl e"
      and fails: "traverse (lane_result failed) (map (\<lambda>lane. (lane, ?g lane)) order) = Inl (failed lane e)" by blast
    obtain j where j: "j < length ?lanes" "?lanes ! j = lane" using lane(1) same by (auto simp: in_set_conv_nth)
    then have "lane_outcome RL b ?lanes j = Inl e" using lane(2) g by metis
    with j fails show "\<exists>k e. k < length ?lanes \<and> lane_outcome RL b ?lanes k = Inl e \<and> ?start = Inl (HostReplicated (failed (?lanes ! k) e))"
      by (auto simp: start intro!: exI [of _ j])
  qed
qed

text \<open>A runner that starts the lanes in the order of the plan, and a registry that records the slots of its factories.\<close>

definition plan_runner :: "(string list, 'q, 's, 'cat, 'tr, string, string \<rightharpoonup> 'cat) runner" where
  "plan_runner plan build c transfers timeout =
     (case build_lanes build c plan of (c', rs) \<Rightarrow>
        (c', try_in (traverse (lane_result (\<lambda>lane error. error)) rs) (\<lambda>catalogs. Inr (map_of catalogs))))"

lemma plan_runner_laws: "runner_laws plan_runner (\<lambda>plan. plan) (\<lambda>plan catalogs transfers timeout. Inr catalogs) (\<lambda>lane error. error)"
  unfolding runner_laws_def plan_runner_def by blast

definition slot_registry :: "(('h, unit) WebIngressFactory, nat option list, nat option list) registry_lib" where
  "slot_registry = \<lparr>rl_new = [], rl_with_factory = (\<lambda>f registry. wif_replica f # registry),
     rl_with_linked_factories = (\<lambda>registry. registry), rl_single = (\<lambda>registry. registry)\<rparr>"

theorem replicated_start_builds_every_lane_witness:
  "\<exists>running. start_replicated list_http counter_semaphore sample_io lanes_resolver (\<lambda>plan. plan) (Inr []) (\<lambda>c. Inr JNull) (\<lambda>e. [])
       slot_registry \<lparr>tl_new = [], tl_with_request = (\<lambda>c ops t. t), tl_with_stream = (\<lambda>c ops t. t)\<rparr>
       (plan_runner :: (string list, nat list_channel, nat, nat option list, unit list, string, string \<rightharpoonup> nat option list) runner)
       builders_default shop_host = Inr running \<and>
     rrh_app running ''web'' = Some [Some 1]"
proof -
  let ?cat = "\<lambda>lane. [if lane = ''web'' then Some 1 else Some (0 :: nat)]"
  have "\<forall>k < length [''main'', ''web'']. lane_outcome slot_registry builders_default [''main'', ''web''] k = Inr (?cat ([''main'', ''web''] ! k))"
    by (auto simp: lane_outcome_def lane_registry_def lane_builder_def ingress_builder_def builders_default_def slot_registry_def
        native_factory_with_def nth_Cons split: nat.splits)
  with conjunct1 [OF replicated_start_builds_every_lane [OF plan_runner_laws shop_prepared, where RL = slot_registry and b = builders_default
        and cat = ?cat and debug = "\<lambda>e. []" and T = "\<lparr>tl_new = [], tl_with_request = (\<lambda>c ops t. t), tl_with_stream = (\<lambda>c ops t. t)\<rparr>"]]
  show ?thesis by auto
qed

section \<open>What crosses between lanes\<close>

text \<open>The pairs of a capability and an operation a catalog carries, as requests and as streams.\<close>

definition transfer_laws ::
  "'tr transfer_lib \<Rightarrow> ('tr \<Rightarrow> (string \<times> string) set) \<Rightarrow> ('tr \<Rightarrow> (string \<times> string) set) \<Rightarrow> bool" where
  "transfer_laws T requests streams \<longleftrightarrow>
     requests (tl_new T) = {} \<and> streams (tl_new T) = {} \<and>
     (\<forall>c operations t. requests (tl_with_request T c operations t) = requests t \<union> {c} \<times> set operations \<and>
        streams (tl_with_request T c operations t) = streams t \<and>
        streams (tl_with_stream T c operations t) = streams t \<union> {c} \<times> set operations \<and>
        requests (tl_with_stream T c operations t) = requests t)"

text \<open>The built-in transfers are the operations that the three endpoint contracts publish: a request operation
  crosses as a request, a stream operation as a stream, and nothing else crosses.\<close>

theorem default_transfers_are_published:
  assumes "transfer_laws T requests streams"
  shows "requests (default_replicated_transfers T) = {ENDPOINT_CAPABILITY_ID} \<times> set endpoint_operations \<union>
      {STREAM_CAPABILITY_ID} \<times> set stream_request_operations \<union> {WEBSOCKET_CAPABILITY_ID} \<times> set websocket_request_operations \<and>
    streams (default_replicated_transfers T) =
      {STREAM_CAPABILITY_ID} \<times> set stream_stream_operations \<union> {WEBSOCKET_CAPABILITY_ID} \<times> set websocket_stream_operations"
  using assms
  by (auto simp: transfer_laws_def default_replicated_transfers_def endpoint_operations_def stream_request_operations_def
      websocket_request_operations_def stream_stream_operations_def websocket_stream_operations_def)

section \<open>The life of a process\<close>

text \<open>\<open>run\<close> succeeds exactly when the app has started, the signal has come and the shutdown was clean; an app
  that did not start is never shut down, and one that gets the signal always is.\<close>

lemma host_run_outcome:
  assumes "host_run started ctrl_c shutdown = (events, outcome)"
  shows "is_ok outcome \<longleftrightarrow> (\<exists>running. started = Inr running \<and> is_ok ctrl_c \<and> is_ok (shutdown running))"
    and "ShutdownRequested \<in> set events \<longleftrightarrow> is_ok started \<and> is_ok ctrl_c"
  using assms by (auto simp: host_run_def split: sum.splits)

lemma run_native_clean:
  "snd (run_native started ctrl_c app_shutdown) = Inr () \<longleftrightarrow>
     (\<exists>app address ingress. started = Inr (app, address, ingress) \<and> is_ok ctrl_c \<and> app_shutdown app SHUTDOWN_MILLIS = None)"
  by (auto simp: run_native_def host_run_def native_shutdown_def running_native_def host_shutdown_def try_in_Inr_iff split: sum.splits option.splits)

end
