(* ===== verification/Greetings.thy ===== *)
theory Greetings
  imports MacroServing HostRun
begin

text \<open>
  The greetings example (\<open>src/examples/greetings-http-plugin\<close> and \<open>src/examples/greetings-web-app\<close>): its provider with the shared
  store, its two handlers, the impl block as the attribute macro reads it, and the application. The
  serializers of its types are parameters. It is also the smallest complete program written against the
  endpoint crate, so its properties run through the code the macro generates.
\<close>

section \<open>The provider\<close>

record Greeting =
  gr_id :: string
  gr_message :: string

text \<open>\<open>Rc\<close> makes all clones of the provider share one counter and one store.\<close>

record GreetingsHttp =
  gh_next_id :: "64 word"
  gh_greetings :: "(string, Greeting) btree"

definition greetings_default :: GreetingsHttp where
  "greetings_default = \<lparr>gh_next_id = 0, gh_greetings = []\<rparr>"

definition greeting_key :: "nat \<Rightarrow> string" where
  "greeting_key sequence = ''greeting-'' @ decimal sequence"

definition greeting_of :: "nat \<Rightarrow> string \<Rightarrow> Greeting" where
  "greeting_of sequence name = \<lparr>gr_id = greeting_key sequence, gr_message = ''Hello, '' @ name @ ''!''\<rparr>"

text \<open>\<open>create\<close>; \<open>None\<close> is the panic of the counter's overflow, in a build with overflow checks.\<close>

definition create ::
  "(nat \<Rightarrow> string option) \<Rightarrow> string \<Rightarrow> GreetingsHttp \<Rightarrow> (GreetingsHttp \<times> (Problem + nat \<times> Greeting)) option" where
  "create reason input_name st =
     (let name = trim input_name in
      if name = [] then Some (st, Inl (problem_new reason 400 ''invalid_name'' ''name must not be empty''))
      else if gh_next_id st = - 1 then None
      else
        let sequence = gh_next_id st + 1;
            greeting = greeting_of (unat sequence) name
        in Some (\<lparr>gh_next_id = sequence, gh_greetings = bt_insert (gr_id greeting) greeting (gh_greetings st)\<rparr>, Inr (201, greeting)))"

definition read_greeting :: "(nat \<Rightarrow> string option) \<Rightarrow> string \<Rightarrow> GreetingsHttp \<Rightarrow> Problem + Greeting" where
  "read_greeting reason greeting_id st =
     ok_or (bt_get (gh_greetings st) greeting_id)
       (problem_new reason 404 ''greeting_not_found'' ''the greeting does not exist'')"

section \<open>The impl block\<close>

text \<open>As the macro sees it. The attribute \<open>allow\<close> of the block is not one of its own.\<close>

definition create_method :: "tok list ImplItemFn" where
  "create_method =
     \<lparr>mf_attrs = [sample_attribute ''post'' [TokLit (LitStr ''greetings.create''), TokPunct '','', TokLit (LitStr ''/greetings'')]],
      mf_ident = ''create'', mf_inputs = [Receiver, Typed (generic_ty ''Json'' [plain_ty ''CreateGreeting''])],
      mf_output = Some (generic_ty ''Result'' [TyTuple [plain_ty ''StatusCode'', generic_ty ''Json'' [plain_ty ''Greeting'']], plain_ty ''Problem''])\<rparr>"

definition read_method :: "tok list ImplItemFn" where
  "read_method =
     \<lparr>mf_attrs = [sample_attribute ''get'' [TokLit (LitStr ''greetings.read''), TokPunct '','', TokLit (LitStr ''/greetings/{greeting_id}'')]],
      mf_ident = ''read'', mf_inputs = [Receiver, Typed (generic_ty ''Path'' [plain_ty ''GreetingPath''])],
      mf_output = Some (generic_ty ''Result'' [generic_ty ''Json'' [plain_ty ''Greeting''], plain_ty ''Problem''])\<rparr>"

definition greetings_impl :: "tok list ItemImpl" where
  "greetings_impl =
     \<lparr>ii_attrs = [sample_attribute ''allow'' [TokIdent ''unknown_lints'', TokPunct '','', TokIdent ''clippy'', TokPunct ''::'', TokIdent ''unused_async'', TokPunct '','',
          TokIdent ''clippy'', TokPunct ''::'', TokIdent ''unused_async_trait_impl'']],
      ii_trait = False, ii_generic = False, ii_self_ty = plain_ty ''GreetingsHttp'', ii_items = [ImplFn create_method, ImplFn read_method]\<rparr>"

definition create_handler :: MacroHandler where
  "create_handler =
     \<lparr>mh_route = \<lparr>mr_method = ''POST'', mr_id = ''greetings.create'', mr_path = ''/greetings'', mr_openapi = None\<rparr>, mh_middlewares = [],
      mh_method = ''create'', mh_arguments = [\<lparr>ha_ty = generic_ty ''Json'' [plain_ty ''CreateGreeting''], ha_kind = ArgExtractor ''__lenso_extracted_1''\<rparr>],
      mh_contract = None\<rparr>"

definition read_handler :: MacroHandler where
  "read_handler =
     \<lparr>mh_route = \<lparr>mr_method = ''GET'', mr_id = ''greetings.read'', mr_path = ''/greetings/{greeting_id}'', mr_openapi = None\<rparr>, mh_middlewares = [],
      mh_method = ''read'', mh_arguments = [\<lparr>ha_ty = generic_ty ''Path'' [plain_ty ''GreetingPath''], ha_kind = ArgExtractor ''__lenso_extracted_1''\<rparr>],
      mh_contract = None\<rparr>"

lemma greetings_taken:
  "take_provider_middlewares (tok_syn (\<lambda>_. False)) sample_fuel (ii_attrs greetings_impl) = Some (Inr ([], ii_attrs greetings_impl))"
  "take_handler_metadata (tok_syn (\<lambda>_. False)) J sample_fuel (mf_attrs create_method) =
     Some (Inr (\<lparr>hm_route = Some (mh_route create_handler), hm_middlewares = [], hm_openapi = None, hm_contract = None\<rparr>, []))"
  "take_handler_metadata (tok_syn (\<lambda>_. False)) J sample_fuel (mf_attrs read_method) =
     Some (Inr (\<lparr>hm_route = Some (mh_route read_handler), hm_middlewares = [], hm_openapi = None, hm_contract = None\<rparr>, []))"
  by code_simp+

lemma greetings_expands:
  "\<exists>X. expand_endpoint_with_registration (tok_syn (\<lambda>_. False)) J S sample_fuel greetings_impl True = Some (Inr X) \<and>
     ex_handlers X = [create_handler, read_handler] \<and> ex_routes X = map (handler_route S) [create_handler, read_handler]"
proof -
  have one: "decimal (Suc 0) = ''1''" by code_simp
  have first: "expand_method J [] create_method \<lparr>hm_route = Some (mh_route create_handler), hm_middlewares = [], hm_openapi = None, hm_contract = None\<rparr> =
      Inr (Some create_handler)"
    by (simp add: expand_method_def create_method_def create_handler_def handler_arguments_def argument_kind_def final_type_ident_def
        last_of_def Let_def one)
  have second: "expand_method J [] read_method \<lparr>hm_route = Some (mh_route read_handler), hm_middlewares = [], hm_openapi = None, hm_contract = None\<rparr> =
      Inr (Some read_handler)"
    by (simp add: expand_method_def read_method_def read_handler_def handler_arguments_def argument_kind_def final_type_ident_def
        last_of_def Let_def one)
  have items: "fold_fuel (expand_item (tok_syn (\<lambda>_. False)) J sample_fuel []) ([], []) (ii_items greetings_impl) =
      Some (Inr ([create_handler, read_handler], [ImplFn (create_method\<lparr>mf_attrs := []\<rparr>), ImplFn (read_method\<lparr>mf_attrs := []\<rparr>)]))"
    by (simp add: greetings_impl_def expand_item_def greetings_taken(2,3) first second)
  have none: "mh_contract create_handler = None" "mh_contract read_handler = None" by (simp_all add: create_handler_def read_handler_def)
  have factories: "endpoint_contract_impl S [create_handler, read_handler] = Inr []"
    by (simp add: endpoint_contract_impl_def map_filter_simps none)
  have table: "endpoint_route [] (0, create_handler) = Inr (handler_route S create_handler)"
    "endpoint_route [] (Suc 0, read_handler) = Inr (handler_route S read_handler)"
    by (simp_all add: create_handler_def read_handler_def endpoint_route_def handler_route_def route_new_def)
  have valid: "validate_endpoint_routes [handler_route S create_handler, handler_route S read_handler] = Inr ()" by code_simp
  have implementation: "validate_endpoint_implementation greetings_impl = Inr ()"
    by (simp add: validate_endpoint_implementation_def greetings_impl_def)
  show ?thesis
    by (simp add: expand_endpoint_with_registration_def implementation greetings_taken(1) items factories table valid)
qed

section \<open>Serving requests\<close>

text \<open>The serializers: of problems and greetings, of the input, and of path parameters.\<close>

record 'h greetings_lib =
  gl_http :: "'h http_lib"
  gl_to_vec :: "json \<Rightarrow> string + bytes"
  gl_reason :: "nat \<Rightarrow> string option"
  gl_create_greeting :: "bytes \<Rightarrow> string option"
  gl_path_to_string :: "(string \<times> string) list \<Rightarrow> string option"
  gl_greeting_path :: "string \<Rightarrow> string option"
  gl_greeting :: "Greeting \<Rightarrow> string + bytes"

datatype greeting_value = CreateInput string | PathInput string

text \<open>Stands for an invocation that panicked and so has no answer; the properties below are about answers.\<close>

definition panicked :: EndpointHandleInvocationError where
  "panicked = RuntimeError (Internal ''panic'')"

definition extract_create :: "'h greetings_lib \<Rightarrow> HandleRequest \<Rightarrow> (ExtractorRejection + string) option" where
  "extract_create G request = extract_json (gl_http G) (gl_to_vec G) (gl_reason G) (gl_create_greeting G) request"

definition extract_greeting_path :: "'h greetings_lib \<Rightarrow> HandleRequest \<Rightarrow> (ExtractorRejection + string) option" where
  "extract_greeting_path G request =
     extract_path (gl_http G) (gl_to_vec G) (gl_reason G) (gl_path_to_string G) (gl_greeting_path G) request"

definition extracted_as :: "(string \<Rightarrow> greeting_value) \<Rightarrow> (ExtractorRejection + string) option \<Rightarrow> ExtractorRejection + greeting_value" where
  "extracted_as wrap r = (case r of None \<Rightarrow> Inl (RejectedInvocation panicked) | Some r \<Rightarrow> try_in r (\<lambda>v. Inr (wrap v)))"

definition problem_result :: "'h greetings_lib \<Rightarrow> Problem \<Rightarrow> endpoint_error + (ResponseBuildError + HandleResponse)" where
  "problem_result G p =
     Inl (case problem_into_response (gl_http G) (gl_to_vec G) p of None \<Rightarrow> InvocationFailure panicked | Some r \<Rightarrow> ResponseError (Inr r))"

definition call_create :: "'h greetings_lib \<Rightarrow> GreetingsHttp \<Rightarrow> string \<Rightarrow> endpoint_error + (ResponseBuildError + HandleResponse)" where
  "call_create G st name =
     (case create (gl_reason G) name st of
        None \<Rightarrow> Inl (InvocationFailure panicked)
      | Some (_, Inl p) \<Rightarrow> problem_result G p
      | Some (_, Inr (status, greeting)) \<Rightarrow> Inr (status_into_response status (json_body_response 200 (gl_greeting G greeting))))"

definition call_read :: "'h greetings_lib \<Rightarrow> GreetingsHttp \<Rightarrow> string \<Rightarrow> endpoint_error + (ResponseBuildError + HandleResponse)" where
  "call_read G st greeting_id =
     (case read_greeting (gl_reason G) greeting_id st of
        Inl p \<Rightarrow> problem_result G p
      | Inr greeting \<Rightarrow> Inr (json_body_response 200 (gl_greeting G greeting)))"

definition greetings_provider :: "'h greetings_lib \<Rightarrow> GreetingsHttp \<Rightarrow> (unit, greeting_value) provider" where
  "greetings_provider G st =
     \<lparr>pv_middleware = (\<lambda>_ _ _. Inl panicked),
      pv_from_request = (\<lambda>t ctx request.
        (if t = generic_ty ''Json'' [plain_ty ''CreateGreeting''] then extracted_as CreateInput (extract_create G request)
         else extracted_as PathInput (extract_greeting_path G request), ctx)),
      pv_call = (\<lambda>name arguments.
        (case (name = mf_ident create_method, arguments) of
           (True, [ExtractedValue (CreateInput input)]) \<Rightarrow> call_create G st input
         | (False, [ExtractedValue (PathInput greeting_id)]) \<Rightarrow> call_read G st greeting_id
         | _ \<Rightarrow> Inl (InvocationFailure panicked)))\<rparr>"

text \<open>One request: what the generated dispatcher answers, and the store afterwards.\<close>

definition greetings_answer :: "'h greetings_lib \<Rightarrow> GreetingsHttp \<Rightarrow> HandleRequest \<Rightarrow> endpoint_outcome option" where
  "greetings_answer G st request = macro_dispatch (greetings_provider G st) [create_handler, read_handler] () request"

definition greetings_after :: "'h greetings_lib \<Rightarrow> GreetingsHttp \<Rightarrow> HandleRequest \<Rightarrow> GreetingsHttp" where
  "greetings_after G st request =
     (if hr_route_id request = mr_id (mh_route create_handler) then
        (case extract_create G request of
           Some (Inr input) \<Rightarrow> (case create (gl_reason G) input st of Some (st', _) \<Rightarrow> st' | None \<Rightarrow> st)
         | _ \<Rightarrow> st)
      else st)"

section \<open>What is answered\<close>

lemma answer_create:
  assumes "hr_route_id request = mr_id (mh_route create_handler)"
  shows "greetings_answer G st request =
    Some (case extract_create G request of
       None \<Rightarrow> lower_error panicked
     | Some (Inl (RejectedResponse response)) \<Rightarrow> Inr (Inr response)
     | Some (Inl (RejectedInvocation e)) \<Rightarrow> lower_error e
     | Some (Inr input) \<Rightarrow> into_endpoint_result (call_create G st input))"
  using assms
  by (auto simp: greetings_answer_def macro_dispatch_def dispatch_arm_def create_handler_def create_method_def greetings_provider_def
      extracted_as_def argument_value_def split: option.splits sum.splits ExtractorRejection.splits)

lemma answer_read:
  assumes "hr_route_id request = mr_id (mh_route read_handler)" and "extract_greeting_path G request = Some (Inr greeting_id)"
  shows "greetings_answer G st request = Some (into_endpoint_result (call_read G st greeting_id))"
  using assms
  by (simp add: greetings_answer_def macro_dispatch_def dispatch_arm_def create_handler_def read_handler_def create_method_def
      greetings_provider_def extracted_as_def argument_value_def)

section \<open>The store\<close>

definition greetings_inv :: "GreetingsHttp \<Rightarrow> bool" where
  "greetings_inv st \<longleftrightarrow> bt_inv (gh_greetings st) \<and>
     (\<forall>i g. bt_get (gh_greetings st) i = Some g \<longrightarrow> gr_id g = i \<and> (\<exists>k \<le> unat (gh_next_id st). i = greeting_key k))"

lemma greeting_key_inj: "greeting_key k = greeting_key j \<longleftrightarrow> k = j"
  by (metis from_decimal_decimal greeting_key_def same_append_eq)

lemma create_stores:
  assumes "greetings_inv st" and "create reason input st = Some (st', Inr (status, g))"
  shows "greetings_inv st'" and "bt_get (gh_greetings st') (gr_id g) = Some g" and "bt_get (gh_greetings st) (gr_id g) = None"
    and "\<And>i h. bt_get (gh_greetings st) i = Some h \<Longrightarrow> bt_get (gh_greetings st') i = Some h"
    and "status = 201" and "gr_message g = ''Hello, '' @ trim input @ ''!''"
proof -
  have inv: "bt_inv (gh_greetings st)" using assms(1) by (simp add: greetings_inv_def)
  have g: "g = greeting_of (Suc (unat (gh_next_id st))) (trim input)"
    and st': "st' = \<lparr>gh_next_id = gh_next_id st + 1, gh_greetings = bt_insert (gr_id g) g (gh_greetings st)\<rparr>"
    and next': "unat (gh_next_id st + 1) = Suc (unat (gh_next_id st))" and "status = 201"
    using assms(2) by (auto simp: create_def Let_def unat_next split: if_splits)
  note get = bt_get_insert [OF inv, of "gr_id g" g]
  show "status = 201" "gr_message g = ''Hello, '' @ trim input @ ''!''" by (fact, simp add: g greeting_of_def)
  show fresh: "bt_get (gh_greetings st) (gr_id g) = None"
  proof (rule ccontr)
    assume "bt_get (gh_greetings st) (gr_id g) \<noteq> None"
    then obtain h where "bt_get (gh_greetings st) (gr_id g) = Some h" by blast
    with assms(1) obtain k where "k \<le> unat (gh_next_id st)" "gr_id g = greeting_key k" by (auto simp: greetings_inv_def)
    then show False by (simp add: g greeting_of_def greeting_key_inj)
  qed
  show "bt_get (gh_greetings st') (gr_id g) = Some g" by (simp add: st' get)
  show "bt_get (gh_greetings st') i = Some h" if "bt_get (gh_greetings st) i = Some h" for i h
    using that fresh by (auto simp: st' get)
  have key: "gr_id g = greeting_key (Suc (unat (gh_next_id st)))" by (simp add: g greeting_of_def)
  have entry: "gr_id h = i \<and> (\<exists>k \<le> Suc (unat (gh_next_id st)). i = greeting_key k)"
    if "bt_get (bt_insert (gr_id g) g (gh_greetings st)) i = Some h" for i h
  proof (cases "i = gr_id g")
    case True
    with that have "h = g" by (simp add: get)
    with True key show ?thesis by blast
  next
    case False
    with that have "bt_get (gh_greetings st) i = Some h" by (simp add: get)
    with assms(1) show ?thesis by (meson greetings_inv_def le_SucI)
  qed
  show "greetings_inv st'"
    unfolding greetings_inv_def st' GreetingsHttp.simps next' using entry bt_insert_inv [OF inv] by blast
qed

lemma create_refuses: "create reason input st = Some (st', Inl p) \<Longrightarrow> st' = st"
  by (auto simp: create_def Let_def split: if_splits)

lemma after_keeps:
  assumes "greetings_inv st"
  shows "greetings_inv (greetings_after G st request) \<and>
    (\<forall>i g. bt_get (gh_greetings st) i = Some g \<longrightarrow> bt_get (gh_greetings (greetings_after G st request)) i = Some g)"
  using assms create_stores(1,4) [OF assms]
  by (auto simp: greetings_after_def split: option.splits sum.splits prod.splits)
    (metis create_refuses sum.exhaust surj_pair)+

lemma all_keep:
  assumes "greetings_inv st"
  shows "greetings_inv (foldl (greetings_after G) st requests) \<and>
    (\<forall>i g. bt_get (gh_greetings st) i = Some g \<longrightarrow> bt_get (gh_greetings (foldl (greetings_after G) st requests)) i = Some g)"
  using assms
proof (induction requests arbitrary: st)
  case (Cons request requests)
  from after_keeps [OF Cons.prems] Cons.IH [of "greetings_after G st request"] show ?case by auto
qed simp

lemma default_inv: "greetings_inv greetings_default"
  by (simp add: greetings_inv_def greetings_default_def bt_inv_def)

section \<open>What a client sees\<close>

lemma create_rejections:
  assumes "extract_create G request = Some (Inl rejection)"
  shows "\<exists>r. rejection = RejectedResponse r \<and> hres_status r \<noteq> 201"
  using assms
  by (auto simp: extract_create_def extract_json_def reject_problem_def problem_def problem_into_response_def problem_new_def
      with_content_type_def split: if_splits option.splits sum.splits)

lemma created_answer:
  assumes "into_endpoint_result (call_create G st input) = Inr (Inr response)" and "hres_status response = 201"
  obtains st' g body where "create (gl_reason G) input st = Some (st', Inr (201, g))" and "gl_greeting G g = Inr body"
    and "response = with_content_type 201 JSON_CONTENT_TYPE body"
proof -
  have "\<exists>st' g body. create (gl_reason G) input st = Some (st', Inr (201, g)) \<and> gl_greeting G g = Inr body \<and>
      response = with_content_type 201 JSON_CONTENT_TYPE body"
    using assms
    by (auto simp: call_create_def create_def Let_def problem_result_def problem_into_response_def problem_new_def into_endpoint_result_def
        into_endpoint_error_def panicked_def status_into_response_def json_body_response_def with_content_type_def
        result_simps split: option.splits sum.splits if_splits)
  then show thesis using that by blast
qed

lemma read_answer:
  assumes "bt_get (gh_greetings st) i = Some g" and "gl_greeting G g = Inr body"
  shows "into_endpoint_result (call_read G st i) = Inr (Inr (with_content_type 200 JSON_CONTENT_TYPE body))"
  using assms by (simp add: call_read_def read_greeting_def json_body_response_def into_endpoint_result_def)

lemma greetings_refusals:
  assumes "writes_json (gl_to_vec G)" and "accepts_status (gl_http G)"
  shows "hr_route_id request = ''greetings.create'' \<Longrightarrow> extract_create G request = Some (Inr input) \<Longrightarrow> trim input = [] \<Longrightarrow>
      greetings_after G st request = st \<and> (\<exists>r. greetings_answer G st request = Some (Inr (Inr r)) \<and> is_problem 400 r)"
    and "hr_route_id request = ''greetings.read'' \<Longrightarrow> extract_greeting_path G request = Some (Inr i) \<Longrightarrow> bt_get (gh_greetings st) i = None \<Longrightarrow>
      \<exists>r. greetings_answer G st request = Some (Inr (Inr r)) \<and> is_problem 404 r"
proof -
  have built: "\<exists>r. into_endpoint_result (problem_result G (problem_new (gl_reason G) status code detail)) = Inr (Inr r) \<and> is_problem status r"
    if "100 \<le> status" "status < 1000" for status code detail
    using problem_built [OF assms that, of "gl_reason G" code detail]
    by (fastforce simp: problem_def problem_result_def into_endpoint_result_def into_endpoint_error_def is_problem_def with_content_type_def)
  show "greetings_after G st request = st \<and> (\<exists>r. greetings_answer G st request = Some (Inr (Inr r)) \<and> is_problem 400 r)"
    if "hr_route_id request = ''greetings.create''" "extract_create G request = Some (Inr input)" "trim input = []"
    using that built [of 400] by (simp add: greetings_after_def answer_create create_handler_def call_create_def create_def)
  show "\<exists>r. greetings_answer G st request = Some (Inr (Inr r)) \<and> is_problem 404 r"
    if "hr_route_id request = ''greetings.read''" "extract_greeting_path G request = Some (Inr i)" "bt_get (gh_greetings st) i = None"
    using that built [of 404] by (simp add: answer_read read_handler_def call_read_def read_greeting_def)
qed

text \<open>C40. A greeting that was created can be read back. When \<open>POST /greetings\<close> answers 201, the greeting it
  wrote greets the trimmed name under an identifier nobody held before, and, whatever requests follow,
  reading that identifier answers 200 with the very same body.
\<close>

theorem greetings_read_back:
  assumes "st = foldl (greetings_after G) greetings_default earlier"
    and "hr_route_id request = ''greetings.create''"
    and "greetings_answer G st request = Some (Inr (Inr response))" and "hres_status response = 201"
  shows "\<exists>input g. extract_create G request = Some (Inr input) \<and> gl_greeting G g = Inr (hres_body response) \<and>
    gr_message g = ''Hello, '' @ trim input @ ''!'' \<and> bt_get (gh_greetings st) (gr_id g) = None \<and>
    (\<forall>later read. hr_route_id read = ''greetings.read'' \<and> extract_greeting_path G read = Some (Inr (gr_id g)) \<longrightarrow>
       greetings_answer G (foldl (greetings_after G) (greetings_after G st request) later) read =
         Some (Inr (Inr (response\<lparr>hres_status := 200\<rparr>))))"
proof -
  have inv: "greetings_inv st" unfolding assms(1) using all_keep [OF default_inv] by blast
  have route: "hr_route_id request = mr_id (mh_route create_handler)" by (simp add: assms(2) create_handler_def)
  obtain input where input: "extract_create G request = Some (Inr input)"
    using assms(3,4) create_rejections [of G request]
    by (fastforce simp: answer_create [OF route] lower_error_def panicked_def split: option.splits sum.splits)
  with assms(3) have "into_endpoint_result (call_create G st input) = Inr (Inr response)" by (simp add: answer_create [OF route])
  then obtain st' g body where made: "create (gl_reason G) input st = Some (st', Inr (201, g))" "gl_greeting G g = Inr body"
    "response = with_content_type 201 JSON_CONTENT_TYPE body" using assms(4) by (rule created_answer)
  note stored = create_stores [OF inv made(1)]
  have after: "greetings_after G st request = st'" by (simp add: greetings_after_def route input made(1))
  have "greetings_answer G (foldl (greetings_after G) st' later) read = Some (Inr (Inr (response\<lparr>hres_status := 200\<rparr>)))"
    if "hr_route_id read = ''greetings.read''" "extract_greeting_path G read = Some (Inr (gr_id g))" for later read
  proof -
    have "bt_get (gh_greetings (foldl (greetings_after G) st' later)) (gr_id g) = Some g"
      using all_keep [OF stored(1)] stored(2) by blast
    with that show ?thesis
      by (simp add: answer_read read_handler_def read_answer made(2,3)) (simp add: with_content_type_def)
  qed
  then show ?thesis using input made stored(3,6) by (auto simp: after with_content_type_def)
qed

definition greetings_sample :: "(header_name \<times> header_value) list greetings_lib" where
  "greetings_sample =
     \<lparr>gl_http = list_http, gl_to_vec = (\<lambda>_. Inr ''{}''), gl_reason = (\<lambda>_. None), gl_create_greeting = (\<lambda>body. Some body),
      gl_path_to_string = (\<lambda>parameters. map_of parameters ''greeting_id''), gl_greeting_path = (\<lambda>s. Some s),
      gl_greeting = (\<lambda>g. Inr (gr_id g @ '' '' @ gr_message g))\<rparr>"

definition greetings_request :: "string \<Rightarrow> string \<Rightarrow> NameValue list \<Rightarrow> HandleRequest" where
  "greetings_request route_id body parameters =
     \<lparr>hr_body = body, hr_credential = None, hr_headers = [\<lparr>nv_name = ''content-type'', nv_value = ''application/json''\<rparr>],
      hr_method = ''POST'', hr_path = ''/greetings'', hr_path_parameters = parameters, hr_query = None, hr_request_id = ''1'', hr_route_id = route_id\<rparr>"

theorem greetings_read_back_witness:
  "let post = greetings_request ''greetings.create'' '' Lenso '' [];
       read = greetings_request ''greetings.read'' [] [\<lparr>nv_name = ''greeting_id'', nv_value = ''greeting-1''\<rparr>]
   in greetings_answer greetings_sample greetings_default post =
        Some (Inr (Inr (with_content_type 201 JSON_CONTENT_TYPE ''greeting-1 Hello, Lenso!''))) \<and>
      greetings_answer greetings_sample (foldl (greetings_after greetings_sample) greetings_default [post, post]) read =
        Some (Inr (Inr (with_content_type 200 JSON_CONTENT_TYPE ''greeting-1 Hello, Lenso!'')))"
proof -
  let ?post = "greetings_request ''greetings.create'' '' Lenso '' []"
  let ?read = "greetings_request ''greetings.read'' [] [\<lparr>nv_name = ''greeting_id'', nv_value = ''greeting-1''\<rparr>]"
  let ?r = "with_content_type 201 JSON_CONTENT_TYPE ''greeting-1 Hello, Lenso!''"
  have posted: "greetings_answer greetings_sample greetings_default ?post = Some (Inr (Inr ?r))" by code_simp
  have first: "greetings_default = foldl (greetings_after greetings_sample) greetings_default []" by simp
  have "hr_route_id ?post = ''greetings.create''" "hres_status ?r = 201"
    by (simp_all add: greetings_request_def with_content_type_def)
  from greetings_read_back [OF first this(1) posted this(2)] obtain input g where
    g: "extract_create greetings_sample ?post = Some (Inr input)" "gl_greeting greetings_sample g = Inr (hres_body ?r)"
      "gr_message g = ''Hello, '' @ trim input @ ''!''" and
    read: "\<forall>later read. hr_route_id read = ''greetings.read'' \<and> extract_greeting_path greetings_sample read = Some (Inr (gr_id g)) \<longrightarrow>
       greetings_answer greetings_sample (foldl (greetings_after greetings_sample) (greetings_after greetings_sample greetings_default ?post) later) read =
         Some (Inr (Inr (?r\<lparr>hres_status := 200\<rparr>)))"
    by blast
  have "extract_create greetings_sample ?post = Some (Inr '' Lenso '')" "trim '' Lenso '' = ''Lenso''" by code_simp+
  with g(1,3) have "gr_message g = ''Hello, Lenso!''" by simp
  then have "gr_id g @ '' Hello, Lenso!'' = ''greeting-1'' @ '' Hello, Lenso!''"
    using g(2) by (simp add: greetings_sample_def with_content_type_def)
  then have "gr_id g = ''greeting-1''" by (simp only: append_same_eq)
  moreover have "extract_greeting_path greetings_sample ?read = Some (Inr ''greeting-1'')" by code_simp
  moreover have "hr_route_id ?read = ''greetings.read''" by (simp add: greetings_request_def)
  ultimately have "greetings_answer greetings_sample (foldl (greetings_after greetings_sample) greetings_default [?post, ?post]) ?read =
      Some (Inr (Inr (?r\<lparr>hres_status := 200\<rparr>)))" using read [rule_format, of ?read "[?post]"] by simp
  then show ?thesis using posted by (simp add: Let_def with_content_type_def)
qed

section \<open>The application\<close>

text \<open>\<open>main\<close>: a host with one plugin and a fixed address, and its run.\<close>

definition greetings_host :: "string \<Rightarrow> ('o, 'm) NativeWebHost" where
  "greetings_host package_id = host_bind \<lparr>sa_ip = IpV4 127 0 0 1, sa_port = 8080\<rparr> (host_plugin package_id host_new)"

definition greetings_main where
  "greetings_main L resolver discovered to_json registry with_adapter boot ctrl_c app_shutdown package_id =
     run_native (host_start L resolver discovered to_json registry with_adapter boot (greetings_host package_id)) ctrl_c app_shutdown"

text \<open>The application needs nothing but its own plugin: the catalog of a registry that discovered it is complete.\<close>

lemma greetings_host_catalog:
  fixes host :: "('o, 'm) NativeWebHost"
  assumes "host = greetings_host (pd_plugin_id d)" and "pd_plugin_id d \<noteq> INGRESS_PACKAGE_ID" and "provides_capability d HTTP_ENDPOINT"
    and "\<And>config. to_json config = Inr (configuration config)"
  shows "\<exists>config catalog. host_config L host = (Inr config :: 'x WebHostError + WebIngressConfig) \<and>
    wic_bind_address config = \<lparr>sa_ip = IpV4 127 0 0 1, sa_port = 8080\<rparr> \<and>
    web_catalog (Inr [d]) to_json config (nwh_root host) [] [] [] False = (Inr catalog :: 'x WebHostError + HostCatalog) \<and>
    hc_releases catalog = [ingress_descriptor, d] \<and>
    (\<exists>b \<in> set (hc_bindings catalog). hbd_capability b = HTTP_ENDPOINT \<and>
       hbd_providers b = [\<lparr>pid_plugin_id = pd_plugin_id d, pid_instance_key = INSTANCE_KEY\<rparr>])"
proof -
  let ?config = "default_config\<lparr>wic_bind_address := \<lparr>sa_ip = IpV4 127 0 0 1, sa_port = 8080\<rparr>\<rparr>"
  have "config_validate L ?config = Inr ()"
    by (simp add: config_validate_def default_config_def in_limit_def limit_defs)
  then have config: "host_config L host = (Inr ?config :: 'x WebHostError + WebIngressConfig)"
    by (simp add: assms(1) greetings_host_def host_config_def host_bind_def host_plugin_def host_new_def push_instance_def Let_def
        with_bind_address_def checked_def)
  have releases: "host_releases [d] [] = [ingress_descriptor, d]"
    using assms(2) by (simp add: host_releases_def admit_release_def ingress_descriptor_def)
  have instances: "map pri_id (prs_instances (nwh_root host)) = [\<lparr>pid_plugin_id = pd_plugin_id d, pid_instance_key = INSTANCE_KEY\<rparr>]"
    by (simp add: assms(1) greetings_host_def host_bind_def host_plugin_def host_new_def push_instance_def replacement_instance_def)
  have provider: "endpoint_ids_for [\<lparr>pid_plugin_id = INGRESS_PACKAGE_ID, pid_instance_key = INSTANCE_KEY\<rparr>,
        \<lparr>pid_plugin_id = pd_plugin_id d, pid_instance_key = INSTANCE_KEY\<rparr>] [ingress_descriptor, d] HTTP_ENDPOINT =
      [\<lparr>pid_plugin_id = pd_plugin_id d, pid_instance_key = INSTANCE_KEY\<rparr>]"
    using assms(2,3) by (simp add: endpoint_ids_for_def ingress_descriptor_def provides_capability_def)
  show ?thesis
    using config assms(2) by (simp add: web_catalog_def assms(4) releases instances provider Let_def ingress_bindings_def)
qed

end
