(* ===== verification/ObserveSample.thy ===== *)
theory ObserveSample
  imports WebHost
begin

text \<open>
  The observe sample (\<open>src/examples/observe-sample-web-app/src/main.rs\<close>): its settings, the middleware
  that traces requests, its endpoint, its plan and \<open>run\<close>. The telemetry plugin, the kernel and the
  environment are parameters; the clock is part of the world the middleware runs in.
\<close>

section \<open>Trace identities\<close>

text \<open>The formatting \<open>{sequence:032x}\<close>: hexadecimal, padded with zeros on the left.\<close>

definition hex_digit :: "nat \<Rightarrow> char" where
  "hex_digit n = char_of (if n < 10 then 48 + n else 87 + n)"

fun hex_text :: "nat \<Rightarrow> string" where
  "hex_text n = (if n < 16 then [hex_digit n] else hex_text (n div 16) @ [hex_digit (n mod 16)])"

declare hex_text.simps [simp del]

definition hex_padded :: "nat \<Rightarrow> nat \<Rightarrow> string" where
  "hex_padded width n = replicate (width - length (hex_text n)) (CHR ''0'') @ hex_text n"

definition sample_traceparent :: "64 word \<Rightarrow> string" where
  "sample_traceparent sequence = ''00-'' @ hex_padded 32 (unat sequence) @ ''-'' @ hex_padded 16 (unat sequence) @ ''-01''"

definition saturating_next :: "64 word \<Rightarrow> 64 word" where
  "saturating_next n = (if n = - 1 then n else n + 1)"

section \<open>The middleware\<close>

record 'c ActiveRequestSpan =
  ars_context :: 'c
  ars_started_at :: nat

text \<open>Of the request's extensions the sample uses one entry.\<close>

record ('h, 'c) observed_request = "'h WebIngressRequest" +
  wreq_span :: "'c ActiveRequestSpan option"

record 'c OtelSpan =
  os_name :: string
  os_trace_context :: 'c
  os_parent_span_id :: "string option"
  os_started_at :: nat
  os_ended_at :: "nat option"
  os_attributes :: "(string, string) btree"

text \<open>The shared counter, the time since the clock's start, the telemetry handle, and everything else.\<close>

record ('t, 'w) observe_world =
  ow_next_span :: "64 word"
  ow_elapsed :: nat
  ow_telemetry :: 't
  ow_app :: 'w

text \<open>A trace identity that does not parse leaves the request unobserved.\<close>

definition observe_before ::
  "(string \<Rightarrow> string + 'c) \<Rightarrow> ('t, 'w) observe_world \<Rightarrow> ('h, 'c) observed_request \<Rightarrow>
   ('t, 'w) observe_world \<times> ('h, 'c) observed_request \<times> (unwind + 'h WebIngressResponse WebIngressMiddlewareOutcome)" where
  "observe_before from_traceparent w request =
     (let sequence = ow_next_span w;
          w = w\<lparr>ow_next_span := saturating_next sequence\<rparr>
      in (w,
          case from_traceparent (sample_traceparent sequence) of
            Inl _ \<Rightarrow> request
          | Inr ctx \<Rightarrow> request\<lparr>wreq_span := Some \<lparr>ars_context = ctx, ars_started_at = ow_elapsed w\<rparr>\<rparr>,
          Inr Continue))"

definition request_span :: "nat \<Rightarrow> ('h, 'c) observed_request \<Rightarrow> 'h WebIngressResponse \<Rightarrow> 'c ActiveRequestSpan \<Rightarrow> 'c OtelSpan" where
  "request_span now request response active =
     (let method = wreq_method request;
          route = uri_path (wreq_uri request)
      in \<lparr>os_name = method @ '' '' @ route, os_trace_context = ars_context active, os_parent_span_id = None,
          os_started_at = ars_started_at active, os_ended_at = Some now,
          os_attributes = foldl (\<lambda>m (k, v). bt_insert k v m) []
            [(''http.request.method'', method), (''http.route'', route), (''http.response.status_code'', decimal (wres_status response))]\<rparr>)"

text \<open>What \<open>try_emit\<close> returns is dropped.\<close>

definition observe_after ::
  "('c OtelSpan \<Rightarrow> 't \<Rightarrow> 't \<times> 'e) \<Rightarrow> ('t, 'w) observe_world \<Rightarrow> ('h, 'c) observed_request \<Rightarrow> 'h WebIngressResponse \<Rightarrow>
   ('t, 'w) observe_world \<times> 'h WebIngressResponse \<times> (unwind + unit)" where
  "observe_after try_emit w request response =
     (case wreq_span request of
        None \<Rightarrow> (w, response, Inr ())
      | Some active \<Rightarrow>
          (w\<lparr>ow_telemetry := fst (try_emit (request_span (ow_elapsed w) request response active) (ow_telemetry w))\<rparr>, response, Inr ()))"

definition ObserveRequests ::
  "(string \<Rightarrow> string + 'c) \<Rightarrow> ('c OtelSpan \<Rightarrow> 't \<Rightarrow> 't \<times> 'e) \<Rightarrow>
   (('t, 'w) observe_world, ('h, 'c) observed_request, 'h WebIngressResponse) WebIngressMiddleware" where
  "ObserveRequests from_traceparent try_emit =
     \<lparr>wim_identity = ''lenso.observe.sample:v1'', wim_before = observe_before from_traceparent, wim_after = observe_after try_emit\<rparr>"

definition observe_new :: "'t \<Rightarrow> 'w \<Rightarrow> ('t, 'w) observe_world" where
  "observe_new telemetry app = \<lparr>ow_next_span = 1, ow_elapsed = 0, ow_telemetry = telemetry, ow_app = app\<rparr>"

section \<open>The endpoint\<close>

definition SAMPLE_PACKAGE_ID :: string where "SAMPLE_PACKAGE_ID = ''lenso.example.observe-sample-web''"
definition OTEL_INSTANCE :: string where "OTEL_INSTANCE = ''otel''"

definition sample_describe :: DescribeResponse where
  "sample_describe = \<lparr>dr_routes = [\<lparr>dri_method = ''GET'', dri_openapi = None, dri_path = ''/orders/{order_id}'', dri_route_id = ''sample.orders.read''\<rparr>]\<rparr>"

definition sample_order_id :: "HandleRequest \<Rightarrow> string" where
  "sample_order_id request =
     (case List.find (\<lambda>p. nv_name p = ''order_id'') (hr_path_parameters request) of None \<Rightarrow> ''unknown'' | Some p \<Rightarrow> nv_value p)"

definition sample_body :: "string \<Rightarrow> string" where
  "sample_body order_id = ''{\"id\":\"'' @ order_id @ ''\",\"status\":\"ready\"}''"

definition sample_handle :: "HandleRequest \<Rightarrow> RuntimeFailure + (HandleError + HandleResponse)" where
  "sample_handle request =
     Inr (Inr \<lparr>hres_body = sample_body (sample_order_id request),
       hres_headers = [\<lparr>nv_name = ''content-type'', nv_value = ''application/json; charset=utf-8''\<rparr>], hres_status = 200\<rparr>)"

text \<open>The factory's instance ignores its context.\<close>

definition sample_instantiate :: "RuntimeFailure + (HandleRequest \<Rightarrow> RuntimeFailure + (HandleError + HandleResponse)) list" where
  "sample_instantiate = Inr [sample_handle]"

section \<open>Settings, plan and run\<close>

record sample_settings =
  ss_bind_address :: SocketAddr
  ss_otlp_endpoint :: string
  ss_token_file :: string

text \<open>One constructor for each way \<open>run\<close> fails, with the cause.\<close>

datatype sample_error =
    ParseBindAddress string
  | ReadToken string string
  | ExporterFailed string
  | BindAddressRefused string
  | PlanFailed string
  | AppFailed string
  | AddressNotPublished
  | WaitForCtrlC string
  | NotCleanlyShutDown

text \<open>\<open>env\<close> is \<open>std::env::var\<close>, which also fails on a value that is not Unicode; \<open>env_os\<close> is \<open>var_os\<close>.\<close>

definition settings_read ::
  "(string \<Rightarrow> string option) \<Rightarrow> (string \<Rightarrow> string option) \<Rightarrow> (string \<Rightarrow> string + SocketAddr) \<Rightarrow> sample_error + sample_settings" where
  "settings_read env env_os parse_address =
     try_in (map_err ParseBindAddress (parse_address (case env ''LENSO_SAMPLE_BIND_ADDRESS'' of None \<Rightarrow> ''127.0.0.1:3000'' | Some v \<Rightarrow> v))) (\<lambda>bind_address.
       Inr \<lparr>ss_bind_address = bind_address,
            ss_otlp_endpoint = (case env ''LENSO_OBSERVE_OTLP_ENDPOINT'' of None \<Rightarrow> ''http://127.0.0.1:4318'' | Some v \<Rightarrow> v),
            ss_token_file = (case env_os ''LENSO_OBSERVE_TOKEN_FILE'' of None \<Rightarrow> ''.lenso/console/observe/otlp-token'' | Some v \<Rightarrow> v)\<rparr>)"

record PluginInstancePlan =
  pip_instance :: string
  pip_package_id :: string
  pip_capabilities :: "(string \<times> string \<times> string list) list"
  pip_requirements :: "(string \<times> string) list"
  pip_configuration :: "string option"

record CapabilityBinding =
  cbd_consumer :: string
  cbd_capability_id :: string
  cbd_descriptor_version :: string
  cbd_provider :: string
  cbd_admission :: "(nat \<times> nat) option"

definition instance_plan_new :: "string \<Rightarrow> string \<Rightarrow> PluginInstancePlan" where
  "instance_plan_new name package_id =
     \<lparr>pip_instance = name, pip_package_id = package_id, pip_capabilities = [], pip_requirements = [], pip_configuration = None\<rparr>"

definition sample_plan ::
  "(WebIngressConfig \<Rightarrow> string + string) \<Rightarrow> string \<Rightarrow> (PluginInstancePlan list \<Rightarrow> CapabilityBinding list \<Rightarrow> string + 'plan) \<Rightarrow> WebIngressConfig \<Rightarrow>
   sample_error + 'plan" where
  "sample_plan to_string otel_package_id resolver config =
     (let endpoint = (instance_plan_new ''sample-http'' SAMPLE_PACKAGE_ID)\<lparr>pip_capabilities := [(HTTP_ENDPOINT, ''1.1.0'', [''describe'', ''handle''])]\<rparr> in
      try_in (map_err PlanFailed (to_string config)) (\<lambda>configuration.
        let ingress = (instance_plan_new ''web-ingress'' INGRESS_PACKAGE_ID)\<lparr>pip_requirements := [(HTTP_ENDPOINT, ''1.1.0'')],
              pip_configuration := Some configuration\<rparr>;
            otel = instance_plan_new OTEL_INSTANCE otel_package_id
        in map_err PlanFailed (resolver [endpoint, ingress, otel]
             [\<lparr>cbd_consumer = ''web-ingress'', cbd_capability_id = HTTP_ENDPOINT, cbd_descriptor_version = ''1.1.0'', cbd_provider = ''sample-http'',
               cbd_admission = Some (endpoint_admission_limits config)\<rparr>])))"

text \<open>
  \<open>run\<close>; \<open>start\<close> is the kernel's start with what the ingress has published by then, and the result of
  \<open>shutdown\<close> is whether the outcome is clean within the three seconds it is given.
\<close>

definition sample_run ::
  "'h http_lib \<Rightarrow> sample_error + sample_settings \<Rightarrow> (string \<Rightarrow> string + string) \<Rightarrow> (string \<Rightarrow> string \<Rightarrow> string \<Rightarrow> string + 'exporter) \<Rightarrow>
   (WebIngressConfig \<Rightarrow> sample_error + 'plan) \<Rightarrow> ('plan \<Rightarrow> 'exporter \<Rightarrow> string + 'app \<times> string option) \<Rightarrow> string + unit \<Rightarrow> ('app \<Rightarrow> nat \<Rightarrow> bool) \<Rightarrow>
   sample_error + unit" where
  "sample_run L settings read_file exporter_new plan start ctrl_c shutdown =
     try_in settings (\<lambda>s.
     try_in (map_err (ReadToken (ss_token_file s)) (read_file (ss_token_file s))) (\<lambda>token.
     try_in (map_err ExporterFailed (exporter_new (ss_otlp_endpoint s) (trim token) ''observe-sample-web'')) (\<lambda>exporter.
     try_in (map_err BindAddressRefused (with_bind_address L default_config (ss_bind_address s))) (\<lambda>config.
     try_in (plan config) (\<lambda>plan.
     try_in (map_err AppFailed (start plan exporter)) (\<lambda>(app, address).
     try_in (ok_or address AddressNotPublished) (\<lambda>_.
     try_in (map_err WaitForCtrlC ctrl_c) (\<lambda>_.
       if shutdown app 3000 then Inr () else Inl NotCleanlyShutDown))))))))"

section \<open>Trace identities are well formed and distinct\<close>

definition from_hex :: "string \<Rightarrow> nat" where
  "from_hex s = foldl (\<lambda>a c. 16 * a + (if byte c < 58 then byte c - 48 else byte c - 87)) 0 s"

lemma hex_digit_value: "n < 16 \<Longrightarrow> (if byte (hex_digit n) < 58 then byte (hex_digit n) - 48 else byte (hex_digit n) - 87) = n"
  by (auto simp: hex_digit_def)

lemma from_hex_text: "from_hex (hex_text n) = n"
proof (induction n rule: hex_text.induct)
  case (1 n)
  show ?case
  proof (cases "n < 16")
    case True
    then show ?thesis using hex_digit_value [of n] by (subst hex_text.simps) (simp add: from_hex_def)
  next
    case False
    then have "from_hex (hex_text n) = 16 * from_hex (hex_text (n div 16)) + n mod 16"
      using hex_digit_value [of "n mod 16"] by (subst hex_text.simps) (simp add: from_hex_def)
    then show ?thesis using 1 [OF False] by simp
  qed
qed

lemma from_hex_padded: "from_hex (hex_padded width n) = n"
proof -
  have "from_hex (replicate k (CHR ''0'') @ s) = from_hex s" for k s
    by (induction k) (simp_all add: from_hex_def byte_def)
  then show ?thesis by (simp add: hex_padded_def from_hex_text)
qed

lemma hex_text_length: "0 < k \<Longrightarrow> n < 16 ^ k \<Longrightarrow> length (hex_text n) \<le> k"
proof (induction k arbitrary: n)
  case (Suc k)
  show ?case
  proof (cases "n < 16")
    case False
    with Suc.prems have "0 < k" "n div 16 < 16 ^ k" by (auto intro: gr0I simp: less_mult_imp_div_less mult.commute)
    with Suc.IH [of "n div 16"] False show ?thesis by (subst hex_text.simps) simp
  qed (simp add: hex_text.simps)
qed simp

lemma hex_padded_length: "0 < width \<Longrightarrow> n < 16 ^ width \<Longrightarrow> length (hex_padded width n) = width"
  using hex_text_length [of width n] by (simp add: hex_padded_def)

lemma sequence_bounds: "unat (n :: 64 word) < 16 ^ 16" "unat (n :: 64 word) < 16 ^ 32"
  using unsigned_less [where 'a = nat, of n] by simp_all

lemma traceparent_shape:
  "\<exists>trace span. sample_traceparent n = ''00-'' @ trace @ ''-'' @ span @ ''-01'' \<and> length trace = 32 \<and> length span = 16 \<and>
     from_hex trace = unat n \<and> from_hex span = unat n"
  using sequence_bounds [of n] hex_padded_length [of 32 "unat n"] hex_padded_length [of 16 "unat n"]
  by (intro exI [of _ "hex_padded 32 (unat n)"] exI [of _ "hex_padded 16 (unat n)"]) (simp add: sample_traceparent_def from_hex_padded)

lemma traceparent_inj: "sample_traceparent m = sample_traceparent n \<Longrightarrow> m = n"
proof -
  assume same: "sample_traceparent m = sample_traceparent n"
  have "length (hex_padded 32 (unat m)) = length (hex_padded 32 (unat n))"
    using sequence_bounds(2) by (simp add: hex_padded_length)
  with same have "hex_padded 32 (unat m) = hex_padded 32 (unat n)" by (simp add: sample_traceparent_def)
  then show "m = n" by (metis from_hex_padded unsigned_word_eqI)
qed

section \<open>Serving requests\<close>

text \<open>Requests one after another; a failed one does not end the sequence.\<close>

fun serve_all ::
  "('w, 'req, 'res) WebIngressMiddleware list \<Rightarrow> ('w \<Rightarrow> 'req \<Rightarrow> 'w \<times> (unwind + 'res)) \<Rightarrow> 'w \<Rightarrow> 'req list \<Rightarrow> 'w \<times> (unwind + 'res) list" where
  "serve_all middleware proceed w [] = (w, [])"
| "serve_all middleware proceed w (request # requests) =
     (case run_middleware middleware proceed w request of (w, r) \<Rightarrow>
      case serve_all middleware proceed w requests of (w, rs) \<Rightarrow> (w, r # rs))"

text \<open>The routes behind the middleware see the request itself; meanwhile the clock runs.\<close>

definition observed_proceed ::
  "(nat \<Rightarrow> nat) \<Rightarrow> ('w \<Rightarrow> 'h WebIngressRequest \<Rightarrow> 'w \<times> (unwind + 'res)) \<Rightarrow>
   ('t, 'w) observe_world \<Rightarrow> ('h, 'c) observed_request \<Rightarrow> ('t, 'w) observe_world \<times> (unwind + 'res)" where
  "observed_proceed tick proceed w request =
     (case proceed (ow_app w) (WebIngressRequest.truncate request) of (app, r) \<Rightarrow>
        (w\<lparr>ow_app := app, ow_elapsed := tick (ow_elapsed w)\<rparr>, r))"

lemma run_one:
  "run_middleware [m] proceed w request =
     (case wim_before m w request of
        (w1, req, Inl u) \<Rightarrow> (w1, Inl u)
      | (w1, req, Inr out) \<Rightarrow>
          (case (case out of Respond r \<Rightarrow> (w1, Inr r) | Continue \<Rightarrow> proceed w1 req) of
             (w2, Inl u) \<Rightarrow> (w2, Inl u)
           | (w2, Inr r) \<Rightarrow> (case wim_after m w2 req r of (w3, _, Inl u) \<Rightarrow> (w3, Inl u) | (w3, r', Inr _) \<Rightarrow> (w3, Inr r'))))"
  by (auto simp: run_middleware_def split: prod.splits sum.splits WebIngressMiddlewareOutcome.splits)

lemma observed_one:
  "map_prod ow_app id (run_middleware [ObserveRequests from_traceparent try_emit] (observed_proceed tick proceed) w request) =
     run_middleware [] proceed (ow_app w) (WebIngressRequest.truncate request)"
  unfolding run_one
  by (auto simp: ObserveRequests_def observe_before_def observe_after_def observed_proceed_def run_middleware_def Let_def
      WebIngressRequest.truncate_def split: prod.splits sum.splits option.splits)

text \<open>C38. Observing never changes what clients see. Whatever the telemetry does with the spans it is
  offered and whether or not the trace identities parse, every request gets the answer, and leaves the
  application in the state, that it would without the middleware.
\<close>

theorem observation_is_transparent:
  "map_prod ow_app id (serve_all [ObserveRequests from_traceparent try_emit] (observed_proceed tick proceed) w requests) =
     serve_all [] proceed (ow_app w) (map WebIngressRequest.truncate requests)"
proof (induction requests arbitrary: w)
  case (Cons request requests)
  obtain w1 r where one: "run_middleware [ObserveRequests from_traceparent try_emit] (observed_proceed tick proceed) w request = (w1, r)" by fastforce
  with observed_one [of from_traceparent try_emit tick proceed w request]
  have "run_middleware [] proceed (ow_app w) (WebIngressRequest.truncate request) = (ow_app w1, r)" by simp
  with one Cons.IH [of w1, symmetric] show ?case by (simp split: prod.splits)
qed simp

section \<open>One span for every answer\<close>

definition recording :: "'c OtelSpan \<Rightarrow> 'c OtelSpan list \<Rightarrow> 'c OtelSpan list \<times> unit" where
  "recording span spans = (spans @ [span], ())"

fun answered_contexts :: "(string \<Rightarrow> string + 'c) \<Rightarrow> 64 word \<Rightarrow> (unwind + 'res) list \<Rightarrow> (string + 'c) list" where
  "answered_contexts from_traceparent n [] = []"
| "answered_contexts from_traceparent n (r # rs) =
     (if is_ok r then [from_traceparent (sample_traceparent n)] else []) @ answered_contexts from_traceparent (saturating_next n) rs"

text \<open>
  When every identity parses, the spans offered are exactly those of the answered requests, in order, each
  under the identity its request was given.
\<close>

lemma spans_follow_answers:
  assumes "\<And>n. is_ok (from_traceparent (sample_traceparent n))"
    and "serve_all [ObserveRequests from_traceparent recording] (observed_proceed tick proceed) w requests = (w', results)"
  shows "\<exists>spans. ow_telemetry w' = ow_telemetry w @ spans \<and>
    map (\<lambda>s. Inr (os_trace_context s)) spans = answered_contexts from_traceparent (ow_next_span w) results"
  using assms(2)
proof (induction requests arbitrary: w results)
  case (Cons request requests)
  obtain ctx where ctx: "from_traceparent (sample_traceparent (ow_next_span w)) = Inr ctx" using assms(1) unfolding is_ok_iff by blast
  obtain w1 r where one: "run_middleware [ObserveRequests from_traceparent recording] (observed_proceed tick proceed) w request = (w1, r)" by fastforce
  obtain rs where rest: "serve_all [ObserveRequests from_traceparent recording] (observed_proceed tick proceed) w1 requests = (w', rs)"
    and results: "results = r # rs" using Cons.prems one by (auto split: prod.splits)
  from Cons.IH [OF rest] obtain spans where spans: "ow_telemetry w' = ow_telemetry w1 @ spans"
    "map (\<lambda>s. Inr (os_trace_context s)) spans = answered_contexts from_traceparent (ow_next_span w1) rs" by blast
  have "ow_next_span w1 = saturating_next (ow_next_span w) \<and>
      (\<exists>first. ow_telemetry w1 = ow_telemetry w @ first \<and> map (\<lambda>s. Inr (os_trace_context s)) first = (if is_ok r then [Inr ctx :: string + 'a] else []))"
    using one unfolding run_one
    by (auto simp: ObserveRequests_def observe_before_def observe_after_def observed_proceed_def Let_def ctx recording_def request_span_def
        split: prod.splits sum.splits)
  with spans show ?case by (fastforce simp: results ctx)
qed simp

text \<open>The identities stay apart until the counter saturates.\<close>

lemma sequence_advances: "unat n + k < 2 ^ 64 \<Longrightarrow> unat ((saturating_next ^^ k) n) = unat n + k"
proof (induction k)
  case (Suc k)
  then have "unat ((saturating_next ^^ k) n) = unat n + k" by simp
  moreover from this Suc.prems have "(saturating_next ^^ k) n \<noteq> - 1" by (auto simp: unsigned_minus_1_eq_mask mask_eq_exp_minus_1)
  ultimately show ?case by (simp add: saturating_next_def [of "(saturating_next ^^ k) n"] unat_next)
qed simp

lemma traces_are_distinct:
  assumes "i < j" and "unat n + j < 2 ^ 64"
  shows "sample_traceparent ((saturating_next ^^ i) n) \<noteq> sample_traceparent ((saturating_next ^^ j) n)"
proof
  assume "sample_traceparent ((saturating_next ^^ i) n) = sample_traceparent ((saturating_next ^^ j) n)"
  then have "(saturating_next ^^ i) n = (saturating_next ^^ j) n" by (rule traceparent_inj)
  with sequence_advances [of n i] sequence_advances [of n j] assms show False by simp
qed

section \<open>The endpoint's answers\<close>

lemma sample_handle_answers:
  "\<exists>response. sample_handle request = Inr (Inr response) \<and> hres_status response = 200 \<and> hres_body response = sample_body (sample_order_id request)"
  by (simp add: sample_handle_def)

text \<open>The identifier is not escaped: one that holds a quotation mark adds members of its own to the object.\<close>

lemma order_id_not_escaped:
  "sample_body ''1\",\"status\":\"lost\",\"note\":\"'' = ''{\"id\":\"1\",\"status\":\"lost\",\"note\":\"\",\"status\":\"ready\"}''"
  by (simp add: sample_body_def)

text \<open>A run that ends well stopped an application that had been listening at its address.\<close>

lemma sample_run_clean:
  assumes "sample_run L settings read_file exporter_new plan start ctrl_c shutdown = Inr ()"
  shows "\<exists>p exporter app address. start p exporter = Inr (app, Some address) \<and> ctrl_c = Inr () \<and> shutdown app 3000"
  using assms by (auto simp: sample_run_def try_in_Inr_iff map_err_Inr_iff ok_or_def split: option.splits if_splits)

end
