(* ===== verification/Spec2Isabelle.thy ===== *)
theory Spec2Isabelle
  imports EgressWorkers ServedDocument ServeLoop ResponseBodies WsNative Greetings ObserveSample
begin

text \<open>
  Verification of the Lenso web packages.

  \<^bold>\<open>The program.\<close> A Lenso application is a set of plugins that a kernel boots from a plan. The web
  packages under \<open>src/crates\<close> add HTTP to it. The ingress plugin (\<open>lenso-web-ingress-plugin\<close>)
  accepts requests, selects a credential, runs the global middleware, matches a route and calls the endpoint
  provider that owns it, over one of three capability contracts: buffered HTTP, streaming HTTP and
  WebSocket (\<open>lenso-capability-http-endpoint\<close>, \<open>lenso-capability-http-stream-endpoint\<close>,
  \<open>lenso-capability-websocket-endpoint\<close>). The endpoint crate also gives providers their route tables, extractors,
  responses and contract fragments, \<open>lenso-capability-http-endpoint-macros\<close> generates a provider from the attributes of an
  impl block, and \<open>lenso-http-auth\<close> gives it an actor. The OpenAPI plugin
  (\<open>lenso-openapi-plugin\<close>) is a provider that describes all others. The egress plugin
  (\<open>lenso-http-egress-plugin\<close>) sends requests out, over the contract \<open>lenso-capability-http-client\<close>.
  The host (\<open>lenso-web-host\<close>) puts the parts together.

  \<^bold>\<open>Shared theories.\<close> \<open>Prelude\<close> (strings as bytes, results, \<open>usize\<close> arithmetic, reachability in a step
  relation), \<open>Decimal\<close>, \<open>Json\<close> (ordered maps and JSON values), \<open>Runtime\<close> (failures of the kernel) and
  \<open>Contracts\<close> (the data of the generated contract modules). Four theories hold contracts that several
  components meet, each a locale: \<open>HeaderBoundary\<close> (which headers cross a trust boundary, in both
  directions of the ingress and in the egress), \<open>BoundedBody\<close> (reading a body under a limit, for the server and the egress),
  \<open>PullSession\<close> (sessions pulled by concurrent calls, for the response stream and the WebSocket session) and
  \<open>Admission\<close> (permits of a semaphore, for egress calls, shared connections, own connections and requests at both gates).
  \<open>ContractCodec\<close> has a fifth one, for the wire codecs of the seven domain errors, and \<open>ContractPorts\<close> two more, for the request and the
  stream ports of the four contracts.

  \<^bold>\<open>Ingress.\<close>
  \<^item> \<open>SessionCookie\<close>, \<open>IngressConfig\<close>: \<open>session_cookie.rs\<close> and \<open>config.rs\<close>. CSRF double submit, ambiguous
    credentials; every configuration the builders return is within its limits.
  \<^item> \<open>Inbound\<close>, \<open>Middleware\<close>, \<open>IngressResponses\<close>: \<open>ingress.rs\<close>, \<open>middleware.rs\<close>, \<open>manifest.rs\<close>. Which headers an endpoint
    sees, what middleware can and cannot change, the chain as nested layers, which response headers belong to the ingress, and that the
    whole pipeline \<open>dispatch_buffered\<close> never panics.
  \<^item> \<open>Handshake\<close>, \<open>Routing\<close>: \<open>websocket_handshake.rs\<close>, \<open>routing.rs\<close>, \<open>diagnostics.rs\<close>. The table owns exactly the declared
    routes, and a request reaches the provider of its route.
  \<^item> \<open>ResponseStream\<close>, \<open>WsSession\<close>: \<open>response_stream.rs\<close>, \<open>websocket.rs\<close>. Asynchronous operations are
    split at their suspension points; the theorems hold for every interleaving of \<open>pull_step\<close>.
  \<^item> \<open>Server\<close>, \<open>ServeLoop\<close>, \<open>ResponseBodies\<close>: \<open>server.rs\<close>. A service call, the body limit, request admission, the connection tasks, the accept loop and its
    shutdown, and the response body as it is polled: the client gets the chunks the endpoint streamed and can tell a complete body from an aborted one.
  \<^item> \<open>WsNative\<close>: \<open>websocket_native.rs\<close>. Both pumps between a socket and the session, in order and without loss.
  \<^item> \<open>Replication\<close>: \<open>replication.rs\<close>. Replicas agree before the first connection, the limits are global, connections go round robin.
  \<^item> \<open>EventIngress\<close>: \<open>event.rs\<close>, \<open>native.rs\<close>. The event host and the socket give the same answer.

  \<^bold>\<open>Endpoints, documents, egress, host.\<close>
  \<^item> \<open>ContractCodec\<close>, \<open>ContractPorts\<close>: the behaviour of the four \<open>generated.rs\<close>. Domain errors survive the wire; what a plugin's method returns, in
    any of its result types and through the typed or the erased invocation, is what a client sees; every provider is bound.
  \<^item> \<open>EndpointResponse\<close>, \<open>EndpointAuthoring\<close>, \<open>ContractBuilder\<close>: \<open>response.rs\<close>, \<open>extract.rs\<close>, \<open>lenso-http-auth\<close>,
    \<open>authoring.rs\<close>, \<open>testing.rs\<close>, \<open>contract.rs\<close>. Route tables validated at compile time start, the declared handler is reached through
    the ingress, a built contract passes the OpenAPI validation.
  \<^item> \<open>MacroSyntax\<close>, \<open>EndpointMacro\<close>, \<open>MacroContract\<close>, \<open>MacroServing\<close>: the attribute macros. The parsers of the attributes, the
    metadata of a handler, the contract derived from its signature, and the generated routes, factories and dispatch as the values they denote. The
    expansion terminates; a handler runs only after its middleware and extractors; strict contracts document every rejection of
    the extractors and are accepted; expanded endpoints start and are reached; a written operation is described as written.
  \<^item> \<open>OpenApiContract\<close>, \<open>OpenApiAssemble\<close>, \<open>ServedDocument\<close>: the OpenAPI plugin. Schema normalization, contract comparison, that the document
    holds every route exactly once, and, for endpoints of the macro, that the served document has their handlers and no drift.
  \<^item> \<open>EgressConfig\<close>, \<open>EgressPolicy\<close>, \<open>EgressProvider\<close>, \<open>EgressEvent\<close>, \<open>EgressWorkers\<close>: the egress plugin, with the native client, a host
    transport and the bridge to a JavaScript host. Only allowed destinations are contacted, within the limits and the concurrency.
  \<^item> \<open>WebHost\<close>, \<open>HostRun\<close>: \<open>lenso-web-host\<close>. The builder, the catalog handed to the plan resolver, one replica and one catalog per lane,
    the running hosts and their loops, Tower policies and the simulated client.
  \<^item> \<open>Greetings\<close>, \<open>ObserveSample\<close>: the example applications under \<open>src/examples\<close>, programs written against the packages. The impl block of
    the greetings plugin goes through the model of the macro, and what a client created it can read back; the middleware of the observe sample
    changes no answer, and its spans are those of the answered requests.

  This theory composes the host with the server.

  \<^bold>\<open>Correspondence.\<close> Definitions have the names of the source, with a prefix where two modules share one. A struct is
  a record, an enum a datatype, \<open>Result<T, E>\<close> is \<open>E + T\<close>, a panic is \<open>None\<close> or a constructor of its own. A future that is awaited in
  one place is a function; where others may run meanwhile it is a step of an inductive relation whose events say what the
  environment did. Shared cells (\<open>Rc<RefCell<_>>\<close>) are fields of the state that is passed on. Durations and instants
  are numbers. Strings are byte sequences.

  \<^bold>\<open>Parameters and laws.\<close> Crates outside the repository are arguments: \<open>http_lib\<close> with \<open>header_map_laws\<close> and
  \<open>header_text_laws\<close>, \<open>router_lib\<close> (matchit) with \<open>router_laws\<close>, \<open>semaphore_lib\<close> and \<open>mpsc_lib\<close> (tokio) with \<open>semaphore_laws\<close> and
  \<open>mpsc_laws\<close>, \<open>crypto_lib\<close> (base64, SHA-1), \<open>syn_lib\<close> (syn's parse streams) with \<open>syn_laws\<close>, \<open>macro_lib\<close> (JSON text and integer literals) with
  \<open>serde_roundtrip\<close>, \<open>js_lib\<close> (reflection of a JavaScript host) with \<open>reflect_laws\<close>, \<open>full_lib\<close> (the one-chunk body of http-body-util) with \<open>full_laws\<close>, the runner and the transfers of the kernel with \<open>runner_laws\<close> and
  \<open>transfer_laws\<close>, the URL parser, serializers, and the answers of sockets, clocks and the kernel.
  The laws state documented behaviour; \<open>list_http\<close>, \<open>list_router\<close>, \<open>counter_semaphore\<close>, \<open>list_mpsc\<close>, \<open>tok_syn\<close>,
  \<open>sample_lib\<close>, \<open>plain_js\<close>, \<open>list_full\<close> and \<open>plan_runner\<close> satisfy them and serve the witnesses. Two idealisations: a header map has no capacity limit (the crate panics beyond 32768 entries), and
  memory is unbounded, so lengths are natural numbers where the source cannot reach the end of \<open>usize\<close>; counters that wrap are words.

  \<^bold>\<open>Fuel and termination.\<close> Schema normalization follows references: \<open>schema_fuel\<close> counts the
  references that can be active together and the depth of the schemas, and \<open>canonical_schema_dereferences\<close> shows that this much always gives the
  result. The parsers of the macros run on token streams of another crate: \<open>endpoint_macro_terminates\<close> shows that the number of tokens of the
  heaviest attribute is enough. Other loops are structural or have a measure.

  \<^bold>\<open>Not modelled.\<close> Derived serializers, whose code belongs to serde and the contract runtime; plugin descriptors beyond the fields the host reads; the
  spans of tokens and the text of the generated code, whose meaning is modelled instead; \<open>Debug\<close> implementations; accessors of a running host that only ask the
  runner; fixtures, benches and tests. Diagnostics observers see failures and change nothing.
\<close>

section \<open>A replicated host from its builder to its endpoints\<close>

lemma prepared_coordinator:
  assumes "prepare_replicated L S io resolver lanes_of_plan discovered to_json host = Inr (plan, indexes, coordinator)"
    and "distinct (lanes_of_plan plan)"
  shows "\<exists>config. host_config L host = (Inr config :: 'x WebHostError + WebIngressConfig) \<and>
    coordinator_bind L S io config (length (lanes_of_plan plan)) = Inr coordinator"
proof -
  have "\<exists>config. host_config L host = (Inr config :: 'x WebHostError + WebIngressConfig) \<and>
      coordinator_bind L S io config (length (lane_indexes (lanes_of_plan plan))) = Inr coordinator"
    using assms(1) by (auto simp: prepare_replicated_def Let_def try_in_Inr_iff map_err_Inr_iff host_config_def split: option.splits)
  then show ?thesis unfolding lane_indexes_get(3) [OF assms(2)] .
qed

text \<open>C26. A replicated host as a whole keeps the concurrency its builder was given: however the
  lanes of its plan interleave, no more requests are inside endpoints than the ingress configuration of the
  host allows, no lane has more than its share past its own gate, and a waiting request proceeds
  while capacity is left. The lanes of a resolved plan are distinct.\<close>

theorem replicated_host_bounds_dispatches:
  fixes S :: "'s semaphore_lib"
  assumes "semaphore_laws S"
    and "prepare_replicated L S io resolver lanes_of_plan discovered to_json host = Inr (plan, indexes, coordinator)"
    and "distinct (lanes_of_plan plan)" and "host_config L host = (Inr config :: unit WebHostError + WebIngressConfig)"
    and "lanes_of S coordinator sources" and "reaches (call_step S) (requests_start S coordinator sources config) s"
  shows "length (dispatching s) \<le> wic_max_concurrent_requests config \<and>
    length (lane_calls lane s) \<le> div_ceil (wic_max_concurrent_requests config) (length (lanes_of_plan plan)) \<and>
    ((i, k, AwaitsGlobal) \<in> set (rq_calls s) \<and> length (dispatching s) < wic_max_concurrent_requests config \<longrightarrow>
       (\<exists>s'. call_step S s (GlobalPermit i) s'))"
proof -
  obtain config' where "host_config L host = (Inr config' :: unit WebHostError + WebIngressConfig)"
    and bound: "coordinator_bind L S io config' (length (lanes_of_plan plan)) = Inr coordinator"
    using prepared_coordinator [OF assms(2,3)] by blast
  with assms(4) have "config' = config" by simp
  with bound have "coordinator_bind L S io config (length (lanes_of_plan plan)) = Inr coordinator" by simp
  then show ?thesis by (rule dispatches_bounded [OF assms(1) _ assms(5,6)])
qed

theorem replicated_host_bounds_dispatches_witness:
  "length (dispatching \<lparr>rq_global = 127 :: nat, rq_locals = [Some 63], rq_calls = [(7, 0, Dispatching)]\<rparr>) \<le> 128"
proof -
  have "lanes_of counter_semaphore sample_coordinator [sample_replica]" by (simp add: lanes_of_def)
  from replicated_host_bounds_dispatches [where lanes_of_plan = "\<lambda>plan. plan", OF counter_semaphore_laws shop_prepared _ shop_config this
      sample_dispatch [folded sample_requests]]
  show ?thesis by (simp add: default_config_def)
qed

end
